(* ===== verification/Prelude.thy ===== *)
theory Prelude
  imports Complex_Main
begin

text \<open>
  Shared vocabulary of the development: the errors a JavaScript computation can end with, the
  result type that carries them, and the small facts on integers, lists and options that several
  components use. \<open>js_simps\<close> collects the equations the component proofs unfold by default and
  \<open>js_bounds\<close> the size facts used by the arithmetic of prices and shares.
\<close>

named_theorems js_simps \<open>defining equations of the modelled JavaScript primitives\<close>
named_theorems js_bounds \<open>bounds on modelled numbers\<close>

section \<open>Errors and results\<close>

text \<open>
  The built-in exceptions the modelled code can raise, and \<open>JsError\<close> for an explicit
  \<open>throw new Error(msg)\<close>. A fallible computation is a sum: \<open>Inl\<close> the exception, \<open>Inr\<close> the value.
\<close>

datatype js_error = RangeError | SyntaxError | TypeError | JsError string

type_synonym 'a result = "js_error + 'a"

definition bind_result :: "'a result \<Rightarrow> ('a \<Rightarrow> 'b result) \<Rightarrow> 'b result" where
  "bind_result r f = (case r of Inl e \<Rightarrow> Inl e | Inr v \<Rightarrow> f v)"

lemma bind_result_simps [simp]:
  "bind_result (Inl e) f = Inl e"
  "bind_result (Inr v) f = f v"
  by (simp_all add: bind_result_def)

lemma bind_result_Inr_iff:
  "bind_result r f = Inr w \<longleftrightarrow> (\<exists>v. r = Inr v \<and> f v = Inr w)"
  by (cases r) simp_all

definition is_ok :: "'a result \<Rightarrow> bool" where
  "is_ok r = (case r of Inl _ \<Rightarrow> False | Inr _ \<Rightarrow> True)"

lemma is_ok_simps [simp]: "is_ok (Inr v)" "\<not> is_ok (Inl e)"
  by (simp_all add: is_ok_def)

section \<open>Integer arithmetic\<close>

lemma floor_half_up_int [js_bounds]:
  fixes x :: rat
  assumes "\<bar>x - of_int n\<bar> < 1 / 2"
  shows "\<lfloor>x + 1 / 2\<rfloor> = n"
proof (rule floor_unique)
  show "of_int n \<le> x + 1 / 2" using assms by linarith
  show "x + 1 / 2 < of_int n + 1" using assms by linarith
qed

section \<open>Lists\<close>

lemma distinct_map_filter: "distinct (map f xs) \<Longrightarrow> distinct (map f (filter p xs))"
  by (induction xs) auto

lemma sum_list_nonneg_map:
  fixes f :: "'a \<Rightarrow> rat"
  shows "(\<And>x. x \<in> set xs \<Longrightarrow> 0 \<le> f x) \<Longrightarrow> 0 \<le> sum_list (map f xs)"
  by (induction xs) auto

text \<open>Texts joined with a separator that the first part does not have.\<close>

lemma split_separator:
  assumes "a @ x # b = c @ x # d" "x \<notin> set a" "x \<notin> set c"
  shows "a = c \<and> b = d"
  using assms
proof (induction a arbitrary: c)
  case Nil
  then show ?case by (cases c) auto
next
  case (Cons y a)
  then show ?case by (cases c) auto
qed

end
