(* ===== verification/JsNumber.thy ===== *)
theory JsNumber
  imports Prelude
begin

text \<open>
  JavaScript's \<open>Number\<close>: IEEE-754 binary64 with rounding to nearest, ties to even. A finite number
  is the rational it denotes; every arithmetic operation is computed exactly and then rounded by
  \<open>fl\<close>, which works at precision 53 with the exponent range of binary64 (subnormals included), and
  overflows to an infinity. The two zeros are identified: the modelled code never divides by a zero
  (each division is guarded by a test of its divisor) and no other modelled operation tells them apart.
\<close>

section \<open>Binary logarithm of a rational\<close>

function int_log2 :: "int \<Rightarrow> nat" where
  "int_log2 n = (if n \<le> 1 then 0 else Suc (int_log2 (n div 2)))"
  by pat_completeness auto
termination
  by (relation "measure nat") auto

declare int_log2.simps [simp del]

definition rat_log2 :: "rat \<Rightarrow> int" where
  "rat_log2 x =
     (if 1 \<le> x then int (int_log2 \<lfloor>x\<rfloor>) else - int (int_log2 (\<lceil>1 / x\<rceil> - 1)) - 1)"

lemma int_log2_bounds:
  "1 \<le> n \<Longrightarrow> 2 ^ int_log2 n \<le> n \<and> n < 2 ^ Suc (int_log2 n)"
proof (induction n rule: int_log2.induct)
  case (1 n)
  show ?case
  proof (cases "n \<le> 1")
    case True
    with "1.prems" show ?thesis by (simp add: int_log2.simps)
  next
    case False
    then have "2 ^ int_log2 (n div 2) \<le> n div 2 \<and> n div 2 < 2 ^ Suc (int_log2 (n div 2))"
      using "1.IH" by simp
    moreover have "int_log2 n = Suc (int_log2 (n div 2))"
      using False by (simp add: int_log2.simps)
    ultimately show ?thesis by simp linarith
  qed
qed

lemma powi_of_nat_rat: "(2::rat) powi (int k) = of_int (2 ^ k)"
  by simp

lemma rat_log2_bounds:
  assumes "0 < x"
  shows "2 powi rat_log2 x \<le> x \<and> x < 2 powi (rat_log2 x + 1)"
proof (cases "1 \<le> x")
  case True
  define k where "k = int_log2 \<lfloor>x\<rfloor>"
  have n: "1 \<le> \<lfloor>x\<rfloor>" using True by simp
  have b: "(2::int) ^ k \<le> \<lfloor>x\<rfloor>" "\<lfloor>x\<rfloor> + 1 \<le> 2 ^ Suc k"
    using int_log2_bounds [OF n] by (auto simp: k_def)
  have "(2::rat) ^ k \<le> of_int \<lfloor>x\<rfloor>"
    using of_int_le_iff [where ?'a = rat, THEN iffD2, OF b(1)] by simp
  also have "\<dots> \<le> x" by simp
  finally have lo: "(2::rat) ^ k \<le> x" .
  have "x < of_int (\<lfloor>x\<rfloor> + 1)" by linarith
  also have "\<dots> \<le> (2::rat) ^ Suc k"
    using of_int_le_iff [where ?'a = rat, THEN iffD2, OF b(2)] by simp
  finally have hi: "x < 2 ^ Suc k" .
  have e: "rat_log2 x = int k" using True by (simp add: rat_log2_def k_def)
  have "(2::rat) powi (int k + 1) = 2 ^ Suc k"
    by (simp add: power_int_add)
  with lo hi e show ?thesis by simp
next
  case False
  define m where "m = \<lceil>1 / x\<rceil> - 1"
  define k where "k = int_log2 m"
  have inv: "1 < 1 / x" using False assms by (simp add: field_simps)
  then have m1: "1 \<le> m" by (simp add: m_def)
  have b: "(2::int) ^ k \<le> m" "m + 1 \<le> 2 ^ Suc k"
    using int_log2_bounds [OF m1] by (auto simp: k_def)
  have "of_int m < 1 / x" unfolding m_def by linarith
  moreover have "(2::rat) ^ k \<le> of_int m"
    using of_int_le_iff [where ?'a = rat, THEN iffD2, OF b(1)] by simp
  ultimately have "2 ^ k < 1 / x" by linarith
  then have hi: "x < 1 / 2 ^ k" using assms by (simp add: field_simps)
  have "1 / x \<le> of_int (m + 1)" unfolding m_def by simp
  also have "\<dots> \<le> (2::rat) ^ Suc k"
    using of_int_le_iff [where ?'a = rat, THEN iffD2, OF b(2)] by simp
  finally have lo: "1 / 2 ^ Suc k \<le> x" using assms by (simp add: field_simps)
  have e: "rat_log2 x = - int (Suc k)"
    using False by (simp add: rat_log2_def k_def m_def)
  have "(2::rat) powi (- int (Suc k)) = 1 / 2 ^ Suc k"
    by (simp add: power_int_minus field_simps del: power_Suc of_nat_Suc)
  moreover have "(2::rat) powi (- int (Suc k) + 1) = 1 / 2 ^ k"
  proof -
    have "- int (Suc k) + 1 = - int k" by simp
    then show ?thesis by (simp add: power_int_minus field_simps)
  qed
  ultimately show ?thesis using lo hi e by simp
qed

lemma rat_log2_mono:
  assumes "0 < x" "x \<le> y"
  shows "rat_log2 x \<le> rat_log2 y"
proof (rule ccontr)
  assume "\<not> ?thesis"
  then have "rat_log2 y + 1 \<le> rat_log2 x" by simp
  then have "(2::rat) powi (rat_log2 y + 1) \<le> 2 powi rat_log2 x"
    by (intro power_int_increasing) auto
  then show False
    using rat_log2_bounds [of x] rat_log2_bounds [of y] assms by simp
qed

lemma rat_log2_less:
  assumes "0 < x" "x < 2 powi e"
  shows "rat_log2 x < e"
proof (rule ccontr)
  assume "\<not> ?thesis"
  then have "(2::rat) powi e \<le> 2 powi rat_log2 x"
    by (intro power_int_increasing) auto
  then show False using rat_log2_bounds [of x] assms by simp
qed

lemma rat_log2_ge:
  assumes "2 powi e \<le> x"
  shows "e \<le> rat_log2 x"
proof (rule ccontr)
  assume "\<not> ?thesis"
  then have "(2::rat) powi (rat_log2 x + 1) \<le> 2 powi e"
    by (intro power_int_increasing) auto
  moreover have "0 < x"
    using assms zero_less_power_int [of "2::rat" e] by linarith
  ultimately show False using rat_log2_bounds [of x] assms by simp
qed

section \<open>Rounding to nearest, ties to even\<close>

definition rne :: "rat \<Rightarrow> int" where
  "rne x =
     (let f = \<lfloor>x\<rfloor>; d = x - of_int f
      in if d < 1 / 2 then f else if 1 / 2 < d then f + 1 else if even f then f else f + 1)"

lemma rne_range: "\<lfloor>x\<rfloor> \<le> rne x \<and> rne x \<le> \<lfloor>x\<rfloor> + 1"
  by (simp add: rne_def Let_def)

lemma rne_of_int [simp]: "rne (of_int n) = n"
  by (simp add: rne_def)

lemma rne_error: "\<bar>of_int (rne x) - x\<bar> \<le> 1 / 2"
proof -
  have "of_int \<lfloor>x\<rfloor> \<le> x" "x < of_int \<lfloor>x\<rfloor> + 1" by (rule of_int_floor_le, linarith)
  then show ?thesis by (auto simp: rne_def Let_def abs_le_iff)
qed

lemma rne_mono: "x \<le> y \<Longrightarrow> rne x \<le> rne y"
proof -
  assume le: "x \<le> y"
  show ?thesis
  proof (cases "\<lfloor>x\<rfloor> = \<lfloor>y\<rfloor>")
    case True
    with le show ?thesis by (auto simp: rne_def Let_def)
  next
    case False
    with floor_mono [OF le] have "\<lfloor>x\<rfloor> + 1 \<le> \<lfloor>y\<rfloor>" by simp
    then show ?thesis using rne_range [of x] rne_range [of y] by linarith
  qed
qed

lemma rne_minus: "rne (- x) = - rne x"
proof (cases "x = of_int \<lfloor>x\<rfloor>")
  case True
  then obtain n where "x = of_int n" by blast
  then show ?thesis using rne_of_int [of "- n"] by simp
next
  case False
  then have "of_int \<lfloor>x\<rfloor> < x" using of_int_floor_le [of x] by linarith
  then have f: "\<lfloor>- x\<rfloor> = - \<lfloor>x\<rfloor> - 1"
    using of_int_floor_le [of x] floor_correct [of x] by (intro floor_unique) simp_all
  show ?thesis by (auto simp: rne_def Let_def f)
qed

text \<open>\<open>ulp_exp x\<close> is the exponent of the last place kept of \<open>x\<close>: 52 places below the leading bit,
  and never below that of the smallest subnormal.\<close>

definition ulp_exp :: "rat \<Rightarrow> int" where
  "ulp_exp x = max (rat_log2 \<bar>x\<bar> - 52) (- 1074)"

definition fl :: "rat \<Rightarrow> rat" where
  "fl x = (if x = 0 then 0
           else of_int (rne (x / 2 powi ulp_exp x)) * 2 powi ulp_exp x)"

lemma fl_0 [simp]: "fl 0 = 0"
  by (simp add: fl_def)

lemma fl_minus: "fl (- x) = - fl x"
  by (simp add: fl_def ulp_exp_def rne_minus flip: minus_divide_left)

lemma two_powi_pos [simp]: "(0::rat) < 2 powi e"
  by simp

lemma fl_nonneg: "0 \<le> x \<Longrightarrow> 0 \<le> fl x"
  using rne_mono [of 0 "x / 2 powi ulp_exp x"] rne_of_int [of 0]
  by (simp add: fl_def)

text \<open>Representable numbers are fixed points of rounding.\<close>

lemma fl_exact_less:
  assumes "\<bar>m\<bar> < 2 ^ 53" "- 1074 \<le> e"
  shows "fl (of_int m * 2 powi e) = of_int m * 2 powi e"
proof (cases "m = 0")
  case False
  define x :: rat where "x = of_int m * 2 powi e"
  have ax: "0 < \<bar>x\<bar>" using False by (simp add: x_def)
  have "\<bar>x\<bar> = of_int \<bar>m\<bar> * 2 powi e" by (simp add: x_def abs_mult)
  also have "\<dots> < of_int (2 ^ 53) * 2 powi e"
    using assms(1) by (intro mult_strict_right_mono) (simp_all only: of_int_less_iff two_powi_pos)
  also have "\<dots> = 2 powi (53 + e)" by (simp add: power_int_add)
  finally have "rat_log2 \<bar>x\<bar> < 53 + e" using ax by (intro rat_log2_less)
  then have u: "ulp_exp x \<le> e" using assms(2) by (simp add: ulp_exp_def)
  define k where "k = nat (e - ulp_exp x)"
  have "e = int k + ulp_exp x" using u by (simp add: k_def)
  then have "(2::rat) powi e = 2 ^ k * 2 powi ulp_exp x"
    by (metis power_int_add power_int_of_nat zero_neq_numeral)
  then have "of_int m * 2 powi e = of_int (m * 2 ^ k) * (2::rat) powi ulp_exp x"
    by simp
  then have "x / 2 powi ulp_exp x = of_int (m * 2 ^ k)"
    unfolding x_def by (simp add: nonzero_divide_eq_eq)
  then have "rne (x / 2 powi ulp_exp x) = m * 2 ^ k" by (metis rne_of_int)
  then have "fl x = of_int (m * 2 ^ k) * 2 powi ulp_exp x"
    using ax by (simp add: fl_def)
  also have "\<dots> = x" using \<open>2 powi e = _\<close> by (simp add: x_def)
  finally show ?thesis by (simp add: x_def)
qed simp

lemma fl_exact:
  assumes "\<bar>m\<bar> \<le> 2 ^ 53" "- 1074 \<le> e"
  shows "fl (of_int m * 2 powi e) = of_int m * 2 powi e"
proof (cases "\<bar>m\<bar> < 2 ^ 53")
  case True
  then show ?thesis using assms(2) by (rule fl_exact_less)
next
  case False
  then have m: "m = 2 * 2 ^ 52 \<or> m = 2 * (- (2 ^ 52))" using assms(1) by auto
  then obtain m' :: int where m': "m = 2 * m'" "\<bar>m'\<bar> < 2 ^ 53" by auto
  have "of_int m * (2::rat) powi e = of_int m' * 2 powi (e + 1)"
    by (simp add: m'(1) power_int_add)
  then show ?thesis using fl_exact_less [OF m'(2), of "e + 1"] assms(2) by simp
qed

lemma fl_of_int: "\<bar>n\<bar> \<le> 2 ^ 53 \<Longrightarrow> fl (of_int n) = of_int n"
  using fl_exact [of n 0] by simp

text \<open>A nonzero result carries at most 53 significant bits, so rounding is idempotent.\<close>

lemma scaled_bound:
  assumes "x \<noteq> 0"
  shows "\<bar>x\<bar> / 2 powi ulp_exp x \<le> 2 ^ 53"
proof -
  have "\<bar>x\<bar> < 2 powi (rat_log2 \<bar>x\<bar> + 1)" using rat_log2_bounds assms by simp
  also have "\<dots> \<le> 2 powi (53 + ulp_exp x)"
    by (intro power_int_increasing) (simp_all add: ulp_exp_def)
  also have "\<dots> = 2 ^ 53 * 2 powi ulp_exp x" by (simp add: power_int_add)
  finally show ?thesis by (simp add: divide_le_eq)
qed

lemma rne_abs_le: "\<bar>x\<bar> \<le> of_int n \<Longrightarrow> \<bar>rne x\<bar> \<le> n"
  using rne_mono [of x "of_int n"] rne_mono [of "of_int (- n)" x]
  by (simp only: rne_of_int abs_le_iff) (simp add: rne_minus)

lemma fl_idem [simp]: "fl (fl x) = fl x"
proof (cases "x = 0")
  case False
  have "\<bar>x / 2 powi ulp_exp x\<bar> \<le> of_int (2 ^ 53)"
    using scaled_bound [OF False] by (simp add: abs_divide)
  then have "\<bar>rne (x / 2 powi ulp_exp x)\<bar> \<le> 2 ^ 53" by (rule rne_abs_le)
  moreover have "- 1074 \<le> ulp_exp x" by (simp add: ulp_exp_def)
  ultimately show ?thesis using False fl_exact by (simp add: fl_def)
qed simp

lemma fl_pos_mono:
  assumes "0 < x" "x \<le> y"
  shows "fl x \<le> fl y"
proof -
  have y: "0 < y" using assms by linarith
  have le: "ulp_exp x \<le> ulp_exp y"
    using rat_log2_mono [OF assms] assms y by (simp add: ulp_exp_def)
  show ?thesis
  proof (cases "ulp_exp x = ulp_exp y")
    case True
    then have "rne (x / 2 powi ulp_exp x) \<le> rne (y / 2 powi ulp_exp y)"
      using assms(2) by (intro rne_mono) (simp add: divide_right_mono)
    then show ?thesis using True assms y by (simp add: fl_def)
  next
    case False
    with le have lt: "ulp_exp x + 1 \<le> ulp_exp y" by simp
    have "rne (x / 2 powi ulp_exp x) \<le> 2 ^ 53"
      using rne_abs_le [of "x / 2 powi ulp_exp x" "2 ^ 53"] scaled_bound [of x] assms(1)
      by (simp add: abs_divide)
    then have "of_int (rne (x / 2 powi ulp_exp x)) \<le> (of_int (2 ^ 53) :: rat)"
      by (simp only: of_int_le_iff)
    then have "fl x \<le> of_int (2 ^ 53) * 2 powi ulp_exp x"
      using assms(1) by (simp add: fl_def)
    also have "\<dots> = 2 ^ 52 * 2 powi (ulp_exp x + 1)" by (simp add: power_int_add)
    also have "\<dots> \<le> 2 ^ 52 * 2 powi ulp_exp y"
      using lt by (intro mult_left_mono power_int_increasing) auto
    also have "\<dots> \<le> of_int (rne (y / 2 powi ulp_exp y)) * 2 powi ulp_exp y"
    proof (rule mult_right_mono)
      have "ulp_exp y = rat_log2 y - 52"
        using lt y by (auto simp: ulp_exp_def max_def split: if_splits)
      then have "2 ^ 52 * 2 powi ulp_exp y = (2::rat) powi rat_log2 y"
        by (simp add: power_int_diff)
      also have "\<dots> \<le> y" using rat_log2_bounds [OF y] by simp
      finally have "of_int (2 ^ 52) \<le> y / 2 powi ulp_exp y"
        by (simp add: le_divide_eq)
      from rne_mono [OF this] have "2 ^ 52 \<le> rne (y / 2 powi ulp_exp y)"
        by (simp only: rne_of_int)
      then show "(2::rat) ^ 52 \<le> of_int (rne (y / 2 powi ulp_exp y))"
        by (metis of_int_le_iff of_int_numeral of_int_power)
    qed simp
    also have "\<dots> = fl y" using y by (simp add: fl_def)
    finally show ?thesis .
  qed
qed

lemma fl_mono: "x \<le> y \<Longrightarrow> fl x \<le> fl y"
proof -
  assume le: "x \<le> y"
  consider "0 < x" | "x \<le> 0" "0 \<le> y" | "y < 0" by linarith
  then show ?thesis
  proof cases
    case 1 then show ?thesis using le by (rule fl_pos_mono)
  next
    case 2
    then have "fl x \<le> 0" using fl_nonneg [of "- x"] by (simp add: fl_minus)
    also have "0 \<le> fl y" using 2 by (simp add: fl_nonneg)
    finally show ?thesis .
  next
    case 3
    then have "fl (- y) \<le> fl (- x)" using le by (intro fl_pos_mono) auto
    then show ?thesis by (simp add: fl_minus)
  qed
qed

text \<open>The rounding error: half a unit in the last place, hence a relative error of at most
  \<open>2 ^ -53\<close> above the subnormal range.\<close>

lemma fl_error_ulp: "\<bar>fl x - x\<bar> \<le> 2 powi ulp_exp x / 2"
proof (cases "x = 0")
  case False
  define q where "q = x / 2 powi ulp_exp x"
  have "\<bar>of_int (rne q) - q\<bar> * 2 powi ulp_exp x \<le> 1 / 2 * 2 powi ulp_exp x"
    by (intro mult_right_mono rne_error) simp
  moreover have "\<bar>of_int (rne q) - q\<bar> * 2 powi ulp_exp x
      = \<bar>of_int (rne q) * 2 powi ulp_exp x - q * 2 powi ulp_exp x\<bar>"
    by (simp add: abs_mult flip: left_diff_distrib)
  moreover have "q * 2 powi ulp_exp x = x" by (simp add: q_def)
  moreover have "fl x = of_int (rne q) * 2 powi ulp_exp x" using False by (simp add: fl_def q_def)
  ultimately show ?thesis by linarith
qed simp

lemma fl_error:
  assumes "2 powi (- 1022) \<le> \<bar>x\<bar>"
  shows "\<bar>fl x - x\<bar> \<le> \<bar>x\<bar> / 2 ^ 53"
proof -
  have "- 1022 \<le> rat_log2 \<bar>x\<bar>" using assms by (rule rat_log2_ge)
  then have u: "ulp_exp x = rat_log2 \<bar>x\<bar> - 52" by (simp add: ulp_exp_def)
  have x0: "0 < \<bar>x\<bar>" using assms zero_less_power_int [of "2::rat" "- 1022"] by linarith
  have "(2::rat) powi ulp_exp x = 2 powi rat_log2 \<bar>x\<bar> / 2 ^ 52" by (simp add: u power_int_diff)
  also have "\<dots> \<le> \<bar>x\<bar> / 2 ^ 52"
    using rat_log2_bounds [OF x0] by (intro divide_right_mono) auto
  finally have "2 powi ulp_exp x / 2 \<le> \<bar>x\<bar> / 2 ^ 52 / 2" by (intro divide_right_mono) auto
  moreover have "\<bar>x\<bar> / 2 ^ 52 / 2 = \<bar>x\<bar> / 2 ^ 53" by simp
  ultimately show ?thesis using fl_error_ulp [of x] by linarith
qed

section \<open>The rounding interface\<close>

text \<open>
  What the price and quantity code relies on of a rounding: it is monotone, odd, idempotent, exact on
  integers up to a bound, and accurate to half a unit in 53 bits. The order protocol's facts are
  proved from these laws only.
\<close>

locale rounding =
  fixes rd :: "rat \<Rightarrow> rat" and maxint :: int
  assumes rd_mono: "x \<le> y \<Longrightarrow> rd x \<le> rd y"
    and rd_odd: "rd (- x) = - rd x"
    and rd_idem: "rd (rd x) = rd x"
    and rd_int: "\<bar>n\<bar> \<le> maxint \<Longrightarrow> rd (of_int n) = of_int n"
    and rd_err: "2 powi (- 1022) \<le> \<bar>x\<bar> \<Longrightarrow> \<bar>rd x - x\<bar> \<le> \<bar>x\<bar> / 2 ^ 53"
    and maxint: "2 ^ 53 \<le> maxint"
begin

lemma rd_zero: "rd 0 = 0"
  using rd_int [of 0] maxint by simp

lemma rd_one: "rd 1 = 1"
  using rd_int [of 1] maxint by simp

lemma rd_ge: "rd a = a \<Longrightarrow> a \<le> x \<Longrightarrow> a \<le> rd x"
  using rd_mono [of a x] by simp

lemma rd_le: "rd b = b \<Longrightarrow> x \<le> b \<Longrightarrow> rd x \<le> b"
  using rd_mono [of x b] by simp

lemma rd_nonneg: "0 \<le> x \<Longrightarrow> 0 \<le> rd x"
  using rd_ge [OF rd_zero] .

lemma rd_unit: "0 \<le> x \<Longrightarrow> x \<le> 1 \<Longrightarrow> 0 \<le> rd x \<and> rd x \<le> 1"
  using rd_nonneg rd_le [OF rd_one] by blast

lemma rd_pos:
  assumes "2 powi (- 1022) \<le> x"
  shows "0 < rd x"
proof -
  have x: "0 < x" using assms zero_less_power_int [of "2::rat" "- 1022"] by linarith
  then have "\<bar>x\<bar> / 2 ^ 53 < x" by simp
  then show ?thesis using rd_err [of x] assms x by linarith
qed

text \<open>Dividing a scaled integer, rounding, scaling back and rounding half up recovers it: the
  quotient is off by at most \<open>2 ^ -53\<close> of itself, so the scaled product by less than a half.\<close>

lemma scaled_error:
  assumes "0 < s" "s \<le> 2 ^ 1000"
  shows "\<bar>rd (of_int n / of_int s) * of_int s - of_int n\<bar> \<le> of_int \<bar>n\<bar> / 2 ^ 53"
proof (cases "n = 0")
  case False
  define q :: rat where "q = of_int n / of_int s"
  have s: "(0::rat) < of_int s" "(of_int s :: rat) \<le> 2 ^ 1000"
    using assms of_int_le_iff [where ?'a = rat, of s "2 ^ 1000"] by simp_all
  have n: "(1::rat) \<le> of_int \<bar>n\<bar>" using False by linarith
  have aq: "\<bar>q\<bar> = of_int \<bar>n\<bar> / of_int s" using s(1) by (simp add: q_def abs_divide)
  have "(2::rat) powi (- 1022) \<le> 2 powi (- 1000)" by (intro power_int_increasing) auto
  also have "\<dots> = 1 / 2 ^ 1000" by (simp add: power_int_minus field_simps)
  also have "\<dots> \<le> 1 / of_int s" using s by (intro divide_left_mono) auto
  also have "\<dots> \<le> \<bar>q\<bar>" unfolding aq using s(1) n by (intro divide_right_mono) linarith+
  finally have "\<bar>rd q - q\<bar> \<le> \<bar>q\<bar> / 2 ^ 53" by (rule rd_err)
  then have "\<bar>rd q - q\<bar> * of_int s \<le> \<bar>q\<bar> / 2 ^ 53 * of_int s"
    using s(1) by (intro mult_right_mono) auto
  moreover have "\<bar>rd q - q\<bar> * of_int s = \<bar>rd q * of_int s - q * of_int s\<bar>"
    using s(1) by (simp add: abs_mult flip: left_diff_distrib)
  moreover have "q * of_int s = of_int n" using s(1) by (simp add: q_def)
  moreover have "\<bar>q\<bar> / 2 ^ 53 * of_int s = of_int \<bar>n\<bar> / 2 ^ 53" using s(1) by (simp add: aq)
  ultimately show ?thesis by (simp add: q_def)
qed (simp add: rd_zero)

end

interpretation fl: rounding fl "2 ^ 53"
  by unfold_locales (erule fl_mono fl_of_int fl_error | rule fl_minus fl_idem order_refl)+

section \<open>The Number type\<close>

datatype jsn = JNaN | JInf | JNInf | JNum rat

text \<open>Rounding an exact finite result into the type.\<close>

definition jsfin :: "rat \<Rightarrow> jsn" where
  "jsfin x = (let r = fl x in if 2 ^ 1024 \<le> r then JInf else if r \<le> - (2 ^ 1024) then JNInf else JNum r)"

instantiation jsn :: "{zero, one, plus, uminus, minus, times, inverse, abs, ord}"
begin

definition "0 = JNum 0"
definition "1 = JNum 1"

fun uminus_jsn :: "jsn \<Rightarrow> jsn" where
  "- JNaN = JNaN"
| "- JInf = JNInf"
| "- JNInf = JInf"
| "- JNum a = JNum (- a)"

fun abs_jsn :: "jsn \<Rightarrow> jsn" where
  "\<bar>JNaN\<bar> = JNaN"
| "\<bar>JInf\<bar> = JInf"
| "\<bar>JNInf\<bar> = JInf"
| "\<bar>JNum a\<bar> = JNum \<bar>a\<bar>"

fun plus_jsn :: "jsn \<Rightarrow> jsn \<Rightarrow> jsn" where
  "JNum a + JNum b = jsfin (a + b)"
| "JNaN + _ = JNaN"
| "_ + JNaN = JNaN"
| "JInf + JNInf = JNaN"
| "JNInf + JInf = JNaN"
| "JInf + _ = JInf"
| "_ + JInf = JInf"
| "JNInf + _ = JNInf"
| "_ + JNInf = JNInf"

definition minus_jsn :: "jsn \<Rightarrow> jsn \<Rightarrow> jsn" where
  "a - b = a + (- (b :: jsn))"

definition inf_times :: "bool \<Rightarrow> rat \<Rightarrow> jsn" where
  "inf_times neg a = (if a = 0 then JNaN else if (a < 0) = neg then JInf else JNInf)"

fun times_jsn :: "jsn \<Rightarrow> jsn \<Rightarrow> jsn" where
  "JNum a * JNum b = jsfin (a * b)"
| "JNaN * _ = JNaN"
| "_ * JNaN = JNaN"
| "JInf * JInf = JInf"
| "JNInf * JNInf = JInf"
| "JInf * JNInf = JNInf"
| "JNInf * JInf = JNInf"
| "JInf * JNum a = inf_times False a"
| "JNum a * JInf = inf_times False a"
| "JNInf * JNum a = inf_times True a"
| "JNum a * JNInf = inf_times True a"

fun divide_jsn :: "jsn \<Rightarrow> jsn \<Rightarrow> jsn" where
  "JNum a div JNum b =
     (if b = 0 then (if a = 0 then JNaN else if 0 < a then JInf else JNInf) else jsfin (a / b))"
| "JNaN div _ = JNaN"
| "_ div JNaN = JNaN"
| "JNum a div _ = JNum 0"
| "JInf div JNum b = (if b < 0 then JNInf else JInf)"
| "JNInf div JNum b = (if b < 0 then JInf else JNInf)"
| "(_ :: jsn) div _ = JNaN"

definition "inverse (x :: jsn) = 1 div x"

fun less_eq_jsn :: "jsn \<Rightarrow> jsn \<Rightarrow> bool" where
  "(JNaN \<le> _) = False"
| "(_ \<le> JNaN) = False"
| "(JNInf \<le> _) = True"
| "(_ \<le> JInf) = True"
| "(JNum a \<le> JNum b) = (a \<le> b)"
| "((_ :: jsn) \<le> _) = False"

fun less_jsn :: "jsn \<Rightarrow> jsn \<Rightarrow> bool" where
  "(JNaN < _) = False"
| "(_ < JNaN) = False"
| "(JNInf < b) = (b \<noteq> JNInf)"
| "(a < JInf) = (a \<noteq> JInf)"
| "(JNum a < JNum b) = (a < b)"
| "((_ :: jsn) < _) = False"

instance ..

end

lemmas jsn_zero_one [js_simps] = zero_jsn_def one_jsn_def

lemma minus_num [simp]: "JNum a - JNum b = jsfin (a - b)"
  by (simp add: minus_jsn_def)

lemma divide_num [simp]: "b \<noteq> 0 \<Longrightarrow> JNum a / JNum b = jsfin (a / b)"
  by simp

section \<open>Primitives of the language\<close>

text \<open>Truthiness of a number, \<open>Number.isFinite\<close>, \<open>===\<close>, and the source literals.\<close>

definition truthy :: "jsn \<Rightarrow> bool" where
  "truthy x \<longleftrightarrow> x \<noteq> JNaN \<and> x \<noteq> JNum 0"

definition js_or :: "jsn \<Rightarrow> jsn \<Rightarrow> jsn" where
  "js_or x y = (if truthy x then x else y)"

fun is_finite :: "jsn \<Rightarrow> bool" where
  "is_finite (JNum _) = True"
| "is_finite _ = False"

fun is_integer :: "jsn \<Rightarrow> bool" where
  "is_integer (JNum a) = (a = of_int \<lfloor>a\<rfloor>)"
| "is_integer _ = False"

definition js_eq :: "jsn \<Rightarrow> jsn \<Rightarrow> bool" where
  "js_eq x y \<longleftrightarrow> x \<noteq> JNaN \<and> x = y"

abbreviation lit :: "rat \<Rightarrow> jsn" where
  "lit q \<equiv> jsfin q"

text \<open>\<open>Math.max\<close>, \<open>Math.min\<close>, \<open>Math.floor\<close> and \<open>Math.round\<close> (half rounds up).\<close>

definition jmax :: "jsn \<Rightarrow> jsn \<Rightarrow> jsn" where
  "jmax x y = (if x = JNaN \<or> y = JNaN then JNaN else if x < y then y else x)"

definition jmin :: "jsn \<Rightarrow> jsn \<Rightarrow> jsn" where
  "jmin x y = (if x = JNaN \<or> y = JNaN then JNaN else if y < x then y else x)"

definition jmax_list :: "jsn list \<Rightarrow> jsn" where
  "jmax_list xs = foldl jmax JNInf xs"

definition jmin_list :: "jsn list \<Rightarrow> jsn" where
  "jmin_list xs = foldl jmin JInf xs"

fun jfloor :: "jsn \<Rightarrow> jsn" where
  "jfloor (JNum a) = JNum (of_int \<lfloor>a\<rfloor>)"
| "jfloor x = x"

fun jround :: "jsn \<Rightarrow> jsn" where
  "jround (JNum a) = JNum (of_int \<lfloor>a + 1 / 2\<rfloor>)"
| "jround x = x"

text \<open>\<open>BigInt(x)\<close> of a number, and \<open>Number(n)\<close> of a bigint.\<close>

fun bigint_of_num :: "jsn \<Rightarrow> int result" where
  "bigint_of_num (JNum a) = (if a = of_int \<lfloor>a\<rfloor> then Inr \<lfloor>a\<rfloor> else Inl RangeError)"
| "bigint_of_num _ = Inl RangeError"

definition num_of_bigint :: "int \<Rightarrow> jsn" where
  "num_of_bigint n = jsfin (of_int n)"

text \<open>Bigint division: truncation towards zero, \<open>RangeError\<close> on a zero divisor.\<close>

definition bigint_div :: "int \<Rightarrow> int \<Rightarrow> int result" where
  "bigint_div a b =
     (if b = 0 then Inl RangeError
      else Inr (if (a < 0) = (b < 0) then \<bar>a\<bar> div \<bar>b\<bar> else - (\<bar>a\<bar> div \<bar>b\<bar>)))"

lemma bigint_div_nonneg: "0 \<le> a \<Longrightarrow> 0 < b \<Longrightarrow> bigint_div a b = Inr (a div b)"
  by (simp add: bigint_div_def)

text \<open>\<open>10 ** n\<close> and \<open>Math.pow(10, n)\<close> for a natural exponent.\<close>

definition pow10 :: "nat \<Rightarrow> jsn" where
  "pow10 n = jsfin (10 ^ n)"

section \<open>Finite results\<close>

lemma jsfin_small:
  assumes "\<bar>x\<bar> \<le> of_int n" "n \<le> 2 ^ 53"
  shows "jsfin x = JNum (fl x)" "\<bar>fl x\<bar> \<le> of_int n"
proof -
  have "\<bar>n\<bar> \<le> 2 ^ 53" using assms abs_ge_zero [of x] by linarith
  then have n: "fl (of_int n) = of_int n" "fl (- of_int n) = - of_int n"
    by (auto simp: fl_of_int fl_minus)
  have "fl x \<le> of_int n" "- of_int n \<le> fl x"
    using fl.rd_le [OF n(1)] fl.rd_ge [OF n(2)] assms(1) by (auto simp: abs_le_iff)
  then show b: "\<bar>fl x\<bar> \<le> of_int n" by (simp add: abs_le_iff)
  have "of_int n \<le> (of_int (2 ^ 53) :: rat)" using assms(2) by (simp only: of_int_le_iff)
  also have "\<dots> < 2 ^ 1024" by simp
  finally show "jsfin x = JNum (fl x)" using b by (auto simp: jsfin_def Let_def abs_le_iff)
qed

lemma jsfin_unit:
  "\<bar>x\<bar> \<le> 1 \<Longrightarrow> jsfin x = JNum (fl x)"
  using jsfin_small [of x 1] by simp

lemma jsfin_int:
  "\<bar>n\<bar> \<le> 2 ^ 53 \<Longrightarrow> jsfin (of_int n) = JNum (of_int n)"
  using jsfin_small [of "of_int n" "2 ^ 53"] fl_of_int [of n]
  by (simp flip: of_int_abs)

lemma jsfin_0 [simp]: "jsfin 0 = JNum 0"
  using jsfin_int [of 0] by simp

lemma jsfin_1 [simp]: "jsfin 1 = JNum 1"
  using jsfin_int [of 1] by simp

lemma jsfin_numeral:
  "numeral k \<le> (2 ^ 53 :: int) \<Longrightarrow> jsfin (numeral k) = JNum (numeral k)"
  using jsfin_int [of "numeral k"] by simp

lemma fl_dyadic:
  assumes "\<bar>m\<bar> \<le> 2 ^ 53" "k \<le> 1074"
  shows "fl (of_int m / 2 ^ k) = of_int m / 2 ^ k"
proof -
  have "of_int m / 2 ^ k = of_int m * (2::rat) powi (- int k)"
    by (simp add: power_int_minus divide_inverse)
  then show ?thesis using fl_exact [of m "- int k"] assms by simp
qed

lemma fl_half [simp]: "fl (1 / 2) = 1 / 2"
  using fl_dyadic [of 1 1] by simp

lemma jsfin_half [simp]: "jsfin (1 / 2) = JNum (1 / 2)"
  by (simp add: jsfin_unit)

lemma jround_int [simp]: "jround (JNum (of_int n)) = JNum (of_int n)"
  by (simp add: floor_unique)

text \<open>An equation for evaluation: the overflow test reads the exponent instead of comparing with
  \<open>2 ^ 1024\<close>.\<close>

lemma jsfin_code [code]:
  "jsfin x = (let r = fl x in
     if r = 0 \<or> rat_log2 \<bar>r\<bar> < 1024 then JNum r else if 0 < r then JInf else JNInf)"
proof -
  have p: "(2::rat) powi 1024 = 2 ^ 1024" by (simp flip: power_int_numeral)
  have "r = 0 \<or> rat_log2 \<bar>r\<bar> < 1024 \<longleftrightarrow> \<bar>r\<bar> < 2 ^ 1024" for r
    using rat_log2_less [of "\<bar>r\<bar>" 1024] rat_log2_ge [of 1024 "\<bar>r\<bar>"] unfolding p
    by (cases "r = 0") (simp, force)
  then show ?thesis by (auto simp: jsfin_def Let_def abs_less_iff)
qed

lemma not_tiny: "(1::rat) / 2 ^ 21 \<le> x \<Longrightarrow> 2 powi (- 1022) \<le> x"
proof -
  assume x: "(1::rat) / 2 ^ 21 \<le> x"
  have "(2::rat) powi (- 1022) \<le> 2 powi (- 21)" by (intro power_int_increasing) auto
  moreover have "(2::rat) powi (- 21) = 1 / 2 ^ 21"
    using power_int_minus_divide [of "2::rat" "int 21"] unfolding power_int_of_nat by simp
  ultimately show ?thesis using x by (simp only:)
qed

end
