(* ===== verification/JsString.thy ===== *)
theory JsString
  imports JsNumber "HOL-Library.Sublist"
begin

text \<open>
  The string operations of the source on \<open>string\<close> (one \<open>char\<close> per code unit; the modelled texts are
  identifiers, addresses, numerals and server messages, all ASCII): case mapping, search, slicing,
  padding, splitting, the numerals written by \<open>toString\<close> and \<open>toFixed\<close> and read by \<open>BigInt\<close>, and the
  hexadecimal and base64 forms of byte sequences.
\<close>

section \<open>Characters and substrings\<close>

definition code_of :: "char \<Rightarrow> int" where
  "code_of c = of_char c"

definition is_digit :: "char \<Rightarrow> bool" where
  "is_digit c \<longleftrightarrow> 48 \<le> code_of c \<and> code_of c \<le> 57"

definition is_space :: "char \<Rightarrow> bool" where
  "is_space c \<longleftrightarrow> code_of c = 32 \<or> (9 \<le> code_of c \<and> code_of c \<le> 13)"

definition lower_char :: "char \<Rightarrow> char" where
  "lower_char c = (if 65 \<le> code_of c \<and> code_of c \<le> 90 then char_of (code_of c + 32) else c)"

definition upper_char :: "char \<Rightarrow> char" where
  "upper_char c = (if 97 \<le> code_of c \<and> code_of c \<le> 122 then char_of (code_of c - 32) else c)"

definition to_lower :: "string \<Rightarrow> string" where
  "to_lower s = map lower_char s"

definition to_upper :: "string \<Rightarrow> string" where
  "to_upper s = map upper_char s"

definition starts_with :: "string \<Rightarrow> string \<Rightarrow> bool" where
  "starts_with s p \<longleftrightarrow> take (length p) s = p"

definition ends_with :: "string \<Rightarrow> string \<Rightarrow> bool" where
  "ends_with s p \<longleftrightarrow> starts_with (rev s) (rev p)"

fun js_includes :: "string \<Rightarrow> string \<Rightarrow> bool" where
  "js_includes [] p = (p = [])"
| "js_includes (c # s) p = (starts_with (c # s) p \<or> js_includes s p)"

definition trim :: "string \<Rightarrow> string" where
  "trim s = rev (dropWhile is_space (rev (dropWhile is_space s)))"

text \<open>\<open>s.slice(-k)\<close>, \<open>s.slice(0, k)\<close>, \<open>padStart\<close>, \<open>padEnd\<close> and \<open>split\<close> on one character.\<close>

definition slice_last :: "nat \<Rightarrow> string \<Rightarrow> string" where
  "slice_last k s = drop (length s - k) s"

definition pad_start :: "nat \<Rightarrow> char \<Rightarrow> string \<Rightarrow> string" where
  "pad_start n c s = replicate (n - length s) c @ s"

definition pad_end :: "nat \<Rightarrow> char \<Rightarrow> string \<Rightarrow> string" where
  "pad_end n c s = s @ replicate (n - length s) c"

fun split_char :: "char \<Rightarrow> string \<Rightarrow> string list" where
  "split_char c [] = [[]]"
| "split_char c (x # s) =
     (if x = c then [] # split_char c s
      else (case split_char c s of [] \<Rightarrow> [[x]] | w # ws \<Rightarrow> (x # w) # ws))"

definition strip0x :: "string \<Rightarrow> string" where
  "strip0x s = (if starts_with s ''0x'' \<or> starts_with s ''0X'' then drop 2 s else s)"

lemma split_char_none:
  "c \<notin> set s \<Longrightarrow> split_char c s = [s]"
  by (induction s) auto

lemma split_char_append:
  "c \<notin> set a \<Longrightarrow> split_char c (a @ c # b) = a # split_char c b"
  by (induction a) auto

lemma lower_char_idem [simp]: "lower_char (lower_char c) = lower_char c"
  by (auto simp: lower_char_def code_of_def)

lemma to_lower_idem [simp]: "to_lower (to_lower s) = to_lower s"
  by (simp add: to_lower_def)

lemma length_case [simp]: "length (to_lower s) = length s" "length (to_upper s) = length s"
  by (simp_all add: to_lower_def to_upper_def)

lemma length_slice_last [simp]: "length (slice_last k s) = min k (length s)"
  by (simp add: slice_last_def)

lemma js_includes_iff: "js_includes s p \<longleftrightarrow> (\<exists>a b. s = a @ p @ b)"
proof (induction s)
  case (Cons c s)
  have "starts_with (c # s) p \<longleftrightarrow> (\<exists>b. c # s = p @ b)"
    unfolding starts_with_def by (metis append_eq_conv_conj append_take_drop_id)
  with Cons.IH show ?case by (auto simp: Cons_eq_append_conv)
qed simp

section \<open>Numerals\<close>

definition digit_char :: "int \<Rightarrow> char" where
  "digit_char d = char_of (if d < 10 then 48 + d else 87 + d)"

definition char_digit :: "char \<Rightarrow> int option" where
  "char_digit c =
     (let n = code_of c in
      if 48 \<le> n \<and> n \<le> 57 then Some (n - 48)
      else if 97 \<le> n \<and> n \<le> 102 then Some (n - 87)
      else if 65 \<le> n \<and> n \<le> 70 then Some (n - 55) else None)"

text \<open>\<open>n.toString(b)\<close> for a radix \<open>b \<le> 16\<close>.\<close>

function digits :: "int \<Rightarrow> int \<Rightarrow> string" where
  "digits b n =
     (if n < b \<or> b < 2 then [digit_char n] else digits b (n div b) @ [digit_char (n mod b)])"
  by pat_completeness auto
termination
  by (relation "measure (nat o snd)") (auto simp: int_div_less_self)

declare digits.simps [simp del]

definition string_of_int :: "int \<Rightarrow> string" where
  "string_of_int n = (if n < 0 then CHR ''-'' # digits 10 (- n) else digits 10 n)"

fun parse_digits :: "int \<Rightarrow> int \<Rightarrow> string \<Rightarrow> int option" where
  "parse_digits b acc [] = Some acc"
| "parse_digits b acc (c # s) =
     (case char_digit c of
        None \<Rightarrow> None
      | Some d \<Rightarrow> if d < b then parse_digits b (acc * b + d) s else None)"

definition parse_nat :: "int \<Rightarrow> string \<Rightarrow> int option" where
  "parse_nat b s = (if s = [] then None else parse_digits b 0 s)"

text \<open>\<open>BigInt(s)\<close> of a string: white space is trimmed, the empty string is 0, a decimal numeral may
  carry a sign, a hexadecimal one starts with \<open>0x\<close>, anything else is a \<open>SyntaxError\<close>.\<close>

definition bigint_of_string :: "string \<Rightarrow> int result" where
  "bigint_of_string s =
     (let t = trim s;
          ok = (\<lambda>sg r. case r of None \<Rightarrow> Inl SyntaxError | Some n \<Rightarrow> Inr (sg * n))
      in if t = [] then Inr 0
         else if starts_with t ''0x'' \<or> starts_with t ''0X'' then ok 1 (parse_nat 16 (drop 2 t))
         else if hd t = CHR ''-'' then ok (- 1) (parse_nat 10 (tl t))
         else if hd t = CHR ''+'' then ok 1 (parse_nat 10 (tl t))
         else ok 1 (parse_nat 10 t))"

lemma char_digit_digit_char [simp]: "0 \<le> d \<Longrightarrow> d < 16 \<Longrightarrow> char_digit (digit_char d) = Some d"
  by (simp add: char_digit_def digit_char_def code_of_def Let_def)

lemma is_digit_digit_char [simp]: "0 \<le> d \<Longrightarrow> d < 10 \<Longrightarrow> is_digit (digit_char d)"
  by (simp add: is_digit_def digit_char_def code_of_def)

lemma digits_nonempty [simp]: "digits b n \<noteq> []"
  by (subst digits.simps) simp

lemma digits_10_is_digit: "0 \<le> n \<Longrightarrow> \<forall>c\<in>set (digits 10 n). is_digit c"
proof (induction "10 :: int" n rule: digits.induct)
  case (1 n)
  then show ?case by (subst digits.simps) (auto simp: pos_imp_zdiv_nonneg_iff)
qed

lemma parse_digits_append:
  "parse_digits b acc (s @ t) =
     (case parse_digits b acc s of None \<Rightarrow> None | Some a \<Rightarrow> parse_digits b a t)"
  by (induction b acc s rule: parse_digits.induct) (auto split: option.splits)

lemma parse_digits_digits:
  assumes "2 \<le> b" "b \<le> 16" "0 \<le> n"
  shows "parse_digits b 0 (digits b n) = Some n"
  using assms
proof (induction b n rule: digits.induct)
  case (1 b n)
  show ?case
  proof (cases "n < b")
    case True
    with "1.prems" show ?thesis by (subst digits.simps) simp
  next
    case False
    with "1.prems" "1.IH" have IH: "parse_digits b 0 (digits b (n div b)) = Some (n div b)"
      by (simp add: pos_imp_zdiv_nonneg_iff)
    have "n mod b < b" "0 \<le> n mod b" "n mod b < 16"
      using "1.prems" pos_mod_bound [of b n] pos_mod_sign [of b n] by linarith+
    then show ?thesis
      using False "1.prems" by (subst digits.simps) (simp add: parse_digits_append IH)
  qed
qed

lemma parse_nat_digits:
  "2 \<le> b \<Longrightarrow> b \<le> 16 \<Longrightarrow> 0 \<le> n \<Longrightarrow> parse_nat b (digits b n) = Some n"
  by (simp add: parse_nat_def parse_digits_digits)

lemma string_of_int_inject:
  assumes "0 \<le> m" "0 \<le> n"
  shows "string_of_int m = string_of_int n \<longleftrightarrow> m = n"
proof
  assume "string_of_int m = string_of_int n"
  then have "parse_nat 10 (digits 10 m) = parse_nat 10 (digits 10 n)"
    using assms by (simp add: string_of_int_def)
  then show "m = n" using assms parse_nat_digits [of 10] by simp
qed simp

lemma char_digit_zero [simp]: "char_digit (CHR ''0'') = Some 0"
  by (simp add: char_digit_def code_of_def)

lemma parse_digits_zeros:
  "2 \<le> b \<Longrightarrow> parse_digits b 0 (replicate k (CHR ''0'') @ s) = parse_digits b 0 s"
  by (induction k) simp_all

lemma char_digit_range: "char_digit c = Some d \<Longrightarrow> 0 \<le> d \<and> d < 16"
  by (auto simp: char_digit_def Let_def split: if_splits)

lemma parse_digits_bound:
  "parse_digits b acc s = Some n \<Longrightarrow> 0 \<le> acc \<Longrightarrow> 2 \<le> b \<Longrightarrow> 0 \<le> n \<and> n < (acc + 1) * b ^ length s"
proof (induction b acc s rule: parse_digits.induct)
  case (2 b acc c s)
  then obtain d where d: "char_digit c = Some d" "d < b"
    and n: "parse_digits b (acc * b + d) s = Some n"
    by (auto split: option.splits if_splits)
  have nn: "0 \<le> acc * b + d" using char_digit_range [OF d(1)] "2.prems" by simp
  have *: "0 \<le> n \<and> n < (acc * b + d + 1) * b ^ length s"
    using "2.IH" [OF d n nn] "2.prems" by simp
  have "(acc * b + d + 1) * b ^ length s \<le> ((acc + 1) * b) * b ^ length s"
    using d(2) "2.prems" by (intro mult_right_mono) (simp_all add: algebra_simps)
  with * have "0 \<le> n \<and> n < ((acc + 1) * b) * b ^ length s" by linarith
  then show ?case by (simp add: ac_simps)
qed simp

section \<open>Numbers as text\<close>

text \<open>
  \<open>Number::toString\<close>: the shortest decimal \<open>s * 10 ^ (n - k)\<close> (\<open>k\<close> digits \<open>s\<close>, point after \<open>n\<close>
  digits) that reads back as the same number, written positionally for \<open>-6 < n \<le> 21\<close> and with an
  exponent otherwise. Seventeen digits always suffice for binary64.
\<close>

definition dec_exp :: "rat \<Rightarrow> int" where
  "dec_exp x = (if 1 \<le> x then int (length (digits 10 \<lfloor>x\<rfloor>))
                else 1 - int (length (digits 10 (\<lceil>1 / x\<rceil> - 1))))"

definition shortest_digits :: "rat \<Rightarrow> int \<times> nat \<times> int" where
  "shortest_digits x =
     (let n = dec_exp x;
          cand = (\<lambda>k. \<lfloor>x / 10 powi (n - int k) + 1 / 2\<rfloor>)
      in case find (\<lambda>k. jsfin (of_int (cand k) * 10 powi (n - int k)) = JNum x) [1..<18] of
           Some k \<Rightarrow> (if cand k = 10 ^ k then (n + 1, 1, 1) else (n, k, cand k))
         | None \<Rightarrow> (n, 17, cand 17))"

definition pos_to_string :: "rat \<Rightarrow> string" where
  "pos_to_string x =
     (let (n, k, s) = shortest_digits x; ds = digits 10 s in
      if int k \<le> n \<and> n \<le> 21 then ds @ replicate (nat (n - int k)) (CHR ''0'')
      else if 0 < n \<and> n \<le> 21 then take (nat n) ds @ ''.'' @ drop (nat n) ds
      else if - 6 < n \<and> n \<le> 0 then ''0.'' @ replicate (nat (- n)) (CHR ''0'') @ ds
      else (let e = n - 1; ex = (if e < 0 then ''-'' else ''+'') @ digits 10 \<bar>e\<bar> in
            if k = 1 then ds @ ''e'' @ ex else take 1 ds @ ''.'' @ drop 1 ds @ ''e'' @ ex))"

fun num_to_string :: "jsn \<Rightarrow> string" where
  "num_to_string JNaN = ''NaN''"
| "num_to_string JInf = ''Infinity''"
| "num_to_string JNInf = ''-Infinity''"
| "num_to_string (JNum a) =
     (if a = 0 then ''0'' else if a < 0 then CHR ''-'' # pos_to_string (- a) else pos_to_string a)"

text \<open>\<open>x.toFixed(f)\<close>: the integer closest to \<open>x * 10 ^ f\<close> (the larger one on a tie) of the absolute
  value, with \<open>f\<close> digits after the point; from \<open>1e21\<close> on it is \<open>toString\<close>.\<close>

definition fixed_digits :: "nat \<Rightarrow> int \<Rightarrow> string" where
  "fixed_digits f n =
     (let m = pad_start (f + 1) (CHR ''0'') (digits 10 n); k = length m - f
      in if f = 0 then m else take k m @ CHR ''.'' # drop k m)"

fun to_fixed :: "jsn \<Rightarrow> nat \<Rightarrow> string" where
  "to_fixed (JNum a) f =
     (if 10 ^ 21 \<le> \<bar>a\<bar> then num_to_string (JNum a)
      else if a < 0 then CHR ''-'' # fixed_digits f \<lfloor>- a * 10 ^ f + 1 / 2\<rfloor>
      else fixed_digits f \<lfloor>a * 10 ^ f + 1 / 2\<rfloor>)"
| "to_fixed x f = num_to_string x"

text \<open>\<open>Number(s)\<close> and \<open>parseFloat(s)\<close>: \<open>scan_number\<close> reads the longest decimal numeral (digits,
  fraction, exponent) and returns its exact value and the rest of the text. \<open>Number\<close> wants nothing
  left over and reads the empty text as 0, \<open>parseFloat\<close> ignores the rest.\<close>

definition digits_value :: "string \<Rightarrow> int" where
  "digits_value s = (case parse_digits 10 0 s of Some n \<Rightarrow> n | None \<Rightarrow> 0)"

definition scan_exponent :: "string \<Rightarrow> int \<times> string" where
  "scan_exponent s =
     (case s of
        [] \<Rightarrow> (0, s)
      | c # t \<Rightarrow>
          if c = CHR ''e'' \<or> c = CHR ''E'' then
            (let neg = (t \<noteq> [] \<and> hd t = CHR ''-'');
                 u = (if t \<noteq> [] \<and> (hd t = CHR ''-'' \<or> hd t = CHR ''+'') then tl t else t);
                 ds = takeWhile is_digit u
             in if ds = [] then (0, s)
                else ((if neg then - digits_value ds else digits_value ds), dropWhile is_digit u))
          else (0, s))"

definition scan_number :: "string \<Rightarrow> (rat \<times> string) option" where
  "scan_number s =
     (let ip = takeWhile is_digit s; r = dropWhile is_digit s;
          dot = (r \<noteq> [] \<and> hd r = CHR ''.'');
          fp = (if dot then takeWhile is_digit (tl r) else []);
          r' = (if dot then dropWhile is_digit (tl r) else r)
      in if ip = [] \<and> fp = [] then None
         else (let (e, r'') = scan_exponent r'
               in Some (of_int (digits_value (ip @ fp)) / 10 ^ length fp * 10 powi e, r'')))"

definition split_sign :: "string \<Rightarrow> bool \<times> string" where
  "split_sign s =
     (case s of
        [] \<Rightarrow> (False, [])
      | c # t \<Rightarrow> if c = CHR ''-'' then (True, t) else if c = CHR ''+'' then (False, t) else (False, s))"

definition number_of_string :: "string \<Rightarrow> jsn" where
  "number_of_string s =
     (let t = trim s; (neg, u) = split_sign t
      in if t = [] then JNum 0
         else if starts_with t ''0x'' \<or> starts_with t ''0X'' then
           (case parse_nat 16 (drop 2 t) of None \<Rightarrow> JNaN | Some n \<Rightarrow> jsfin (of_int n))
         else if u = ''Infinity'' then (if neg then JNInf else JInf)
         else (case scan_number u of
                 Some (x, []) \<Rightarrow> jsfin (if neg then - x else x)
               | _ \<Rightarrow> JNaN))"

definition parse_float :: "string \<Rightarrow> jsn" where
  "parse_float s =
     (let (neg, u) = split_sign (dropWhile is_space s)
      in if starts_with u ''Infinity'' then (if neg then JNInf else JInf)
         else (case scan_number u of
                 Some (x, _) \<Rightarrow> jsfin (if neg then - x else x)
               | None \<Rightarrow> JNaN))"

lemma is_digit_not [simp]:
  "is_digit c \<Longrightarrow> \<not> is_space c" "\<not> is_digit (CHR ''.'')" "\<not> is_digit (CHR ''-'')"
  "\<not> is_digit (CHR ''+'')" "\<not> is_digit (CHR ''x'')" "\<not> is_digit (CHR ''I'')"
  "\<not> is_digit (CHR ''X'')" "is_digit (CHR ''0'')" "\<not> is_digit (CHR ''e'')" "\<not> is_digit (CHR ''E'')"
  by (auto simp: is_digit_def is_space_def code_of_def)

lemma takeWhile_digits [simp]:
  "\<forall>c\<in>set ds. is_digit c \<Longrightarrow> takeWhile is_digit (ds @ CHR ''.'' # t) = ds"
  "\<forall>c\<in>set ds. is_digit c \<Longrightarrow> dropWhile is_digit (ds @ CHR ''.'' # t) = CHR ''.'' # t"
  "\<forall>c\<in>set ds. is_digit c \<Longrightarrow> takeWhile is_digit ds = ds"
  "\<forall>c\<in>set ds. is_digit c \<Longrightarrow> dropWhile is_digit ds = []"
  by (simp_all add: takeWhile_append2 dropWhile_append2 takeWhile_eq_all_conv dropWhile_eq_Nil_conv)

lemma scan_number_plain:
  assumes "\<forall>c\<in>set ip. is_digit c" "\<forall>c\<in>set fp. is_digit c" "ip \<noteq> []"
  shows "scan_number (ip @ CHR ''.'' # fp) = Some (of_int (digits_value (ip @ fp)) / 10 ^ length fp, [])"
    "scan_number ip = Some (of_int (digits_value ip), [])"
  using assms by (simp_all add: scan_number_def Let_def scan_exponent_def)

lemma trim_id: "\<forall>c\<in>set s. \<not> is_space c \<Longrightarrow> trim s = s"
  unfolding trim_def by (metis dropWhile_eq_self_iff hd_in_set rev_is_Nil_conv rev_rev_ident set_rev)

lemma number_of_plain:
  assumes ip: "\<forall>c\<in>set ip. is_digit c" and fp: "\<forall>c\<in>set fp. is_digit c" and "ip \<noteq> []"
  shows "number_of_string (ip @ CHR ''.'' # fp) = jsfin (of_int (digits_value (ip @ fp)) / 10 ^ length fp)"
    and "number_of_string ip = jsfin (of_int (digits_value ip))"
    and "parse_float (ip @ CHR ''.'' # fp) = jsfin (of_int (digits_value (ip @ fp)) / 10 ^ length fp)"
    and "parse_float ip = jsfin (of_int (digits_value ip))"
proof -
  obtain c t where c: "ip = c # t" "is_digit c" using \<open>ip \<noteq> []\<close> ip by (cases ip) auto
  have ne: "c \<noteq> CHR ''-''" "c \<noteq> CHR ''+''" "c \<noteq> CHR ''I''" using c(2) by auto
  have ns: "\<not> is_space c" using c(2) by simp
  have sp: "\<not> is_space (CHR ''.'')" by (simp add: is_space_def code_of_def)
  have t: "trim (ip @ CHR ''.'' # fp) = ip @ CHR ''.'' # fp" "trim ip = ip"
    using ip fp sp by (intro trim_id; auto)+
  have x: "\<not> starts_with (ip @ CHR ''.'' # fp) ''0x''" "\<not> starts_with (ip @ CHR ''.'' # fp) ''0X''"
    "\<not> starts_with ip ''0x''" "\<not> starts_with ip ''0X''"
    using ip unfolding c(1) by (cases t; auto simp: starts_with_def)+
  have s: "split_sign (ip @ r) = (False, ip @ r)" for r using ne by (simp add: split_sign_def c(1))
  have i: "ip @ r \<noteq> ''Infinity''" "\<not> starts_with (ip @ r) ''Infinity''" for r
    using ne by (auto simp: starts_with_def c(1))
  have d: "dropWhile is_space (ip @ r) = ip @ r" for r using ns by (simp add: c(1))
  note sn = scan_number_plain [OF ip fp \<open>ip \<noteq> []\<close>]
  show "number_of_string (ip @ CHR ''.'' # fp) = jsfin (of_int (digits_value (ip @ fp)) / 10 ^ length fp)"
    "parse_float (ip @ CHR ''.'' # fp) = jsfin (of_int (digits_value (ip @ fp)) / 10 ^ length fp)"
    using \<open>ip \<noteq> []\<close> by (simp_all add: number_of_string_def parse_float_def t x s i d sn)
  show "number_of_string ip = jsfin (of_int (digits_value ip))"
    "parse_float ip = jsfin (of_int (digits_value ip))"
    using \<open>ip \<noteq> []\<close> s [of "[]"] i [of "[]"] d [of "[]"]
    by (simp_all add: number_of_string_def parse_float_def t x sn)
qed

lemma digits_value_pad:
  "0 \<le> n \<Longrightarrow> digits_value (pad_start k (CHR ''0'') (digits 10 n)) = n"
  by (simp add: digits_value_def pad_start_def parse_digits_zeros parse_digits_digits)

lemma fixed_value:
  assumes "0 \<le> n"
  shows "number_of_string (fixed_digits f n) = jsfin (of_int n / 10 ^ f)"
    "parse_float (fixed_digits f n) = jsfin (of_int n / 10 ^ f)"
proof -
  define m where "m = pad_start (f + 1) (CHR ''0'') (digits 10 n)"
  have d: "\<forall>c\<in>set m. is_digit c"
    using digits_10_is_digit [OF assms] by (auto simp: m_def pad_start_def)
  have l: "f < length m" by (simp add: m_def pad_start_def)
  have v: "digits_value m = n" by (simp add: m_def digits_value_pad assms)
  define k where "k = length m - f"
  have k: "take k m @ drop k m = m" "length (drop k m) = f" "take k m \<noteq> []"
    using l by (auto simp: k_def)
  have dd: "\<forall>c\<in>set (take k m). is_digit c" "\<forall>c\<in>set (drop k m). is_digit c"
    using d by (auto dest: in_set_takeD in_set_dropD)
  note n = number_of_plain [OF dd k(3)]
  have fd: "fixed_digits f n = (if f = 0 then m else take k m @ CHR ''.'' # drop k m)"
    by (simp add: fixed_digits_def m_def k_def Let_def)
  have m0: "m \<noteq> []" "length m - k = f" using l by (auto simp: k_def)
  show "number_of_string (fixed_digits f n) = jsfin (of_int n / 10 ^ f)"
    "parse_float (fixed_digits f n) = jsfin (of_int n / 10 ^ f)"
    using n number_of_plain(2,4) [OF d d m0(1)] by (auto simp: fd k v m0)
qed

section \<open>Bytes, hexadecimal and base64\<close>

type_synonym bytes = "int list"

definition is_bytes :: "bytes \<Rightarrow> bool" where
  "is_bytes bs \<longleftrightarrow> list_all (\<lambda>b. 0 \<le> b \<and> b < 256) bs"

text \<open>\<open>Buffer.from(s, 'utf8')\<close> of an ASCII string.\<close>

definition utf8_bytes :: "string \<Rightarrow> bytes" where
  "utf8_bytes s = map code_of s"

fun hex_of_bytes :: "bytes \<Rightarrow> string" where
  "hex_of_bytes [] = []"
| "hex_of_bytes (b # bs) = digit_char (b div 16) # digit_char (b mod 16) # hex_of_bytes bs"

text \<open>\<open>Buffer.from(s, 'hex')\<close> decodes pairs and stops at the first pair that is not hexadecimal.\<close>

fun bytes_of_hex :: "string \<Rightarrow> bytes" where
  "bytes_of_hex (a # b # s) =
     (case (char_digit a, char_digit b) of
        (Some x, Some y) \<Rightarrow> (16 * x + y) # bytes_of_hex s
      | _ \<Rightarrow> [])"
| "bytes_of_hex _ = []"

definition b64_char :: "int \<Rightarrow> char" where
  "b64_char n = char_of (if n < 26 then 65 + n else if n < 52 then 71 + n
                         else if n < 62 then n - 4 else if n = 62 then 43 else 47)"

fun base64 :: "bytes \<Rightarrow> string" where
  "base64 (a # b # c # bs) =
     b64_char (a div 4) # b64_char (a mod 4 * 16 + b div 16)
     # b64_char (b mod 16 * 4 + c div 64) # b64_char (c mod 64) # base64 bs"
| "base64 [a, b] =
     [b64_char (a div 4), b64_char (a mod 4 * 16 + b div 16), b64_char (b mod 16 * 4), CHR ''='']"
| "base64 [a] = [b64_char (a div 4), b64_char (a mod 4 * 16), CHR ''='', CHR ''='']"
| "base64 [] = []"

definition b64_value :: "char \<Rightarrow> int option" where
  "b64_value c =
     (let n = code_of c in
      if 65 \<le> n \<and> n \<le> 90 then Some (n - 65) else if 97 \<le> n \<and> n \<le> 122 then Some (n - 71)
      else if 48 \<le> n \<and> n \<le> 57 then Some (n + 4)
      else if n = 43 then Some 62 else if n = 47 then Some 63 else None)"

text \<open>Decoding, for the text \<open>base64\<close> writes: the padding ends it.\<close>

fun base64_decode :: "string \<Rightarrow> bytes" where
  "base64_decode (p # q # r # s # xs) =
     (case (b64_value p, b64_value q) of
        (Some a, Some b) \<Rightarrow>
          (a * 4 + b div 16) #
          (case b64_value r of
             None \<Rightarrow> []
           | Some c \<Rightarrow> (b mod 16 * 16 + c div 4) #
               (case b64_value s of
                  None \<Rightarrow> []
                | Some d \<Rightarrow> (c mod 4 * 64 + d) # base64_decode xs))
      | _ \<Rightarrow> [])"
| "base64_decode _ = []"

lemma length_hex_of_bytes [simp]: "length (hex_of_bytes bs) = 2 * length bs"
  by (induction bs) simp_all

lemma bytes_of_hex_of_bytes:
  "is_bytes bs \<Longrightarrow> bytes_of_hex (hex_of_bytes bs) = bs"
proof (induction bs)
  case (Cons b bs)
  then have "0 \<le> b div 16" "b div 16 < 16" by (auto simp: is_bytes_def)
  with Cons show ?case by (simp add: is_bytes_def)
qed simp

lemma length_base64: "length (base64 bs) = 4 * ((length bs + 2) div 3)"
proof (induction bs rule: base64.induct)
  case (1 a b c bs)
  have "(5 + length bs) div 3 = Suc ((2 + length bs) div 3)" by presburger
  with 1 show ?case by simp
qed simp_all

lemma b64_value_char [simp]: "0 \<le> n \<Longrightarrow> n < 64 \<Longrightarrow> b64_value (b64_char n) = Some n"
  by (auto simp: b64_value_def b64_char_def code_of_def Let_def)

lemma b64_value_pad [simp]: "b64_value (CHR ''='') = None"
  by (simp add: b64_value_def code_of_def Let_def)

lemma div4_byte: "0 \<le> a \<Longrightarrow> a < 256 \<Longrightarrow> 0 \<le> a div 4 \<and> a div 4 < (64 :: int)"
  by auto

lemma b64_split:
  fixes a b c :: int
  assumes "0 \<le> a" "0 \<le> b" "b < 256" "0 \<le> c" "c < 256"
  shows "0 \<le> a mod 4 * 16 + b div 16" "a mod 4 * 16 + b div 16 < 64"
    "(a mod 4 * 16 + b div 16) div 16 = a mod 4" "(a mod 4 * 16 + b div 16) mod 16 = b div 16"
    "0 \<le> b mod 16 * 4 + c div 64" "b mod 16 * 4 + c div 64 < 64"
    "(b mod 16 * 4 + c div 64) div 4 = b mod 16" "(b mod 16 * 4 + c div 64) mod 4 = c div 64"
  using assms by auto

lemma base64_decode_base64:
  "is_bytes bs \<Longrightarrow> base64_decode (base64 bs) = bs"
proof (induction bs rule: base64.induct)
  case (1 a b c bs)
  then have l: "0 \<le> a" "a < 256" "0 \<le> b" "b < 256" "0 \<le> c" "c < 256"
    and IH: "base64_decode (base64 bs) = bs"
    by (simp_all add: is_bytes_def)
  note f = b64_split [OF l(1,3,4,5,6)] div4_byte [OF l(1,2)]
  have m: "0 \<le> c mod 64" "c mod 64 < 64" by simp_all
  have "b64_value (b64_char (a mod 4 * 16 + b div 16)) = Some (a mod 4 * 16 + b div 16)"
    "b64_value (b64_char (b mod 16 * 4 + c div 64)) = Some (b mod 16 * 4 + c div 64)"
    "b64_value (b64_char (a div 4)) = Some (a div 4)"
    "b64_value (b64_char (c mod 64)) = Some (c mod 64)"
    using f m by (simp_all only: b64_value_char)
  then show ?case by (simp only: base64.simps base64_decode.simps option.case prod.case f IH
        div_mult_mod_eq list.inject simp_thms)
next
  case (2 a b)
  then have l: "0 \<le> a" "a < 256" "0 \<le> b" "b < 256" by (simp_all add: is_bytes_def)
  note f = b64_split [OF l(1,3,4), of 0, simplified] div4_byte [OF l(1,2)]
  have "0 \<le> b mod 16 * 4" "b mod 16 * 4 < 64" by auto
  with f have "b64_value (b64_char (a mod 4 * 16 + b div 16)) = Some (a mod 4 * 16 + b div 16)"
    "b64_value (b64_char (b mod 16 * 4)) = Some (b mod 16 * 4)"
    "b64_value (b64_char (a div 4)) = Some (a div 4)"
    by (simp_all only: b64_value_char)
  then show ?case using f by simp
next
  case (3 a)
  then have l: "0 \<le> a" "a < 256" by (simp_all add: is_bytes_def)
  have "0 \<le> a mod 4 * 16" "a mod 4 * 16 < 64" by auto
  then show ?case using div4_byte [OF l] by simp
qed simp

end
