(* ===== verification/RegExp.thy ===== *)
theory RegExp
  imports JsString
begin

text \<open>
  The regular expressions the source tests strings with: their language, and a matcher by
  derivatives that decides it. \<open>rx_full\<close> is an anchored test (\<open>/^r$/\<close>), \<open>rx_search\<close> an unanchored
  one, and \<open>rx_search_i\<close> the unanchored test with the \<open>i\<close> flag (the pattern is written in lower
  case).
\<close>

section \<open>Expressions and their language\<close>

datatype rx =
    RNone
  | REps
  | RSet "char \<Rightarrow> bool"
  | RSeq rx rx
  | RAlt rx rx
  | RStar rx

inductive matches :: "rx \<Rightarrow> string \<Rightarrow> bool" where
  eps: "matches REps []"
| set: "p c \<Longrightarrow> matches (RSet p) [c]"
| seq: "matches r s \<Longrightarrow> matches q t \<Longrightarrow> matches (RSeq r q) (s @ t)"
| altL: "matches r s \<Longrightarrow> matches (RAlt r q) s"
| altR: "matches q s \<Longrightarrow> matches (RAlt r q) s"
| star0: "matches (RStar r) []"
| star1: "matches r s \<Longrightarrow> matches (RStar r) t \<Longrightarrow> matches (RStar r) (s @ t)"

inductive_simps matches_simps:
  "matches RNone s" "matches REps s" "matches (RSet p) s" "matches (RSeq r q) s" "matches (RAlt r q) s"

inductive_cases matches_StarE: "matches (RStar r) s"

section \<open>The matcher\<close>

fun nullable :: "rx \<Rightarrow> bool" where
  "nullable RNone = False"
| "nullable REps = True"
| "nullable (RSet p) = False"
| "nullable (RSeq r q) = (nullable r \<and> nullable q)"
| "nullable (RAlt r q) = (nullable r \<or> nullable q)"
| "nullable (RStar r) = True"

fun mk_seq :: "rx \<Rightarrow> rx \<Rightarrow> rx" where
  "mk_seq RNone q = RNone"
| "mk_seq REps q = q"
| "mk_seq r q = RSeq r q"

fun mk_alt :: "rx \<Rightarrow> rx \<Rightarrow> rx" where
  "mk_alt RNone q = q"
| "mk_alt r RNone = r"
| "mk_alt r q = RAlt r q"

fun deriv :: "char \<Rightarrow> rx \<Rightarrow> rx" where
  "deriv c RNone = RNone"
| "deriv c REps = RNone"
| "deriv c (RSet p) = (if p c then REps else RNone)"
| "deriv c (RSeq r q) =
     (if nullable r then mk_alt (mk_seq (deriv c r) q) (deriv c q) else mk_seq (deriv c r) q)"
| "deriv c (RAlt r q) = mk_alt (deriv c r) (deriv c q)"
| "deriv c (RStar r) = mk_seq (deriv c r) (RStar r)"

fun rx_full :: "rx \<Rightarrow> string \<Rightarrow> bool" where
  "rx_full r [] = nullable r"
| "rx_full r (c # s) = rx_full (deriv c r) s"

lemma nullable_iff: "nullable r \<longleftrightarrow> matches r []"
proof (induction r)
  case (RStar r)
  show ?case by (simp add: matches.star0)
qed (simp_all add: matches_simps)

lemma mk_seq_matches [simp]: "matches (mk_seq r q) s \<longleftrightarrow> matches (RSeq r q) s"
  by (cases r) (simp_all add: matches_simps)

lemma mk_alt_matches [simp]: "matches (mk_alt r q) s \<longleftrightarrow> matches (RAlt r q) s"
  by (induction r q rule: mk_alt.induct) (simp_all add: matches_simps)

lemma star_Cons:
  assumes "matches (RStar r) (c # s)"
  shows "\<exists>u v. s = u @ v \<and> matches r (c # u) \<and> matches (RStar r) v"
proof -
  have "matches q w \<Longrightarrow> q = RStar r \<Longrightarrow> w = c # s \<Longrightarrow> ?thesis" for q w
  proof (induction arbitrary: s rule: matches.induct)
    case (star1 r' u t)
    then show ?case by (cases u) auto
  qed simp_all
  then show ?thesis using assms by blast
qed

lemma seq_Cons:
  "matches (RSeq r q) (c # s) \<longleftrightarrow>
     (\<exists>u v. s = u @ v \<and> matches r (c # u) \<and> matches q v) \<or> (matches r [] \<and> matches q (c # s))"
  by (auto simp: matches_simps Cons_eq_append_conv)

lemma deriv_matches: "matches (deriv c r) s \<longleftrightarrow> matches r (c # s)"
proof (induction r arbitrary: s)
  case (RSeq r q)
  then show ?case
    by (auto simp: seq_Cons nullable_iff matches_simps(4) [of _ _ s] matches_simps(5))
next
  case (RStar r)
  show ?case
    using star_Cons [of r c s] matches.star1 [of r "c # _" _]
    by (auto simp: matches_simps RStar.IH)
qed (auto simp: matches_simps)

theorem rx_full_iff: "rx_full r s \<longleftrightarrow> matches r s"
  by (induction s arbitrary: r) (simp_all add: nullable_iff deriv_matches)

section \<open>Building blocks\<close>

definition RAny :: rx where
  "RAny = RStar (RSet (\<lambda>_. True))"

text \<open>\<open>.*\<close> does not cross a line break.\<close>

definition RDots :: rx where
  "RDots = RStar (RSet (\<lambda>c. c \<noteq> CHR 0x0A \<and> c \<noteq> CHR 0x0D))"

fun rseq :: "rx list \<Rightarrow> rx" where
  "rseq [] = REps"
| "rseq (r # rs) = RSeq r (rseq rs)"

fun ralt :: "rx list \<Rightarrow> rx" where
  "ralt [] = RNone"
| "ralt [r] = r"
| "ralt (r # rs) = RAlt r (ralt rs)"

definition rlit :: "string \<Rightarrow> rx" where
  "rlit s = rseq (map (\<lambda>c. RSet ((=) c)) s)"

definition ropt :: "rx \<Rightarrow> rx" where
  "ropt r = RAlt r REps"

definition rplus :: "rx \<Rightarrow> rx" where
  "rplus r = RSeq r (RStar r)"

definition rrep :: "nat \<Rightarrow> rx \<Rightarrow> rx" where
  "rrep n r = rseq (replicate n r)"

definition rx_search :: "rx \<Rightarrow> string \<Rightarrow> bool" where
  "rx_search r s = rx_full (RSeq RAny (RSeq r RAny)) s"

definition rx_search_i :: "rx \<Rightarrow> string \<Rightarrow> bool" where
  "rx_search_i r s = rx_search r (to_lower s)"

lemma matches_RAny [simp]: "matches RAny s"
proof (induction s)
  case (Cons c s)
  then show ?case
    using matches.star1 [OF matches.set [of "\<lambda>_. True" c]] by (simp add: RAny_def)
qed (simp add: RAny_def matches.star0)

lemma rx_search_iff: "rx_search r s \<longleftrightarrow> (\<exists>a b c. s = a @ b @ c \<and> matches r b)"
  by (auto simp: rx_search_def rx_full_iff matches_simps)

lemma matches_rlit [simp]: "matches (rlit s) t \<longleftrightarrow> t = s"
  unfolding rlit_def by (induction s arbitrary: t) (auto simp: matches_simps)

lemma rx_search_rlit: "rx_search (rlit p) s \<longleftrightarrow> js_includes s p"
  by (simp add: rx_search_iff js_includes_iff)

lemma matches_rseq_sets:
  "matches (rseq (map RSet ps)) s \<longleftrightarrow> list_all2 (\<lambda>p c. p c) ps s"
proof (induction ps arbitrary: s)
  case (Cons p ps)
  have "(\<exists>u v. s = u @ v \<and> (\<exists>c. u = [c] \<and> p c) \<and> P v) \<longleftrightarrow> (\<exists>c v. s = c # v \<and> p c \<and> P v)" for P
    by (metis append_Cons append_Nil)
  with Cons show ?case by (simp add: matches_simps list_all2_Cons1)
qed (simp add: matches_simps)

end
