(* ===== verification/OrderProtocol.thy ===== *)
theory OrderProtocol
  imports JsString RegExp
begin

text \<open>
  The integer order protocol of \<open>src/web/lib/prismV2.ts\<close>: prices are integer YES probabilities on a
  scale of one million, shares and collateral are base units of a six-decimal token. The theory holds
  the unit conversions, the collateral cap, the signed authorization and the signed-price view that
  the display code uses, with their bounds, round trips and complement laws.
\<close>

section \<open>Constants and types\<close>

definition PRICE_SCALE :: int where "PRICE_SCALE = 1000000"
definition AUTHORIZATION_VERSION :: int where "AUTHORIZATION_VERSION = 2"
definition AUTHORIZATION_TYPE :: string where
  "AUTHORIZATION_TYPE = ''PrismAuthorization(uint8 version,uint256 chainId,address verifyingContract,address signer,uint128 marketId,uint128 txId,uint8 side,uint8 action,uint256 limitYesPrice,uint256 qtyShares,uint256 collateralCap,uint64 deadline)''"
definition BUY_NO_CAP_SLACK :: int where "BUY_NO_CAP_SLACK = 100"
definition DEFAULT_DEADLINE_SECONDS :: int where "DEFAULT_DEADLINE_SECONDS = 60 * 60"
definition MIN_DEADLINE_SECONDS :: int where "MIN_DEADLINE_SECONDS = 60"
definition DEFAULT_CHAIN_IDS :: "string \<Rightarrow> int option" where
  "DEFAULT_CHAIN_IDS = [''mainnet'' \<mapsto> 295, ''testnet'' \<mapsto> 296, ''previewnet'' \<mapsto> 297]"

definition SIDE_YES :: int where "SIDE_YES = 0"
definition SIDE_NO :: int where "SIDE_NO = 1"
definition ACTION_BUY :: int where "ACTION_BUY = 0"
definition ACTION_SELL :: int where "ACTION_SELL = 1"

lemmas protocol_consts [js_simps] =
  PRICE_SCALE_def BUY_NO_CAP_SLACK_def SIDE_YES_def SIDE_NO_def ACTION_BUY_def ACTION_SELL_def

datatype outcome = OYes | ONo
datatype order_action = ABuy | ASell

record AuthorizationV2 =
  chainId :: int
  verifyingContract :: string
  signer :: string
  marketId :: string
  txId :: string
  side :: int
  action :: int
  limitYesPrice :: int
  qtyShares :: int
  collateralCap :: int
  deadline :: int

section \<open>Identifiers and sides\<close>

definition strip_0x_lower :: "string \<Rightarrow> string" where
  "strip_0x_lower s = to_lower (strip0x s)"

definition remove_dashes :: "string \<Rightarrow> string" where
  "remove_dashes s = filter (\<lambda>c. c \<noteq> CHR ''-'') s"

definition uuidToUint128 :: "string \<Rightarrow> int result" where
  "uuidToUint128 uuid = bigint_of_string (''0x'' @ remove_dashes uuid)"

text \<open>True for orders resting on the bid side of the YES book.\<close>

definition isBidSide :: "int \<Rightarrow> int \<Rightarrow> bool" where
  "isBidSide s a \<longleftrightarrow> (s = SIDE_YES \<and> a = ACTION_BUY) \<or> (s = SIDE_NO \<and> a = ACTION_SELL)"

section \<open>Prices\<close>

definition toLimitYesPrice :: "outcome \<Rightarrow> jsn \<Rightarrow> int result" where
  "toLimitYesPrice oc naturalPrice =
     bind_result (bigint_of_num (jround (naturalPrice * lit 1000000))) (\<lambda>p.
       let clamped = (if p < 0 then 0 else if p > PRICE_SCALE then PRICE_SCALE else p)
       in Inr (if oc = OYes then clamped else PRICE_SCALE - clamped))"

section \<open>Base units\<close>

text \<open>\<open>toFixed\<close> raises a \<open>RangeError\<close> above 100 digits. The text is split at the point; without one
  the fraction defaults to the empty text.\<close>

definition toBaseUnits :: "jsn \<Rightarrow> nat \<Rightarrow> int result" where
  "toBaseUnits amount decimals =
     (if 100 < decimals then Inl RangeError
      else (let parts = split_char (CHR ''.'') (to_fixed amount decimals);
                i = hd parts;
                f = (case tl parts of [] \<Rightarrow> [] | f # _ \<Rightarrow> f)
            in bigint_of_string (i @ take decimals (pad_end decimals (CHR ''0'') f))))"

datatype base_value = VUndefined | VNull | VBig int | VNum jsn | VStr string

fun bigint_of_value :: "base_value \<Rightarrow> int result" where
  "bigint_of_value (VBig n) = Inr n"
| "bigint_of_value (VNum x) = bigint_of_num x"
| "bigint_of_value (VStr s) = bigint_of_string s"
| "bigint_of_value _ = Inl TypeError"

definition fromBaseUnits :: "base_value \<Rightarrow> nat \<Rightarrow> jsn result" where
  "fromBaseUnits v decimals =
     (if v = VUndefined \<or> v = VNull then Inr (JNum 0)
      else bind_result (bigint_of_value v) (\<lambda>n. Inr (num_of_bigint n / pow10 decimals)))"

section \<open>The collateral cap\<close>

definition ceilDiv :: "int \<Rightarrow> int \<Rightarrow> int result" where
  "ceilDiv a b = bigint_div (a + b - 1) b"

definition computeCollateralCap :: "int \<Rightarrow> int \<Rightarrow> int \<Rightarrow> int \<Rightarrow> int result" where
  "computeCollateralCap s a qty limit =
     (if a = ACTION_SELL then Inr 0
      else if s = SIDE_YES then ceilDiv (qty * limit) PRICE_SCALE
      else bind_result (ceilDiv (qty * (PRICE_SCALE - limit)) PRICE_SCALE)
             (\<lambda>c. Inr (c + BUY_NO_CAP_SLACK)))"

section \<open>The signed message\<close>

text \<open>
  \<open>keccak256\<close>, the ABI encoder and \<open>encodeBase64\<close> come from the \<open>ethers\<close> package and are parameters. The
  encoder receives the type names and the values and may reject a value that does not fit its type.
\<close>

datatype abi_value = AbiHex string | AbiInt int

type_synonym abi_encoder = "string list \<Rightarrow> abi_value list \<Rightarrow> bytes result"

definition abi_types :: "string list" where
  "abi_types = [''bytes32'', ''uint8'', ''uint256'', ''address'', ''address'', ''uint128'', ''uint128'',
     ''uint8'', ''uint8'', ''uint256'', ''uint256'', ''uint256'', ''uint64'']"

definition authorizationStructHash ::
  "(bytes \<Rightarrow> string) \<Rightarrow> abi_encoder \<Rightarrow> AuthorizationV2 \<Rightarrow> string result" where
  "authorizationStructHash keccak256 encode a =
     bind_result (uuidToUint128 (marketId a)) (\<lambda>m.
     bind_result (uuidToUint128 (txId a)) (\<lambda>t.
     bind_result (encode abi_types
       [AbiHex (keccak256 (utf8_bytes AUTHORIZATION_TYPE)), AbiInt AUTHORIZATION_VERSION,
        AbiInt (chainId a), AbiHex (''0x'' @ strip_0x_lower (verifyingContract a)),
        AbiHex (''0x'' @ strip_0x_lower (signer a)), AbiInt m, AbiInt t, AbiInt (side a),
        AbiInt (action a), AbiInt (limitYesPrice a), AbiInt (qtyShares a),
        AbiInt (collateralCap a), AbiInt (deadline a)])
     (\<lambda>bs. Inr (keccak256 bs))))"

definition authorizationSigningMessage ::
  "(bytes \<Rightarrow> string) \<Rightarrow> abi_encoder \<Rightarrow> (string \<Rightarrow> string) \<Rightarrow> AuthorizationV2 \<Rightarrow> string result" where
  "authorizationSigningMessage keccak256 encode encodeBase64 a =
     bind_result (authorizationStructHash keccak256 encode a) (\<lambda>h. Inr (encodeBase64 h))"

text \<open>What the documentation of the package says of the two hash-side functions: \<open>keccak256\<close> returns
  32 bytes as \<open>0x\<close>-prefixed hexadecimal, \<open>encodeBase64\<close> encodes the bytes a hexadecimal text denotes.\<close>

definition keccak_documented :: "(bytes \<Rightarrow> string) \<Rightarrow> bool" where
  "keccak_documented k \<longleftrightarrow>
     (\<forall>x. \<exists>bs. is_bytes bs \<and> length bs = 32 \<and> k x = ''0x'' @ hex_of_bytes bs)"

definition encodeBase64_documented :: "(string \<Rightarrow> string) \<Rightarrow> bool" where
  "encodeBase64_documented e \<longleftrightarrow> (\<forall>bs. is_bytes bs \<longrightarrow> e (''0x'' @ hex_of_bytes bs) = base64 bs)"

section \<open>The signed-price view\<close>

record LegacyOrder =
  lo_txId :: string
  lo_accountId :: string
  priceUsd :: jsn
  lo_qty :: jsn
  lo_ps :: string
  lo_side :: int
  lo_action :: int

record OrderDetail =
  od_txId :: string
  od_accountId :: string
  od_limitYesPrice :: int
  sharesRemaining :: int
  od_side :: int
  od_action :: int

record PredictionIntentResponse =
  pi_txId :: string
  pi_marketId :: string
  pi_accountId :: string
  pi_side :: int
  pi_action :: int
  pi_limitYesPrice :: int
  pi_qtyShares :: int
  sharesFilled :: int

datatype any_order =
  AnyLegacy LegacyOrder | AnyDetail OrderDetail | AnyIntent PredictionIntentResponse

definition legacy_price :: "int \<Rightarrow> int \<Rightarrow> int \<Rightarrow> jsn" where
  "legacy_price s a limit =
     (let yes = num_of_bigint limit / lit 1000000 in if isBidSide s a then yes else - yes)"

definition base_to_num :: "int \<Rightarrow> nat \<Rightarrow> jsn" where
  "base_to_num n decimals = num_of_bigint n / pow10 decimals"

fun toLegacyOrder :: "any_order \<Rightarrow> nat \<Rightarrow> LegacyOrder" where
  "toLegacyOrder (AnyLegacy o') decimals = o'"
| "toLegacyOrder (AnyDetail d) decimals =
     \<lparr>lo_txId = od_txId d, lo_accountId = od_accountId d,
      priceUsd = legacy_price (od_side d) (od_action d) (od_limitYesPrice d),
      lo_qty = base_to_num (sharesRemaining d) decimals,
      lo_ps = (if od_action d = ACTION_SELL then ''s'' else ''p''),
      lo_side = od_side d, lo_action = od_action d\<rparr>"
| "toLegacyOrder (AnyIntent i) decimals =
     (let r = pi_qtyShares i - sharesFilled i; remaining = (if r < 0 then 0 else r) in
      \<lparr>lo_txId = pi_txId i, lo_accountId = pi_accountId i,
       priceUsd = legacy_price (pi_side i) (pi_action i) (pi_limitYesPrice i),
       lo_qty = base_to_num remaining decimals,
       lo_ps = (if pi_action i = ACTION_SELL then ''s'' else ''p''),
       lo_side = pi_side i, lo_action = pi_action i\<rparr>)"

record LegacyBook =
  bids :: "LegacyOrder list"
  asks :: "LegacyOrder list"

record BookSnapshot =
  sb_bids :: "any_order list"
  sb_asks :: "any_order list"

text \<open>An absent book reads as an empty one.\<close>

definition toLegacyBook :: "BookSnapshot option \<Rightarrow> nat \<Rightarrow> LegacyBook" where
  "toLegacyBook book decimals =
     (case book of
        None \<Rightarrow> \<lparr>bids = [], asks = []\<rparr>
      | Some b \<Rightarrow> \<lparr>bids = map (\<lambda>o'. toLegacyOrder o' decimals) (sb_bids b),
                   asks = map (\<lambda>o'. toLegacyOrder o' decimals) (sb_asks b)\<rparr>)"

definition describeOrder :: "int \<Rightarrow> int \<Rightarrow> outcome \<times> order_action" where
  "describeOrder s a =
     ((if s = SIDE_NO then ONo else OYes), (if a = ACTION_SELL then ASell else ABuy))"

section \<open>Unit conversions: round trips\<close>

lemma bigint_of_digits:
  assumes "\<forall>c\<in>set m. is_digit c" "m \<noteq> []" "parse_digits 10 0 m = Some n"
  shows "bigint_of_string m = Inr n" "bigint_of_string (CHR ''-'' # m) = Inr (- n)"
proof -
  obtain c t where c: "m = c # t" "is_digit c" using assms by (cases m) auto
  have ne: "c \<noteq> CHR ''-''" "c \<noteq> CHR ''+''" using c(2) by auto
  have x: "\<not> starts_with m ''0x''" "\<not> starts_with m ''0X''"
    using assms(1) unfolding c(1) by (cases t; auto simp: starts_with_def)+
  have sp: "\<not> is_space (CHR ''-'')" by (simp add: is_space_def code_of_def)
  have t: "trim m = m" "trim (CHR ''-'' # m) = CHR ''-'' # m"
    using assms(1) sp by (intro trim_id; auto)+
  show "bigint_of_string m = Inr n"
    using assms(2,3) ne x by (simp add: bigint_of_string_def t parse_nat_def) (simp add: c(1))
  show "bigint_of_string (CHR ''-'' # m) = Inr (- n)"
    using assms(2,3) by (simp add: bigint_of_string_def t parse_nat_def starts_with_def)
qed

text \<open>The two halves of a fixed-point numeral, glued together, are the digits of the scaled integer.\<close>

definition glue_fixed :: "nat \<Rightarrow> string \<Rightarrow> string" where
  "glue_fixed d s =
     (let parts = split_char (CHR ''.'') s;
          f = (case tl parts of [] \<Rightarrow> [] | f # _ \<Rightarrow> f)
      in hd parts @ take d (pad_end d (CHR ''0'') f))"

lemma toBaseUnits_glue:
  "toBaseUnits x d = (if 100 < d then Inl RangeError else bigint_of_string (glue_fixed d (to_fixed x d)))"
  by (simp add: toBaseUnits_def glue_fixed_def Let_def)

lemma glue_fixed_digits:
  assumes "0 \<le> n"
  shows "glue_fixed d (fixed_digits d n) = pad_start (d + 1) (CHR ''0'') (digits 10 n)"
    "glue_fixed d (CHR ''-'' # fixed_digits d n) = CHR ''-'' # pad_start (d + 1) (CHR ''0'') (digits 10 n)"
proof -
  define m where "m = pad_start (d + 1) (CHR ''0'') (digits 10 n)"
  have dg: "\<forall>c\<in>set m. is_digit c"
    using digits_10_is_digit [OF assms] by (auto simp: m_def pad_start_def)
  define k where "k = length m - d"
  have "d \<le> length m" by (simp add: m_def pad_start_def)
  then have k: "take k m @ drop k m = m" "length (drop k m) = d"
    by (simp_all add: k_def)
  have "CHR ''.'' \<notin> set m" using dg by auto
  then have nd: "CHR ''.'' \<notin> set (take k m)" "CHR ''.'' \<notin> set (drop k m)" "CHR ''.'' \<notin> set m"
    by (auto dest: in_set_takeD in_set_dropD)
  have fd: "fixed_digits d n = (if d = 0 then m else take k m @ CHR ''.'' # drop k m)"
    by (simp add: fixed_digits_def m_def k_def Let_def)
  have s: "split_char (CHR ''.'') (fixed_digits d n) = (if d = 0 then [m] else [take k m, drop k m])"
    using nd by (simp add: fd split_char_none split_char_append)
  moreover have "split_char (CHR ''.'') (CHR ''-'' # fixed_digits d n)
      = (if d = 0 then [CHR ''-'' # m] else [CHR ''-'' # take k m, drop k m])"
    using s by simp
  ultimately show "glue_fixed d (fixed_digits d n) = pad_start (d + 1) (CHR ''0'') (digits 10 n)"
    "glue_fixed d (CHR ''-'' # fixed_digits d n) = CHR ''-'' # pad_start (d + 1) (CHR ''0'') (digits 10 n)"
    unfolding m_def [symmetric] using k by (simp_all add: glue_fixed_def pad_end_def)
qed

lemma bigint_of_pad:
  assumes "0 \<le> n"
  shows "bigint_of_string (pad_start (d + 1) (CHR ''0'') (digits 10 n)) = Inr n"
    "bigint_of_string (CHR ''-'' # pad_start (d + 1) (CHR ''0'') (digits 10 n)) = Inr (- n)"
proof -
  define m where "m = pad_start (d + 1) (CHR ''0'') (digits 10 n)"
  have "\<forall>c\<in>set m. is_digit c"
    using digits_10_is_digit [OF assms] by (auto simp: m_def pad_start_def)
  moreover have "m \<noteq> []" by (simp add: m_def pad_start_def)
  moreover have "parse_digits 10 0 m = Some n"
    using assms by (simp add: m_def pad_start_def parse_digits_zeros parse_digits_digits)
  ultimately show "bigint_of_string (pad_start (d + 1) (CHR ''0'') (digits 10 n)) = Inr n"
    "bigint_of_string (CHR ''-'' # pad_start (d + 1) (CHR ''0'') (digits 10 n)) = Inr (- n)"
    unfolding m_def [symmetric] by (simp_all add: bigint_of_digits)
qed

text \<open>\<open>toBaseUnits\<close> rounds the scaled amount to the nearest integer, away from zero on a tie.\<close>

lemma toBaseUnits_num:
  assumes "d \<le> 100" "\<bar>a\<bar> < 10 ^ 21"
  shows "toBaseUnits (JNum a) d =
    Inr (if a < 0 then - \<lfloor>- a * 10 ^ d + 1 / 2\<rfloor> else \<lfloor>a * 10 ^ d + 1 / 2\<rfloor>)"
proof (cases "a < 0")
  case True
  then have "0 \<le> - a * 10 ^ d" by (intro mult_nonneg_nonneg) auto
  then have "0 \<le> \<lfloor>- a * 10 ^ d + 1 / 2\<rfloor>" by linarith
  from glue_fixed_digits(2) [OF this] bigint_of_pad(2) [OF this]
  show ?thesis using True assms by (simp add: toBaseUnits_glue)
next
  case False
  then have "0 \<le> a * 10 ^ d" by (intro mult_nonneg_nonneg) auto
  then have "0 \<le> \<lfloor>a * 10 ^ d + 1 / 2\<rfloor>" by linarith
  from glue_fixed_digits(1) [OF this] bigint_of_pad(1) [OF this]
  show ?thesis using False assms by (simp add: toBaseUnits_glue)
qed

lemma pow10_exact: "d \<le> 22 \<Longrightarrow> pow10 d = JNum (10 ^ d)"
proof -
  assume d: "d \<le> 22"
  have "(5::int) ^ d \<le> 5 ^ 22" using d by (intro power_increasing) auto
  then have "\<bar>5 ^ d\<bar> \<le> (2 ^ 53 :: int)" by simp
  from fl_exact [OF this, of "int d"] have f: "fl (10 ^ d) = 10 ^ d"
    by (simp flip: power_mult_distrib)
  have "(10::rat) ^ d \<le> 10 ^ 22" using d by (intro power_increasing) auto
  also have "\<dots> < 2 ^ 1024" by simp
  finally have "(10::rat) ^ d < 2 ^ 1024" .
  moreover have "\<not> (10::rat) ^ d \<le> - (2 ^ 1024)"
  proof -
    have "- (2 ^ 1024) \<le> (0::rat)" "(0::rat) < 10 ^ d" by simp_all
    then show ?thesis by (metis not_le order_le_less_trans)
  qed
  ultimately show ?thesis unfolding pow10_def jsfin_def f Let_def by (simp only: not_le [symmetric] if_False simp_thms)
qed

lemma fromBaseUnits_num:
  assumes "\<bar>n\<bar> \<le> 2 ^ 53" "d \<le> 22"
  shows "num_of_bigint n / pow10 d = JNum (fl (of_int n / 10 ^ d))"
    "\<bar>fl (of_int n / 10 ^ d)\<bar> \<le> 2 ^ 53"
proof -
  have p: "(1::rat) \<le> 10 ^ d" by simp
  have "\<bar>of_int n / 10 ^ d\<bar> \<le> \<bar>of_int n :: rat\<bar>"
    using p by (simp add: abs_divide divide_le_eq mult_le_cancel_left1)
  also have "\<dots> \<le> of_int (2 ^ 53)" using assms(1) by (simp only: of_int_le_iff flip: of_int_abs)
  finally have *: "\<bar>of_int n / (10 :: rat) ^ d\<bar> \<le> of_int (2 ^ 53)" .
  from jsfin_small [OF *] show "\<bar>fl (of_int n / 10 ^ d)\<bar> \<le> 2 ^ 53"
    "num_of_bigint n / pow10 d = JNum (fl (of_int n / 10 ^ d))"
    by (simp_all add: num_of_bigint_def jsfin_int [OF assms(1)] pow10_exact [OF assms(2)])
qed

lemma scaled_back:
  assumes "\<bar>n\<bar> < 2 ^ 52"
  shows "\<bar>fl (of_int n / 10 ^ d) * 10 ^ d - of_int n\<bar> < 1 / 2 \<or> 1000 < d \<or> 2 ^ 1000 < (10::int) ^ d"
proof (cases "2 ^ 1000 < (10::int) ^ d")
  case False
  have "\<bar>fl (of_int n / of_int (10 ^ d)) * of_int (10 ^ d) - of_int n\<bar> \<le> of_int \<bar>n\<bar> / 2 ^ 53"
    using False by (intro fl.scaled_error) auto
  moreover have "(of_int \<bar>n\<bar> :: rat) < of_int (2 ^ 52)" using assms by (simp only: of_int_less_iff)
  ultimately show ?thesis by simp
qed simp

lemma base_units_roundtrip_aux:
  assumes n: "\<bar>n\<bar> < 2 ^ 52" and d: "d \<le> 22"
  shows "toBaseUnits (num_of_bigint n / pow10 d) d = Inr n"
proof -
  define a where "a = fl (of_int n / 10 ^ d)"
  have n': "\<bar>n\<bar> \<le> 2 ^ 53" using n by simp
  have "(10::int) ^ d \<le> 10 ^ 22" using d by (intro power_increasing) auto
  also have "\<dots> \<le> 2 ^ 1000" by simp
  finally have e: "\<bar>a * 10 ^ d - of_int n\<bar> < 1 / 2" using scaled_back [OF n, of d] d by (auto simp: a_def)
  have a: "num_of_bigint n / pow10 d = JNum a" "\<bar>a\<bar> \<le> 2 ^ 53"
    using fromBaseUnits_num [OF n' d] by (simp_all add: a_def)
  have lim: "\<bar>a\<bar> < 10 ^ 21" using a(2) by simp
  have neg: "a < 0 \<Longrightarrow> \<lfloor>- a * 10 ^ d + 1 / 2\<rfloor> = - n"
    using e by (intro floor_half_up_int) (simp add: abs_minus_commute)
  have pos: "\<lfloor>a * 10 ^ d + 1 / 2\<rfloor> = n"
    using e by (rule floor_half_up_int)
  show ?thesis using toBaseUnits_num [OF _ lim, of d] d neg pos by (simp add: a(1))
qed


section \<open>Prices: bounds, complement, grid\<close>

lemma scale_literal: "lit 1000000 = JNum 1000000"
  using jsfin_numeral [of "num.Bit0 num.One"] jsfin_int [of 1000000] by simp

definition clamp_price :: "int \<Rightarrow> int" where
  "clamp_price p = (if p < 0 then 0 else if p > PRICE_SCALE then PRICE_SCALE else p)"

lemma clamp_price_range [js_bounds]: "0 \<le> clamp_price p" "clamp_price p \<le> PRICE_SCALE"
  by (auto simp: clamp_price_def js_simps)

lemma clamp_price_id: "0 \<le> p \<Longrightarrow> p \<le> PRICE_SCALE \<Longrightarrow> clamp_price p = p"
  by (simp add: clamp_price_def)

text \<open>The scaled price as an integer, before the outcome is taken into account.\<close>

definition scaled_price :: "jsn \<Rightarrow> int result" where
  "scaled_price x = bigint_of_num (jround (x * lit 1000000))"

lemma toLimitYesPrice_scaled:
  "toLimitYesPrice oc x =
     bind_result (scaled_price x) (\<lambda>p. Inr (if oc = OYes then clamp_price p else PRICE_SCALE - clamp_price p))"
  by (simp add: toLimitYesPrice_def scaled_price_def clamp_price_def Let_def cong: if_cong)

lemma scaled_price_num:
  assumes "\<bar>x * 1000000\<bar> \<le> 2 ^ 53"
  shows "scaled_price (JNum x) = Inr \<lfloor>fl (x * 1000000) + 1 / 2\<rfloor>"
proof -
  have "jsfin (x * 1000000) = JNum (fl (x * 1000000))"
    using jsfin_small [of "x * 1000000" "2 ^ 53"] assms by simp
  then show ?thesis by (simp add: scaled_price_def scale_literal)
qed

text \<open>Close to a multiple of one millionth the scaled price is that multiple.\<close>

lemma scaled_price_near:
  assumes k: "\<bar>k\<bar> \<le> 2 ^ 49" and e: "\<bar>x * 1000000 - of_int k\<bar> \<le> 1 / 8"
  shows "scaled_price (JNum x) = Inr k"
proof -
  have k': "\<bar>of_int k :: rat\<bar> \<le> 2 ^ 49"
  proof -
    have "of_int \<bar>k\<bar> \<le> (of_int (2 ^ 49) :: rat)" using k by (simp only: of_int_le_iff)
    then show ?thesis by simp
  qed
  have b: "\<bar>x * 1000000\<bar> \<le> 2 ^ 53"
  proof -
    have "(2::rat) ^ 49 + 1 / 8 \<le> 2 ^ 53" by simp
    then show ?thesis using e k' by linarith
  qed
  have g: "fl (of_int m / 2 ^ 3) = of_int m / 2 ^ 3" if "m = 8 * k + 1 \<or> m = 8 * k - 1" for m
    using that k by (intro fl_dyadic) (auto simp: abs_le_iff)
  have e': "x * 1000000 - of_int k \<le> 1 / 8" "of_int k - x * 1000000 \<le> 1 / 8" using e by linarith+
  have "fl (x * 1000000) \<le> of_int (8 * k + 1) / 2 ^ 3"
    using e' by (intro fl.rd_le [OF g [OF disjI1 [OF refl]]]) simp
  moreover have "of_int (8 * k - 1) / 2 ^ 3 \<le> fl (x * 1000000)"
    using e' by (intro fl.rd_ge [OF g [OF disjI2 [OF refl]]]) simp
  ultimately have "\<bar>fl (x * 1000000) - of_int k\<bar> < 1 / 2"
    unfolding abs_less_iff by simp
  then have "\<lfloor>fl (x * 1000000) + 1 / 2\<rfloor> = k" by (rule floor_half_up_int)
  then show ?thesis using scaled_price_num [OF b] by simp
qed

text \<open>A price on the grid of millionths, and its complement computed in floating point.\<close>

lemma grid_price:
  assumes "0 \<le> k" "k \<le> 1000000"
  shows "jsfin (of_int k / 1000000) = JNum (fl (of_int k / 1000000))"
    "0 \<le> fl (of_int k / 1000000)" "fl (of_int k / 1000000) \<le> 1"
    "\<bar>fl (of_int k / 1000000) * 1000000 - of_int k\<bar> \<le> 1 / 2 ^ 30"
proof -
  have q: "0 \<le> of_int k / (1000000 :: rat)" "of_int k / (1000000 :: rat) \<le> 1" using assms by simp_all
  then show "jsfin (of_int k / 1000000) = JNum (fl (of_int k / 1000000))"
    by (intro jsfin_unit) simp
  show "0 \<le> fl (of_int k / 1000000)" "fl (of_int k / 1000000) \<le> 1"
    using fl.rd_unit [OF q] by simp_all
  have "\<bar>fl (of_int k / of_int 1000000) * of_int 1000000 - of_int k\<bar> \<le> of_int \<bar>k\<bar> / 2 ^ 53"
    by (rule fl.scaled_error) simp_all
  also have "\<dots> \<le> 1 / 2 ^ 30" using assms by simp
  finally show "\<bar>fl (of_int k / 1000000) * 1000000 - of_int k\<bar> \<le> 1 / 2 ^ 30" by simp
qed

lemma fl_unit_error:
  assumes "0 \<le> x" "x \<le> 1"
  shows "\<bar>fl x - x\<bar> \<le> 1 / 2 ^ 53"
proof (cases "x = 0")
  case False
  then have "0 < x" "x < 2 powi 1" using assms by simp_all
  then have "rat_log2 x < 1" by (rule rat_log2_less)
  then have "ulp_exp x \<le> - 52" using \<open>0 < x\<close> by (simp add: ulp_exp_def)
  then have "(2::rat) powi ulp_exp x \<le> 2 powi (- 52)" by (intro power_int_increasing) auto
  moreover have "(2::rat) powi (- 52) = 1 / 2 ^ 52"
    using power_int_minus_divide [of "2::rat" "int 52"] unfolding power_int_of_nat by simp
  ultimately have "2 powi ulp_exp x / 2 \<le> (1::rat) / 2 ^ 53" by simp
  then show ?thesis using fl_error_ulp [of x] by linarith
qed simp

lemma complement_price:
  assumes "0 \<le> k" "k \<le> 1000000"
  shows "\<exists>c. JNum 1 - jsfin (of_int k / 1000000) = JNum c \<and> 0 \<le> c \<and> c \<le> 1
    \<and> \<bar>c * 1000000 - of_int (1000000 - k)\<bar> \<le> 1 / 8"
proof -
  define p where "p = fl (of_int k / 1000000)"
  note g = grid_price [OF assms, folded p_def]
  have u: "0 \<le> 1 - p" "1 - p \<le> 1" using g by simp_all
  have "JNum 1 - jsfin (of_int k / 1000000) = JNum (fl (1 - p))"
    using u by (simp add: g(1) jsfin_unit)
  moreover have "0 \<le> fl (1 - p)" "fl (1 - p) \<le> 1" using fl.rd_unit [OF u] by simp_all
  moreover have "\<bar>fl (1 - p) * 1000000 - of_int (1000000 - k)\<bar> \<le> 1 / 8"
  proof -
    have "(1::rat) / 2 ^ 53 * 1000000 + 1 / 2 ^ 30 \<le> 1 / 8" by simp
    then show ?thesis
      using g(4) fl_unit_error [OF u] unfolding of_int_diff of_int_numeral by linarith
  qed
  ultimately show ?thesis by blast
qed

section \<open>The cap\<close>

lemma ceilDiv_value:
  assumes "0 \<le> a" "0 < b"
  shows "ceilDiv a b = Inr ((a + b - 1) div b)"
  using assms by (simp add: ceilDiv_def bigint_div_nonneg)

lemma ceil_div_bounds:
  fixes a b :: int
  assumes "0 < b"
  shows "a \<le> (a + b - 1) div b * b" "((a + b - 1) div b - 1) * b < a"
proof -
  have "(a + b - 1) div b * b + (a + b - 1) mod b = a + b - 1" by simp
  moreover have "0 \<le> (a + b - 1) mod b" "(a + b - 1) mod b < b" using assms by simp_all
  ultimately show "a \<le> (a + b - 1) div b * b" "((a + b - 1) div b - 1) * b < a"
    unfolding left_diff_distrib by linarith+
qed

lemma ceil_div_le_iff:
  fixes a b c :: int
  assumes "0 < b"
  shows "(a + b - 1) div b \<le> c \<longleftrightarrow> a \<le> c * b"
proof
  assume "(a + b - 1) div b \<le> c"
  then have "(a + b - 1) div b * b \<le> c * b" using assms by (intro mult_right_mono) auto
  then show "a \<le> c * b" using ceil_div_bounds(1) [OF assms, of a] by linarith
next
  assume "a \<le> c * b"
  then have "((a + b - 1) div b - 1) * b < c * b" using ceil_div_bounds(2) [OF assms, of a] by linarith
  then show "(a + b - 1) div b \<le> c" using assms by (simp add: mult_less_cancel_right)
qed

lemma cap_values:
  assumes "0 \<le> q" "0 \<le> l" "l \<le> PRICE_SCALE"
  shows "computeCollateralCap s ACTION_SELL q l = Inr 0"
    "computeCollateralCap SIDE_YES ACTION_BUY q l = Inr ((q * l + PRICE_SCALE - 1) div PRICE_SCALE)"
    "computeCollateralCap SIDE_NO ACTION_BUY q l =
       Inr ((q * (PRICE_SCALE - l) + PRICE_SCALE - 1) div PRICE_SCALE + 100)"
  using assms by (simp_all add: computeCollateralCap_def ceilDiv_value js_simps)


section \<open>Properties\<close>

text \<open>C19. Human amounts and base units convert without loss: for every integer amount below
  \<open>2 ^ 52\<close> in absolute value and up to 22 decimals, \<open>toBaseUnits\<close> after \<open>fromBaseUnits\<close> returns the
  amount it started from, although the quotient in between is rounded to a binary64 number.\<close>

theorem base_units_roundtrip:
  assumes "\<bar>n\<bar> < 2 ^ 52" "d \<le> 22"
  shows "bind_result (fromBaseUnits (VBig n) d) (\<lambda>x. toBaseUnits x d) = Inr n"
  using base_units_roundtrip_aux [OF assms] by (simp add: fromBaseUnits_def)

theorem base_units_roundtrip_witness:
  "bind_result (fromBaseUnits (VBig 10000001) 6) (\<lambda>x. toBaseUnits x 6) = Inr 10000001"
  by (rule base_units_roundtrip) simp_all

text \<open>Every outcome price yields a limit inside the price scale, the YES and NO limits of one price
  are complementary, and the conversion fails exactly when the scaled price is not a finite number.\<close>

theorem limit_price_total:
  "case toLimitYesPrice OYes x of
     Inr l \<Rightarrow> 0 \<le> l \<and> l \<le> PRICE_SCALE \<and> toLimitYesPrice ONo x = Inr (PRICE_SCALE - l)
   | Inl e \<Rightarrow> e = RangeError \<and> \<not> is_finite (x * lit 1000000) \<and> toLimitYesPrice ONo x = Inl e"
proof (cases "x * lit 1000000")
  case (JNum y)
  then show ?thesis by (simp add: toLimitYesPrice_scaled scaled_price_def clamp_price_range)
qed (simp_all add: toLimitYesPrice_scaled scaled_price_def)

text \<open>On the grid of millionths prices are exact in both frames: the YES limit of \<open>k / 10 ^ 6\<close> is
  \<open>k\<close>, and a NO order at the complementary price, computed in floating point as \<open>1 - p\<close>, carries the
  same YES limit, so both sides of one book level meet on one integer.\<close>

theorem limit_price_exact:
  assumes "0 \<le> k" "k \<le> PRICE_SCALE"
  shows "toLimitYesPrice OYes (lit (of_int k / 1000000)) = Inr k
    \<and> toLimitYesPrice ONo (JNum 1 - lit (of_int k / 1000000)) = Inr k"
proof
  have k: "0 \<le> k" "k \<le> 1000000" using assms by (simp_all add: js_simps)
  note g = grid_price [OF k]
  have "scaled_price (lit (of_int k / 1000000)) = Inr k"
    unfolding g(1)
  proof (rule scaled_price_near)
    show "\<bar>fl (of_int k / 1000000) * 1000000 - of_int k\<bar> \<le> 1 / 8" using g(4) by (rule order_trans) simp
  qed (use k in simp)
  then show "toLimitYesPrice OYes (lit (of_int k / 1000000)) = Inr k"
    using assms by (simp add: toLimitYesPrice_scaled clamp_price_id)
  obtain c where c: "JNum 1 - lit (of_int k / 1000000) = JNum c"
    "\<bar>c * 1000000 - of_int (1000000 - k)\<bar> \<le> 1 / 8"
    using complement_price [OF k] by blast
  have "scaled_price (JNum c) = Inr (1000000 - k)"
    by (rule scaled_price_near [OF _ c(2)]) (use k in simp)
  then show "toLimitYesPrice ONo (JNum 1 - lit (of_int k / 1000000)) = Inr k"
    using k by (simp add: c(1) toLimitYesPrice_scaled clamp_price_id js_simps del: minus_num)
qed

theorem limit_price_exact_witness:
  "toLimitYesPrice OYes (lit (of_int 575000 / 1000000)) = Inr 575000
    \<and> toLimitYesPrice ONo (JNum 1 - lit (of_int 575000 / 1000000)) = Inr 575000"
  by (rule limit_price_exact) (simp_all add: js_simps)

text \<open>The string the wallet signs for an order always has 44 characters, the length the prefix of a
  Hedera message announces, whatever the hash is.\<close>

theorem signing_message_length:
  assumes "keccak_documented keccak256" "encodeBase64_documented encodeBase64"
    "authorizationSigningMessage keccak256 encode encodeBase64 a = Inr s"
  shows "length s = 44"
proof -
  obtain x where "s = encodeBase64 (keccak256 x)"
    using assms(3) by (auto simp: authorizationSigningMessage_def authorizationStructHash_def
        bind_result_Inr_iff)
  moreover obtain bs where "is_bytes bs" "length bs = 32" "keccak256 x = ''0x'' @ hex_of_bytes bs"
    using assms(1) unfolding keccak_documented_def by blast
  ultimately have "s = base64 bs" "length bs = 32"
    using assms(2) by (auto simp: encodeBase64_documented_def)
  then show ?thesis by (simp add: length_base64)
qed

definition demo_keccak :: "bytes \<Rightarrow> string" where
  "demo_keccak x = ''0x'' @ hex_of_bytes (take 32 (map (\<lambda>b. b mod 256) x @ replicate 32 7))"

definition demo_base64 :: "string \<Rightarrow> string" where
  "demo_base64 s = base64 (bytes_of_hex (strip0x s))"

lemma demo_documented: "keccak_documented demo_keccak" "encodeBase64_documented demo_base64"
proof -
  have "is_bytes (take 32 (map (\<lambda>b. b mod 256) x @ replicate 32 7))" for x
    by (auto simp: is_bytes_def list_all_iff dest!: in_set_takeD)
  then show "keccak_documented demo_keccak"
    unfolding keccak_documented_def demo_keccak_def by (metis length_take length_append
        length_replicate min.absorb2 le_add2)
  show "encodeBase64_documented demo_base64"
    by (simp add: encodeBase64_documented_def demo_base64_def strip0x_def starts_with_def
        bytes_of_hex_of_bytes)
qed

definition demo_authorization :: AuthorizationV2 where
  "demo_authorization = \<lparr>chainId = 296, verifyingContract = ''0x11'', signer = ''22'',
     marketId = ''01890f3e-7c10-7cc1-98bc-0242ac120002'', txId = ''01890f3e-7c10-7cc1-98bc-0242ac120003'',
     side = 0, action = 0, limitYesPrice = 625000, qtyShares = 10000000, collateralCap = 6250000,
     deadline = 2000000000\<rparr>"

theorem signing_message_length_witness:
  "\<exists>s. authorizationSigningMessage demo_keccak (\<lambda>_ vs. Inr [int (length vs)]) demo_base64
     demo_authorization = Inr s \<and> length s = 44"
proof -
  obtain m t where "uuidToUint128 (marketId demo_authorization) = Inr m"
    "uuidToUint128 (txId demo_authorization) = Inr t"
    by (simp add: uuidToUint128_def demo_authorization_def remove_dashes_def bigint_of_string_def
        trim_def is_space_def code_of_def starts_with_def parse_nat_def char_digit_def)
  then obtain s where "authorizationSigningMessage demo_keccak (\<lambda>_ vs. Inr [int (length vs)])
      demo_base64 demo_authorization = Inr s"
    by (simp add: authorizationSigningMessage_def authorizationStructHash_def)
  then show ?thesis using signing_message_length [OF demo_documented] by blast
qed

end
