(* ===== verification/Settlement.thy ===== *)
theory Settlement
  imports OrderProtocol
begin

text \<open>
  The settlement side of an order, \<open>src/scs/contracts/PrismV2.sol\<close>: what the contract checks of one
  authorization before a fill (\<open>_validateAuthorization\<close>), how it accounts the fill (\<open>_consume\<close>) and how
  a fill is priced in \<open>settle\<close>. The web client chooses the collateral cap it signs with
  \<open>computeCollateralCap\<close>; the theory shows that the cap is exactly what these checks need. Here
  one order is followed through its fills; \<open>Prism\<close> has the whole contract.
\<close>

section \<open>Authorizations and fills\<close>

datatype sol_side = YES | NO
datatype sol_action = BUY | SELL

record Authorization =
  a_version :: int
  a_chainId :: int
  a_verifyingContract :: int
  a_signer :: int
  a_marketId :: int
  a_txId :: int
  a_side :: sol_side
  a_action :: sol_action
  a_limitYesPrice :: int
  a_qtyShares :: int
  a_collateralCap :: int
  a_deadline :: int

datatype sol_error =
  Unauthorized | InvalidAddress | InvalidAuthorization | InvalidMarketState | InvalidPairing
| InvalidPrice | InvalidFill | LimitPriceViolated | AuthorizationCanceled | SignatureRejected
| TokenAssociationFailed int | MatchAlreadyExecuted | InsufficientPosition | Insolvent
| UnsupportedCollateralBehavior | ReentrantCall | InvalidInitialization | TokenReverted | Panic

record FillState =
  f_shares :: int
  f_collateral :: int

text \<open>The errors the contract declares; \<open>Panic\<close> is a checked arithmetic overflow, \<open>TokenReverted\<close> a
  revert inside the token and \<open>InvalidInitialization\<close> that of the initializer modifier.\<close>

text \<open>The zero hash stands for an unused nonce, as in the contract's mapping. \<open>e_hash\<close> is
  \<open>authorizationHash\<close> and \<open>e_authorized\<close> the account service of the network.\<close>

record prism_state =
  fills :: "int \<Rightarrow> FillState"
  authorizationByNonce :: "int \<times> int \<Rightarrow> int"
  canceled :: "int \<times> int \<Rightarrow> bool"

record sol_env =
  block_chainid :: int
  this_address :: int
  block_timestamp :: int
  e_hash :: "Authorization \<Rightarrow> int"
  e_authorized :: "Authorization \<Rightarrow> bool"

definition uint256_limit :: int where "uint256_limit = 2 ^ 256"

section \<open>The contract's checks\<close>

definition malformed :: "sol_env \<Rightarrow> 'z prism_state_scheme \<Rightarrow> Authorization \<Rightarrow> bool" where
  "malformed env st a \<longleftrightarrow>
     a_version a \<noteq> AUTHORIZATION_VERSION \<or> a_chainId a \<noteq> block_chainid env
     \<or> a_verifyingContract a \<noteq> this_address env \<or> a_signer a = 0 \<or> a_qtyShares a = 0
     \<or> (a_action a = BUY \<and> a_collateralCap a = 0) \<or> a_deadline a < block_timestamp env
     \<or> a_limitYesPrice a > PRICE_SCALE \<or> canceled st (a_signer a, a_txId a)"

definition limit_violated :: "Authorization \<Rightarrow> int \<Rightarrow> bool" where
  "limit_violated a price \<longleftrightarrow>
     (a_side a = YES \<and> a_action a = BUY \<and> price > a_limitYesPrice a)
     \<or> (a_side a = YES \<and> a_action a = SELL \<and> price < a_limitYesPrice a)
     \<or> (a_side a = NO \<and> a_action a = BUY \<and> price < a_limitYesPrice a)
     \<or> (a_side a = NO \<and> a_action a = SELL \<and> price > a_limitYesPrice a)"

definition validateAuthorization ::
  "sol_env \<Rightarrow> 'z prism_state_scheme \<Rightarrow> Authorization \<Rightarrow> int \<Rightarrow> sol_error + int" where
  "validateAuthorization env st a price =
     (if malformed env st a then
        Inl (if canceled st (a_signer a, a_txId a) then AuthorizationCanceled else InvalidAuthorization)
      else if limit_violated a price then Inl LimitPriceViolated
      else if \<not> e_authorized env a then Inl SignatureRejected
      else Inr (e_hash env a))"

definition consume ::
  "Authorization \<Rightarrow> int \<Rightarrow> int \<Rightarrow> int \<Rightarrow> 'z prism_state_scheme \<Rightarrow> sol_error + 'z prism_state_scheme" where
  "consume a h fillShares fillCollateral st =
     (let nonce = (a_signer a, a_txId a); nh = authorizationByNonce st nonce in
      if nh \<noteq> 0 \<and> nh \<noteq> h then Inl InvalidAuthorization
      else
       (let cs = f_shares (fills st h) + fillShares; cc = f_collateral (fills st h) + fillCollateral in
        if uint256_limit \<le> cs \<or> uint256_limit \<le> cc then Inl Panic
        else if cs > a_qtyShares a \<or> (a_action a = BUY \<and> cc > a_collateralCap a) then Inl InvalidFill
        else Inr (st\<lparr>authorizationByNonce := (authorizationByNonce st)(nonce := h),
                     fills := (fills st)(h := \<lparr>f_shares = cs, f_collateral = cc\<rparr>)\<rparr>)))"

text \<open>One order's leg of \<open>settle\<close>: the price and dust checks, validation, and the accounting of the
  collateral its side pays. \<open>mulDiv\<close> rounds down, so the NO side bears the rounding.\<close>

definition leg_collateral :: "sol_side \<Rightarrow> int \<Rightarrow> int \<Rightarrow> int" where
  "leg_collateral s sh price =
     (let y = sh * price div PRICE_SCALE in if s = YES then y else sh - y)"

definition settle_leg ::
  "sol_env \<Rightarrow> Authorization \<Rightarrow> int \<times> int \<Rightarrow> prism_state \<Rightarrow> sol_error + prism_state" where
  "settle_leg env a fp st =
     (let (sh, price) = fp in
      if sh = 0 \<or> price = 0 \<or> price \<ge> PRICE_SCALE then Inl InvalidPrice
      else (case validateAuthorization env st a price of
              Inl e \<Rightarrow> Inl e
            | Inr h \<Rightarrow>
                if leg_collateral YES sh price = 0 \<or> leg_collateral NO sh price = 0 then Inl InvalidFill
                else consume a h sh (leg_collateral (a_side a) sh price) st))"

fun settle_legs ::
  "sol_env \<Rightarrow> Authorization \<Rightarrow> (int \<times> int) list \<Rightarrow> prism_state \<Rightarrow> sol_error + prism_state" where
  "settle_legs env a [] st = Inr st"
| "settle_legs env a (fp # fps) st =
     (case settle_leg env a fp st of Inl e \<Rightarrow> Inl e | Inr st' \<Rightarrow> settle_legs env a fps st')"

section \<open>What a sequence of fills costs\<close>

definition side_code :: "sol_side \<Rightarrow> int" where
  "side_code s = (case s of YES \<Rightarrow> SIDE_YES | NO \<Rightarrow> SIDE_NO)"
definition action_code :: "sol_action \<Rightarrow> int" where
  "action_code a = (case a of BUY \<Rightarrow> ACTION_BUY | SELL \<Rightarrow> ACTION_SELL)"

text \<open>The matching engine only executes fills of this form: positive shares at a price inside the
  scale and the limit, neither side of it rounding to nothing.\<close>

definition good_fill :: "Authorization \<Rightarrow> int \<times> int \<Rightarrow> bool" where
  "good_fill a fp \<longleftrightarrow>
     0 < fst fp \<and> 0 < snd fp \<and> snd fp < PRICE_SCALE \<and> \<not> limit_violated a (snd fp)
     \<and> leg_collateral YES (fst fp) (snd fp) \<noteq> 0 \<and> leg_collateral NO (fst fp) (snd fp) \<noteq> 0"

definition total_shares :: "(int \<times> int) list \<Rightarrow> int" where
  "total_shares fps = sum_list (map fst fps)"

definition total_collateral :: "sol_side \<Rightarrow> (int \<times> int) list \<Rightarrow> int" where
  "total_collateral s fps = sum_list (map (\<lambda>fp. leg_collateral s (fst fp) (snd fp)) fps)"

lemma leg_collateral_range:
  assumes "0 \<le> sh" "0 \<le> price" "price \<le> PRICE_SCALE"
  shows "0 \<le> leg_collateral s sh price" "leg_collateral s sh price \<le> sh"
proof -
  have p: "0 \<le> sh * price" "sh * price \<le> sh * PRICE_SCALE"
    using assms by (auto intro: mult_left_mono)
  have "0 \<le> sh * price div PRICE_SCALE" using p by (simp add: PRICE_SCALE_def)
  moreover have "sh * price div PRICE_SCALE \<le> sh * PRICE_SCALE div PRICE_SCALE"
    using p by (intro zdiv_mono1) (simp_all add: PRICE_SCALE_def)
  ultimately show "0 \<le> leg_collateral s sh price" "leg_collateral s sh price \<le> sh"
    by (simp_all add: leg_collateral_def Let_def PRICE_SCALE_def)
qed

text \<open>A YES leg costs at most its share of the limit; a NO leg at most that plus the rounding.\<close>

lemma leg_cost:
  assumes "0 \<le> sh"
  shows "price \<le> l \<Longrightarrow> leg_collateral YES sh price * PRICE_SCALE \<le> sh * l"
    "l \<le> price \<Longrightarrow> leg_collateral NO sh price * PRICE_SCALE \<le> sh * (PRICE_SCALE - l) + (PRICE_SCALE - 1)"
proof -
  define q where "q = sh * price div PRICE_SCALE"
  have d: "q * PRICE_SCALE \<le> sh * price" "sh * price - (PRICE_SCALE - 1) \<le> q * PRICE_SCALE"
    using div_mult_mod_eq [of "sh * price" PRICE_SCALE]
      pos_mod_sign [of PRICE_SCALE "sh * price"] pos_mod_bound [of PRICE_SCALE "sh * price"]
    unfolding q_def PRICE_SCALE_def by linarith+
  show "price \<le> l \<Longrightarrow> leg_collateral YES sh price * PRICE_SCALE \<le> sh * l"
    using d(1) mult_left_mono [of price l sh] assms by (simp add: leg_collateral_def q_def)
  show "l \<le> price \<Longrightarrow> leg_collateral NO sh price * PRICE_SCALE \<le> sh * (PRICE_SCALE - l) + (PRICE_SCALE - 1)"
    unfolding leg_collateral_def Let_def q_def [symmetric]
    using d(2) mult_left_mono [of l price sh] assms by (simp add: algebra_simps)
qed

lemma total_cost_yes:
  assumes "\<forall>fp\<in>set fps. good_fill a fp" "a_side a = YES" "a_action a = BUY"
  shows "total_collateral YES fps * PRICE_SCALE \<le> total_shares fps * a_limitYesPrice a"
  using assms(1)
proof (induction fps)
  case (Cons fp fps)
  then have "leg_collateral YES (fst fp) (snd fp) * PRICE_SCALE \<le> fst fp * a_limitYesPrice a"
    using assms by (intro leg_cost) (auto simp: good_fill_def limit_violated_def)
  with Cons show ?case by (simp add: total_collateral_def total_shares_def distrib_right)
qed (simp add: total_collateral_def total_shares_def)

lemma total_cost_no:
  assumes "\<forall>fp\<in>set fps. good_fill a fp" "a_side a = NO" "a_action a = BUY"
  shows "total_collateral NO fps * PRICE_SCALE
    \<le> total_shares fps * (PRICE_SCALE - a_limitYesPrice a) + int (length fps) * (PRICE_SCALE - 1)"
  using assms(1)
proof (induction fps)
  case (Cons fp fps)
  then have "leg_collateral NO (fst fp) (snd fp) * PRICE_SCALE
      \<le> fst fp * (PRICE_SCALE - a_limitYesPrice a) + (PRICE_SCALE - 1)"
    using assms by (intro leg_cost) (auto simp: good_fill_def limit_violated_def)
  with Cons show ?case
    by (simp add: total_collateral_def total_shares_def distrib_right algebra_simps)
qed (simp add: total_collateral_def total_shares_def)


section \<open>Acceptance and safety of fills\<close>

text \<open>An authorization the contract takes as it stands, \<open>h\<close> its hash: well formed, signed, its nonce
  unused or its own.\<close>

definition live :: "sol_env \<Rightarrow> prism_state \<Rightarrow> Authorization \<Rightarrow> bool" where
  "live env st a \<longleftrightarrow>
     \<not> malformed env st a \<and> e_authorized env a
     \<and> (authorizationByNonce st (a_signer a, a_txId a) = 0
        \<or> authorizationByNonce st (a_signer a, a_txId a) = e_hash env a)"

text \<open>What one accepted leg does to the account of its authorization, and what it leaves alone.\<close>

lemma settle_leg_Inr:
  assumes "settle_leg env a (sh, price) st = Inr st'"
  shows "fills st' (e_hash env a) =
      \<lparr>f_shares = f_shares (fills st (e_hash env a)) + sh,
       f_collateral = f_collateral (fills st (e_hash env a)) + leg_collateral (a_side a) sh price\<rparr>"
    "f_shares (fills st' (e_hash env a)) \<le> a_qtyShares a"
    "a_action a = BUY \<Longrightarrow> f_collateral (fills st' (e_hash env a)) \<le> a_collateralCap a"
    "canceled st' = canceled st" "\<not> limit_violated a price" "sh \<noteq> 0" "price \<noteq> 0" "price < PRICE_SCALE"
    "\<And>h. h \<noteq> e_hash env a \<Longrightarrow> fills st' h = fills st h"
  using assms
  by (auto simp: settle_leg_def validateAuthorization_def consume_def Let_def not_le
      split: if_splits sum.splits)

lemma settle_leg_accepts:
  assumes "live env st a" "good_fill a (sh, price)"
    and "f_shares (fills st (e_hash env a)) + sh \<le> a_qtyShares a"
    and "a_action a = BUY \<Longrightarrow>
      f_collateral (fills st (e_hash env a)) + leg_collateral (a_side a) sh price \<le> a_collateralCap a"
    and "f_shares (fills st (e_hash env a)) + sh < uint256_limit"
    and "f_collateral (fills st (e_hash env a)) + leg_collateral (a_side a) sh price < uint256_limit"
  shows "\<exists>st'. settle_leg env a (sh, price) st = Inr st' \<and> live env st' a"
proof -
  have v: "validateAuthorization env st a price = Inr (e_hash env a)"
    using assms(1,2) by (simp add: validateAuthorization_def live_def good_fill_def)
  show ?thesis
    using assms
    by (auto simp: settle_leg_def v consume_def good_fill_def live_def malformed_def Let_def)
qed

lemma totals_nonneg:
  assumes "\<forall>fp\<in>set fps. good_fill a fp"
  shows "0 \<le> total_shares fps" "0 \<le> total_collateral s fps"
  using assms
  by (induction fps) (auto simp: total_shares_def total_collateral_def good_fill_def
      intro!: add_nonneg_nonneg leg_collateral_range)

lemma settle_legs_accept:
  assumes "live env st a" "\<forall>fp\<in>set fps. good_fill a fp"
    and "f_shares (fills st (e_hash env a)) + total_shares fps \<le> a_qtyShares a"
    and "a_action a = BUY \<Longrightarrow>
      f_collateral (fills st (e_hash env a)) + total_collateral (a_side a) fps \<le> a_collateralCap a"
    and "a_qtyShares a < uint256_limit"
    and "f_collateral (fills st (e_hash env a)) + total_collateral (a_side a) fps < uint256_limit"
  shows "\<exists>st'. settle_legs env a fps st = Inr st'
    \<and> fills st' (e_hash env a) =
        \<lparr>f_shares = f_shares (fills st (e_hash env a)) + total_shares fps,
         f_collateral = f_collateral (fills st (e_hash env a)) + total_collateral (a_side a) fps\<rparr>"
  using assms
proof (induction fps arbitrary: st)
  case Nil
  then show ?case by (simp add: total_shares_def total_collateral_def)
next
  case (Cons fp fps)
  obtain sh price where fp: "fp = (sh, price)" by (cases fp)
  let ?c = "leg_collateral (a_side a) sh price"
  have t: "total_shares (fp # fps) = sh + total_shares fps"
    "total_collateral (a_side a) (fp # fps) = ?c + total_collateral (a_side a) fps"
    by (simp_all add: fp total_shares_def total_collateral_def)
  have n: "0 \<le> total_shares fps" "0 \<le> total_collateral (a_side a) fps"
    using totals_nonneg [of fps a] Cons.prems(2) by simp_all
  have "\<exists>st'. settle_leg env a (sh, price) st = Inr st' \<and> live env st' a"
  proof (rule settle_leg_accepts)
    show "live env st a" by (rule Cons.prems(1))
    show "good_fill a (sh, price)" using Cons.prems(2) by (simp add: fp)
  qed (use Cons.prems(3-6) n in \<open>unfold t, linarith+\<close>)
  then obtain st' where st': "settle_leg env a (sh, price) st = Inr st'" "live env st' a" by blast
  have f: "f_shares (fills st' (e_hash env a)) = f_shares (fills st (e_hash env a)) + sh"
    "f_collateral (fills st' (e_hash env a)) = f_collateral (fills st (e_hash env a)) + ?c"
    using settle_leg_Inr(1) [OF st'(1)] by simp_all
  have "\<exists>st''. settle_legs env a fps st' = Inr st''
    \<and> fills st'' (e_hash env a) =
        \<lparr>f_shares = f_shares (fills st' (e_hash env a)) + total_shares fps,
         f_collateral = f_collateral (fills st' (e_hash env a)) + total_collateral (a_side a) fps\<rparr>"
  proof (rule Cons.IH)
    show "a_action a = BUY \<Longrightarrow>
      f_collateral (fills st' (e_hash env a)) + total_collateral (a_side a) fps \<le> a_collateralCap a"
      using Cons.prems(4) by (simp add: f t)
  qed (use st'(2) Cons.prems f t in simp_all)
  then show ?case using st'(1) by (simp add: fp f t [unfolded fp] add.assoc)
qed

lemma settle_legs_bounded:
  assumes "settle_legs env a fps st = Inr st'"
    and "f_shares (fills st (e_hash env a)) \<le> a_qtyShares a"
    and "a_action a = BUY \<Longrightarrow> f_collateral (fills st (e_hash env a)) \<le> a_collateralCap a"
  shows "f_shares (fills st' (e_hash env a)) \<le> a_qtyShares a
    \<and> (a_action a = BUY \<longrightarrow> f_collateral (fills st' (e_hash env a)) \<le> a_collateralCap a)"
  using assms
proof (induction fps arbitrary: st)
  case (Cons fp fps)
  obtain sh price where fp: "fp = (sh, price)" by (cases fp)
  from Cons.prems(1) obtain st1 where s: "settle_leg env a (sh, price) st = Inr st1"
    "settle_legs env a fps st1 = Inr st'"
    by (auto simp: fp split: sum.splits)
  from Cons.IH [OF s(2) settle_leg_Inr(2) [OF s(1)] settle_leg_Inr(3) [OF s(1)]]
  show ?case by simp
qed simp

section \<open>Properties\<close>

text \<open>C8. The cap the web client signs with covers every way the order can be filled: a BUY
  authorization whose cap is \<open>computeCollateralCap\<close> of its quantity and limit is never rejected by the
  contract for any sequence of executable fills within its quantity, however the quantity is split for
  a BUY YES order, and for up to 101 partial fills for a BUY NO order, whose rounding the cap's slack
  of 100 units absorbs.\<close>

theorem client_cap_covers_fills:
  assumes "computeCollateralCap (side_code (a_side a)) (action_code (a_action a)) (a_qtyShares a)
      (a_limitYesPrice a) = Inr (a_collateralCap a)"
    and "a_action a = BUY" "live env st a" "fills st (e_hash env a) = \<lparr>f_shares = 0, f_collateral = 0\<rparr>"
    and "0 \<le> a_limitYesPrice a" "a_qtyShares a < uint256_limit" "a_collateralCap a < uint256_limit"
    and "\<forall>fp\<in>set fps. good_fill a fp" "total_shares fps \<le> a_qtyShares a"
    and "a_side a = NO \<Longrightarrow> length fps \<le> 101"
  shows "\<exists>st'. settle_legs env a fps st = Inr st'
    \<and> f_shares (fills st' (e_hash env a)) = total_shares fps
    \<and> f_collateral (fills st' (e_hash env a)) = total_collateral (a_side a) fps"
proof -
  let ?q = "a_qtyShares a" and ?l = "a_limitYesPrice a"
  have l: "0 \<le> ?l" "?l \<le> PRICE_SCALE"
    using assms(3,5) by (auto simp: live_def malformed_def)
  have q: "0 \<le> ?q" using totals_nonneg(1) [OF assms(8)] assms(9) by linarith
  note caps = cap_values [OF q l]
  have "total_collateral (a_side a) fps \<le> a_collateralCap a"
  proof (cases "a_side a")
    case YES
    have "total_collateral YES fps * PRICE_SCALE \<le> total_shares fps * ?l"
      by (rule total_cost_yes) (use assms YES in auto)
    also have "\<dots> \<le> ?q * ?l" using assms(9) l(1) by (rule mult_right_mono)
    also have "\<dots> \<le> (?q * ?l + PRICE_SCALE - 1) div PRICE_SCALE * PRICE_SCALE"
      by (rule ceil_div_bounds) (simp add: PRICE_SCALE_def)
    finally show ?thesis using assms(1,2) YES caps(2)
      by (simp add: side_code_def action_code_def PRICE_SCALE_def)
  next
    case NO
    let ?c = "(?q * (PRICE_SCALE - ?l) + PRICE_SCALE - 1) div PRICE_SCALE"
    have cap: "a_collateralCap a = ?c + 100"
      using assms(1,2) NO caps(3) by (simp add: side_code_def action_code_def)
    have "total_collateral NO fps * PRICE_SCALE
        \<le> total_shares fps * (PRICE_SCALE - ?l) + int (length fps) * (PRICE_SCALE - 1)"
      by (rule total_cost_no) (use assms NO in auto)
    also have "\<dots> \<le> ?q * (PRICE_SCALE - ?l) + 101 * (PRICE_SCALE - 1)"
      using assms(9,10) l(2) NO by (intro add_mono mult_right_mono) (simp_all add: PRICE_SCALE_def)
    also have "?q * (PRICE_SCALE - ?l) \<le> ?c * PRICE_SCALE"
      by (rule ceil_div_bounds) (simp add: PRICE_SCALE_def)
    finally have "total_collateral NO fps * PRICE_SCALE \<le> ?c * PRICE_SCALE + 101 * (PRICE_SCALE - 1)"
      by simp
    then show ?thesis by (simp add: NO cap PRICE_SCALE_def)
  qed
  then show ?thesis
    using settle_legs_accept [OF assms(3,8)] assms by force
qed

text \<open>A BUY NO order on the edge: at a YES limit of 0.999999 a fill of two base units costs
  \<open>2 / 10 ^ 6\<close> but is charged one whole unit.\<close>

definition edge_order :: Authorization where
  "edge_order = \<lparr>a_version = 2, a_chainId = 296, a_verifyingContract = 17, a_signer = 34,
     a_marketId = 1, a_txId = 2, a_side = NO, a_action = BUY, a_limitYesPrice = 999999,
     a_qtyShares = 204, a_collateralCap = 101, a_deadline = 2000\<rparr>"

definition edge_env :: sol_env where
  "edge_env = \<lparr>block_chainid = 296, this_address = 17, block_timestamp = 1000,
     e_hash = (\<lambda>_. 99), e_authorized = (\<lambda>_. True)\<rparr>"

definition empty_prism :: prism_state where
  "empty_prism = \<lparr>fills = (\<lambda>_. \<lparr>f_shares = 0, f_collateral = 0\<rparr>),
     authorizationByNonce = (\<lambda>_. 0), canceled = (\<lambda>_. False)\<rparr>"

lemmas edge_defs = edge_order_def edge_env_def empty_prism_def good_fill_def limit_violated_def
  leg_collateral_def total_shares_def total_collateral_def live_def malformed_def side_code_def
  action_code_def uint256_limit_def AUTHORIZATION_VERSION_def

theorem client_cap_covers_fills_witness:
  "\<exists>st'. settle_legs edge_env edge_order (replicate 101 (2, 999999)) empty_prism = Inr st'
    \<and> f_shares (fills st' (e_hash edge_env edge_order)) = total_shares (replicate 101 (2, 999999))
    \<and> f_collateral (fills st' (e_hash edge_env edge_order))
        = total_collateral (a_side edge_order) (replicate 101 (2, 999999))"
  by (rule client_cap_covers_fills)
    (simp_all add: edge_defs computeCollateralCap_def ceilDiv_def bigint_div_def js_simps
      sum_list_replicate)

text \<open>The bound of 101 fills is exact: the cap the client computes for the edge order does not cover
  102 executable fills of two units each, which use up its quantity and no more; the contract rejects
  the last one with \<open>InvalidFill\<close>.\<close>

theorem cap_slack_is_tight:
  "computeCollateralCap (side_code NO) (action_code BUY) (a_qtyShares edge_order)
      (a_limitYesPrice edge_order) = Inr (a_collateralCap edge_order)
    \<and> list_all (good_fill edge_order) (replicate 102 (2, 999999))
    \<and> total_shares (replicate 102 (2, 999999)) = a_qtyShares edge_order
    \<and> (case settle_legs edge_env edge_order (replicate 102 (2, 999999)) empty_prism of
         Inl e \<Rightarrow> e = InvalidFill | Inr _ \<Rightarrow> False)"
proof (intro conjI)
  show "computeCollateralCap (side_code NO) (action_code BUY) (a_qtyShares edge_order)
      (a_limitYesPrice edge_order) = Inr (a_collateralCap edge_order)"
    by (simp add: edge_defs computeCollateralCap_def ceilDiv_def bigint_div_def js_simps)
  show "list_all (good_fill edge_order) (replicate 102 (2, 999999))"
    by (simp add: edge_defs js_simps list_all_iff)
  show "total_shares (replicate 102 (2, 999999)) = a_qtyShares edge_order"
    by (simp add: edge_defs sum_list_replicate)
  show "case settle_legs edge_env edge_order (replicate 102 (2, 999999)) empty_prism of
      Inl e \<Rightarrow> e = InvalidFill | Inr _ \<Rightarrow> False"
    by code_simp
qed



end
