(* ===== verification/Prism.thy ===== *)
theory Prism
  imports Settlement
begin

text \<open>
  The settlement contract \<open>src/scs/contracts/PrismV2.sol\<close> as a transition system: its storage as a
  record on top of the one in \<open>Settlement\<close>, every external function as a function from the caller and
  the storage to an error or the new storage, checked \<open>uint256\<close> arithmetic, and its runs as an
  inductive set. The collateral token and the network's services are parameters: the token's own
  state is the field \<open>ledger\<close>, which only the functions of \<open>erc20\<close> read and change, and which other
  accounts may change between two calls. Call-backs from the token into the contract are not part of
  the model: the reentrancy guard is checked, set and reset, but nothing runs while it is set.
\<close>

section \<open>Storage\<close>

datatype MarketState = UNINITIALIZED | OPEN | HALTED | CLOSED | RESOLVED_YES | RESOLVED_NO | VOID

record Market =
  mk_state :: MarketState
  mk_closeTime :: int
  mk_rakeBps :: int
  mk_reserve :: int
  mk_totalYes :: int
  mk_totalNo :: int

record 'l prism = prism_state +
  collateralToken :: int
  p_owner :: int
  pendingOwner :: int
  p_operator :: int
  p_oracle :: int
  p_dao :: int
  defaultRakeBps :: int
  aggregateReserved :: int
  markets :: "int \<Rightarrow> Market"
  statements :: "int \<Rightarrow> string"
  yesBalance :: "int \<Rightarrow> int \<Rightarrow> int"
  noBalance :: "int \<Rightarrow> int \<Rightarrow> int"
  executedMatches :: "int \<Rightarrow> bool"
  reentrancyStatus :: int
  ledger :: 'l

text \<open>\<open>t_transferFrom l spender from to amount\<close> and \<open>t_transfer l from to amount\<close>; \<open>None\<close> is a revert
  of the token, which \<open>SafeERC20\<close> passes on.\<close>

record 'l erc20 =
  t_balanceOf :: "'l \<Rightarrow> int \<Rightarrow> int"
  t_transferFrom :: "'l \<Rightarrow> int \<Rightarrow> int \<Rightarrow> int \<Rightarrow> int \<Rightarrow> 'l option"
  t_transfer :: "'l \<Rightarrow> int \<Rightarrow> int \<Rightarrow> int \<Rightarrow> 'l option"

section \<open>Results and checked arithmetic\<close>

definition attempt :: "sol_error + 'a \<Rightarrow> ('a \<Rightarrow> sol_error + 'b) \<Rightarrow> sol_error + 'b" where
  "attempt r f = (case r of Inl e \<Rightarrow> Inl e | Inr v \<Rightarrow> f v)"

lemma attempt_simps [simp]:
  "attempt (Inl e) f = Inl e"
  "attempt (Inr v) f = f v"
  by (simp_all add: attempt_def)

lemma attempt_Inr_iff: "attempt r f = Inr w \<longleftrightarrow> (\<exists>v. r = Inr v \<and> f v = Inr w)"
  by (cases r) simp_all

definition require :: "bool \<Rightarrow> sol_error \<Rightarrow> sol_error + unit" where
  "require b e = (if b then Inr () else Inl e)"

lemma require_Inr_iff [simp]: "require b e = Inr u \<longleftrightarrow> b"
  by (simp add: require_def)

definition plus256 :: "int \<Rightarrow> int \<Rightarrow> sol_error + int" where
  "plus256 x y = (if x + y < uint256_limit then Inr (x + y) else Inl Panic)"

definition minus256 :: "int \<Rightarrow> int \<Rightarrow> sol_error + int" where
  "minus256 x y = (if y \<le> x then Inr (x - y) else Inl Panic)"

lemma checked_Inr_iff [simp]:
  "plus256 x y = Inr z \<longleftrightarrow> z = x + y \<and> z < uint256_limit"
  "minus256 x y = Inr z \<longleftrightarrow> z = x - y \<and> 0 \<le> z"
  by (auto simp: plus256_def minus256_def)

section \<open>Collateral\<close>

definition pullCollateral ::
  "'l erc20 \<Rightarrow> sol_env \<Rightarrow> int \<Rightarrow> int \<Rightarrow> int \<Rightarrow> 'l prism \<Rightarrow> sol_error + 'l prism" where
  "pullCollateral tok env src dst amount st =
     (case t_transferFrom tok (ledger st) (this_address env) src dst amount of
        None \<Rightarrow> Inl TokenReverted
      | Some l \<Rightarrow>
          attempt (plus256 (t_balanceOf tok (ledger st) dst) amount) (\<lambda>expected.
          if t_balanceOf tok l dst \<noteq> expected then Inl UnsupportedCollateralBehavior
          else Inr (st\<lparr>ledger := l\<rparr>)))"

definition pushCollateral ::
  "'l erc20 \<Rightarrow> sol_env \<Rightarrow> int \<Rightarrow> int \<Rightarrow> 'l prism \<Rightarrow> sol_error + 'l prism" where
  "pushCollateral tok env dst amount st =
     (case t_transfer tok (ledger st) (this_address env) dst amount of
        None \<Rightarrow> Inl TokenReverted
      | Some l \<Rightarrow>
          attempt (plus256 (t_balanceOf tok l (this_address env)) amount) (\<lambda>expected.
          if expected \<noteq> t_balanceOf tok (ledger st) (this_address env) then Inl UnsupportedCollateralBehavior
          else Inr (st\<lparr>ledger := l\<rparr>)))"

definition assertSolvent :: "'l erc20 \<Rightarrow> sol_env \<Rightarrow> 'l prism \<Rightarrow> sol_error + 'l prism" where
  "assertSolvent tok env st =
     (if t_balanceOf tok (ledger st) (this_address env) < aggregateReserved st then Inl Insolvent else Inr st)"

section \<open>Positions\<close>

definition position :: "sol_side \<Rightarrow> 'l prism \<Rightarrow> int \<Rightarrow> int \<Rightarrow> int" where
  "position s st = (case s of YES \<Rightarrow> yesBalance st | NO \<Rightarrow> noBalance st)"

definition set_position :: "sol_side \<Rightarrow> int \<Rightarrow> int \<Rightarrow> int \<Rightarrow> 'l prism \<Rightarrow> 'l prism" where
  "set_position s m x v st =
     (case s of
        YES \<Rightarrow> st\<lparr>yesBalance := (yesBalance st)(m := (yesBalance st m)(x := v))\<rparr>
      | NO \<Rightarrow> st\<lparr>noBalance := (noBalance st)(m := (noBalance st m)(x := v))\<rparr>)"

text \<open>\<open>balance += n\<close> and \<open>balance -= n\<close> of one account.\<close>

definition credit :: "sol_side \<Rightarrow> int \<Rightarrow> int \<Rightarrow> int \<Rightarrow> 'l prism \<Rightarrow> sol_error + 'l prism" where
  "credit s m x n st = attempt (plus256 (position s st m x) n) (\<lambda>v. Inr (set_position s m x v st))"

definition debit :: "sol_side \<Rightarrow> int \<Rightarrow> int \<Rightarrow> int \<Rightarrow> 'l prism \<Rightarrow> sol_error + 'l prism" where
  "debit s m x n st = attempt (minus256 (position s st m x) n) (\<lambda>v. Inr (set_position s m x v st))"

definition set_market :: "int \<Rightarrow> Market \<Rightarrow> 'l prism \<Rightarrow> 'l prism" where
  "set_market m mk st = st\<lparr>markets := (markets st)(m := mk)\<rparr>"

text \<open>The four counters of minting and of merging: \<open>totalYes\<close>, \<open>totalNo\<close>, \<open>reserve\<close> and
  \<open>aggregateReserved\<close>.\<close>

definition grow_sets :: "int \<Rightarrow> int \<Rightarrow> 'l prism \<Rightarrow> sol_error + 'l prism" where
  "grow_sets m n st =
     (let mk = markets st m in
      attempt (plus256 (mk_totalYes mk) n) (\<lambda>y.
      attempt (plus256 (mk_totalNo mk) n) (\<lambda>no.
      attempt (plus256 (mk_reserve mk) n) (\<lambda>r.
      attempt (plus256 (aggregateReserved st) n) (\<lambda>g.
      Inr (set_market m (mk\<lparr>mk_totalYes := y, mk_totalNo := no, mk_reserve := r\<rparr>) st\<lparr>aggregateReserved := g\<rparr>))))))"

definition shrink_sets :: "int \<Rightarrow> int \<Rightarrow> 'l prism \<Rightarrow> sol_error + 'l prism" where
  "shrink_sets m n st =
     (let mk = markets st m in
      attempt (minus256 (mk_totalYes mk) n) (\<lambda>y.
      attempt (minus256 (mk_totalNo mk) n) (\<lambda>no.
      attempt (minus256 (mk_reserve mk) n) (\<lambda>r.
      attempt (minus256 (aggregateReserved st) n) (\<lambda>g.
      Inr (set_market m (mk\<lparr>mk_totalYes := y, mk_totalNo := no, mk_reserve := r\<rparr>) st\<lparr>aggregateReserved := g\<rparr>))))))"

section \<open>Settlement of a match\<close>

definition mintCompleteSet ::
  "'l erc20 \<Rightarrow> sol_env \<Rightarrow> Authorization \<Rightarrow> Authorization \<Rightarrow> int \<Rightarrow> int \<Rightarrow> int \<Rightarrow> 'l prism
    \<Rightarrow> sol_error + 'l prism" where
  "mintCompleteSet tok env a b shares yesCollateral noCollateral st =
     (let yesOrder = (if a_side a = YES then a else b);
          noOrder = (if a_side a = NO then a else b);
          m = a_marketId a in
      attempt (credit YES m (a_signer yesOrder) shares st) (\<lambda>st1.
      attempt (credit NO m (a_signer noOrder) shares st1) (\<lambda>st2.
      attempt (grow_sets m shares st2) (\<lambda>st3.
      attempt (pullCollateral tok env (a_signer yesOrder) (this_address env) yesCollateral st3) (\<lambda>st4.
      pullCollateral tok env (a_signer noOrder) (this_address env) noCollateral st4)))))"

definition mergeCompleteSet ::
  "'l erc20 \<Rightarrow> sol_env \<Rightarrow> Authorization \<Rightarrow> Authorization \<Rightarrow> int \<Rightarrow> int \<Rightarrow> int \<Rightarrow> 'l prism
    \<Rightarrow> sol_error + 'l prism" where
  "mergeCompleteSet tok env a b shares yesCollateral noCollateral st =
     (let yesOrder = (if a_side a = YES then a else b);
          noOrder = (if a_side a = NO then a else b);
          m = a_marketId a in
      if yesBalance st m (a_signer yesOrder) < shares \<or> noBalance st m (a_signer noOrder) < shares
         \<or> mk_reserve (markets st m) < shares then Inl InsufficientPosition
      else
      attempt (debit YES m (a_signer yesOrder) shares st) (\<lambda>st1.
      attempt (debit NO m (a_signer noOrder) shares st1) (\<lambda>st2.
      attempt (shrink_sets m shares st2) (\<lambda>st3.
      attempt (pushCollateral tok env (a_signer yesOrder) yesCollateral st3) (\<lambda>st4.
      pushCollateral tok env (a_signer noOrder) noCollateral st4)))))"

definition transferPosition ::
  "'l erc20 \<Rightarrow> sol_env \<Rightarrow> Authorization \<Rightarrow> Authorization \<Rightarrow> int \<Rightarrow> int \<Rightarrow> 'l prism
    \<Rightarrow> sol_error + 'l prism" where
  "transferPosition tok env a b shares collateral st =
     (let buyer = (if a_action a = BUY then a else b);
          seller = (if a_action a = SELL then a else b);
          m = a_marketId a in
      if position (a_side a) st m (a_signer seller) < shares then Inl InsufficientPosition
      else
      attempt (debit (a_side a) m (a_signer seller) shares st) (\<lambda>st1.
      attempt (credit (a_side a) m (a_signer buyer) shares st1) (\<lambda>st2.
      pullCollateral tok env (a_signer buyer) (a_signer seller) collateral st2)))"

definition nonReentrant ::
  "('l prism \<Rightarrow> sol_error + 'l prism) \<Rightarrow> 'l prism \<Rightarrow> sol_error + 'l prism" where
  "nonReentrant body st =
     (if reentrancyStatus st \<noteq> 1 then Inl ReentrantCall
      else attempt (body (st\<lparr>reentrancyStatus := 2\<rparr>)) (\<lambda>st'. Inr (st'\<lparr>reentrancyStatus := 1\<rparr>)))"

definition apply_match ::
  "'l erc20 \<Rightarrow> sol_env \<Rightarrow> Authorization \<Rightarrow> Authorization \<Rightarrow> int \<Rightarrow> int \<Rightarrow> int \<Rightarrow> 'l prism
    \<Rightarrow> sol_error + 'l prism" where
  "apply_match tok env a b fillShares yesCollateral noCollateral st =
     (if a_action a = BUY \<and> a_action b = BUY \<and> a_side a \<noteq> a_side b then
        mintCompleteSet tok env a b fillShares yesCollateral noCollateral st
      else if a_action a = SELL \<and> a_action b = SELL \<and> a_side a \<noteq> a_side b then
        mergeCompleteSet tok env a b fillShares yesCollateral noCollateral st
      else if a_side a = a_side b \<and> a_action a \<noteq> a_action b then
        transferPosition tok env a b fillShares (if a_side a = YES then yesCollateral else noCollateral) st
      else Inl InvalidPairing)"

definition settle_body ::
  "'l erc20 \<Rightarrow> sol_env \<Rightarrow> Authorization \<Rightarrow> Authorization \<Rightarrow> int \<Rightarrow> int \<Rightarrow> int \<Rightarrow> 'l prism
    \<Rightarrow> sol_error + 'l prism" where
  "settle_body tok env a b fillShares executionYesPrice matchId st =
     (if matchId = 0 \<or> executedMatches st matchId then Inl MatchAlreadyExecuted
      else if a_marketId a \<noteq> a_marketId b \<or> a_signer a = a_signer b then Inl InvalidPairing
      else
       (let mk = markets st (a_marketId a) in
        if mk_state mk \<noteq> OPEN \<or> block_timestamp env \<ge> mk_closeTime mk then Inl InvalidMarketState
        else if fillShares = 0 \<or> executionYesPrice = 0 \<or> executionYesPrice \<ge> PRICE_SCALE then Inl InvalidPrice
        else
         attempt (validateAuthorization env st a executionYesPrice) (\<lambda>hashA.
         attempt (validateAuthorization env st b executionYesPrice) (\<lambda>hashB.
         (let yesCollateral = leg_collateral YES fillShares executionYesPrice;
              noCollateral = leg_collateral NO fillShares executionYesPrice in
          if yesCollateral = 0 \<or> noCollateral = 0 then Inl InvalidFill
          else
           attempt (consume a hashA fillShares (if a_side a = YES then yesCollateral else noCollateral) st) (\<lambda>st1.
           attempt (consume b hashB fillShares (if a_side b = YES then yesCollateral else noCollateral) st1) (\<lambda>st2.
           attempt (apply_match tok env a b fillShares yesCollateral noCollateral
                      (st2\<lparr>executedMatches := (executedMatches st2)(matchId := True)\<rparr>))
             (assertSolvent tok env))))))))"

definition settle ::
  "'l erc20 \<Rightarrow> sol_env \<Rightarrow> int \<Rightarrow> Authorization \<Rightarrow> Authorization \<Rightarrow> int \<Rightarrow> int \<Rightarrow> int \<Rightarrow> 'l prism
    \<Rightarrow> sol_error + 'l prism" where
  "settle tok env caller a b fillShares executionYesPrice matchId st =
     (if caller \<noteq> p_operator st then Inl Unauthorized
      else nonReentrant (settle_body tok env a b fillShares executionYesPrice matchId) st)"

section \<open>Redemption\<close>

text \<open>The state-dependent part of \<open>redeem\<close>: the shares are taken from the account and the totals, and
  the gross amount and the fee are computed.\<close>

definition redeem_shares ::
  "int \<Rightarrow> int \<Rightarrow> 'l prism \<Rightarrow> sol_error + (int \<times> int \<times> 'l prism)" where
  "redeem_shares caller m st =
     (let mk = markets st m in
      (case mk_state mk of
         RESOLVED_YES \<Rightarrow>
           (let shares = yesBalance st m caller in
            if shares = 0 then Inl InsufficientPosition
            else attempt (minus256 (mk_totalYes mk) shares) (\<lambda>y.
              Inr (shares, shares * mk_rakeBps mk div 10000,
                   set_market m (mk\<lparr>mk_totalYes := y\<rparr>) (set_position YES m caller 0 st))))
       | RESOLVED_NO \<Rightarrow>
           (let shares = noBalance st m caller in
            if shares = 0 then Inl InsufficientPosition
            else attempt (minus256 (mk_totalNo mk) shares) (\<lambda>n.
              Inr (shares, shares * mk_rakeBps mk div 10000,
                   set_market m (mk\<lparr>mk_totalNo := n\<rparr>) (set_position NO m caller 0 st))))
       | VOID \<Rightarrow>
           (let yesShares = yesBalance st m caller; noShares = noBalance st m caller in
            attempt (plus256 yesShares noShares) (\<lambda>both.
            if both = 0 then Inl InsufficientPosition
            else attempt (minus256 (mk_totalYes mk) yesShares) (\<lambda>y.
              attempt (minus256 (mk_totalNo mk) noShares) (\<lambda>n.
              attempt (plus256 y n) (\<lambda>remaining.
              Inr (if remaining = 0 then mk_reserve mk else both div 2, 0,
                   set_market m (mk\<lparr>mk_totalYes := y, mk_totalNo := n\<rparr>)
                     (set_position NO m caller 0 (set_position YES m caller 0 st))))))))
       | _ \<Rightarrow> Inl InvalidMarketState))"

definition redeem_body :: "'l erc20 \<Rightarrow> sol_env \<Rightarrow> int \<Rightarrow> int \<Rightarrow> 'l prism \<Rightarrow> sol_error + 'l prism" where
  "redeem_body tok env caller m st =
     attempt (redeem_shares caller m st) (\<lambda>(gross, fee, st1).
       (let mk = markets st1 m in
        if gross > mk_reserve mk then Inl Insolvent
        else
         attempt (minus256 (mk_reserve mk) gross) (\<lambda>r.
         attempt (minus256 (aggregateReserved st1) gross) (\<lambda>g.
         (let st2 = set_market m (mk\<lparr>mk_reserve := r\<rparr>) st1\<lparr>aggregateReserved := g\<rparr> in
          attempt (minus256 gross fee) (\<lambda>net.
          attempt (if fee \<noteq> 0 then pushCollateral tok env (p_dao st2) fee st2 else Inr st2) (\<lambda>st3.
          attempt (pushCollateral tok env caller net st3) (assertSolvent tok env))))))))"

definition redeem :: "'l erc20 \<Rightarrow> sol_env \<Rightarrow> int \<Rightarrow> int \<Rightarrow> 'l prism \<Rightarrow> sol_error + 'l prism" where
  "redeem tok env caller m = nonReentrant (redeem_body tok env caller m)"

section \<open>Markets, roles and cancellation\<close>

definition MAX_RAKE_BPS :: int where "MAX_RAKE_BPS = 1000"
definition HEDERA_SUCCESS :: int where "HEDERA_SUCCESS = 22"

definition isValidRole :: "sol_env \<Rightarrow> int \<Rightarrow> bool" where
  "isValidRole env account \<longleftrightarrow> account \<noteq> 0 \<and> account \<noteq> this_address env"

definition createMarket :: "sol_env \<Rightarrow> int \<Rightarrow> int \<Rightarrow> string \<Rightarrow> int \<Rightarrow> 'l prism \<Rightarrow> sol_error + 'l prism" where
  "createMarket env caller m statement closeTime st =
     (if caller \<noteq> p_owner st then Inl Unauthorized
      else if mk_state (markets st m) \<noteq> UNINITIALIZED then Inl InvalidMarketState
      else if statement = [] \<or> closeTime \<le> block_timestamp env then Inl InvalidAuthorization
      else Inr (set_market m \<lparr>mk_state = OPEN, mk_closeTime = closeTime, mk_rakeBps = defaultRakeBps st,
                              mk_reserve = 0, mk_totalYes = 0, mk_totalNo = 0\<rparr> st
                \<lparr>statements := (statements st)(m := statement)\<rparr>))"

definition set_state :: "int \<Rightarrow> MarketState \<Rightarrow> 'l prism \<Rightarrow> 'l prism" where
  "set_state m s st = set_market m ((markets st m)\<lparr>mk_state := s\<rparr>) st"

definition haltMarket :: "int \<Rightarrow> int \<Rightarrow> 'l prism \<Rightarrow> sol_error + 'l prism" where
  "haltMarket caller m st =
     (if caller \<noteq> p_owner st \<and> caller \<noteq> p_oracle st then Inl Unauthorized
      else if mk_state (markets st m) \<noteq> OPEN then Inl InvalidMarketState
      else Inr (set_state m HALTED st))"

definition resumeMarket :: "sol_env \<Rightarrow> int \<Rightarrow> int \<Rightarrow> 'l prism \<Rightarrow> sol_error + 'l prism" where
  "resumeMarket env caller m st =
     (if caller \<noteq> p_owner st then Inl Unauthorized
      else if mk_state (markets st m) \<noteq> HALTED \<or> block_timestamp env \<ge> mk_closeTime (markets st m)
      then Inl InvalidMarketState
      else Inr (set_state m OPEN st))"

definition closeMarket :: "sol_env \<Rightarrow> int \<Rightarrow> 'l prism \<Rightarrow> sol_error + 'l prism" where
  "closeMarket env m st =
     (if mk_state (markets st m) \<notin> {OPEN, HALTED} \<or> block_timestamp env < mk_closeTime (markets st m)
      then Inl InvalidMarketState
      else Inr (set_state m CLOSED st))"

definition resolveMarket :: "sol_env \<Rightarrow> int \<Rightarrow> int \<Rightarrow> bool \<Rightarrow> 'l prism \<Rightarrow> sol_error + 'l prism" where
  "resolveMarket env caller m yesWon st =
     (if caller \<noteq> p_oracle st then Inl Unauthorized
      else if mk_state (markets st m) \<notin> {OPEN, HALTED, CLOSED}
              \<or> block_timestamp env < mk_closeTime (markets st m)
      then Inl InvalidMarketState
      else Inr (set_state m (if yesWon then RESOLVED_YES else RESOLVED_NO) st))"

definition voidMarket :: "int \<Rightarrow> int \<Rightarrow> 'l prism \<Rightarrow> sol_error + 'l prism" where
  "voidMarket caller m st =
     (if caller \<noteq> p_oracle st then Inl Unauthorized
      else if mk_state (markets st m) \<notin> {OPEN, HALTED, CLOSED} then Inl InvalidMarketState
      else Inr (set_state m VOID st))"

definition cancelAuthorization :: "int \<Rightarrow> int \<Rightarrow> 'l prism \<Rightarrow> sol_error + 'l prism" where
  "cancelAuthorization caller t st = Inr (st\<lparr>canceled := (canceled st)((caller, t) := True)\<rparr>)"

definition transferOwnership :: "sol_env \<Rightarrow> int \<Rightarrow> int \<Rightarrow> 'l prism \<Rightarrow> sol_error + 'l prism" where
  "transferOwnership env caller new st =
     (if caller \<noteq> p_owner st then Inl Unauthorized
      else if \<not> isValidRole env new then Inl InvalidAddress
      else Inr (st\<lparr>pendingOwner := new\<rparr>))"

definition acceptOwnership :: "int \<Rightarrow> 'l prism \<Rightarrow> sol_error + 'l prism" where
  "acceptOwnership caller st =
     (if caller \<noteq> pendingOwner st then Inl Unauthorized
      else Inr (st\<lparr>p_owner := caller, pendingOwner := 0\<rparr>))"

datatype role = Operator | Oracle | Dao

text \<open>\<open>setOperator\<close>, \<open>setOracle\<close> and \<open>setDao\<close> differ in the field they write.\<close>

definition setRole :: "role \<Rightarrow> sol_env \<Rightarrow> int \<Rightarrow> int \<Rightarrow> 'l prism \<Rightarrow> sol_error + 'l prism" where
  "setRole r env caller new st =
     (if caller \<noteq> p_owner st then Inl Unauthorized
      else if \<not> isValidRole env new then Inl InvalidAddress
      else Inr (case r of Operator \<Rightarrow> st\<lparr>p_operator := new\<rparr>
                        | Oracle \<Rightarrow> st\<lparr>p_oracle := new\<rparr>
                        | Dao \<Rightarrow> st\<lparr>p_dao := new\<rparr>))"

definition setDefaultRake :: "int \<Rightarrow> int \<Rightarrow> 'l prism \<Rightarrow> sol_error + 'l prism" where
  "setDefaultRake caller rake st =
     (if caller \<noteq> p_owner st then Inl Unauthorized
      else if rake > MAX_RAKE_BPS then Inl InvalidAuthorization
      else Inr (st\<lparr>defaultRakeBps := rake\<rparr>))"

text \<open>The association changes nothing in the contract; \<open>code\<close> is the token service's answer.\<close>

definition associateCollateralToken :: "int \<Rightarrow> int \<Rightarrow> 'l prism \<Rightarrow> sol_error + 'l prism" where
  "associateCollateralToken caller code st =
     (if caller \<noteq> p_owner st then Inl Unauthorized
      else if code \<noteq> HEDERA_SUCCESS then Inl (TokenAssociationFailed code)
      else Inr st)"

text \<open>The storage of a fresh proxy is zero throughout; the proxy's constructor runs \<open>initialize\<close> on it
  in the same transaction, so the initializer modifier always lets it pass, and a second call fails.\<close>

definition fresh_storage :: "'l \<Rightarrow> 'l prism" where
  "fresh_storage l = \<lparr>fills = (\<lambda>_. \<lparr>f_shares = 0, f_collateral = 0\<rparr>), authorizationByNonce = (\<lambda>_. 0),
     canceled = (\<lambda>_. False), collateralToken = 0, p_owner = 0, pendingOwner = 0, p_operator = 0,
     p_oracle = 0, p_dao = 0, defaultRakeBps = 0, aggregateReserved = 0,
     markets = (\<lambda>_. \<lparr>mk_state = UNINITIALIZED, mk_closeTime = 0, mk_rakeBps = 0, mk_reserve = 0,
                     mk_totalYes = 0, mk_totalNo = 0\<rparr>),
     statements = (\<lambda>_. []), yesBalance = (\<lambda>_ _. 0), noBalance = (\<lambda>_ _. 0),
     executedMatches = (\<lambda>_. False), reentrancyStatus = 0, ledger = l\<rparr>"

definition initialize ::
  "sol_env \<Rightarrow> int \<Rightarrow> int \<Rightarrow> int \<Rightarrow> int \<Rightarrow> int \<Rightarrow> int \<Rightarrow> 'l prism \<Rightarrow> sol_error + 'l prism" where
  "initialize env token own oper orac dao rake st =
     (if token = 0 \<or> token = this_address env \<or> \<not> isValidRole env own \<or> \<not> isValidRole env oper
         \<or> \<not> isValidRole env orac \<or> \<not> isValidRole env dao then Inl InvalidAddress
      else if rake > MAX_RAKE_BPS then Inl InvalidAuthorization
      else Inr (st\<lparr>collateralToken := token, p_owner := own, p_operator := oper, p_oracle := orac,
                   p_dao := dao, defaultRakeBps := rake, reentrancyStatus := 1\<rparr>))"

section \<open>Calls and runs\<close>

datatype call =
  Settle Authorization Authorization int int int | Redeem int | CancelAuthorization int
| CreateMarket int string int | HaltMarket int | ResumeMarket int | CloseMarket int
| ResolveMarket int bool | VoidMarket int | TransferOwnership int | AcceptOwnership
| SetRole role int | SetDefaultRake int | AssociateCollateralToken int | Initialize

fun execute :: "'l erc20 \<Rightarrow> sol_env \<Rightarrow> int \<Rightarrow> call \<Rightarrow> 'l prism \<Rightarrow> sol_error + 'l prism" where
  "execute tok env caller (Settle a b n price i) st = settle tok env caller a b n price i st"
| "execute tok env caller (Redeem m) st = redeem tok env caller m st"
| "execute tok env caller (CancelAuthorization t) st = cancelAuthorization caller t st"
| "execute tok env caller (CreateMarket m s t) st = createMarket env caller m s t st"
| "execute tok env caller (HaltMarket m) st = haltMarket caller m st"
| "execute tok env caller (ResumeMarket m) st = resumeMarket env caller m st"
| "execute tok env caller (CloseMarket m) st = closeMarket env m st"
| "execute tok env caller (ResolveMarket m w) st = resolveMarket env caller m w st"
| "execute tok env caller (VoidMarket m) st = voidMarket caller m st"
| "execute tok env caller (TransferOwnership new) st = transferOwnership env caller new st"
| "execute tok env caller AcceptOwnership st = acceptOwnership caller st"
| "execute tok env caller (SetRole r new) st = setRole r env caller new st"
| "execute tok env caller (SetDefaultRake r) st = setDefaultRake caller r st"
| "execute tok env caller (AssociateCollateralToken c) st = associateCollateralToken caller c st"
| "execute tok env caller Initialize st = Inl InvalidInitialization"

text \<open>The unsigned arguments of a call.\<close>

definition call_ok :: "call \<Rightarrow> bool" where
  "call_ok c = (case c of Settle a b n price i \<Rightarrow> 0 \<le> n \<and> 0 \<le> price | SetDefaultRake r \<Rightarrow> 0 \<le> r | _ \<Rightarrow> True)"

text \<open>The runs of a contract at address \<open>this\<close>: its deployment, calls by anybody under any block and
  any answers of the account service, and changes of the token's state by others, who cannot take the
  contract's own tokens, for the contract never approves a spender.\<close>

inductive reachable :: "'l erc20 \<Rightarrow> int \<Rightarrow> 'l prism \<Rightarrow> bool" for tok this where
  deployed: "initialize env token own oper orac dao rake (fresh_storage l) = Inr st \<Longrightarrow>
     this_address env = this \<Longrightarrow> 0 \<le> rake \<Longrightarrow> 0 \<le> t_balanceOf tok l this \<Longrightarrow> reachable tok this st"
| called: "reachable tok this st \<Longrightarrow> execute tok env caller c st = Inr st' \<Longrightarrow> call_ok c \<Longrightarrow>
     this_address env = this \<Longrightarrow> caller \<noteq> this \<Longrightarrow> reachable tok this st'"
| others: "reachable tok this st \<Longrightarrow> t_balanceOf tok (ledger st) this \<le> t_balanceOf tok l this \<Longrightarrow>
     reachable tok this (st\<lparr>ledger := l\<rparr>)"

section \<open>The books balance\<close>

text \<open>A function with finitely many nonzero values and its sum.\<close>

definition sums_to :: "('a \<Rightarrow> int) \<Rightarrow> int \<Rightarrow> bool" where
  "sums_to f t \<longleftrightarrow> finite {x. f x \<noteq> 0} \<and> (\<forall>x. 0 \<le> f x) \<and> sum f {x. f x \<noteq> 0} = t"

lemma sums_to_zero [simp]: "sums_to (\<lambda>_. 0) t \<longleftrightarrow> t = 0"
  by (auto simp: sums_to_def)

lemma sums_to_upd:
  assumes "sums_to f t" "0 \<le> v"
  shows "sums_to (f(x := v)) (t - f x + v)"
proof -
  let ?A = "insert x {x. f x \<noteq> 0}" and ?g = "f(x := v)"
  have fin: "finite ?A" using assms(1) by (simp add: sums_to_def)
  have "{y. ?g y \<noteq> 0} \<subseteq> ?A" by auto
  then have "sum ?g {y. ?g y \<noteq> 0} = sum ?g ?A" using fin by (intro sum.mono_neutral_left) auto
  also have "\<dots> = ?g x + sum ?g (?A - {x})" using fin by (intro sum.remove) auto
  also have "sum ?g (?A - {x}) = sum f (?A - {x})" by (intro sum.cong) auto
  also have "sum f (?A - {x}) = sum f ?A - f x" by (subst sum_diff1) (use fin in auto)
  also have "sum f ?A = sum f {x. f x \<noteq> 0}" using fin by (intro sum.mono_neutral_right) auto
  also have "\<dots> = t" using assms(1) by (simp add: sums_to_def)
  finally have "sum ?g {y. ?g y \<noteq> 0} = t - f x + v" by simp
  moreover have "finite {y. ?g y \<noteq> 0}" using fin \<open>{y. ?g y \<noteq> 0} \<subseteq> ?A\<close> by (rule rev_finite_subset)
  ultimately show ?thesis using assms by (simp add: sums_to_def)
qed

lemma sums_to_le: "sums_to f t \<Longrightarrow> f x \<le> t"
  unfolding sums_to_def by (cases "f x = 0") (auto intro: member_le_sum sum_nonneg)

lemma sums_to_nonneg: "sums_to f t \<Longrightarrow> 0 \<le> f x" "sums_to f t \<Longrightarrow> 0 \<le> t"
  by (auto simp: sums_to_def intro: sum_nonneg)

text \<open>One market: the totals are the sums of the balances, and the reserve is what the shares can still
  claim: a unit per complete set before the decision, a unit per winning share after it, and half a
  unit per share of a void market, whose last claimant takes the rounding.\<close>

definition market_ok :: "Market \<Rightarrow> (int \<Rightarrow> int) \<Rightarrow> (int \<Rightarrow> int) \<Rightarrow> bool" where
  "market_ok mk y n \<longleftrightarrow>
     sums_to y (mk_totalYes mk) \<and> sums_to n (mk_totalNo mk) \<and> 0 \<le> mk_rakeBps mk
     \<and> mk_rakeBps mk \<le> MAX_RAKE_BPS \<and> 0 \<le> mk_reserve mk
     \<and> (case mk_state mk of
          UNINITIALIZED \<Rightarrow> mk_totalYes mk = 0 \<and> mk_totalNo mk = 0 \<and> mk_reserve mk = 0
        | RESOLVED_YES \<Rightarrow> mk_reserve mk = mk_totalYes mk
        | RESOLVED_NO \<Rightarrow> mk_reserve mk = mk_totalNo mk
        | VOID \<Rightarrow> mk_totalYes mk + mk_totalNo mk \<le> 2 * mk_reserve mk
                  \<and> (mk_totalYes mk + mk_totalNo mk = 0 \<longrightarrow> mk_reserve mk = 0)
        | _ \<Rightarrow> mk_totalYes mk = mk_reserve mk \<and> mk_totalNo mk = mk_reserve mk)"

definition books_ok :: "'l prism \<Rightarrow> bool" where
  "books_ok st \<longleftrightarrow>
     (\<forall>m. market_ok (markets st m) (yesBalance st m) (noBalance st m))
     \<and> sums_to (\<lambda>m. mk_reserve (markets st m)) (aggregateReserved st)
     \<and> 0 \<le> defaultRakeBps st \<and> defaultRakeBps st \<le> MAX_RAKE_BPS"

subsection \<open>What the operations change\<close>

text \<open>The books of a state: all that \<open>books_ok\<close> speaks about.\<close>

definition books :: "'l prism \<Rightarrow> (int \<Rightarrow> Market) \<times> (int \<Rightarrow> int \<Rightarrow> int) \<times> (int \<Rightarrow> int \<Rightarrow> int) \<times> int \<times> int" where
  "books st = (markets st, yesBalance st, noBalance st, aggregateReserved st, defaultRakeBps st)"

lemma books_ok_cong: "books st' = books st \<Longrightarrow> books_ok st' = books_ok st"
  by (simp add: books_ok_def books_def)

lemma pull_push_frame:
  "pullCollateral tok env x y n st = Inr st' \<Longrightarrow> \<exists>l. st' = st\<lparr>ledger := l\<rparr>"
  "pushCollateral tok env y n st = Inr st' \<Longrightarrow> \<exists>l. st' = st\<lparr>ledger := l\<rparr>"
  by (auto simp: pullCollateral_def pushCollateral_def attempt_Inr_iff split: option.splits if_splits)

lemma pull_push_books:
  assumes "pullCollateral tok env x y n st = Inr st' \<or> pushCollateral tok env y n st = Inr st'"
  shows "markets st' = markets st" "yesBalance st' = yesBalance st" "noBalance st' = noBalance st"
    "aggregateReserved st' = aggregateReserved st" "defaultRakeBps st' = defaultRakeBps st"
  using assms by (auto dest!: pull_push_frame)

lemma consume_books: "consume a h n c st = Inr st' \<Longrightarrow> books st' = books st"
  by (auto simp: consume_def Let_def books_def split: if_splits)

lemmas books_simps = attempt_Inr_iff credit_def debit_def grow_sets_def shrink_sets_def Let_def
  position_def set_position_def set_market_def

lemma mint_effect:
  assumes "mintCompleteSet tok env a b n yc nc st = Inr st'" and "m = a_marketId a"
  obtains x z where
    "markets st' = (markets st)(m := (markets st m)\<lparr>mk_totalYes := mk_totalYes (markets st m) + n,
        mk_totalNo := mk_totalNo (markets st m) + n, mk_reserve := mk_reserve (markets st m) + n\<rparr>)"
    "yesBalance st' = (yesBalance st)(m := (yesBalance st m)(x := yesBalance st m x + n))"
    "noBalance st' = (noBalance st)(m := (noBalance st m)(z := noBalance st m z + n))"
    "aggregateReserved st' = aggregateReserved st + n" "defaultRakeBps st' = defaultRakeBps st"
proof -
  from assms(1) obtain st1 st2 st3 st4 x z where
    "credit YES m x n st = Inr st1" "credit NO m z n st1 = Inr st2" "grow_sets m n st2 = Inr st3"
    "pullCollateral tok env x (this_address env) yc st3 = Inr st4"
    "pullCollateral tok env z (this_address env) nc st4 = Inr st'"
    by (auto simp: mintCompleteSet_def attempt_Inr_iff Let_def assms(2))
  then show thesis
    by (intro that [of x z]) (auto simp: books_simps dest!: pull_push_frame)
qed

lemma merge_effect:
  assumes "mergeCompleteSet tok env a b n yc nc st = Inr st'" and "m = a_marketId a"
  obtains x z where
    "markets st' = (markets st)(m := (markets st m)\<lparr>mk_totalYes := mk_totalYes (markets st m) - n,
        mk_totalNo := mk_totalNo (markets st m) - n, mk_reserve := mk_reserve (markets st m) - n\<rparr>)"
    "yesBalance st' = (yesBalance st)(m := (yesBalance st m)(x := yesBalance st m x - n))"
    "noBalance st' = (noBalance st)(m := (noBalance st m)(z := noBalance st m z - n))"
    "aggregateReserved st' = aggregateReserved st - n" "defaultRakeBps st' = defaultRakeBps st"
    "n \<le> yesBalance st m x" "n \<le> noBalance st m z" "n \<le> mk_reserve (markets st m)"
proof -
  from assms(1) obtain st1 st2 st3 st4 x z where
    "debit YES m x n st = Inr st1" "debit NO m z n st1 = Inr st2" "shrink_sets m n st2 = Inr st3"
    "pushCollateral tok env x yc st3 = Inr st4" "pushCollateral tok env z nc st4 = Inr st'"
    by (auto simp: mergeCompleteSet_def attempt_Inr_iff Let_def assms(2) split: if_splits)
  then show thesis
    by (intro that [of x z]) (auto simp: books_simps dest!: pull_push_frame)
qed

lemma transfer_effect:
  assumes "transferPosition tok env a b n c st = Inr st'" and "m = a_marketId a"
  obtains x z s f where
    "markets st' = markets st" "aggregateReserved st' = aggregateReserved st"
    "defaultRakeBps st' = defaultRakeBps st" "f = (position s st m)(x := position s st m x - n)"
    "n \<le> position s st m x"
    "yesBalance st' = (if s = YES then (yesBalance st)(m := f(z := f z + n)) else yesBalance st)"
    "noBalance st' = (if s = NO then (noBalance st)(m := f(z := f z + n)) else noBalance st)"
proof -
  from assms(1) obtain st1 st2 x z where
    "debit (a_side a) m x n st = Inr st1" "credit (a_side a) m z n st1 = Inr st2"
    "pullCollateral tok env z x c st2 = Inr st'"
    by (auto simp: transferPosition_def attempt_Inr_iff Let_def assms(2) split: if_splits)
  then show thesis
    by (intro that [where x = x and z = z and s = "a_side a"
          and f = "(position (a_side a) st m)(x := position (a_side a) st m x - n)"])
      (auto simp: books_simps dest!: pull_push_frame split: sol_side.splits)
qed

subsection \<open>Every call keeps the books\<close>

lemma books_ok_update:
  assumes "books_ok st" and "markets st' = (markets st)(m := mk)"
    and "yesBalance st' = (yesBalance st)(m := y)" and "noBalance st' = (noBalance st)(m := n)"
    and "aggregateReserved st' = aggregateReserved st - mk_reserve (markets st m) + mk_reserve mk"
    and "defaultRakeBps st' = defaultRakeBps st" and "market_ok mk y n"
  shows "books_ok st'"
proof -
  have "0 \<le> mk_reserve mk" using assms(7) by (simp add: market_ok_def)
  with assms(1) have "sums_to ((\<lambda>k. mk_reserve (markets st k))(m := mk_reserve mk))
      (aggregateReserved st - mk_reserve (markets st m) + mk_reserve mk)"
    by (intro sums_to_upd) (simp_all add: books_ok_def)
  moreover have "(\<lambda>k. mk_reserve (markets st' k)) = (\<lambda>k. mk_reserve (markets st k))(m := mk_reserve mk)"
    by (simp add: assms(2) fun_eq_iff)
  ultimately show ?thesis using assms by (simp add: books_ok_def)
qed

lemma books_ok_market: "books_ok st \<Longrightarrow> market_ok (markets st m) (yesBalance st m) (noBalance st m)"
  by (simp add: books_ok_def)

lemma mint_books:
  assumes "mintCompleteSet tok env a b n yc nc st = Inr st'" "books_ok st" "0 \<le> n"
    "mk_state (markets st (a_marketId a)) = OPEN"
  shows "books_ok st'"
proof -
  let ?m = "a_marketId a"
  obtain x z where e:
    "markets st' = (markets st)(?m := (markets st ?m)\<lparr>mk_totalYes := mk_totalYes (markets st ?m) + n,
        mk_totalNo := mk_totalNo (markets st ?m) + n, mk_reserve := mk_reserve (markets st ?m) + n\<rparr>)"
    "yesBalance st' = (yesBalance st)(?m := (yesBalance st ?m)(x := yesBalance st ?m x + n))"
    "noBalance st' = (noBalance st)(?m := (noBalance st ?m)(z := noBalance st ?m z + n))"
    "aggregateReserved st' = aggregateReserved st + n" "defaultRakeBps st' = defaultRakeBps st"
    using mint_effect [OF assms(1) refl] by blast
  note ok = books_ok_market [OF assms(2), of ?m]
  have "0 \<le> yesBalance st ?m x + n" "0 \<le> noBalance st ?m z + n"
    using ok assms(3) by (auto simp: market_ok_def dest: sums_to_nonneg(1) intro!: add_nonneg_nonneg)
  then have "sums_to ((yesBalance st ?m)(x := yesBalance st ?m x + n)) (mk_totalYes (markets st ?m) + n)"
    "sums_to ((noBalance st ?m)(z := noBalance st ?m z + n)) (mk_totalNo (markets st ?m) + n)"
    using ok sums_to_upd [of "yesBalance st ?m" _ "yesBalance st ?m x + n" x]
      sums_to_upd [of "noBalance st ?m" _ "noBalance st ?m z + n" z]
    by (auto simp: market_ok_def)
  with ok assms(3,4) show ?thesis
    by (intro books_ok_update [OF assms(2) e(1-3)]) (simp_all add: e market_ok_def)
qed

lemma merge_books:
  assumes "mergeCompleteSet tok env a b n yc nc st = Inr st'" "books_ok st" "0 \<le> n"
    "mk_state (markets st (a_marketId a)) = OPEN"
  shows "books_ok st'"
proof -
  let ?m = "a_marketId a"
  obtain x z where e:
    "markets st' = (markets st)(?m := (markets st ?m)\<lparr>mk_totalYes := mk_totalYes (markets st ?m) - n,
        mk_totalNo := mk_totalNo (markets st ?m) - n, mk_reserve := mk_reserve (markets st ?m) - n\<rparr>)"
    "yesBalance st' = (yesBalance st)(?m := (yesBalance st ?m)(x := yesBalance st ?m x - n))"
    "noBalance st' = (noBalance st)(?m := (noBalance st ?m)(z := noBalance st ?m z - n))"
    "aggregateReserved st' = aggregateReserved st - n" "defaultRakeBps st' = defaultRakeBps st"
    "n \<le> yesBalance st ?m x" "n \<le> noBalance st ?m z" "n \<le> mk_reserve (markets st ?m)"
    using merge_effect [OF assms(1) refl] by blast
  note ok = books_ok_market [OF assms(2), of ?m]
  have "sums_to ((yesBalance st ?m)(x := yesBalance st ?m x - n)) (mk_totalYes (markets st ?m) - n)"
    "sums_to ((noBalance st ?m)(z := noBalance st ?m z - n)) (mk_totalNo (markets st ?m) - n)"
    using ok e(6,7) sums_to_upd [of "yesBalance st ?m" _ "yesBalance st ?m x - n" x]
      sums_to_upd [of "noBalance st ?m" _ "noBalance st ?m z - n" z]
    by (auto simp: market_ok_def)
  with ok e(8) assms(4) show ?thesis
    by (intro books_ok_update [OF assms(2) e(1-3)]) (simp_all add: e market_ok_def)
qed

lemma sums_to_move:
  assumes "sums_to g t" "n \<le> g x" "0 \<le> n" and "f = g(x := g x - n)"
  shows "sums_to (f(z := f z + n)) t"
proof -
  have f: "sums_to f (t - n)" using sums_to_upd [of g t "g x - n" x] assms by simp
  from sums_to_upd [OF f, of "f z + n" z] sums_to_nonneg(1) [OF f, of z] assms(3)
  show ?thesis by simp
qed

lemma transfer_books:
  assumes "transferPosition tok env a b n c st = Inr st'" "books_ok st" "0 \<le> n"
  shows "books_ok st'"
proof -
  let ?m = "a_marketId a"
  obtain x z s f where e:
    "markets st' = markets st" "aggregateReserved st' = aggregateReserved st"
    "defaultRakeBps st' = defaultRakeBps st" "f = (position s st ?m)(x := position s st ?m x - n)"
    "n \<le> position s st ?m x"
    "yesBalance st' = (if s = YES then (yesBalance st)(?m := f(z := f z + n)) else yesBalance st)"
    "noBalance st' = (if s = NO then (noBalance st)(?m := f(z := f z + n)) else noBalance st)"
    using transfer_effect [OF assms(1) refl] .
  note ok = books_ok_market [OF assms(2), of ?m]
  have "sums_to (f(z := f z + n)) t" if "sums_to (position s st ?m) t" for t
    using sums_to_move [OF that e(5) assms(3) e(4)] .
  with ok have "market_ok (markets st ?m) (yesBalance st' ?m) (noBalance st' ?m)"
    by (cases s) (simp_all add: e(6,7) market_ok_def position_def)
  then show ?thesis
    by (intro books_ok_update [OF assms(2), where m = ?m and mk = "markets st ?m"])
      (auto simp: e)
qed

lemma settle_books:
  assumes "settle_body tok env a b n price i st = Inr st'" "books_ok st" "0 \<le> n"
  shows "books_ok st'" "aggregateReserved st' \<le> t_balanceOf tok (ledger st') (this_address env)"
    "mk_state (markets st (a_marketId a)) = OPEN"
proof -
  from assms(1) obtain h1 h2 st1 st2 st3 where
    "consume a h1 n (if a_side a = YES then leg_collateral YES n price else leg_collateral NO n price) st = Inr st1"
    "consume b h2 n (if a_side b = YES then leg_collateral YES n price else leg_collateral NO n price) st1 = Inr st2"
    and m: "apply_match tok env a b n (leg_collateral YES n price) (leg_collateral NO n price)
        (st2\<lparr>executedMatches := (executedMatches st2)(i := True)\<rparr>) = Inr st3"
    and s: "assertSolvent tok env st3 = Inr st'"
    and o: "mk_state (markets st (a_marketId a)) = OPEN"
    unfolding settle_body_def Let_def attempt_Inr_iff by (auto simp: attempt_Inr_iff split: if_splits)
  then have b: "books (st2\<lparr>executedMatches := (executedMatches st2)(i := True)\<rparr>) = books st"
    by (auto dest!: consume_books simp: books_def)
  then have "books_ok (st2\<lparr>executedMatches := (executedMatches st2)(i := True)\<rparr>)"
    using books_ok_cong assms(2) by blast
  moreover have "mk_state (markets st2 (a_marketId a)) = OPEN" using b o by (simp add: books_def)
  ultimately have "books_ok st3" using m assms(3) unfolding apply_match_def
    by (auto split: if_splits dest: mint_books merge_books transfer_books)
  with s show "books_ok st'" "aggregateReserved st' \<le> t_balanceOf tok (ledger st') (this_address env)"
    by (auto simp: assertSolvent_def split: if_splits)
  show "mk_state (markets st (a_marketId a)) = OPEN" by (rule o)
qed

text \<open>What redemption takes off the books: never more than the market's reserve.\<close>

definition pay_out :: "int \<Rightarrow> int \<Rightarrow> 'l prism \<Rightarrow> 'l prism" where
  "pay_out m gross st =
     (let mk = markets st m in
      set_market m (mk\<lparr>mk_reserve := mk_reserve mk - gross\<rparr>) st\<lparr>aggregateReserved := aggregateReserved st - gross\<rparr>)"

lemma fee_range:
  assumes "0 \<le> shares" "0 \<le> r" "r \<le> MAX_RAKE_BPS"
  shows "0 \<le> shares * r div 10000" "shares * r div 10000 \<le> shares"
proof -
  have "0 \<le> shares * r" using assms by simp
  moreover have "shares * r \<le> shares * 10000"
    using assms by (intro mult_left_mono) (simp_all add: MAX_RAKE_BPS_def)
  ultimately show "0 \<le> shares * r div 10000" "shares * r div 10000 \<le> shares" by linarith+
qed

lemma redeem_sharesE:
  assumes "redeem_shares caller m st = Inr (gross, fee, st1)"
  obtains (yes) "mk_state (markets st m) = RESOLVED_YES" "gross = yesBalance st m caller"
      "fee = gross * mk_rakeBps (markets st m) div 10000"
      "st1 = set_market m ((markets st m)\<lparr>mk_totalYes := mk_totalYes (markets st m) - gross\<rparr>)
               (set_position YES m caller 0 st)"
  | (no) "mk_state (markets st m) = RESOLVED_NO" "gross = noBalance st m caller"
      "fee = gross * mk_rakeBps (markets st m) div 10000"
      "st1 = set_market m ((markets st m)\<lparr>mk_totalNo := mk_totalNo (markets st m) - gross\<rparr>)
               (set_position NO m caller 0 st)"
  | (half) "mk_state (markets st m) = VOID" "fee = 0"
      "gross = (if mk_totalYes (markets st m) - yesBalance st m caller
                   + (mk_totalNo (markets st m) - noBalance st m caller) = 0
                then mk_reserve (markets st m)
                else (yesBalance st m caller + noBalance st m caller) div 2)"
      "st1 = set_market m ((markets st m)\<lparr>mk_totalYes := mk_totalYes (markets st m) - yesBalance st m caller,
                                          mk_totalNo := mk_totalNo (markets st m) - noBalance st m caller\<rparr>)
               (set_position NO m caller 0 (set_position YES m caller 0 st))"
proof (cases "mk_state (markets st m)")
  case RESOLVED_YES
  with assms yes show thesis by (auto simp: redeem_shares_def Let_def attempt_Inr_iff split: if_splits)
next
  case RESOLVED_NO
  with assms no show thesis by (auto simp: redeem_shares_def Let_def attempt_Inr_iff split: if_splits)
next
  case VOID
  with assms half show thesis by (auto simp: redeem_shares_def Let_def attempt_Inr_iff split: if_splits)
qed (use assms in \<open>simp_all add: redeem_shares_def\<close>)

lemma redeem_shares_frame:
  assumes "redeem_shares caller m st = Inr (gross, fee, st1)"
  shows "ledger st1 = ledger st" "p_dao st1 = p_dao st" "aggregateReserved st1 = aggregateReserved st"
    "mk_reserve (markets st1 m) = mk_reserve (markets st m)" "reentrancyStatus st1 = reentrancyStatus st"
    "mk_state (markets st m) \<in> {RESOLVED_YES, RESOLVED_NO, VOID}"
    "mk_state (markets st1 k) = mk_state (markets st k)"
    "k \<noteq> m \<Longrightarrow> markets st1 k = markets st k"
  by (rule redeem_sharesE [OF assms]; simp add: set_market_def set_position_def)+

lemma redeem_shares_books:
  assumes "redeem_shares caller m st = Inr (gross, fee, st1)" "books_ok st"
  shows "0 \<le> gross" "gross \<le> mk_reserve (markets st m)" "0 \<le> fee" "fee \<le> gross"
    "books_ok (pay_out m gross st1)"
proof -
  let ?mk = "markets st m" and ?y = "yesBalance st m" and ?n = "noBalance st m"
  note ok = books_ok_market [OF assms(2), of m]
  then have s: "sums_to ?y (mk_totalYes ?mk)" "sums_to ?n (mk_totalNo ?mk)"
    and r: "0 \<le> mk_rakeBps ?mk" "mk_rakeBps ?mk \<le> MAX_RAKE_BPS" by (auto simp: market_ok_def)
  note nn = sums_to_nonneg(1) [OF s(1), of caller] sums_to_nonneg(1) [OF s(2), of caller]
    sums_to_le [OF s(1), of caller] sums_to_le [OF s(2), of caller]
  note fees = fee_range [OF nn(1) r] fee_range [OF nn(2) r]
  have z: "sums_to (?y(caller := 0)) (mk_totalYes ?mk - ?y caller)"
    "sums_to (?n(caller := 0)) (mk_totalNo ?mk - ?n caller)"
    using sums_to_upd [OF s(1), of 0 caller] sums_to_upd [OF s(2), of 0 caller] by simp_all
  show g: "0 \<le> gross" "gross \<le> mk_reserve ?mk" "0 \<le> fee" "fee \<le> gross"
    by (rule redeem_sharesE [OF assms(1)]; use ok nn fees in \<open>force simp: market_ok_def\<close>)+
  show "books_ok (pay_out m gross st1)"
    by (rule redeem_sharesE [OF assms(1)];
        rule books_ok_update [OF assms(2), where m = m and mk = "markets (pay_out m gross st1) m"
          and y = "yesBalance st1 m" and n = "noBalance st1 m"];
        use ok z g(1,2) nn(1,2) in \<open>force simp: pay_out_def set_market_def set_position_def market_ok_def Let_def\<close>)
qed

lemma redeem_books:
  assumes "redeem_body tok env caller m st = Inr st'" "books_ok st"
  shows "books_ok st'" "aggregateReserved st' \<le> t_balanceOf tok (ledger st') (this_address env)"
proof -
  from assms(1) obtain gross fee st1 st3 st4 where
    r: "redeem_shares caller m st = Inr (gross, fee, st1)"
    and f: "(if fee \<noteq> 0 then pushCollateral tok env (p_dao (pay_out m gross st1)) fee (pay_out m gross st1)
             else Inr (pay_out m gross st1)) = Inr st3"
    and p: "pushCollateral tok env caller (gross - fee) st3 = Inr st4"
    and s: "assertSolvent tok env st4 = Inr st'"
    unfolding redeem_body_def pay_out_def Let_def
    by (fastforce simp: attempt_Inr_iff split: if_splits)
  have "books_ok (pay_out m gross st1)" by (rule redeem_shares_books(5) [OF r assms(2)])
  with f p have "books_ok st4"
    by (auto simp: books_ok_def split: if_splits dest!: pull_push_frame)
  with s show "books_ok st'" "aggregateReserved st' \<le> t_balanceOf tok (ledger st') (this_address env)"
    by (auto simp: assertSolvent_def split: if_splits)
qed

lemma set_state_books:
  assumes "books_ok st" "mk_state (markets st m) \<in> {OPEN, HALTED, CLOSED}" "s \<noteq> UNINITIALIZED"
  shows "books_ok (set_state m s st)"
  using assms(2,3) books_ok_market [OF assms(1), of m]
  by (intro books_ok_update [OF assms(1), where m = m and mk = "(markets st m)\<lparr>mk_state := s\<rparr>"
        and y = "yesBalance st m" and n = "noBalance st m"])
    (auto simp: set_state_def set_market_def market_ok_def split: MarketState.split)

lemma createMarket_books:
  assumes "createMarket env caller m s t st = Inr st'" "books_ok st"
  shows "books_ok st'"
proof -
  from assms(1) have u: "mk_state (markets st m) = UNINITIALIZED"
    by (simp add: createMarket_def split: if_splits)
  with books_ok_market [OF assms(2), of m]
  have "sums_to (yesBalance st m) 0" "sums_to (noBalance st m) 0" "mk_reserve (markets st m) = 0"
    by (auto simp: market_ok_def)
  moreover have "0 \<le> defaultRakeBps st" "defaultRakeBps st \<le> MAX_RAKE_BPS"
    using assms(2) by (auto simp: books_ok_def)
  ultimately show ?thesis using assms(1)
    by (intro books_ok_update [OF assms(2), where m = m and mk = "markets st' m"
          and y = "yesBalance st m" and n = "noBalance st m"])
      (auto simp: createMarket_def set_market_def market_ok_def split: if_splits)
qed

lemma nonReentrant_Inr:
  assumes "nonReentrant body st = Inr st'"
  obtains st1 where "body (st\<lparr>reentrancyStatus := 2\<rparr>) = Inr st1" "st' = st1\<lparr>reentrancyStatus := 1\<rparr>"
  using assms by (auto simp: nonReentrant_def attempt_Inr_iff split: if_splits)

lemma books_ok_frame [simp]:
  "books_ok (st\<lparr>reentrancyStatus := r\<rparr>) = books_ok st"
  "books_ok (st\<lparr>canceled := cn\<rparr>) = books_ok st"
  "books_ok (st\<lparr>p_owner := r\<rparr>) = books_ok st"
  "books_ok (st\<lparr>pendingOwner := r\<rparr>) = books_ok st"
  "books_ok (st\<lparr>p_operator := r\<rparr>) = books_ok st"
  "books_ok (st\<lparr>p_oracle := r\<rparr>) = books_ok st"
  "books_ok (st\<lparr>p_dao := r\<rparr>) = books_ok st"
  "books_ok (st\<lparr>ledger := l\<rparr>) = books_ok st"
  by (simp_all add: books_ok_def)

lemma setDefaultRake_books:
  "setDefaultRake caller r st = Inr st' \<Longrightarrow> 0 \<le> r \<Longrightarrow> books_ok st \<Longrightarrow> books_ok st'"
  by (auto simp: setDefaultRake_def books_ok_def split: if_splits)

text \<open>The calls that move no money.\<close>

lemmas admin_defs = cancelAuthorization_def haltMarket_def resumeMarket_def closeMarket_def
  resolveMarket_def voidMarket_def transferOwnership_def acceptOwnership_def setRole_def
  setDefaultRake_def associateCollateralToken_def

definition moves_money :: "call \<Rightarrow> bool" where
  "moves_money c = (case c of Settle a b n price i \<Rightarrow> True | Redeem m \<Rightarrow> True | _ \<Rightarrow> False)"

lemma admin_frame:
  assumes "execute tok env caller c st = Inr st'" "\<not> moves_money c"
  shows "ledger st' = ledger st" "aggregateReserved st' = aggregateReserved st"
    "reentrancyStatus st' = reentrancyStatus st"
  using assms
  by (cases c; auto simp: admin_defs moves_money_def set_state_def set_market_def createMarket_def
      split: if_splits role.splits)+

lemma execute_books:
  assumes "execute tok env caller c st = Inr st'" "books_ok st" "call_ok c"
  shows "books_ok st'"
proof (cases "moves_money c")
  case True
  then consider (s) a b n price i where "c = Settle a b n price i" | (r) m where "c = Redeem m"
    by (auto simp: moves_money_def split: call.splits)
  then show ?thesis
  proof cases
    case s
    with assms show ?thesis
      by (auto simp: settle_def call_ok_def split: if_splits elim!: nonReentrant_Inr dest: settle_books(1))
  next
    case r
    with assms show ?thesis by (auto simp: redeem_def elim!: nonReentrant_Inr dest: redeem_books(1))
  qed
next
  case False
  with assms show ?thesis
  proof (cases c)
    case (SetDefaultRake r)
    with assms show ?thesis by (auto simp: call_ok_def intro: setDefaultRake_books)
  qed (auto simp: admin_defs moves_money_def
      intro: createMarket_books set_state_books split: if_splits role.splits)
qed

lemma money_solvent:
  assumes "execute tok env caller c st = Inr st'" "books_ok st" "call_ok c" "moves_money c"
  shows "aggregateReserved st' \<le> t_balanceOf tok (ledger st') (this_address env)"
    "reentrancyStatus st' = 1"
  using assms
  by (cases c; auto simp: settle_def redeem_def call_ok_def moves_money_def split: if_splits
      elim!: nonReentrant_Inr dest: settle_books(2) redeem_books(2))+

section \<open>Reachable states\<close>

definition solvent :: "'l erc20 \<Rightarrow> int \<Rightarrow> 'l prism \<Rightarrow> bool" where
  "solvent tok this st \<longleftrightarrow> aggregateReserved st \<le> t_balanceOf tok (ledger st) this"

text \<open>The DAO's address changes by \<open>setDao\<close> only, and never becomes the contract itself.\<close>

lemma dao_frame:
  "credit s m x n st = Inr st' \<Longrightarrow> p_dao st' = p_dao st"
  "debit s m x n st = Inr st' \<Longrightarrow> p_dao st' = p_dao st"
  "grow_sets m n st = Inr st' \<Longrightarrow> p_dao st' = p_dao st"
  "shrink_sets m n st = Inr st' \<Longrightarrow> p_dao st' = p_dao st"
  "consume a h n k st = Inr st' \<Longrightarrow> p_dao st' = p_dao st"
  "pullCollateral tok env x y n st = Inr st' \<Longrightarrow> p_dao st' = p_dao st"
  "pushCollateral tok env y n st = Inr st' \<Longrightarrow> p_dao st' = p_dao st"
  "assertSolvent tok env st = Inr st' \<Longrightarrow> p_dao st' = p_dao st"
  by (auto simp: books_simps consume_def assertSolvent_def dest!: pull_push_frame
      split: if_splits sol_side.splits)

lemma match_dao:
  "mintCompleteSet tok env a b n yc nc st = Inr st' \<Longrightarrow> p_dao st' = p_dao st"
  "mergeCompleteSet tok env a b n yc nc st = Inr st' \<Longrightarrow> p_dao st' = p_dao st"
  "transferPosition tok env a b n c st = Inr st' \<Longrightarrow> p_dao st' = p_dao st"
  unfolding mintCompleteSet_def mergeCompleteSet_def transferPosition_def Let_def
  by (auto simp: attempt_Inr_iff dest!: dao_frame split: if_splits)

lemma settle_dao: "settle_body tok env a b n price i st = Inr st' \<Longrightarrow> p_dao st' = p_dao st"
  unfolding settle_body_def apply_match_def Let_def
  by (auto simp: attempt_Inr_iff dest!: dao_frame match_dao split: if_splits)

lemma redeem_dao:
  assumes "redeem_body tok env caller m st = Inr st'"
  shows "p_dao st' = p_dao st"
proof -
  from assms obtain gross fee st1 where
    "redeem_shares caller m st = Inr (gross, fee, st1)" "p_dao st' = p_dao st1"
    by (auto simp: redeem_body_def Let_def attempt_Inr_iff set_market_def dest!: dao_frame split: if_splits)
  then show ?thesis by (simp add: redeem_shares_frame(2))
qed

lemma execute_dao:
  assumes "execute tok env caller c st = Inr st'" "p_dao st \<noteq> this_address env"
  shows "p_dao st' \<noteq> this_address env"
  using assms
  by (cases c) (auto simp: settle_def redeem_def admin_defs createMarket_def set_state_def
      set_market_def isValidRole_def split: if_splits role.splits elim!: nonReentrant_Inr
      dest!: settle_dao redeem_dao)

lemma reachable_invariant:
  assumes "reachable tok this st"
  shows "books_ok st \<and> solvent tok this st \<and> reentrancyStatus st = 1 \<and> p_dao st \<noteq> this"
  using assms
proof (induction rule: reachable.induct)
  case (deployed env token own oper orac dao rake l st)
  then show ?case
    by (auto simp: initialize_def fresh_storage_def books_ok_def market_ok_def solvent_def
        isValidRole_def MAX_RAKE_BPS_def split: if_splits)
next
  case (called st env caller c st')
  show ?case
  proof (cases "moves_money c")
    case True
    with called show ?thesis
      by (auto simp: solvent_def dest: execute_books execute_dao money_solvent)
  next
    case False
    with called admin_frame [OF called.hyps(2)] show ?thesis
      by (auto simp: solvent_def dest: execute_books execute_dao)
  qed
next
  case (others st l)
  then show ?case by (simp add: solvent_def)
qed

section \<open>Redemption succeeds\<close>

text \<open>A token that executes the contract's transfers, in all of its states that satisfy \<open>I\<close>, and keeps
  balances below \<open>2 ^ 255\<close>, as every Hedera token does.\<close>

definition honest :: "'l erc20 \<Rightarrow> ('l \<Rightarrow> bool) \<Rightarrow> int \<Rightarrow> bool" where
  "honest tok I this \<longleftrightarrow>
     (\<forall>l. I l \<longrightarrow> t_balanceOf tok l this < 2 ^ 255
        \<and> (\<forall>dst n. 0 \<le> n \<and> n \<le> t_balanceOf tok l this \<and> dst \<noteq> this \<longrightarrow>
             (\<exists>l'. t_transfer tok l this dst n = Some l' \<and> I l'
                \<and> t_balanceOf tok l' this = t_balanceOf tok l this - n)))"

text \<open>The shares an account can redeem, and the gross amount it gets for them.\<close>

definition claim :: "'l prism \<Rightarrow> int \<Rightarrow> int \<Rightarrow> int" where
  "claim st m x =
     (case mk_state (markets st m) of
        RESOLVED_YES \<Rightarrow> yesBalance st m x
      | RESOLVED_NO \<Rightarrow> noBalance st m x
      | VOID \<Rightarrow> yesBalance st m x + noBalance st m x
      | _ \<Rightarrow> 0)"

definition payout :: "'l prism \<Rightarrow> int \<Rightarrow> int \<Rightarrow> int" where
  "payout st m x =
     (if mk_state (markets st m) = VOID then
        (if mk_totalYes (markets st m) + mk_totalNo (markets st m) = claim st m x
         then mk_reserve (markets st m) else claim st m x div 2)
      else claim st m x)"

lemma push_succeeds:
  assumes "honest tok I (this_address env)" "0 \<le> n" "n \<le> t_balanceOf tok (ledger st) (this_address env)"
    "dst \<noteq> this_address env" "I (ledger st)"
  obtains l where "pushCollateral tok env dst n st = Inr (st\<lparr>ledger := l\<rparr>)" "I l"
    "t_balanceOf tok l (this_address env) = t_balanceOf tok (ledger st) (this_address env) - n"
proof -
  from assms obtain l where
    "t_transfer tok (ledger st) (this_address env) dst n = Some l" "I l"
    "t_balanceOf tok l (this_address env) = t_balanceOf tok (ledger st) (this_address env) - n"
    unfolding honest_def by blast
  moreover have "t_balanceOf tok (ledger st) (this_address env) < 2 ^ 255"
    using assms(1,5) unfolding honest_def by blast
  ultimately show thesis
    by (intro that) (simp_all add: pushCollateral_def plus256_def uint256_limit_def)
qed

lemma redeem_shares_succeeds:
  assumes "books_ok st" "claim st m x \<noteq> 0" "mk_reserve (markets st m) < 2 ^ 255"
  obtains fee st1 where "redeem_shares x m st = Inr (payout st m x, fee, st1)" "claim st1 m x = 0"
proof -
  note ok = books_ok_market [OF assms(1), of m]
  then have s: "sums_to (yesBalance st m) (mk_totalYes (markets st m))"
    "sums_to (noBalance st m) (mk_totalNo (markets st m))" by (auto simp: market_ok_def)
  note nn = sums_to_nonneg(1) [OF s(1), of x] sums_to_nonneg(1) [OF s(2), of x]
    sums_to_le [OF s(1), of x] sums_to_le [OF s(2), of x]
  show thesis
  proof (cases "mk_state (markets st m)")
    case VOID
    with ok have "mk_totalYes (markets st m) + mk_totalNo (markets st m) \<le> 2 * mk_reserve (markets st m)"
      by (simp add: market_ok_def)
    then have lim: "mk_totalYes (markets st m) + mk_totalNo (markets st m) < 2 ^ 256"
      using assms(3) by (simp only: power_Suc [of 2 255, simplified])
    with VOID nn assms(2) show thesis
      by (intro that [of 0 "set_market m ((markets st m)\<lparr>mk_totalYes := mk_totalYes (markets st m) - yesBalance st m x,
            mk_totalNo := mk_totalNo (markets st m) - noBalance st m x\<rparr>)
            (set_position NO m x 0 (set_position YES m x 0 st))"])
        (auto simp: redeem_shares_def claim_def payout_def plus256_def minus256_def uint256_limit_def
          set_market_def set_position_def Let_def)
  qed (use assms(2) nn in \<open>auto simp: claim_def redeem_shares_def payout_def minus256_def Let_def
      set_market_def set_position_def intro!: that\<close>)
qed

lemma redeem_body_pays:
  assumes "redeem_shares x m st = Inr (g, fee, st1)" "g \<le> mk_reserve (markets st1 m)"
    "g \<le> aggregateReserved st1" "fee \<le> g"
  shows "redeem_body tok env x m st =
    attempt (if fee \<noteq> 0 then pushCollateral tok env (p_dao (pay_out m g st1)) fee (pay_out m g st1)
             else Inr (pay_out m g st1))
      (\<lambda>st3. attempt (pushCollateral tok env x (g - fee) st3) (assertSolvent tok env))"
  using assms by (simp add: redeem_body_def Let_def minus256_def pay_out_def)

lemma redeem_pays:
  assumes "books_ok st" "solvent tok (this_address env) st" "reentrancyStatus st = 1"
    "p_dao st \<noteq> this_address env" "honest tok I (this_address env)" "I (ledger st)" "x \<noteq> this_address env"
    "claim st m x \<noteq> 0"
  shows "\<exists>st'. redeem tok env x m st = Inr st' \<and> claim st' m x = 0
    \<and> mk_reserve (markets st' m) = mk_reserve (markets st m) - payout st m x
    \<and> t_balanceOf tok (ledger st') (this_address env)
        = t_balanceOf tok (ledger st) (this_address env) - payout st m x"
proof -
  let ?me = "this_address env" and ?st = "st\<lparr>reentrancyStatus := 2\<rparr>" and ?g = "payout st m x"
  have agg: "mk_reserve (markets st m) \<le> aggregateReserved st"
    using assms(1) sums_to_le [of "\<lambda>m. mk_reserve (markets st m)"] by (auto simp: books_ok_def)
  have bal: "t_balanceOf tok (ledger st) ?me < 2 ^ 255" using assms(5,6) unfolding honest_def by blast
  have st2: "books_ok ?st" "claim ?st m x = claim st m x" "payout ?st m x = ?g"
    using assms(1) by (simp_all add: claim_def payout_def split: MarketState.split)
  have lim: "mk_reserve (markets ?st m) < 2 ^ 255" using agg bal assms(2) by (simp add: solvent_def)
  obtain fee st1 where r: "redeem_shares x m ?st = Inr (?g, fee, st1)" and c: "claim st1 m x = 0"
    by (rule redeem_shares_succeeds [OF st2(1) _ lim, of x]) (use assms(8) st2 in auto)
  note fr = redeem_shares_frame [OF r] and rg = redeem_shares_books [OF r st2(1)]
  let ?p = "pay_out m ?g st1"
  have led: "ledger ?p = ledger st" "p_dao ?p = p_dao st"
    "aggregateReserved ?p = aggregateReserved st - ?g"
    using fr by (simp_all add: pay_out_def Let_def set_market_def)
  have enough: "?g \<le> t_balanceOf tok (ledger st) ?me"
    using rg(2) agg assms(2) by (simp add: solvent_def)
  obtain l where l: "(if fee \<noteq> 0 then pushCollateral tok env (p_dao ?p) fee ?p else Inr ?p) = Inr (?p\<lparr>ledger := l\<rparr>)"
    "t_balanceOf tok l ?me = t_balanceOf tok (ledger st) ?me - fee" "I l"
  proof (cases "fee = 0")
    case True
    then show thesis using that [of "ledger ?p"] led(1) assms(6) by simp
  next
    case False
    then show thesis
      using push_succeeds [OF assms(5) rg(3), of ?p "p_dao ?p"] led rg(4) enough assms(4,6) that by auto
  qed
  obtain l' where l': "pushCollateral tok env x (?g - fee) (?p\<lparr>ledger := l\<rparr>) = Inr (?p\<lparr>ledger := l'\<rparr>)"
    "t_balanceOf tok l' ?me = t_balanceOf tok l ?me - (?g - fee)"
    by (rule push_succeeds [OF assms(5), of "?g - fee" "?p\<lparr>ledger := l\<rparr>" x])
      (use rg(3,4) l(2,3) enough assms(7) in auto)
  have sol: "assertSolvent tok env (?p\<lparr>ledger := l'\<rparr>) = Inr (?p\<lparr>ledger := l'\<rparr>)"
    using l(2) l'(2) led(3) assms(2) by (simp add: assertSolvent_def solvent_def)
  have "redeem_body tok env x m ?st = Inr (?p\<lparr>ledger := l'\<rparr>)"
    using redeem_body_pays [OF r _ _ rg(4), of tok env] rg(2) fr(3,4) agg
    by (simp add: l(1) l'(1) sol split del: if_split)
  then have "redeem tok env x m st = Inr (?p\<lparr>ledger := l', reentrancyStatus := 1\<rparr>)"
    using assms(3) by (simp add: redeem_def nonReentrant_def)
  moreover have "claim (?p\<lparr>ledger := l', reentrancyStatus := 1\<rparr>) m x = 0"
    using c by (simp add: claim_def pay_out_def Let_def set_market_def split: MarketState.splits)
  ultimately show ?thesis
    using l(2) l'(2) fr(4) by (simp add: pay_out_def Let_def set_market_def)
qed

section \<open>What a market promises\<close>

text \<open>The abstract market: its phase and the collateral set aside for it. Complete sets come and go while
  it trades, it is decided once, and from then on only pays out.\<close>

datatype verdict = Yes | No | Void
datatype phase = Absent | Trading | Paused | Ended | Decided verdict

inductive market_step :: "phase \<times> int \<Rightarrow> phase \<times> int \<Rightarrow> bool" where
  create: "market_step (Absent, 0) (Trading, 0)"
| mint: "0 \<le> n \<Longrightarrow> market_step (Trading, r) (Trading, r + n)"
| merge: "0 \<le> n \<Longrightarrow> n \<le> r \<Longrightarrow> market_step (Trading, r) (Trading, r - n)"
| halt: "market_step (Trading, r) (Paused, r)"
| resume: "market_step (Paused, r) (Trading, r)"
| close: "p \<in> {Trading, Paused} \<Longrightarrow> market_step (p, r) (Ended, r)"
| decide: "p \<in> {Trading, Paused, Ended} \<Longrightarrow> market_step (p, r) (Decided v, r)"
| pay: "0 \<le> n \<Longrightarrow> n \<le> r \<Longrightarrow> market_step (Decided v, r) (Decided v, r - n)"

inductive_cases decided_stepE: "market_step (Decided v, r) s"
inductive_simps absent_step: "market_step (Absent, r) s"

definition phase_of :: "MarketState \<Rightarrow> phase" where
  "phase_of s = (case s of
     UNINITIALIZED \<Rightarrow> Absent | OPEN \<Rightarrow> Trading | HALTED \<Rightarrow> Paused | CLOSED \<Rightarrow> Ended
   | RESOLVED_YES \<Rightarrow> Decided Yes | RESOLVED_NO \<Rightarrow> Decided No | VOID \<Rightarrow> Decided Void)"

definition abs_market :: "int \<Rightarrow> 'l prism \<Rightarrow> phase \<times> int" where
  "abs_market m st = (phase_of (mk_state (markets st m)), mk_reserve (markets st m))"

lemma abs_market_simps [simp]:
  "abs_market m (st\<lparr>reentrancyStatus := r\<rparr>) = abs_market m st"
  "abs_market m (st\<lparr>ledger := l\<rparr>) = abs_market m st"
  "abs_market m (st\<lparr>executedMatches := e\<rparr>) = abs_market m st"
  by (simp_all add: abs_market_def)

lemma books_abs: "books st' = books st \<Longrightarrow> abs_market m st' = abs_market m st"
  by (simp add: books_def abs_market_def)

lemma apply_match_step:
  assumes "apply_match tok env a b n yc nc st = Inr st'" "0 \<le> n"
    "mk_state (markets st (a_marketId a)) = OPEN"
  shows "market_step\<^sup>=\<^sup>= (abs_market m st) (abs_market m st')"
proof -
  consider (mint) "mintCompleteSet tok env a b n yc nc st = Inr st'"
    | (merge) "mergeCompleteSet tok env a b n yc nc st = Inr st'"
    | (move) c where "transferPosition tok env a b n c st = Inr st'"
    using assms(1) by (auto simp: apply_match_def split: if_splits)
  then show ?thesis
  proof cases
    case mint
    then obtain x z where "markets st' = (markets st)(a_marketId a := (markets st (a_marketId a))\<lparr>
        mk_totalYes := mk_totalYes (markets st (a_marketId a)) + n,
        mk_totalNo := mk_totalNo (markets st (a_marketId a)) + n,
        mk_reserve := mk_reserve (markets st (a_marketId a)) + n\<rparr>)"
      using mint_effect [OF mint refl] by metis
    with assms(2,3) show ?thesis by (auto simp: abs_market_def phase_of_def intro: market_step.mint)
  next
    case merge
    then obtain x z where "markets st' = (markets st)(a_marketId a := (markets st (a_marketId a))\<lparr>
        mk_totalYes := mk_totalYes (markets st (a_marketId a)) - n,
        mk_totalNo := mk_totalNo (markets st (a_marketId a)) - n,
        mk_reserve := mk_reserve (markets st (a_marketId a)) - n\<rparr>)"
      and "n \<le> mk_reserve (markets st (a_marketId a))"
      using merge_effect [OF merge refl] by metis
    with assms(2,3) show ?thesis by (auto simp: abs_market_def phase_of_def intro: market_step.merge)
  next
    case move
    then have "markets st' = markets st" by (rule transfer_effect) auto
    then show ?thesis by (simp add: abs_market_def)
  qed
qed

lemma settle_step:
  assumes "settle_body tok env a b n price i st = Inr st'" "0 \<le> n"
  shows "market_step\<^sup>=\<^sup>= (abs_market m st) (abs_market m st')"
proof -
  from assms(1) obtain h1 h2 st1 st2 where
    c: "consume a h1 n (if a_side a = YES then leg_collateral YES n price else leg_collateral NO n price) st = Inr st1"
    "consume b h2 n (if a_side b = YES then leg_collateral YES n price else leg_collateral NO n price) st1 = Inr st2"
    and m: "apply_match tok env a b n (leg_collateral YES n price) (leg_collateral NO n price)
        (st2\<lparr>executedMatches := (executedMatches st2)(i := True)\<rparr>) = Inr st'"
    and o: "mk_state (markets st (a_marketId a)) = OPEN"
    unfolding settle_body_def Let_def
    by (auto simp: attempt_Inr_iff assertSolvent_def split: if_splits)
  from c have b: "books st2 = books st" by (auto dest!: consume_books)
  with o have "mk_state (markets st2 (a_marketId a)) = OPEN" by (simp add: books_def)
  with apply_match_step [OF m assms(2), of m] books_abs [OF b, of m] show ?thesis by simp
qed

lemma redeem_step:
  assumes "redeem_body tok env caller m st = Inr st'" "books_ok st"
  shows "market_step\<^sup>=\<^sup>= (abs_market k st) (abs_market k st')"
proof -
  from assms(1) obtain gross fee st1 where
    r: "redeem_shares caller m st = Inr (gross, fee, st1)"
    and a: "abs_market k st' = abs_market k (pay_out m gross st1)"
    unfolding redeem_body_def pay_out_def Let_def
    by (fastforce simp: attempt_Inr_iff assertSolvent_def abs_market_def dest!: pull_push_frame split: if_splits)
  note fr = redeem_shares_frame [OF r] and g = redeem_shares_books [OF r assms(2)]
  obtain v where "phase_of (mk_state (markets st m)) = Decided v"
    using fr(6) by (auto simp: phase_of_def)
  then show ?thesis unfolding a
    using fr(4,7,8) market_step.pay [OF g(1,2), of v]
    by (cases "k = m") (auto simp: abs_market_def pay_out_def Let_def set_market_def)
qed

lemma execute_step:
  assumes "execute tok env caller c st = Inr st'" "books_ok st" "call_ok c"
  shows "market_step\<^sup>=\<^sup>= (abs_market m st) (abs_market m st')"
proof (cases "moves_money c")
  case True
  then consider (s) a b n price i where "c = Settle a b n price i" | (r) k where "c = Redeem k"
    by (auto simp: moves_money_def split: call.splits)
  then show ?thesis
  proof cases
    case s
    with assms show ?thesis
      by (auto simp: settle_def call_ok_def split: if_splits elim!: nonReentrant_Inr
          dest!: settle_step [where m = m])
  next
    case r
    with assms show ?thesis
      by (auto simp: redeem_def elim!: nonReentrant_Inr dest!: redeem_step [where k = m])
  qed
next
  case False
  have "mk_reserve (markets st k) = 0" if "mk_state (markets st k) = UNINITIALIZED" for k
    using books_ok_market [OF assms(2), of k] that by (simp add: market_ok_def)
  then show ?thesis using assms(1) False
    by (cases c) (auto simp: admin_defs moves_money_def createMarket_def set_state_def set_market_def
        abs_market_def phase_of_def intro: market_step.intros split: if_splits role.splits)
qed

section \<open>A concrete run\<close>

text \<open>A script of calls, and a token whose state is the table of its balances.\<close>

fun run :: "'l erc20 \<Rightarrow> (sol_env \<times> int \<times> call) list \<Rightarrow> 'l prism \<Rightarrow> sol_error + 'l prism" where
  "run tok [] st = Inr st"
| "run tok ((env, caller, c) # cs) st = attempt (execute tok env caller c st) (run tok cs)"

definition script_ok :: "int \<Rightarrow> (sol_env \<times> int \<times> call) list \<Rightarrow> bool" where
  "script_ok this cs \<longleftrightarrow> list_all (\<lambda>(env, caller, c). call_ok c \<and> this_address env = this \<and> caller \<noteq> this) cs"

lemma run_reachable:
  "run tok cs st = Inr st' \<Longrightarrow> script_ok this cs \<Longrightarrow> reachable tok this st \<Longrightarrow> reachable tok this st'"
  by (induction tok cs st rule: run.induct) (auto simp: attempt_Inr_iff script_ok_def intro: reachable.called)

definition demo_move :: "(int \<Rightarrow> int) \<Rightarrow> int \<Rightarrow> int \<Rightarrow> int \<Rightarrow> (int \<Rightarrow> int) option" where
  "demo_move l src dst n =
     (if n < 0 \<or> l src < n then None else Some (let l1 = l(src := l src - n) in l1(dst := l1 dst + n)))"

definition demo_token :: "(int \<Rightarrow> int) erc20" where
  "demo_token = \<lparr>t_balanceOf = (\<lambda>l. l), t_transferFrom = (\<lambda>l spender. demo_move l), t_transfer = demo_move\<rparr>"

definition demo_env :: "int \<Rightarrow> sol_env" where
  "demo_env now = \<lparr>block_chainid = 296, this_address = 17, block_timestamp = now,
     e_hash = (\<lambda>a. a_signer a * 1000 + a_txId a), e_authorized = (\<lambda>_. True)\<rparr>"

definition demo_order :: "int \<Rightarrow> sol_side \<Rightarrow> sol_action \<Rightarrow> int \<Rightarrow> int \<Rightarrow> Authorization" where
  "demo_order who s act limit q = \<lparr>a_version = 2, a_chainId = 296, a_verifyingContract = 17,
     a_signer = who, a_marketId = 1, a_txId = 5, a_side = s, a_action = act, a_limitYesPrice = limit,
     a_qtyShares = q, a_collateralCap = q, a_deadline = 90\<rparr>"

text \<open>Accounts 34 and 35 buy YES and NO at 0.6; the market is decided for YES at time 101.\<close>

definition demo_script :: "(sol_env \<times> int \<times> call) list" where
  "demo_script =
     [(demo_env 10, 1, CreateMarket 1 ''Will it rain?'' 100),
      (demo_env 20, 2, Settle (demo_order 34 YES BUY 600000 1001) (demo_order 35 NO BUY 600000 1001) 1001 600000 7),
      (demo_env 101, 3, ResolveMarket 1 True)]"

definition demo_ledger :: "int \<Rightarrow> int" where
  "demo_ledger = (\<lambda>x. if x = 34 \<or> x = 35 then 5000 else 0)"

definition demo_deployed :: "(int \<Rightarrow> int) prism" where
  "demo_deployed = (fresh_storage demo_ledger)\<lparr>collateralToken := 9, p_owner := 1, p_operator := 2,
     p_oracle := 3, p_dao := 4, defaultRakeBps := 200, reentrancyStatus := 1\<rparr>"

lemma demo_deployed_reachable: "reachable demo_token 17 demo_deployed"
  by (rule reachable.deployed [where env = "demo_env 1" and token = 9 and own = 1 and oper = 2
        and orac = 3 and dao = 4 and rake = 200 and l = demo_ledger])
    (simp_all add: initialize_def isValidRole_def demo_env_def MAX_RAKE_BPS_def demo_deployed_def
      demo_token_def demo_ledger_def)

lemma demo_script_ok: "script_ok 17 demo_script"
  by (simp add: script_ok_def demo_script_def demo_env_def call_ok_def)

lemma demo_run:
  obtains st where "run demo_token demo_script demo_deployed = Inr st" "reachable demo_token 17 st"
    "aggregateReserved st = 1001" "mk_state (markets st 1) = RESOLVED_YES" "yesBalance st 1 34 = 1001"
    "ledger st 17 = 1001" "ledger st 34 = 4400"
proof -
  have "case run demo_token demo_script demo_deployed of
      Inr st \<Rightarrow> aggregateReserved st = 1001 \<and> mk_state (markets st 1) = RESOLVED_YES
        \<and> yesBalance st 1 34 = 1001 \<and> ledger st 17 = 1001 \<and> ledger st 34 = 4400
    | Inl e \<Rightarrow> False"
    by code_simp
  then show thesis
    using run_reachable [OF _ demo_script_ok demo_deployed_reachable] that
    by (auto split: sum.splits)
qed

section \<open>Properties\<close>

text \<open>C1. In every reachable state of the contract, whatever is called by whomever in whatever order, the
  books balance and the contract is solvent: each market's totals are the sums of its holders'
  balances, its reserve covers exactly what its shares can still claim, the aggregate is the sum of
  the reserves, and the contract holds at least that much of the token.\<close>

theorem books_balance_and_contract_solvent:
  assumes "reachable tok this st"
  shows "books_ok st \<and> solvent tok this st"
  using reachable_invariant [OF assms] by simp

theorem books_balance_and_contract_solvent_witness:
  "\<exists>st. run demo_token demo_script demo_deployed = Inr st \<and> aggregateReserved st = 1001
    \<and> books_ok st \<and> solvent demo_token 17 st"
  by (rule demo_run) (use books_balance_and_contract_solvent in blast)


lemma demo_honest: "honest demo_token (\<lambda>l. l 17 \<le> 10000) 17"
  by (simp add: honest_def demo_token_def demo_move_def)


text \<open>C5. Every call of the contract is, for every market, a step of the abstract market or leaves it
  as it is: complete sets are created and dissolved only while it trades, it is decided at most once,
  and a decided market keeps its verdict and only pays out of its reserve.\<close>

theorem calls_refine_market:
  assumes "reachable tok this st" "execute tok env caller c st = Inr st'" "call_ok c"
  shows "market_step\<^sup>=\<^sup>= (abs_market m st) (abs_market m st')"
  using execute_step [OF assms(2)] reachable_invariant [OF assms(1)] assms(3) by blast

theorem calls_refine_market_witness:
  "\<exists>st st'. run demo_token demo_script demo_deployed = Inr st
    \<and> execute demo_token (demo_env 200) 34 (Redeem 1) st = Inr st'
    \<and> market_step\<^sup>=\<^sup>= (abs_market 1 st) (abs_market 1 st')"
proof (rule demo_run)
  fix st
  assume st: "run demo_token demo_script demo_deployed = Inr st" "reachable demo_token 17 st"
  have "case run demo_token (demo_script @ [(demo_env 200, 34, Redeem 1)]) demo_deployed of
      Inr _ \<Rightarrow> True | Inl _ \<Rightarrow> False"
    by code_simp
  moreover have "run tok (cs @ [(e, x, c)]) s = attempt (run tok cs s) (execute tok e x c)"
    for tok :: "(int \<Rightarrow> int) erc20" and cs e x c s
  proof (induction tok cs s rule: run.induct)
    case (1 tok st)
    then show ?case by (cases "execute tok e x c st") simp_all
  next
    case (2 tok env caller d cs st)
    then show ?case by (cases "execute tok env caller d st") simp_all
  qed
  ultimately obtain st' where e: "execute demo_token (demo_env 200) 34 (Redeem 1) st = Inr st'"
    using st(1) by (auto split: sum.splits)
  have "market_step\<^sup>=\<^sup>= (abs_market 1 st) (abs_market 1 st')"
    by (rule calls_refine_market [OF st(2) e]) (simp add: call_ok_def)
  with st(1) e show ?thesis by blast
qed

end
