(* ===== verification/WalletMutex.thy ===== *)
theory WalletMutex
  imports JsString
begin

text \<open>
  The lock around wallet prompts, \<open>src/web/lib/walletMutex.ts\<close>, and the signing wrapper above it,
  \<open>src/web/lib/signWithWallet.ts\<close>. The lock is one browser-wide queue of calls (of one or several tabs)
  with at most one holder. A holder keeps the lock until its wallet promise settles, until the hold
  ceiling, until the grace period after a cancellation, or until it is aborted; its caller is told at
  most once. Time is in milliseconds; timers fire at their deadline.
\<close>

section \<open>State and events\<close>

definition HOLD_CEILING_MS :: int where "HOLD_CEILING_MS = 310000"
definition CANCEL_GRACE_MS :: int where "CANCEL_GRACE_MS = 10000"
definition DEFAULT_TIMEOUT_MS :: int where "DEFAULT_TIMEOUT_MS = 300000"

datatype wallet_error =
  WalletTimeout | WalletAborted string | SessionLost | SessionNotFoundError | WalletOther string

datatype 'v settled = Resolved 'v | Rejected wallet_error

record lock_call =
  c_id :: nat
  c_tab :: nat
  c_label :: string
  c_ceiling :: int

record lock_hold =
  h_call :: lock_call
  h_since :: int
  h_grace :: "int option"

record 'v mutex =
  m_now :: int
  m_next :: nat
  m_queue :: "lock_call list"
  m_holder :: "lock_hold option"
  m_caller :: "nat \<Rightarrow> 'v settled option"
  m_granted :: "nat list"

definition init_mutex :: "'v mutex" where
  "init_mutex = \<lparr>m_now = 0, m_next = 0, m_queue = [], m_holder = None, m_caller = (\<lambda>_. None),
     m_granted = []\<rparr>"

datatype 'v lock_event =
  Request nat string "int option"
| FnSettles nat "'v settled"
| Abort nat string bool
| ForceReset nat
| Advance int

section \<open>Operations\<close>

text \<open>\<open>settleResolve\<close> and \<open>settleReject\<close>: only the first outcome reaches the caller.\<close>

definition settle :: "nat \<Rightarrow> 'v settled \<Rightarrow> 'v mutex \<Rightarrow> 'v mutex" where
  "settle i r st = (if m_caller st i = None then st\<lparr>m_caller := (m_caller st)(i := Some r)\<rparr> else st)"

text \<open>Handing the free lock to the head of the queue: \<open>run\<close> starts and sets its timers.\<close>

definition grant :: "'v mutex \<Rightarrow> 'v mutex" where
  "grant st =
     (case (m_holder st, m_queue st) of
        (None, c # cs) \<Rightarrow>
          st\<lparr>m_queue := cs, m_granted := m_granted st @ [c_id c],
             m_holder := Some \<lparr>h_call = c, h_since = m_now st, h_grace = None\<rparr>\<rparr>
      | _ \<Rightarrow> st)"

text \<open>\<open>markReleased\<close> of the holder, and the hand-over that follows.\<close>

definition release :: "'v mutex \<Rightarrow> 'v mutex" where
  "release st = grant (st\<lparr>m_holder := None\<rparr>)"

definition withWalletLock :: "nat \<Rightarrow> string \<Rightarrow> int option \<Rightarrow> 'v mutex \<Rightarrow> 'v mutex" where
  "withWalletLock tab label ceil st =
     (let c = \<lparr>c_id = m_next st, c_tab = tab, c_label = label,
               c_ceiling = (case ceil of Some ms \<Rightarrow> ms | None \<Rightarrow> HOLD_CEILING_MS)\<rparr>
      in grant (st\<lparr>m_next := Suc (m_next st), m_queue := m_queue st @ [c]\<rparr>))"

text \<open>The wallet promise of a call settles. An error of the session store is reported as a lost session.
  A promise that was orphaned by an earlier release releases nothing.\<close>

definition wallet_outcome :: "'v settled \<Rightarrow> 'v settled" where
  "wallet_outcome r = (if r = Rejected SessionNotFoundError then Rejected SessionLost else r)"

definition holds :: "nat \<Rightarrow> 'v mutex \<Rightarrow> bool" where
  "holds i st = (case m_holder st of None \<Rightarrow> False | Some h \<Rightarrow> c_id (h_call h) = i)"

definition fn_settles :: "nat \<Rightarrow> 'v settled \<Rightarrow> 'v mutex \<Rightarrow> 'v mutex" where
  "fn_settles i r st =
     (if i \<in> set (m_granted st) then
        (let st' = settle i (wallet_outcome r) st in if holds i st then release st' else st')
      else st)"

text \<open>\<open>abortActiveWalletCall\<close> of a tab: its active call, if any, is rejected; the lock is released at
  once or, with \<open>releaseLock: false\<close>, after the grace period, which is only set once.\<close>

definition abortActiveWalletCall :: "nat \<Rightarrow> string \<Rightarrow> bool \<Rightarrow> 'v mutex \<Rightarrow> bool \<times> 'v mutex" where
  "abortActiveWalletCall tab reason releaseLock st =
     (case m_holder st of
        None \<Rightarrow> (False, st)
      | Some h \<Rightarrow>
          if c_tab (h_call h) \<noteq> tab then (False, st)
          else (let st' = settle (c_id (h_call h)) (Rejected (WalletAborted reason)) st in
                (True,
                 if releaseLock then release st'
                 else if h_grace h = None then
                   st'\<lparr>m_holder := Some (h\<lparr>h_grace := Some (m_now st + CANCEL_GRACE_MS)\<rparr>)\<rparr>
                 else st')))"

definition forceResetWalletLock :: "nat \<Rightarrow> 'v mutex \<Rightarrow> bool \<times> 'v mutex" where
  "forceResetWalletLock tab st = abortActiveWalletCall tab ''wallet queue reset'' True st"

definition activeWalletLabel :: "nat \<Rightarrow> 'v mutex \<Rightarrow> string option" where
  "activeWalletLabel tab st =
     (case m_holder st of
        Some h \<Rightarrow> if c_tab (h_call h) = tab then Some (c_label (h_call h)) else None
      | None \<Rightarrow> None)"

definition walletLockHeldMs :: "nat \<Rightarrow> 'v mutex \<Rightarrow> int option" where
  "walletLockHeldMs tab st =
     (case m_holder st of
        Some h \<Rightarrow> if c_tab (h_call h) = tab then Some (m_now st - h_since h) else None
      | None \<Rightarrow> None)"

text \<open>The passage of time up to \<open>t\<close>: the timers of the holder fire in the order of their deadlines; each
  firing hands the lock over at that moment, so the next holder's timers start there.\<close>

definition ceiling_at :: "lock_hold \<Rightarrow> int" where
  "ceiling_at h = h_since h + c_ceiling (h_call h)"

definition release_at :: "lock_hold \<Rightarrow> int" where
  "release_at h = (case h_grace h of None \<Rightarrow> ceiling_at h | Some g \<Rightarrow> min g (ceiling_at h))"

definition fire_timer :: "lock_hold \<Rightarrow> 'v mutex \<Rightarrow> 'v mutex" where
  "fire_timer h st =
     (let st' = st\<lparr>m_now := max (m_now st) (release_at h)\<rparr> in
      if release_at h = ceiling_at h then release (settle (c_id (h_call h)) (Rejected WalletTimeout) st')
      else release st')"

definition live_calls :: "'v mutex \<Rightarrow> nat" where
  "live_calls st = length (m_queue st) + (if m_holder st = None then 0 else 1)"

lemma live_calls_release [simp]:
  "m_holder st = Some h \<Longrightarrow> live_calls (release st) < live_calls st"
  by (cases "m_queue st") (simp_all add: live_calls_def release_def grant_def)

lemma live_calls_settle [simp]: "live_calls (settle i r st) = live_calls st"
  by (simp add: live_calls_def settle_def)

lemma live_calls_now [simp]: "live_calls (st\<lparr>m_now := t\<rparr>) = live_calls st"
  by (simp add: live_calls_def)

lemma holder_settle [simp]: "m_holder (settle i r st) = m_holder st"
  by (simp add: settle_def)

lemma live_calls_fire: "m_holder st = Some h \<Longrightarrow> live_calls (fire_timer h st) < live_calls st"
proof -
  assume h: "m_holder st = Some h"
  let ?st = "st\<lparr>m_now := max (m_now st) (release_at h)\<rparr>"
  have "live_calls (release (settle (c_id (h_call h)) (Rejected WalletTimeout) ?st)) < live_calls st"
    using live_calls_release [of "settle (c_id (h_call h)) (Rejected WalletTimeout) ?st" h] h by simp
  moreover have "live_calls (release ?st) < live_calls st"
    using live_calls_release [of ?st h] h by simp
  ultimately show ?thesis unfolding fire_timer_def Let_def by (simp only: split: if_split) blast
qed

function advance :: "int \<Rightarrow> 'v mutex \<Rightarrow> 'v mutex" where
  "advance t st =
     (case m_holder st of
        Some h \<Rightarrow> if release_at h \<le> t then advance t (fire_timer h st)
                  else st\<lparr>m_now := max (m_now st) t\<rparr>
      | None \<Rightarrow> st\<lparr>m_now := max (m_now st) t\<rparr>)"
  by pat_completeness auto
termination
  by (relation "measure (\<lambda>(t, st). live_calls st)") (auto simp: live_calls_fire)

declare advance.simps [simp del]

fun lock_step :: "'v lock_event \<Rightarrow> 'v mutex \<Rightarrow> 'v mutex" where
  "lock_step (Request tab label ceil) st = withWalletLock tab label ceil st"
| "lock_step (FnSettles i r) st = fn_settles i r st"
| "lock_step (Abort tab reason rl) st = snd (abortActiveWalletCall tab reason rl st)"
| "lock_step (ForceReset tab) st = snd (forceResetWalletLock tab st)"
| "lock_step (Advance t) st = advance t st"

definition lock_run :: "'v lock_event list \<Rightarrow> 'v mutex" where
  "lock_run es = fold lock_step es init_mutex"

section \<open>The contract of a lock\<close>

text \<open>
  What users of the lock rely on: calls are numbered in request order, granted in that order and never
  twice, a free lock has no waiting call, a call that is past its turn has been answered, and a call
  that still waits has not. The laws are stated per step; the consequences hold for every run.
\<close>

locale fifo_lock =
  fixes init :: 's
    and step :: "'e \<Rightarrow> 's \<Rightarrow> 's"
    and requested :: "'s \<Rightarrow> nat"
    and granted :: "'s \<Rightarrow> nat list"
    and waiting :: "'s \<Rightarrow> nat list"
    and holder :: "'s \<Rightarrow> nat option"
    and answered :: "'s \<Rightarrow> nat \<Rightarrow> bool"
    and ok :: "'s \<Rightarrow> bool"
  assumes init_ok: "ok init" and init_granted: "granted init = []"
    and step_ok: "ok st \<Longrightarrow> ok (step e st)"
    and ok_order: "ok st \<Longrightarrow> granted st @ waiting st = [0..<requested st]"
    and ok_free: "ok st \<Longrightarrow> holder st = None \<Longrightarrow> waiting st = []"
    and ok_holder: "ok st \<Longrightarrow> holder st = Some i \<Longrightarrow> granted st \<noteq> [] \<and> last (granted st) = i"
    and ok_past: "ok st \<Longrightarrow> i \<in> set (granted st) \<Longrightarrow> holder st \<noteq> Some i \<Longrightarrow> answered st i"
    and ok_wait: "ok st \<Longrightarrow> i \<in> set (waiting st) \<Longrightarrow> \<not> answered st i"
    and step_granted: "ok st \<Longrightarrow> \<exists>more. granted (step e st) = granted st @ more"
    and step_answered: "ok st \<Longrightarrow> answered st i \<Longrightarrow> answered (step e st) i"
begin

definition run :: "'e list \<Rightarrow> 's" where
  "run es = fold step es init"

lemma run_snoc: "run (es @ [e]) = step e (run es)"
  by (simp add: run_def)

lemma run_ok: "ok (run es)"
proof (induction es rule: rev_induct)
  case Nil
  show ?case by (simp add: run_def init_ok)
next
  case (snoc e es)
  then show ?case by (simp add: run_snoc step_ok)
qed

lemma run_order: "granted (run es) @ waiting (run es) = [0..<requested (run es)]"
  by (rule ok_order [OF run_ok])

lemma run_granted_prefix: "\<exists>k. granted (run es) = [0..<k] \<and> k \<le> requested (run es)"
proof -
  have "granted (run es) = take (length (granted (run es))) [0..<requested (run es)]"
    using run_order [of es] by (metis append_eq_conv_conj)
  moreover have "length (granted (run es)) \<le> requested (run es)"
    using arg_cong [OF run_order [of es], of length] by simp
  ultimately show ?thesis by (metis add_0 take_upt)
qed

lemma run_monotone: "\<exists>more. granted (run (es @ fs)) = granted (run es) @ more"
proof (induction fs rule: rev_induct)
  case (snoc f fs)
  then obtain more where "granted (run (es @ fs)) = granted (run es) @ more" by blast
  moreover obtain more' where "granted (step f (run (es @ fs))) = granted (run (es @ fs)) @ more'"
    using step_granted [OF run_ok] by blast
  ultimately have "granted (run (es @ fs @ [f])) = granted (run es) @ more @ more'"
    using run_snoc [of "es @ fs" f] by simp
  then show ?case by blast
qed simp

lemma run_answered: "answered (run es) i \<Longrightarrow> answered (run (es @ fs)) i"
proof (induction fs rule: rev_induct)
  case (snoc f fs)
  then show ?case using step_answered [OF run_ok [of "es @ fs"], of i f]
    by (simp add: run_snoc flip: append_assoc)
qed simp

text \<open>Whoever is ahead of the holder has been answered, whoever waits has not.\<close>

lemma run_before_holder:
  assumes "holder (run es) = Some i" "j < i"
  shows "answered (run es) j"
proof (rule ok_past [OF run_ok])
  obtain k where k: "granted (run es) = [0..<k]" using run_granted_prefix by blast
  have "last (granted (run es)) = i" "granted (run es) \<noteq> []"
    using ok_holder [OF run_ok assms(1)] by simp_all
  then have "i = k - 1" "0 < k" using k by auto
  then show "j \<in> set (granted (run es))" using assms(2) k by simp
  show "holder (run es) \<noteq> Some j" using assms by simp
qed

end


section \<open>The mutex keeps the contract\<close>

definition held_id :: "'v mutex \<Rightarrow> nat option" where
  "held_id st = map_option (\<lambda>h. c_id (h_call h)) (m_holder st)"

definition waiting_ids :: "'v mutex \<Rightarrow> nat list" where
  "waiting_ids st = map c_id (m_queue st)"

definition answered :: "'v mutex \<Rightarrow> nat \<Rightarrow> bool" where
  "answered st i \<longleftrightarrow> m_caller st i \<noteq> None"

text \<open>The order, the answers, and the holder; \<open>base_ok\<close> is what still holds while the lock changes
  hands.\<close>

definition base_ok :: "'v mutex \<Rightarrow> bool" where
  "base_ok st \<longleftrightarrow>
     m_granted st @ waiting_ids st = [0..<m_next st]
     \<and> (\<forall>i. answered st i \<longrightarrow> i \<in> set (m_granted st))
     \<and> (\<forall>h. m_holder st = Some h \<longrightarrow> m_granted st \<noteq> [] \<and> last (m_granted st) = c_id (h_call h)
            \<and> (h_grace h \<noteq> None \<longrightarrow> answered st (c_id (h_call h))))
     \<and> (\<forall>i \<in> set (m_granted st). held_id st \<noteq> Some i \<longrightarrow> answered st i)"

definition mutex_ok :: "'v mutex \<Rightarrow> bool" where
  "mutex_ok st \<longleftrightarrow> base_ok st \<and> (m_holder st = None \<longrightarrow> m_queue st = [])"

lemmas mutex_defs = base_ok_def held_id_def waiting_ids_def answered_def

lemma distinct_order:
  assumes "base_ok st"
  shows "set (m_granted st) \<inter> set (waiting_ids st) = {}" "\<forall>i \<in> set (waiting_ids st). \<not> answered st i"
proof -
  have "distinct (m_granted st @ waiting_ids st)" using assms by (simp add: base_ok_def)
  then show d: "set (m_granted st) \<inter> set (waiting_ids st) = {}" by simp
  show "\<forall>i \<in> set (waiting_ids st). \<not> answered st i"
    using d assms by (auto simp: base_ok_def)
qed

lemma init_mutex_ok: "mutex_ok init_mutex"
  by (simp add: mutex_ok_def mutex_defs init_mutex_def)

lemma settle_simps [simp]:
  "m_queue (settle i r st) = m_queue st" "m_granted (settle i r st) = m_granted st"
  "m_next (settle i r st) = m_next st" "m_now (settle i r st) = m_now st"
  by (simp_all add: settle_def)

lemma answered_settle [simp]: "answered (settle i r st) j \<longleftrightarrow> answered st j \<or> j = i"
  by (auto simp: settle_def answered_def)

lemma base_ok_settle: "base_ok st \<Longrightarrow> i \<in> set (m_granted st) \<Longrightarrow> base_ok (settle i r st)"
  by (auto simp: base_ok_def held_id_def waiting_ids_def)

lemma base_ok_now: "base_ok (st\<lparr>m_now := t\<rparr>) \<longleftrightarrow> base_ok st"
  by (simp add: mutex_defs)

text \<open>Granting a free lock, and releasing one whose holder has been answered.\<close>

lemma grant_ok:
  assumes "base_ok st" "m_holder st = None \<Longrightarrow> \<forall>i \<in> set (m_granted st). answered st i"
  shows "mutex_ok (grant st)"
proof (cases "m_holder st")
  case None
  show ?thesis
  proof (cases "m_queue st")
    case Nil
    with None assms show ?thesis by (simp add: mutex_ok_def grant_def)
  next
    case (Cons c cs)
    have "\<forall>i \<in> set (m_granted st). answered st i" using assms None by simp
    then show ?thesis
      using None Cons assms by (auto simp: mutex_ok_def mutex_defs grant_def)
  qed
next
  case (Some h)
  with assms show ?thesis by (simp add: mutex_ok_def grant_def)
qed

lemma release_ok:
  assumes "base_ok st" "\<And>h. m_holder st = Some h \<Longrightarrow> answered st (c_id (h_call h))"
  shows "mutex_ok (release st)"
proof -
  have a: "\<forall>i \<in> set (m_granted st). answered st i"
    using assms by (auto simp: base_ok_def held_id_def)
  have "base_ok (st\<lparr>m_holder := None\<rparr>)"
    using assms(1) a by (simp add: base_ok_def held_id_def waiting_ids_def answered_def)
  then show ?thesis unfolding release_def
    using a by (intro grant_ok) (simp_all add: answered_def)
qed

lemma holder_granted:
  assumes "base_ok st" "m_holder st = Some h"
  shows "c_id (h_call h) \<in> set (m_granted st)"
  using assms by (metis base_ok_def last_in_set)

lemma request_ok: "mutex_ok st \<Longrightarrow> mutex_ok (withWalletLock tab label ceil st)"
proof -
  assume ok: "mutex_ok st"
  define c where "c = \<lparr>c_id = m_next st, c_tab = tab, c_label = label,
    c_ceiling = (case ceil of Some ms \<Rightarrow> ms | None \<Rightarrow> HOLD_CEILING_MS)\<rparr>"
  define st' where "st' = st\<lparr>m_next := Suc (m_next st), m_queue := m_queue st @ [c]\<rparr>"
  have "base_ok st'"
    using ok by (auto simp: mutex_ok_def mutex_defs st'_def c_def simp flip: append_assoc)
  moreover have "m_holder st' = None \<Longrightarrow> \<forall>i \<in> set (m_granted st'). answered st' i"
    using ok by (auto simp: mutex_ok_def mutex_defs st'_def)
  ultimately have "mutex_ok (grant st')" by (rule grant_ok)
  then show ?thesis by (simp add: withWalletLock_def st'_def c_def Let_def)
qed

lemma fn_settles_ok: "mutex_ok st \<Longrightarrow> mutex_ok (fn_settles i r st)"
proof -
  assume ok: "mutex_ok st"
  show ?thesis
  proof (cases "i \<in> set (m_granted st)")
    case True
    then have b: "base_ok (settle i (wallet_outcome r) st)"
      using ok by (simp add: mutex_ok_def base_ok_settle)
    show ?thesis
    proof (cases "holds i st")
      case h: True
      have "mutex_ok (release (settle i (wallet_outcome r) st))"
        using h by (intro release_ok b) (auto simp: holds_def split: option.splits)
      then show ?thesis using True h by (simp add: fn_settles_def Let_def)
    next
      case False
      then show ?thesis using True b ok by (simp add: fn_settles_def Let_def mutex_ok_def)
    qed
  qed (simp add: fn_settles_def ok)
qed

lemma abort_ok: "mutex_ok st \<Longrightarrow> mutex_ok (snd (abortActiveWalletCall tab reason rl st))"
proof (cases "m_holder st")
  case (Some h)
  assume ok: "mutex_ok st"
  let ?st = "settle (c_id (h_call h)) (Rejected (WalletAborted reason)) st"
  have b: "base_ok ?st"
    using ok Some by (intro base_ok_settle holder_granted) (auto simp: mutex_ok_def)
  have "mutex_ok (release ?st)" by (rule release_ok [OF b]) (use Some in simp)
  moreover have "mutex_ok (?st\<lparr>m_holder := Some (h\<lparr>h_grace := g\<rparr>)\<rparr>)" for g
  proof -
    have a: "answered ?st (c_id (h_call h))" by simp
    show ?thesis using b Some a unfolding mutex_ok_def base_ok_def held_id_def waiting_ids_def answered_def
      by simp
  qed
  moreover have "mutex_ok ?st" using b Some by (simp add: mutex_ok_def)
  ultimately show ?thesis using Some ok by (simp add: abortActiveWalletCall_def Let_def)
qed (simp add: abortActiveWalletCall_def)

lemma fire_ok:
  assumes "mutex_ok st" "m_holder st = Some h"
  shows "mutex_ok (fire_timer h st)"
proof -
  let ?st = "st\<lparr>m_now := max (m_now st) (release_at h)\<rparr>"
  have b: "base_ok ?st" using assms by (simp add: mutex_ok_def base_ok_now)
  have c: "base_ok (settle (c_id (h_call h)) (Rejected WalletTimeout) ?st)"
    using b assms by (intro base_ok_settle holder_granted) auto
  have "mutex_ok (release (settle (c_id (h_call h)) (Rejected WalletTimeout) ?st))"
    by (rule release_ok [OF c]) (use assms in simp)
  moreover have "mutex_ok (release ?st)" if "release_at h \<noteq> ceiling_at h"
  proof (rule release_ok [OF b])
    fix h' assume "m_holder ?st = Some h'"
    then have "h' = h" using assms by simp
    moreover have "h_grace h \<noteq> None" using that by (auto simp: release_at_def split: option.splits)
    ultimately show "answered ?st (c_id (h_call h'))"
      using assms by (auto simp: mutex_ok_def base_ok_def answered_def)
  qed
  ultimately show ?thesis unfolding fire_timer_def Let_def by (simp only: split: if_split) blast
qed

lemma advance_ok: "mutex_ok st \<Longrightarrow> mutex_ok (advance t st)"
proof (induction t st rule: advance.induct)
  case (1 t st)
  show ?case
  proof (cases "m_holder st")
    case (Some h)
    then show ?thesis using 1 fire_ok [of st h]
      by (subst advance.simps) (auto simp: mutex_ok_def base_ok_now)
  qed (use 1 in \<open>subst advance.simps, simp add: mutex_ok_def base_ok_now\<close>)
qed

lemma lock_step_ok: "mutex_ok st \<Longrightarrow> mutex_ok (lock_step e st)"
  by (cases e) (simp_all add: request_ok fn_settles_ok abort_ok advance_ok forceResetWalletLock_def)

text \<open>Grants and answers are only ever added.\<close>

definition extends :: "'v mutex \<Rightarrow> 'v mutex \<Rightarrow> bool" where
  "extends st st' \<longleftrightarrow>
     (\<exists>more. m_granted st' = m_granted st @ more)
     \<and> (\<forall>i r. m_caller st i = Some r \<longrightarrow> m_caller st' i = Some r)
     \<and> (m_granted st' = m_granted st \<longrightarrow> held_id st' = held_id st \<or> held_id st' = None)"

lemma extends_trans:
  assumes "extends a b" "extends b c"
  shows "extends a c"
proof -
  obtain m1 m2 where m: "m_granted b = m_granted a @ m1" "m_granted c = m_granted a @ m1 @ m2"
    using assms by (auto simp: extends_def)
  then have "m_granted c = m_granted a \<Longrightarrow> m_granted b = m_granted a \<and> m_granted c = m_granted b" by simp
  then show ?thesis using assms m unfolding extends_def by (metis append_assoc)
qed

lemma extends_refl [simp]: "extends st st"
  by (simp add: extends_def)

lemma extends_settle [simp]: "extends st (settle i r st)"
  by (simp add: extends_def settle_def held_id_def)

lemma extends_same:
  "m_granted st' = m_granted st \<Longrightarrow> m_caller st' = m_caller st
    \<Longrightarrow> held_id st' = held_id st \<or> held_id st' = None \<Longrightarrow> extends st st'"
  by (auto simp: extends_def)

lemma extends_grant: "extends st (grant st)"
  by (auto simp: extends_def grant_def held_id_def split: option.splits list.splits)

lemma extends_release [simp]: "extends st (release st)"
  unfolding release_def
  by (rule extends_trans [OF extends_same extends_grant]) (simp_all add: held_id_def)

lemma extends_settle_release: "extends st (release (settle i r st))"
  by (rule extends_trans [OF extends_settle extends_release])

lemma extends_now: "extends st (st\<lparr>m_now := t\<rparr>)"
  by (rule extends_same) (simp_all add: held_id_def)

lemma extends_fire: "extends st (fire_timer h st)"
proof -
  let ?st = "st\<lparr>m_now := max (m_now st) (release_at h)\<rparr>"
  have "extends st (release (settle (c_id (h_call h)) (Rejected WalletTimeout) ?st))"
    by (rule extends_trans [OF extends_now extends_settle_release])
  moreover have "extends st (release ?st)"
    by (rule extends_trans [OF extends_now extends_release])
  ultimately show ?thesis unfolding fire_timer_def Let_def by (simp only: split: if_split) blast
qed

lemma extends_advance: "extends st (advance t st)"
proof (induction t st rule: advance.induct)
  case (1 t st)
  show ?case
  proof (cases "m_holder st")
    case None
    then show ?thesis by (subst advance.simps) (simp add: extends_now)
  next
    case (Some h)
    show ?thesis
    proof (cases "release_at h \<le> t")
      case True
      have "advance t st = advance t (fire_timer h st)" using Some True by (subst advance.simps) simp
      then show ?thesis using extends_trans [OF extends_fire "1.IH" [OF Some True]] by simp
    next
      case False
      then show ?thesis using Some by (subst advance.simps) (simp add: extends_now)
    qed
  qed
qed

lemma extends_abort: "extends st (snd (abortActiveWalletCall tab reason rl st))"
proof (cases "m_holder st")
  case (Some h)
  let ?st = "settle (c_id (h_call h)) (Rejected (WalletAborted reason)) st"
  have "extends st (?st\<lparr>m_holder := Some (h\<lparr>h_grace := g\<rparr>)\<rparr>)" for g
    by (rule extends_trans [OF extends_settle extends_same]) (simp_all add: held_id_def Some)
  then show ?thesis
    by (simp add: abortActiveWalletCall_def Some Let_def extends_settle_release)
qed (simp add: abortActiveWalletCall_def)

lemma extends_step: "extends st (lock_step e st)"
proof (cases e)
  case (Request tab label ceil)
  show ?thesis unfolding Request lock_step.simps withWalletLock_def Let_def
    by (rule extends_trans [OF extends_same extends_grant]) (simp_all add: held_id_def)
next
  case (FnSettles i r)
  show ?thesis by (simp add: FnSettles fn_settles_def Let_def extends_settle_release)
qed (simp_all add: extends_advance extends_abort forceResetWalletLock_def)

interpretation wallet: fifo_lock init_mutex lock_step m_next m_granted waiting_ids held_id answered mutex_ok
proof
  show "mutex_ok (init_mutex :: 'a mutex)" by (rule init_mutex_ok)
  show "m_granted (init_mutex :: 'a mutex) = []" by (simp add: init_mutex_def)
  fix st :: "'a mutex" and e i
  show "mutex_ok st \<Longrightarrow> mutex_ok (lock_step e st)" by (rule lock_step_ok)
  show "mutex_ok st \<Longrightarrow> \<exists>more. m_granted (lock_step e st) = m_granted st @ more"
    using extends_step [of st e] by (simp add: extends_def)
  show "mutex_ok st \<Longrightarrow> answered st i \<Longrightarrow> answered (lock_step e st) i"
    using extends_step [of st e] by (auto simp: extends_def answered_def)
  show "mutex_ok st \<Longrightarrow> m_granted st @ waiting_ids st = [0..<m_next st]"
    by (simp add: mutex_ok_def base_ok_def)
  show "mutex_ok st \<Longrightarrow> held_id st = None \<Longrightarrow> waiting_ids st = []"
    by (simp add: mutex_ok_def held_id_def waiting_ids_def)
  show "mutex_ok st \<Longrightarrow> held_id st = Some i \<Longrightarrow> m_granted st \<noteq> [] \<and> last (m_granted st) = i"
    by (auto simp: mutex_ok_def base_ok_def held_id_def)
  show "mutex_ok st \<Longrightarrow> i \<in> set (m_granted st) \<Longrightarrow> held_id st \<noteq> Some i \<Longrightarrow> answered st i"
    by (simp add: mutex_ok_def base_ok_def)
  show "mutex_ok st \<Longrightarrow> i \<in> set (waiting_ids st) \<Longrightarrow> \<not> answered st i"
    using distinct_order [of st] by (auto simp: mutex_ok_def)
qed


section \<open>Bounded holds\<close>

text \<open>By when the lock has served everyone, if no wallet promise ever settles: the ceilings of the
  holder and of the queue, one after the other.\<close>

definition drain_by :: "'v mutex \<Rightarrow> int" where
  "drain_by st =
     (case m_holder st of None \<Rightarrow> m_now st | Some h \<Rightarrow> max (m_now st) (ceiling_at h))
     + sum_list (map c_ceiling (m_queue st))"

definition ceilings_ok :: "'v mutex \<Rightarrow> bool" where
  "ceilings_ok st \<longleftrightarrow> (\<forall>c \<in> set (m_queue st). 0 \<le> c_ceiling c)"

lemma release_at_le: "release_at h \<le> ceiling_at h"
  by (simp add: release_at_def split: option.splits)

lemma fire_drain:
  assumes "m_holder st = Some h" "ceilings_ok st"
  shows "drain_by (fire_timer h st) \<le> drain_by st \<and> ceilings_ok (fire_timer h st)"
proof -
  have r: "drain_by (release st') \<le> drain_by st \<and> ceilings_ok (release st')"
    if "m_now st' = max (m_now st) (release_at h)" "m_queue st' = m_queue st" for st' :: "'a mutex"
  proof (cases "m_queue st")
    case Nil
    then show ?thesis using that assms release_at_le [of h]
      by (simp add: release_def grant_def drain_by_def ceilings_ok_def)
  next
    case (Cons c cs)
    then show ?thesis using that assms release_at_le [of h]
      by (auto simp: release_def grant_def drain_by_def ceilings_ok_def ceiling_at_def)
  qed
  let ?st = "st\<lparr>m_now := max (m_now st) (release_at h)\<rparr>"
  show ?thesis
    using r [of "settle (c_id (h_call h)) (Rejected WalletTimeout) ?st"] r [of ?st]
    unfolding fire_timer_def Let_def by (cases "release_at h = ceiling_at h") simp_all
qed

lemma advance_drains:
  "mutex_ok st \<Longrightarrow> ceilings_ok st \<Longrightarrow> drain_by st \<le> t \<Longrightarrow> m_holder (advance t st) = None"
proof (induction t st rule: advance.induct)
  case (1 t st)
  show ?case
  proof (cases "m_holder st")
    case None
    then show ?thesis by (subst advance.simps) simp
  next
    case (Some h)
    have "0 \<le> sum_list (map c_ceiling (m_queue st))"
      using "1.prems"(2) by (intro sum_list_nonneg) (auto simp: ceilings_ok_def)
    then have "ceiling_at h \<le> t" using "1.prems"(3) Some by (simp add: drain_by_def)
    then have le: "release_at h \<le> t" using release_at_le [of h] by linarith
    have "m_holder (advance t (fire_timer h st)) = None"
      using "1.IH" [OF Some le] fire_ok [OF "1.prems"(1) Some] fire_drain [OF Some "1.prems"(2)]
        "1.prems"(3) by simp
    then show ?thesis using Some le by (subst advance.simps) simp
  qed
qed

definition request_ceiling_ok :: "'v lock_event \<Rightarrow> bool" where
  "request_ceiling_ok e = (case e of Request _ _ (Some ms) \<Rightarrow> 0 \<le> ms | _ \<Rightarrow> True)"

lemma queue_grant: "set (m_queue (grant st)) \<subseteq> set (m_queue st)"
  by (auto simp: grant_def split: option.splits list.splits)

lemma queue_release: "set (m_queue (release st)) \<subseteq> set (m_queue st)"
  using queue_grant [of "st\<lparr>m_holder := None\<rparr>"] by (simp add: release_def)

lemma queue_advance: "set (m_queue (advance t st)) \<subseteq> set (m_queue st)"
proof (induction t st rule: advance.induct)
  case (1 t st)
  have f: "set (m_queue (fire_timer h st)) \<subseteq> set (m_queue st)" for h
    using queue_release [of "settle (c_id (h_call h)) (Rejected WalletTimeout)
        (st\<lparr>m_now := max (m_now st) (release_at h)\<rparr>)"]
      queue_release [of "st\<lparr>m_now := max (m_now st) (release_at h)\<rparr>"]
    unfolding fire_timer_def Let_def by (cases "release_at h = ceiling_at h") simp_all
  show ?case using 1 f by (subst advance.simps) (auto split: option.splits)
qed

lemma ceilings_step:
  assumes "ceilings_ok st" "request_ceiling_ok e"
  shows "ceilings_ok (lock_step e st)"
proof (cases e)
  case (Request tab label ceil)
  define c where "c = \<lparr>c_id = m_next st, c_tab = tab, c_label = label,
    c_ceiling = (case ceil of Some ms \<Rightarrow> ms | None \<Rightarrow> HOLD_CEILING_MS)\<rparr>"
  have "0 \<le> c_ceiling c"
    using assms(2) Request
    by (auto simp: c_def request_ceiling_ok_def HOLD_CEILING_MS_def split: option.splits)
  moreover have "lock_step e st = grant (st\<lparr>m_next := Suc (m_next st), m_queue := m_queue st @ [c]\<rparr>)"
    by (simp add: Request withWalletLock_def c_def)
  ultimately show ?thesis
    using assms(1) queue_grant [of "st\<lparr>m_next := Suc (m_next st), m_queue := m_queue st @ [c]\<rparr>"]
    by (auto simp: ceilings_ok_def)
next
  case (FnSettles i r)
  then show ?thesis using assms queue_release [of "settle i (wallet_outcome r) st"]
    by (auto simp: fn_settles_def ceilings_ok_def Let_def)
next
  case (Advance t)
  then show ?thesis using assms queue_advance [of t st] by (auto simp: ceilings_ok_def)
next
  case (Abort tab reason rl)
  then show ?thesis using assms queue_release
    by (fastforce simp: abortActiveWalletCall_def ceilings_ok_def Let_def split: option.splits)
next
  case (ForceReset tab)
  then show ?thesis using assms queue_release
    by (fastforce simp: forceResetWalletLock_def abortActiveWalletCall_def ceilings_ok_def Let_def
        split: option.splits)
qed

lemma ceilings_run:
  "\<forall>e \<in> set es. request_ceiling_ok e \<Longrightarrow> ceilings_ok (lock_run es)"
proof (induction es rule: rev_induct)
  case Nil
  then show ?case by (simp add: lock_run_def ceilings_ok_def init_mutex_def)
next
  case (snoc e es)
  then show ?case by (simp add: lock_run_def ceilings_step)
qed

lemma lock_run_wallet: "lock_run es = wallet.run es"
  by (simp add: lock_run_def wallet.run_def)

section \<open>The signing wrapper\<close>

text \<open>
  \<open>signWithWallet\<close> as the record it leaves: the start event, a heartbeat per interval until it finishes
  or is cancelled, a note on cancellation, and one final \<open>ack\<close> or \<open>error\<close>. \<open>withHardTimeout\<close> bounds
  the wallet promise; \<open>outcome\<close> is what the lock reports for the call, at \<open>finished\<close> milliseconds after
  the start.
\<close>

datatype sign_event = EvStart | EvHeartbeat int | EvNote int | EvAck int | EvError int

definition withHardTimeout :: "int \<Rightarrow> (int \<times> 'v settled) option \<Rightarrow> int \<times> 'v settled" where
  "withHardTimeout timeoutMs promise =
     (case promise of
        Some (d, r) \<Rightarrow> if d < timeoutMs then (d, r) else (timeoutMs, Rejected WalletTimeout)
      | None \<Rightarrow> (timeoutMs, Rejected WalletTimeout))"

definition beats :: "int \<Rightarrow> int \<Rightarrow> sign_event list" where
  "beats every stop =
     (if every \<le> 0 then [] else map (\<lambda>k. EvHeartbeat (int k * every)) [1..<nat ((stop - 1) div every + 1)])"

definition signWithWallet ::
  "int option \<Rightarrow> int option \<Rightarrow> int \<times> 'v settled \<Rightarrow> 'v settled \<times> sign_event list" where
  "signWithWallet heartbeatMs cancelledAt finish =
     (let (finished, res) = finish;
          hb = (case heartbeatMs of None \<Rightarrow> 0 | Some ms \<Rightarrow> ms);
          cut = (case cancelledAt of Some c \<Rightarrow> if c < finished then Some c else None | None \<Rightarrow> None);
          final = (case res of Resolved _ \<Rightarrow> EvAck finished | Rejected _ \<Rightarrow> EvError finished)
      in (res, EvStart #
           (case cut of None \<Rightarrow> beats hb finished | Some c \<Rightarrow> beats hb c @ [EvNote c]) @ [final]))"

section \<open>Properties\<close>

text \<open>C10. Wallet prompts are strictly serialised and first come, first served: in every run, the calls
  that ever got the lock are the first ones requested, in that order and without repetition; while one
  holds it, every earlier caller has been answered and no waiting caller has.\<close>

theorem wallet_calls_are_fifo:
  "\<exists>k \<le> m_next (lock_run es).
     m_granted (lock_run es) = [0..<k]
     \<and> waiting_ids (lock_run es) = [k..<m_next (lock_run es)]
     \<and> list_all (\<lambda>j. \<not> answered (lock_run es) j) [k..<m_next (lock_run es)]
     \<and> list_all (\<lambda>j. answered (lock_run es) j) [0..<k - 1]
     \<and> (held_id (lock_run es) = (if held_id (lock_run es) = None then None else Some (k - 1)))"
proof -
  obtain k where k: "m_granted (lock_run es) = [0..<k]" "k \<le> m_next (lock_run es)"
    using wallet.run_granted_prefix [of es] by (auto simp: lock_run_wallet)
  have ok: "mutex_ok (lock_run es)" using wallet.run_ok [of es] by (simp add: lock_run_wallet)
  have w: "waiting_ids (lock_run es) = [k..<m_next (lock_run es)]"
    using wallet.run_order [of es] k by (metis append_eq_conv_conj drop_upt add_0 length_upt diff_zero
        lock_run_wallet)
  have h: "held_id (lock_run es) = Some (k - 1)" if ne: "held_id (lock_run es) \<noteq> None"
  proof -
    obtain i where i: "held_id (lock_run es) = Some i" using ne by blast
    have "m_granted (lock_run es) \<noteq> []" "last (m_granted (lock_run es)) = i"
      using ok i by (auto simp: mutex_ok_def base_ok_def held_id_def)
    then show ?thesis using i k by auto
  qed
  have "answered (lock_run es) j" if "j < k - 1" for j
  proof -
    have "j \<in> set (m_granted (lock_run es))" "held_id (lock_run es) \<noteq> Some j"
      using that k(1) h by auto
    then show ?thesis using ok by (simp add: mutex_ok_def base_ok_def)
  qed
  then have "list_all (answered (lock_run es)) [0..<k - 1]" by (simp add: list_all_iff)
  moreover have "list_all (\<lambda>j. \<not> answered (lock_run es) j) [k..<m_next (lock_run es)]"
    using distinct_order(2) [of "lock_run es"] ok w by (auto simp: mutex_ok_def list_all_iff)
  ultimately show ?thesis using k w h by auto
qed

text \<open>C11. The lock cannot be held forever: from any point of any run, even if no wallet promise ever
  settles, once the ceilings of the holder and of the waiting calls have passed, the lock is free and
  every call ever requested has been answered.\<close>

theorem wallet_lock_always_drains:
  assumes "\<forall>e \<in> set es. request_ceiling_ok e" "drain_by (lock_run es) \<le> t"
  shows "held_id (advance t (lock_run es)) = None
    \<and> (\<forall>i < m_next (lock_run es). answered (advance t (lock_run es)) i)"
proof -
  have ok: "mutex_ok (lock_run es)" using wallet.run_ok [of es] by (simp add: lock_run_wallet)
  have n: "m_holder (advance t (lock_run es)) = None"
    by (rule advance_drains [OF ok ceilings_run [OF assms(1)] assms(2)])
  have ok': "mutex_ok (advance t (lock_run es))" by (rule advance_ok [OF ok])
  then have g: "m_granted (advance t (lock_run es)) = [0..<m_next (advance t (lock_run es))]"
    using n by (auto simp: mutex_ok_def base_ok_def waiting_ids_def)
  have "m_next (lock_run es) \<le> m_next (advance t (lock_run es))"
  proof -
    have "m_granted (lock_run es) @ waiting_ids (lock_run es) = [0..<m_next (lock_run es)]"
      using ok by (simp add: mutex_ok_def base_ok_def)
    have "m_next (advance t s) = m_next s" for s :: "'a mutex"
    proof (induction t s rule: advance.induct)
      case (1 t s)
      have r: "m_next (release x) = m_next x" for x :: "'a mutex"
        by (auto simp: release_def grant_def split: list.splits)
      have "m_next (fire_timer h s) = m_next s" for h
        by (simp add: fire_timer_def r Let_def)
      then show ?case using 1 by (subst advance.simps) (auto split: option.splits)
    qed
    then show ?thesis by simp
  qed
  then have "answered (advance t (lock_run es)) i" if "i < m_next (lock_run es)" for i
    using ok' n g that by (simp add: mutex_ok_def base_ok_def held_id_def)
  then show ?thesis using n by (simp add: held_id_def)
qed

theorem wallet_lock_always_drains_witness:
  "held_id (advance 700000 (lock_run [Request 0 ''order.sign'' None, Request 1 ''login'' None] :: nat mutex)) = None"
proof -
  let ?es = "[Request 0 ''order.sign'' None, Request 1 ''login'' None] :: nat lock_event list"
  have "drain_by (lock_run ?es) \<le> 700000"
    by (simp add: drain_by_def lock_run_def withWalletLock_def grant_def init_mutex_def ceiling_at_def
        HOLD_CEILING_MS_def Let_def)
  from wallet_lock_always_drains [OF _ this] show ?thesis
    by (simp add: request_ceiling_ok_def)
qed

text \<open>C12. Cancelling a prompt without releasing the lock answers the caller at once but keeps the lock
  on that call while the prompt may be live: until the earlier of the grace period and the ceiling if
  the wallet stays silent, and never longer than the grace period.\<close>

theorem cancel_keeps_lock_for_grace:
  fixes reason :: string
  assumes "mutex_ok st" "m_holder st = Some h" "h_grace h = None" "c_tab (h_call h) = tab"
  defines "st' \<equiv> snd (abortActiveWalletCall tab reason False st)" and "i \<equiv> c_id (h_call h)"
  shows "answered st' i \<and> held_id st' = Some i
    \<and> (t < min (m_now st + CANCEL_GRACE_MS) (ceiling_at h) \<longrightarrow> held_id (advance t st') = Some i)
    \<and> (m_now st + CANCEL_GRACE_MS \<le> t \<longrightarrow> held_id (advance t st') \<noteq> Some i)"
proof -
  define h' where "h' = h\<lparr>h_grace := Some (m_now st + CANCEL_GRACE_MS)\<rparr>"
  have st': "st' = (settle i (Rejected (WalletAborted reason)) st)\<lparr>m_holder := Some h'\<rparr>"
    using assms(2-4) by (simp add: st'_def abortActiveWalletCall_def i_def h'_def Let_def)
  have ok: "mutex_ok st'" unfolding st'_def by (rule abort_ok [OF assms(1)])
  have hold: "m_holder st' = Some h'" by (simp add: st')
  have ans: "answered st' i" by (simp add: st' answered_def settle_def)
  have id: "c_id (h_call h') = i" "release_at h' = min (m_now st + CANCEL_GRACE_MS) (ceiling_at h)"
    by (simp_all add: h'_def i_def release_at_def ceiling_at_def)
  have "held_id (advance t st') = Some i" if "t < release_at h'"
  proof -
    have "\<not> release_at h' \<le> t" using that by simp
    then show ?thesis using hold id(1) by (subst advance.simps) (simp add: held_id_def)
  qed
  moreover have "held_id (advance t st') \<noteq> Some i" if t: "release_at h' \<le> t"
  proof
    let ?f = "fire_timer h' st'"
    assume held: "held_id (advance t st') = Some i"
    have adv: "advance t st' = advance t ?f" using hold t by (subst advance.simps) simp
    have okf: "mutex_ok ?f" by (rule fire_ok [OF ok hold])
    have i_in: "i \<in> set (m_granted st')" using holder_granted [of st' h'] ok hold id by (simp add: mutex_ok_def)
    obtain m where m: "m_granted ?f = m_granted st' @ m"
      using extends_fire [of st' h'] unfolding extends_def by blast
    have oka: "mutex_ok (advance t ?f)" by (rule advance_ok [OF okf])
    obtain m' where m': "m_granted (advance t ?f) = m_granted ?f @ m'"
      using extends_advance [of ?f t] unfolding extends_def by blast
    have last: "last (m_granted (advance t ?f)) = i"
      using oka held adv by (auto simp: mutex_ok_def base_ok_def held_id_def)
    have dist: "distinct (m_granted (advance t ?f))"
      using oka by (metis mutex_ok_def base_ok_def distinct_append distinct_upt)
    have "m = []" "m' = []" using i_in last dist m m' by (auto simp: last_append split: if_splits)
    then have same: "held_id (advance t ?f) = held_id ?f \<or> held_id (advance t ?f) = None"
      using extends_advance [of ?f t] m' by (simp add: extends_def)
    have rel: "held_id (release x) \<noteq> Some i" if "m_granted (release x) = m_granted x" for x :: "'a mutex"
      using that by (auto simp: release_def grant_def held_id_def split: list.splits)
    have "held_id ?f \<noteq> Some i"
      using rel [of "settle (c_id (h_call h')) (Rejected WalletTimeout)
          (st'\<lparr>m_now := max (m_now st') (release_at h')\<rparr>)"]
        rel [of "st'\<lparr>m_now := max (m_now st') (release_at h')\<rparr>"] m \<open>m = []\<close>
      unfolding fire_timer_def Let_def by (simp split: if_splits)
    then show False using same held adv by simp
  qed
  ultimately show ?thesis using ans hold id by (auto simp: held_id_def)
qed

theorem cancel_keeps_lock_for_grace_witness:
  "held_id (advance 9999 (snd (abortActiveWalletCall 0 ''user cancelled signing'' False
      (lock_run [Request 0 ''order.sign'' None] :: nat mutex)))) = Some 0
   \<and> held_id (advance 10000 (snd (abortActiveWalletCall 0 ''user cancelled signing'' False
      (lock_run [Request 0 ''order.sign'' None] :: nat mutex)))) \<noteq> Some 0"
proof -
  let ?st = "lock_run [Request 0 ''order.sign'' None] :: nat mutex"
  define c where "c = \<lparr>c_id = 0, c_tab = 0, c_label = ''order.sign'', c_ceiling = HOLD_CEILING_MS\<rparr>"
  have s: "m_holder ?st = Some \<lparr>h_call = c, h_since = 0, h_grace = None\<rparr>" "m_now ?st = 0"
    by (simp_all add: lock_run_def withWalletLock_def grant_def init_mutex_def c_def)
  have ok: "mutex_ok ?st" using wallet.run_ok by (simp add: lock_run_wallet)
  from cancel_keeps_lock_for_grace [OF ok s(1)] show ?thesis
    by (simp add: c_def s(2) CANCEL_GRACE_MS_def ceiling_at_def HOLD_CEILING_MS_def)
qed

text \<open>A call that goes through \<open>signWithWallet\<close> with the default timeout is always over before the
  ceiling of the lock: its promise settles by itself, at the latest at the hard timeout.\<close>

theorem sign_timeout_before_ceiling:
  "fst (withHardTimeout DEFAULT_TIMEOUT_MS p) \<le> DEFAULT_TIMEOUT_MS
   \<and> DEFAULT_TIMEOUT_MS < HOLD_CEILING_MS
   \<and> hd (snd (signWithWallet hb c (withHardTimeout DEFAULT_TIMEOUT_MS p))) = EvStart
   \<and> last (snd (signWithWallet hb c (withHardTimeout DEFAULT_TIMEOUT_MS p)))
       \<in> {EvAck (fst (withHardTimeout DEFAULT_TIMEOUT_MS p)), EvError (fst (withHardTimeout DEFAULT_TIMEOUT_MS p))}"
  by (auto simp: withHardTimeout_def DEFAULT_TIMEOUT_MS_def HOLD_CEILING_MS_def signWithWallet_def
      Let_def split: option.splits prod.splits settled.splits)

end
