(* ===== verification/BookPrices.thy ===== *)
theory BookPrices
  imports OrderProtocol
begin

text \<open>
  The price and text helpers of \<open>src/web/lib/utils.ts\<close>: the best prices of an order book, alone and
  merged with the user's open orders, the tick grid, the conversions between numbers and scaled
  integers, identifiers, signatures and the message a Hedera wallet signs.
\<close>

section \<open>Best prices of a book\<close>

record best_prices =
  bestBid :: jsn
  bestAsk :: jsn
  bestYesBid :: jsn
  bestNoBid :: jsn
  bestYesAsk :: jsn
  bestNoAsk :: jsn
  yesProbability :: jsn
  hasYesBids :: bool
  hasNoBids :: bool

definition or_half :: "jsn option \<Rightarrow> jsn" where
  "or_half x = (case x of Some v \<Rightarrow> v | None \<Rightarrow> lit (1 / 2))"

definition best_prices_of :: "LegacyBook \<Rightarrow> best_prices" where
  "best_prices_of book =
     (let hasYes = (bids book \<noteq> []);
          hasNo = (asks book \<noteq> []);
          yesBid = (if hasYes then Some (jmax_list (map priceUsd (bids book))) else None);
          noBid = (if hasNo then Some (1 - jmin_list (map (abs \<circ> priceUsd) (asks book))) else None);
          yesAsk = map_option (\<lambda>b. 1 - b) noBid;
          noAsk = map_option (\<lambda>b. 1 - b) yesBid;
          prob = (case (yesBid, yesAsk) of
                    (Some b, Some a) \<Rightarrow> (b + a) / lit 2
                  | (Some b, None) \<Rightarrow> b
                  | (None, Some a) \<Rightarrow> a
                  | (None, None) \<Rightarrow> lit (1 / 2))
      in \<lparr>bestBid = or_half yesBid, bestAsk = or_half yesAsk, bestYesBid = or_half yesBid,
          bestNoBid = or_half noBid, bestYesAsk = or_half yesAsk, bestNoAsk = or_half noAsk,
          yesProbability = prob, hasYesBids = hasYes, hasNoBids = hasNo\<rparr>)"

definition getBestPricesFromBook :: "BookSnapshot \<Rightarrow> best_prices" where
  "getBestPricesFromBook rawBook = best_prices_of (toLegacyBook (Some rawBook) 6)"

text \<open>The open orders that are not in the book yet and still have a remainder join the side the sign of
  their price says.\<close>

definition extra_orders :: "string set \<Rightarrow> any_order list \<Rightarrow> LegacyOrder list" where
  "extra_orders known intents =
     filter (\<lambda>i. \<not> (lo_txId i \<in> known \<or> lo_qty i \<le> 0)) (map (\<lambda>r. toLegacyOrder r 6) intents)"

definition getBestPricesFromBookWithIntents :: "BookSnapshot \<Rightarrow> any_order list \<Rightarrow> best_prices" where
  "getBestPricesFromBookWithIntents book intents =
     (let legacy = toLegacyBook (Some book) 6;
          known = set (map lo_txId (bids legacy @ asks legacy));
          extra = extra_orders known intents
      in getBestPricesFromBook
           \<lparr>sb_bids = map AnyLegacy (bids legacy @ filter (\<lambda>i. priceUsd i \<ge> 0) extra),
            sb_asks = map AnyLegacy (asks legacy @ filter (\<lambda>i. \<not> priceUsd i \<ge> 0) extra)\<rparr>)"

section \<open>Ticks\<close>

definition getTickSize :: "jsn \<Rightarrow> jsn" where
  "getTickSize price =
     (if price < lit (5 / 100) \<or> price > lit (95 / 100) then lit (1 / 1000) else lit (1 / 100))"

definition inverse_tick :: "jsn \<Rightarrow> jsn" where
  "inverse_tick price = jround (1 / getTickSize price)"

text \<open>The literal \<open>1e-9\<close> keeps the scaled price above the tie.\<close>

definition snap_to :: "jsn \<Rightarrow> jsn \<Rightarrow> jsn" where
  "snap_to k price = jround (price * k + lit (1 / 10 ^ 9)) / k"

definition roundToTick :: "jsn \<Rightarrow> jsn" where
  "roundToTick price =
     (let snapped = snap_to (inverse_tick price) price
      in number_of_string (to_fixed (snap_to (inverse_tick snapped) snapped) 3))"

definition getPriceDecimals :: "jsn \<Rightarrow> nat" where
  "getPriceDecimals price = (if price < lit (5 / 100) \<or> price > lit (95 / 100) then 3 else 2)"

section \<open>Scaled integers\<close>

definition floatToBigIntScaledDecimals :: "jsn \<Rightarrow> nat \<Rightarrow> int result" where
  "floatToBigIntScaledDecimals v nDecimals = bigint_of_num (jround (v * pow10 nDecimals))"

text \<open>\<open>s.slice(0, -n)\<close> and \<open>s.slice(-n)\<close>; for \<open>n = 0\<close> the first is empty and the second is all of \<open>s\<close>.\<close>

definition slice_to_last :: "nat \<Rightarrow> string \<Rightarrow> string" where
  "slice_to_last n s = (if n = 0 then [] else take (length s - n) s)"

definition slice_from_last :: "nat \<Rightarrow> string \<Rightarrow> string" where
  "slice_from_last n s = (if n = 0 then s else slice_last n s)"

definition bigIntScaledDecimalsToFloat :: "int \<Rightarrow> nat \<Rightarrow> jsn" where
  "bigIntScaledDecimalsToFloat v nDecimals =
     (let valueStr = pad_start (nDecimals + 1) (CHR ''0'') (string_of_int v)
      in parse_float (slice_to_last nDecimals valueStr @ CHR ''.'' # slice_from_last nDecimals valueStr))"

section \<open>Identifiers, signatures and messages\<close>

text \<open>The loop appends one character per byte; \<open>btoa\<close> encodes the character codes.\<close>

fun binary_string :: "bytes \<Rightarrow> string \<Rightarrow> string" where
  "binary_string [] acc = acc"
| "binary_string (b # bs) acc = binary_string bs (acc @ [char_of b])"

definition btoa :: "string \<Rightarrow> string" where
  "btoa s = base64 (map code_of s)"

definition uint8ToBase64 :: "bytes \<Rightarrow> string" where
  "uint8ToBase64 bs = btoa (binary_string bs [])"

datatype sig_value = SigString string | SigBytes bytes | SigBuffer bytes

fun normalizeSignatureBase64 :: "sig_value \<Rightarrow> string" where
  "normalizeSignatureBase64 (SigString s) = s"
| "normalizeSignatureBase64 (SigBytes b) = base64 b"
| "normalizeSignatureBase64 (SigBuffer b) = base64 b"

definition uuidToBigInt :: "string \<Rightarrow> int result" where
  "uuidToBigInt uuid7_str = bigint_of_string (''0x'' @ remove_dashes uuid7_str)"

definition is_hex_lower :: "char \<Rightarrow> bool" where
  "is_hex_lower c \<longleftrightarrow> is_digit c \<or> (97 \<le> code_of c \<and> code_of c \<le> 102)"

text \<open>The pattern of a version 7 identifier, one character class per position; the flag \<open>i\<close> matches
  the lower-case form.\<close>

definition uuidv7_classes :: "(char \<Rightarrow> bool) list" where
  "uuidv7_classes =
     replicate 8 is_hex_lower @ [(=) (CHR ''-'')] @ replicate 4 is_hex_lower @ [(=) (CHR ''-'')]
     @ [(=) (CHR ''7'')] @ replicate 3 is_hex_lower @ [(=) (CHR ''-'')]
     @ [\<lambda>c. c \<in> set ''89ab''] @ replicate 3 is_hex_lower @ [(=) (CHR ''-'')]
     @ replicate 12 is_hex_lower"

definition uuidv7_regex :: rx where
  "uuidv7_regex = rseq (map RSet uuidv7_classes)"

definition isValidUUIDv7 :: "string \<Rightarrow> bool" where
  "isValidUUIDv7 uuid = rx_full uuidv7_regex (to_lower uuid)"

record hedera_message =
  keccakHex :: string
  keccakB64 :: string
  prefixedMessage :: string

definition hederaMessageToSignFromPayloadHex :: "(bytes \<Rightarrow> string) \<Rightarrow> string \<Rightarrow> hedera_message" where
  "hederaMessageToSignFromPayloadHex keccak256 packedHex =
     (let payloadBytes = bytes_of_hex packedHex;
          hex = keccak256 payloadBytes;
          b64 = base64 (bytes_of_hex (drop 2 hex))
      in \<lparr>keccakHex = hex, keccakB64 = b64,
          prefixedMessage = CHR 0x19 # ''Hedera Signed Message:'' @ CHR 0x0A # ''44'' @ b64\<rparr>)"

definition keyTypeToInt :: "string \<Rightarrow> int result" where
  "keyTypeToInt keyType =
     (if keyType = ''ED25519'' then Inr 1
      else if keyType = ''ECDSA_SECP256K1'' then Inr 2
      else Inl (JsError (''Unsupported key type: '' @ keyType)))"

definition formatNumberShort :: "jsn \<Rightarrow> string" where
  "formatNumberShort num =
     (if num \<ge> lit 1000000000 then to_fixed (num / lit 1000000000) 2 @ ''B''
      else if num \<ge> lit 1000000 then to_fixed (num / lit 1000000) 2 @ ''M''
      else if num \<ge> lit 1000 then to_fixed (num / lit 1000) 2 @ ''K''
      else to_fixed num 2)"


section \<open>Maxima and minima of finite prices\<close>

lemma jmax_num [simp]: "jmax (JNum a) (JNum b) = JNum (max a b)"
  by (simp add: jmax_def max_def)

lemma jmin_num [simp]: "jmin (JNum a) (JNum b) = JNum (min a b)"
  by (auto simp: jmin_def min_def)

lemma foldl_jmax: "foldl jmax (JNum a) (map JNum xs) = JNum (Max (set (a # xs)))"
proof (induction xs arbitrary: a)
  case (Cons x xs)
  then show ?case by (cases "xs = []") (simp_all add: max.assoc)
qed simp

lemma foldl_jmin: "foldl jmin (JNum a) (map JNum xs) = JNum (Min (set (a # xs)))"
proof (induction xs arbitrary: a)
  case (Cons x xs)
  then show ?case by (cases "xs = []") (simp_all add: min.assoc)
qed simp

lemma jmax_list_num:
  assumes "xs \<noteq> []"
  shows "jmax_list (map JNum xs) = JNum (Max (set xs))"
proof -
  obtain a ys where xs: "xs = a # ys" using assms by (cases xs) auto
  have "jmax JNInf (JNum a) = JNum a" by (simp add: jmax_def)
  then show ?thesis using foldl_jmax [of a ys] by (simp add: jmax_list_def xs)
qed

lemma jmin_list_num:
  assumes "xs \<noteq> []"
  shows "jmin_list (map JNum xs) = JNum (Min (set xs))"
proof -
  obtain a ys where xs: "xs = a # ys" using assms by (cases xs) auto
  have "jmin JInf (JNum a) = JNum a" by (simp add: jmin_def)
  then show ?thesis using foldl_jmin [of a ys] by (simp add: jmin_list_def xs)
qed

lemma Max_mono_image:
  fixes f :: "int \<Rightarrow> rat"
  assumes "mono f" "finite A" "A \<noteq> {}"
  shows "Max (f ` A) = f (Max A)" "Min (f ` A) = f (Min A)"
  using mono_Max_commute [OF assms] mono_Min_commute [OF assms] by simp_all

section \<open>Books on the integer grid\<close>

definition grid :: "int \<Rightarrow> rat" where
  "grid k = fl (of_int k / 1000000)"

lemma mono_grid: "mono grid"
  unfolding grid_def by (intro monoI fl_mono) (simp add: divide_right_mono)

definition limit_ok :: "OrderDetail \<Rightarrow> bool" where
  "limit_ok d \<longleftrightarrow> 0 \<le> od_limitYesPrice d \<and> od_limitYesPrice d \<le> PRICE_SCALE"

text \<open>A snapshot as the matching engine keeps it: limits in range, each order on its side.\<close>

definition proper_book :: "OrderDetail list \<Rightarrow> OrderDetail list \<Rightarrow> bool" where
  "proper_book bs as \<longleftrightarrow>
     list_all (\<lambda>d. limit_ok d \<and> isBidSide (od_side d) (od_action d)) bs
     \<and> list_all (\<lambda>d. limit_ok d \<and> \<not> isBidSide (od_side d) (od_action d)) as"

definition snapshot :: "OrderDetail list \<Rightarrow> OrderDetail list \<Rightarrow> BookSnapshot" where
  "snapshot bs as = \<lparr>sb_bids = map AnyDetail bs, sb_asks = map AnyDetail as\<rparr>"

lemma scaled_limit:
  assumes "0 \<le> k" "k \<le> 1000000"
  shows "num_of_bigint k / lit 1000000 = JNum (grid k)"
proof -
  have "num_of_bigint k = JNum (of_int k)" using assms by (simp add: num_of_bigint_def jsfin_int)
  then show ?thesis using grid_price(1) [OF assms] by (simp add: scale_literal grid_def)
qed

lemma legacy_price_grid:
  assumes "limit_ok d"
  shows "legacy_price (od_side d) (od_action d) (od_limitYesPrice d) =
    (if isBidSide (od_side d) (od_action d) then JNum (grid (od_limitYesPrice d))
     else JNum (- grid (od_limitYesPrice d)))"
  using assms by (simp add: legacy_price_def scaled_limit limit_ok_def js_simps)

definition limits :: "OrderDetail list \<Rightarrow> int set" where
  "limits ds = od_limitYesPrice ` set ds"

lemma grid_range:
  assumes "limit_ok d"
  shows "0 \<le> grid (od_limitYesPrice d)" "grid (od_limitYesPrice d) \<le> 1"
  using assms grid_price(2,3) [of "od_limitYesPrice d"] by (simp_all add: limit_ok_def grid_def js_simps)

lemma limits_range:
  assumes "list_all limit_ok ds" "k \<in> limits ds"
  shows "0 \<le> k" "k \<le> 1000000"
  using assms by (auto simp: limits_def limit_ok_def list_all_iff js_simps)

lemma best_bid_grid:
  assumes "list_all (\<lambda>d. limit_ok d \<and> isBidSide (od_side d) (od_action d)) ds" "ds \<noteq> []"
  shows "jmax_list (map priceUsd (map (\<lambda>o'. toLegacyOrder o' 6) (map AnyDetail ds)))
    = JNum (grid (Max (limits ds)))"
proof -
  have "map priceUsd (map (\<lambda>o'. toLegacyOrder o' 6) (map AnyDetail ds))
      = map JNum (map (grid \<circ> od_limitYesPrice) ds)"
    using assms(1) by (auto simp: list_all_iff legacy_price_grid)
  moreover have "Max (set (map (grid \<circ> od_limitYesPrice) ds)) = grid (Max (limits ds))"
    using Max_mono_image(1) [OF mono_grid, of "limits ds"] assms(2)
    by (simp add: limits_def image_comp)
  ultimately show ?thesis using jmax_list_num [of "map (grid \<circ> od_limitYesPrice) ds"] assms(2)
    by (simp only: map_is_Nil_conv simp_thms)
qed

lemma best_ask_grid:
  assumes "list_all (\<lambda>d. limit_ok d \<and> \<not> isBidSide (od_side d) (od_action d)) ds" "ds \<noteq> []"
  shows "jmin_list (map (abs \<circ> priceUsd) (map (\<lambda>o'. toLegacyOrder o' 6) (map AnyDetail ds)))
    = JNum (grid (Min (limits ds)))"
proof -
  have "map (abs \<circ> priceUsd) (map (\<lambda>o'. toLegacyOrder o' 6) (map AnyDetail ds))
      = map JNum (map (grid \<circ> od_limitYesPrice) ds)"
    using assms(1) grid_range by (auto simp: list_all_iff legacy_price_grid)
  moreover have "Min (set (map (grid \<circ> od_limitYesPrice) ds)) = grid (Min (limits ds))"
    using Max_mono_image(2) [OF mono_grid, of "limits ds"] assms(2)
    by (simp add: limits_def image_comp)
  ultimately show ?thesis using jmin_list_num [of "map (grid \<circ> od_limitYesPrice) ds"] assms(2)
    by (simp only: map_is_Nil_conv simp_thms)
qed

text \<open>The price of a level, once and twice complemented.\<close>

lemma complement_twice:
  assumes "0 \<le> k" "k \<le> 1000000"
  shows "\<exists>c d. JNum 1 - JNum (grid k) = JNum c \<and> JNum 1 - JNum c = JNum d
    \<and> 0 \<le> c \<and> c \<le> 1 \<and> \<bar>c * 1000000 - of_int (1000000 - k)\<bar> \<le> 1 / 8
    \<and> 0 \<le> d \<and> d \<le> 1 \<and> \<bar>d * 1000000 - of_int k\<bar> \<le> 1 / 8"
proof -
  note g = grid_price [OF assms, folded grid_def]
  let ?c = "fl (1 - grid k)"
  let ?d = "fl (1 - ?c)"
  have u: "0 \<le> 1 - grid k" "1 - grid k \<le> 1" using g by simp_all
  have c: "0 \<le> ?c" "?c \<le> 1" using fl.rd_unit [OF u] by simp_all
  then have v: "0 \<le> 1 - ?c" "1 - ?c \<le> 1" by simp_all
  have d: "0 \<le> ?d" "?d \<le> 1" using fl.rd_unit [OF v] by simp_all
  have num: "(1::rat) / 2 ^ 53 * 1000000 + 1 / 2 ^ 53 * 1000000 + 1 / 2 ^ 30 \<le> 1 / 8" by simp
  have "\<bar>?c * 1000000 - of_int (1000000 - k)\<bar> \<le> 1 / 8"
    using g(4) fl_unit_error [OF u] num unfolding of_int_diff of_int_numeral by linarith
  moreover have "\<bar>?d * 1000000 - of_int k\<bar> \<le> 1 / 8"
    using g(4) fl_unit_error [OF u] fl_unit_error [OF v] num unfolding of_int_diff of_int_numeral
    by linarith
  moreover have "JNum 1 - JNum (grid k) = JNum ?c" "JNum 1 - JNum ?c = JNum ?d"
    using u v by (simp_all add: jsfin_unit)
  ultimately show ?thesis using c d by blast
qed

lemma toLimit_near:
  assumes "0 \<le> k" "k \<le> 1000000" "\<bar>x * 1000000 - of_int k\<bar> \<le> 1 / 8"
  shows "toLimitYesPrice OYes (JNum x) = Inr k" "toLimitYesPrice ONo (JNum x) = Inr (1000000 - k)"
  using scaled_price_near [of k x] assms
  by (simp_all add: toLimitYesPrice_scaled clamp_price_id js_simps)

text \<open>The fields of the best prices, for each side present.\<close>

lemma best_prices_bid:
  assumes "proper_book bs as" "bs \<noteq> []"
  shows "bestYesBid (getBestPricesFromBook (snapshot bs as)) = JNum (grid (Max (limits bs)))"
    "bestNoAsk (getBestPricesFromBook (snapshot bs as)) = JNum 1 - JNum (grid (Max (limits bs)))"
proof -
  note b = best_bid_grid [OF _ assms(2)]
  have "list_all (\<lambda>d. limit_ok d \<and> isBidSide (od_side d) (od_action d)) bs"
    using assms(1) by (simp add: proper_book_def)
  then show "bestYesBid (getBestPricesFromBook (snapshot bs as)) = JNum (grid (Max (limits bs)))"
    "bestNoAsk (getBestPricesFromBook (snapshot bs as)) = JNum 1 - JNum (grid (Max (limits bs)))"
    using b assms(2)
    by (simp_all add: getBestPricesFromBook_def best_prices_of_def Let_def toLegacyBook_def
        snapshot_def or_half_def one_jsn_def del: minus_num)
qed

lemma best_prices_ask:
  assumes "proper_book bs as" "as \<noteq> []"
  shows "bestNoBid (getBestPricesFromBook (snapshot bs as)) = JNum 1 - JNum (grid (Min (limits as)))"
    "bestYesAsk (getBestPricesFromBook (snapshot bs as))
       = JNum 1 - (JNum 1 - JNum (grid (Min (limits as))))"
proof -
  note b = best_ask_grid [OF _ assms(2)]
  have "list_all (\<lambda>d. limit_ok d \<and> \<not> isBidSide (od_side d) (od_action d)) as"
    using assms(1) by (simp add: proper_book_def)
  then show "bestNoBid (getBestPricesFromBook (snapshot bs as)) = JNum 1 - JNum (grid (Min (limits as)))"
    "bestYesAsk (getBestPricesFromBook (snapshot bs as))
       = JNum 1 - (JNum 1 - JNum (grid (Min (limits as))))"
    using b assms(2)
    by (simp_all add: getBestPricesFromBook_def best_prices_of_def Let_def toLegacyBook_def
        snapshot_def or_half_def one_jsn_def del: minus_num)
qed


section \<open>Snapping to the tick grid\<close>

lemma tick_consts:
  "jsfin (1 / 10 ^ 9) = JNum (fl (1 / 10 ^ 9))" "0 \<le> fl (1 / 10 ^ 9)" "fl (1 / 10 ^ 9) \<le> 1 / 1024"
proof -
  have e: "fl (1 / 2 ^ 10) = 1 / 2 ^ 10" using fl_dyadic [of 1 10] by simp
  show "jsfin (1 / 10 ^ 9) = JNum (fl (1 / 10 ^ 9))" by (rule jsfin_unit) simp
  show "0 \<le> fl (1 / 10 ^ 9)" by (rule fl_nonneg) simp
  show "fl (1 / 10 ^ 9) \<le> 1 / 1024" using fl.rd_le [OF e, of "1 / 10 ^ 9"] by simp
qed

lemma inverse_ticks: "jround (1 / lit (1 / 1000)) = JNum 1000" "jround (1 / lit (1 / 100)) = JNum 100"
  by code_simp+

lemma fl_small_error:
  assumes "0 \<le> x" "x \<le> 1024"
  shows "\<bar>fl x - x\<bar> \<le> 1 / 2 ^ 42"
proof (cases "x = 0")
  case False
  then have "0 < x" "x < 2 powi 11" using assms by simp_all
  then have "rat_log2 x < 11" by (rule rat_log2_less)
  then have "ulp_exp x \<le> - 42 + 1" using \<open>0 < x\<close> by (simp add: ulp_exp_def)
  then have "(2::rat) powi ulp_exp x \<le> 2 powi (- 41)" by (intro power_int_increasing) auto
  moreover have "(2::rat) powi (- 41) = 1 / 2 ^ 41"
    using power_int_minus_divide [of "2::rat" "int 41"] unfolding power_int_of_nat by simp
  ultimately have "2 powi ulp_exp x / 2 \<le> (1::rat) / 2 ^ 42" by simp
  then show ?thesis using fl_error_ulp [of x] by linarith
qed simp

text \<open>The integer a price snaps to: within half a tick (and the epsilon), and the nearest one when the
  scaled price is close to it.\<close>

lemma snap_int:
  assumes p: "0 \<le> p" "p \<le> 1" and s: "s = 100 \<or> s = 1000"
  obtains m where "jround (JNum p * JNum (of_int s) + lit (1 / 10 ^ 9)) = JNum (of_int m)"
    "0 \<le> m" "m \<le> s" "\<bar>of_int m - p * of_int s\<bar> \<le> 1 / 2 + 1 / 500"
    "\<And>k. \<bar>p * of_int s - of_int k\<bar> \<le> 1 / 1000 \<Longrightarrow> m = k"
proof -
  let ?s = "of_int s :: rat"
  define a where "a = fl (p * ?s)"
  define b where "b = fl (a + fl (1 / 10 ^ 9))"
  have s1: "?s \<le> 1000" "0 < ?s" "\<bar>s\<bar> \<le> 2 ^ 53" using s by auto
  have ps: "0 \<le> p * ?s" "p * ?s \<le> ?s" using p s1 mult_right_mono [of p 1 ?s] by simp_all
  have a: "0 \<le> a" "a \<le> ?s" "\<bar>a - p * ?s\<bar> \<le> 1 / 2 ^ 42"
    using fl.rd_nonneg [OF ps(1)] fl.rd_le [OF fl_of_int [OF s1(3)] ps(2)]
      fl_small_error [OF ps(1)] ps s1 by (simp_all add: a_def)
  have sum: "0 \<le> a + fl (1 / 10 ^ 9)" "a + fl (1 / 10 ^ 9) \<le> 1024"
    using a(1,2) tick_consts s1 by linarith+
  have b: "0 \<le> b" "\<bar>b - (a + fl (1 / 10 ^ 9))\<bar> \<le> 1 / 2 ^ 42"
    using fl.rd_nonneg [OF sum(1)] fl_small_error [OF sum] by (simp_all add: b_def)
  define m where "m = \<lfloor>b + 1 / 2\<rfloor>"
  have num: "(1::rat) / 2 ^ 42 + 1 / 2 ^ 42 + 1 / 1024 \<le> 1 / 999" by simp
  have near: "\<bar>b - p * ?s\<bar> \<le> 1 / 999"
    using a(3) b(2) tick_consts(2,3) num by linarith
  have e: "JNum p * JNum ?s = JNum a"
    using jsfin_small(1) [of "p * ?s" 1000] ps s1 by (simp add: a_def)
  have e2: "JNum a + lit (1 / 10 ^ 9) = JNum b"
    using jsfin_small(1) [of "a + fl (1 / 10 ^ 9)" 1024] sum
    unfolding tick_consts(1) plus_jsn.simps b_def by simp
  show thesis
  proof
    show "jround (JNum p * JNum ?s + lit (1 / 10 ^ 9)) = JNum (of_int m)"
      unfolding e e2 jround.simps m_def ..
    show "0 \<le> m" using b(1) by (simp add: m_def)
    have "b + 1 / 2 < ?s + 1" using near ps by linarith
    then have "b + 1 / 2 < of_int (s + 1)" by simp
    then show "m \<le> s" unfolding m_def by (metis floor_less_iff zless_add1_eq order_le_less)
    have "of_int m \<le> b + 1 / 2" "b + 1 / 2 < of_int m + 1"
      unfolding m_def by linarith+
    then show "\<bar>of_int m - p * ?s\<bar> \<le> 1 / 2 + 1 / 500" using near by linarith
    show "m = k" if "\<bar>p * ?s - of_int k\<bar> \<le> 1 / 1000" for k
    proof -
      have "\<bar>b - of_int k\<bar> < 1 / 2" using near that by linarith
      then show ?thesis unfolding m_def by (rule floor_half_up_int)
    qed
  qed
qed

text \<open>A tick price: a multiple of one tenth of a cent, and of a whole cent between 5 and 95 cents.\<close>

definition valid_tick :: "int \<Rightarrow> bool" where
  "valid_tick n \<longleftrightarrow> 0 \<le> n \<and> n \<le> 1000 \<and> (50 \<le> n \<and> n \<le> 950 \<longrightarrow> 10 dvd n)"

definition tick_price :: "int \<Rightarrow> rat" where
  "tick_price n = fl (of_int n / 1000)"

lemma tick_price_props:
  assumes "0 \<le> n" "n \<le> 1000"
  shows "lit (of_int n / 1000) = JNum (tick_price n)" "0 \<le> tick_price n" "tick_price n \<le> 1"
    "\<bar>tick_price n * 1000 - of_int n\<bar> \<le> 1 / 2 ^ 40"
proof -
  have q: "0 \<le> of_int n / (1000 :: rat)" "of_int n / (1000 :: rat) \<le> 1" using assms by simp_all
  show "lit (of_int n / 1000) = JNum (tick_price n)"
    unfolding tick_price_def by (rule jsfin_unit) (use q in simp)
  show "0 \<le> tick_price n" "tick_price n \<le> 1" using fl.rd_unit [OF q] by (simp_all add: tick_price_def)
  have "\<bar>fl (of_int n / of_int 1000) * of_int 1000 - of_int n\<bar> \<le> of_int \<bar>n\<bar> / 2 ^ 53"
    by (rule fl.scaled_error) simp_all
  also have "\<dots> \<le> 1 / 2 ^ 40" using assms by simp
  finally show "\<bar>tick_price n * 1000 - of_int n\<bar> \<le> 1 / 2 ^ 40" by (simp add: tick_price_def)
qed

text \<open>The tick of a price is decided by comparisons with rounded constants, which agree with the
  integers.\<close>

definition edge_price :: "rat \<Rightarrow> bool" where
  "edge_price p \<longleftrightarrow> p < tick_price 50 \<or> tick_price 950 < p"

lemma inverse_tick_num:
  "inverse_tick (JNum p) = JNum (of_int (if edge_price p then 1000 else 100))"
proof -
  have l: "lit (1 / 20) = JNum (tick_price 50)" "lit (19 / 20) = JNum (tick_price 950)"
    using tick_price_props(1) [of 50] tick_price_props(1) [of 950] by simp_all
  show ?thesis by (simp add: inverse_tick_def getTickSize_def l edge_price_def inverse_ticks)
qed

lemma tick_price_less:
  assumes "m < n" "0 \<le> m" "n \<le> 1000"
  shows "tick_price m < tick_price n"
proof -
  have n: "(1::rat) / 2 ^ 40 + 1 / 2 ^ 40 < 1" by simp
  have "of_int m + 1 \<le> (of_int n :: rat)" using assms(1) by linarith
  then have "tick_price m * 1000 < tick_price n * 1000"
    using tick_price_props(4) [of m] tick_price_props(4) [of n] assms n by linarith
  then show ?thesis by simp
qed

lemma edge_tick_price:
  assumes "0 \<le> n" "n \<le> 1000"
  shows "edge_price (tick_price n) \<longleftrightarrow> n < 50 \<or> 950 < n"
proof -
  consider "n < 50" | "n = 50" | "50 < n" "n < 950" | "n = 950" | "950 < n" by linarith
  then show ?thesis
    using tick_price_less [of n 50] tick_price_less [of 50 n] tick_price_less [of n 950]
      tick_price_less [of 950 n] assms tick_price_less [of 50 950]
    by cases (auto simp: edge_price_def)
qed

lemma to_fixed_tick:
  assumes "0 \<le> n" "n \<le> 1000"
  shows "number_of_string (to_fixed (JNum (tick_price n)) 3) = JNum (tick_price n)"
proof -
  note t = tick_price_props [OF assms]
  have "\<bar>tick_price n * 10 ^ 3 - of_int n\<bar> < 1 / 2"
  proof -
    have "(1::rat) / 2 ^ 40 < 1 / 2" by simp
    then show ?thesis using t(4) by simp
  qed
  then have "\<lfloor>tick_price n * 10 ^ 3 + 1 / 2\<rfloor> = n" by (rule floor_half_up_int)
  then show ?thesis using t(1-3) fixed_value(1) [OF assms(1), of 3] by simp
qed

text \<open>One snap lands on the grid of the tick in force and stays close.\<close>

lemma snap_once:
  assumes p: "0 \<le> p" "p \<le> 1"
  obtains n where "snap_to (inverse_tick (JNum p)) (JNum p) = JNum (tick_price n)"
    "0 \<le> n" "n \<le> 1000" "\<not> edge_price p \<Longrightarrow> 10 dvd n"
    "\<bar>of_int n - p * 1000\<bar> \<le> (if edge_price p then 1 / 2 + 1 / 500 else 5 + 1 / 50)"
    "\<And>k. \<bar>p * 1000 - of_int k\<bar> \<le> 1 / 1000 \<Longrightarrow> (\<not> edge_price p \<Longrightarrow> 10 dvd k) \<Longrightarrow> n = k"
proof (cases "edge_price p")
  case True
  from snap_int [OF p, of 1000] obtain m where m:
    "jround (JNum p * JNum (of_int 1000) + lit (1 / 10 ^ 9)) = JNum (of_int m)"
    "0 \<le> m" "m \<le> 1000" "\<bar>of_int m - p * of_int 1000\<bar> \<le> 1 / 2 + 1 / 500"
    "\<And>k. \<bar>p * of_int 1000 - of_int k\<bar> \<le> 1 / 1000 \<Longrightarrow> m = k" by blast
  have "snap_to (inverse_tick (JNum p)) (JNum p) = JNum (tick_price m)"
    using m(1) tick_price_props(1) [OF m(2,3)] True
    by (simp add: snap_to_def inverse_tick_num del: times_jsn.simps plus_jsn.simps)
  from that [OF this m(2,3)] show thesis using True m(4,5) by simp
next
  case False
  from snap_int [OF p, of 100] obtain m where m:
    "jround (JNum p * JNum (of_int 100) + lit (1 / 10 ^ 9)) = JNum (of_int m)"
    "0 \<le> m" "m \<le> 100" "\<bar>of_int m - p * of_int 100\<bar> \<le> 1 / 2 + 1 / 500"
    "\<And>k. \<bar>p * of_int 100 - of_int k\<bar> \<le> 1 / 1000 \<Longrightarrow> m = k" by blast
  have "snap_to (inverse_tick (JNum p)) (JNum p) = JNum (tick_price (10 * m))"
    using m(1) tick_price_props(1) [of "10 * m"] m(2,3) False
    by (simp add: snap_to_def inverse_tick_num del: times_jsn.simps plus_jsn.simps)
  moreover have "\<bar>of_int (10 * m) - p * 1000\<bar> \<le> 5 + 1 / 50"
  proof -
    have "of_int (10 * m) - p * 1000 = 10 * (of_int m - p * of_int 100)" by simp
    then show ?thesis using m(4) by linarith
  qed
  moreover have "10 * m = k" if k: "\<bar>p * 1000 - of_int k\<bar> \<le> 1 / 1000" "10 dvd k" for k
  proof -
    obtain j where j: "k = 10 * j" using k(2) by blast
    have "\<bar>p * of_int 100 - of_int j\<bar> \<le> 1 / 1000"
    proof -
      show ?thesis using k(1) unfolding j of_int_mult of_int_numeral by linarith
    qed
    then show ?thesis using m(5) j by simp
  qed
  ultimately show thesis using that [of "10 * m"] m(2,3) False by simp
qed


lemma roundToTick_num:
  assumes p: "0 \<le> p" "p \<le> 1"
  obtains n where "roundToTick (JNum p) = JNum (tick_price n)" "valid_tick n"
    "\<bar>of_int n - p * 1000\<bar> \<le> 5 + 1 / 20"
    "\<And>k. valid_tick k \<Longrightarrow> \<bar>p * 1000 - of_int k\<bar> \<le> 1 / 1000 \<Longrightarrow> n = k"
proof -
  from snap_once [OF p] obtain a where a:
    "snap_to (inverse_tick (JNum p)) (JNum p) = JNum (tick_price a)" "0 \<le> a" "a \<le> 1000"
    "\<not> edge_price p \<Longrightarrow> 10 dvd a"
    "\<bar>of_int a - p * 1000\<bar> \<le> (if edge_price p then 1 / 2 + 1 / 500 else 5 + 1 / 50)"
    "\<And>k. \<bar>p * 1000 - of_int k\<bar> \<le> 1 / 1000 \<Longrightarrow> (\<not> edge_price p \<Longrightarrow> 10 dvd k) \<Longrightarrow> a = k" by blast
  let ?q = "tick_price a"
  note ta = tick_price_props [OF a(2,3)]
  have near: "\<bar>tick_price k * 1000 - of_int k\<bar> \<le> 1 / 1000" if "0 \<le> k" "k \<le> 1000" for k
    using tick_price_props(4) [OF that] by (rule order_trans) simp
  from snap_once [OF ta(2,3)] obtain b where b:
    "snap_to (inverse_tick (JNum ?q)) (JNum ?q) = JNum (tick_price b)" "0 \<le> b" "b \<le> 1000"
    "\<not> edge_price ?q \<Longrightarrow> 10 dvd b"
    "\<bar>of_int b - ?q * 1000\<bar> \<le> (if edge_price ?q then 1 / 2 + 1 / 500 else 5 + 1 / 50)"
    "\<And>k. \<bar>?q * 1000 - of_int k\<bar> \<le> 1 / 1000 \<Longrightarrow> (\<not> edge_price ?q \<Longrightarrow> 10 dvd k) \<Longrightarrow> b = k" by blast
  have r: "roundToTick (JNum p) = JNum (tick_price b)"
    using to_fixed_tick [OF b(2,3)] by (simp add: roundToTick_def a(1) b(1))
  have e: "edge_price ?q \<longleftrightarrow> a < 50 \<or> 950 < a" by (rule edge_tick_price [OF a(2,3)])
  text \<open>On its own grid the first snap is already final.\<close>
  have stay: "b = a" if "edge_price ?q \<or> 10 dvd a"
    using b(6) [OF near [OF a(2,3)]] that by blast
  show thesis
  proof (cases "edge_price ?q \<or> 10 dvd a")
    case True
    then have ba: "b = a" by (rule stay)
    show thesis
    proof
      show "roundToTick (JNum p) = JNum (tick_price b)" by (rule r)
      show "valid_tick b" using True e a(2,3) by (auto simp: valid_tick_def ba)
      show "\<bar>of_int b - p * 1000\<bar> \<le> 5 + 1 / 20" using a(5) by (auto simp: ba split: if_splits)
      show "b = k" if k: "valid_tick k" "\<bar>p * 1000 - of_int k\<bar> \<le> 1 / 1000" for k
      proof -
        have "10 dvd k" if "\<not> edge_price p"
        proof -
          have "50 - 1 / 1000 \<le> tick_price 50 * 1000" "tick_price 950 * 1000 \<le> 950 + 1 / 1000"
            using near [of 50] near [of 950] unfolding of_int_numeral by linarith+
          moreover have "tick_price 50 * 1000 \<le> p * 1000" "p * 1000 \<le> tick_price 950 * 1000"
            using that by (simp_all add: edge_price_def)
          ultimately have "(49::rat) < of_int k" "of_int k < (951::rat)" using k(2) by linarith+
          then have "50 \<le> k" "k \<le> 950" by linarith+
          then show ?thesis using k(1) by (simp add: valid_tick_def)
        qed
        then show ?thesis using a(6) [OF k(2)] ba by simp
      qed
    qed
  next
    case False
    then have ep: "edge_price p" and aa: "50 < a" "a < 950"
      using a(4) e by (auto simp: not_less order_le_less)
    have P: "p * 1000 < 50 + 1 / 1000 \<or> 950 - 1 / 1000 < p * 1000"
    proof -
      have "tick_price 50 * 1000 \<le> 50 + 1 / 1000" "950 - 1 / 1000 \<le> tick_price 950 * 1000"
        using near [of 50] near [of 950] unfolding of_int_numeral by linarith+
      then show ?thesis using ep unfolding edge_price_def by linarith
    qed
    moreover have "(51::rat) \<le> of_int a" "of_int a \<le> (949::rat)" using aa by simp_all
    moreover have "\<bar>of_int a - p * 1000\<bar> \<le> 1 / 2 + 1 / 500" using a(5) ep by simp
    ultimately have False by linarith
    then show thesis ..
  qed
qed

section \<open>Identifiers and messages\<close>

lemma code_of_lower: "is_hex_lower (lower_char c) \<Longrightarrow> \<exists>d. char_digit c = Some d"
  by (auto simp: is_hex_lower_def is_digit_def lower_char_def char_digit_def code_of_def Let_def
      split: if_splits)

lemma binary_string_acc: "binary_string bs acc = acc @ map char_of bs"
  by (induction bs acc rule: binary_string.induct) simp_all

lemma uint8ToBase64_is_base64:
  "is_bytes bs \<Longrightarrow> uint8ToBase64 bs = base64 bs"
proof -
  assume "is_bytes bs"
  then have "map (code_of \<circ> char_of) bs = bs"
    by (intro map_idI) (auto simp: is_bytes_def list_all_iff code_of_def)
  then show ?thesis by (simp add: uint8ToBase64_def binary_string_acc btoa_def)
qed


text \<open>The digits of a version 7 identifier.\<close>

lemma length_uuidv7: "isValidUUIDv7 u \<Longrightarrow> length u = 36"
proof -
  assume "isValidUUIDv7 u"
  then have "list_all2 (\<lambda>p c. p c) uuidv7_classes (to_lower u)"
    by (simp add: isValidUUIDv7_def uuidv7_regex_def rx_full_iff matches_rseq_sets)
  then show ?thesis by (auto simp: uuidv7_classes_def dest: list_all2_lengthD)
qed

lemma parse_digits_total:
  "\<forall>c\<in>set s. is_hex_lower (lower_char c) \<Longrightarrow> \<exists>n. parse_digits 16 acc s = Some n"
proof (induction s arbitrary: acc)
  case (Cons c s)
  then obtain d where d: "char_digit c = Some d" using code_of_lower by fastforce
  then have "d < 16" using char_digit_range by blast
  with d Cons show ?case by simp
qed simp

lemma lower_char_dash: "lower_char c = CHR ''-'' \<longleftrightarrow> c = CHR ''-''"
proof -
  have False if "65 \<le> code_of c" "code_of c \<le> 90" "char_of (code_of c + 32) = CHR ''-''"
  proof -
    have "of_char (char_of (code_of c + 32) :: char) = (45 :: int)" by (simp add: that(3))
    then have "(code_of c + 32) mod 256 = 45" by simp
    then show False using that(1,2) by simp
  qed
  moreover have "code_of (CHR ''-'') = 45" by (simp add: code_of_def)
  ultimately show ?thesis by (auto simp: lower_char_def split: if_splits)
qed

lemma uuid_hex_part:
  assumes "isValidUUIDv7 u"
  shows "\<forall>c\<in>set (remove_dashes u). is_hex_lower (lower_char c)" "length (remove_dashes u) = 32"
proof -
  have m: "list_all2 (\<lambda>p c. p c) uuidv7_classes (to_lower u)"
    using assms by (simp add: isValidUUIDv7_def uuidv7_regex_def rx_full_iff matches_rseq_sets)
  define P where "P = (\<lambda>c. is_hex_lower (lower_char c))"
  have cls: "list_all2 (\<lambda>p c. p (lower_char c)) uuidv7_classes u"
    using m by (simp add: to_lower_def list_all2_map2)
  have hex: "is_hex_lower (CHR ''7'')" "\<And>c. c \<in> set ''89ab'' \<Longrightarrow> is_hex_lower c"
    by (auto simp: is_hex_lower_def is_digit_def code_of_def)
  have dash: "\<not> is_hex_lower (CHR ''-'')" by (simp add: is_hex_lower_def is_digit_def code_of_def)
  have gen: "(\<forall>c\<in>set (remove_dashes v). is_hex_lower (lower_char c))
      \<and> length (remove_dashes v) = length (filter (\<lambda>p. \<not> p (CHR ''-'')) ps)"
    if "list_all2 (\<lambda>p c. p (lower_char c)) ps v"
      and "\<forall>p\<in>set ps. p = (=) (CHR ''-'') \<or> (\<forall>c. p c \<longrightarrow> is_hex_lower c)" for ps v
    using that
  proof (induction ps v rule: list_all2_induct)
    case (Cons p ps c v)
    then consider "p = (=) (CHR ''-'')" | "\<forall>c. p c \<longrightarrow> is_hex_lower c" by auto
    then show ?case
    proof cases
      case 1
      then have "c = CHR ''-''" using Cons.hyps(1) lower_char_dash [of c] by auto
      then show ?thesis using Cons 1 by (simp add: remove_dashes_def)
    next
      case 2
      then have h: "is_hex_lower (lower_char c)" using Cons.hyps(1) by simp
      then have "c \<noteq> CHR ''-''" using dash lower_char_dash [of c] by auto
      moreover have "\<not> p (CHR ''-'')" using 2 dash by auto
      ultimately show ?thesis using Cons h by (simp add: remove_dashes_def)
    qed
  qed (simp add: remove_dashes_def)
  have "\<forall>p\<in>set uuidv7_classes. p = (=) (CHR ''-'') \<or> (\<forall>c. p c \<longrightarrow> is_hex_lower c)"
    using hex by (auto simp: uuidv7_classes_def)
  note g = gen [OF cls this]
  have "length (filter (\<lambda>p. \<not> p (CHR ''-'')) uuidv7_classes) = 32"
    using dash by (simp add: uuidv7_classes_def)
  then show "\<forall>c\<in>set (remove_dashes u). is_hex_lower (lower_char c)" "length (remove_dashes u) = 32"
    using g by simp_all
qed

lemma uuid_uint128:
  assumes "isValidUUIDv7 u"
  shows "\<exists>n. uuidToBigInt u = Inr n \<and> 0 \<le> n \<and> n < 2 ^ 128"
proof -
  note h = uuid_hex_part [OF assms]
  then obtain n where n: "parse_digits 16 0 (remove_dashes u) = Some n"
    using parse_digits_total by blast
  have b: "0 \<le> n \<and> n < 2 ^ 128"
    using parse_digits_bound [OF n] h(2) by (simp flip: power_mult)
  have ns: "\<not> is_space c" if "is_hex_lower (lower_char c)" for c
    using that by (auto simp: is_hex_lower_def is_digit_def lower_char_def is_space_def code_of_def
        split: if_splits)
  have sp: "\<not> is_space (CHR ''0'')" "\<not> is_space (CHR ''x'')"
    by (simp_all add: is_space_def code_of_def)
  have "trim (''0x'' @ remove_dashes u) = ''0x'' @ remove_dashes u"
    using h(1) ns sp by (intro trim_id) auto
  moreover have "remove_dashes u \<noteq> []" using h(2) by auto
  ultimately show ?thesis
    using n b by (simp add: uuidToBigInt_def bigint_of_string_def starts_with_def parse_nat_def)
qed


section \<open>Properties\<close>

text \<open>The best prices shown for a proper book lose nothing: converted back to integer limits, the
  best YES bid and the NO ask are the highest bid of the book, the best YES ask and the NO bid the
  lowest ask, although the asks went through up to two floating-point complements on the way.\<close>

theorem best_prices_are_book_levels:
  assumes "proper_book bs as"
  defines "r \<equiv> getBestPricesFromBook (snapshot bs as)"
  shows "(bs \<noteq> [] \<longrightarrow> toLimitYesPrice OYes (bestYesBid r) = Inr (Max (limits bs))
            \<and> toLimitYesPrice ONo (bestNoAsk r) = Inr (Max (limits bs)))
    \<and> (as \<noteq> [] \<longrightarrow> toLimitYesPrice OYes (bestYesAsk r) = Inr (Min (limits as))
            \<and> toLimitYesPrice ONo (bestNoBid r) = Inr (Min (limits as)))"
proof (intro conjI impI)
  have ok: "list_all limit_ok bs" "list_all limit_ok as"
    using assms(1) by (auto simp: proper_book_def list_all_iff)
  {
    assume ne: "bs \<noteq> []"
    then have "Max (limits bs) \<in> limits bs" by (auto simp: limits_def intro: Max_in)
    from limits_range [OF ok(1) this] have k: "0 \<le> Max (limits bs)" "Max (limits bs) \<le> 1000000" .
    obtain c where c: "JNum 1 - JNum (grid (Max (limits bs))) = JNum c"
      "0 \<le> c" "c \<le> 1" "\<bar>c * 1000000 - of_int (1000000 - Max (limits bs))\<bar> \<le> 1 / 8"
      using complement_twice [OF k] by blast
    have g: "\<bar>grid (Max (limits bs)) * 1000000 - of_int (Max (limits bs))\<bar> \<le> 1 / 8"
      using grid_price(4) [OF k, folded grid_def] by (rule order_trans) simp
    show "toLimitYesPrice OYes (bestYesBid r) = Inr (Max (limits bs))"
      using toLimit_near(1) [OF k g] by (simp add: r_def best_prices_bid(1) [OF assms(1) ne])
    show "toLimitYesPrice ONo (bestNoAsk r) = Inr (Max (limits bs))"
      using toLimit_near(2) [OF _ _ c(4)] k
      unfolding r_def best_prices_bid(2) [OF assms(1) ne] c(1) by simp
  }
  {
    assume ne: "as \<noteq> []"
    then have "Min (limits as) \<in> limits as" by (auto simp: limits_def intro: Min_in)
    from limits_range [OF ok(2) this] have k: "0 \<le> Min (limits as)" "Min (limits as) \<le> 1000000" .
    obtain c d where c: "JNum 1 - JNum (grid (Min (limits as))) = JNum c" "JNum 1 - JNum c = JNum d"
      "\<bar>c * 1000000 - of_int (1000000 - Min (limits as))\<bar> \<le> 1 / 8"
      "\<bar>d * 1000000 - of_int (Min (limits as))\<bar> \<le> 1 / 8"
      using complement_twice [OF k] by blast
    show "toLimitYesPrice OYes (bestYesAsk r) = Inr (Min (limits as))"
      using toLimit_near(1) [OF k c(4)]
      unfolding r_def best_prices_ask(2) [OF assms(1) ne] c(1,2) .
    show "toLimitYesPrice ONo (bestNoBid r) = Inr (Min (limits as))"
      using toLimit_near(2) [OF _ _ c(3)] k
      unfolding r_def best_prices_ask(1) [OF assms(1) ne] c(1) by simp
  }
qed

definition demo_detail :: "string \<Rightarrow> int \<Rightarrow> int \<Rightarrow> int \<Rightarrow> OrderDetail" where
  "demo_detail i l s a = \<lparr>od_txId = i, od_accountId = ''0.0.7'', od_limitYesPrice = l,
     sharesRemaining = 2000000, od_side = s, od_action = a\<rparr>"

theorem best_prices_are_book_levels_witness:
  "let r = getBestPricesFromBook (snapshot [demo_detail ''a'' 480000 0 0, demo_detail ''b'' 510000 1 1]
             [demo_detail ''c'' 575000 0 1]) in
   toLimitYesPrice OYes (bestYesBid r) = Inr 510000 \<and> toLimitYesPrice OYes (bestYesAsk r) = Inr 575000"
proof -
  have "proper_book [demo_detail ''a'' 480000 0 0, demo_detail ''b'' 510000 1 1]
      [demo_detail ''c'' 575000 0 1]"
    by (simp add: proper_book_def demo_detail_def limit_ok_def isBidSide_def js_simps)
  from best_prices_are_book_levels [OF this] show ?thesis
    by (simp add: Let_def limits_def demo_detail_def)
qed

text \<open>\<open>roundToTick\<close> maps every price between 0 and 1 to a price of the tick grid (whole cents
  between 5 and 95 cents, tenths of a cent outside), no further than one half of the coarse tick and a
  twentieth of the fine one from it.\<close>

theorem round_to_tick_on_grid:
  assumes "0 \<le> p" "p \<le> 1"
  shows "\<exists>n. roundToTick (JNum p) = lit (of_int n / 1000) \<and> valid_tick n
    \<and> \<bar>of_int n - p * 1000\<bar> \<le> 5 + 1 / 20"
proof -
  obtain n where n: "roundToTick (JNum p) = JNum (tick_price n)" "valid_tick n"
    "\<bar>of_int n - p * 1000\<bar> \<le> 5 + 1 / 20"
    using roundToTick_num [OF assms] by blast
  moreover have "lit (of_int n / 1000) = JNum (tick_price n)"
    using tick_price_props(1) [of n] n(2) by (simp add: valid_tick_def)
  ultimately have "roundToTick (JNum p) = lit (of_int n / 1000)" by simp
  with n(2,3) show ?thesis by blast
qed

theorem round_to_tick_on_grid_witness:
  "\<exists>n. roundToTick (JNum (4567 / 10000)) = lit (of_int n / 1000) \<and> valid_tick n
    \<and> \<bar>of_int n - 4567 / 10000 * 1000\<bar> \<le> 5 + (1 / 20 :: rat)"
  by (rule round_to_tick_on_grid) simp_all

text \<open>Prices on the grid are fixed points: \<open>roundToTick\<close> returns every tick price unchanged, in
  spite of products such as \<open>0.575 * 100\<close> that fall below the integer in binary64.\<close>

theorem round_to_tick_fixpoint:
  assumes "valid_tick n"
  shows "roundToTick (lit (of_int n / 1000)) = lit (of_int n / 1000)"
proof -
  have n: "0 \<le> n" "n \<le> 1000" using assms by (simp_all add: valid_tick_def)
  note t = tick_price_props [OF n]
  obtain m where m: "roundToTick (JNum (tick_price n)) = JNum (tick_price m)"
    "\<And>k. valid_tick k \<Longrightarrow> \<bar>tick_price n * 1000 - of_int k\<bar> \<le> 1 / 1000 \<Longrightarrow> m = k"
    using roundToTick_num [OF t(2,3)] by blast
  have "\<bar>tick_price n * 1000 - of_int n\<bar> \<le> 1 / 1000" using t(4) by (rule order_trans) simp
  from m(2) [OF assms this] m(1) show ?thesis by (simp add: t(1))
qed

theorem round_to_tick_fixpoint_witness: "roundToTick (lit (of_int 570 / 1000)) = lit (of_int 570 / 1000)"
  by (rule round_to_tick_fixpoint) (simp add: valid_tick_def)

text \<open>Every identifier the validator accepts, in either case, converts to an unsigned 128-bit
  integer, so the authorization that carries it can be encoded.\<close>

theorem valid_uuid_is_uint128:
  assumes "isValidUUIDv7 u"
  shows "\<exists>n. uuidToBigInt u = Inr n \<and> uuidToUint128 u = Inr n \<and> 0 \<le> n \<and> n < 2 ^ 128"
  using uuid_uint128 [OF assms] by (simp add: uuidToUint128_def uuidToBigInt_def)

theorem valid_uuid_is_uint128_witness:
  "\<exists>n. uuidToBigInt ''01890F3E-7c10-7cc1-98bc-0242ac120002'' = Inr n
    \<and> uuidToUint128 ''01890F3E-7c10-7cc1-98bc-0242ac120002'' = Inr n \<and> 0 \<le> n \<and> n < 2 ^ 128"
  by (rule valid_uuid_is_uint128) code_simp

text \<open>Open orders as the API returns them, and which of them a book does not show yet.\<close>

definition open_order_ok :: "PredictionIntentResponse \<Rightarrow> bool" where
  "open_order_ok i \<longleftrightarrow> 0 < pi_limitYesPrice i \<and> pi_limitYesPrice i \<le> PRICE_SCALE
     \<and> pi_qtyShares i - sharesFilled i \<le> 2 ^ 52"

definition joins_book :: "LegacyBook \<Rightarrow> PredictionIntentResponse \<Rightarrow> bool" where
  "joins_book b i \<longleftrightarrow>
     pi_txId i \<notin> set (map lo_txId (bids b @ asks b)) \<and> sharesFilled i < pi_qtyShares i"

definition on_bid_side :: "PredictionIntentResponse \<Rightarrow> bool" where
  "on_bid_side i \<longleftrightarrow> isBidSide (pi_side i) (pi_action i)"

lemma legacy_intent_price:
  assumes "open_order_ok i"
  shows "priceUsd (toLegacyOrder (AnyIntent i) 6) \<ge> 0 \<longleftrightarrow> on_bid_side i"
proof -
  have k: "0 < pi_limitYesPrice i" "pi_limitYesPrice i \<le> 1000000"
    using assms by (simp_all add: open_order_ok_def js_simps)
  have "0 < grid (pi_limitYesPrice i)"
  proof -
    have "(1::rat) / 2 ^ 30 < 1" by simp
    moreover have "1 \<le> (of_int (pi_limitYesPrice i) :: rat)" using k(1) by simp
    moreover have "\<bar>grid (pi_limitYesPrice i) * 1000000 - of_int (pi_limitYesPrice i)\<bar> \<le> 1 / 2 ^ 30"
      using grid_price(4) [of "pi_limitYesPrice i"] k by (simp add: grid_def)
    ultimately have "0 < grid (pi_limitYesPrice i) * 1000000" by linarith
    then show ?thesis by simp
  qed
  then show ?thesis using k
    by (simp add: Let_def legacy_price_def scaled_limit on_bid_side_def zero_jsn_def)
qed

lemma legacy_intent_qty:
  assumes "open_order_ok i"
  shows "lo_qty (toLegacyOrder (AnyIntent i) 6) \<le> 0 \<longleftrightarrow> \<not> sharesFilled i < pi_qtyShares i"
proof -
  define r where "r = (if pi_qtyShares i - sharesFilled i < 0 then 0 else pi_qtyShares i - sharesFilled i)"
  have r: "\<bar>r\<bar> \<le> 2 ^ 53" "0 \<le> r" using assms by (auto simp: r_def open_order_ok_def)
  have pos: "0 < fl (of_int r / 10 ^ 6)" if "0 < r"
  proof (rule fl.rd_pos)
    have "(2::rat) powi (- 1022) \<le> 2 powi (- 20)" by (intro power_int_increasing) auto
    moreover have "(2::rat) powi (- 20) = 1 / 2 ^ 20"
      using power_int_minus_divide [of "2::rat" "int 20"] unfolding power_int_of_nat by simp
    moreover have "(1::rat) / 2 ^ 20 \<le> of_int r / 10 ^ 6"
    proof -
      have "1 \<le> (of_int r :: rat)" using that by simp
      then show ?thesis by simp
    qed
    ultimately show "2 powi (- 1022) \<le> of_int r / (10::rat) ^ 6" by (simp only:)
  qed
  have "base_to_num r 6 = JNum (fl (of_int r / 10 ^ 6))"
    unfolding base_to_num_def using fromBaseUnits_num(1) [OF r(1), of 6] by simp
  then have "base_to_num r 6 \<le> 0 \<longleftrightarrow> \<not> 0 < r"
    using pos r(2) by (cases "r = 0") (auto simp: zero_jsn_def not_le)
  moreover have "lo_qty (toLegacyOrder (AnyIntent i) 6) = base_to_num r 6"
    by (simp add: r_def Let_def)
  ultimately show ?thesis by (auto simp: r_def)
qed

lemma toLegacyBook_legacy:
  "toLegacyBook (Some \<lparr>sb_bids = map AnyLegacy bs, sb_asks = map AnyLegacy as\<rparr>) d
     = \<lparr>bids = bs, asks = as\<rparr>"
  by (simp add: toLegacyBook_def comp_def)

text \<open>Merging the user's open orders into the book changes the prices exactly as if the orders that
  are not in the book yet and not fully filled had been added to it, each on the side its outcome and
  action put it, as long as no order has a zero limit.\<close>

theorem intents_join_their_side:
  fixes book :: BookSnapshot
  assumes "list_all open_order_ok intents"
  defines "b \<equiv> toLegacyBook (Some book) 6"
    and "view \<equiv> (\<lambda>i. toLegacyOrder (AnyIntent i) 6)"
  shows "getBestPricesFromBookWithIntents book (map AnyIntent intents) =
    best_prices_of
      \<lparr>bids = bids b @ map view (filter (\<lambda>i. joins_book b i \<and> on_bid_side i) intents),
       asks = asks b @ map view (filter (\<lambda>i. joins_book b i \<and> \<not> on_bid_side i) intents)\<rparr>"
proof -
  have tx: "lo_txId (view i) = pi_txId i" for i by (simp add: view_def Let_def)
  have j: "\<not> (lo_txId (view i) \<in> set (map lo_txId (bids b @ asks b)) \<or> lo_qty (view i) \<le> 0)
      \<longleftrightarrow> joins_book b i" if "i \<in> set intents" for i
    using that assms(1) legacy_intent_qty [of i]
    unfolding joins_book_def tx by (auto simp: view_def list_all_iff)
  have extra: "extra_orders (set (map lo_txId (bids b @ asks b))) (map AnyIntent intents)
      = map view (filter (joins_book b) intents)"
    unfolding extra_orders_def map_map comp_def view_def [symmetric] filter_map
    by (intro arg_cong [where f = "map view"] filter_cong refl) (use j in \<open>simp add: comp_def\<close>)
  have side: "priceUsd (view i) \<ge> 0 \<longleftrightarrow> on_bid_side i" if "i \<in> set intents" for i
    using that assms(1) legacy_intent_price [of i] by (auto simp: view_def list_all_iff)
  have "filter (\<lambda>o'. priceUsd o' \<ge> 0) (map view (filter (joins_book b) intents))
      = map view (filter (\<lambda>i. joins_book b i \<and> on_bid_side i) intents)"
    "filter (\<lambda>o'. \<not> priceUsd o' \<ge> 0) (map view (filter (joins_book b) intents))
      = map view (filter (\<lambda>i. joins_book b i \<and> \<not> on_bid_side i) intents)"
    unfolding filter_map filter_filter comp_def
    by (intro arg_cong [where f = "map view"] filter_cong refl; use side in auto)+
  then show ?thesis
    unfolding getBestPricesFromBookWithIntents_def Let_def b_def [symmetric] extra
    by (simp only: getBestPricesFromBook_def toLegacyBook_legacy)
qed

definition demo_intent :: "string \<Rightarrow> int \<Rightarrow> int \<Rightarrow> int \<Rightarrow> PredictionIntentResponse" where
  "demo_intent i l s a = \<lparr>pi_txId = i, pi_marketId = ''m'', pi_accountId = ''0.0.7'', pi_side = s,
     pi_action = a, pi_limitYesPrice = l, pi_qtyShares = 5000000, sharesFilled = 1000000\<rparr>"

theorem intents_join_their_side_witness:
  "getBestPricesFromBookWithIntents (snapshot [demo_detail ''a'' 400000 0 0] [])
     (map AnyIntent [demo_intent ''x'' 300000 0 1]) =
   best_prices_of
      \<lparr>bids = [toLegacyOrder (AnyDetail (demo_detail ''a'' 400000 0 0)) 6],
       asks = [toLegacyOrder (AnyIntent (demo_intent ''x'' 300000 0 1)) 6]\<rparr>"
proof -
  have "list_all open_order_ok [demo_intent ''x'' 300000 0 1]"
    by (simp add: open_order_ok_def demo_intent_def js_simps)
  from intents_join_their_side [OF this] show ?thesis
    by (simp add: joins_book_def on_bid_side_def demo_intent_def demo_detail_def isBidSide_def
        js_simps snapshot_def toLegacyBook_def)
qed

text \<open>With a zero limit the sign no longer tells the sides apart: an open order to sell YES at any price
  joins the bids, and an empty book is reported to have a YES bid and no ask.\<close>

lemma zero_limit_sell_joins_bids:
  "hasYesBids (getBestPricesFromBookWithIntents (snapshot [] []) [AnyIntent (demo_intent ''x'' 0 0 1)])
   \<and> \<not> hasNoBids (getBestPricesFromBookWithIntents (snapshot [] []) [AnyIntent (demo_intent ''x'' 0 0 1)])"
proof -
  have z: "num_of_bigint 0 / lit 1000000 = JNum (grid 0)" by (rule scaled_limit) simp_all
  have g: "grid 0 = 0" by (simp add: grid_def)
  have "\<not> base_to_num 4000000 6 \<le> 0" by code_simp
  then show ?thesis
    by (simp add: getBestPricesFromBookWithIntents_def getBestPricesFromBook_def best_prices_of_def
        extra_orders_def snapshot_def toLegacyBook_def demo_intent_def legacy_price_def z g
        isBidSide_def js_simps)
qed

end
