(* ===== verification/Trading.thy ===== *)
theory Trading
  imports BookPrices
begin

text \<open>
  The trade form of the web client: the cost basis of a position (\<open>src/web/lib/costBasis.ts\<close>), the
  form's state and setters (\<open>trading/useTradingForm.ts\<close>), the prices it follows
  (\<open>trading/useOrderBookPrice.ts\<close>), the values derived from both (\<open>trading/useTradingDerived.ts\<close>), the
  validation (\<open>trading/useTradingValidation.ts\<close>) and their composition (\<open>useTrading.ts\<close>).
\<close>

section \<open>Cost basis\<close>

text \<open>An absent, \<open>undefined\<close> or \<open>null\<close> field is \<open>None\<close>.\<close>

record CostBasisFields =
  costBasisYesUsd :: "jsn option"
  costBasisNoUsd :: "jsn option"
  avgPriceYesUsd :: "jsn option"
  avgPriceNoUsd :: "jsn option"
  realizedPnlUsd :: "jsn option"
  costBasisYes :: "jsn option"
  costBasisNo :: "jsn option"

record DerivedCostBasis =
  costBasisAvailable :: bool
  avgPriceYes :: jsn
  avgPriceNo :: jsn
  totalCost :: jsn
  marketValue :: jsn
  unrealizedPnL :: jsn
  pnlPercent :: jsn
  realizedPnL :: jsn

definition nullish :: "'a option \<Rightarrow> 'a option \<Rightarrow> 'a option" where
  "nullish x y = (case x of Some v \<Rightarrow> Some v | None \<Rightarrow> y)"

definition value_or :: "jsn option \<Rightarrow> jsn \<Rightarrow> jsn" where
  "value_or x d = (case x of Some v \<Rightarrow> v | None \<Rightarrow> d)"

definition positive :: "jsn option \<Rightarrow> bool" where
  "positive x = (case x of Some v \<Rightarrow> v > 0 | None \<Rightarrow> False)"

definition deriveCostBasis ::
  "CostBasisFields option \<Rightarrow> jsn \<Rightarrow> jsn \<Rightarrow> jsn \<Rightarrow> jsn \<Rightarrow> DerivedCostBasis" where
  "deriveCostBasis info qtyYes qtyNo yesBid noBid =
     (let get = (\<lambda>f. Option.bind info f);
          costYesRaw = js_or (value_or (nullish (get costBasisYesUsd) (get costBasisYes)) 0) 0;
          costNoRaw = js_or (value_or (nullish (get costBasisNoUsd) (get costBasisNo)) 0) 0;
          avgYes = get avgPriceYesUsd;
          avgNo = get avgPriceNoUsd;
          hasBackendAvg = (avgYes \<noteq> None \<or> avgNo \<noteq> None);
          available = (costYesRaw > 0 \<or> costNoRaw > 0 \<or> positive avgYes \<or> positive avgNo);
          priceYes = (if positive avgYes then the avgYes else if qtyYes > 0 then costYesRaw / qtyYes else 0);
          priceNo = (if positive avgNo then the avgNo else if qtyNo > 0 then costNoRaw / qtyNo else 0);
          total = (if hasBackendAvg then qtyYes * priceYes + qtyNo * priceNo
                   else if costYesRaw + costNoRaw > 0 then costYesRaw + costNoRaw
                   else qtyYes * priceYes + qtyNo * priceNo);
          mv = qtyYes * yesBid + qtyNo * noBid;
          unreal = (if available then mv - total else 0);
          pct = (if available \<and> total > 0 then unreal / total * lit 100 else 0)
      in \<lparr>costBasisAvailable = available, avgPriceYes = priceYes, avgPriceNo = priceNo,
          totalCost = total, marketValue = mv, unrealizedPnL = unreal, pnlPercent = pct,
          realizedPnL = 0\<rparr>)"

section \<open>The form\<close>

record trading_form =
  f_outcome :: outcome
  amountUsd :: jsn
  sharesInput :: jsn
  limitPrice :: jsn

definition initial_form :: trading_form where
  "initial_form = \<lparr>f_outcome = OYes, amountUsd = lit 10, sharesInput = 0, limitPrice = lit (1 / 2)\<rparr>"

text \<open>The effect on a new initial price, and the setters.\<close>

definition syncLimitPrice :: "jsn \<Rightarrow> trading_form \<Rightarrow> trading_form" where
  "syncLimitPrice initialLimitPrice f = f\<lparr>limitPrice := initialLimitPrice\<rparr>"

definition setOutcome :: "outcome \<Rightarrow> trading_form \<Rightarrow> trading_form" where
  "setOutcome newOutcome f =
     (let f' = (if newOutcome \<noteq> f_outcome f then f\<lparr>limitPrice := roundToTick (1 - limitPrice f)\<rparr> else f)
      in f'\<lparr>f_outcome := newOutcome\<rparr>)"

definition setAmountUsd :: "jsn \<Rightarrow> trading_form \<Rightarrow> trading_form" where
  "setAmountUsd v f = f\<lparr>amountUsd := jmax (lit (1 / 10)) (jround (v * lit 100) / lit 100)\<rparr>"

definition setSharesInput :: "jsn \<Rightarrow> trading_form \<Rightarrow> trading_form" where
  "setSharesInput v f =
     f\<lparr>sharesInput := jmax 0 (jround (v * lit 1000000) / lit 1000000)\<rparr>"

definition prefillOrder :: "outcome \<Rightarrow> jsn \<Rightarrow> jsn option \<Rightarrow> trading_form \<Rightarrow> trading_form" where
  "prefillOrder newOutcome price amount f =
     (let f' = f\<lparr>f_outcome := newOutcome, limitPrice := roundToTick price\<rparr>
      in case amount of
           None \<Rightarrow> f'
         | Some a \<Rightarrow> f'\<lparr>amountUsd := jround (a * lit 100) / lit 100\<rparr>)"

section \<open>The prices the form follows\<close>

record order_book_price =
  bidUsd :: jsn
  askUsd :: jsn
  p_hasYesBids :: bool
  p_hasNoBids :: bool
  initialLimitPrice :: jsn

definition initial_price :: order_book_price where
  "initial_price = \<lparr>bidUsd = lit (1 / 2), askUsd = lit (1 / 2), p_hasYesBids = False,
     p_hasNoBids = False, initialLimitPrice = lit (1 / 2)\<rparr>"

definition midPrice :: "order_book_price \<Rightarrow> jsn" where
  "midPrice p = (bidUsd p + askUsd p) / lit 2"

text \<open>One poll: a fetched book replaces all prices, a failure changes none and ends the polling only
  when its text says the market was not found. The flag tells whether the poll keeps running.\<close>

definition fetchPrice ::
  "string + BookSnapshot \<Rightarrow> any_order list \<Rightarrow> order_book_price \<Rightarrow> bool \<times> order_book_price" where
  "fetchPrice fetched intents p =
     (case fetched of
        Inr book \<Rightarrow>
          (let r = getBestPricesFromBookWithIntents book intents
           in (True, \<lparr>bidUsd = bestYesBid r, askUsd = bestYesAsk r, p_hasYesBids = hasYesBids r,
                      p_hasNoBids = hasNoBids r, initialLimitPrice = roundToTick (yesProbability r)\<rparr>))
      | Inl err \<Rightarrow> (\<not> js_includes err ''not found'', p))"

section \<open>Derived values\<close>

datatype order_type = OMarket | OLimit

record trading_derived =
  effectivePrice :: jsn
  shares :: jsn
  potentialPayout :: jsn
  potentialProfit :: jsn
  estimatedProceeds :: jsn
  maxSellableShares :: jsn
  sellPrice :: jsn
  yesAskPrice :: jsn
  noAskPrice :: jsn
  yesSellPrice :: jsn
  noSellPrice :: jsn

definition useTradingDerived ::
  "trading_form \<Rightarrow> order_book_price \<Rightarrow> order_type \<Rightarrow> order_action \<Rightarrow> jsn \<Rightarrow> jsn \<Rightarrow> trading_derived" where
  "useTradingDerived form prices orderType act positionYes positionNo =
     (let yes = (f_outcome form = OYes);
          yesAsk = askUsd prices;
          noAsk = 1 - bidUsd prices;
          yesSell = bidUsd prices;
          noSell = 1 - askUsd prices;
          eff = (if orderType = OMarket then (if yes then yesAsk else noAsk) else limitPrice form);
          maxSell = (if yes then positionYes else positionNo);
          sh = (if act = ABuy then (if eff > 0 then amountUsd form / eff else 0)
                else jmin (sharesInput form) maxSell);
          payout = sh * 1;
          profit = payout - (if act = ABuy then amountUsd form else 0);
          sellP = (if orderType = OMarket then (if yes then yesSell else noSell) else limitPrice form);
          proceeds = (if act = ASell then sh * sellP else 0)
      in \<lparr>effectivePrice = eff, shares = sh, potentialPayout = payout, potentialProfit = profit,
          estimatedProceeds = proceeds, maxSellableShares = maxSell, sellPrice = sellP,
          yesAskPrice = yesAsk, noAskPrice = noAsk, yesSellPrice = yesSell, noSellPrice = noSell\<rparr>)"

section \<open>Validation\<close>

definition outcome_text :: "outcome \<Rightarrow> string" where
  "outcome_text oc = (if oc = OYes then ''yes'' else ''no'')"

definition price_error :: "jsn \<Rightarrow> string option" where
  "price_error p =
     (if p \<le> 0 \<or> p \<ge> 1 then Some ''Price must be between $0.01 and $0.99'' else None)"

definition validation_error ::
  "trading_form \<Rightarrow> trading_derived \<Rightarrow> order_action \<Rightarrow> bool \<Rightarrow> jsn \<Rightarrow> string option" where
  "validation_error form derived act isWalletConnected allowance =
     (if \<not> isWalletConnected then Some ''Connect wallet to trade''
      else if act = ABuy then
        (if amountUsd form > allowance then Some (''Insufficient allowance: $'' @ to_fixed allowance 2)
         else price_error (limitPrice form))
      else if maxSellableShares derived \<le> 0 then
        Some (''No '' @ to_upper (outcome_text (f_outcome form)) @ '' shares to sell'')
      else if sharesInput form \<le> 0 then Some ''Enter shares to sell''
      else if sharesInput form > maxSellableShares derived then
        Some (''Max: '' @ to_fixed (maxSellableShares derived) 3 @ '' shares'')
      else price_error (limitPrice form))"

text \<open>The error is kept in state and refreshed after a render, so the result may lag the form by one
  render; \<open>useTradingValidation\<close> is the settled result.\<close>

definition useTradingValidation ::
  "trading_form \<Rightarrow> trading_derived \<Rightarrow> order_action \<Rightarrow> bool \<Rightarrow> jsn \<Rightarrow> bool \<times> string option" where
  "useTradingValidation form derived act isWalletConnected allowance =
     (let e = validation_error form derived act isWalletConnected allowance
      in (e = None \<and> isWalletConnected, e))"

record trading_view =
  v_prices :: order_book_price
  v_form :: trading_form
  v_derived :: trading_derived
  v_valid :: "bool \<times> string option"

definition useTrading ::
  "order_book_price \<Rightarrow> trading_form \<Rightarrow> order_type \<Rightarrow> order_action \<Rightarrow> jsn \<Rightarrow> jsn \<Rightarrow> bool \<Rightarrow> jsn
    \<Rightarrow> trading_view" where
  "useTrading prices form orderType act positionYes positionNo isConnected allowance =
     (let d = useTradingDerived form prices orderType act positionYes positionNo
      in \<lparr>v_prices = prices, v_form = form, v_derived = d,
          v_valid = useTradingValidation form d act isConnected allowance\<rparr>)"

section \<open>Properties\<close>

text \<open>With a positive average price from the backend for both outcomes, the cost-basis fields
  (which the backend may send in the wrong unit) have no influence on any derived figure: two positions
  that differ only in them get the same cost, value and profit.\<close>

theorem cost_basis_fields_ignored:
  assumes "avgPriceYesUsd i = Some y" "avgPriceNoUsd i = Some n" "y > 0" "n > 0"
    and "avgPriceYesUsd j = avgPriceYesUsd i" "avgPriceNoUsd j = avgPriceNoUsd i"
  shows "deriveCostBasis (Some i) qy qn yb nb = deriveCostBasis (Some j) qy qn yb nb
    \<and> totalCost (deriveCostBasis (Some i) qy qn yb nb) = qy * y + qn * n"
  using assms by (simp add: deriveCostBasis_def Let_def positive_def)

definition demo_fields :: "jsn option \<Rightarrow> jsn option \<Rightarrow> jsn option \<Rightarrow> CostBasisFields" where
  "demo_fields cost avgY avgN = \<lparr>costBasisYesUsd = cost, costBasisNoUsd = None, avgPriceYesUsd = avgY,
     avgPriceNoUsd = avgN, realizedPnlUsd = None, costBasisYes = None, costBasisNo = None\<rparr>"

theorem cost_basis_fields_ignored_witness:
  "deriveCostBasis (Some (demo_fields (Some (JNum 5000000)) (Some 1) (Some 1))) (JNum 10) 0 1 1
   = deriveCostBasis (Some (demo_fields (Some (JNum 5)) (Some 1) (Some 1))) (JNum 10) 0 1 1"
  using cost_basis_fields_ignored
    [of "demo_fields (Some (JNum 5000000)) (Some 1) (Some 1)" 1 1
      "demo_fields (Some (JNum 5)) (Some 1) (Some 1)" "JNum 10" 0 1 1]
  by (simp add: demo_fields_def js_simps)

text \<open>With an average for one outcome only, the guard the source describes does not hold: the missing
  average is computed from the cost-basis field, in whatever unit it came.\<close>

lemma cost_basis_leaks:
  "totalCost (deriveCostBasis (Some (demo_fields (Some (JNum 5000000)) None (Some 1))) (JNum 10) 0 1 1)
     = JNum 5000000"
  by code_simp

text \<open>The orders the trade form is meant to accept.\<close>

definition valid_buy :: "trading_form \<Rightarrow> jsn \<Rightarrow> bool" where
  "valid_buy f allowance \<longleftrightarrow> \<not> amountUsd f > allowance \<and> 0 < limitPrice f \<and> limitPrice f < 1"

definition valid_sell :: "trading_form \<Rightarrow> jsn \<Rightarrow> bool" where
  "valid_sell f have' \<longleftrightarrow>
     0 < have' \<and> 0 < sharesInput f \<and> sharesInput f \<le> have' \<and> 0 < limitPrice f \<and> limitPrice f < 1"

lemma price_error_None:
  "is_finite p \<Longrightarrow> price_error p = None \<longleftrightarrow> 0 < p \<and> p < 1"
  by (cases p) (auto simp: price_error_def js_simps)

lemma finite_not_le: "is_finite a \<Longrightarrow> is_finite b \<Longrightarrow> \<not> a \<le> b \<longleftrightarrow> b < a"
  by (cases a; cases b) auto

lemma finite_not_less: "is_finite a \<Longrightarrow> is_finite b \<Longrightarrow> \<not> b < a \<longleftrightarrow> a \<le> b"
  by (cases a; cases b) auto

lemma finite_zero [simp]: "is_finite 0" "is_finite 1"
  by (simp_all add: js_simps)

lemma jmin_left: "a \<le> b \<Longrightarrow> jmin a b = a"
  by (cases a; cases b) (auto simp: jmin_def)


definition demo_form :: trading_form where
  "demo_form = \<lparr>f_outcome = ONo, amountUsd = JNum 10, sharesInput = JNum 4, limitPrice = JNum (1 / 2)\<rparr>"


text \<open>Switching the outcome and switching back restores the limit price: on the tick grid the
  form's complement, rounded to a tick, is the exact complementary tick.\<close>

theorem outcome_switch_restores_price:
  assumes "valid_tick n" "limitPrice f = lit (of_int n / 1000)" "oc \<noteq> f_outcome f"
  shows "limitPrice (setOutcome oc f) = lit (of_int (1000 - n) / 1000)
    \<and> setOutcome (f_outcome f) (setOutcome oc f) = f"
proof -
  have n: "0 \<le> n" "n \<le> 1000" and v: "valid_tick (1000 - n)"
  proof -
    show "0 \<le> n" "n \<le> 1000" using assms(1) by (simp_all add: valid_tick_def)
    have "10 dvd n \<Longrightarrow> 10 dvd 1000 - n" by presburger
    then show "valid_tick (1000 - n)" using assms(1) by (auto simp: valid_tick_def)
  qed
  have step: "roundToTick (1 - lit (of_int k / 1000)) = lit (of_int (1000 - k) / 1000)"
    if "0 \<le> k" "k \<le> 1000" "valid_tick (1000 - k)" for k
  proof -
    note t = tick_price_props [OF that(1,2)]
    define p where "p = fl (1 - tick_price k)"
    have u: "0 \<le> 1 - tick_price k" "1 - tick_price k \<le> 1" using t by simp_all
    have p: "0 \<le> p" "p \<le> 1" using fl.rd_unit [OF u] by (simp_all add: p_def)
    have num: "(1::rat) / 2 ^ 53 * 1000 + 1 / 2 ^ 40 \<le> 1 / 1000" by simp
    have near: "\<bar>p * 1000 - of_int (1000 - k)\<bar> \<le> 1 / 1000"
      using t(4) fl_unit_error [OF u] num unfolding p_def of_int_diff of_int_numeral by linarith
    have e: "1 - lit (of_int k / 1000) = JNum p"
      unfolding t(1) one_jsn_def minus_num p_def by (rule jsfin_unit) (use u in simp)
    obtain m where m: "roundToTick (JNum p) = JNum (tick_price m)"
      "\<And>j. valid_tick j \<Longrightarrow> \<bar>p * 1000 - of_int j\<bar> \<le> 1 / 1000 \<Longrightarrow> m = j"
      using roundToTick_num [OF p] by blast
    have "m = 1000 - k" using m(2) [OF that(3) near] .
    then show ?thesis using m(1) tick_price_props(1) [of "1000 - k"] that by (simp add: e)
  qed
  have a: "roundToTick (1 - limitPrice f) = lit (of_int (1000 - n) / 1000)"
    using step [OF n v] by (simp add: assms(2))
  have b: "roundToTick (1 - lit (of_int (1000 - n) / 1000)) = limitPrice f"
    using step [of "1000 - n"] n assms(1,2) by simp
  have "limitPrice (setOutcome oc f) = lit (of_int (1000 - n) / 1000)"
    using assms(3) a by (simp add: setOutcome_def)
  moreover from this have "setOutcome (f_outcome f) (setOutcome oc f) = f"
    using assms(3) b by (cases f) (simp add: setOutcome_def)
  ultimately show ?thesis ..
qed

theorem outcome_switch_restores_price_witness:
  "setOutcome OYes (setOutcome ONo (initial_form\<lparr>limitPrice := lit (of_int 570 / 1000)\<rparr>))
     = initial_form\<lparr>limitPrice := lit (of_int 570 / 1000)\<rparr>"
  using outcome_switch_restores_price [of 570 "initial_form\<lparr>limitPrice := lit (of_int 570 / 1000)\<rparr>" ONo]
  by (simp add: initial_form_def valid_tick_def)

end
