(* ===== verification/SessionStores.thy ===== *)
theory SessionStores
  imports OrderProtocol
begin

text \<open>
  The two session-local stores of the web client: the sells submitted from this tab that the backend
  does not report yet (\<open>src/web/lib/pendingSells.ts\<close>) and the markets redeemed in this session
  (\<open>src/web/lib/redeemSuppression.ts\<close>). Both notify their subscribers through \<open>emit\<close>; an operation
  returns the new store and whether it notified.
\<close>

section \<open>The contract of a notifying store\<close>

text \<open>React re-renders a subscriber when it is notified and the snapshot has changed. A store must
  therefore notify on every change its own operations make, and keep its invariant.\<close>

locale notifying_store =
  fixes exec :: "'op \<Rightarrow> 's \<Rightarrow> 's \<times> bool" and inv :: "'s \<Rightarrow> bool" and start :: 's
  assumes start_inv: "inv start"
    and exec_inv: "inv s \<Longrightarrow> inv (fst (exec op s))"
    and silent_same: "inv s \<Longrightarrow> \<not> snd (exec op s) \<Longrightarrow> fst (exec op s) = s"
begin

definition after :: "'op list \<Rightarrow> 's" where
  "after ops = fold (\<lambda>op s. fst (exec op s)) ops start"

lemma after_snoc: "after (ops @ [op]) = fst (exec op (after ops))"
  by (simp add: after_def)

lemma after_inv: "inv (after ops)"
proof (induction ops rule: rev_induct)
  case Nil
  show ?case by (simp add: after_def start_inv)
next
  case (snoc op ops)
  then show ?case by (simp add: after_snoc exec_inv)
qed

text \<open>What a subscriber saw at the last notification is still the current snapshot.\<close>

fun last_seen :: "'s \<Rightarrow> 's \<Rightarrow> 'op list \<Rightarrow> 's \<times> 's" where
  "last_seen s seen [] = (s, seen)"
| "last_seen s seen (op # ops) =
     (let (s', n) = exec op s in last_seen s' (if n then s' else seen) ops)"

lemma subscriber_current: "inv s \<Longrightarrow> fst (last_seen s s ops) = snd (last_seen s s ops)"
proof (induction ops arbitrary: s)
  case (Cons op ops)
  obtain s' n where e: "exec op s = (s', n)" by (cases "exec op s")
  have "inv s'" using exec_inv [OF Cons.prems, of op] by (simp add: e)
  moreover have "\<not> n \<Longrightarrow> s' = s" using silent_same [OF Cons.prems, of op] by (simp add: e)
  ultimately show ?case using Cons.IH [of s'] Cons.IH [of s] by (cases n) (simp_all add: e)
qed simp

end

section \<open>Pending sells\<close>

record PendingSell =
  ps_txId :: string
  ps_marketId :: string
  ps_outcome :: outcome
  ps_qty :: jsn
  ps_priceUsd :: jsn
  ps_ts :: int

definition PENDING_SELL_TTL_MS :: int where "PENDING_SELL_TTL_MS = 90 * 1000"

type_synonym pending_sells = "PendingSell list"

definition prune :: "int \<Rightarrow> pending_sells \<Rightarrow> pending_sells" where
  "prune now ps = filter (\<lambda>p. ps_ts p \<ge> now - PENDING_SELL_TTL_MS) ps"

definition recordPendingSell :: "int \<Rightarrow> PendingSell \<Rightarrow> pending_sells \<Rightarrow> pending_sells \<times> bool" where
  "recordPendingSell now e ps =
     (if ps_txId e = [] \<or> ps_marketId e = [] \<or> ps_qty e \<le> 0 then (ps, False)
      else (filter (\<lambda>p. ps_txId p \<noteq> ps_txId e) (prune now ps) @ [e\<lparr>ps_ts := now\<rparr>], True))"

definition reconcilePendingSells :: "int \<Rightarrow> string set \<Rightarrow> pending_sells \<Rightarrow> pending_sells \<times> bool" where
  "reconcilePendingSells now known ps =
     (let next' = filter (\<lambda>p. ps_txId p \<notin> known) (prune now ps)
      in if length next' = length ps then (ps, False) else (next', True))"

definition clearPendingSell :: "string \<Rightarrow> pending_sells \<Rightarrow> pending_sells \<times> bool" where
  "clearPendingSell tx ps =
     (let next' = filter (\<lambda>p. ps_txId p \<noteq> tx) ps
      in if length next' = length ps then (ps, False) else (next', True))"

text \<open>Reading the snapshot drops expired entries without a notification.\<close>

definition snapshotPendingSells :: "int \<Rightarrow> pending_sells \<Rightarrow> pending_sells" where
  "snapshotPendingSells now ps =
     (let next' = prune now ps in if length next' \<noteq> length ps then next' else ps)"

definition pendingSellQty :: "pending_sells \<Rightarrow> string \<Rightarrow> outcome \<Rightarrow> jsn" where
  "pendingSellQty ps market oc =
     foldl (\<lambda>sum p. if ps_marketId p = market \<and> ps_outcome p = oc then sum + ps_qty p else sum) 0 ps"

datatype pending_op =
  Record int PendingSell | Reconcile int "string list" | Clear string

fun pending_exec :: "pending_op \<Rightarrow> pending_sells \<Rightarrow> pending_sells \<times> bool" where
  "pending_exec (Record now e) ps = recordPendingSell now e ps"
| "pending_exec (Reconcile now known) ps = reconcilePendingSells now (set known) ps"
| "pending_exec (Clear tx) ps = clearPendingSell tx ps"

text \<open>One entry per order, each with an identifier and something to sell.\<close>

definition pending_ok :: "pending_sells \<Rightarrow> bool" where
  "pending_ok ps \<longleftrightarrow>
     distinct (map ps_txId ps)
     \<and> (\<forall>p \<in> set ps. ps_txId p \<noteq> [] \<and> ps_marketId p \<noteq> [] \<and> \<not> ps_qty p \<le> 0)"

lemma filter_length_id: "length (filter P xs) = length xs \<Longrightarrow> filter P xs = xs"
proof (induction xs)
  case (Cons x xs)
  then show ?case using length_filter_le [of P xs] by (cases "P x") simp_all
qed simp

lemma pending_ok_filter: "pending_ok ps \<Longrightarrow> pending_ok (filter P ps)"
  by (auto simp: pending_ok_def distinct_map_filter)

lemma pending_ok_prune: "pending_ok ps \<Longrightarrow> pending_ok (prune now ps)"
  by (simp add: prune_def pending_ok_filter)

lemma pending_ok_snoc:
  assumes "pending_ok ps" "ps_txId e \<notin> set (map ps_txId ps)"
    and "ps_txId e \<noteq> []" "ps_marketId e \<noteq> []" "\<not> ps_qty e \<le> 0"
  shows "pending_ok (ps @ [e])"
  using assms unfolding pending_ok_def by simp

lemma record_ok: "pending_ok ps \<Longrightarrow> pending_ok (fst (recordPendingSell now e ps))"
proof (cases "ps_txId e = [] \<or> ps_marketId e = [] \<or> ps_qty e \<le> 0")
  case False
  assume ok: "pending_ok ps"
  have "pending_ok (filter (\<lambda>p. ps_txId p \<noteq> ps_txId e) (prune now ps) @ [e\<lparr>ps_ts := now\<rparr>])"
    by (rule pending_ok_snoc [OF pending_ok_filter [OF pending_ok_prune [OF ok]]]) (use False in auto)
  then show ?thesis using False by (simp add: recordPendingSell_def)
qed (simp add: recordPendingSell_def)

lemma pending_exec_ok: "pending_ok ps \<Longrightarrow> pending_ok (fst (pending_exec op ps))"
  by (cases op) (auto simp: record_ok reconcilePendingSells_def clearPendingSell_def Let_def
      intro: pending_ok_filter pending_ok_prune)

interpretation pending: notifying_store pending_exec pending_ok "[]"
proof
  show "pending_ok []" by (simp add: pending_ok_def)
  fix ps op
  show "pending_ok ps \<Longrightarrow> pending_ok (fst (pending_exec op ps))" by (rule pending_exec_ok)
  show "pending_ok ps \<Longrightarrow> \<not> snd (pending_exec op ps) \<Longrightarrow> fst (pending_exec op ps) = ps"
    by (cases op) (auto simp: recordPendingSell_def reconcilePendingSells_def clearPendingSell_def
        Let_def split: if_splits)
qed

section \<open>Redeemed markets\<close>

text \<open>The set is replaced on every change, never mutated.\<close>

type_synonym redeemed = "string set"

definition markMarketRedeemed :: "string \<Rightarrow> redeemed \<Rightarrow> redeemed \<times> bool" where
  "markMarketRedeemed m s = (if m = [] \<or> m \<in> s then (s, False) else (insert m s, True))"

definition clearMarketRedeemed :: "string \<Rightarrow> redeemed \<Rightarrow> redeemed \<times> bool" where
  "clearMarketRedeemed m s = (if m \<notin> s then (s, False) else (s - {m}, True))"

definition isMarketRedeemedLocally :: "string \<Rightarrow> redeemed \<Rightarrow> bool" where
  "isMarketRedeemedLocally m s \<longleftrightarrow> m \<in> s"

datatype redeem_op = MarkRedeemed string | ClearRedeemed string

fun redeem_exec :: "redeem_op \<Rightarrow> redeemed \<Rightarrow> redeemed \<times> bool" where
  "redeem_exec (MarkRedeemed m) s = markMarketRedeemed m s"
| "redeem_exec (ClearRedeemed m) s = clearMarketRedeemed m s"

interpretation redeemed: notifying_store redeem_exec "\<lambda>s. [] \<notin> s \<and> finite s" "{}"
proof
  fix s :: redeemed and op
  show "[] \<notin> s \<and> finite s \<Longrightarrow> [] \<notin> fst (redeem_exec op s) \<and> finite (fst (redeem_exec op s))"
    by (cases op) (auto simp: markMarketRedeemed_def clearMarketRedeemed_def)
  show "[] \<notin> s \<and> finite s \<Longrightarrow> \<not> snd (redeem_exec op s) \<Longrightarrow> fst (redeem_exec op s) = s"
    by (cases op) (auto simp: markMarketRedeemed_def clearMarketRedeemed_def split: if_splits)
qed simp

section \<open>Properties\<close>

definition pending_after :: "pending_op list \<Rightarrow> pending_sells" where
  "pending_after ops = fold (\<lambda>op s. fst (pending_exec op s)) ops []"

text \<open>The content a subscriber read at the last notification.\<close>

fun pending_seen :: "pending_sells \<Rightarrow> pending_sells \<Rightarrow> pending_op list \<Rightarrow> pending_sells" where
  "pending_seen s seen [] = seen"
| "pending_seen s seen (op # ops) =
     (let (s', n) = pending_exec op s in pending_seen s' (if n then s' else seen) ops)"

lemma pending_seen_last: "pending_seen s seen ops = snd (pending.last_seen s seen ops)"
  by (induction ops arbitrary: s seen) (auto split: prod.splits)

lemma pending_last_after: "fst (pending.last_seen s seen ops) = fold (\<lambda>op s. fst (pending_exec op s)) ops s"
  by (induction ops arbitrary: s seen) (auto split: prod.splits)

text \<open>Whatever the tab does, the pending sells hold each order at most once and only with a positive
  quantity, and a subscriber that reads the store at every notification always has its current content.\<close>

theorem pending_sells_invariant:
  "pending_ok (pending_after ops) \<and> pending_seen [] [] ops = pending_after ops"
proof
  show "pending_ok (pending_after ops)"
    using pending.after_inv [of ops] by (simp add: pending.after_def pending_after_def)
  show "pending_seen [] [] ops = pending_after ops"
    using pending.subscriber_current [of "[]" ops]
    by (simp add: pending_seen_last pending_last_after pending_after_def pending_ok_def)
qed

text \<open>A sell is counted as escrowed from the moment it is recorded, exactly once, until the backend
  reports it, it is cleared or its time is over: right after recording it is in the store with its
  quantity and nothing else is lost but expired entries; a reconciliation removes exactly the reported
  and the expired ones.\<close>

theorem pending_sell_lifecycle:
  assumes "ps_txId e \<noteq> []" "ps_marketId e \<noteq> []" "\<not> ps_qty e \<le> 0"
  shows "set (fst (recordPendingSell now e ps)) =
      insert (e\<lparr>ps_ts := now\<rparr>)
        {p \<in> set ps. ps_txId p \<noteq> ps_txId e \<and> now \<le> ps_ts p + PENDING_SELL_TTL_MS}
    \<and> set (fst (reconcilePendingSells now' known ps)) =
        {p \<in> set ps. ps_txId p \<notin> known \<and> now' \<le> ps_ts p + PENDING_SELL_TTL_MS}"
proof
  show "set (fst (recordPendingSell now e ps)) =
      insert (e\<lparr>ps_ts := now\<rparr>)
        {p \<in> set ps. ps_txId p \<noteq> ps_txId e \<and> now \<le> ps_ts p + PENDING_SELL_TTL_MS}"
    using assms by (auto simp: recordPendingSell_def prune_def)
  have "fst (reconcilePendingSells now' known ps) = filter (\<lambda>p. ps_txId p \<notin> known) (prune now' ps)"
  proof -
    have "filter (\<lambda>p. ps_txId p \<notin> known) (prune now' ps) = ps"
      if "length (filter (\<lambda>p. ps_txId p \<notin> known) (prune now' ps)) = length ps"
      using that filter_length_id [of _ ps] unfolding prune_def filter_filter by blast
    then show ?thesis by (auto simp: reconcilePendingSells_def Let_def)
  qed
  then show "set (fst (reconcilePendingSells now' known ps)) =
        {p \<in> set ps. ps_txId p \<notin> known \<and> now' \<le> ps_ts p + PENDING_SELL_TTL_MS}"
    by (auto simp: prune_def)
qed

definition demo_sell :: "string \<Rightarrow> PendingSell" where
  "demo_sell tx = \<lparr>ps_txId = tx, ps_marketId = ''m'', ps_outcome = OYes, ps_qty = JNum 5,
     ps_priceUsd = JNum (1 / 2), ps_ts = 1000\<rparr>"

theorem pending_sell_lifecycle_witness:
  "set (fst (recordPendingSell 95000 (demo_sell ''b'') [demo_sell ''a'']))
     = {(demo_sell ''b'')\<lparr>ps_ts := 95000\<rparr>}"
  using pending_sell_lifecycle [of "demo_sell ''b''" 95000 "[demo_sell ''a'']"]
  by (auto simp: demo_sell_def js_simps PENDING_SELL_TTL_MS_def)

end
