(* ===== verification/OrderLifecycle.thy ===== *)
theory OrderLifecycle
  imports Trading SessionStores
begin

text \<open>
  The life of an order in the web client, \<open>src/web/lib/trading/useOrderLifecycle.ts\<close>: building the
  intent from the form, the checks before signing, the wait for the wallet, the submission and its
  errors. The component's state is a record; every point at which the code waits (for the wallet or
  the server) is the end of one step and the beginning of another, so that cancellations may come in
  between. Toasts are recorded, diagnostics are left out.
\<close>

section \<open>Server errors\<close>

definition has_lit :: "string \<Rightarrow> string \<Rightarrow> bool" where
  "has_lit raw p = rx_search_i (rlit p) raw"

text \<open>\<open>a.*b\<close>: the second text somewhere after the first, on the same line.\<close>

definition dotted :: "string list \<Rightarrow> rx" where
  "dotted ps = rseq (concat (map (\<lambda>p. [rlit p, RDots]) (butlast ps)) @ [rlit (last ps)])"

definition spaces :: rx where "spaces = RStar (RSet is_space)"

definition signature_rejected :: "string \<Rightarrow> bool" where
  "signature_rejected raw =
     rx_search_i (ralt [rlit ''invalid signature'', dotted [''key'', ''mismatch''],
       rlit ''public key mismatch'']) raw"

datatype error_context = CtxSubmit | CtxCancel

definition mapServerError :: "string \<Rightarrow> error_context \<Rightarrow> string" where
  "mapServerError raw ctx =
     (let t = (\<lambda>r. rx_search_i r raw) in
      if t (ralt [rseq [rlit ''nats:'', spaces, rlit ''connection closed''],
                  rlit ''failed to publish to nats''])
        then ''Order service temporarily unavailable. Please retry in a moment.''
      else if t (ralt [rlit ''exceeds available liquidity'', dotted [''exceeds'', ''orderbook'']])
        then ''Order size exceeds available liquidity in the order book. Try a smaller quantity or use a limit order.''
      else if t (ralt [rlit ''spender allowance is'', rlit ''insufficient allowance''])
        then ''USDC allowance is too low for this order. Increase your allowance and retry.''
      else if t (ralt [rlit ''chainid'', rlit ''verifyingcontract'', rlit ''proxy''])
              \<and> t (ralt [rlit ''mismatch'', rlit ''does not match'', rlit ''invalid''])
        then ''The trading contract changed. Please refresh the app and sign again.''
      else if t (ralt [rlit ''deadline'', rlit ''authorization has expired''])
        then ''This signed order has expired. Please sign it again.''
      else if t (RSeq (rlit ''txid'') (RSeq RDots (ralt [rlit ''already'', rlit ''used''])))
        then ''This order was already submitted. Please sign a new one.''
      else if t (ralt [RSeq (rlit ''insufficient'') (RSeq RDots (ralt [rlit ''usdc'', rlit ''balance''])),
                       dotted [''balance'', ''collateralcap'']])
        then ''Your USDC balance is too low for this order.''
      else if t (ralt [rlit ''timestamp is too old'', rlit ''timestamp is too far in the future''])
        then ''Order signature expired before submission. Please re-sign and try again.''
      else if t (ralt [rseq [rlit ''reserved secondary '', ralt [rlit ''yes'', rlit ''no''],
                             rlit '' position tokens''],
                       dotted [''needs '', '' total '', '' reserved secondary'']])
        then ''You already have open sell orders reserving these shares. Cancel one or reduce the size.''
      else if t (ralt [rlit ''position token balance'', rlit ''insufficient position tokens'',
                       dotted [''insufficient'', ''shares'']])
        then ''Insufficient shares to sell. Refresh your portfolio and try again.''
      else if t (ralt [rlit ''primarysecondary'', dotted [''invalid'', ''classification'']])
        then ''Invalid order classification - please refresh the app and retry.''
      else if t (ralt [rseq [rlit ''smart'', spaces, rlit ''contract'', RDots, rlit ''not'', RDots, rlit ''found''],
                       rlit ''missing smart contract''])
        then ''This market is misconfigured (no smart contract). Please contact support.''
      else if t (rlit ''collateral/qty mismatch'')
        then ''Order was rejected on-chain (price/quantity mismatch). Please refresh the book and retry.''
      else if signature_rejected raw
        then (if ctx = CtxCancel
              then ''Cancel verification failed. Please refresh and retry once; if it keeps failing, the signing protocol is out of sync.''
              else ''Your signed order was rejected by the server (signature did not verify). Please re-sign and submit again.'')
      else if t (rlit ''is already cancelled at'') then ''This order has already been cancelled.''
      else if t (rlit ''does not own prediction intent'') then ''You can only cancel your own orders.''
      else if t (dotted [''marketid '', '' does not match prediction intent''])
        then ''This order belongs to a different market.''
      else if t (rlit ''no prediction intent found for txid'') then ''This order no longer exists.''
      else if t (ralt [rseq [rlit ''not'', ropt (RSet (\<lambda>c. is_space c \<or> c = CHR ''_'' \<or> c = CHR ''-'')),
                             rlit ''found''],
                       rlit ''not_found'',
                       rseq [rlit ''code'', spaces, rlit ''='', spaces, rlit ''5'']])
        then ''This order was already matched or cancelled.''
      else if raw \<noteq> [] then raw else ''Failed to place order'')"

section \<open>Building the intent\<close>

record intent_request =
  i_txId :: string
  i_net :: string
  i_marketId :: string
  i_accountId :: string
  i_sig :: string
  i_publicKey :: string
  i_evmAddress :: string
  i_keyType :: int
  i_chainId :: int
  i_verifyingContract :: string
  i_side :: int
  i_action :: int
  i_limitYesPrice :: int
  i_qtyShares :: int
  i_collateralCap :: int
  i_deadline :: int

text \<open>\<open>defaultPredictionIntentRequest\<close> of \<open>constants.ts\<close>; its identifier is generated.\<close>

definition defaultPredictionIntentRequest :: "string \<Rightarrow> string \<Rightarrow> intent_request" where
  "defaultPredictionIntentRequest uuid net =
     \<lparr>i_txId = uuid, i_net = net, i_marketId = [], i_accountId = ''0.0.1'', i_sig = [],
      i_publicKey = [], i_evmAddress = ''0123456789012345678901234567890123456789'', i_keyType = 0,
      i_chainId = 296, i_verifyingContract = [], i_side = 0, i_action = 0, i_limitYesPrice = 500000,
      i_qtyShares = 0, i_collateralCap = 0, i_deadline = 0\<rparr>"

record account_info =
  key_type :: string
  key_hex :: string
  evm_address :: string

text \<open>What the surrounding contexts supply. \<open>e_builtin\<close> is the text of a built-in exception; \<open>e_to_raw\<close> is \<open>PublicKey.fromString(k).toStringRaw()\<close> of the
  Hedera SDK, which may throw.\<close>

record order_env =
  e_marketId :: string
  e_account :: "string option"
  e_net :: string
  e_decimals :: nat
  e_proxy :: "string \<Rightarrow> string option"
  e_chainIds :: "string \<Rightarrow> int option"
  e_schemes :: "(int \<times> int) list"
  e_to_raw :: "string \<Rightarrow> string result"
  e_builtin :: "js_error \<Rightarrow> string"

definition normalize_key :: "(string \<Rightarrow> string result) \<Rightarrow> string \<Rightarrow> string \<Rightarrow> string" where
  "normalize_key to_raw kt raw =
     (if kt = ''ED25519'' then (if length raw > 64 then slice_last 64 raw else raw)
      else if kt = ''ECDSA_SECP256K1'' then
        (if \<not> (length raw = 66 \<and> (starts_with raw ''02'' \<or> starts_with raw ''03'')) \<and> length raw > 66
         then (case to_raw raw of Inr k \<Rightarrow> k | Inl _ \<Rightarrow> raw)
         else raw)
      else raw)"

definition check_key :: "string \<Rightarrow> string \<Rightarrow> unit result" where
  "check_key kt k =
     (if kt = ''ED25519'' \<and> length k \<noteq> 64 then
        Inl (JsError (''Invalid ED25519 public key length: '' @ string_of_int (int (length k))
          @ '' (expected 64)''))
      else if kt = ''ECDSA_SECP256K1'' \<and> length k \<noteq> 66 \<and> length k \<noteq> 130 then
        Inl (JsError (''Invalid ECDSA_SECP256K1 public key length: '' @ string_of_int (int (length k))))
      else Inr ())"

definition natural_price :: "order_type \<Rightarrow> order_action \<Rightarrow> outcome \<Rightarrow> jsn \<Rightarrow> jsn \<Rightarrow> jsn \<Rightarrow> jsn" where
  "natural_price ot act oc bid ask limit =
     (if ot = OMarket then
        (if act = ABuy then (if oc = OYes then \<bar>ask\<bar> else 1 - bid)
         else (if oc = OYes then bid else 1 - \<bar>ask\<bar>))
      else limit)"

definition snap_milli :: "jsn \<Rightarrow> jsn" where
  "snap_milli x = jround (\<bar>x\<bar> * lit 1000) / lit 1000"

definition is_hex40 :: "string \<Rightarrow> bool" where
  "is_hex40 s = rx_full (rrep 40 (RSet is_hex_lower)) s"

definition order_cap_side :: "outcome \<Rightarrow> int" where
  "order_cap_side oc = (if oc = OYes then SIDE_YES else SIDE_NO)"

definition order_action_code :: "order_action \<Rightarrow> int" where
  "order_action_code act = (if act = ASell then ACTION_SELL else ACTION_BUY)"

definition generatePredictionIntent ::
  "order_env \<Rightarrow> string \<Rightarrow> int \<Rightarrow> account_info \<Rightarrow> order_type \<Rightarrow> order_action \<Rightarrow> outcome
    \<Rightarrow> jsn \<Rightarrow> jsn \<Rightarrow> jsn \<Rightarrow> jsn \<Rightarrow> intent_request result" where
  "generatePredictionIntent env uuid nowMs acc ot act oc bid ask sh limit =
     (case e_account env of
        None \<Rightarrow> Inr ((defaultPredictionIntentRequest uuid ''testnet'')\<lparr>i_marketId := e_marketId env\<rparr>)
      | Some account \<Rightarrow>
          let pk = normalize_key (e_to_raw env) (key_type acc) (key_hex acc) in
          bind_result (check_key (key_type acc) pk) (\<lambda>_.
          let p = snap_milli (natural_price ot act oc bid ask limit);
              net = to_lower (e_net env);
              s = order_cap_side oc; a = order_action_code act in
          bind_result (toLimitYesPrice oc p) (\<lambda>limitYes.
          bind_result (toBaseUnits sh (e_decimals env)) (\<lambda>qty.
          bind_result (computeCollateralCap s a qty limitYes) (\<lambda>cap.
          let vc = strip_0x_lower (case e_proxy env net of Some x \<Rightarrow> x | None \<Rightarrow> []) in
          if \<not> is_hex40 vc then
            Inl (JsError ''Trading contract address is not available for this network yet. Please refresh and try again.'')
          else
          (let chain = (case e_chainIds env net of Some c \<Rightarrow> c
                        | None \<Rightarrow> (case DEFAULT_CHAIN_IDS net of Some c \<Rightarrow> c | None \<Rightarrow> 296)) in
           bind_result (keyTypeToInt (key_type acc)) (\<lambda>kti.
           Inr \<lparr>i_txId = uuid, i_net = net, i_marketId = e_marketId env, i_accountId = account,
                i_sig = [], i_publicKey = pk,
                i_evmAddress = to_lower (if starts_with (evm_address acc) ''0x'' then drop 2 (evm_address acc)
                                         else evm_address acc),
                i_keyType = kti, i_chainId = chain, i_verifyingContract = vc, i_side = s, i_action = a,
                i_limitYesPrice = limitYes, i_qtyShares = qty, i_collateralCap = cap,
                i_deadline = nowMs div 1000 + DEFAULT_DEADLINE_SECONDS\<rparr>)))))))"

definition toAuth :: "intent_request \<Rightarrow> AuthorizationV2" where
  "toAuth i =
     \<lparr>chainId = i_chainId i, verifyingContract = i_verifyingContract i, signer = i_evmAddress i,
      marketId = i_marketId i, txId = i_txId i, side = i_side i, action = i_action i,
      limitYesPrice = i_limitYesPrice i, qtyShares = i_qtyShares i, collateralCap = i_collateralCap i,
      deadline = i_deadline i\<rparr>"

section \<open>The state of the hook\<close>

datatype processing_step = SIdle | SSigning | SSubmitting

datatype toast = Success string | Failure string | Info string

text \<open>\<open>l_inflight\<close> holds, for each signing that waits for the wallet, what its closure captured;
  \<open>l_ref\<close> is \<open>signAbortRef\<close>, and \<open>l_cancelled\<close> the tokens marked cancelled. \<open>l_sending\<close> holds the intents
  sent to the server that wait for its answer. \<open>l_log\<close> is a history variable: the messages the wallet
  signed for signings that were not cancelled, with the signatures.\<close>

record lifecycle =
  l_processing :: bool
  l_step :: processing_step
  l_intent :: "intent_request option"
  l_signature :: "string option"
  l_keccak :: "string option"
  l_txId :: "string option"
  l_next :: nat
  l_ref :: "nat option"
  l_cancelled :: "nat set"
  l_inflight :: "nat \<Rightarrow> (intent_request \<times> string) option"
  l_sending :: "intent_request list"
  l_sells :: pending_sells
  l_toasts :: "toast list"
  l_log :: "(string \<times> string) list"

definition init_lifecycle :: lifecycle where
  "init_lifecycle = \<lparr>l_processing = False, l_step = SIdle, l_intent = None, l_signature = None,
     l_keccak = None, l_txId = None, l_next = 0, l_ref = None, l_cancelled = {},
     l_inflight = (\<lambda>_. None), l_sending = [], l_sells = [], l_toasts = [], l_log = []\<rparr>"

definition isSigned :: "lifecycle \<Rightarrow> bool" where
  "isSigned s \<longleftrightarrow> (case l_signature s of Some g \<Rightarrow> g \<noteq> [] | None \<Rightarrow> False) \<and> l_intent s \<noteq> None"

definition say :: "toast \<Rightarrow> lifecycle \<Rightarrow> lifecycle" where
  "say t s = s\<lparr>l_toasts := l_toasts s @ [t]\<rparr>"

definition idle :: "lifecycle \<Rightarrow> lifecycle" where
  "idle s = s\<lparr>l_processing := False, l_step := SIdle\<rparr>"

definition busy :: "processing_step \<Rightarrow> lifecycle \<Rightarrow> lifecycle" where
  "busy p s = s\<lparr>l_processing := True, l_step := p\<rparr>"


section \<open>Signing\<close>

record sign_input =
  si_form :: trading_form
  si_derived :: trading_derived
  si_type :: order_type
  si_action :: order_action
  si_posYes :: jsn
  si_posNo :: jsn
  si_hasYes :: bool
  si_hasNo :: bool
  si_known :: "account_info option"
  si_fetched :: "account_info option"
  si_uuid :: string
  si_now :: int

definition lacks_liquidity :: "sign_input \<Rightarrow> bool" where
  "lacks_liquidity si \<longleftrightarrow>
     (let yes = (f_outcome (si_form si) = OYes); buy = (si_action si = ABuy);
          needsYesBids = (buy \<and> \<not> yes) \<or> (\<not> buy \<and> yes);
          needsNoBids = (buy \<and> yes) \<or> (\<not> buy \<and> \<not> yes)
      in (needsYesBids \<and> \<not> si_hasYes si) \<or> (needsNoBids \<and> \<not> si_hasNo si))"

definition sign_preflight :: "order_env \<Rightarrow> sign_input \<Rightarrow> string option" where
  "sign_preflight env si =
     (let f = si_form si; yes = (f_outcome f = OYes);
          eff = (if yes then limitPrice f else 1 - limitPrice f);
          held = (if yes then si_posYes si else si_posNo si)
      in if e_marketId env = [] then Some ''Market ID is missing. Please refresh the page.''
         else if e_account env = None then Some ''Please connect your wallet first''
         else if eff \<le> 0 \<or> amountUsd f \<le> 0 then Some ''Invalid order parameters''
         else if si_type si = OMarket \<and> lacks_liquidity si then
           Some ''Not enough liquidity in the order book for this size. Try a limit order instead.''
         else if si_action si = ASell \<and> shares (si_derived si) > held + lit (1 / 10 ^ 9) then
           Some (''Insufficient '' @ to_upper (outcome_text (f_outcome f)) @ '' shares to sell (have ''
                 @ to_fixed held 3 @ '').'')
         else None)"

definition FRONTEND_SIG_VERSION :: nat where "FRONTEND_SIG_VERSION = 2"

text \<open>\<open>findIndex\<close> of the first scheme whose period holds now; none means no drift.\<close>

definition active_scheme :: "int \<Rightarrow> (int \<times> int) list \<Rightarrow> nat option" where
  "active_scheme nowSec rs =
     (let i = length (takeWhile (\<lambda>(a, b). \<not> (a \<le> nowSec \<and> nowSec < b)) rs)
      in if i < length rs then Some i else None)"

definition scheme_drift :: "int \<Rightarrow> (int \<times> int) list \<Rightarrow> bool" where
  "scheme_drift nowSec rs =
     (case active_scheme nowSec rs of None \<Rightarrow> False | Some v \<Rightarrow> v \<noteq> FRONTEND_SIG_VERSION)"

definition error_text :: "order_env \<Rightarrow> js_error \<Rightarrow> string \<Rightarrow> string" where
  "error_text env e dflt =
     (let m = (case e of JsError m \<Rightarrow> m | _ \<Rightarrow> e_builtin env e) in if m = [] then dflt else m)"

text \<open>What is handed to the wallet: the intent and its message, or the text of the failure.\<close>

definition sign_prepare ::
  "order_env \<Rightarrow> (AuthorizationV2 \<Rightarrow> string result) \<Rightarrow> sign_input \<Rightarrow> account_info
    \<Rightarrow> string + intent_request \<times> string" where
  "sign_prepare env msg si acc =
     (let f = si_form si; d = si_derived si in
      case generatePredictionIntent env (si_uuid si) (si_now si) acc (si_type si) (si_action si)
             (f_outcome f) (1 - noAskPrice d) (yesAskPrice d) (shares d) (limitPrice f) of
        Inl e \<Rightarrow> Inl (error_text env e ''Failed to sign order'')
      | Inr i \<Rightarrow>
          if i_marketId i = [] then Inl ''Failed to prepare order - Market ID missing''
          else if scheme_drift (si_now si div 1000) (e_schemes env) then
            Inl ''Signing scheme has changed - refresh the app before placing orders.''
          else (case msg (toAuth i) of
                  Inl e \<Rightarrow> Inl (error_text env e ''Failed to sign order'')
                | Inr k \<Rightarrow> Inr (i, k)))"

definition sign_start ::
  "order_env \<Rightarrow> (AuthorizationV2 \<Rightarrow> string result) \<Rightarrow> sign_input \<Rightarrow> lifecycle \<Rightarrow> lifecycle" where
  "sign_start env msg si s =
     (case sign_preflight env si of
        Some t \<Rightarrow> say (Failure t) s
      | None \<Rightarrow>
          let tok = l_next s;
              s1 = busy SSigning (s\<lparr>l_next := Suc tok, l_ref := Some tok\<rparr>);
              fail = (\<lambda>t s. idle (say (Failure t) (s\<lparr>l_ref := None\<rparr>)))
          in case (case si_known si of Some a \<Rightarrow> Some a | None \<Rightarrow> si_fetched si) of
               None \<Rightarrow> fail ''Could not load account key from mirror node. Please try again.'' s1
             | Some acc \<Rightarrow>
                 let s2 = s1\<lparr>l_txId := Some (si_uuid si)\<rparr> in
                 (case sign_prepare env msg si acc of
                    Inl t \<Rightarrow> fail t s2
                  | Inr (i, k) \<Rightarrow> s2\<lparr>l_inflight := (l_inflight s2)(tok \<mapsto> (i, k))\<rparr>))"

text \<open>The wallet's answer to a signing: a signature or an error (whether it is a \<open>NotLeaderTabError\<close>, and
  its message). The answer to a cancelled signing is discarded.\<close>

datatype wallet_answer = Signature sig_value | NoSignature | WalletFailed bool string

definition accept_signature ::
  "intent_request \<Rightarrow> string \<Rightarrow> sig_value \<Rightarrow> lifecycle \<Rightarrow> lifecycle" where
  "accept_signature i k g s =
     (let b = normalizeSignatureBase64 g in
      say (Success ''Order signed! Click Submit to place your order.'')
        (s\<lparr>l_keccak := Some k, l_intent := Some i, l_signature := Some b, l_log := l_log s @ [(k, b)]\<rparr>))"

fun answer_failure :: "wallet_answer \<Rightarrow> toast" where
  "answer_failure (WalletFailed notLeader m) =
     (if notLeader then Info ''Wallet is active in another Prism tab. Click \"Use wallet here\" to take over.''
      else Failure (if m = [] then ''Failed to sign order'' else m))"
| "answer_failure _ = Failure ''Wallet returned an empty signature. Please retry.''"

definition sign_finish :: "nat \<Rightarrow> wallet_answer \<Rightarrow> lifecycle \<Rightarrow> lifecycle" where
  "sign_finish tok ans s =
     (case l_inflight s tok of
        None \<Rightarrow> s
      | Some (i, k) \<Rightarrow>
          let s1 = s\<lparr>l_inflight := (l_inflight s)(tok := None),
                     l_ref := (if l_ref s = Some tok then None else l_ref s)\<rparr>
          in if tok \<in> l_cancelled s then s1
             else idle (case ans of
                          Signature g \<Rightarrow>
                            if g = SigString [] then say (answer_failure NoSignature) s1
                            else accept_signature i k g s1
                        | _ \<Rightarrow> say (answer_failure ans) s1))"

section \<open>Cancelling and submitting\<close>

definition cancelOrder :: "lifecycle \<Rightarrow> lifecycle" where
  "cancelOrder s = s\<lparr>l_intent := None, l_signature := None, l_keccak := None, l_txId := None\<rparr>"

definition cancelSigning :: "lifecycle \<Rightarrow> lifecycle" where
  "cancelSigning s =
     (let s1 = (case l_ref s of
                  Some t \<Rightarrow> s\<lparr>l_cancelled := insert t (l_cancelled s), l_ref := None\<rparr>
                | None \<Rightarrow> s)
      in say (Info ''Signing cancelled'') (idle (s1\<lparr>l_txId := None\<rparr>)))"

text \<open>\<open>resetOrder\<close>, apart from the form's fields it resets.\<close>

definition resetOrder :: "lifecycle \<Rightarrow> lifecycle" where
  "resetOrder s = cancelOrder (s\<lparr>l_txId := None\<rparr>)"

text \<open>The \<open>catch\<close> of \<open>submitOrder\<close>: the mapped error, and for a rejected signature the signed order is
  dropped.\<close>

definition submit_failed :: "string \<Rightarrow> lifecycle \<Rightarrow> lifecycle" where
  "submit_failed raw s =
     idle (let s1 = say (Failure (mapServerError raw CtxSubmit)) s
           in if signature_rejected raw then cancelOrder s1 else s1)"

definition submit_start ::
  "order_env \<Rightarrow> (AuthorizationV2 \<Rightarrow> string result) \<Rightarrow> int \<Rightarrow> lifecycle \<Rightarrow> lifecycle" where
  "submit_start env msg nowMs s =
     (case (e_account env, l_intent s, l_signature s) of
        (Some _, Some i, Some g) \<Rightarrow>
          if g = [] then say (Failure ''Order not signed yet'') s
          else
          (let signed = i\<lparr>i_sig := g\<rparr>; s1 = busy SSubmitting s in
           case msg (toAuth signed) of
             Inl e \<Rightarrow> submit_failed (error_text env e []) s1
           | Inr k \<Rightarrow>
               if i_deadline signed - nowMs div 1000 < 60 then
                 idle (say (Failure ''This signed order has expired. Please sign it again.'')
                         (s1\<lparr>l_intent := None, l_signature := None\<rparr>))
               else if Some k \<noteq> l_keccak s then
                 idle (say (Failure ''Order payload changed after signing. Please re-sign.'') s1)
               else s1\<lparr>l_sending := l_sending s1 @ [signed]\<rparr>)
      | _ \<Rightarrow> say (Failure ''Order not signed yet'') s)"

definition sell_entry :: "nat \<Rightarrow> intent_request \<Rightarrow> PendingSell" where
  "sell_entry decimals i =
     (let yes = num_of_bigint (i_limitYesPrice i) / lit 1000000 in
      \<lparr>ps_txId = i_txId i, ps_marketId = i_marketId i,
       ps_outcome = (if i_side i = SIDE_YES then OYes else ONo),
       ps_qty = num_of_bigint (i_qtyShares i) / pow10 decimals,
       ps_priceUsd = (if i_side i = SIDE_YES then yes else 1 - yes), ps_ts = 0\<rparr>)"

text \<open>The server's answer, and for an accepted order the answer to the allowance query that follows it
  in the same \<open>try\<close>.\<close>

datatype server_answer = Rejected_by_server string | Accepted "string option"

definition submit_finish :: "order_env \<Rightarrow> int \<Rightarrow> intent_request \<Rightarrow> server_answer \<Rightarrow> lifecycle \<Rightarrow> lifecycle" where
  "submit_finish env nowMs i ans s =
     (if i \<notin> set (l_sending s) then s
      else
      (let s1 = s\<lparr>l_sending := remove1 i (l_sending s)\<rparr> in
       case ans of
         Rejected_by_server raw \<Rightarrow> submit_failed raw s1
       | Accepted allowance_error \<Rightarrow>
           let s2 = say (Success ''Order placed successfully!'') s1;
               s3 = (if i_action i = ACTION_SELL
                     then s2\<lparr>l_sells := fst (recordPendingSell nowMs (sell_entry (e_decimals env) i) (l_sells s2))\<rparr>
                     else s2);
               s4 = s3\<lparr>l_intent := None, l_signature := None\<rparr>
           in (case allowance_error of None \<Rightarrow> idle s4 | Some raw \<Rightarrow> submit_failed raw s4)))"

definition uuid_classes :: "(char \<Rightarrow> bool) list" where
  "uuid_classes =
     replicate 8 is_hex_lower @ [(=) (CHR ''-'')] @ replicate 4 is_hex_lower @ [(=) (CHR ''-'')]
     @ replicate 4 is_hex_lower @ [(=) (CHR ''-'')] @ replicate 4 is_hex_lower @ [(=) (CHR ''-'')]
     @ replicate 12 is_hex_lower"

definition is_uuid :: "string \<Rightarrow> bool" where
  "is_uuid s = rx_full (rseq (map RSet uuid_classes)) (to_lower s)"

text \<open>\<open>cancelPendingOrder\<close>: its guards, the on-demand key lookup, and the outcome of \<open>submitSignedCancel\<close>
  (modelled with the cancellations) as a parameter. The thrown error, if any, is returned.\<close>

definition cancelPendingOrder ::
  "order_env \<Rightarrow> string \<Rightarrow> account_info option \<Rightarrow> account_info option \<Rightarrow> (account_info \<Rightarrow> string + unit)
    \<Rightarrow> lifecycle \<Rightarrow> string option \<times> lifecycle" where
  "cancelPendingOrder env tx known fetched submitSignedCancel s =
     (if e_marketId env = [] then (Some ''Market ID missing'', say (Failure ''Market ID is missing'') s)
      else if \<not> is_uuid tx then
        (Some ''Invalid order ID format'', say (Failure ''Invalid order ID format'') s)
      else if e_account env = None then
        (Some ''Wallet not connected'', say (Failure ''Connect your wallet to cancel an order'') s)
      else (case (case known of Some a \<Rightarrow> Some a | None \<Rightarrow> fetched) of
              None \<Rightarrow> (Some ''userAccountInfo unavailable'',
                 say (Failure ''Could not load account key from mirror node. Please try again.'') s)
            | Some acc \<Rightarrow>
                (case submitSignedCancel acc of
                   Inr _ \<Rightarrow> (None, say (Success ''Order cancelled successfully'') s)
                 | Inl e \<Rightarrow> (Some e, say (Failure (mapServerError e CtxCancel)) s))))"

section \<open>The transition relation\<close>

inductive order_step ::
  "order_env \<Rightarrow> (AuthorizationV2 \<Rightarrow> string result) \<Rightarrow> lifecycle \<Rightarrow> lifecycle \<Rightarrow> bool"
  for env msg where
  start: "order_step env msg s (sign_start env msg si s)"
| finish: "order_step env msg s (sign_finish tok ans s)"
| cancel_signing: "order_step env msg s (cancelSigning s)"
| cancel_order: "order_step env msg s (cancelOrder s)"
| reset: "order_step env msg s (resetOrder s)"
| submit: "order_step env msg s (submit_start env msg nowMs s)"
| answer: "order_step env msg s (submit_finish env nowMs i ans s)"
| cancel_pending: "order_step env msg s (snd (cancelPendingOrder env tx known fetched sub s))"

inductive order_reachable :: "order_env \<Rightarrow> (AuthorizationV2 \<Rightarrow> string result) \<Rightarrow> lifecycle \<Rightarrow> bool"
  for env msg where
  init: "order_reachable env msg init_lifecycle"
| step: "order_reachable env msg s \<Longrightarrow> order_step env msg s s' \<Longrightarrow> order_reachable env msg s'"

inductive_cases order_stepE: "order_step env msg s s'"


section \<open>From book levels to limits\<close>

text \<open>\<open>level j x k\<close>: the number \<open>x\<close> is the price \<open>k / 10 ^ 6\<close> after at most \<open>j\<close> roundings.\<close>

definition level :: "nat \<Rightarrow> jsn \<Rightarrow> int \<Rightarrow> bool" where
  "level j x k \<longleftrightarrow>
     (\<exists>p. x = JNum p \<and> 0 \<le> p \<and> p \<le> 1 \<and> \<bar>p * 1000000 - of_int k\<bar> \<le> of_nat j / 2 ^ 30)"

lemma level_grid:
  assumes "0 \<le> k" "k \<le> 1000000"
  shows "level 1 (JNum (grid k)) k"
  using grid_price [OF assms] by (simp add: level_def grid_def)

lemma level_complement:
  assumes "level j x k"
  shows "level (Suc j) (1 - x) (1000000 - k)"
proof -
  obtain p where p: "x = JNum p" "0 \<le> p" "p \<le> 1" "\<bar>p * 1000000 - of_int k\<bar> \<le> of_nat j / 2 ^ 30"
    using assms by (auto simp: level_def)
  have u: "0 \<le> 1 - p" "1 - p \<le> 1" using p by simp_all
  have num: "(1::rat) / 2 ^ 53 * 1000000 \<le> 1 / 2 ^ 30" by simp
  have s: "(of_nat (Suc j) :: rat) / 2 ^ 30 = of_nat j / 2 ^ 30 + 1 / 2 ^ 30"
    by (simp add: add_divide_distrib)
  have "\<bar>fl (1 - p) * 1000000 - of_int (1000000 - k)\<bar> \<le> of_nat (Suc j) / 2 ^ 30"
    using p(4) fl_unit_error [OF u] num s unfolding of_int_diff of_int_numeral by linarith
  moreover have "1 - x = JNum (fl (1 - p))"
    unfolding p(1) one_jsn_def minus_num by (rule jsfin_unit) (use u in simp)
  ultimately show ?thesis using fl.rd_unit [OF u] by (auto simp: level_def)
qed

lemma level_abs: "level j x k \<Longrightarrow> level j \<bar>x\<bar> k"
  by (auto simp: level_def)

lemma snap_level:
  assumes "level j x (1000 * n)" "j \<le> 8" "0 \<le> n" "n \<le> 1000"
  shows "snap_milli x = JNum (tick_price n)"
proof -
  obtain p where p: "x = JNum p" "0 \<le> p" "p \<le> 1"
    "\<bar>p * 1000000 - of_int (1000 * n)\<bar> \<le> of_nat j / 2 ^ 30"
    using assms(1) by (auto simp: level_def)
  have "(of_nat j :: rat) / 2 ^ 30 \<le> 8 / 2 ^ 30" using assms(2) by (intro divide_right_mono) auto
  also have "\<dots> \<le> 1 / 2 ^ 20" by simp
  finally have near: "\<bar>p * 1000 - of_int n\<bar> \<le> 1 / 2 ^ 20"
    using p(4) unfolding of_int_mult of_int_numeral by linarith
  have b: "0 \<le> p * 1000" "p * 1000 \<le> 1000" using p by simp_all
  have num: "(1::rat) / 2 ^ 42 + 1 / 2 ^ 20 < 1 / 2" by simp
  have "\<bar>fl (p * 1000) - of_int n\<bar> < 1 / 2"
    using near fl_small_error [of "p * 1000"] b num by linarith
  then have r: "\<lfloor>fl (p * 1000) + 1 / 2\<rfloor> = n" by (rule floor_half_up_int)
  have "jsfin (p * 1000) = JNum (fl (p * 1000))"
    using jsfin_small(1) [of "p * 1000" 1000] b by simp
  moreover have "lit 1000 = JNum 1000" using jsfin_int [of 1000] by simp
  ultimately have "jround (\<bar>x\<bar> * lit 1000) = JNum (of_int n)"
    using p r by simp
  moreover have "JNum (of_int n) / lit 1000 = JNum (tick_price n)"
    using \<open>lit 1000 = JNum 1000\<close> tick_price_props(1) [OF assms(3,4)] by simp
  ultimately show ?thesis by (simp add: snap_milli_def del: times_jsn.simps)
qed

lemma tick_limit:
  assumes "0 \<le> n" "n \<le> 1000"
  shows "toLimitYesPrice oc (JNum (tick_price n)) = Inr (if oc = OYes then 1000 * n else 1000000 - 1000 * n)"
proof -
  have e: "tick_price n = grid (1000 * n)" by (simp add: tick_price_def grid_def)
  have "\<bar>grid (1000 * n) * 1000000 - of_int (1000 * n)\<bar> \<le> 1 / 2 ^ 30"
    using grid_price(4) [of "1000 * n"] assms by (simp add: grid_def)
  also have "\<dots> \<le> 1 / (8 :: rat)" by simp
  finally show ?thesis
    using toLimit_near [of "1000 * n" "grid (1000 * n)"] assms by (cases oc) (simp_all add: e)
qed

lemma level_limit:
  assumes "level j x (1000 * n)" "j \<le> 8" "0 \<le> n" "n \<le> 1000"
  shows "toLimitYesPrice oc (snap_milli x) = Inr (if oc = OYes then 1000 * n else 1000000 - 1000 * n)"
  using snap_level [OF assms] tick_limit [OF assms(3,4)] by simp

section \<open>What a generated intent contains\<close>

lemma generated_intent:
  assumes "generatePredictionIntent env uuid now acc ot act oc bid ask sh lp = Inr i"
    and "e_account env \<noteq> None"
  shows "toLimitYesPrice oc (snap_milli (natural_price ot act oc bid ask lp)) = Inr (i_limitYesPrice i)"
    "toBaseUnits sh (e_decimals env) = Inr (i_qtyShares i)"
    "computeCollateralCap (i_side i) (i_action i) (i_qtyShares i) (i_limitYesPrice i) = Inr (i_collateralCap i)"
    "i_side i = order_cap_side oc" "i_action i = order_action_code act"
    "is_hex40 (i_verifyingContract i)" "i_deadline i = now div 1000 + DEFAULT_DEADLINE_SECONDS"
    "i_txId i = uuid" "i_marketId i = e_marketId env"
  using assms
  by (auto simp: generatePredictionIntent_def bind_result_Inr_iff Let_def split: option.splits if_splits)

section \<open>Invariant of the hook\<close>

definition order_ok :: "(AuthorizationV2 \<Rightarrow> string result) \<Rightarrow> lifecycle \<Rightarrow> bool" where
  "order_ok msg s \<longleftrightarrow>
     (\<forall>i. l_intent s = Some i \<longrightarrow>
        (\<exists>k g. l_keccak s = Some k \<and> msg (toAuth i) = Inr k \<and> l_signature s = Some g \<and> (k, g) \<in> set (l_log s)))
     \<and> (\<forall>tok i k. l_inflight s tok = Some (i, k) \<longrightarrow> msg (toAuth i) = Inr k)
     \<and> (\<forall>i \<in> set (l_sending s). \<exists>k. msg (toAuth i) = Inr k \<and> (k, i_sig i) \<in> set (l_log s))"

lemma order_okI:
  assumes "\<And>i. l_intent s = Some i \<Longrightarrow>
      \<exists>k g. l_keccak s = Some k \<and> msg (toAuth i) = Inr k \<and> l_signature s = Some g \<and> (k, g) \<in> set (l_log s)"
    and "\<And>tok i k. l_inflight s tok = Some (i, k) \<Longrightarrow> msg (toAuth i) = Inr k"
    and "\<And>i. i \<in> set (l_sending s) \<Longrightarrow> \<exists>k. msg (toAuth i) = Inr k \<and> (k, i_sig i) \<in> set (l_log s)"
  shows "order_ok msg s"
  using assms by (simp add: order_ok_def)

lemma say_simps [simp]:
  "l_intent (say t s) = l_intent s" "l_signature (say t s) = l_signature s"
  "l_keccak (say t s) = l_keccak s" "l_inflight (say t s) = l_inflight s"
  "l_sending (say t s) = l_sending s" "l_log (say t s) = l_log s" "l_next (say t s) = l_next s"
  "l_cancelled (say t s) = l_cancelled s" "l_ref (say t s) = l_ref s" "l_sells (say t s) = l_sells s"
  "l_toasts (say t s) = l_toasts s @ [t]"
  by (simp_all add: say_def)

lemma idle_simps [simp]:
  "l_intent (idle s) = l_intent s" "l_signature (idle s) = l_signature s"
  "l_keccak (idle s) = l_keccak s" "l_inflight (idle s) = l_inflight s"
  "l_sending (idle s) = l_sending s" "l_log (idle s) = l_log s" "l_next (idle s) = l_next s"
  "l_cancelled (idle s) = l_cancelled s" "l_ref (idle s) = l_ref s" "l_sells (idle s) = l_sells s"
  "l_toasts (idle s) = l_toasts s"
  by (simp_all add: idle_def)

lemma busy_simps [simp]:
  "l_intent (busy p s) = l_intent s" "l_signature (busy p s) = l_signature s"
  "l_keccak (busy p s) = l_keccak s" "l_inflight (busy p s) = l_inflight s"
  "l_sending (busy p s) = l_sending s" "l_log (busy p s) = l_log s" "l_next (busy p s) = l_next s"
  "l_cancelled (busy p s) = l_cancelled s" "l_ref (busy p s) = l_ref s" "l_sells (busy p s) = l_sells s"
  "l_toasts (busy p s) = l_toasts s"
  by (simp_all add: busy_def)

text \<open>The invariant reads five fields only; a step that keeps them, or forgets the signed order, keeps it.\<close>

lemma order_ok_same:
  assumes "order_ok msg s" "l_inflight s' = l_inflight s" "l_sending s' = l_sending s" "l_log s' = l_log s"
    and "l_intent s' = None \<or> l_intent s' = l_intent s \<and> l_keccak s' = l_keccak s \<and> l_signature s' = l_signature s"
  shows "order_ok msg s'"
  using assms by (auto simp: order_ok_def)

lemma toAuth_sig [simp]: "toAuth (i\<lparr>i_sig := g\<rparr>) = toAuth i"
  by (simp add: toAuth_def)

lemma sign_prepare_msg:
  assumes "sign_prepare env msg si acc = Inr (i, k)"
  shows "msg (toAuth i) = Inr k"
  using assms by (auto simp: sign_prepare_def Let_def split: sum.splits if_splits)

lemma sign_start_ok:
  assumes "order_ok msg s"
  shows "order_ok msg (sign_start env msg si s)"
proof (cases "sign_preflight env si")
  case (Some t)
  then show ?thesis by (simp add: sign_start_def order_ok_same [OF assms])
next
  case None
  note p = None
  show ?thesis
  proof (cases "case si_known si of Some a \<Rightarrow> Some a | None \<Rightarrow> si_fetched si")
    case None
    then show ?thesis using p by (simp add: sign_start_def Let_def order_ok_same [OF assms])
  next
    case (Some acc)
    show ?thesis
    proof (cases "sign_prepare env msg si acc")
      case (Inl e)
      then show ?thesis using p Some by (simp add: sign_start_def Let_def order_ok_same [OF assms])
    next
      case (Inr ik)
      then obtain i k where ik: "sign_prepare env msg si acc = Inr (i, k)" by (cases ik) auto
      then show ?thesis using p Some assms sign_prepare_msg [OF ik]
        by (auto simp: sign_start_def Let_def order_ok_def split: if_splits)
    qed
  qed
qed

lemma sign_finish_ok:
  assumes "order_ok msg s"
  shows "order_ok msg (sign_finish tok ans s)"
proof (cases "l_inflight s tok")
  case None
  then show ?thesis using assms by (simp add: sign_finish_def)
next
  case (Some ik)
  then obtain i k where ik: "l_inflight s tok = Some (i, k)" by (cases ik) auto
  define s1 where "s1 = s\<lparr>l_inflight := (l_inflight s)(tok := None),
    l_ref := (if l_ref s = Some tok then None else l_ref s)\<rparr>"
  have s1: "order_ok msg s1" using assms by (auto simp: order_ok_def s1_def split: if_splits)
  have m: "msg (toAuth i) = Inr k" using assms ik by (auto simp: order_ok_def)
  have acc: "order_ok msg (accept_signature i k g s1)" for g
  proof (rule order_okI)
    show "\<exists>k' g'. l_keccak (accept_signature i k g s1) = Some k' \<and> msg (toAuth j) = Inr k'
        \<and> l_signature (accept_signature i k g s1) = Some g' \<and> (k', g') \<in> set (l_log (accept_signature i k g s1))"
      if "l_intent (accept_signature i k g s1) = Some j" for j
      using that m by (simp add: accept_signature_def Let_def)
    show "msg (toAuth j) = Inr k'" if "l_inflight (accept_signature i k g s1) t = Some (j, k')" for t j k'
      using that s1 by (simp add: accept_signature_def Let_def order_ok_def)
    show "\<exists>k'. msg (toAuth j) = Inr k' \<and> (k', i_sig j) \<in> set (l_log (accept_signature i k g s1))"
      if "j \<in> set (l_sending (accept_signature i k g s1))" for j
      using that s1 by (auto simp: accept_signature_def Let_def order_ok_def)
  qed
  have "sign_finish tok ans s = (if tok \<in> l_cancelled s then s1
      else idle (case ans of
          Signature g \<Rightarrow> if g = SigString [] then say (answer_failure NoSignature) s1
            else accept_signature i k g s1
        | _ \<Rightarrow> say (answer_failure ans) s1))"
    by (simp only: sign_finish_def ik option.case prod.case Let_def s1_def)
  moreover have "order_ok msg (idle (say x s1))" for x by (rule order_ok_same [OF s1]) simp_all
  moreover have "order_ok msg (idle (accept_signature i k g s1))" for g
    by (rule order_ok_same [OF acc [of g]]) simp_all
  ultimately show ?thesis using s1 by (cases ans) auto
qed

lemma submit_failed_ok: "order_ok msg s \<Longrightarrow> order_ok msg (submit_failed raw s)"
  by (erule order_ok_same) (simp_all add: submit_failed_def cancelOrder_def Let_def)

text \<open>A signed order that is still valid is sent as it was signed; the comparison with the message that
  was signed always succeeds.\<close>

lemma submit_start_cases:
  assumes "order_ok msg s" "l_intent s = Some i" "l_signature s = Some g" "g \<noteq> []"
    and "e_account env \<noteq> None"
  shows "submit_start env msg now s =
    (if i_deadline i - now div 1000 < 60 then
       idle (say (Failure ''This signed order has expired. Please sign it again.'')
         ((busy SSubmitting s)\<lparr>l_intent := None, l_signature := None\<rparr>))
     else (busy SSubmitting s)\<lparr>l_sending := l_sending s @ [i\<lparr>i_sig := g\<rparr>]\<rparr>)"
proof -
  obtain k where "l_keccak s = Some k" "msg (toAuth i) = Inr k"
    using assms(1,2) by (auto simp: order_ok_def)
  then show ?thesis using assms by (auto simp: submit_start_def Let_def)
qed

lemma submit_start_ok:
  assumes "order_ok msg s"
  shows "order_ok msg (submit_start env msg now s)"
proof (cases "e_account env \<noteq> None \<and> l_intent s \<noteq> None \<and> l_signature s \<noteq> None \<and> l_signature s \<noteq> Some []")
  case True
  then obtain i g where ig: "l_intent s = Some i" "l_signature s = Some g" "g \<noteq> []" "e_account env \<noteq> None"
    by auto
  obtain k where k: "msg (toAuth i) = Inr k" "(k, g) \<in> set (l_log s)"
    using assms ig by (auto simp: order_ok_def)
  have a: "order_ok msg ((busy SSubmitting s)\<lparr>l_sending := l_sending s @ [i\<lparr>i_sig := g\<rparr>]\<rparr>)"
    using assms k by (auto simp: order_ok_def)
  have b: "order_ok msg (idle (say x ((busy SSubmitting s)\<lparr>l_intent := None, l_signature := None\<rparr>)))" for x
    by (rule order_ok_same [OF assms]) simp_all
  show ?thesis unfolding submit_start_cases [OF assms ig] using a b by simp
next
  case False
  then have "submit_start env msg now s = say (Failure ''Order not signed yet'') s"
    by (auto simp: submit_start_def split: option.splits)
  then show ?thesis by (simp add: order_ok_same [OF assms])
qed

lemma submit_finish_ok:
  assumes "order_ok msg s"
  shows "order_ok msg (submit_finish env now i ans s)"
proof -
  have r: "order_ok msg (s\<lparr>l_sending := remove1 i (l_sending s)\<rparr>)"
    using assms by (auto simp: order_ok_def dest: in_set_remove1 notin_set_remove1 set_remove1_subset [THEN subsetD])
  have r': "order_ok msg (x\<lparr>l_intent := None, l_signature := None\<rparr>)"
    if "l_inflight x = l_inflight s" "l_sending x = remove1 i (l_sending s)" "l_log x = l_log s" for x
    by (rule order_ok_same [OF r]) (simp_all add: that)
  have "order_ok msg (idle x)" if "order_ok msg x" for x
    by (rule order_ok_same [OF that]) simp_all
  then show ?thesis using assms r r'
    by (auto simp: submit_finish_def Let_def submit_failed_ok split: server_answer.splits option.splits)
qed

lemma order_step_ok: "order_step env msg s s' \<Longrightarrow> order_ok msg s \<Longrightarrow> order_ok msg s'"
proof (induction rule: order_step.induct)
  case (cancel_pending s tx known fetched sub)
  then show ?case
    by (intro order_ok_same [OF cancel_pending])
      (auto simp: cancelPendingOrder_def split: option.splits sum.splits)
next
  case (cancel_signing s)
  then show ?case
    by (intro order_ok_same [OF cancel_signing]) (auto simp: cancelSigning_def Let_def split: option.splits)
qed (auto simp: sign_start_ok sign_finish_ok submit_start_ok submit_finish_ok cancelOrder_def resetOrder_def
    intro: order_ok_same)

lemma reachable_ok: "order_reachable env msg s \<Longrightarrow> order_ok msg s"
proof (induction rule: order_reachable.induct)
  case init
  show ?case by (simp add: order_ok_def init_lifecycle_def)
next
  case (step s s')
  then show ?case by (blast intro: order_step_ok)
qed


section \<open>Properties\<close>

text \<open>C14. An intent built for a limit order at a tick price carries exactly that price as an integer
  YES limit (complemented for NO), the side and action codes of the form, a forty-digit contract
  address, the deadline one hour ahead, and, when it buys a positive quantity, a positive cap as the
  contract requires.\<close>

theorem limit_order_intent_exact:
  assumes "generatePredictionIntent env uuid now acc OLimit act oc bid ask sh (lit (of_int n / 1000)) = Inr i"
    and "e_account env \<noteq> None" "0 < n" "n < 1000"
  shows "i_limitYesPrice i = (if oc = OYes then 1000 * n else PRICE_SCALE - 1000 * n)
    \<and> i_side i = order_cap_side oc \<and> i_action i = order_action_code act
    \<and> is_hex40 (i_verifyingContract i) \<and> i_deadline i = now div 1000 + 3600
    \<and> (act = ABuy \<and> 0 < i_qtyShares i \<longrightarrow> 0 < i_collateralCap i)
    \<and> (act = ASell \<longrightarrow> i_collateralCap i = 0)"
proof -
  note g = generated_intent [OF assms(1,2)]
  have "lit (of_int n / 1000) = JNum (grid (1000 * n))"
    using tick_price_props(1) [of n] assms(3,4) by (simp add: tick_price_def grid_def)
  then have "level 1 (lit (of_int n / 1000)) (1000 * n)"
    using level_grid [of "1000 * n"] assms(3,4) by simp
  then have lim: "i_limitYesPrice i = (if oc = OYes then 1000 * n else PRICE_SCALE - 1000 * n)"
    using level_limit [of 1 _ n oc] g(1) assms(3,4)
    by (cases "oc = OYes") (simp_all add: natural_price_def js_simps)
  have pos: "0 < i_collateralCap i" if "act = ABuy" "0 < i_qtyShares i"
  proof -
    let ?q = "i_qtyShares i" and ?l = "i_limitYesPrice i"
    have l: "0 < ?l" "?l < PRICE_SCALE" using lim assms(3,4) by (auto simp: js_simps)
    have a: "i_action i = ACTION_BUY" using g(5) that by (simp add: order_action_code_def)
    show ?thesis
    proof (cases "i_side i = SIDE_YES")
      case True
      have c: "i_collateralCap i = (?q * ?l + PRICE_SCALE - 1) div PRICE_SCALE"
        using g(3) a True that l cap_values(2) [of ?q ?l] by simp
      have "0 < ?q * ?l" using that l by (simp add: zero_less_mult_iff)
      then have "PRICE_SCALE \<le> ?q * ?l + PRICE_SCALE - 1" by simp
      then show ?thesis unfolding c by (simp add: PRICE_SCALE_def pos_imp_zdiv_pos_iff)
    next
      case False
      then have "i_side i = SIDE_NO" using g(4) by (simp add: order_cap_side_def split: if_splits)
      then have c: "i_collateralCap i = (?q * (PRICE_SCALE - ?l) + PRICE_SCALE - 1) div PRICE_SCALE + 100"
        using g(3) a that l cap_values(3) [of ?q ?l] by simp
      have "0 \<le> ?q * (PRICE_SCALE - ?l)" using that l by simp
      then have "0 \<le> (?q * (PRICE_SCALE - ?l) + PRICE_SCALE - 1) div PRICE_SCALE"
        by (simp add: PRICE_SCALE_def pos_imp_zdiv_nonneg_iff)
      then show ?thesis unfolding c by simp
    qed
  qed
  have "act = ASell \<Longrightarrow> i_collateralCap i = 0"
    using g(3,5) by (simp add: computeCollateralCap_def order_action_code_def)
  then show ?thesis using lim g pos by (simp add: DEFAULT_DEADLINE_SECONDS_def)
qed

definition demo_order_env :: order_env where
  "demo_order_env = \<lparr>e_marketId = ''01890f3e-7c10-7cc1-98bc-0242ac120002'', e_account = Some ''0.0.7'',
     e_net = ''testnet'', e_decimals = 6,
     e_proxy = (\<lambda>_. Some ''0x1111111111111111111111111111111111111111''), e_chainIds = (\<lambda>_. None),
     e_schemes = [], e_to_raw = (\<lambda>_. Inl TypeError), e_builtin = (\<lambda>_. [])\<rparr>"

definition demo_account :: account_info where
  "demo_account = \<lparr>key_type = ''ED25519'', key_hex = replicate 64 (CHR ''a''), evm_address = ''0x'' @ replicate 40 (CHR ''2'')\<rparr>"

lemma demo_hex40: "is_hex40 ''1111111111111111111111111111111111111111''"
  by code_simp

lemma demo_generates:
  assumes "toLimitYesPrice oc (snap_milli (natural_price ot act oc bid ask lp)) = Inr l"
    and "toBaseUnits sh 6 = Inr q" "0 \<le> q" "0 \<le> l" "l \<le> PRICE_SCALE"
  shows "\<exists>i. generatePredictionIntent demo_order_env uuid 0 demo_account ot act oc bid ask sh lp = Inr i
    \<and> i_qtyShares i = q"
proof -
  obtain c where "computeCollateralCap (order_cap_side oc) (order_action_code act) q l = Inr c"
    using cap_values [OF assms(3-5)] by (cases act; cases oc) (auto simp: order_cap_side_def order_action_code_def)
  moreover have "strip_0x_lower ''0x1111111111111111111111111111111111111111''
      = ''1111111111111111111111111111111111111111''"
    by (simp add: strip_0x_lower_def strip0x_def starts_with_def to_lower_def lower_char_def code_of_def)
  ultimately show ?thesis using assms demo_hex40
    by (simp add: generatePredictionIntent_def demo_order_env_def demo_account_def normalize_key_def
        check_key_def keyTypeToInt_def Let_def)
qed

theorem limit_order_intent_exact_witness:
  "\<exists>i. generatePredictionIntent demo_order_env ''tx'' 0 demo_account OLimit ABuy ONo 0 0 (JNum 4)
      (lit (of_int 570 / 1000)) = Inr i
    \<and> i_limitYesPrice i = 430000 \<and> 0 < i_collateralCap i"
proof -
  have "level 1 (lit (of_int 570 / 1000)) (1000 * 570)"
    using level_grid [of 570000] tick_price_props(1) [of 570] by (simp add: tick_price_def grid_def)
  from level_limit [OF this, of ONo]
  have l: "toLimitYesPrice ONo (snap_milli (natural_price OLimit ABuy ONo 0 0 (lit (of_int 570 / 1000)))) = Inr 430000"
    by (simp add: natural_price_def)
  have q: "toBaseUnits (JNum 4) 6 = Inr 4000000"
    using toBaseUnits_num [of 6 4] by (simp add: floor_eq_iff)
  obtain i where i: "generatePredictionIntent demo_order_env ''tx'' 0 demo_account OLimit ABuy ONo 0 0 (JNum 4)
      (lit (of_int 570 / 1000)) = Inr i" "i_qtyShares i = 4000000"
    using demo_generates [where uuid = "''tx''", OF l q] by (auto simp: js_simps)
  show ?thesis using limit_order_intent_exact [OF i(1)] i
    by (simp add: demo_order_env_def js_simps)
qed

definition takes_asks :: "order_action \<Rightarrow> outcome \<Rightarrow> bool" where
  "takes_asks act oc \<longleftrightarrow> (act = ABuy) = (oc = OYes)"

definition on_ticks :: "OrderDetail list \<Rightarrow> bool" where
  "on_ticks ds \<longleftrightarrow> list_all (\<lambda>d. 1000 dvd od_limitYesPrice d) ds"

lemma with_no_intents: "getBestPricesFromBookWithIntents book [] = getBestPricesFromBook book"
  by (cases "toLegacyBook (Some book) 6")
    (simp add: getBestPricesFromBookWithIntents_def getBestPricesFromBook_def extra_orders_def Let_def
      toLegacyBook_legacy)

lemma market_level:
  fixes p0 :: order_book_price and lp :: jsn
  assumes "proper_book bs as" "on_ticks bs" "on_ticks as"
    and "(if takes_asks act oc then as else bs) \<noteq> []"
  defines "prices \<equiv> snd (fetchPrice (Inr (snapshot bs as)) [] p0)"
    and "K \<equiv> if takes_asks act oc then Min (limits as) else Max (limits bs)"
  shows "level 4 (natural_price OMarket act oc (1 - (1 - bidUsd prices)) (askUsd prices) lp)
      (if oc = OYes then K else 1000000 - K)" "1000 dvd K" "0 \<le> K" "K \<le> 1000000"
proof -
  have mono: "level j x k \<Longrightarrow> j \<le> 4 \<Longrightarrow> level 4 x k" for j x k
  proof -
    assume "level j x k" and j: "j \<le> 4"
    then obtain p where p: "x = JNum p" "0 \<le> p" "p \<le> 1"
      "\<bar>p * 1000000 - of_int k\<bar> \<le> of_nat j / 2 ^ 30"
      by (auto simp: level_def)
    have "(of_nat j :: rat) / 2 ^ 30 \<le> of_nat 4 / 2 ^ 30"
      using j by (intro divide_right_mono) (simp_all only: of_nat_le_iff zero_le_power zero_le_numeral)
    from order_trans [OF p(4) this] p(1-3) show "level 4 x k" unfolding level_def by blast
  qed
  have ok: "list_all limit_ok bs" "list_all limit_ok as"
    using assms(1) by (auto simp: proper_book_def list_all_iff)
  show dvd: "1000 dvd K" and r: "0 \<le> K" "K \<le> 1000000"
  proof -
    have "K \<in> (if takes_asks act oc then limits as else limits bs)"
      using assms(4) unfolding K_def limits_def
      by (auto intro: Max_in Min_in split: if_splits)
    then show "1000 dvd K" "0 \<le> K" "K \<le> 1000000"
      using assms(2,3) limits_range [OF ok(1)] limits_range [OF ok(2)]
      by (auto simp: on_ticks_def limits_def list_all_iff split: if_splits)
  qed
  have p: "bidUsd prices = bestYesBid (getBestPricesFromBook (snapshot bs as))"
    "askUsd prices = bestYesAsk (getBestPricesFromBook (snapshot bs as))"
    by (simp_all add: prices_def fetchPrice_def with_no_intents Let_def)
  have g: "level 1 (JNum (grid K)) K" by (rule level_grid [OF r])
  have one: "JNum 1 = 1" by (simp add: one_jsn_def)
  show "level 4 (natural_price OMarket act oc (1 - (1 - bidUsd prices)) (askUsd prices) lp)
      (if oc = OYes then K else 1000000 - K)"
  proof (cases "takes_asks act oc")
    case True
    then have "askUsd prices = 1 - (1 - JNum (grid K))"
      using best_prices_ask(2) [OF assms(1)] assms(4) unfolding p K_def one by simp
    then have a: "level 3 (askUsd prices) K"
      using level_complement [OF level_complement [OF g]] by (simp add: numeral_3_eq_3)
    have b: "level 4 (1 - \<bar>askUsd prices\<bar>) (1000000 - K)"
      using level_complement [OF level_abs [OF a]] by (simp add: numeral_eq_Suc)
    show ?thesis using True b mono [OF level_abs [OF a]]
      by (cases act; cases oc) (simp_all add: natural_price_def takes_asks_def)
  next
    case False
    then have "bidUsd prices = JNum (grid K)"
      using best_prices_bid(1) [OF assms(1)] assms(4) unfolding p K_def by simp
    then have a: "level 3 (1 - (1 - bidUsd prices)) K"
      using level_complement [OF level_complement [OF g]] by (simp add: numeral_3_eq_3)
    have b: "level 4 (1 - (1 - (1 - bidUsd prices))) (1000000 - K)"
      using level_complement [OF a] by (simp add: numeral_eq_Suc)
    show ?thesis using False b mono [OF a]
      by (cases act; cases oc) (simp_all add: natural_price_def takes_asks_def)
  qed
qed

lemma market_limit:
  fixes p0 :: order_book_price and lp :: jsn
  assumes "proper_book bs as" "on_ticks bs" "on_ticks as"
    and "(if takes_asks act oc then as else bs) \<noteq> []"
  defines "prices \<equiv> snd (fetchPrice (Inr (snapshot bs as)) [] p0)"
  shows "toLimitYesPrice oc (snap_milli (natural_price OMarket act oc (1 - (1 - bidUsd prices)) (askUsd prices) lp))
    = Inr (if takes_asks act oc then Min (limits as) else Max (limits bs))"
proof -
  let ?K = "if takes_asks act oc then Min (limits as) else Max (limits bs)"
  note m1 = market_level(1) [OF assms(1-4), of p0 lp, folded prices_def]
  note m = market_level(2-4) [OF assms(1-4)]
  define n where "n = (if oc = OYes then ?K else 1000000 - ?K) div 1000"
  have "1000 dvd (if oc = OYes then ?K else 1000000 - ?K)"
    using m(1) by (auto intro: dvd_diff)
  then have n: "(if oc = OYes then ?K else 1000000 - ?K) = 1000 * n" by (simp add: n_def)
  then have "0 \<le> n" "n \<le> 1000" using m(2,3) by (auto split: if_splits)
  from level_limit [OF m1 [unfolded n] _ this, of oc] n show ?thesis
    by (cases "oc = OYes") simp_all
qed




text \<open>Submitting a signed order that is still valid for a minute sends it exactly as it was signed;
  the check that the payload has not changed since never fails. A server that rejects the signature
  makes the client drop the signed order, so that the same bytes are not sent again.\<close>

theorem submit_sends_what_was_signed:
  assumes "order_reachable env msg s" "l_intent s = Some i" "l_signature s = Some g" "g \<noteq> []"
    and "e_account env \<noteq> None" "60 \<le> i_deadline i - now div 1000"
  shows "l_sending (submit_start env msg now s) = l_sending s @ [i\<lparr>i_sig := g\<rparr>]
    \<and> l_toasts (submit_start env msg now s) = l_toasts s
    \<and> (signature_rejected raw \<longrightarrow>
        \<not> isSigned (submit_finish env later (i\<lparr>i_sig := g\<rparr>) (Rejected_by_server raw)
                     (submit_start env msg now s)))"
proof -
  have s: "submit_start env msg now s = (busy SSubmitting s)\<lparr>l_sending := l_sending s @ [i\<lparr>i_sig := g\<rparr>]\<rparr>"
    using submit_start_cases [OF reachable_ok [OF assms(1)] assms(2-5)] assms(6) by simp
  show ?thesis unfolding s
    by (simp add: submit_finish_def submit_failed_def cancelOrder_def isSigned_def Let_def)
qed


definition demo_sign :: sign_input where
  "demo_sign = \<lparr>si_form = initial_form\<lparr>limitPrice := lit (of_int 570 / 1000), amountUsd := JNum 10\<rparr>,
     si_derived = \<lparr>effectivePrice = 0, shares = JNum 4, potentialPayout = 0, potentialProfit = 0,
       estimatedProceeds = 0, maxSellableShares = 0, sellPrice = 0, yesAskPrice = 0, noAskPrice = 0,
       yesSellPrice = 0, noSellPrice = 0\<rparr>,
     si_type = OLimit, si_action = ABuy, si_posYes = 0, si_posNo = 0, si_hasYes = True, si_hasNo = True,
     si_known = Some demo_account, si_fetched = None, si_uuid = ''tx'', si_now = 0\<rparr>"

lemma demo_signed:
  "\<exists>s i. order_reachable demo_order_env (\<lambda>_. Inr ''k'') s \<and> l_intent s = Some i
     \<and> l_signature s = Some ''sig'' \<and> i_deadline i = 3600
     \<and> generatePredictionIntent demo_order_env ''tx'' 0 demo_account OLimit ABuy OYes (1 - 0) 0 (JNum 4) (lit (of_int 570 / 1000)) = Inr i"
proof -
  let ?env = demo_order_env and ?msg = "\<lambda>_. Inr ''k'' :: string result"
  have t: "lit (of_int 570 / 1000) = JNum (tick_price 570)" "0 < tick_price 570"
    using tick_price_props(1) [of 570] tick_price_less [of 0 570] tick_price_props(2) [of 0] by simp_all
  have "level 1 (lit (of_int 570 / 1000)) (1000 * 570)"
    using level_grid [of 570000] t by (simp add: tick_price_def grid_def)
  from level_limit [OF this, of OYes]
  have l: "toLimitYesPrice OYes (snap_milli (natural_price OLimit ABuy OYes (1 - 0) 0 (lit (of_int 570 / 1000))))
      = Inr 570000"
    by (simp add: natural_price_def)
  have q: "toBaseUnits (JNum 4) 6 = Inr 4000000"
    using toBaseUnits_num [of 6 4] by (simp add: floor_eq_iff)
  obtain i where i: "generatePredictionIntent ?env ''tx'' 0 demo_account OLimit ABuy OYes (1 - 0) 0 (JNum 4)
      (lit (of_int 570 / 1000)) = Inr i"
    using demo_generates [where uuid = "''tx''", OF l q] by (auto simp: js_simps)
  have g: "i_deadline i = 3600" "i_marketId i \<noteq> []"
    using generated_intent(7,9) [OF i] by (simp_all add: demo_order_env_def DEFAULT_DEADLINE_SECONDS_def)
  have pre: "sign_preflight ?env demo_sign = None"
    using t by (simp add: sign_preflight_def demo_order_env_def demo_sign_def initial_form_def js_simps)
  have "sign_prepare ?env ?msg demo_sign demo_account = Inr (i, ''k'')"
    using i g(2) by (simp add: sign_prepare_def demo_sign_def initial_form_def scheme_drift_def
        active_scheme_def demo_order_env_def)
  then have s1: "sign_start ?env ?msg demo_sign init_lifecycle =
      (busy SSigning (init_lifecycle\<lparr>l_next := 1, l_ref := Some 0\<rparr>))
        \<lparr>l_txId := Some ''tx'', l_inflight := (l_inflight init_lifecycle)(0 \<mapsto> (i, ''k''))\<rparr>"
    using pre by (simp add: sign_start_def init_lifecycle_def demo_sign_def Let_def busy_def)
  let ?s = "sign_finish 0 (Signature (SigString ''sig'')) (sign_start ?env ?msg demo_sign init_lifecycle)"
  have "order_reachable ?env ?msg ?s"
    by (intro order_reachable.step [OF _ order_step.finish] order_reachable.step [OF _ order_step.start]
        order_reachable.init)
  moreover have "l_intent ?s = Some i \<and> l_signature ?s = Some ''sig''"
    unfolding s1 by (simp add: sign_finish_def init_lifecycle_def accept_signature_def busy_def Let_def)
  ultimately show ?thesis using g i by blast
qed


theorem submit_sends_what_was_signed_witness:
  "\<exists>s i. l_sending (submit_start demo_order_env (\<lambda>_. Inr ''k'') 1000 s) = l_sending s @ [i\<lparr>i_sig := ''sig''\<rparr>]"
proof -
  obtain s i where s: "order_reachable demo_order_env (\<lambda>_. Inr ''k'') s" "l_intent s = Some i"
    "l_signature s = Some ''sig''" "i_deadline i = 3600"
    using demo_signed by blast
  have e: "e_account demo_order_env \<noteq> None" by (simp add: demo_order_env_def)
  have d: "60 \<le> i_deadline i - 1000 div 1000" by (simp add: s(4))
  from submit_sends_what_was_signed [OF s(1-3) _ e d] show ?thesis by blast
qed

end
