(* ===== verification/FetchCache.thy ===== *)
theory FetchCache
  imports JsString
begin

text \<open>
  The cache in front of the polled reads, \<open>src/web/lib/grpcCache.ts\<close>, with the two instances of
  \<open>src/web/grpcClient.ts\<close> and the relative ages of \<open>src/web/lib/formatAge.ts\<close>. A call is answered from
  the cache, joins a running request for the same key, or starts one; a completed request fills the
  cache. Requests are numbered in the order they are started.
\<close>

section \<open>State and operations\<close>

text \<open>\<open>g_running\<close> gives the key of a running request and whether it was forced; \<open>g_log\<close> is a history
  variable: every completed request with its key, value and time.\<close>

record 'r cache =
  g_entries :: "string \<Rightarrow> ('r \<times> int) option"
  g_inflight :: "string \<Rightarrow> nat option"
  g_running :: "nat \<Rightarrow> (string \<times> bool) option"
  g_next :: nat
  g_log :: "(string \<times> 'r \<times> int) set"

definition empty_cache :: "'r cache" where
  "empty_cache = \<lparr>g_entries = (\<lambda>_. None), g_inflight = (\<lambda>_. None), g_running = (\<lambda>_. None),
     g_next = 0, g_log = {}\<rparr>"

datatype 'r reply = Hit 'r | Joined nat | Started nat

definition cached_call :: "int \<Rightarrow> string \<Rightarrow> bool \<Rightarrow> int \<Rightarrow> 'r cache \<Rightarrow> 'r reply \<times> 'r cache" where
  "cached_call ttlMs key force now c =
     (let start = (Started (g_next c),
            c\<lparr>g_running := (g_running c)(g_next c \<mapsto> (key, force)), g_next := Suc (g_next c),
              g_inflight := (if force then g_inflight c else (g_inflight c)(key \<mapsto> g_next c))\<rparr>)
      in if force then start
         else (case g_entries c key of
                 Some (v, ts) \<Rightarrow>
                   if now - ts < ttlMs then (Hit v, c)
                   else (case g_inflight c key of Some p \<Rightarrow> (Joined p, c) | None \<Rightarrow> start)
               | None \<Rightarrow> (case g_inflight c key of Some p \<Rightarrow> (Joined p, c) | None \<Rightarrow> start)))"

definition request_done :: "nat \<Rightarrow> string + 'r \<Rightarrow> int \<Rightarrow> 'r cache \<Rightarrow> 'r cache" where
  "request_done p res now c =
     (case g_running c p of
        None \<Rightarrow> c
      | Some (key, force) \<Rightarrow>
          let c1 = (case res of
                      Inr v \<Rightarrow> c\<lparr>g_entries := (g_entries c)(key \<mapsto> (v, now)),
                                  g_log := insert (key, v, now) (g_log c)\<rparr>
                    | Inl _ \<Rightarrow> c)
          in c1\<lparr>g_running := (g_running c1)(p := None),
                g_inflight := (if g_inflight c1 key = Some p then (g_inflight c1)(key := None)
                               else g_inflight c1)\<rparr>)"

datatype 'r cache_event = Call string bool int | Done nat "string + 'r" int

fun cache_step :: "int \<Rightarrow> 'r cache_event \<Rightarrow> 'r cache \<Rightarrow> 'r cache" where
  "cache_step ttl (Call key force now) c = snd (cached_call ttl key force now c)"
| "cache_step ttl (Done p res now) c = request_done p res now c"

definition cache_run :: "int \<Rightarrow> 'r cache_event list \<Rightarrow> 'r cache" where
  "cache_run ttl es = fold (cache_step ttl) es empty_cache"

section \<open>The instances\<close>

definition CACHE_TTL_MS :: int where "CACHE_TTL_MS = 1000"

definition book_key :: "string \<Rightarrow> int \<Rightarrow> string" where
  "book_key market depth = ''book:'' @ market @ '':'' @ string_of_int depth"

definition price_history_key :: "string \<Rightarrow> string \<Rightarrow> string \<Rightarrow> string \<Rightarrow> string \<Rightarrow> string \<Rightarrow> string" where
  "price_history_key market net resolution frm upto' lmt =
     ''ph:'' @ market @ '':'' @ net @ '':'' @ resolution @ '':'' @ frm @ '':'' @ upto' @ '':'' @ lmt"

lemma digits_no_colon: "0 \<le> n \<Longrightarrow> CHR '':'' \<notin> set (digits 10 n)"
  using digits_10_is_digit [of n] by (auto simp: is_digit_def code_of_def)

text \<open>\<open>formatAge\<close>; the timestamp is what \<open>Date.parse\<close> made of the text, \<open>None\<close> when it is not a date.\<close>

definition round_div :: "int \<Rightarrow> int \<Rightarrow> int" where
  "round_div a b = \<lfloor>(of_int a / of_int b :: rat) + 1 / 2\<rfloor>"

definition formatAge :: "int option \<Rightarrow> int \<Rightarrow> string" where
  "formatAge ts now =
     (case ts of
        None \<Rightarrow> ''not scored yet''
      | Some t \<Rightarrow>
          let mins = max 0 (round_div (now - t) 60000); hrs = round_div mins 60 in
          if mins < 1 then ''just now''
          else if mins < 60 then string_of_int mins @ ''m ago''
          else if hrs < 24 then string_of_int hrs @ ''h ago''
          else string_of_int (round_div hrs 24) @ ''d ago'')"

section \<open>Invariant\<close>

definition cache_ok :: "'r cache \<Rightarrow> bool" where
  "cache_ok c \<longleftrightarrow>
     (\<forall>p key. g_running c p = Some (key, False) \<longleftrightarrow> g_inflight c key = Some p)
     \<and> (\<forall>p. g_running c p \<noteq> None \<longrightarrow> p < g_next c)
     \<and> (\<forall>key v ts. g_entries c key = Some (v, ts) \<longrightarrow> (key, v, ts) \<in> g_log c)"

lemma cache_ok_fresh: "cache_ok c \<Longrightarrow> g_running c (g_next c) = None"
  by (metis cache_ok_def less_irrefl)

lemma cache_ok_empty: "cache_ok empty_cache"
  by (simp add: cache_ok_def empty_cache_def)

lemma cache_ok_start:
  assumes "cache_ok c" "force \<or> g_inflight c key = None"
  shows "cache_ok (c\<lparr>g_running := (g_running c)(g_next c \<mapsto> (key, force)), g_next := Suc (g_next c),
      g_inflight := (if force then g_inflight c else (g_inflight c)(key \<mapsto> g_next c))\<rparr>)"
proof -
  have fresh: "g_running c (g_next c) = None" using assms(1) by (rule cache_ok_fresh)
  then have "g_inflight c k \<noteq> Some (g_next c)" for k using assms(1) by (metis cache_ok_def option.distinct(1))
  then show ?thesis using assms fresh by (auto simp: cache_ok_def less_Suc_eq)
qed

lemma cached_call_ok: "cache_ok c \<Longrightarrow> cache_ok (snd (cached_call ttl key force now c))"
  using cache_ok_start [of c force key]
  by (cases force) (auto simp: cached_call_def Let_def split: option.splits prod.splits)

lemma unlink_running:
  assumes run: "\<And>p k. running p = Some (k, False) \<longleftrightarrow> infl k = Some p" and r: "running p = Some (key, force)"
  shows "(running(p := None)) q = Some (k, False) \<longleftrightarrow>
         (if infl key = Some p then infl(key := None) else infl) k = Some q"
proof (cases "q = p")
  case True
  have "infl k \<noteq> Some p \<or> k = key" using run [of p k] r by auto
  then have "(if infl key = Some p then infl(key := None) else infl) k \<noteq> Some p" by auto
  then show ?thesis by (simp add: True del: fun_upd_apply) simp
next
  case False
  then show ?thesis using run [of q k] by auto
qed

lemma request_done_ok:
  assumes "cache_ok c"
  shows "cache_ok (request_done p res now c)"
proof (cases "g_running c p")
  case None
  then show ?thesis using assms by (simp add: request_done_def)
next
  case (Some kf)
  then obtain key force where r: "g_running c p = Some (key, force)" by (cases kf) auto
  define c1 where "c1 = (case res of
      Inr v \<Rightarrow> c\<lparr>g_entries := (g_entries c)(key \<mapsto> (v, now)), g_log := insert (key, v, now) (g_log c)\<rparr>
    | Inl _ \<Rightarrow> c)"
  have c1: "g_running c1 = g_running c" "g_inflight c1 = g_inflight c" "g_next c1 = g_next c"
    "\<forall>k v ts. g_entries c1 k = Some (v, ts) \<longrightarrow> (k, v, ts) \<in> g_log c1"
    using assms by (auto simp: c1_def cache_ok_def split: sum.splits if_splits)
  have run: "g_running c q = Some (k, False) \<longleftrightarrow> g_inflight c k = Some q" for q k
    using assms by (simp add: cache_ok_def)
  have "cache_ok (c1\<lparr>g_running := (g_running c1)(p := None),
      g_inflight := (if g_inflight c1 key = Some p then (g_inflight c1)(key := None) else g_inflight c1)\<rparr>)"
    (is "cache_ok ?c2")
    unfolding cache_ok_def
  proof (intro conjI allI impI)
    fix q k
    show "g_running ?c2 q = Some (k, False) \<longleftrightarrow> g_inflight ?c2 k = Some q"
      using unlink_running [OF run r, of q k] by (simp add: c1(1,2) del: fun_upd_apply)
  next
    fix q
    assume "g_running ?c2 q \<noteq> None"
    then show "q < g_next ?c2" using c1(1,3) assms by (auto simp: cache_ok_def split: if_splits)
  next
    fix k v ts
    assume "g_entries ?c2 k = Some (v, ts)"
    then show "(k, v, ts) \<in> g_log ?c2" using c1(4) by simp
  qed
  then show ?thesis by (simp only: request_done_def r option.case prod.case c1_def Let_def)
qed

lemma cache_run_ok: "cache_ok (cache_run ttl es)"
proof (induction es rule: rev_induct)
  case Nil
  show ?case by (simp add: cache_run_def cache_ok_empty)
next
  case (snoc e es)
  then show ?case
    by (cases e) (simp_all add: cache_run_def cached_call_ok request_done_ok)
qed

section \<open>Properties\<close>

text \<open>C27. In every history of calls and completions, an unforced call never starts a second request
  while one that was not forced is running for the same key: it joins that one; and what it serves from
  the cache is a value that a request for the same key returned less than the time to live ago.\<close>

theorem cache_dedupes_and_is_fresh:
  "case fst (cached_call ttl key False now (cache_run ttl es)) of
     Hit v \<Rightarrow> \<exists>ts. (key, v, ts) \<in> g_log (cache_run ttl es) \<and> now - ts < ttl
   | Joined p \<Rightarrow> g_running (cache_run ttl es) p = Some (key, False)
   | Started p \<Rightarrow> \<not> (\<exists>q. g_running (cache_run ttl es) q = Some (key, False))
       \<and> g_running (cache_run ttl es) p = None"
proof -
  let ?c = "cache_run ttl es"
  have ok: "cache_ok ?c" by (rule cache_run_ok)
  then have "g_running ?c (g_next ?c) = None" by (rule cache_ok_fresh)
  moreover have "\<And>v ts. g_entries ?c key = Some (v, ts) \<Longrightarrow> (key, v, ts) \<in> g_log ?c"
    "\<And>p. g_running ?c p = Some (key, False) \<longleftrightarrow> g_inflight ?c key = Some p"
    using ok by (simp_all add: cache_ok_def)
  ultimately show ?thesis
    by (simp add: cached_call_def Let_def split: option.split prod.split) blast
qed

lemma book_key_injective:
  assumes "book_key m d = book_key m' d'" "CHR '':'' \<notin> set m" "CHR '':'' \<notin> set m'" "0 \<le> d" "0 \<le> d'"
  shows "m = m' \<and> d = d'"
proof -
  have "m @ CHR '':'' # string_of_int d = m' @ CHR '':'' # string_of_int d'"
    using assms(1) by (simp add: book_key_def)
  from split_separator [OF this assms(2,3)] show ?thesis using assms(4,5) by (simp add: string_of_int_inject)
qed

end
