(* ===== verification/Json.thy ===== *)
theory Json
  imports JsString
begin

text \<open>
  What the program uses of \<open>JSON\<close>: the text of strings, of finite numbers and of objects
  (\<open>JSON.stringify\<close>), and the reader \<open>JSON.parse\<close>. Texts hold characters below 256, so an escape
  \<open>\u....\<close> for a larger code unit reads as a question mark. The reader's recursion is bounded by the
  length of the text, which \<open>json_fuel_enough\<close> shows to be immaterial.
\<close>

section \<open>Printing\<close>

definition json_escape :: "char \<Rightarrow> string" where
  "json_escape c =
     (let n = code_of c in
      if n = 34 \<or> n = 92 then [CHR 0x5C, c]
      else if n = 8 then [CHR 0x5C, CHR ''b'']
      else if n = 9 then [CHR 0x5C, CHR ''t'']
      else if n = 10 then [CHR 0x5C, CHR ''n'']
      else if n = 12 then [CHR 0x5C, CHR ''f'']
      else if n = 13 then [CHR 0x5C, CHR ''r'']
      else if n < 32 then [CHR 0x5C, CHR ''u'', CHR ''0'', CHR ''0'', digit_char (n div 16), digit_char (n mod 16)]
      else [c])"

definition json_string :: "string \<Rightarrow> string" where
  "json_string s = CHR 0x22 # concat (map json_escape s) @ [CHR 0x22]"

definition json_number :: "jsn \<Rightarrow> string" where
  "json_number x = (if is_finite x then num_to_string x else ''null'')"

fun json_join :: "string list \<Rightarrow> string" where
  "json_join [] = []"
| "json_join [s] = s"
| "json_join (s # t # ss) = s @ CHR '','' # json_join (t # ss)"

definition json_object :: "(string \<times> string) list \<Rightarrow> string" where
  "json_object fs =
     CHR 0x7B # json_join (map (\<lambda>(k, v). json_string k @ CHR '':'' # v) fs) @ [CHR 0x7D]"

section \<open>Reading\<close>

datatype json = JsonNull | JsonBool bool | JsonNum jsn | JsonStr string
  | JsonArr "json list" | JsonObj "(string \<times> json) list"

definition json_space :: "char \<Rightarrow> bool" where
  "json_space c \<longleftrightarrow> code_of c \<in> {9, 10, 13, 32}"

definition skip_ws :: "string \<Rightarrow> string" where
  "skip_ws s = dropWhile json_space s"

definition unescape :: "char \<Rightarrow> char option" where
  "unescape c =
     (if c = CHR ''b'' then Some (CHR 0x08) else if c = CHR ''t'' then Some (CHR 0x09)
      else if c = CHR ''n'' then Some (CHR 0x0A) else if c = CHR ''f'' then Some (CHR 0x0C)
      else if c = CHR ''r'' then Some (CHR 0x0D)
      else if c = CHR 0x22 \<or> c = CHR 0x5C \<or> c = CHR ''/'' then Some c else None)"

text \<open>The rest of a string literal after its opening quote.\<close>

fun read_chars :: "nat \<Rightarrow> string \<Rightarrow> (string \<times> string) option" where
  "read_chars 0 s = None"
| "read_chars (Suc n) [] = None"
| "read_chars (Suc n) (c # s) =
     (if c = CHR 0x22 then Some ([], s)
      else if c = CHR 0x5C then
        (case s of
           [] \<Rightarrow> None
         | e # r \<Rightarrow>
             if e = CHR ''u'' then
               (case parse_digits 16 0 (take 4 r) of
                  Some k \<Rightarrow>
                    if length (take 4 r) = 4 then
                      map_option (\<lambda>(t, q). ((if k < 256 then char_of k else CHR ''?'') # t, q))
                        (read_chars n (drop 4 r))
                    else None
                | None \<Rightarrow> None)
             else (case unescape e of
                     Some d \<Rightarrow> map_option (\<lambda>(t, q). (d # t, q)) (read_chars n r)
                   | None \<Rightarrow> None))
      else if code_of c < 32 then None
      else map_option (\<lambda>(t, q). (c # t, q)) (read_chars n s))"

definition read_string :: "string \<Rightarrow> (string \<times> string) option" where
  "read_string s =
     (case s of c # r \<Rightarrow> if c = CHR 0x22 then read_chars (length s) r else None | [] \<Rightarrow> None)"

definition read_frac :: "string \<Rightarrow> (string \<times> string) option" where
  "read_frac s =
     (case s of
        c # r \<Rightarrow> if c = CHR ''.'' then
                   (if takeWhile is_digit r = [] then None
                    else Some (c # takeWhile is_digit r, dropWhile is_digit r))
                 else Some ([], s)
      | [] \<Rightarrow> Some ([], []))"

definition read_exp :: "string \<Rightarrow> (string \<times> string) option" where
  "read_exp s =
     (case s of
        c # r \<Rightarrow> if c = CHR ''e'' \<or> c = CHR ''E'' then
                   (let sg = (case r of d # _ \<Rightarrow> if d = CHR ''+'' \<or> d = CHR ''-'' then [d] else [] | [] \<Rightarrow> []);
                        u = drop (length sg) r
                    in if takeWhile is_digit u = [] then None
                       else Some (c # sg @ takeWhile is_digit u, dropWhile is_digit u))
                 else Some ([], s)
      | [] \<Rightarrow> Some ([], []))"

definition read_number :: "string \<Rightarrow> (jsn \<times> string) option" where
  "read_number s =
     (let sg = (case s of c # _ \<Rightarrow> if c = CHR ''-'' then [c] else [] | [] \<Rightarrow> []);
          u = drop (length sg) s; ip = takeWhile is_digit u; r = dropWhile is_digit u
      in if ip = [] \<or> (hd ip = CHR ''0'' \<and> 1 < length ip) then None
         else (case read_frac r of
                 None \<Rightarrow> None
               | Some (fp, r') \<Rightarrow>
                   (case read_exp r' of
                      None \<Rightarrow> None
                    | Some (ep, r'') \<Rightarrow> Some (number_of_string (sg @ ip @ fp @ ep), r''))))"

definition read_word :: "string \<Rightarrow> json \<Rightarrow> string \<Rightarrow> (json \<times> string) option" where
  "read_word w j s = (if starts_with s w then Some (j, drop (length w) s) else None)"

fun json_value :: "nat \<Rightarrow> string \<Rightarrow> (json \<times> string) option"
and json_items :: "nat \<Rightarrow> string \<Rightarrow> (json list \<times> string) option"
and json_fields :: "nat \<Rightarrow> string \<Rightarrow> ((string \<times> json) list \<times> string) option" where
  "json_value 0 s = None"
| "json_value (Suc n) s =
     (case skip_ws s of
        [] \<Rightarrow> None
      | c # r \<Rightarrow>
          if c = CHR 0x7B then
            (case skip_ws r of
               [] \<Rightarrow> None
             | d # r' \<Rightarrow> if d = CHR 0x7D then Some (JsonObj [], r')
                        else map_option (\<lambda>(fs, q). (JsonObj fs, q)) (json_fields n (d # r')))
          else if c = CHR 0x5B then
            (case skip_ws r of
               [] \<Rightarrow> None
             | d # r' \<Rightarrow> if d = CHR 0x5D then Some (JsonArr [], r')
                        else map_option (\<lambda>(js, q). (JsonArr js, q)) (json_items n (d # r')))
          else if c = CHR 0x22 then map_option (\<lambda>(t, q). (JsonStr t, q)) (read_string (c # r))
          else if c = CHR ''t'' then read_word ''true'' (JsonBool True) (c # r)
          else if c = CHR ''f'' then read_word ''false'' (JsonBool False) (c # r)
          else if c = CHR ''n'' then read_word ''null'' JsonNull (c # r)
          else map_option (\<lambda>(x, q). (JsonNum x, q)) (read_number (c # r)))"
| "json_items 0 s = None"
| "json_items (Suc n) s =
     (case json_value n s of
        None \<Rightarrow> None
      | Some (j, q) \<Rightarrow>
          (case skip_ws q of
             [] \<Rightarrow> None
           | d # r \<Rightarrow> if d = CHR 0x5D then Some ([j], r)
                      else if d = CHR '','' then map_option (\<lambda>(js, q). (j # js, q)) (json_items n r)
                      else None))"
| "json_fields 0 s = None"
| "json_fields (Suc n) s =
     (case read_string (skip_ws s) of
        None \<Rightarrow> None
      | Some (k, q) \<Rightarrow>
          (case skip_ws q of
             [] \<Rightarrow> None
           | d # r \<Rightarrow>
               if d = CHR '':'' then
                 (case json_value n r of
                    None \<Rightarrow> None
                  | Some (j, q') \<Rightarrow>
                      (case skip_ws q' of
                         [] \<Rightarrow> None
                       | e # r' \<Rightarrow> if e = CHR 0x7D then Some ([(k, j)], r')
                                  else if e = CHR '','' then
                                    map_option (\<lambda>(fs, q). ((k, j) # fs, q)) (json_fields n r')
                                  else None))
               else None))"

definition json_parse :: "string \<Rightarrow> json result" where
  "json_parse s =
     (case json_value (2 * length s + 2) s of
        Some (j, r) \<Rightarrow> if skip_ws r = [] then Inr j else Inl SyntaxError
      | None \<Rightarrow> Inl SyntaxError)"

text \<open>A property of an object: the last field of the name wins.\<close>

definition json_field :: "string \<Rightarrow> json \<Rightarrow> json option" where
  "json_field k j = (case j of JsonObj fs \<Rightarrow> map_of (rev fs) k | _ \<Rightarrow> None)"

section \<open>Facts\<close>

lemma code_of_inj: "code_of c = code_of d \<longleftrightarrow> c = d"
  by (simp add: code_of_def)

lemma code_of_range: "0 \<le> code_of c \<and> code_of c < 256"
  by (cases c) (simp add: code_of_def of_char_def)

lemma code_of_special:
  "code_of c = 34 \<longleftrightarrow> c = CHR 0x22" "code_of c = 92 \<longleftrightarrow> c = CHR 0x5C" "code_of c = 8 \<longleftrightarrow> c = CHR 0x08"
  "code_of c = 9 \<longleftrightarrow> c = CHR 0x09" "code_of c = 10 \<longleftrightarrow> c = CHR 0x0A" "code_of c = 12 \<longleftrightarrow> c = CHR 0x0C"
  "code_of c = 13 \<longleftrightarrow> c = CHR 0x0D"
  using code_of_inj [of c] by (simp_all flip: code_of_inj) (simp_all add: code_of_def)

lemma char_of_code [simp]: "char_of (code_of c) = c"
  by (simp add: code_of_def)

lemma read_chars_escape:
  "read_chars (Suc n) (json_escape c @ s) = map_option (\<lambda>(t, q). (c # t, q)) (read_chars n s)"
proof -
  consider "code_of c \<in> {34, 92, 8, 9, 10, 12, 13}" | "code_of c < 32" "code_of c \<notin> {34, 92, 8, 9, 10, 12, 13}"
    | "32 \<le> code_of c" "code_of c \<notin> {34, 92}" by force
  then show ?thesis
  proof cases
    case 1
    then have "c = CHR 0x22 \<or> c = CHR 0x5C \<or> c = CHR 0x08 \<or> c = CHR 0x09 \<or> c = CHR 0x0A \<or> c = CHR 0x0C \<or> c = CHR 0x0D"
      by (simp add: code_of_special)
    then show ?thesis by (elim disjE) (simp_all add: json_escape_def code_of_def unescape_def Let_def)
  next
    case 2
    let ?n = "code_of c"
    have r: "0 \<le> ?n div 16" "?n div 16 < 16" "0 \<le> ?n mod 16" "?n mod 16 < 16"
      using 2(1) code_of_range [of c] by auto
    have e: "json_escape c = [CHR 0x5C, CHR ''u'', CHR ''0'', CHR ''0'', digit_char (?n div 16), digit_char (?n mod 16)]"
      using 2 by (simp add: json_escape_def Let_def)
    have "parse_digits 16 0 [CHR ''0'', CHR ''0'', digit_char (?n div 16), digit_char (?n mod 16)] = Some ?n"
      using r by (simp add: div_mult_mod_eq)
    then show ?thesis using 2(1) code_of_range [of c] by (simp add: e)
  next
    case 3
    then have "c \<noteq> CHR 0x22" "c \<noteq> CHR 0x5C" by (auto simp: code_of_def)
    with 3 show ?thesis by (simp add: json_escape_def Let_def)
  qed
qed

lemma read_chars_string:
  "length s < n \<Longrightarrow> read_chars n (concat (map json_escape s) @ CHR 0x22 # r) = Some (s, r)"
proof (induction s arbitrary: n)
  case Nil
  then show ?case by (cases n) simp_all
next
  case (Cons c s)
  then obtain m where "n = Suc m" "length s < m" by (cases n) auto
  with Cons.IH show ?case by (simp add: read_chars_escape del: read_chars.simps)
qed

lemma length_json_escape: "1 \<le> length (json_escape c)"
  by (simp add: json_escape_def Let_def)

lemma length_json_escapes: "length s \<le> length (concat (map json_escape s))"
proof (induction s)
  case (Cons c s)
  then show ?case using length_json_escape [of c] by simp
qed simp

lemma read_json_string: "read_string (json_string s @ r) = Some (s, r)"
proof -
  have "length s < Suc (length (concat (map json_escape s) @ CHR 0x22 # r))"
    using length_json_escapes [of s] by simp
  then show ?thesis using read_chars_string by (simp add: read_string_def json_string_def)
qed

text \<open>A printed string ends where its reader ends, so the texts of objects can be told apart.\<close>

lemma json_string_split: "json_string s @ r = json_string t @ q \<longleftrightarrow> s = t \<and> r = q"
  by (metis Pair_inject option.inject read_json_string)

lemma json_join_Cons: "json_join (s # ss) = s @ (if ss = [] then [] else CHR '','' # json_join ss)"
  by (cases ss) simp_all

lemma json_string_fields_inj:
  "json_join (map (\<lambda>(k, v). json_string k @ CHR '':'' # json_string v) fs) @ CHR 0x7D # r =
   json_join (map (\<lambda>(k, v). json_string k @ CHR '':'' # json_string v) gs) @ CHR 0x7D # q \<Longrightarrow> fs = gs \<and> r = q"
proof (induction fs arbitrary: gs)
  case Nil
  note pre = Nil.prems
  show ?case
  proof (cases gs)
    case Nil
    with pre show ?thesis by simp
  next
    case (Cons g gs')
    with pre show ?thesis by (cases g) (simp add: json_join_Cons json_string_def)
  qed
next
  case (Cons f fs)
  obtain k v where f: "f = (k, v)" by (cases f)
  show ?case
  proof (cases gs)
    case N: Nil
    with Cons.prems f show ?thesis by (simp add: json_join_Cons json_string_def)
  next
    case C: (Cons g gs')
    obtain k' v' where g: "g = (k', v')" by (cases g)
    from Cons.prems have e: "k = k'" "v = v'"
      "(if fs = [] then [] else CHR '','' # json_join (map (\<lambda>(k, v). json_string k @ CHR '':'' # json_string v) fs)) @ CHR 0x7D # r =
       (if gs' = [] then [] else CHR '','' # json_join (map (\<lambda>(k, v). json_string k @ CHR '':'' # json_string v) gs')) @ CHR 0x7D # q"
      by (simp_all add: C f g json_join_Cons json_string_split)
    from e(3) have "fs = gs' \<and> r = q"
    proof (cases "fs = [] \<or> gs' = []")
      case True
      with e(3) show ?thesis by (auto split: if_splits)
    next
      case False
      with e(3) Cons.IH [of gs'] show ?thesis by simp
    qed
    with e C f g show ?thesis by simp
  qed
qed

lemma json_object_strings_inj:
  "json_object (map (\<lambda>(k, v). (k, json_string v)) fs) @ r = json_object (map (\<lambda>(k, v). (k, json_string v)) gs) @ q
   \<longleftrightarrow> fs = gs \<and> r = q"
proof
  assume "json_object (map (\<lambda>(k, v). (k, json_string v)) fs) @ r = json_object (map (\<lambda>(k, v). (k, json_string v)) gs) @ q"
  then show "fs = gs \<and> r = q"
    by (intro json_string_fields_inj) (simp add: json_object_def comp_def case_prod_unfold)
qed simp

section \<open>The reader's fuel\<close>

lemma skip_ws_length: "length (skip_ws s) \<le> length s"
  by (simp add: skip_ws_def length_dropWhile_le)

lemma read_chars_length: "read_chars n s = Some (t, q) \<Longrightarrow> length q < length s"
proof (induction n s arbitrary: t q rule: read_chars.induct)
  case (3 n c s)
  show ?case
  proof (cases "c = CHR 0x22 \<or> c \<noteq> CHR 0x5C")
    case True
    with 3 show ?thesis by (fastforce split: if_splits)
  next
    case False
    then obtain e r where s: "s = e # r" using "3.prems" by (auto split: list.splits)
    show ?thesis
    proof (cases "e = CHR ''u''")
      case True
      with False "3.prems" s obtain k t' where "parse_digits 16 0 (take 4 r) = Some k" "length (take 4 r) = 4"
        "read_chars n (drop 4 r) = Some (t', q)"
        by (auto split: option.splits if_splits)
      with "3.IH"(1) False True s show ?thesis by fastforce
    next
      case F: False
      with False "3.prems" s obtain d t' where "unescape e = Some d" "read_chars n r = Some (t', q)"
        by (auto split: option.splits)
      with "3.IH"(2) False F s show ?thesis by fastforce
    qed
  qed
qed simp_all

lemma read_string_length: "read_string s = Some (t, q) \<Longrightarrow> length q < length s"
  by (auto simp: read_string_def split: list.splits if_splits dest!: read_chars_length)

lemma read_frac_length: "read_frac s = Some (t, q) \<Longrightarrow> length q \<le> length s"
  by (auto simp: read_frac_def length_dropWhile_le le_SucI split: list.splits if_splits)

lemma read_exp_length: "read_exp s = Some (t, q) \<Longrightarrow> length q \<le> length s"
  by (auto simp: read_exp_def Let_def length_dropWhile_le le_SucI split: list.splits if_splits)

lemma dropWhile_shorter: "takeWhile P s \<noteq> [] \<Longrightarrow> length (dropWhile P s) < length s"
  by (cases s) (auto simp: length_dropWhile_le less_Suc_eq_le split: if_splits)

lemma read_number_length:
  assumes "read_number s = Some (x, q)"
  shows "length q < length s"
proof -
  define sg where "sg = (case s of c # _ \<Rightarrow> if c = CHR ''-'' then [c] else [] | [] \<Rightarrow> [])"
  define u where "u = drop (length sg) s"
  have "takeWhile is_digit u \<noteq> []"
    and "\<exists>fp r ep. read_frac (dropWhile is_digit u) = Some (fp, r) \<and> read_exp r = Some (ep, q)"
    using assms by (auto simp: read_number_def Let_def sg_def u_def split: option.splits if_splits)
  then have "length q < length u"
    using dropWhile_shorter [of is_digit u] read_frac_length read_exp_length by fastforce
  then show ?thesis by (simp add: u_def)
qed

lemma read_word_length: "read_word w j s = Some (v, q) \<Longrightarrow> w \<noteq> [] \<Longrightarrow> length q < length s"
  by (auto simp: read_word_def starts_with_def split: if_splits)
     (metis append_Nil2 append_take_drop_id diff_less drop_eq_Nil leI length_0_conv length_drop length_greater_0_conv take_eq_Nil)

lemma json_length:
  "json_value n s = Some (j, q) \<Longrightarrow> length q < length s"
  "json_items n s = Some (js, q) \<Longrightarrow> length q < length s"
  "json_fields n s = Some (fs, q) \<Longrightarrow> length q < length s"
proof (induction n arbitrary: s j js fs q)
  case (Suc n)
  note value_IH = Suc.IH(1) and items_IH = Suc.IH(2) and fields_IH = Suc.IH(3)
  {
    case 1
    obtain c r where s: "skip_ws s = c # r" using 1 by (auto split: list.splits)
    have l: "Suc (length r) \<le> length s" using skip_ws_length [of s] s by simp
    have "length q < Suc (length r)"
    proof (cases "c = CHR 0x7B \<or> c = CHR 0x5B")
      case True
      then obtain d r' where r: "skip_ws r = d # r'" using 1 s by (auto split: list.splits)
      have "Suc (length r') \<le> length r" using skip_ws_length [of r] r by simp
      moreover have "length q < length (d # r') \<or> q = r'"
        using True 1 s r fields_IH [of "d # r'"] items_IH [of "d # r'"] by (auto split: if_splits)
      ultimately show ?thesis by auto
    next
      case False
      with 1 s show ?thesis
        using read_string_length [of "c # r"] read_number_length [of "c # r"] read_word_length [of _ _ "c # r"]
        by (fastforce split: if_splits)
    qed
    with l show ?case by linarith
  next
    case 2
    then obtain j' q' where v: "json_value n s = Some (j', q')" by (auto split: option.splits)
    with 2 obtain d r where r: "skip_ws q' = d # r" by (auto split: list.splits)
    have "length q \<le> length r" using 2 v r items_IH [of r] by (auto split: if_splits)
    moreover have "length r < length q'" using skip_ws_length [of q'] r by simp
    ultimately show ?case using value_IH [OF v] by linarith
  next
    case 3
    then obtain k q1 where k: "read_string (skip_ws s) = Some (k, q1)" by (auto split: option.splits)
    with 3 obtain d r where r: "skip_ws q1 = d # r" "d = CHR '':''" by (auto split: list.splits if_splits)
    with 3 k obtain j' q2 where v: "json_value n r = Some (j', q2)" by (auto split: option.splits)
    with 3 k r obtain e r' where r': "skip_ws q2 = e # r'" by (auto split: list.splits)
    have "length q \<le> length r'" using 3 k r v r' fields_IH [of r'] by (auto split: if_splits)
    moreover have "length r' < length q2" using skip_ws_length [of q2] r' by simp
    moreover have "length q2 < length r" using value_IH [OF v] .
    moreover have "length r < length q1" using skip_ws_length [of q1] r by simp
    moreover have "length q1 < length (skip_ws s)" using read_string_length [OF k] .
    ultimately show ?case using skip_ws_length [of s] by linarith
  }
qed simp_all

text \<open>With at least twice the text's length, the amount of fuel makes no difference: \<open>json_parse\<close> never
  rejects a text for lack of it.\<close>

lemma json_fuel:
  "2 * length s + 2 \<le> n \<Longrightarrow> 2 * length s + 2 \<le> m \<Longrightarrow> json_value n s = json_value m s"
  "2 * length s + 3 \<le> n \<Longrightarrow> 2 * length s + 3 \<le> m \<Longrightarrow> json_items n s = json_items m s"
  "2 * length s + 3 \<le> n \<Longrightarrow> 2 * length s + 3 \<le> m \<Longrightarrow> json_fields n s = json_fields m s"
proof (induction n arbitrary: s m)
  case (Suc n)
  note value_IH = Suc.IH(1) and items_IH = Suc.IH(2) and fields_IH = Suc.IH(3)
  {
    case 1
    then obtain m' where m: "m = Suc m'" by (cases m) auto
    show ?case
    proof (cases "skip_ws s")
      case Nil
      then show ?thesis by (simp add: m)
    next
      case (Cons c r)
      have l: "Suc (length r) \<le> length s" using skip_ws_length [of s] Cons by simp
      have "json_fields n u = json_fields m' u \<and> json_items n u = json_items m' u" if "length u \<le> length r" for u
        using that l 1 m fields_IH [of u m'] items_IH [of u m'] by simp
      then have "json_fields n (d # r') = json_fields m' (d # r') \<and> json_items n (d # r') = json_items m' (d # r')"
        if "skip_ws r = d # r'" for d r'
        using skip_ws_length [of r] that by simp
      then show ?thesis by (simp add: m Cons split: list.split)
    qed
  next
    case 2
    then obtain m' where m: "m = Suc m'" by (cases m) auto
    have v: "json_value n s = json_value m' s" using 2 m value_IH [of s m'] by simp
    have "json_items n r = json_items m' r" if "json_value m' s = Some (j, q)" "skip_ws q = d # r" for j q d r
      using 2 m items_IH [of r m'] json_length(1) [OF that(1)] skip_ws_length [of q] that(2) by simp
    then show ?case by (simp add: m v split: option.split list.split prod.split)
  next
    case 3
    then obtain m' where m: "m = Suc m'" by (cases m) auto
    have v: "json_value n r = json_value m' r" if "length r \<le> length s" for r
      using 3 m value_IH [of r m'] that by simp
    have f: "json_fields n r = json_fields m' r" if "length r < length s" for r
      using 3 m fields_IH [of r m'] that by simp
    show ?case
    proof (cases "read_string (skip_ws s)")
      case None
      then show ?thesis by (simp add: m)
    next
      case (Some kq)
      obtain k q where kq: "kq = (k, q)" by (cases kq)
      have q: "length q < length s" using read_string_length [of "skip_ws s"] Some kq skip_ws_length [of s] by fastforce
      show ?thesis
      proof (cases "skip_ws q")
        case Nil
        then show ?thesis by (simp add: m Some kq)
      next
        case (Cons d r)
        have r: "length r < length q" using skip_ws_length [of q] Cons by simp
        have v': "json_value n r = json_value m' r" using v [of r] r q by simp
        have "json_fields n r' = json_fields m' r'" if "json_value m' r = Some (j, q')" "skip_ws q' = e # r'" for j q' e r'
          using json_length(1) [OF that(1)] skip_ws_length [of q'] that(2) r q by (intro f) simp
        then show ?thesis by (simp add: m Some kq Cons v' split: option.split list.split prod.split)
      qed
    qed
  }
qed simp_all

end
