(* ===== verification/JsCollections.thy ===== *)
theory JsCollections
  imports JsString "HOL-Library.Multiset"
begin

text \<open>
  JavaScript's ordered collections: maps and objects as association lists in insertion order, the order
  in which an object lists its keys (array indices first), sets as lists without repetition, and the
  stable sort by a numeric comparator.
\<close>

section \<open>Maps, objects and sets\<close>

definition map_set :: "'k \<Rightarrow> 'v \<Rightarrow> ('k \<times> 'v) list \<Rightarrow> ('k \<times> 'v) list" where
  "map_set k v m =
     (if k \<in> set (map fst m) then map (\<lambda>(a, b). if a = k then (a, v) else (a, b)) m else m @ [(k, v)])"

lemma map_set_keys: "map fst (map_set k v m) = (if k \<in> set (map fst m) then map fst m else map fst m @ [k])"
  by (auto simp: map_set_def case_prod_unfold intro!: map_cong)

lemma map_set_distinct: "distinct (map fst m) \<Longrightarrow> distinct (map fst (map_set k v m))"
  by (simp add: map_set_keys)

lemma map_of_map_set: "map_of (map_set k v m) = (map_of m)(k \<mapsto> v)"
proof (cases "k \<in> set (map fst m)")
  case True
  have "map_of (map (\<lambda>(a, b). if a = k then (a, v) else (a, b)) m) x = (if x = k \<and> k \<in> set (map fst m) then Some v else map_of m x)" for x
  proof (induction m)
    case (Cons p m)
    then show ?case by (cases p; cases "x = k"; cases "fst p = k") simp_all
  qed simp
  with True show ?thesis by (auto simp: map_set_def fun_eq_iff)
next
  case False
  then have "map_of (m @ [(k, v)]) x = ((map_of m)(k \<mapsto> v)) x" for x
    by (induction m) auto
  with False show ?thesis by (auto simp: map_set_def)
qed

text \<open>\<open>Object.keys\<close>, \<open>values\<close> and \<open>entries\<close>: keys that are array indices in ascending order, then the others.\<close>

definition is_index :: "string \<Rightarrow> bool" where
  "is_index k \<longleftrightarrow> k \<noteq> [] \<and> list_all is_digit k \<and> (k = ''0'' \<or> hd k \<noteq> CHR ''0'') \<and> digits_value k < 2 ^ 32 - 1"

definition obj_entries :: "(string \<times> 'v) list \<Rightarrow> (string \<times> 'v) list" where
  "obj_entries m =
     sort_key (\<lambda>p. digits_value (fst p)) (filter (\<lambda>p. is_index (fst p)) m) @ filter (\<lambda>p. \<not> is_index (fst p)) m"

lemma set_obj_entries [simp]: "set (obj_entries m) = set m"
  by (auto simp: obj_entries_def)

lemma distinct_obj_entries: "distinct (map fst m) \<Longrightarrow> distinct (map fst (obj_entries m))"
proof -
  assume d: "distinct (map fst m)"
  have "mset (obj_entries m) = mset m" by (simp add: obj_entries_def)
  then have "mset (map fst (obj_entries m)) = mset (map fst m)" by (metis mset_map)
  with d show ?thesis by (metis mset_eq_imp_distinct_iff)
qed

definition js_uniq :: "'a list \<Rightarrow> 'a list" where
  "js_uniq xs = rev (remdups (rev xs))"

lemma set_js_uniq [simp]: "set (js_uniq xs) = set xs" and distinct_js_uniq [simp]: "distinct (js_uniq xs)"
  by (simp_all add: js_uniq_def)

lemma js_uniq_snoc: "js_uniq (xs @ [x]) = (if x \<in> set xs then js_uniq xs else js_uniq xs @ [x])"
  by (simp add: js_uniq_def)

section \<open>Comparing and sorting\<close>

fun string_less :: "string \<Rightarrow> string \<Rightarrow> bool" where
  "string_less _ [] = False"
| "string_less [] (_ # _) = True"
| "string_less (a # s) (b # t) = (code_of a < code_of b \<or> (a = b \<and> string_less s t))"

lemma string_less_irrefl [simp]: "\<not> string_less s s"
  by (induction s) simp_all

lemma string_less_trans: "string_less s t \<Longrightarrow> string_less t u \<Longrightarrow> string_less s u"
proof (induction s t arbitrary: u rule: string_less.induct)
  case (2 b t)
  then show ?case by (cases u) auto
next
  case (3 a s b t)
  then show ?case by (cases u) auto
qed simp

lemma string_less_linear: "string_less s t \<or> s = t \<or> string_less t s"
proof (induction s t rule: string_less.induct)
  case (1 s)
  then show ?case by (cases s) simp_all
next
  case (3 a s b t)
  then show ?case by (auto simp: code_of_def)
qed simp

fun js_insert :: "('a \<Rightarrow> 'a \<Rightarrow> jsn) \<Rightarrow> 'a \<Rightarrow> 'a list \<Rightarrow> 'a list" where
  "js_insert cmp x [] = [x]"
| "js_insert cmp x (y # ys) = (if JNum 0 < cmp x y then y # js_insert cmp x ys else x # y # ys)"

definition js_sort :: "('a \<Rightarrow> 'a \<Rightarrow> jsn) \<Rightarrow> 'a list \<Rightarrow> 'a list" where
  "js_sort cmp xs = foldr (js_insert cmp) xs []"

lemma mset_js_insert [simp]: "mset (js_insert cmp x ys) = add_mset x (mset ys)"
  by (induction ys) auto

lemma mset_js_sort [simp]: "mset (js_sort cmp xs) = mset xs"
  by (induction xs) (simp_all add: js_sort_def)

lemma set_js_sort [simp]: "set (js_sort cmp xs) = set xs"
  by (metis mset_js_sort set_mset_mset)

lemma length_js_sort [simp]: "length (js_sort cmp xs) = length xs"
  by (metis mset_js_sort size_mset)

lemma distinct_js_sort [simp]: "distinct (map f (js_sort cmp xs)) \<longleftrightarrow> distinct (map f xs)"
proof -
  have "mset (map f (js_sort cmp xs)) = mset (map f xs)" by simp
  then show ?thesis by (rule mset_eq_imp_distinct_iff)
qed

text \<open>A comparator that agrees with an order on a key sorts by that key.\<close>

lemma js_sort_sorted:
  fixes key :: "'a \<Rightarrow> 'b::linorder"
  assumes "\<And>x y. x \<in> set xs \<Longrightarrow> y \<in> set xs \<Longrightarrow> JNum 0 < cmp x y \<longleftrightarrow> key y < key x"
  shows "sorted_wrt (\<lambda>x y. key x \<le> key y) (js_sort cmp xs)"
proof -
  have ins: "sorted_wrt (\<lambda>x y. key x \<le> key y) (js_insert cmp x ys)"
    if "sorted_wrt (\<lambda>x y. key x \<le> key y) ys" "\<forall>y\<in>set ys. JNum 0 < cmp x y \<longleftrightarrow> key y < key x" for x ys
    using that
  proof (induction ys)
    case (Cons y ys)
    have "set (js_insert cmp x ys) = insert x (set ys)" by (metis mset_js_insert set_mset_add_mset_insert set_mset_mset)
    with Cons show ?case by (auto simp: not_less intro: order.trans less_imp_le)
  qed simp
  show ?thesis using assms
  proof (induction xs)
    case (Cons x xs)
    then have "sorted_wrt (\<lambda>x y. key x \<le> key y) (js_sort cmp xs)" by simp
    then have "sorted_wrt (\<lambda>x y. key x \<le> key y) (js_insert cmp x (js_sort cmp xs))"
      using Cons.prems by (intro ins) auto
    then show ?case by (simp add: js_sort_def)
  qed (simp add: js_sort_def)
qed

text \<open>The difference of two doubles keeps its sign when it is rounded, so subtraction is such a comparator.\<close>

lemma double_multiple:
  assumes "fl x = x" "e = - 1074"
  shows "\<exists>m :: int. x = of_int m * 2 powi e"
proof (cases "x = 0")
  case True
  then show ?thesis by (intro exI [of _ 0]) simp
next
  case False
  define k where "k = nat (ulp_exp x - e)"
  have "e \<le> ulp_exp x" using assms(2) by (simp add: ulp_exp_def)
  then have k: "ulp_exp x = int k + e" by (simp add: k_def)
  define r where "r = rne (x / 2 powi ulp_exp x)"
  have "x = of_int r * 2 powi ulp_exp x" unfolding r_def using assms(1) False by (simp add: fl_def)
  also have "(2::rat) powi ulp_exp x = of_int (2 ^ k) * 2 powi e"
    unfolding k by (simp add: power_int_add)
  finally have "x = of_int (r * 2 ^ k) * 2 powi e" by simp
  then show ?thesis by blast
qed

lemma fl_diff_pos:
  assumes "fl a = a" "fl b = b"
  shows "0 < fl (a - b) \<longleftrightarrow> b < a"
proof
  assume less: "b < a"
  obtain e :: int where e: "e = - 1074" by blast
  obtain m n :: int where m: "a = of_int m * 2 powi e" and n: "b = of_int n * 2 powi e"
    using double_multiple [OF _ e] assms by metis
  have d: "a - b = of_int (m - n) * 2 powi e" unfolding m n by (simp add: left_diff_distrib)
  have pos: "0 < m - n" using less unfolding m n by simp
  show "0 < fl (a - b)"
  proof (cases "m - n < 2 ^ 53")
    case True
    then have "fl (a - b) = of_int (m - n) * 2 powi e"
      unfolding d using pos e by (intro fl_exact_less) simp_all
    then show ?thesis using pos by simp
  next
    case False
    have "(2::rat) powi (int 52 + e) = of_int (2 ^ 52) * 2 powi e" by (simp add: power_int_add)
    also have "\<dots> \<le> of_int (m - n) * 2 powi e"
    proof (intro mult_right_mono)
      have "2 ^ 52 \<le> m - n" using False by simp
      then show "of_int (2 ^ 52) \<le> (of_int (m - n) :: rat)" by (simp only: of_int_le_iff)
    qed simp
    finally have "2 powi (- 1022) \<le> a - b" using d e by simp
    then show ?thesis by (rule fl.rd_pos)
  qed
next
  assume "0 < fl (a - b)"
  then show "b < a" using fl_mono [of "a - b" 0] by (force simp: not_less)
qed

lemma jsn_diff_pos:
  assumes "fl a = a" "fl b = b"
  shows "JNum 0 < JNum a - JNum b \<longleftrightarrow> b < a"
proof -
  have "JNum 0 < jsfin d \<longleftrightarrow> 0 < fl d" for d by (auto simp: jsfin_def Let_def)
  then show ?thesis using fl_diff_pos [OF assms] by simp
qed

end
