(* ===== verification/BlockNode.thy ===== *)
theory BlockNode
  imports Json JsCollections "HOL-Library.Sublist"
begin

text \<open>
  The event relay, \<open>src/blocknode/src\<close>: the bounded memory of published events (\<open>lib/dedupe.ts\<close>), the
  walk over the pages of a mirror node's log feed that publishes every decoded event
  (\<open>lib/hedera.ts\<close>, \<open>lib/nats.ts\<close>), and the polling windows, the start-up checks and the backfill
  server of \<open>index.ts\<close>. The mirror node, the decoder of the contract's interface and the hash are
  parameters. Pages of several polls interleave on one memory: handling a page contains no await, so a
  page is one step.
\<close>

section \<open>The memory of published events: \<open>dedupe.ts\<close>\<close>

text \<open>The map in insertion order, and its capacity.\<close>

record dedupe =
  d_keys :: "(string \<times> int) list"
  d_max :: jsn

definition isDuplicate :: "string \<Rightarrow> dedupe \<Rightarrow> bool" where
  "isDuplicate k d \<longleftrightarrow> k \<in> set (map fst (d_keys d))"

definition markPublished :: "string \<Rightarrow> int \<Rightarrow> dedupe \<Rightarrow> dedupe" where
  "markPublished k now d =
     (let m = map_set k now (d_keys d)
      in d\<lparr>d_keys := (if d_max d < num_of_bigint (int (length m)) then tl m else m)\<rparr>)"

section \<open>Publishing the events of a contract: \<open>hedera.ts\<close> and \<open>nats.ts\<close>\<close>

record raw_log =
  l_topics :: "string list"
  l_data :: string
  l_timestamp :: string
  l_hash :: string

record evt =
  e_net :: string
  e_event :: string
  e_args :: "(string \<times> string) list"
  e_timestamp :: string
  e_txHash :: string
  e_host :: string

definition evt_json :: "evt \<Rightarrow> string" where
  "evt_json e = json_object
     [(''type'', json_string ''contract''), (''net'', json_string (e_net e)),
      (''event'', json_string (e_event e)),
      (''args'', json_object (map (\<lambda>(k, v). (k, json_string v)) (e_args e))),
      (''timestamp'', json_string (e_timestamp e)), (''txHash'', json_string (e_txHash e)),
      (''host'', json_string (e_host e))]"

text \<open>The process: the memory, what was handed to NATS, and (a history variable) the keys in the order
  they were marked.\<close>

record relay =
  r_stack :: dedupe
  r_sent :: "(string \<times> string) list"
  r_marked :: "string list"

definition pub :: "(string \<Rightarrow> string \<Rightarrow> bool) \<Rightarrow> string \<Rightarrow> string \<Rightarrow> relay \<Rightarrow> relay" where
  "pub up subject msg r = (if up subject msg then r\<lparr>r_sent := r_sent r @ [(subject, msg)]\<rparr> else r)"

text \<open>The outside world of a poll: the decoder answers with the event's name and arguments, with
  nothing for an unknown event, or throws; \<open>up\<close> says whether a publication reaches NATS.\<close>

record outside =
  o_md5 :: "string \<Rightarrow> string"
  o_parseLog :: "string list \<Rightarrow> string \<Rightarrow> (string \<times> (string \<times> string) list) option result"
  o_up :: "string \<Rightarrow> string \<Rightarrow> bool"
  o_host :: string
  o_now :: int

definition event_of :: "outside \<Rightarrow> string \<Rightarrow> raw_log \<Rightarrow> evt option" where
  "event_of w net l =
     (case o_parseLog w (l_topics l) (l_data l) of
        Inr (Some (name, args)) \<Rightarrow>
          Some \<lparr>e_net = net, e_event = name, e_args = args, e_timestamp = l_timestamp l,
                e_txHash = l_hash l, e_host = o_host w\<rparr>
      | _ \<Rightarrow> None)"

definition handle_event :: "outside \<Rightarrow> string \<Rightarrow> string \<Rightarrow> raw_log \<Rightarrow> relay \<Rightarrow> relay" where
  "handle_event w net cid l r =
     (case event_of w net l of
        None \<Rightarrow> r
      | Some e \<Rightarrow>
          let key = o_md5 w (evt_json e) in
          if isDuplicate key (r_stack r) then r
          else let r1 = pub (o_up w) (to_lower net @ '':'' @ cid) (evt_json e) r
               in r1\<lparr>r_stack := markPublished key (o_now w) (r_stack r1), r_marked := r_marked r1 @ [key]\<rparr>)"

definition handle_page :: "outside \<Rightarrow> string \<Rightarrow> string \<Rightarrow> raw_log list \<Rightarrow> relay \<Rightarrow> relay" where
  "handle_page w net cid logs r = fold (handle_event w net cid) logs r"

datatype mirror_reply = FetchError | BadStatus | Page "raw_log list" "string option"

definition abi_key :: "string \<Rightarrow> string \<Rightarrow> string" where
  "abi_key net cid =
     ''ABI_'' @ to_upper net @ ''_'' @ map (\<lambda>c. if c = CHR ''.'' then CHR ''_'' else c) cid"

definition mirror_base :: "string \<Rightarrow> string" where
  "mirror_base net = ''https://'' @ net @ ''.mirrornode.hedera.com''"

definition logs_url :: "string \<Rightarrow> string \<Rightarrow> jsn \<Rightarrow> jsn \<Rightarrow> string" where
  "logs_url net cid frm til = mirror_base net @ ''/api/v1/contracts/'' @ cid
     @ ''/results/logs?timestamp=gt:'' @ num_to_string frm @ ''&timestamp=lt:'' @ num_to_string til @ ''.000000000''"

definition next_url :: "string \<Rightarrow> string option \<Rightarrow> string" where
  "next_url net nxt =
     (case nxt of Some p \<Rightarrow> if p \<noteq> [] then mirror_base net @ p else [] | None \<Rightarrow> [])"

text \<open>The loop of one poll; \<open>None\<close> when the fuel does not suffice. A failed request ends the poll.\<close>

fun poll_pages :: "nat \<Rightarrow> (string \<Rightarrow> mirror_reply) \<Rightarrow> outside \<Rightarrow> string \<Rightarrow> string \<Rightarrow> string \<Rightarrow> relay \<Rightarrow> relay option" where
  "poll_pages 0 fetch w net cid url r = (if url = [] then Some r else None)"
| "poll_pages (Suc n) fetch w net cid url r =
     (if url = [] then Some r
      else case fetch url of
             FetchError \<Rightarrow> Some r
           | BadStatus \<Rightarrow> Some r
           | Page logs nxt \<Rightarrow> poll_pages n fetch w net cid (next_url net nxt) (handle_page w net cid logs r))"

definition pubAllEventsForContract ::
  "nat \<Rightarrow> (string \<Rightarrow> bool) \<Rightarrow> (string \<Rightarrow> string option) \<Rightarrow> (string \<Rightarrow> mirror_reply) \<Rightarrow> outside
   \<Rightarrow> string \<Rightarrow> string \<Rightarrow> jsn \<Rightarrow> jsn \<Rightarrow> relay \<Rightarrow> relay option" where
  "pubAllEventsForContract fuel abi_ok env fetch w net cid frm til r =
     (case env (abi_key net cid) of
        Some abi \<Rightarrow> if abi_ok abi then poll_pages fuel fetch w net cid (logs_url net cid frm til) r else Some r
      | None \<Rightarrow> Some r)"

text \<open>The connection to NATS is made once and reused until it is closed.\<close>

record nats_conn =
  n_id :: nat
  n_closed :: bool

definition getNatsConnection ::
  "(string \<Rightarrow> bool) \<Rightarrow> nats_conn result \<Rightarrow> string \<Rightarrow> nats_conn option \<Rightarrow> nats_conn option \<times> nats_conn option" where
  "getNatsConnection host_ok connect host singleton =
     (case singleton of
        Some c \<Rightarrow> if \<not> n_closed c then (Some c, singleton)
                  else if \<not> host_ok host then (None, singleton)
                  else (case connect of Inr d \<Rightarrow> (Some d, Some d) | Inl _ \<Rightarrow> (None, singleton))
      | None \<Rightarrow> if \<not> host_ok host then (None, singleton)
                else (case connect of Inr d \<Rightarrow> (Some d, Some d) | Inl _ \<Rightarrow> (None, singleton)))"

definition close_nats :: "nats_conn option \<Rightarrow> nats_conn option" where
  "close_nats singleton =
     (case singleton of Some c \<Rightarrow> if n_closed c then singleton else None | None \<Rightarrow> None)"

section \<open>Polling windows, configuration and backfill: \<open>index.ts\<close>\<close>

definition parse_int10 :: "string \<Rightarrow> jsn" where
  "parse_int10 s =
     (let (neg, u) = split_sign (dropWhile is_space s); ds = takeWhile is_digit u
      in if ds = [] then JNaN
         else if neg then - jsfin (of_int (digits_value ds)) else jsfin (of_int (digits_value ds)))"

text \<open>The window of a poll, for the clock readings (milliseconds) of its two ends.\<close>

definition window_from :: "int \<Rightarrow> jsn \<Rightarrow> jsn" where
  "window_from now lookbackMins = jfloor (JNum (of_int now) / JNum 1000 - lookbackMins * JNum 60)"

definition window_to :: "int \<Rightarrow> jsn \<Rightarrow> jsn \<Rightarrow> jsn" where
  "window_to now lookbackMins toMins = window_from now lookbackMins + toMins * JNum 60 + JNum 1"

record poll_request =
  p_net :: string
  p_cid :: string
  p_from :: jsn
  p_to :: jsn

definition pubAllEvents ::
  "string list \<Rightarrow> (string \<Rightarrow> string list) \<Rightarrow> int \<Rightarrow> jsn \<Rightarrow> jsn \<Rightarrow> poll_request list" where
  "pubAllEvents nets ids now lookbackMins toMins =
     concat (map (\<lambda>n. map (\<lambda>c. \<lparr>p_net = n, p_cid = c, p_from = window_from now lookbackMins,
       p_to = window_to now lookbackMins toMins\<rparr>) (ids n)) nets)"

definition split_on :: "(char \<Rightarrow> bool) \<Rightarrow> string \<Rightarrow> string list" where
  "split_on sep s = filter (\<lambda>w. w \<noteq> []) (split_char (CHR '' '') (map (\<lambda>c. if sep c then CHR '' '' else c) s))"

record bn_config =
  b_networks :: "string list"
  b_contracts :: "string \<Rightarrow> string list"
  b_freq :: jsn
  b_lookback :: jsn
  b_stack :: jsn

definition required_vars :: "string list" where
  "required_vars = [''BN_NATS_HOST'', ''BN_NATS_PORT'', ''BN_NATS_USER'', ''BN_NATS_PASSWORD'',
     ''BN_QUERY_FREQ_SECS'', ''BN_QUERY_LOOKBACK_SECS'', ''BN_SUPPORTED_NETWORKS'']"

definition contracts_key :: "string \<Rightarrow> string" where
  "contracts_key n = ''BN_SMART_CONTRACT_IDS_'' @ to_upper n"

definition env_text :: "(string \<Rightarrow> string option) \<Rightarrow> string \<Rightarrow> string" where
  "env_text env k = (case env k of Some v \<Rightarrow> v | None \<Rightarrow> [])"

definition abi_present :: "(string \<Rightarrow> string option) \<Rightarrow> string \<Rightarrow> string \<Rightarrow> bool" where
  "abi_present env n cid =
     (case env (abi_key n cid) of None \<Rightarrow> False | Some v \<Rightarrow> v \<noteq> [] \<and> is_ok (json_parse v))"

definition env_number :: "(string \<Rightarrow> string option) \<Rightarrow> string \<Rightarrow> jsn" where
  "env_number env k = (case env k of Some v \<Rightarrow> parse_int10 v | None \<Rightarrow> JNaN)"

text \<open>The start-up checks; \<open>None\<close> when the process exits. \<open>okNet\<close> and \<open>okId\<close> are the SDK's parsers.\<close>

definition read_config ::
  "(string \<Rightarrow> bool) \<Rightarrow> (string \<Rightarrow> bool) \<Rightarrow> (string \<Rightarrow> string option) \<Rightarrow> bn_config option" where
  "read_config okNet okId env =
     (let nets = split_on (\<lambda>c. c = CHR '','' \<or> c = CHR '' '') (env_text env ''BN_SUPPORTED_NETWORKS'');
          ids = (\<lambda>n. split_on (\<lambda>c. c = CHR '' '') (env_text env (contracts_key n)));
          freq = env_number env ''BN_QUERY_FREQ_SECS''; lookback = env_number env ''BN_QUERY_LOOKBACK_SECS''
      in if \<not> list_all okNet nets then None
         else if \<not> list_all (\<lambda>v. env v \<noteq> None) (required_vars @ map contracts_key nets) then None
         else if \<not> list_all (\<lambda>n. list_all okId (ids n)) nets then None
         else if \<not> list_all (\<lambda>n. list_all (abi_present env n) (ids n)) nets then None
         else if freq = JNaN \<or> lookback = JNaN then None
         else Some \<lparr>b_networks = nets, b_contracts = ids, b_freq = freq, b_lookback = lookback,
                    b_stack = js_or (env_number env ''BN_DEDUPE_STACK_SIZE'') (JNum 1000)\<rparr>)"

text \<open>What the operator typed at start-up: the minutes to look back and the span; \<open>None\<close> exits.\<close>

definition read_lookback :: "string \<Rightarrow> (jsn \<times> jsn) option" where
  "read_lookback input =
     (let ws = split_on is_space input;
          s0 = (case ws of s # _ \<Rightarrow> s | [] \<Rightarrow> ''0''); s1 = (case ws of _ # s # _ \<Rightarrow> s | _ \<Rightarrow> s0);
          a = parse_int10 s0; b = parse_int10 s1
      in if a = JNaN \<or> b = JNaN then None else Some (a, b))"

text \<open>The first pass, if there is one, and the parameters of the endless loop after it.\<close>

definition poll_plan :: "bn_config \<Rightarrow> jsn \<times> jsn \<Rightarrow> (jsn \<times> jsn) option \<times> (jsn \<times> jsn)" where
  "poll_plan cfg chosen =
     (let (a, b) = chosen;
          (a, b) = (if a = JNum 0 then (b_lookback cfg * JNum 60, b_lookback cfg * JNum 60) else (a, b))
      in if JNum 0 < a then (Some (a, b), (b_lookback cfg, b_lookback cfg)) else (None, (a, b)))"

datatype admin_reply = NotFound | BadRequest string | Accepted string

definition json_error :: "string \<Rightarrow> string" where
  "json_error msg = json_object [(''error'', json_string msg)]"

definition backfill ::
  "bn_config \<Rightarrow> int \<Rightarrow> string \<Rightarrow> string \<Rightarrow> string \<Rightarrow> admin_reply \<times> poll_request list" where
  "backfill cfg now meth url body =
     (if meth \<noteq> ''POST'' \<or> url \<noteq> ''/backfill'' then (NotFound, [])
      else case json_parse body of
             Inl _ \<Rightarrow> (BadRequest (json_error ''Invalid JSON body''), [])
           | Inr JsonNull \<Rightarrow> (BadRequest (json_error ''Invalid JSON body''), [])
           | Inr j \<Rightarrow>
               (case (json_field ''lookbackMins'' j, json_field ''toMins'' j) of
                  (Some (JsonNum a), Some (JsonNum b)) \<Rightarrow>
                    (Accepted (json_object [(''ok'', ''true''), (''lookbackMins'', json_number a), (''toMins'', json_number b)]),
                     pubAllEvents (b_networks cfg) (b_contracts cfg) now a b)
                | _ \<Rightarrow> (BadRequest (json_error ''lookbackMins and toMins must be numbers''), [])))"

section \<open>Facts\<close>

definition start_relay :: "nat \<Rightarrow> relay" where
  "start_relay m = \<lparr>r_stack = \<lparr>d_keys = [], d_max = JNum (of_nat m)\<rparr>, r_sent = [], r_marked = []\<rparr>"

text \<open>The pages of any number of interleaved polls, each handled at its own time and under its own state of
  the connection.\<close>

type_synonym page_step = "(string \<Rightarrow> string \<Rightarrow> bool) \<times> int \<times> string \<times> string \<times> raw_log list"

definition run_page :: "outside \<Rightarrow> page_step \<Rightarrow> relay \<Rightarrow> relay" where
  "run_page w st r = (case st of (up, now, net, cid, logs) \<Rightarrow>
     handle_page (w\<lparr>o_up := up, o_now := now\<rparr>) net cid logs r)"

definition run_pages :: "outside \<Rightarrow> page_step list \<Rightarrow> relay \<Rightarrow> relay" where
  "run_pages w sts r = fold (run_page w) sts r"

definition relay_ok :: "nat \<Rightarrow> (string \<Rightarrow> string) \<Rightarrow> relay \<Rightarrow> bool" where
  "relay_ok m md5 r \<longleftrightarrow>
     d_max (r_stack r) = JNum (of_nat m)
     \<and> map fst (d_keys (r_stack r)) = drop (length (r_marked r) - m) (r_marked r)
     \<and> (\<forall>k. distinct (take (Suc m) (drop k (r_marked r))))
     \<and> subseq (map (\<lambda>p. md5 (snd p)) (r_sent r)) (r_marked r)"

lemma window_append:
  assumes "\<forall>k. distinct (take (Suc m) (drop k xs))" "x \<notin> set (drop (length xs - m) xs)"
  shows "distinct (take (Suc m) (drop k (xs @ [x])))"
proof (cases "length xs - k \<le> m")
  case True
  then have "set (drop k xs) \<subseteq> set (drop (length xs - m) xs)" by (intro set_drop_subset_set_drop) simp
  then have "x \<notin> set (drop k xs)" using assms(2) by blast
  moreover have "distinct (drop k xs)"
    using assms(1) [rule_format, of k] True by simp
  ultimately have "distinct (drop k xs @ [x])" by simp
  then show ?thesis
    by (cases "k \<le> length xs") (auto simp: not_le intro: distinct_take dest!: in_set_takeD)
next
  case False
  then show ?thesis using assms(1) by simp
qed

lemma subseq_append_one: "subseq xs ys \<Longrightarrow> subseq xs (ys @ [y])"
  using list_emb_append2 [of "(=)" xs ys "[]"] by (metis append_Nil2 list_emb_Nil list_emb_append_mono)

lemma drop_last_append:
  "drop (length (xs @ [x]) - m) (xs @ [x]) =
     (if length xs < m then drop (length xs - m) xs @ [x] else tl (drop (length xs - m) xs @ [x]))"
proof (cases "length xs < m")
  case False
  then have "drop (length xs - m) xs @ [x] = drop (length xs - m) (xs @ [x])" by simp
  moreover have "drop (length (xs @ [x]) - m) (xs @ [x]) = tl (drop (length xs - m) (xs @ [x]))"
    using False by (simp only: length_append_singleton Suc_diff_le drop_Suc tl_drop not_less)
  ultimately show ?thesis using False by simp
qed simp

lemma markPublished_keys:
  assumes "k \<notin> set (map fst (d_keys d))" "d_max d = JNum (of_nat m)" "length (d_keys d) \<le> m" "m < 2 ^ 53"
  shows "map fst (d_keys (markPublished k now d)) =
    (if length (d_keys d) < m then map fst (d_keys d) @ [k] else tl (map fst (d_keys d) @ [k]))"
    and "d_max (markPublished k now d) = d_max d"
proof -
  have "length (d_keys d) + 1 \<le> 2 ^ 53" using assms(3,4) by linarith
  then have "int (length (d_keys d) + 1) \<le> int (2 ^ 53)" by (simp only: zle_int)
  then have "int (length (d_keys d) + 1) \<le> 2 ^ 53" by simp
  then have "num_of_bigint (int (length (d_keys d) + 1)) = JNum (of_int (int (length (d_keys d) + 1)))"
    unfolding num_of_bigint_def by (intro jsfin_int) simp
  then have "d_max d < num_of_bigint (int (length (d_keys d) + 1)) \<longleftrightarrow> m < length (d_keys d) + 1"
    using assms(2) by (simp flip: of_nat_Suc)
  then show "map fst (d_keys (markPublished k now d)) =
    (if length (d_keys d) < m then map fst (d_keys d) @ [k] else tl (map fst (d_keys d) @ [k]))"
    using assms(1,3) by (auto simp: markPublished_def map_set_def Let_def map_tl)
  show "d_max (markPublished k now d) = d_max d" by (simp add: markPublished_def Let_def)
qed

lemma handle_event_ok:
  assumes ok: "relay_ok m (o_md5 w) r" and m: "m < 2 ^ 53"
  shows "relay_ok m (o_md5 w) (handle_event w net cid l r)"
proof (cases "event_of w net l")
  case None
  then show ?thesis using ok by (simp add: handle_event_def)
next
  case (Some e)
  define key where "key = o_md5 w (evt_json e)"
  show ?thesis
  proof (cases "isDuplicate key (r_stack r)")
    case True
    then show ?thesis using ok Some by (simp add: handle_event_def key_def Let_def)
  next
    case False
    define r1 where "r1 = pub (o_up w) (to_lower net @ '':'' @ cid) (evt_json e) r"
    have r1: "r_stack r1 = r_stack r" "r_marked r1 = r_marked r"
      "subseq (map (\<lambda>p. o_md5 w (snd p)) (r_sent r1)) (r_marked r @ [key])"
      using ok by (auto simp: r1_def pub_def relay_ok_def key_def list_emb_append_mono intro: subseq_append_one)
    have keys: "map fst (d_keys (r_stack r)) = drop (length (r_marked r) - m) (r_marked r)"
      and len: "length (d_keys (r_stack r)) = min m (length (r_marked r))"
      using ok by (auto simp: relay_ok_def dest: arg_cong [where f = length])
    have new: "key \<notin> set (map fst (d_keys (r_stack r)))" using False by (simp add: isDuplicate_def)
    have "d_max (r_stack r) = JNum (of_nat m)" using ok by (simp add: relay_ok_def)
    note mk = markPublished_keys [OF new this _ m, of "o_now w"]
    have "relay_ok m (o_md5 w)
        (r1\<lparr>r_stack := markPublished key (o_now w) (r_stack r1), r_marked := r_marked r1 @ [key]\<rparr>)"
      unfolding relay_ok_def
      using mk len keys ok new r1 drop_last_append [of "r_marked r" key m] window_append [of m "r_marked r" key]
      by (auto simp: relay_ok_def)
    then show ?thesis using False Some by (simp add: handle_event_def key_def r1_def Let_def)
  qed
qed

lemma run_pages_ok:
  assumes "relay_ok m (o_md5 w) r" "m < 2 ^ 53"
  shows "relay_ok m (o_md5 w) (run_pages w sts r)"
proof -
  have page: "relay_ok m (o_md5 w) r \<Longrightarrow> relay_ok m (o_md5 w) (handle_page (w\<lparr>o_up := up, o_now := now\<rparr>) net cid logs r)"
    for r up now net cid logs
  proof (induction logs arbitrary: r)
    case (Cons l logs)
    then show ?case
      using handle_event_ok [of m "w\<lparr>o_up := up, o_now := now\<rparr>" r net cid l] assms(2)
      by (simp add: handle_page_def)
  qed (simp add: handle_page_def)
  show ?thesis using assms(1)
    by (induction sts arbitrary: r) (auto simp: run_pages_def run_page_def page split: prod.splits)
qed

text \<open>The pages of a feed that the mirror node serves completely.\<close>

fun feed_logs :: "nat \<Rightarrow> (string \<Rightarrow> mirror_reply) \<Rightarrow> string \<Rightarrow> string \<Rightarrow> raw_log list option" where
  "feed_logs n fetch net url =
     (if url = [] then Some []
      else case n of
             0 \<Rightarrow> None
           | Suc n' \<Rightarrow>
               (case fetch url of
                  Page logs nxt \<Rightarrow> map_option (\<lambda>rest. logs @ rest) (feed_logs n' fetch net (next_url net nxt))
                | _ \<Rightarrow> None))"

lemma poll_reads_feed:
  "feed_logs n fetch net url = Some logs \<Longrightarrow> n \<le> fuel \<Longrightarrow>
     poll_pages fuel fetch w net cid url r = Some (handle_page w net cid logs r)"
proof (induction n arbitrary: fuel url logs r)
  case 0
  then show ?case by (cases fuel) (auto simp: handle_page_def split: if_splits)
next
  case (Suc n)
  show ?case
  proof (cases "url = []")
    case True
    with Suc.prems show ?thesis by (cases fuel) (auto simp: handle_page_def)
  next
    case False
    obtain f where f: "fuel = Suc f" "n \<le> f" using Suc.prems by (cases fuel) auto
    from False Suc.prems obtain l nxt rest where p: "fetch url = Page l nxt"
      "feed_logs n fetch net (next_url net nxt) = Some rest" "logs = l @ rest"
      by (auto simp del: feed_logs.simps simp: feed_logs.simps [of "Suc n"] split: mirror_reply.splits)
    show ?thesis
      using Suc.IH [OF p(2) f(2), of "handle_page w net cid l r"] False
      by (simp add: f(1) p(1,3) handle_page_def)
  qed
qed

definition known :: "relay \<Rightarrow> string set" where
  "known r = set (map fst (d_keys (r_stack r))) \<union> set (r_marked r)"

lemma handle_event_marks:
  "r_marked (handle_event w net cid l r) =
     r_marked r @ (case event_of w net l of
       Some e \<Rightarrow> if isDuplicate (o_md5 w (evt_json e)) (r_stack r) then [] else [o_md5 w (evt_json e)]
     | None \<Rightarrow> [])"
  by (simp add: handle_event_def pub_def Let_def split: option.split)

lemma handle_event_sends:
  assumes "\<And>s msg. o_up w s msg"
  shows "\<exists>new. r_marked (handle_event w net cid l r) = r_marked r @ map (\<lambda>p. o_md5 w (snd p)) new
    \<and> r_sent (handle_event w net cid l r) = r_sent r @ new"
proof (cases "event_of w net l")
  case (Some e)
  then show ?thesis
    using assms by (cases "isDuplicate (o_md5 w (evt_json e)) (r_stack r)")
      (simp_all add: handle_event_def pub_def Let_def)
qed (simp_all add: handle_event_def)

lemma keys_after:
  assumes "p \<in> set (d_keys (markPublished key now d))"
  shows "fst p = key \<or> fst p \<in> fst ` set (d_keys d)"
proof -
  have "set (d_keys (markPublished key now d)) \<subseteq> set (map_set key now (d_keys d))"
    by (cases "map_set key now (d_keys d)") (auto simp: markPublished_def Let_def)
  moreover have "fst q = key \<or> fst q \<in> fst ` set (d_keys d)" if "q \<in> set (map_set key now (d_keys d))" for q
    using that by (auto simp: map_set_def image_iff split: if_splits)
  ultimately show ?thesis using assms by blast
qed

lemma handle_event_known:
  "known r \<subseteq> set (map fst (d_keys (r_stack r))) \<union> set (r_marked (handle_event w net cid l r))"
  "known (handle_event w net cid l r) \<subseteq> set (map fst (d_keys (r_stack r))) \<union> set (r_marked (handle_event w net cid l r))"
  "event_of w net l = Some e \<Longrightarrow>
     o_md5 w (evt_json e) \<in> set (map fst (d_keys (r_stack r))) \<union> set (r_marked (handle_event w net cid l r))"
  by (auto simp: known_def handle_event_def pub_def isDuplicate_def Let_def split: option.split dest!: keys_after)

lemma handle_page_Cons:
  "handle_page w net cid (l # logs) r = handle_page w net cid logs (handle_event w net cid l r)"
  by (simp add: handle_page_def)

lemma handle_page_marked_mono: "set (r_marked r) \<subseteq> set (r_marked (handle_page w net cid logs r))"
proof (induction logs arbitrary: r)
  case (Cons l logs)
  have "set (r_marked r) \<subseteq> set (r_marked (handle_event w net cid l r))" by (simp add: handle_event_marks)
  with Cons.IH [of "handle_event w net cid l r"] show ?case by (simp add: handle_page_Cons)
qed (simp add: handle_page_def)

lemma handle_page_covers:
  "l \<in> set logs \<Longrightarrow> event_of w net l = Some e \<Longrightarrow>
     o_md5 w (evt_json e) \<in> known r \<union> set (r_marked (handle_page w net cid logs r))"
proof (induction logs arbitrary: r)
  case (Cons a logs)
  let ?r1 = "handle_event w net cid a r"
  have "o_md5 w (evt_json e) \<in> set (map fst (d_keys (r_stack r))) \<union> set (r_marked ?r1) \<union> set (r_marked (handle_page w net cid logs ?r1))"
  proof (cases "a = l")
    case True
    then show ?thesis using handle_event_known(3) [OF Cons.prems(2)] by blast
  next
    case False
    then show ?thesis using Cons.IH [of ?r1] Cons.prems handle_event_known(2) [of w net cid a r] by auto
  qed
  then show ?case using handle_page_marked_mono [of ?r1 w net cid logs] by (auto simp: handle_page_Cons known_def)
qed simp

lemma handle_page_sends:
  assumes "\<And>s msg. o_up w s msg"
  shows "\<exists>new. r_marked (handle_page w net cid logs r) = r_marked r @ map (\<lambda>p. o_md5 w (snd p)) new
    \<and> r_sent (handle_page w net cid logs r) = r_sent r @ new"
proof (induction logs arbitrary: r)
  case (Cons l logs)
  obtain n1 where "r_marked (handle_event w net cid l r) = r_marked r @ map (\<lambda>p. o_md5 w (snd p)) n1"
    "r_sent (handle_event w net cid l r) = r_sent r @ n1"
    using handle_event_sends [OF assms] by blast
  moreover obtain n2 where "r_marked (handle_page w net cid logs (handle_event w net cid l r)) =
      r_marked (handle_event w net cid l r) @ map (\<lambda>p. o_md5 w (snd p)) n2"
    "r_sent (handle_page w net cid logs (handle_event w net cid l r)) = r_sent (handle_event w net cid l r) @ n2"
    using Cons.IH by blast
  ultimately show ?case by (intro exI [of _ "n1 @ n2"]) (simp add: handle_page_def)
qed (simp add: handle_page_def)

text \<open>The text that is hashed determines the event, so the memory only confuses events the hash confuses.\<close>

lemma evt_json_text:
  "evt_json e =
     CHR 0x7B # json_string ''type'' @ CHR '':'' # json_string ''contract'' @ CHR '','' #
     json_string ''net'' @ CHR '':'' # json_string (e_net e) @ CHR '','' #
     json_string ''event'' @ CHR '':'' # json_string (e_event e) @ CHR '','' #
     json_string ''args'' @ CHR '':'' # json_object (map (\<lambda>(k, v). (k, json_string v)) (e_args e)) @ CHR '','' #
     json_string ''timestamp'' @ CHR '':'' # json_string (e_timestamp e) @ CHR '','' #
     json_string ''txHash'' @ CHR '':'' # json_string (e_txHash e) @ CHR '','' #
     json_string ''host'' @ CHR '':'' # json_string (e_host e) @ [CHR 0x7D]"
  unfolding evt_json_def
  by (subst json_object_def) simp

lemma evt_json_inject: "evt_json e = evt_json f \<longleftrightarrow> e = f"
proof
  assume "evt_json e = evt_json f"
  then have "e_net e = e_net f \<and> e_event e = e_event f \<and> e_args e = e_args f \<and> e_timestamp e = e_timestamp f
    \<and> e_txHash e = e_txHash f \<and> e_host e = e_host f"
    unfolding evt_json_text by (simp only: list.inject json_string_split json_object_strings_inj simp_thms)
  then show "e = f" by (cases e; cases f) simp
qed simp

lemma fl_seconds_error:
  assumes "\<bar>x\<bar> \<le> 2 ^ 34"
  shows "\<bar>fl x - x\<bar> \<le> 1 / 2 ^ 19"
proof (cases "x = 0")
  case False
  then have "0 < \<bar>x\<bar>" "\<bar>x\<bar> < 2 powi 35" using assms by simp_all
  then have "rat_log2 \<bar>x\<bar> < 35" by (rule rat_log2_less)
  then have "ulp_exp x \<le> - 18" by (simp add: ulp_exp_def)
  then have "(2::rat) powi ulp_exp x \<le> 2 powi (- 18)" by (intro power_int_increasing) simp_all
  then show ?thesis using fl_error_ulp [of x] by (simp add: power_int_minus)
qed simp

lemma floor_seconds:
  assumes "0 \<le> now" "now < 2 ^ 43" "0 \<le> k" "k < 2 ^ 20"
  shows "window_from now (JNum (of_int k)) = JNum (of_int (now div 1000 - 60 * k))"
proof -
  define q where "q = now div 1000"
  have now: "of_int now = of_int q * 1000 + (of_int (now mod 1000) :: rat)"
    unfolding q_def by (metis div_mult_mod_eq of_int_add of_int_mult of_int_numeral)
  have r: "0 \<le> now mod 1000" "now mod 1000 \<le> 999" by simp_all
  then have r': "(0::rat) \<le> of_int (now mod 1000)" "of_int (now mod 1000) \<le> (999::rat)"
    by (simp, metis of_int_le_iff of_int_numeral)
  have q: "0 \<le> q" "q < 2 ^ 34" unfolding q_def using assms(1,2) by auto
  define x where "x = fl (of_int now / 1000)"
  have small: "\<bar>of_int now / 1000 :: rat\<bar> \<le> of_int (2 ^ 34)"
  proof -
    have "(of_int now :: rat) \<le> of_int (2 ^ 43)" using assms(2) by (simp only: of_int_le_iff less_imp_le)
    then show ?thesis using assms(1) by simp
  qed
  have div: "JNum (of_int now) / JNum 1000 = JNum x" "\<bar>x\<bar> \<le> 2 ^ 34"
    using jsfin_small [OF small] by (simp_all add: x_def)
  have x_lo: "of_int q \<le> x"
    using fl_mono [of "of_int q" "of_int now / 1000"] fl_of_int [of q] now r' q by (simp add: x_def)
  have e1: "\<bar>x - of_int now / 1000\<bar> \<le> 1 / 2 ^ 19"
    unfolding x_def using fl_seconds_error [of "of_int now / 1000"] small by simp
  have k60: "JNum (of_int k) * JNum 60 = JNum (of_int (60 * k))"
    using assms(3,4) jsfin_int [of "60 * k"] by (simp add: mult.commute)
  define y where "y = fl (x - of_int (60 * k))"
  have xk: "\<bar>x - of_int (60 * k)\<bar> \<le> of_int (2 ^ 34)" 
  proof -
    have "(of_int (60 * k) :: rat) \<le> of_int (2 ^ 26)" "(0::rat) \<le> of_int (60 * k)"
      using assms(3,4) by (simp_all only: of_int_le_iff of_int_0_le_iff) auto
    moreover have "(of_int (2 ^ 26) :: rat) \<le> of_int (2 ^ 34)" by (simp only: of_int_le_iff) simp
    moreover have "0 \<le> x" using x_lo q by (metis of_int_0_le_iff order.trans)
    ultimately show ?thesis using div(2) by (simp only: abs_le_iff) (simp add: algebra_simps)
  qed
  have sub: "JNum x - JNum (of_int (60 * k)) = JNum y"
    using jsfin_small(1) [OF xk] by (simp add: y_def)
  have e2: "\<bar>y - (x - of_int (60 * k))\<bar> \<le> 1 / 2 ^ 19"
    unfolding y_def using fl_seconds_error [of "x - of_int (60 * k)"] xk by simp
  have "fl (of_int (q - 60 * k)) = of_int (q - 60 * k)" using q assms(3,4) by (intro fl_of_int) auto
  then have y_lo: "of_int (q - 60 * k) \<le> y"
    using fl_mono [of "of_int (q - 60 * k)" "x - of_int (60 * k)"] x_lo by (simp add: y_def)
  have y_hi: "y < of_int (q - 60 * k) + 1"
    using e1 e2 now r'(2) unfolding abs_le_iff by (simp add: field_simps)
  have "\<lfloor>y\<rfloor> = q - 60 * k" using y_lo y_hi by (simp add: floor_unique)
  then show ?thesis using div(1) k60 sub by (simp add: window_from_def q_def)
qed

section \<open>Properties\<close>

text \<open>C24. However the pages of concurrent polls interleave, whatever publications NATS drops, no event is
  published a second time before as many other events as the memory holds have been published: any
  window of that many and one more marked events is free of repetitions. Everything sent was marked,
  in the same order, and the memory never exceeds its capacity.\<close>

theorem relay_never_repeats_within_window:
  assumes "m < 2 ^ 53"
  shows "let r = run_pages w sts (start_relay m) in
      (\<forall>k. distinct (take (Suc m) (drop k (r_marked r))))
      \<and> subseq (map (\<lambda>p. o_md5 w (snd p)) (r_sent r)) (r_marked r)
      \<and> length (d_keys (r_stack r)) \<le> m"
proof -
  have "relay_ok m (o_md5 w) (start_relay m)" by (simp add: relay_ok_def start_relay_def)
  then have ok: "relay_ok m (o_md5 w) (run_pages w sts (start_relay m))" using assms by (rule run_pages_ok)
  then have "map fst (d_keys (r_stack (run_pages w sts (start_relay m)))) =
      drop (length (r_marked (run_pages w sts (start_relay m))) - m) (r_marked (run_pages w sts (start_relay m)))"
    by (simp add: relay_ok_def)
  from arg_cong [OF this, of length] have "length (d_keys (r_stack (run_pages w sts (start_relay m)))) \<le> m" by simp
  with ok show ?thesis by (simp add: relay_ok_def Let_def)
qed

text \<open>A small world for the witnesses: logs decode to an event named by their data.\<close>

definition sample_world :: outside where
  "sample_world = \<lparr>o_md5 = (\<lambda>s. s), o_parseLog = (\<lambda>ts d. Inr (Some (d, []))),
     o_up = (\<lambda>_ _. True), o_host = ''h'', o_now = 0\<rparr>"

definition sample_log :: "string \<Rightarrow> raw_log" where
  "sample_log d = \<lparr>l_topics = [], l_data = d, l_timestamp = ''1'', l_hash = ''0x''\<rparr>"

theorem relay_never_repeats_within_window_witness:
  "let r = run_pages sample_world
     [(\<lambda>_ _. True, 0, ''testnet'', ''0.0.1'', [sample_log ''A'', sample_log ''B'']),
      (\<lambda>_ _. False, 1, ''testnet'', ''0.0.1'', [sample_log ''B'', sample_log ''C''])] (start_relay 1) in
   (\<forall>k. distinct (take (Suc 1) (drop k (r_marked r))))
   \<and> subseq (map (\<lambda>p. o_md5 sample_world (snd p)) (r_sent r)) (r_marked r)
   \<and> length (d_keys (r_stack r)) \<le> 1"
  by (rule relay_never_repeats_within_window) simp


definition sample_feed :: "string \<Rightarrow> mirror_reply" where
  "sample_feed url = (if url = mirror_base ''testnet'' @ ''/1'' then Page [sample_log ''A''] (Some ''/2'')
     else if url = mirror_base ''testnet'' @ ''/2'' then Page [sample_log ''B''] None else BadStatus)"


text \<open>In the steady loop, whose look-back and span are the same number of minutes, a window reaches
  past the moment of its poll, and when the next poll is at most that many minutes later the next window
  starts before the previous one ends: no second between the first window's start and the last window's
  end is skipped.\<close>

theorem poll_windows_leave_no_gap:
  assumes "0 \<le> now1" "now1 \<le> now2" "now2 < 2 ^ 43" "0 \<le> k" "k < 2 ^ 20" "now2 - now1 \<le> k * 60000"
  shows "\<exists>f1 t1 f2 t2. window_from now1 (JNum (of_int k)) = JNum (of_int f1)
    \<and> window_to now1 (JNum (of_int k)) (JNum (of_int k)) = JNum (of_int t1)
    \<and> window_from now2 (JNum (of_int k)) = JNum (of_int f2)
    \<and> window_to now2 (JNum (of_int k)) (JNum (of_int k)) = JNum (of_int t2)
    \<and> now1 < 1000 * t1 \<and> now2 < 1000 * t2 \<and> f2 < t1"
proof -
  have k60: "JNum (of_int k) * JNum 60 = JNum (of_int (60 * k))"
    using assms(4,5) jsfin_int [of "60 * k"] by (simp add: mult.commute)
  have to: "window_to now (JNum (of_int k)) (JNum (of_int k)) = JNum (of_int (now div 1000 + 1))"
    if "0 \<le> now" "now < 2 ^ 43" for now
  proof -
    have q: "0 \<le> now div 1000" "now div 1000 < 2 ^ 34" using that by auto
    have "JNum (of_int (now div 1000 - 60 * k)) + JNum (of_int (60 * k)) = JNum (of_int (now div 1000))"
      using jsfin_int [of "now div 1000"] q by simp
    moreover have "JNum (of_int (now div 1000)) + JNum 1 = JNum (of_int (now div 1000 + 1))"
      using jsfin_int [of "now div 1000 + 1"] q by simp
    ultimately show ?thesis
      using floor_seconds [OF that assms(4,5)] k60 by (simp only: window_to_def)
  qed
  have n1: "now1 < 2 ^ 43" and n2: "0 \<le> now2" using assms by linarith+
  have "now2 div 1000 - 60 * k < now1 div 1000 + 1"
    using assms(6) zdiv_mono1 [of now2 "now1 + (k * 60) * 1000" 1000] by simp
  moreover have "now1 < 1000 * (now1 div 1000 + 1)" "now2 < 1000 * (now2 div 1000 + 1)" by simp_all
  ultimately show ?thesis
    using floor_seconds [OF assms(1) n1 assms(4,5)] floor_seconds [OF n2 assms(3-5)]
      to [OF assms(1) n1] to [OF n2 assms(3)] by blast
qed

theorem poll_windows_leave_no_gap_witness:
  "\<exists>f1 t1 f2 t2. window_from 1700000000000 (JNum (of_int 5)) = JNum (of_int f1)
    \<and> window_to 1700000000000 (JNum (of_int 5)) (JNum (of_int 5)) = JNum (of_int t1)
    \<and> window_from 1700000060000 (JNum (of_int 5)) = JNum (of_int f2)
    \<and> window_to 1700000060000 (JNum (of_int 5)) (JNum (of_int 5)) = JNum (of_int t2)
    \<and> 1700000000000 < 1000 * t1 \<and> 1700000060000 < 1000 * t2 \<and> f2 < t1"
  using poll_windows_leave_no_gap [of 1700000000000 1700000060000 5] by simp

end
