(* ===== verification/Rewards.thy ===== *)
theory Rewards
  imports JsCollections
begin

text \<open>
  Limit order mining rewards: the aggregation of scored rows of \<open>src/web/lib/rewardsMath.ts\<close> and the
  bounded worker pool and the hooks of \<open>src/web/lib/useLomRewards.ts\<close>. The pool is a transition system:
  any running call may finish next. Its contract (every result in its place, never more calls than the
  limit) is proved for every order of completions.
\<close>

section \<open>Aggregation: \<open>rewardsMath.ts\<close>\<close>

record lom_row =
  lr_accountId :: string
  lr_marketId :: string
  lr_lomScore :: jsn
  lr_distance :: jsn
  lr_size :: jsn
  lr_duration :: jsn
  lr_createdAt :: string

record market_stats =
  ms_totalScore :: jsn
  ms_participants :: nat
  ms_avgDistance :: jsn
  ms_avgSize :: jsn
  ms_avgDuration :: jsn
  ms_lastScoredAt :: "string option"

record leader =
  le_accountId :: string
  le_score :: jsn
  le_markets :: nat

definition EMPTY_STATS :: market_stats where
  "EMPTY_STATS = \<lparr>ms_totalScore = JNum 0, ms_participants = 0, ms_avgDistance = JNum 0,
     ms_avgSize = JNum 0, ms_avgDuration = JNum 0, ms_lastScoredAt = None\<rparr>"

definition safeScore :: "lom_row \<Rightarrow> jsn" where
  "safeScore r = (if is_finite (lr_lomScore r) then lr_lomScore r else JNum 0)"

definition later_text :: "string option \<Rightarrow> string \<Rightarrow> string option" where
  "later_text latest t =
     (if t \<noteq> [] \<and> (case latest of None \<Rightarrow> True | Some l \<Rightarrow> l = [] \<or> string_less l t) then Some t else latest)"

record agg =
  a_accounts :: "string list"
  a_total :: jsn
  a_distance :: jsn
  a_size :: jsn
  a_duration :: jsn
  a_last :: "string option"

definition agg_row :: "agg \<Rightarrow> lom_row \<Rightarrow> agg" where
  "agg_row a r =
     (let score = safeScore r in
      \<lparr>a_accounts = (if lr_accountId r \<noteq> [] \<and> lr_accountId r \<notin> set (a_accounts a)
                     then a_accounts a @ [lr_accountId r] else a_accounts a),
       a_total = a_total a + score,
       a_distance = a_distance a + js_or (lr_distance r) (JNum 0) * score,
       a_size = a_size a + js_or (lr_size r) (JNum 0) * score,
       a_duration = a_duration a + js_or (lr_duration r) (JNum 0) * score,
       a_last = later_text (a_last a) (lr_createdAt r)\<rparr>)"

definition mean_of :: "(lom_row \<Rightarrow> jsn) \<Rightarrow> lom_row list \<Rightarrow> jsn" where
  "mean_of pick rows =
     foldl (\<lambda>a r. a + js_or (pick r) (JNum 0)) (JNum 0) rows / num_of_bigint (int (length rows))"

definition aggregate :: "lom_row list option \<Rightarrow> market_stats" where
  "aggregate rs =
     (case rs of
        None \<Rightarrow> EMPTY_STATS
      | Some rows \<Rightarrow>
          if rows = [] then EMPTY_STATS
          else let a = foldl agg_row \<lparr>a_accounts = [], a_total = JNum 0, a_distance = JNum 0,
                         a_size = JNum 0, a_duration = JNum 0, a_last = None\<rparr> rows;
                   weighted = JNum 0 < a_total a
               in \<lparr>ms_totalScore = a_total a, ms_participants = length (a_accounts a),
                   ms_avgDistance = (if weighted then a_distance a / a_total a else mean_of lr_distance rows),
                   ms_avgSize = (if weighted then a_size a / a_total a else mean_of lr_size rows),
                   ms_avgDuration = (if weighted then a_duration a / a_total a else mean_of lr_duration rows),
                   ms_lastScoredAt = a_last a\<rparr>)"

definition rows_or_empty :: "lom_row list option \<Rightarrow> lom_row list" where
  "rows_or_empty rs = (case rs of Some rows \<Rightarrow> rows | None \<Rightarrow> [])"

definition add_leader :: "(string \<times> leader) list \<Rightarrow> lom_row \<Rightarrow> (string \<times> leader) list" where
  "add_leader m r =
     (if lr_accountId r = [] then m
      else let e = (case map_of m (lr_accountId r) of
                      Some e \<Rightarrow> e
                    | None \<Rightarrow> \<lparr>le_accountId = lr_accountId r, le_score = JNum 0, le_markets = 0\<rparr>)
           in map_set (lr_accountId r)
                (e\<lparr>le_score := le_score e + safeScore r, le_markets := le_markets e + 1\<rparr>) m)"

definition buildLeaderboard :: "lom_row list option list \<Rightarrow> leader list" where
  "buildLeaderboard rowLists =
     (let byAccount = foldl add_leader [] (concat (map rows_or_empty rowLists))
      in js_sort (\<lambda>a b. le_score b - le_score a) (map snd (obj_entries byAccount)))"

definition groupRowsByMarket :: "lom_row list option \<Rightarrow> (string \<times> lom_row list) list" where
  "groupRowsByMarket rs =
     foldl (\<lambda>m r. map_set (lr_marketId r)
       ((case map_of m (lr_marketId r) of Some l \<Rightarrow> l | None \<Rightarrow> []) @ [r]) m) [] (rows_or_empty rs)"

definition scoreByMarketFrom :: "lom_row list option \<Rightarrow> (string \<times> jsn) list" where
  "scoreByMarketFrom rs =
     foldl (\<lambda>m r. map_set (lr_marketId r)
       ((case map_of m (lr_marketId r) of Some s \<Rightarrow> s | None \<Rightarrow> JNum 0) + safeScore r) m) [] (rows_or_empty rs)"

definition lastScoredAtByMarketFrom :: "(string \<times> lom_row list) list \<Rightarrow> (string \<times> string option) list" where
  "lastScoredAtByMarketFrom rowsByMarket =
     foldl (\<lambda>m (k, rows). map_set k (foldl (\<lambda>l r. later_text l (lr_createdAt r)) None rows) m) []
       (obj_entries rowsByMarket)"

definition latestScoredAt :: "market_stats list \<Rightarrow> string option" where
  "latestScoredAt stats =
     foldl (\<lambda>l s. case ms_lastScoredAt s of None \<Rightarrow> l | Some t \<Rightarrow> later_text l t) None stats"

record prism_balances =
  pb_balance :: int
  pb_unredeemed :: int
  pb_redeemable :: int

definition mapPrismResponse :: "(int option \<times> int option \<times> int option) option \<Rightarrow> prism_balances" where
  "mapPrismResponse res =
     (let dflt = (\<lambda>x. case x of Some v \<Rightarrow> v | None \<Rightarrow> 0)
      in case res of
           None \<Rightarrow> \<lparr>pb_balance = 0, pb_unredeemed = 0, pb_redeemable = 0\<rparr>
         | Some (a, b, c) \<Rightarrow> \<lparr>pb_balance = dflt a, pb_unredeemed = dflt b, pb_redeemable = dflt c\<rparr>)"

section \<open>The pool and the hooks: \<open>useLomRewards.ts\<close>\<close>

definition LOM_MARKET_FETCH_CAP :: nat where "LOM_MARKET_FETCH_CAP = 60"
definition LOM_FETCH_CONCURRENCY :: nat where "LOM_FETCH_CONCURRENCY = 3"

text \<open>The state between awaits: the shared cursor, the item each live runner waits for, the results, and
  whether a worker has rejected (which rejects the whole call while the other runners go on).\<close>

record 'r pool =
  p_cursor :: nat
  p_running :: "nat list"
  p_out :: "'r option list"
  p_failed :: bool

definition pool_start :: "'a list \<Rightarrow> nat \<Rightarrow> 'r pool" where
  "pool_start items lmt =
     \<lparr>p_cursor = min lmt (length items), p_running = [0..<min lmt (length items)],
      p_out = replicate (length items) None, p_failed = False\<rparr>"

definition pool_finish :: "('a \<Rightarrow> 'r result) \<Rightarrow> 'a list \<Rightarrow> nat \<Rightarrow> 'r pool \<Rightarrow> 'r pool" where
  "pool_finish worker items i p =
     (case worker (items ! i) of
        Inr v \<Rightarrow>
          if p_cursor p < length items
          then p\<lparr>p_out := (p_out p)[i := Some v], p_running := remove1 i (p_running p) @ [p_cursor p],
                 p_cursor := Suc (p_cursor p)\<rparr>
          else p\<lparr>p_out := (p_out p)[i := Some v], p_running := remove1 i (p_running p), p_cursor := Suc (p_cursor p)\<rparr>
      | Inl _ \<Rightarrow> p\<lparr>p_running := remove1 i (p_running p), p_failed := True\<rparr>)"

text \<open>\<open>runWithPool\<close> under a schedule: each number picks the call that finishes next.\<close>

definition pool_pick :: "('a \<Rightarrow> 'r result) \<Rightarrow> 'a list \<Rightarrow> nat \<Rightarrow> 'r pool \<Rightarrow> 'r pool" where
  "pool_pick worker items k p =
     (if p_running p = [] then p
      else pool_finish worker items (p_running p ! (k mod length (p_running p))) p)"

definition runWithPool :: "('a \<Rightarrow> 'r result) \<Rightarrow> 'a list \<Rightarrow> nat \<Rightarrow> nat list \<Rightarrow> 'r pool" where
  "runWithPool worker items lmt schedule = fold (pool_pick worker items) schedule (pool_start items lmt)"

definition lom_ids :: "string list \<Rightarrow> string list" where
  "lom_ids marketIds = take LOM_MARKET_FETCH_CAP (js_uniq (filter (\<lambda>s. s \<noteq> []) marketIds))"

text \<open>A failing market reads as one without rows.\<close>

definition read_rewards :: "(string \<Rightarrow> lom_row list option result) \<Rightarrow> string \<Rightarrow> lom_row list result" where
  "read_rewards getRewards marketId = Inr (case getRewards marketId of Inr rs \<Rightarrow> rows_or_empty rs | Inl _ \<Rightarrow> [])"

definition market_query ::
  "(string \<Rightarrow> lom_row list option result) \<Rightarrow> string list \<Rightarrow> nat list \<Rightarrow> (string \<times> lom_row list) list" where
  "market_query getRewards ids schedule =
     (let out = p_out (runWithPool (read_rewards getRewards) ids LOM_FETCH_CONCURRENCY schedule)
      in foldl (\<lambda>m i. map_set (ids ! i) (case out ! i of Some rows \<Rightarrow> rows | None \<Rightarrow> []) m) [] [0..<length ids])"

record market_rewards =
  mr_stats :: "(string \<times> market_stats) list"
  mr_leaderboard :: "leader list"
  mr_lastScoredAt :: "string option"

definition useLomMarketRewards :: "(string \<times> lom_row list) list option \<Rightarrow> market_rewards" where
  "useLomMarketRewards query =
     (let entries = (case query of Some m \<Rightarrow> obj_entries m | None \<Rightarrow> []);
          stats = foldl (\<lambda>m (k, rows). map_set k (aggregate (Some rows)) m) [] entries
      in \<lparr>mr_stats = stats, mr_leaderboard = buildLeaderboard (map (\<lambda>p. Some (snd p)) entries),
          mr_lastScoredAt = latestScoredAt (map snd (obj_entries stats))\<rparr>)"

record account_rewards =
  ar_scoreByMarket :: "(string \<times> jsn) list"
  ar_rowsByMarket :: "(string \<times> lom_row list) list"
  ar_lastScoredAt :: "(string \<times> string option) list"
  ar_marketIds :: "string list"
  ar_totalScore :: jsn
  ar_isConnected :: bool

definition useLomAccountRewards :: "string option \<Rightarrow> lom_row list option \<Rightarrow> account_rewards" where
  "useLomAccountRewards accountId query =
     (let scores = scoreByMarketFrom query
      in \<lparr>ar_scoreByMarket = scores, ar_rowsByMarket = groupRowsByMarket query,
          ar_lastScoredAt = lastScoredAtByMarketFrom (groupRowsByMarket query),
          ar_marketIds = map fst (obj_entries scores),
          ar_totalScore = foldl (+) (JNum 0) (map snd (obj_entries scores)),
          ar_isConnected = (case accountId of Some a \<Rightarrow> a \<noteq> [] | None \<Rightarrow> False)\<rparr>)"

section \<open>Facts\<close>

definition pool_ok :: "('a \<Rightarrow> 'r) \<Rightarrow> 'a list \<Rightarrow> nat \<Rightarrow> 'r pool \<Rightarrow> bool" where
  "pool_ok g items lmt p \<longleftrightarrow>
     length (p_out p) = length items \<and> distinct (p_running p)
     \<and> (\<forall>i\<in>set (p_running p). i < p_cursor p \<and> i < length items)
     \<and> (\<forall>i<length items. p_out p ! i = (if i < p_cursor p \<and> i \<notin> set (p_running p) then Some (g (items ! i)) else None))
     \<and> length (p_running p) \<le> lmt
     \<and> (p_running p = [] \<longrightarrow> lmt = 0 \<or> length items \<le> p_cursor p)
     \<and> \<not> p_failed p"

definition pool_left :: "'r pool \<Rightarrow> nat" where
  "pool_left p = length (filter (\<lambda>x. x = None) (p_out p))"

lemma pool_start_ok: "pool_ok g items lmt (pool_start items lmt)"
  by (auto simp: pool_ok_def pool_start_def min_def)

lemma count_none_update:
  "i < length xs \<Longrightarrow> xs ! i = None \<Longrightarrow>
     Suc (length (filter (\<lambda>x. x = None) (xs[i := Some v]))) = length (filter (\<lambda>x. x = None) xs)"
proof (induction xs arbitrary: i)
  case (Cons x xs)
  then show ?case by (cases i) auto
qed simp

lemma pool_finish_ok:
  assumes ok: "pool_ok g items lmt p" and i: "i \<in> set (p_running p)" and w: "worker (items ! i) = Inr (g (items ! i))"
  shows "pool_ok g items lmt (pool_finish worker items i p)"
    and "Suc (pool_left (pool_finish worker items i p)) = pool_left p"
proof -
  have len: "0 < length (p_running p)" using i by auto
  have ic: "i < p_cursor p" "i < length items" "p_out p ! i = None" "length (p_out p) = length items"
    using ok i by (auto simp: pool_ok_def)
  have rm: "distinct (remove1 i (p_running p))" "set (remove1 i (p_running p)) = set (p_running p) - {i}"
    "length (remove1 i (p_running p)) = length (p_running p) - 1"
    using ok i by (auto simp: pool_ok_def length_remove1)
  show "Suc (pool_left (pool_finish worker items i p)) = pool_left p"
    using ic w count_none_update [of i "p_out p" "g (items ! i)"] by (simp add: pool_left_def pool_finish_def)
  show "pool_ok g items lmt (pool_finish worker items i p)"
  proof (cases "p_cursor p < length items")
    case True
    have "p_cursor p \<notin> set (p_running p)" using ok by (auto simp: pool_ok_def)
    then show ?thesis
      using True ok w ic rm len by (auto simp: pool_ok_def pool_finish_def nth_list_update)
  next
    case False
    then show ?thesis
      using ok w ic rm len by (auto simp: pool_ok_def pool_finish_def nth_list_update)
  qed
qed

lemma pool_run_ok:
  assumes w: "\<And>x. x \<in> set items \<Longrightarrow> worker x = Inr (g x)"
  shows "pool_ok g items lmt (runWithPool worker items lmt schedule)
    \<and> (p_running (runWithPool worker items lmt schedule) = []
       \<or> pool_left (runWithPool worker items lmt schedule) + length schedule = length items)"
proof (induction schedule rule: rev_induct)
  case Nil
  have "length (filter (\<lambda>x. x = None) (replicate n (None :: 'r option))) = n" for n by (induction n) simp_all
  then show ?case by (simp add: runWithPool_def pool_start_ok) (simp add: pool_left_def pool_start_def)
next
  case (snoc k ks)
  let ?p = "runWithPool worker items lmt ks"
  have step: "runWithPool worker items lmt (ks @ [k]) = pool_pick worker items k ?p" by (simp add: runWithPool_def)
  show ?case
  proof (cases "p_running ?p = []")
    case True
    then show ?thesis using snoc by (simp add: step pool_pick_def)
  next
    case False
    define i where "i = p_running ?p ! (k mod length (p_running ?p))"
    have i: "i \<in> set (p_running ?p)" using False by (simp add: i_def)
    then have "worker (items ! i) = Inr (g (items ! i))" using snoc w by (auto simp: pool_ok_def)
    from pool_finish_ok [of g items lmt ?p i worker, OF conjunct1 [OF snoc] i this] snoc False show ?thesis
      by (simp add: step pool_pick_def i_def)
  qed
qed

lemma pool_complete:
  assumes "0 < lmt" "\<And>x. x \<in> set items \<Longrightarrow> worker x = Inr (g x)" "length items \<le> length schedule"
  shows "p_out (runWithPool worker items lmt schedule) = map (\<lambda>x. Some (g x)) items"
    and "p_running (runWithPool worker items lmt schedule) = []"
proof -
  let ?p = "runWithPool worker items lmt schedule"
  have ok: "pool_ok g items lmt ?p" and "p_running ?p = [] \<or> pool_left ?p + length schedule = length items"
    using pool_run_ok [of items worker g lmt schedule, OF assms(2)] by blast+
  then have "p_running ?p = [] \<or> pool_left ?p = 0" using assms(3) by linarith
  then have run: "p_running ?p = []"
  proof
    assume z: "pool_left ?p = 0"
    show ?thesis
    proof (rule ccontr)
      assume "p_running ?p \<noteq> []"
      then have "hd (p_running ?p) \<in> set (p_running ?p)" by simp
      then have "hd (p_running ?p) < length items" "p_out ?p ! hd (p_running ?p) = None" "length (p_out ?p) = length items"
        using ok by (auto simp: pool_ok_def)
      then have "None \<in> set (p_out ?p)" by (metis nth_mem)
      then show False using z by (auto simp: pool_left_def filter_empty_conv)
    qed
  qed
  then show "p_out ?p = map (\<lambda>x. Some (g x)) items"
    using ok assms(1) by (intro nth_equalityI) (auto simp: pool_ok_def)
  show "p_running ?p = []" by (rule run)
qed

text \<open>The leaderboard's table: one entry per account, with the fold of its rows.\<close>

definition rows_of :: "string \<Rightarrow> lom_row list \<Rightarrow> lom_row list" where
  "rows_of a rows = filter (\<lambda>r. lr_accountId r = a) rows"

definition leader_of :: "string \<Rightarrow> lom_row list \<Rightarrow> leader" where
  "leader_of a rows =
     \<lparr>le_accountId = a, le_score = foldl (+) (JNum 0) (map safeScore (rows_of a rows)),
      le_markets = length (rows_of a rows)\<rparr>"

lemma leaders_table:
  "map_of (foldl add_leader [] rows) a = (if a = [] \<or> rows_of a rows = [] then None else Some (leader_of a rows))"
proof (induction rows arbitrary: a rule: rev_induct)
  case Nil
  show ?case by (simp add: rows_of_def)
next
  case (snoc r rows)
  show ?case
  proof (cases "lr_accountId r = []")
    case True
    then show ?thesis using snoc [of a] by (auto simp: add_leader_def rows_of_def leader_of_def)
  next
    case False
    then show ?thesis
      using snoc [of a] snoc [of "lr_accountId r"]
      by (cases "lr_accountId r = a"; cases "rows_of a rows = []")
        (simp_all add: add_leader_def map_of_map_set rows_of_def leader_of_def Let_def)
  qed
qed

lemma leaders_distinct: "distinct (map fst (foldl add_leader [] rows))"
  by (induction rows rule: rev_induct) (simp_all add: add_leader_def map_set_distinct Let_def)

lemma leaders_member:
  "(a, e) \<in> set (foldl add_leader [] rows) \<longleftrightarrow> a \<noteq> [] \<and> rows_of a rows \<noteq> [] \<and> e = leader_of a rows"
proof -
  have "(a, e) \<in> set (foldl add_leader [] rows) \<longleftrightarrow> map_of (foldl add_leader [] rows) a = Some e"
    using map_of_eq_Some_iff [OF leaders_distinct] by blast
  then show ?thesis by (simp only: leaders_table) auto
qed

lemma leaders_set:
  "set (map snd (foldl add_leader [] rows)) = {leader_of a rows | a. a \<noteq> [] \<and> rows_of a rows \<noteq> []}"
proof (intro set_eqI iffI)
  fix e
  assume "e \<in> set (map snd (foldl add_leader [] rows))"
  then obtain a where "(a, e) \<in> set (foldl add_leader [] rows)" by auto
  then show "e \<in> {leader_of a rows | a. a \<noteq> [] \<and> rows_of a rows \<noteq> []}" unfolding leaders_member by blast
next
  fix e
  assume "e \<in> {leader_of a rows | a. a \<noteq> [] \<and> rows_of a rows \<noteq> []}"
  then obtain a where "(a, e) \<in> set (foldl add_leader [] rows)" unfolding leaders_member by blast
  then show "e \<in> set (map snd (foldl add_leader [] rows))" by force
qed

lemma leaders_accounts: "map le_accountId (map snd (foldl add_leader [] rows)) = map fst (foldl add_leader [] rows)"
proof -
  have "le_accountId (snd p) = fst p" if "p \<in> set (foldl add_leader [] rows)" for p
    using that leaders_member [of "fst p" "snd p" rows] by (simp add: leader_of_def)
  then show ?thesis unfolding map_map comp_def by (rule map_cong [OF refl])
qed

definition representable :: "jsn \<Rightarrow> bool" where
  "representable x = (case x of JNum a \<Rightarrow> fl a = a | _ \<Rightarrow> True)"

lemma representable_plus: "representable (x + y)"
  by (cases x; cases y) (auto simp: representable_def jsfin_def Let_def split: jsn.splits if_splits)

lemma representable_sum: "representable (foldl (+) (JNum 0) xs)"
  by (cases xs rule: rev_cases) (auto simp: representable_plus, simp add: representable_def)

definition jsn_rat :: "jsn \<Rightarrow> rat" where
  "jsn_rat x = (case x of JNum a \<Rightarrow> a | _ \<Rightarrow> 0)"

lemma leader_order:
  assumes "list_all (\<lambda>e. is_finite (le_score e)) (buildLeaderboard rowLists)"
  shows "sorted_wrt (\<lambda>a b. le_score b \<le> le_score a) (buildLeaderboard rowLists)"
proof -
  define es where "es = map snd (obj_entries (foldl add_leader [] (concat (map rows_or_empty rowLists))))"
  have lb: "buildLeaderboard rowLists = js_sort (\<lambda>a b. le_score b - le_score a) es"
    by (simp add: buildLeaderboard_def es_def Let_def)
  have fin: "\<exists>q. le_score e = JNum q \<and> fl q = q" if "e \<in> set es" for e
  proof -
    have "is_finite (le_score e)" using assms that by (auto simp: lb list_all_iff)
    moreover have "e \<in> set (map snd (foldl add_leader [] (concat (map rows_or_empty rowLists))))"
      using that by (simp add: es_def)
    then have "representable (le_score e)" unfolding leaders_set by (auto simp: leader_of_def representable_sum)
    ultimately show ?thesis by (cases "le_score e") (auto simp: representable_def)
  qed
  have "sorted_wrt (\<lambda>x y. - jsn_rat (le_score x) \<le> - jsn_rat (le_score y)) (js_sort (\<lambda>a b. le_score b - le_score a) es)"
  proof (rule js_sort_sorted)
    fix x y
    assume "x \<in> set es" "y \<in> set es"
    then obtain p q where "le_score x = JNum p" "fl p = p" "le_score y = JNum q" "fl q = q"
      using fin by metis
    then show "JNum 0 < le_score y - le_score x \<longleftrightarrow> - jsn_rat (le_score y) < - jsn_rat (le_score x)"
      using jsn_diff_pos [of q p] by (simp add: jsn_rat_def del: minus_num)
  qed
  then have "sorted_wrt (\<lambda>x y. le_score y \<le> le_score x) (js_sort (\<lambda>a b. le_score b - le_score a) es)"
  proof (rule sorted_wrt_mono_rel [rotated])
    fix x y
    assume "x \<in> set (js_sort (\<lambda>a b. le_score b - le_score a) es)" "y \<in> set (js_sort (\<lambda>a b. le_score b - le_score a) es)"
      and le: "- jsn_rat (le_score x) \<le> - jsn_rat (le_score y)"
    then obtain p q where "le_score x = JNum p" "le_score y = JNum q" using fin by (metis set_js_sort)
    with le show "le_score y \<le> le_score x" by (simp add: jsn_rat_def)
  qed
  then show ?thesis by (simp only: lb)
qed

section \<open>Properties\<close>

text \<open>C35. Whatever the order in which the calls finish, a pool whose worker does not fail ends after as
  many completions as there are items, with every item's result in the item's place; and at every moment
  before that at most the allowed number of calls is running.\<close>

theorem pool_returns_all_in_order:
  assumes "0 < lmt" "\<And>x. x \<in> set items \<Longrightarrow> worker x = Inr (g x)" "length items \<le> length schedule"
  shows "p_out (runWithPool worker items lmt schedule) = map (\<lambda>x. Some (g x)) items
    \<and> p_running (runWithPool worker items lmt schedule) = []
    \<and> (\<forall>k. length (p_running (runWithPool worker items lmt (take k schedule))) \<le> lmt)"
  using pool_complete [OF assms] pool_run_ok [of items worker g lmt "take k schedule" for k, OF assms(2)]
  by (simp add: pool_ok_def)

theorem pool_returns_all_in_order_witness:
  "p_out (runWithPool (\<lambda>x :: int. Inr (x * 10)) [1, 2, 3, 4] 2 [1, 0, 1, 0]) = [Some 10, Some 20, Some 30, Some 40]"
  using pool_returns_all_in_order [of 2 "[1, 2, 3, 4 :: int]" "\<lambda>x. Inr (x * 10)" "\<lambda>x. x * 10" "[1, 0, 1, 0]"]
  by simp

text \<open>The leaderboard has exactly one entry per account with a row, holding the number of its rows
  and the sum of their scores in the order of the rows; rows without an account count for nobody; and
  when no sum overflows the entries are in descending order of their scores.\<close>

theorem leaderboard_totals:
  assumes "list_all (\<lambda>e. is_finite (le_score e)) (buildLeaderboard rowLists)"
  shows "let lb = buildLeaderboard rowLists; rows = concat (map rows_or_empty rowLists) in
      distinct (map le_accountId lb)
      \<and> set lb = {leader_of a rows | a. a \<noteq> [] \<and> rows_of a rows \<noteq> []}
      \<and> sorted_wrt (\<lambda>a b. le_score b \<le> le_score a) lb"
proof -
  let ?t = "foldl add_leader [] (concat (map rows_or_empty rowLists))"
  have "mset (obj_entries ?t) = mset ?t" by (simp add: obj_entries_def)
  then have "mset (map le_accountId (map snd (obj_entries ?t))) = mset (map le_accountId (map snd ?t))"
    by (metis mset_map)
  then have "distinct (map le_accountId (map snd (obj_entries ?t)))"
    using leaders_distinct unfolding leaders_accounts by (metis mset_eq_imp_distinct_iff)
  then have "distinct (map le_accountId (buildLeaderboard rowLists))"
    by (simp only: buildLeaderboard_def Let_def distinct_js_sort)
  moreover have "set (buildLeaderboard rowLists) = set (map snd ?t)" by (simp add: buildLeaderboard_def Let_def)
  ultimately show ?thesis using leader_order [OF assms] leaders_set by (simp add: Let_def)
qed

definition sample_row :: "string \<Rightarrow> rat \<Rightarrow> lom_row" where
  "sample_row a s = \<lparr>lr_accountId = a, lr_marketId = ''m'', lr_lomScore = JNum s, lr_distance = JNum 1,
     lr_size = JNum 1, lr_duration = JNum 1, lr_createdAt = ''2026''\<rparr>"

lemma sample_leaderboard:
  "buildLeaderboard [Some [sample_row ''0.0.1'' 1, sample_row ''0.0.2'' 1], None] =
     [\<lparr>le_accountId = ''0.0.1'', le_score = JNum 1, le_markets = 1\<rparr>,
      \<lparr>le_accountId = ''0.0.2'', le_score = JNum 1, le_markets = 1\<rparr>]"
  by (simp add: buildLeaderboard_def rows_or_empty_def add_leader_def sample_row_def map_set_def safeScore_def
      obj_entries_def is_index_def js_sort_def)

theorem leaderboard_totals_witness:
  "let lb = buildLeaderboard [Some [sample_row ''0.0.1'' 1, sample_row ''0.0.2'' 1], None] in
     distinct (map le_accountId lb) \<and> sorted_wrt (\<lambda>a b. le_score b \<le> le_score a) lb"
  using leaderboard_totals [of "[Some [sample_row ''0.0.1'' 1, sample_row ''0.0.2'' 1], None]"]
  by (simp add: sample_leaderboard)

end
