(* ===== verification/Paging.thy ===== *)
theory Paging
  imports Prelude
begin

text \<open>
  Reading a whole feed page by page: the client loop of \<open>src/web/lib/fetchAllPaged.ts\<close> and the page
  arithmetic of the server, \<open>src/api/server/lib/pagination.go\<close>. The contract between them is a locale;
  the client's completeness is proved from it and the Go code is shown to provide it.
\<close>

section \<open>The client\<close>

record pagination =
  p_limit :: int
  p_offset :: int
  p_total :: int
  p_hasMore :: bool
  p_nextOffset :: int

record 'a page =
  page_rows :: "'a list"
  page_info :: "pagination option"

record 'a paged_result =
  r_rows :: "'a list"
  r_total :: int
  r_truncated :: bool

definition PAGE_LIMIT :: int where "PAGE_LIMIT = 100"

text \<open>The loop's variables; \<open>n_left\<close> counts the iterations left.\<close>

record 'a walk =
  w_rows :: "'a list"
  w_offset :: int
  w_total :: int
  w_limit :: int
  w_truncated :: bool

definition learned_limit :: "int \<Rightarrow> 'a page \<Rightarrow> int" where
  "learned_limit effectiveLimit pg =
     (if effectiveLimit = 0 then
        (case page_info pg of
           Some p \<Rightarrow> if p_limit p > 0 then p_limit p else int (length (page_rows pg))
         | None \<Rightarrow> int (length (page_rows pg)))
      else effectiveLimit)"

definition page_more :: "int \<Rightarrow> 'a page \<Rightarrow> bool" where
  "page_more effectiveLimit pg =
     (case page_info pg of
        Some p \<Rightarrow> p_hasMore p
      | None \<Rightarrow> effectiveLimit > 0 \<and> int (length (page_rows pg)) \<ge> effectiveLimit)"

definition next_offset :: "int \<Rightarrow> int \<Rightarrow> 'a page \<Rightarrow> int" where
  "next_offset offset effectiveLimit pg =
     (let step = offset + (if effectiveLimit \<noteq> 0 then effectiveLimit else int (length (page_rows pg))) in
      case page_info pg of
        Some p \<Rightarrow> if p_nextOffset p \<noteq> 0 \<and> p_nextOffset p > offset then p_nextOffset p else step
      | None \<Rightarrow> step)"

text \<open>One iteration; the flag tells whether the loop goes on.\<close>

definition walk_page :: "bool \<Rightarrow> 'a page \<Rightarrow> 'a walk \<Rightarrow> bool \<times> 'a walk" where
  "walk_page is_last pg w =
     (let eff = learned_limit (w_limit w) pg;
          w1 = w\<lparr>w_rows := w_rows w @ page_rows pg,
                 w_total := (case page_info pg of
                               Some p \<Rightarrow> if p_total p > 0 then p_total p else w_total w
                             | None \<Rightarrow> w_total w),
                 w_limit := eff\<rparr>
      in if \<not> page_more eff pg then (False, w1)
         else (True, w1\<lparr>w_offset := next_offset (w_offset w) eff pg,
                        w_truncated := (w_truncated w \<or> is_last)\<rparr>))"

fun walk_pages :: "nat \<Rightarrow> (int \<Rightarrow> int \<Rightarrow> 'a page result) \<Rightarrow> 'a walk \<Rightarrow> 'a walk result" where
  "walk_pages 0 fetchPage w = Inr w"
| "walk_pages (Suc n) fetchPage w =
     bind_result (fetchPage PAGE_LIMIT (w_offset w)) (\<lambda>pg.
       let (goes, w') = walk_page (n = 0) pg w
       in if goes then walk_pages n fetchPage w' else Inr w')"

definition start_walk :: "'a walk" where
  "start_walk = \<lparr>w_rows = [], w_offset = 0, w_total = 0, w_limit = 0, w_truncated = False\<rparr>"

definition fetchAllPaged :: "(int \<Rightarrow> int \<Rightarrow> 'a page result) \<Rightarrow> int option \<Rightarrow> 'a paged_result result" where
  "fetchAllPaged fetchPage maxPages =
     (let n = max 1 (case maxPages of Some m \<Rightarrow> m | None \<Rightarrow> 8) in
      bind_result (walk_pages (nat n) fetchPage start_walk) (\<lambda>w.
        Inr \<lparr>r_rows = w_rows w,
             r_total = (if w_total w \<noteq> 0 then w_total w else int (length (w_rows w))),
             r_truncated = w_truncated w\<rparr>))"

section \<open>The server\<close>

text \<open>\<open>LIMIT\<close> is the fallback page size of the Go code, \<open>db_max_rows\<close> the parsed environment variable.\<close>

definition LIMIT :: int where "LIMIT = 50"

definition ClampLimit :: "int option \<Rightarrow> int \<Rightarrow> int" where
  "ClampLimit db_max_rows limit =
     (let l = (if limit \<le> 0 then LIMIT else limit);
          maxRows = (case db_max_rows of Some m \<Rightarrow> if m \<le> 0 then LIMIT else m | None \<Rightarrow> LIMIT)
      in if l > maxRows then maxRows else l)"

text \<open>\<open>int32(x)\<close> of a 64-bit sum wraps.\<close>

definition to_int32 :: "int \<Rightarrow> int" where
  "to_int32 n = (n + 2 ^ 31) mod 2 ^ 32 - 2 ^ 31"

lemma to_int32_small: "- (2 ^ 31) \<le> n \<Longrightarrow> n < 2 ^ 31 \<Longrightarrow> to_int32 n = n"
  by (simp add: to_int32_def)

definition NewPagination :: "int \<Rightarrow> int \<Rightarrow> int \<Rightarrow> int \<Rightarrow> pagination" where
  "NewPagination limit offset tot returned =
     (let consumed = offset + returned; hasMore = (consumed < tot) in
      \<lparr>p_limit = limit, p_offset = offset, p_total = tot, p_hasMore = hasMore,
       p_nextOffset = (if hasMore then to_int32 consumed else offset)\<rparr>)"

text \<open>A handler over a feed: the clamped slice, with its pagination.\<close>

definition serve_page :: "int option \<Rightarrow> 'a list \<Rightarrow> int \<Rightarrow> int \<Rightarrow> 'a page result" where
  "serve_page db_max_rows feed limit offset =
     (let l = ClampLimit db_max_rows limit;
          rows = take (nat l) (drop (nat offset) feed)
      in Inr \<lparr>page_rows = rows,
              page_info = Some (NewPagination l offset (int (length feed)) (int (length rows)))\<rparr>)"

section \<open>The contract between them\<close>

text \<open>A source serves a feed in chunks of a fixed positive size and says where it stands.\<close>

locale paged_source =
  fixes fetch :: "int \<Rightarrow> int \<Rightarrow> 'a page result" and feed :: "'a list" and chunk :: nat
  assumes chunk_pos: "0 < chunk"
    and fetch_page: "int (length feed) < 2 ^ 31 \<Longrightarrow> 0 \<le> off \<Longrightarrow> off \<le> int (length feed) \<Longrightarrow>
      \<exists>p. fetch PAGE_LIMIT off = Inr \<lparr>page_rows = take chunk (drop (nat off) feed), page_info = Some p\<rparr>
        \<and> p_total p = int (length feed)
        \<and> p_hasMore p = (nat off + chunk < length feed)
        \<and> (p_hasMore p \<longrightarrow> p_nextOffset p = off + int chunk)"
begin

lemma walk_page_source:
  assumes small: "int (length feed) < 2 ^ 31" and "w_offset w = int k" "w_rows w = take k feed" "k \<le> length feed" "w_total w \<in> {0, int (length feed)}"
  shows "\<exists>pg. fetch PAGE_LIMIT (w_offset w) = Inr pg
    \<and> (case walk_page l pg w of
         (goes, w') \<Rightarrow> goes = (k + chunk < length feed) \<and> w_rows w' = take (k + chunk) feed
           \<and> w_total w' \<in> {0, int (length feed)} \<and> (length feed \<noteq> 0 \<longrightarrow> w_total w' = int (length feed))
           \<and> (goes \<longrightarrow> w_offset w' = int (k + chunk))
           \<and> w_truncated w' = (w_truncated w \<or> goes \<and> l))"
proof -
  obtain p where p: "fetch PAGE_LIMIT (int k) =
      Inr \<lparr>page_rows = take chunk (drop k feed), page_info = Some p\<rparr>"
    "p_total p = int (length feed)" "p_hasMore p = (k + chunk < length feed)"
    "p_hasMore p \<longrightarrow> p_nextOffset p = int k + int chunk"
    using fetch_page [OF small, of "int k"] assms(4) by auto
  have t: "take k feed @ take chunk (drop k feed) = take (k + chunk) feed"
    by (simp add: take_add)
  show ?thesis
    using p assms t chunk_pos
    by (auto simp: walk_page_def Let_def page_more_def next_offset_def)
qed

lemma walk_source:
  assumes small: "int (length feed) < 2 ^ 31" and "w_offset w = int k" "w_rows w = take k feed" "k \<le> length feed"
    "w_total w \<in> {0, int (length feed)}" "\<not> w_truncated w"
  shows "\<exists>w'. walk_pages (Suc n) fetch w = Inr w'
    \<and> w_rows w' = take (k + Suc n * chunk) feed
    \<and> (length feed \<noteq> 0 \<longrightarrow> w_total w' = int (length feed))
    \<and> (length feed = 0 \<longrightarrow> w_total w' = 0)
    \<and> w_truncated w' = (k + Suc n * chunk < length feed)"
  using assms(2-)
proof (induction n arbitrary: k w)
  case 0
  from walk_page_source [OF small "0.prems"(1-4), of True] obtain pg where pg:
    "fetch PAGE_LIMIT (w_offset w) = Inr pg" by blast
  obtain goes w' where s: "walk_page True pg w = (goes, w')" by (cases "walk_page True pg w")
  from walk_page_source [OF small "0.prems"(1-4), of True] pg s 0 show ?case by (auto simp: Let_def)
next
  case (Suc n)
  from walk_page_source [OF small Suc.prems(1-4), of False] obtain pg where pg:
    "fetch PAGE_LIMIT (w_offset w) = Inr pg" by blast
  obtain goes w' where s: "walk_page False pg w = (goes, w')" by (cases "walk_page False pg w")
  have w': "goes = (k + chunk < length feed)" "w_rows w' = take (k + chunk) feed"
    "w_total w' \<in> {0, int (length feed)}" "length feed \<noteq> 0 \<longrightarrow> w_total w' = int (length feed)"
    "goes \<longrightarrow> w_offset w' = int (k + chunk)" "\<not> w_truncated w'"
    using walk_page_source [OF small Suc.prems(1-4), of False] pg s Suc.prems(5) by auto
  show ?case
  proof (cases goes)
    case True
    then have le: "k + chunk \<le> length feed" using w'(1) by simp
    from Suc.IH [of w' "k + chunk"] w' True le
    have "\<exists>v. walk_pages (Suc n) fetch w' = Inr v \<and> w_rows v = take (k + chunk + Suc n * chunk) feed
        \<and> (length feed \<noteq> 0 \<longrightarrow> w_total v = int (length feed)) \<and> (length feed = 0 \<longrightarrow> w_total v = 0)
        \<and> w_truncated v = (k + chunk + Suc n * chunk < length feed)" by simp
    then show ?thesis using pg s True by (simp add: Let_def add.assoc del: walk_pages.simps(1))
  next
    case False
    then have "length feed \<le> k + chunk" using w'(1) by simp
    then have "take (k + chunk) feed = feed" "take (k + Suc (Suc n) * chunk) feed = feed"
      "\<not> k + Suc (Suc n) * chunk < length feed" by simp_all
    then show ?thesis using pg s False w' by (auto simp: Let_def)
  qed
qed

theorem source_read:
  assumes "int (length feed) < 2 ^ 31" "n = nat (max 1 (case maxPages of Some m \<Rightarrow> m | None \<Rightarrow> 8))"
  shows "fetchAllPaged fetch maxPages =
    Inr \<lparr>r_rows = take (n * chunk) feed, r_total = int (length feed),
         r_truncated = (n * chunk < length feed)\<rparr>"
proof -
  have "0 < n" using assms(2) by simp
  then obtain m where m: "n = Suc m" by (cases n) simp_all
  obtain w' where "walk_pages n fetch start_walk = Inr w'" "w_rows w' = take (n * chunk) feed"
    "length feed \<noteq> 0 \<longrightarrow> w_total w' = int (length feed)" "length feed = 0 \<longrightarrow> w_total w' = 0"
    "w_truncated w' = (n * chunk < length feed)"
    using walk_source [OF assms(1), of start_walk 0 m] by (auto simp: start_walk_def m)
  then show ?thesis using assms by (auto simp: fetchAllPaged_def Let_def)
qed

end

text \<open>The Go handler provides the contract, with the clamped limit as the size of a chunk.\<close>

lemma ClampLimit_pos: "0 < ClampLimit d l"
  by (auto simp: ClampLimit_def LIMIT_def Let_def split: option.splits)

interpretation server: paged_source "serve_page d feed" feed "nat (ClampLimit d PAGE_LIMIT)" for d feed
proof
  show "0 < nat (ClampLimit d PAGE_LIMIT)" using ClampLimit_pos by simp
  fix off :: int
  assume s: "int (length feed) < 2 ^ 31" and o: "0 \<le> off" "off \<le> int (length feed)"
  let ?c = "nat (ClampLimit d PAGE_LIMIT)"
  have c: "int ?c = ClampLimit d PAGE_LIMIT" using ClampLimit_pos [of d PAGE_LIMIT] by simp
  have "(off + int (min (length feed - nat off) ?c) < int (length feed)) = (nat off + ?c < length feed)"
    using o by linarith
  moreover have "to_int32 (off + int ?c) = off + int ?c" if "off + int ?c < int (length feed)"
    using that s o by (intro to_int32_small) linarith+
  ultimately show "\<exists>p. serve_page d feed PAGE_LIMIT off =
      Inr \<lparr>page_rows = take ?c (drop (nat off) feed), page_info = Some p\<rparr>
      \<and> p_total p = int (length feed) \<and> p_hasMore p = (nat off + ?c < length feed)
      \<and> (p_hasMore p \<longrightarrow> p_nextOffset p = off + int ?c)"
    using o c s by (auto simp: serve_page_def NewPagination_def Let_def min_def to_int32_small)
qed

section \<open>Any source\<close>

text \<open>The pages a walk reads from an arbitrary source, for the facts that need no contract.\<close>

fun read_pages :: "nat \<Rightarrow> (int \<Rightarrow> int \<Rightarrow> 'a page result) \<Rightarrow> 'a walk \<Rightarrow> 'a page list" where
  "read_pages 0 fetchPage w = []"
| "read_pages (Suc n) fetchPage w =
     (case fetchPage PAGE_LIMIT (w_offset w) of
        Inl e \<Rightarrow> []
      | Inr pg \<Rightarrow>
          (let (goes, w') = walk_page (n = 0) pg w
           in pg # (if goes then read_pages n fetchPage w' else [])))"

lemma walk_page_rows: "walk_page l pg w = (goes, w') \<Longrightarrow> w_rows w' = w_rows w @ page_rows pg"
  by (auto simp: walk_page_def Let_def split: if_splits)

lemma walk_reads:
  "walk_pages n f w = Inr w' \<Longrightarrow>
    w_rows w' = w_rows w @ concat (map page_rows (read_pages n f w)) \<and> length (read_pages n f w) \<le> n"
proof (induction n arbitrary: w w')
  case (Suc n)
  then obtain pg where pg: "f PAGE_LIMIT (w_offset w) = Inr pg"
    by (auto simp: bind_result_Inr_iff)
  obtain goes v where s: "walk_page (n = 0) pg w = (goes, v)" by (cases "walk_page (n = 0) pg w")
  show ?case
  proof (cases goes)
    case True
    then have "walk_pages n f v = Inr w'" using Suc.prems pg s by simp
    from Suc.IH [OF this] show ?thesis using pg s True walk_page_rows [OF s] by auto
  next
    case False
    then show ?thesis using Suc.prems pg s walk_page_rows [OF s] by auto
  qed
qed simp

section \<open>Properties\<close>



text \<open>Whatever the source answers, the walk makes at most the allowed number of requests, and the
  rows it returns are exactly those of the pages it read, in order.\<close>

theorem fetch_all_bounded:
  assumes "fetchAllPaged fetchPage maxPages = Inr r"
  shows "let n = nat (max 1 (case maxPages of Some m \<Rightarrow> m | None \<Rightarrow> 8));
             pages = read_pages n fetchPage start_walk
         in r_rows r = concat (map page_rows pages) \<and> length pages \<le> n"
proof -
  let ?n = "nat (max 1 (case maxPages of Some m \<Rightarrow> m | None \<Rightarrow> 8))"
  obtain w where w: "walk_pages ?n fetchPage start_walk = Inr w" "r_rows r = w_rows w"
    using assms by (auto simp: fetchAllPaged_def Let_def bind_result_Inr_iff)
  then show ?thesis using walk_reads [OF w(1)] by (simp add: Let_def start_walk_def)
qed

theorem fetch_all_bounded_witness:
  "\<exists>r. fetchAllPaged (\<lambda>_ off. Inr \<lparr>page_rows = [off], page_info = None\<rparr>) (Some 2) = Inr r
    \<and> length (read_pages 2 (\<lambda>_ off. Inr \<lparr>page_rows = [off], page_info = None\<rparr> :: int page result) start_walk) \<le> 2"
proof -
  let ?f = "\<lambda>_ off. Inr \<lparr>page_rows = [off], page_info = None\<rparr> :: int page result"
  obtain r where r: "fetchAllPaged ?f (Some 2) = Inr r"
    by (simp add: fetchAllPaged_def start_walk_def walk_page_def learned_limit_def page_more_def
        next_offset_def numeral_2_eq_2)
  from fetch_all_bounded [OF r] r show ?thesis by (auto simp: Let_def)
qed

end
