(* ===== verification/Portfolio.thy ===== *)
theory Portfolio
  imports Trading SessionStores Paging JsCollections
begin

text \<open>
  The portfolio hook, \<open>src/web/lib/usePortfolio.ts\<close>: one refresh, from the answers of the server and the
  order books to the list of positions and open orders, and the values derived from that state on every
  rendering, with the session-local stores. The reads of several markets finish in any order, which is
  an argument of the refresh.
\<close>

section \<open>Data\<close>

record market =
  mk_marketId :: string
  mk_outcome :: "int option"

record position_info =
  pi_yes :: "int option"
  pi_no :: "int option"
  pi_isPaused :: bool
  pi_resolvedAt :: "string option"
  pi_redeemedAt :: "string option"
  pi_cost :: CostBasisFields

record portfolio_intent = PredictionIntentResponse +
  pi_generatedAt :: string

record portfolio_response =
  pr_positions :: "(string \<times> position_info) list"
  pr_openIntents :: "(string \<times> portfolio_intent list) list"

datatype book_side = Bid | Ask

record open_order =
  oo_marketId :: string
  oo_market :: "market option"
  oo_orderId :: string
  oo_action :: order_action
  oo_outcome :: outcome
  oo_side :: book_side
  oo_priceUsd :: jsn
  oo_qty :: jsn
  oo_generatedAt :: "string option"
  oo_accountId :: "string option"
  oo_ps :: string

datatype holding = HoldYes | HoldNo | HoldBoth
datatype resolution = ResYes | ResNo | ResCancelled

record enriched_position =
  ep_marketId :: string
  ep_market :: "market option"
  ep_side :: holding
  ep_qtyYes :: jsn
  ep_qtyNo :: jsn
  ep_cost :: DerivedCostBasis
  ep_yesBid :: jsn
  ep_noBid :: jsn
  ep_ask :: jsn
  ep_isResolved :: bool
  ep_resolution :: "resolution option"
  ep_resolvedAt :: "string option"
  ep_payout :: jsn
  ep_realizedPnL :: jsn
  ep_redeemedAt :: "string option"
  ep_redeemableUsd :: jsn

section \<open>Orders\<close>

definition order_of_intent :: "(string \<Rightarrow> market option) \<Rightarrow> nat \<Rightarrow> string \<Rightarrow> portfolio_intent \<Rightarrow> open_order option" where
  "order_of_intent markets decimals key i =
     (let (oc, act) = describeOrder (pi_side i) (pi_action i);
          legacy = toLegacyOrder (AnyIntent (PredictionIntentResponse.truncate i)) decimals
      in if lo_qty legacy \<le> JNum 0 then None
         else Some \<lparr>oo_marketId = (if pi_marketId i \<noteq> [] then pi_marketId i else key),
                    oo_market = markets key, oo_orderId = pi_txId i, oo_action = act, oo_outcome = oc,
                    oo_side = (if JNum 0 \<le> priceUsd legacy then Bid else Ask),
                    oo_priceUsd = \<bar>priceUsd legacy\<bar>, oo_qty = lo_qty legacy,
                    oo_generatedAt = Some (pi_generatedAt i), oo_accountId = Some (pi_accountId i),
                    oo_ps = (if pi_action i = ACTION_SELL then ''s'' else ''p'')\<rparr>)"

definition found_orders ::
  "(string \<Rightarrow> market option) \<Rightarrow> nat \<Rightarrow> (string \<times> portfolio_intent list) list \<Rightarrow> open_order list" where
  "found_orders markets decimals intents =
     concat (map (\<lambda>(key, is). List.map_filter (order_of_intent markets decimals key) is) (obj_entries intents))"

definition order_of_book :: "string \<Rightarrow> market option \<Rightarrow> LegacyOrder \<Rightarrow> open_order" where
  "order_of_book mid m e =
     \<lparr>oo_marketId = mid, oo_market = m, oo_orderId = lo_txId e, oo_action = ASell,
      oo_outcome = (if JNum 0 \<le> priceUsd e then ONo else OYes),
      oo_side = (if JNum 0 \<le> priceUsd e then Bid else Ask),
      oo_priceUsd = \<bar>priceUsd e\<bar>, oo_qty = lo_qty e, oo_generatedAt = None,
      oo_accountId = Some (lo_accountId e), oo_ps = ''s''\<rparr>"

definition book_sells :: "string \<Rightarrow> string \<Rightarrow> market option \<Rightarrow> LegacyBook \<Rightarrow> open_order list" where
  "book_sells accountId mid m lb =
     map (order_of_book mid m)
       (filter (\<lambda>e. lo_ps e = ''s'' \<and> lo_accountId e = accountId) (bids lb @ asks lb))"

section \<open>Positions\<close>

text \<open>The server's zero time counts as unset.\<close>

definition time_set :: "string option \<Rightarrow> bool" where
  "time_set t = (case t of Some s \<Rightarrow> s \<noteq> [] \<and> \<not> starts_with s ''0001-01-01'' | None \<Rightarrow> False)"

definition scaled_qty :: "int option \<Rightarrow> nat \<Rightarrow> jsn" where
  "scaled_qty q decimals =
     js_or (case q of Some n \<Rightarrow> num_of_bigint n | None \<Rightarrow> JNaN) (JNum 0) / pow10 decimals"

definition resolution_of :: "position_info \<Rightarrow> market option \<Rightarrow> resolution option" where
  "resolution_of info m =
     (if time_set (pi_resolvedAt info)
      then (case Option.bind m mk_outcome of
              None \<Rightarrow> None
            | Some oc \<Rightarrow> if oc = 1 then Some ResYes else if oc = 0 then Some ResNo
                         else if oc = 2 then Some ResCancelled else None)
      else None)"

fun settled_value :: "resolution \<Rightarrow> jsn \<Rightarrow> jsn \<Rightarrow> jsn" where
  "settled_value ResYes yes no = yes"
| "settled_value ResNo yes no = no"
| "settled_value ResCancelled yes no = (yes + no) * lit (1 / 2)"

definition enrich ::
  "nat \<Rightarrow> string \<Rightarrow> position_info \<Rightarrow> market option \<Rightarrow> jsn \<times> jsn \<times> jsn \<Rightarrow> enriched_position" where
  "enrich decimals mid info m prices =
     (let (yesBid, noBid, askP) = prices;
          yes = scaled_qty (pi_yes info) decimals; no = scaled_qty (pi_no info) decimals;
          cb = deriveCostBasis (Some (pi_cost info)) yes no yesBid noBid;
          resolved = time_set (pi_resolvedAt info); res = resolution_of info m;
          payout = (case res of Some ResYes \<Rightarrow> yes * JNum 1 | Some ResNo \<Rightarrow> no * JNum 1
                      | Some ResCancelled \<Rightarrow> (yes + no) * lit (1 / 2) | None \<Rightarrow> JNum 0)
      in \<lparr>ep_marketId = mid, ep_market = m,
          ep_side = (if JNum 0 < yes \<and> JNum 0 < no then HoldBoth else if JNum 0 < no then HoldNo else HoldYes),
          ep_qtyYes = yes, ep_qtyNo = no, ep_cost = cb,
          ep_yesBid = yesBid, ep_noBid = noBid, ep_ask = askP,
          ep_isResolved = resolved, ep_resolution = res, ep_resolvedAt = pi_resolvedAt info,
          ep_payout = payout,
          ep_realizedPnL = (if resolved \<and> costBasisAvailable cb then payout - totalCost cb else JNum 0),
          ep_redeemedAt = pi_redeemedAt info,
          ep_redeemableUsd = (case res of Some r \<Rightarrow> if time_set (pi_redeemedAt info) then JNum 0 else settled_value r yes no
                                | None \<Rightarrow> JNum 0)\<rparr>)"

section \<open>A refresh\<close>

text \<open>What the server answers during one refresh; a rejected call carries its message when it is an error.\<close>

record server =
  s_getUserPortfolio :: "string \<Rightarrow> string \<Rightarrow> string option + portfolio_response"
  s_getMarkets :: "int \<Rightarrow> int \<Rightarrow> market list option result"
  s_getMarketById :: "string \<Rightarrow> market option result"
  s_getBook :: "string \<Rightarrow> BookSnapshot result"

record portfolio_state =
  pf_positions :: "enriched_position list"
  pf_openOrders :: "open_order list"
  pf_isLoading :: bool
  pf_error :: "string option"
  pf_raw :: "portfolio_response option"

definition initial_portfolio :: portfolio_state where
  "initial_portfolio = \<lparr>pf_positions = [], pf_openOrders = [], pf_isLoading = False, pf_error = None, pf_raw = None\<rparr>"

definition ok_value :: "'a option result \<Rightarrow> 'a option" where
  "ok_value r = (case r of Inr v \<Rightarrow> v | Inl _ \<Rightarrow> None)"

definition market_page :: "market list option result \<Rightarrow> market page result" where
  "market_page r = bind_result r (\<lambda>ms.
     Inr \<lparr>page_rows = (case ms of Some l \<Rightarrow> l | None \<Rightarrow> []), page_info = None\<rparr>)"

definition load_markets :: "server \<Rightarrow> market list" where
  "load_markets s =
     (case fetchAllPaged (\<lambda>l off. market_page (s_getMarkets s l off)) (Some 4) of
        Inr r \<Rightarrow> r_rows r
      | Inl _ \<Rightarrow> [])"

text \<open>The map of markets: the pages, then the markets of open orders that the pages lacked.\<close>

definition market_map :: "server \<Rightarrow> (string \<times> portfolio_intent list) list \<Rightarrow> string \<Rightarrow> market option" where
  "market_map s intents =
     (let base = fold (\<lambda>m f. f(mk_marketId m \<mapsto> m)) (load_markets s) (\<lambda>_. None)
      in (\<lambda>k. if base k = None \<and> k \<in> fst ` set intents then ok_value (s_getMarketById s k) else base k))"

definition market_of :: "server \<Rightarrow> (string \<Rightarrow> market option) \<Rightarrow> string \<Rightarrow> market option" where
  "market_of s markets k = (case markets k of Some m \<Rightarrow> Some m | None \<Rightarrow> ok_value (s_getMarketById s k))"

definition half :: jsn where "half = lit (1 / 2)"

definition book_prices :: "server \<Rightarrow> string \<Rightarrow> position_info \<Rightarrow> jsn \<times> jsn \<times> jsn" where
  "book_prices s k info =
     (if pi_isPaused info \<or> time_set (pi_resolvedAt info) then (half, half, half)
      else case s_getBook s k of
             Inl _ \<Rightarrow> (half, half, half)
           | Inr b \<Rightarrow> let p = getBestPricesFromBook b in (bestYesBid p, bestNoBid p, bestAsk p))"

definition position_sells ::
  "server \<Rightarrow> nat \<Rightarrow> string \<Rightarrow> (string \<Rightarrow> market option) \<Rightarrow> string \<Rightarrow> position_info \<Rightarrow> open_order list" where
  "position_sells s decimals accountId markets k info =
     (if pi_isPaused info \<or> time_set (pi_resolvedAt info) then []
      else case s_getBook s k of
             Inl _ \<Rightarrow> []
           | Inr b \<Rightarrow> book_sells accountId k (market_of s markets k) (toLegacyBook (Some b) decimals))"

definition strip_0x :: "string \<Rightarrow> string" where
  "strip_0x s = (if starts_with s ''0x'' then drop 2 s else s)"

text \<open>\<open>fetchPortfolio\<close>; \<open>user\<close> holds the account and its address when both are known, \<open>finish\<close> reorders
  the markets into the order in which their book reads end.\<close>

definition fetchPortfolio ::
  "server \<Rightarrow> (string \<times> string) option \<Rightarrow> string \<Rightarrow> nat \<Rightarrow> ((string \<times> position_info) list \<Rightarrow> (string \<times> position_info) list)
   \<Rightarrow> portfolio_state \<Rightarrow> portfolio_state" where
  "fetchPortfolio s user net decimals finish st =
     (case user of
        None \<Rightarrow> st\<lparr>pf_positions := [], pf_openOrders := []\<rparr>
      | Some (accountId, evm) \<Rightarrow>
          let st0 = st\<lparr>pf_error := None\<rparr> in
          (case s_getUserPortfolio s (to_lower (strip_0x evm)) (to_lower net) of
             Inl msg \<Rightarrow> st0\<lparr>pf_error := Some (case msg of Some m \<Rightarrow> m | None \<Rightarrow> ''Failed to load portfolio''),
                            pf_isLoading := False\<rparr>
           | Inr resp \<Rightarrow>
               let markets = market_map s (pr_openIntents resp);
                   found = found_orders markets decimals (pr_openIntents resp);
                   entries = obj_entries (pr_positions resp);
                   sells = concat (map (\<lambda>(k, info). position_sells s decimals accountId markets k info) (finish entries));
                   extra = filter (\<lambda>o'. oo_orderId o' \<notin> set (map oo_orderId found)) sells
               in st0\<lparr>pf_raw := Some resp, pf_isLoading := False,
                      pf_openOrders := (if entries \<noteq> [] \<and> extra \<noteq> [] then found @ extra else found),
                      pf_positions := map (\<lambda>(k, info). enrich decimals k info (market_of s markets k) (book_prices s k info)) entries\<rparr>))"

section \<open>What a rendering derives\<close>

definition positions_adjusted :: "redeemed \<Rightarrow> enriched_position list \<Rightarrow> enriched_position list" where
  "positions_adjusted redeemedSet ps =
     map (\<lambda>p. if ep_marketId p \<in> redeemedSet \<and> JNum 0 < ep_redeemableUsd p then p\<lparr>ep_redeemableUsd := JNum 0\<rparr> else p) ps"

definition row_count :: "enriched_position list \<Rightarrow> nat" where
  "row_count ps =
     foldl (\<lambda>n p. n + (if JNum 0 < ep_qtyYes p then 1 else 0) + (if JNum 0 < ep_qtyNo p then 1 else 0)) 0 ps"

definition sum_of :: "('a \<Rightarrow> jsn) \<Rightarrow> 'a list \<Rightarrow> jsn" where
  "sum_of f ps = foldl (\<lambda>s p. s + f p) (JNum 0) ps"

definition order_of_pending :: "enriched_position list \<Rightarrow> PendingSell \<Rightarrow> open_order" where
  "order_of_pending positions p =
     \<lparr>oo_marketId = ps_marketId p,
      oo_market = Option.bind (List.find (\<lambda>q. ep_marketId q = ps_marketId p) positions) ep_market,
      oo_orderId = ps_txId p, oo_action = ASell, oo_outcome = ps_outcome p,
      oo_side = (if ps_outcome p = OYes then Ask else Bid), oo_priceUsd = ps_priceUsd p, oo_qty = ps_qty p,
      oo_generatedAt = None, oo_accountId = None, oo_ps = ''s''\<rparr>"

definition merged_orders :: "pending_sells \<Rightarrow> portfolio_state \<Rightarrow> open_order list" where
  "merged_orders pendings st =
     (let extra = map (order_of_pending (pf_positions st))
            (filter (\<lambda>p. ps_txId p \<notin> set (map oo_orderId (pf_openOrders st))) pendings)
      in if extra \<noteq> [] then pf_openOrders st @ extra else pf_openOrders st)"

record portfolio_summary =
  su_totalValue :: jsn
  su_totalCost :: jsn
  su_totalPnL :: jsn
  su_totalPnLPercent :: jsn
  su_positionCount :: nat
  su_marketCount :: nat
  su_resolvedCount :: nat
  su_unrealizedPnL :: jsn
  su_realizedPnL :: jsn
  su_openOrderCount :: nat
  su_costBasisAvailable :: bool

definition summarize :: "enriched_position list \<Rightarrow> open_order list \<Rightarrow> portfolio_summary" where
  "summarize ps orders =
     (let opn = filter (\<lambda>p. \<not> ep_isResolved p) ps; res = filter ep_isResolved ps;
          unreal = sum_of (\<lambda>p. unrealizedPnL (ep_cost p)) opn; real = sum_of ep_realizedPnL res;
          cost = sum_of (\<lambda>p. totalCost (ep_cost p)) ps
      in \<lparr>su_totalValue = sum_of (\<lambda>p. if ep_isResolved p then ep_payout p else marketValue (ep_cost p)) ps,
          su_totalCost = cost, su_totalPnL = unreal + real,
          su_totalPnLPercent = (if JNum 0 < cost then (unreal + real) / cost * JNum 100 else JNum 0),
          su_positionCount = row_count opn, su_marketCount = card (set (map ep_marketId opn)),
          su_resolvedCount = row_count res, su_unrealizedPnL = unreal, su_realizedPnL = real,
          su_openOrderCount = length orders,
          su_costBasisAvailable = (opn \<noteq> [] \<and> list_all (\<lambda>p. costBasisAvailable (ep_cost p)) opn)\<rparr>)"

record portfolio_view =
  pv_positions :: "enriched_position list"
  pv_openPositions :: "enriched_position list"
  pv_resolvedPositions :: "enriched_position list"
  pv_openOrders :: "open_order list"
  pv_summary :: portfolio_summary

definition usePortfolio :: "redeemed \<Rightarrow> pending_sells \<Rightarrow> portfolio_state \<Rightarrow> portfolio_view" where
  "usePortfolio redeemedSet pendings st =
     (let ps = positions_adjusted redeemedSet (pf_positions st); orders = merged_orders pendings st
      in \<lparr>pv_positions = ps, pv_openPositions = filter (\<lambda>p. \<not> ep_isResolved p) ps,
          pv_resolvedPositions = filter ep_isResolved ps, pv_openOrders = orders,
          pv_summary = summarize ps orders\<rparr>)"

text \<open>The effect after a change of the open orders: the store drops what the server reports itself.\<close>

definition reconcile_effect :: "int \<Rightarrow> portfolio_state \<Rightarrow> pending_sells \<Rightarrow> pending_sells \<times> bool" where
  "reconcile_effect now st ps =
     (let ids = map oo_orderId (pf_openOrders st)
      in if ids \<noteq> [] then reconcilePendingSells now (set ids) ps else (ps, False))"

section \<open>Facts\<close>

abbreviation core :: "portfolio_intent \<Rightarrow> PredictionIntentResponse" where
  "core \<equiv> PredictionIntentResponse.truncate"

lemma core_fields [simp]:
  "pi_txId (core i) = pi_txId i" "pi_marketId (core i) = pi_marketId i" "pi_accountId (core i) = pi_accountId i"
  "pi_side (core i) = pi_side i" "pi_action (core i) = pi_action i"
  "pi_limitYesPrice (core i) = pi_limitYesPrice i" "pi_qtyShares (core i) = pi_qtyShares i"
  "sharesFilled (core i) = sharesFilled i"
  by (simp_all add: PredictionIntentResponse.truncate_def)

text \<open>The order the book of the same server shows for an open intent.\<close>

definition resting :: "portfolio_intent \<Rightarrow> OrderDetail" where
  "resting i = \<lparr>od_txId = pi_txId i, od_accountId = pi_accountId i, od_limitYesPrice = pi_limitYesPrice i,
     sharesRemaining = pi_qtyShares i - sharesFilled i, od_side = pi_side i, od_action = pi_action i\<rparr>"

lemma resting_legacy:
  "sharesFilled i \<le> pi_qtyShares i \<Longrightarrow> toLegacyOrder (AnyDetail (resting i)) d = toLegacyOrder (AnyIntent (core i)) d"
  by (simp add: resting_def Let_def)

lemma order_of_intent_id: "order_of_intent markets d key i = Some o' \<Longrightarrow> oo_orderId o' = pi_txId i"
  by (auto simp: order_of_intent_def Let_def split: prod.splits if_splits)

lemma map_filter_ids:
  "map oo_orderId (List.map_filter (order_of_intent markets d key) is) =
     map pi_txId (filter (\<lambda>i. order_of_intent markets d key i \<noteq> None) is)"
  unfolding List.map_filter_def map_map comp_def
  by (intro map_cong refl) (auto dest: order_of_intent_id)

lemma found_ids:
  "map oo_orderId (concat (map (\<lambda>(key, is). List.map_filter (order_of_intent markets d key) is) es)) =
     map pi_txId (concat (map (\<lambda>(key, is). filter (\<lambda>i. order_of_intent markets d key i \<noteq> None) is) es))"
  by (induction es) (auto simp: map_filter_ids)

lemma distinct_filtered:
  "distinct (map f (concat (map snd es))) \<Longrightarrow>
     distinct (map f (concat (map (\<lambda>(key, is). filter (P key) is) es)))
     \<and> set (concat (map (\<lambda>(key, is). filter (P key) is) es)) \<subseteq> set (concat (map snd es))"
proof (induction es)
  case (Cons e es)
  obtain key "is" where e: "e = (key, is)" by (cases e)
  define rest where "rest = concat (map (\<lambda>(key, is). filter (P key) is) es)"
  have d: "distinct (map f is)" "distinct (map f (concat (map snd es)))"
    "f ` set is \<inter> f ` set (concat (map snd es)) = {}"
    using Cons.prems by (simp_all add: e)
  have r: "distinct (map f rest)" "set rest \<subseteq> set (concat (map snd es))"
    using Cons.IH [OF d(2)] by (simp_all only: rest_def)
  have "f ` set (filter (P key) is) \<inter> f ` set rest = {}" using d(3) r(2) by force
  then have "distinct (map f (filter (P key) is @ rest))"
    using distinct_map_filter [OF d(1)] r(1) by (simp only: map_append distinct_append set_map)
  moreover have "set (filter (P key) is @ rest) \<subseteq> set (concat (map snd (e # es)))" using r(2) by (auto simp: e)
  moreover have "concat (map (\<lambda>(key, is). filter (P key) is) (e # es)) = filter (P key) is @ rest"
    by (simp add: e rest_def)
  ultimately show ?case by simp
qed simp

lemma mset_obj_entries: "mset (obj_entries m) = mset m"
  by (simp add: obj_entries_def)

lemma distinct_found_orders:
  assumes "distinct (map pi_txId (concat (map snd intents)))"
  shows "distinct (map oo_orderId (found_orders markets d intents))"
proof -
  have "mset (concat (map snd (obj_entries intents))) = mset (concat (map snd intents))"
    unfolding mset_concat map_map by (metis mset_map mset_obj_entries sum_mset_sum_list)
  then have "mset (map pi_txId (concat (map snd (obj_entries intents)))) = mset (map pi_txId (concat (map snd intents)))"
    by (metis mset_map)
  with assms have "distinct (map pi_txId (concat (map snd (obj_entries intents))))"
    by (metis mset_eq_imp_distinct_iff)
  then show ?thesis unfolding found_orders_def found_ids by (rule conjunct1 [OF distinct_filtered])
qed

lemma pending_after_ok: "pending_ok (pending_after ops)"
proof -
  have "pending_ok ps \<Longrightarrow> pending_ok (fold (\<lambda>op s. fst (pending_exec op s)) ops ps)" for ps
    by (induction ops arbitrary: ps) (simp_all add: pending_exec_ok)
  moreover have "pending_ok []" by (simp add: pending_ok_def)
  ultimately show ?thesis by (simp only: pending_after_def)
qed

lemma merged_ids:
  assumes "distinct (map oo_orderId (pf_openOrders st))" "pending_ok pendings"
  shows "distinct (map oo_orderId (merged_orders pendings st))
    \<and> set (map oo_orderId (merged_orders pendings st)) = set (map oo_orderId (pf_openOrders st)) \<union> set (map ps_txId pendings)"
proof -
  define extra where "extra = filter (\<lambda>p. ps_txId p \<notin> set (map oo_orderId (pf_openOrders st))) pendings"
  have m: "merged_orders pendings st = pf_openOrders st @ map (order_of_pending (pf_positions st)) extra"
    by (simp add: merged_orders_def extra_def Let_def)
  have ids: "map oo_orderId (map (order_of_pending (pf_positions st)) extra) = map ps_txId extra"
    by (simp add: order_of_pending_def)
  have "distinct (map ps_txId extra)"
    using pending_ok_filter [OF assms(2)] unfolding extra_def pending_ok_def by blast
  moreover have "set (map ps_txId extra) \<inter> set (map oo_orderId (pf_openOrders st)) = {}"
    by (auto simp: extra_def)
  ultimately show ?thesis
    using assms(1) unfolding m map_append ids by (auto simp: extra_def)
qed

lemma fetch_ids:
  fixes accountId :: string and d :: nat
  assumes resp: "s_getUserPortfolio s (to_lower (strip_0x evm)) (to_lower net) = Inr resp"
    and intents: "distinct (map pi_txId (concat (map snd (pr_openIntents resp))))"
    and fin: "\<And>xs. mset (finish xs) = mset xs"
  defines "markets \<equiv> market_map s (pr_openIntents resp)"
  defines "sells \<equiv> concat (map (\<lambda>(k, info). position_sells s d accountId markets k info) (pr_positions resp))"
  assumes distinct_sells: "distinct (map oo_orderId sells)"
  shows "distinct (map oo_orderId (pf_openOrders (fetchPortfolio s (Some (accountId, evm)) net d finish st)))
    \<and> set (map oo_orderId (pf_openOrders (fetchPortfolio s (Some (accountId, evm)) net d finish st)))
        = set (map oo_orderId (found_orders markets d (pr_openIntents resp))) \<union> set (map oo_orderId sells)"
proof -
  define f where "f = (\<lambda>(k, info). position_sells s d accountId markets k info)"
  define found where "found = found_orders markets d (pr_openIntents resp)"
  define done_sells where "done_sells = concat (map f (finish (obj_entries (pr_positions resp))))"
  define extra where "extra = filter (\<lambda>o'. oo_orderId o' \<notin> set (map oo_orderId found)) done_sells"
  have "mset (finish (obj_entries (pr_positions resp))) = mset (pr_positions resp)"
    using fin mset_obj_entries by metis
  then have m: "mset done_sells = mset sells"
    unfolding done_sells_def sells_def f_def [symmetric] mset_concat map_map by (metis mset_map sum_mset_sum_list)
  then have ids: "mset (map oo_orderId done_sells) = mset (map oo_orderId sells)" by (metis mset_map)
  then have "distinct (map oo_orderId done_sells)" using distinct_sells by (metis mset_eq_imp_distinct_iff)
  then have x: "distinct (map oo_orderId extra)" unfolding extra_def by (rule distinct_map_filter)
  have xs: "set (map oo_orderId extra) = set (map oo_orderId sells) - set (map oo_orderId found)"
  proof -
    have "set (map oo_orderId extra) = set (map oo_orderId done_sells) - set (map oo_orderId found)"
      by (auto simp: extra_def)
    then show ?thesis using mset_eq_setD [OF ids] by simp
  qed
  have fd: "distinct (map oo_orderId found)" unfolding found_def by (rule distinct_found_orders [OF intents])
  have o: "pf_openOrders (fetchPortfolio s (Some (accountId, evm)) net d finish st) =
      (if obj_entries (pr_positions resp) \<noteq> [] \<and> extra \<noteq> [] then found @ extra else found)"
    by (simp add: fetchPortfolio_def resp Let_def markets_def found_def extra_def done_sells_def f_def)
  have "obj_entries (pr_positions resp) = [] \<Longrightarrow> sells = []"
    using mset_obj_entries [of "pr_positions resp"] by (simp add: sells_def)
  then have "obj_entries (pr_positions resp) = [] \<Longrightarrow> extra = []"
    using m by (simp add: extra_def)
  then have "pf_openOrders (fetchPortfolio s (Some (accountId, evm)) net d finish st) = found @ extra"
    unfolding o by auto
  then show ?thesis using x xs fd by (simp only: map_append distinct_append set_append found_def) blast
qed

text \<open>A quantity the position reports: whole base units, exact in a double.\<close>

definition reported :: "int option \<Rightarrow> bool" where
  "reported q = (case q of Some n \<Rightarrow> 0 \<le> n \<and> n \<le> 2 ^ 53 | None \<Rightarrow> True)"

lemma scaled_qty_num:
  assumes "reported q"
  shows "\<exists>x. scaled_qty q 6 = JNum x \<and> fl x = x \<and> 0 \<le> x \<and> x \<le> 2 ^ 34"
proof -
  define n where "n = (case q of Some n \<Rightarrow> n | None \<Rightarrow> 0)"
  have n: "\<bar>n\<bar> \<le> 2 ^ 53" "0 \<le> n" using assms by (auto simp: reported_def n_def split: option.splits)
  have "js_or (case q of Some n \<Rightarrow> num_of_bigint n | None \<Rightarrow> JNaN) (JNum 0) = JNum (of_int n)"
    using jsfin_int [OF n(1)] by (cases q) (auto simp: n_def js_or_def truthy_def num_of_bigint_def)
  then have q: "scaled_qty q 6 = JNum (of_int n) / JNum 1000000"
    using pow10_exact [of 6] by (simp only: scaled_qty_def) simp
  have le: "of_int n \<le> (2 ^ 53 :: rat)"
  proof -
    have "(of_int n :: rat) \<le> of_int (2 ^ 53)" using n by (simp only: of_int_le_iff)
    then show ?thesis by simp
  qed
  have "(2 ^ 53 :: rat) \<le> 2 ^ 34 * 1000000" by simp
  then have b: "\<bar>of_int n / 1000000 :: rat\<bar> \<le> of_int (2 ^ 34)" using n(2) le by simp
  have "scaled_qty q 6 = JNum (fl (of_int n / 1000000))" "\<bar>fl (of_int n / 1000000 :: rat)\<bar> \<le> 2 ^ 34"
    using jsfin_small [OF b] by (simp_all add: q)
  moreover have "0 \<le> fl (of_int n / 1000000 :: rat)" using n(2) by (intro fl_nonneg) simp
  ultimately show ?thesis by (intro exI [of _ "fl (of_int n / 1000000)"]) simp
qed

lemma half_sum:
  assumes "0 \<le> x" "x \<le> 2 ^ 34" "0 \<le> y" "y \<le> 2 ^ 34"
  shows "\<exists>z \<ge> 0. (JNum x + JNum y) * JNum (1 / 2) = JNum z"
proof -
  have b: "\<bar>x + y\<bar> \<le> of_int (2 ^ 35)" using assms by simp
  have s: "JNum x + JNum y = JNum (fl (x + y))" "\<bar>fl (x + y)\<bar> \<le> 2 ^ 35" using jsfin_small [OF b] by simp_all
  have p: "0 \<le> fl (x + y)" using assms by (intro fl_nonneg) simp
  have h: "\<bar>fl (x + y) * (1 / 2)\<bar> \<le> of_int (2 ^ 35)" using s(2) by (simp add: abs_mult)
  have "(JNum x + JNum y) * JNum (1 / 2) = JNum (fl (fl (x + y) * (1 / 2)))"
    using jsfin_small(1) [OF h] unfolding s(1) by simp
  then show ?thesis using p by (intro exI [of _ "fl (fl (x + y) * (1 / 2))"] conjI fl_nonneg) simp_all
qed

section \<open>Properties\<close>

text \<open>C30. An open sell order that only the order book shows is listed exactly as the portfolio feed would
  have listed it: the same order, side, outcome, price and quantity, only without the time it was
  generated.\<close>

theorem book_fallback_agrees_with_feed:
  assumes "open_order_ok (core i)" "sharesFilled i < pi_qtyShares i"
    and "pi_side i = SIDE_YES \<or> pi_side i = SIDE_NO" "pi_action i = ACTION_SELL" "pi_marketId i = key" "key \<noteq> []"
  shows "order_of_intent markets 6 key i =
    Some ((order_of_book key (markets key) (toLegacyOrder (AnyDetail (resting i)) 6))\<lparr>oo_generatedAt := Some (pi_generatedAt i)\<rparr>)"
proof -
  define l where "l = toLegacyOrder (AnyIntent (core i)) 6"
  have r: "toLegacyOrder (AnyDetail (resting i)) 6 = l" unfolding l_def using assms(2) by (intro resting_legacy) simp
  have q: "\<not> lo_qty l \<le> JNum 0" using legacy_intent_qty [OF assms(1)] assms(2) by (simp add: l_def zero_jsn_def)
  have p: "JNum 0 \<le> priceUsd l \<longleftrightarrow> pi_side i = SIDE_NO"
    using legacy_intent_price [OF assms(1)] assms(3,4)
    by (auto simp: l_def zero_jsn_def on_bid_side_def isBidSide_def js_simps)
  have "lo_txId l = pi_txId i" "lo_accountId l = pi_accountId i" by (simp_all add: l_def Let_def)
  then show ?thesis
    using assms(3-6) q p unfolding r order_of_intent_def order_of_book_def l_def [symmetric]
    by (auto simp: describeOrder_def js_simps)
qed

definition sample_intent :: portfolio_intent where
  "sample_intent = \<lparr>pi_txId = ''t1'', pi_marketId = ''m'', pi_accountId = ''0.0.7'', pi_side = 0, pi_action = 1,
     pi_limitYesPrice = 400000, pi_qtyShares = 5000000, sharesFilled = 1000000, pi_generatedAt = ''2026''\<rparr>"

theorem book_fallback_agrees_with_feed_witness:
  "order_of_intent (\<lambda>_. None) 6 ''m'' sample_intent =
    Some ((order_of_book ''m'' None (toLegacyOrder (AnyDetail (resting sample_intent)) 6))\<lparr>oo_generatedAt := Some ''2026''\<rparr>)"
  using book_fallback_agrees_with_feed [of sample_intent "''m''" "\<lambda>_. None"]
  by (simp add: sample_intent_def open_order_ok_def js_simps)


definition sample_server :: server where
  "sample_server = \<lparr>s_getUserPortfolio = (\<lambda>_ _. Inr \<lparr>pr_positions = [], pr_openIntents = [(''m'', [sample_intent])]\<rparr>),
     s_getMarkets = (\<lambda>_ _. Inl TypeError), s_getMarketById = (\<lambda>_. Inl TypeError), s_getBook = (\<lambda>_. Inl TypeError)\<rparr>"


text \<open>C31. What the hook offers to redeem on a position is its payout when the market is resolved, and
  nothing once the server or this session reports the redemption; unresolved positions offer nothing.\<close>

theorem redeemable_is_unclaimed_payout:
  assumes "reported (pi_yes info)" "reported (pi_no info)"
  shows "\<exists>q. positions_adjusted redeemedSet [enrich 6 k info m prices] = [q]
    \<and> ep_redeemableUsd q =
        (if time_set (pi_redeemedAt info) \<or> k \<in> redeemedSet then JNum 0 else ep_payout q)
    \<and> (resolution_of info m = None \<or> \<not> time_set (pi_resolvedAt info) \<longrightarrow> ep_redeemableUsd q = JNum 0)"
proof -
  obtain x y where x: "scaled_qty (pi_yes info) 6 = JNum x" "fl x = x" "0 \<le> x" "x \<le> 2 ^ 34"
    and y: "scaled_qty (pi_no info) 6 = JNum y" "fl y = y" "0 \<le> y" "y \<le> 2 ^ 34"
    using scaled_qty_num assms by metis
  have one: "JNum z * JNum 1 = JNum z" if "fl z = z" "0 \<le> z" "z \<le> 2 ^ 34" for z
    using jsfin_small(1) [of z "2 ^ 34"] that by simp
  obtain z where z: "0 \<le> z" "(JNum x + JNum y) * JNum (1 / 2) = JNum z"
    using half_sum [OF x(3,4) y(3,4)] by blast
  define q0 where "q0 = enrich 6 k info m prices"
  have claim: "ep_redeemableUsd q0 = (if time_set (pi_redeemedAt info) then JNum 0 else ep_payout q0)"
    using one [OF x(2-4)] one [OF y(2-4)]
    by (cases "resolution_of info m" rule: option.exhaust; cases prices)
      (auto simp: q0_def enrich_def Let_def x(1) y(1) split: resolution.splits)
  have pos: "\<exists>w \<ge> 0. ep_redeemableUsd q0 = JNum w"
  proof (cases "resolution_of info m")
    case None
    then show ?thesis by (cases prices) (auto simp: q0_def enrich_def Let_def)
  next
    case (Some r)
    have "\<exists>w \<ge> 0. settled_value r (JNum x) (JNum y) = JNum w" using x(3) y(3) z by (cases r) auto
    with Some show ?thesis by (cases prices) (auto simp: q0_def enrich_def Let_def x(1) y(1))
  qed
  have key: "ep_marketId q0 = k" by (cases prices) (simp add: q0_def enrich_def Let_def)
  have none: "\<not> time_set (pi_resolvedAt info) \<Longrightarrow> resolution_of info m = None" by (simp add: resolution_of_def)
  have zero: "resolution_of info m = None \<Longrightarrow> ep_redeemableUsd q0 = JNum 0"
    by (cases prices) (simp add: q0_def enrich_def Let_def)
  show ?thesis
  proof (cases "k \<in> redeemedSet \<and> JNum 0 < ep_redeemableUsd q0")
    case True
    then show ?thesis by (simp add: positions_adjusted_def q0_def [symmetric] key)
  next
    case False
    have "k \<in> redeemedSet \<Longrightarrow> ep_redeemableUsd q0 = JNum 0" using False pos by auto
    then show ?thesis using False claim none zero
      by (auto simp: positions_adjusted_def q0_def [symmetric] key)
  qed
qed

definition sample_position :: position_info where
  "sample_position = \<lparr>pi_yes = Some 3000000, pi_no = None, pi_isPaused = False, pi_resolvedAt = Some ''2026-01-01'',
     pi_redeemedAt = None, pi_cost = demo_fields None None None\<rparr>"

theorem redeemable_is_unclaimed_payout_witness:
  "\<exists>q. positions_adjusted {''m''} [enrich 6 ''m'' sample_position (Some \<lparr>mk_marketId = ''m'', mk_outcome = Some 1\<rparr>) (0, 0, 0)] = [q]
    \<and> ep_redeemableUsd q = JNum 0"
  using redeemable_is_unclaimed_payout [of sample_position "{''m''}" "''m''" "Some \<lparr>mk_marketId = ''m'', mk_outcome = Some 1\<rparr>" "(0, 0, 0)"]
  by (auto simp: sample_position_def reported_def)

end
