(* ===== verification/HederaTx.thy ===== *)
theory HederaTx
  imports BookPrices SessionStores JsCollections
begin

text \<open>
  Transactions on the ledger: the mirror node reads, the confirmation of a submitted transaction, token
  allowances and redemption of \<open>src/web/lib/hedera.ts\<close>, and the redemption hook of
  \<open>src/web/lib/useRedeem.ts\<close>. The ledger's SDK, the wallet and the network are parameters; times are
  milliseconds.
\<close>

section \<open>Errors and replies\<close>

text \<open>A thrown value: its message when it is an \<open>Error\<close>, its \<open>code\<close> and its \<open>name\<close>.\<close>

record thrown =
  th_message :: "string option"
  th_code :: "string option"
  th_name :: string

type_synonym 'a attempt = "thrown + 'a"

definition throw :: "string \<Rightarrow> thrown" where
  "throw m = \<lparr>th_message = Some m, th_code = None, th_name = ''Error''\<rparr>"

definition attempt_bind :: "'a attempt \<Rightarrow> ('a \<Rightarrow> 'b attempt) \<Rightarrow> 'b attempt" where
  "attempt_bind r f = (case r of Inl e \<Rightarrow> Inl e | Inr v \<Rightarrow> f v)"

lemma attempt_bind_simps [simp]: "attempt_bind (Inl e) f = Inl e" "attempt_bind (Inr v) f = f v"
  by (simp_all add: attempt_bind_def)

lemma attempt_bind_Inr_iff: "attempt_bind r f = Inr w \<longleftrightarrow> (\<exists>v. r = Inr v \<and> f v = Inr w)"
  by (cases r) simp_all

datatype 'a http = HttpFail thrown | HttpStatus int | HttpOk 'a

definition ok_body :: "'a http \<Rightarrow> 'a attempt" where
  "ok_body r = (case r of HttpFail e \<Rightarrow> Inl e | HttpStatus _ \<Rightarrow> Inl (throw ''Network response was not ok'') | HttpOk d \<Rightarrow> Inr d)"

definition message_has :: "thrown \<Rightarrow> string \<Rightarrow> bool" where
  "message_has e p = (case th_message e of Some m \<Rightarrow> js_includes m p | None \<Rightarrow> False)"

definition message_starts :: "thrown \<Rightarrow> string \<Rightarrow> bool" where
  "message_starts e p = (case th_message e of Some m \<Rightarrow> starts_with m p | None \<Rightarrow> False)"

section \<open>Mirror node reads\<close>

definition getMirrorNodeUrl :: "string \<Rightarrow> string" where
  "getMirrorNodeUrl network = ''https://'' @ to_lower network @ ''.mirrornode.hedera.com''"

definition text_or_undefined :: "string option \<Rightarrow> string" where
  "text_or_undefined t = (case t of Some s \<Rightarrow> s | None \<Rightarrow> ''undefined'')"

definition getSpenderAllowanceUsd ::
  "(string \<Rightarrow> jsn option list http) \<Rightarrow> string \<Rightarrow> (string \<Rightarrow> string option) \<Rightarrow> nat \<Rightarrow> string \<Rightarrow> string \<Rightarrow> jsn attempt" where
  "getSpenderAllowanceUsd fetch network usdcTokenIds decimals contractId accountId =
     attempt_bind (ok_body (fetch (getMirrorNodeUrl network @ ''/api/v1/accounts/'' @ accountId
         @ ''/allowances/tokens?spender.id=eq:'' @ contractId @ ''&token.id=eq:''
         @ text_or_undefined (usdcTokenIds (to_lower network)))))
       (\<lambda>allowances. Inr (js_or (case allowances of Some amount # _ \<Rightarrow> amount / pow10 decimals | _ \<Rightarrow> JNaN) (JNum 0)))"

record allowance_row =
  aw_spender :: string
  aw_amount :: "jsn option"
  aw_token :: string

record usdc_allowance =
  ua_spenderId :: string
  ua_amountUsd :: jsn

text \<open>At most five pages are read; a failing page discards everything.\<close>

fun allowance_pages ::
  "nat \<Rightarrow> (string \<Rightarrow> (allowance_row list \<times> string option) http) \<Rightarrow> string \<Rightarrow> string option \<Rightarrow> allowance_row list option" where
  "allowance_pages 0 fetch base nxt = Some []"
| "allowance_pages (Suc n) fetch base nxt =
     (case nxt of
        None \<Rightarrow> Some []
      | Some path \<Rightarrow>
          if path = [] then Some []
          else (case fetch (base @ path) of
                  HttpOk (rows, nxt') \<Rightarrow> map_option (\<lambda>rest. rows @ rest) (allowance_pages n fetch base nxt')
                | _ \<Rightarrow> None))"

definition amount_or_zero :: "allowance_row \<Rightarrow> jsn" where
  "amount_or_zero r = (case aw_amount r of Some a \<Rightarrow> js_or a (JNum 0) | None \<Rightarrow> JNum 0)"

definition getAllUsdcSpenderAllowances ::
  "(string \<Rightarrow> (allowance_row list \<times> string option) http) \<Rightarrow> string \<Rightarrow> (string \<Rightarrow> string option) \<Rightarrow> nat \<Rightarrow> string
   \<Rightarrow> usdc_allowance list" where
  "getAllUsdcSpenderAllowances fetch network usdcTokenIds decimals accountId =
     (case usdcTokenIds (to_lower network) of
        None \<Rightarrow> []
      | Some usdc \<Rightarrow>
          if usdc = [] then []
          else (case allowance_pages 5 fetch (getMirrorNodeUrl network)
                       (Some (''/api/v1/accounts/'' @ accountId @ ''/allowances/tokens?limit=100'')) of
                  None \<Rightarrow> []
                | Some rows \<Rightarrow>
                    map (\<lambda>r. \<lparr>ua_spenderId = aw_spender r, ua_amountUsd = amount_or_zero r / pow10 decimals\<rparr>)
                      (filter (\<lambda>r. aw_token r = usdc \<and> JNum 0 < amount_or_zero r \<and> aw_spender r \<noteq> []) rows)))"

definition getUserAccountInfo :: "(string \<Rightarrow> 'info http) \<Rightarrow> string \<Rightarrow> string \<Rightarrow> 'info attempt" where
  "getUserAccountInfo fetch network accountId =
     ok_body (fetch (getMirrorNodeUrl network @ ''/api/v1/accounts/'' @ accountId))"

definition getTokenBalance :: "(string \<Rightarrow> jsn list http) \<Rightarrow> string \<Rightarrow> string \<Rightarrow> string \<Rightarrow> jsn attempt" where
  "getTokenBalance fetch network tokenId accountId =
     attempt_bind (ok_body (fetch (getMirrorNodeUrl network @ ''/api/v1/accounts/'' @ accountId
         @ ''/tokens?token.id='' @ tokenId)))
       (\<lambda>balances. Inr (case balances of [] \<Rightarrow> JNum 0 | b # _ \<Rightarrow> js_or b (JNum 0)))"

section \<open>Confirmation\<close>

definition formatTxIdForMirror :: "string \<Rightarrow> string" where
  "formatTxIdForMirror sdkTxId =
     (let parts = split_char (CHR ''@'') sdkTxId in
      case tl parts of
        [] \<Rightarrow> sdkTxId
      | stamp # _ \<Rightarrow>
          if stamp = [] then sdkTxId
          else let ts = split_char (CHR ''.'') stamp
               in hd parts @ ''-'' @ hd ts @ ''-'' @ (case tl ts of [] \<Rightarrow> ''0'' | nanos # _ \<Rightarrow> nanos))"

text \<open>One turn of the polling loop: the clock and the cancellation flag when the loop tests them, the mirror
  node's reply (the \<open>result\<close> of each transaction row) and the flag when a failed request is caught.\<close>

datatype tx_reply = TxFetchFailed thrown | TxStatus int | TxRows "string option list"

record poll =
  po_now :: int
  po_cancelled :: bool
  po_reply :: tx_reply
  po_cancelled_after :: bool

definition CANCELLED :: string where "CANCELLED = ''mirror poll cancelled''"
definition ONCHAIN :: string where "ONCHAIN = ''Transaction failed on-chain:''"
definition PENDING :: string where
  "PENDING = ''Transaction is still pending on the network. It may complete shortly '' @ [char_of (226 :: nat), char_of (128 :: nat), char_of (148 :: nat)] @ '' please refresh in a few seconds.''"

definition failing_row :: "string option list \<Rightarrow> string option" where
  "failing_row rs = (case List.find (\<lambda>r. r \<noteq> None \<and> r \<noteq> Some [] \<and> r \<noteq> Some ''SUCCESS'') rs of Some r \<Rightarrow> r | None \<Rightarrow> None)"

text \<open>What one turn decides: the end of the loop, or another turn.\<close>

definition poll_once :: "poll \<Rightarrow> bool attempt option" where
  "poll_once p =
     (if po_cancelled p then Some (Inl (throw CANCELLED))
      else case po_reply p of
             TxStatus _ \<Rightarrow> None
           | TxRows rs \<Rightarrow>
               (case failing_row rs of
                  Some f \<Rightarrow> Some (Inl (throw (ONCHAIN @ '' '' @ f)))
                | None \<Rightarrow> if Some ''SUCCESS'' \<in> set rs then Some (Inr True) else None)
           | TxFetchFailed e \<Rightarrow>
               if message_starts e ONCHAIN then Some (Inl e)
               else if po_cancelled_after p then Some (Inl (throw CANCELLED)) else None)"

text \<open>The loop over the turns the clock allows; \<open>None\<close> when the turns given end before it does.\<close>

fun waitForMirrorTxResult :: "int \<Rightarrow> int \<Rightarrow> poll list \<Rightarrow> bool attempt option" where
  "waitForMirrorTxResult start timeoutMs [] = None"
| "waitForMirrorTxResult start timeoutMs (p # ps) =
     (if po_now p - start < timeoutMs
      then (case poll_once p of Some r \<Rightarrow> Some r | None \<Rightarrow> waitForMirrorTxResult start timeoutMs ps)
      else Some (Inl (throw PENDING)))"

definition MIRROR_TIMEOUT_MS :: int where "MIRROR_TIMEOUT_MS = 45000"
definition MIRROR_INTERVAL_MS :: int where "MIRROR_INTERVAL_MS = 2000"

definition grpc_result :: "string option attempt \<Rightarrow> bool attempt" where
  "grpc_result receipt =
     attempt_bind receipt (\<lambda>status.
       if status = Some ''SUCCESS'' then Inr True
       else Inl (throw (''gRPC receipt status: '' @ (case status of Some s \<Rightarrow> s | None \<Rightarrow> ''unknown''))))"

definition flatten_errors :: "thrown list \<Rightarrow> thrown" where
  "flatten_errors es =
     (case List.find (\<lambda>e. message_starts e ONCHAIN) es of
        Some e \<Rightarrow> e
      | None \<Rightarrow>
          (case List.find (\<lambda>e. message_has e ''still pending'') es of
             Some e \<Rightarrow> e
           | None \<Rightarrow>
               (case List.find (\<lambda>e. th_message e \<noteq> None) es of
                  Some e \<Rightarrow> e
                | None \<Rightarrow> throw ''Transaction confirmation failed'')))"

text \<open>\<open>Promise.any\<close> of the two paths, each \<open>None\<close> while it has not settled; both succeed with \<open>true\<close> only,
  so which is first makes no difference.\<close>

definition confirmTx :: "string option attempt option \<Rightarrow> bool attempt option \<Rightarrow> bool attempt option" where
  "confirmTx receipt mirror =
     (let grpc = map_option grpc_result receipt in
      case (grpc, mirror) of
        (Some (Inr b), _) \<Rightarrow> Some (Inr b)
      | (_, Some (Inr b)) \<Rightarrow> Some (Inr b)
      | (Some (Inl e), Some (Inl f)) \<Rightarrow> Some (Inl (flatten_errors [e, f]))
      | _ \<Rightarrow> None)"

text \<open>A promise that settles after so many milliseconds, or never, against a timer.\<close>

definition withTimeout :: "(int \<times> 'a attempt) option \<Rightarrow> int \<Rightarrow> string \<Rightarrow> 'a attempt" where
  "withTimeout promise timeoutMs operation =
     (let timeout = Inl (throw (operation @ '' timed out after '' @ num_to_string (num_of_bigint timeoutMs / JNum 1000)
            @ ''s - please check your wallet and retry''))
      in case promise of Some (t, r) \<Rightarrow> if t < timeoutMs then r else timeout | None \<Rightarrow> timeout)"

section \<open>Allowances\<close>

definition UNLIMITED_ALLOWANCE_USD :: int where "UNLIMITED_ALLOWANCE_USD = 1000000000000"
definition MAX_UINT256 :: int where "MAX_UINT256 = 2 ^ 256 - 1"
definition MAX_INT64 :: int where "MAX_INT64 = 9223372036854775807"

definition approval_amount :: "jsn \<Rightarrow> bool \<Rightarrow> nat \<Rightarrow> int result" where
  "approval_amount amountUsd useMax decimals =
     bind_result
       (if useMax then bind_result (bigint_of_num (pow10 decimals)) (\<lambda>s. Inr (UNLIMITED_ALLOWANCE_USD * s))
        else bigint_of_num (jround (amountUsd * pow10 decimals)))
       (\<lambda>raw. Inr (if MAX_INT64 < raw then MAX_INT64 else raw))"

record signer_info =
  si_getClient :: bool
  si_network :: "(string \<times> string) list option"

definition seedWalletConnectNodeAccountId :: "signer_info \<Rightarrow> string list \<Rightarrow> string list attempt" where
  "seedWalletConnectNodeAccountId sg nodes =
     (case si_network sg of
        None \<Rightarrow> Inr nodes
      | Some network \<Rightarrow>
          if si_getClient sg then Inr nodes
          else if nodes \<noteq> [] then Inr nodes
          else (case obj_entries network of
                  (_, node) # _ \<Rightarrow> if node \<noteq> [] then Inr [node]
                      else Inl (throw ''Wallet signing setup failed: no Hedera node account IDs are available for this network.'')
                | [] \<Rightarrow> Inl (throw ''Wallet signing setup failed: no Hedera node account IDs are available for this network.'')))"

record approval =
  ap_token :: string
  ap_owner :: string
  ap_spender :: string
  ap_amount :: int

text \<open>What the wallet and the ledger do in one operation: the SDK's builder and its freezing, what the
  signing call settles with behind the wallet lock (the identifier of the submitted transaction), and
  the two confirmation paths.\<close>

record wallet_world =
  ww_account :: "string attempt"
  ww_build :: "approval \<Rightarrow> unit attempt"
  ww_signer :: signer_info
  ww_nodes :: "string list"
  ww_freeze :: "string list \<Rightarrow> unit attempt"
  ww_execute :: "(int \<times> string attempt) option"
  ww_lock :: "string attempt \<Rightarrow> string attempt"
  ww_receipt :: "string option attempt option"
  ww_mirror :: "bool attempt option"

definition SIGN_TIMEOUT_MS :: int where "SIGN_TIMEOUT_MS = 300000"

definition grant_error :: "thrown \<Rightarrow> thrown" where
  "grant_error e =
     (if th_message e = None then e
      else if th_code e = Some ''WALLET_NOT_CONNECTED'' \<or> th_code e = Some ''WALLET_SESSION_EXPIRED''
      then throw ''Wallet session is not active. Please reconnect your wallet and try again.''
      else if message_has e ''freezeWith'' \<or> message_has e ''transactionId must be set''
      then throw ''Wallet signing setup failed. Please refresh the page and reconnect your wallet.''
      else if message_has e ''timed out''
      then throw ''Wallet did not respond in time. Please check if your wallet app is open and try again.''
      else if list_ex (message_has e) [''USER_REJECT'', ''rejected'', ''cancelled'', ''canceled'', ''denied'']
      then throw ''Transaction was rejected by wallet''
      else e)"

text \<open>Sign behind the lock and confirm; shared by allowances and redemption.\<close>

definition sign_and_submit :: "wallet_world \<Rightarrow> string \<Rightarrow> string attempt" where
  "sign_and_submit w operation =
     attempt_bind (seedWalletConnectNodeAccountId (ww_signer w) (ww_nodes w)) (\<lambda>nodes.
     attempt_bind (ww_freeze w nodes) (\<lambda>_.
       ww_lock w (withTimeout (ww_execute w) SIGN_TIMEOUT_MS operation)))"

definition grant_submit :: "wallet_world \<Rightarrow> bool attempt option" where
  "grant_submit w =
     (case sign_and_submit w ''Wallet transaction signing'' of
        Inl e \<Rightarrow> Some (Inl (grant_error e))
      | Inr _ \<Rightarrow>
          map_option (\<lambda>r. case r of Inl e \<Rightarrow> Inl (grant_error e) | Inr b \<Rightarrow> Inr b) (confirmTx (ww_receipt w) (ww_mirror w)))"

text \<open>A built-in exception, with the text the engine gives it.\<close>

definition thrown_of :: "(js_error \<Rightarrow> string) \<Rightarrow> js_error \<Rightarrow> thrown" where
  "thrown_of engine e =
     (case e of JsError m \<Rightarrow> throw m
      | _ \<Rightarrow> \<lparr>th_message = Some (engine e), th_code = None, th_name = ''RangeError''\<rparr>)"

text \<open>The approval the user is asked to sign, or the error before that.\<close>

definition grant_request ::
  "(js_error \<Rightarrow> string) \<Rightarrow> wallet_world \<Rightarrow> string \<Rightarrow> (string \<times> string) list \<Rightarrow> nat \<Rightarrow> string \<Rightarrow> jsn \<Rightarrow> bool \<Rightarrow> approval attempt" where
  "grant_request engine w ledger usdcTokenIds decimals contractId amountUsd useMax =
     (let networkKey = to_lower ledger; token = (case map_of usdcTokenIds networkKey of Some t \<Rightarrow> t | None \<Rightarrow> []);
          names = concat (case map fst (obj_entries usdcTokenIds) of [] \<Rightarrow> [] | k # ks \<Rightarrow> k # map (\<lambda>x. '', '' @ x) ks);
          configured = (if names = [] then ''none'' else names)
      in if token = [] then Inl (throw (''No USDC token ID configured for network \"'' @ networkKey
              @ ''\" (configured: '' @ configured @ ''). Try refreshing the page.''))
         else if contractId = [] then Inl (throw ''Contract ID is required'')
         else (case ww_account w of
                 Inl _ \<Rightarrow> Inl (throw ''Wallet session appears disconnected. Please reconnect your wallet.'')
               | Inr owner \<Rightarrow>
                   (case approval_amount amountUsd useMax decimals of
                      Inl e \<Rightarrow> Inl (thrown_of engine e)
                    | Inr n \<Rightarrow>
                        let a = \<lparr>ap_token = token, ap_owner = owner, ap_spender = contractId, ap_amount = n\<rparr>
                        in (case ww_build w a of
                              Inr _ \<Rightarrow> Inr a
                            | Inl e \<Rightarrow> Inl (throw (''Failed to build allowance transaction: ''
                                @ (case th_message e of Some m \<Rightarrow> m | None \<Rightarrow> ''unknown error'')))))))"

definition grantAllowanceUsd ::
  "(js_error \<Rightarrow> string) \<Rightarrow> wallet_world \<Rightarrow> string \<Rightarrow> (string \<times> string) list \<Rightarrow> nat \<Rightarrow> string \<Rightarrow> jsn \<Rightarrow> bool \<Rightarrow> bool attempt option" where
  "grantAllowanceUsd engine w ledger usdcTokenIds decimals contractId amountUsd useMax =
     (case grant_request engine w ledger usdcTokenIds decimals contractId amountUsd useMax of
        Inl e \<Rightarrow> Some (Inl e)
      | Inr _ \<Rightarrow> grant_submit w)"

section \<open>Redemption\<close>

definition redeemWinnings :: "wallet_world \<Rightarrow> bool \<Rightarrow> string \<Rightarrow> int \<Rightarrow> (int \<times> string) attempt option" where
  "redeemWinnings w has_signer contractId marketIdU128 =
     (if \<not> has_signer then Some (Inl (throw ''Wallet not has_signer''))
      else if contractId = [] then Some (Inl (throw ''Prism contract id missing for selected network''))
      else if marketIdU128 < 0 \<or> 2 ^ 128 - 1 < marketIdU128 then Some (Inl (throw ''Invalid uint128 marketId''))
      else (case sign_and_submit w ''Redeem signing'' of
              Inl e \<Rightarrow> Some (Inl e)
            | Inr tid \<Rightarrow>
                map_option (\<lambda>r. attempt_bind r (\<lambda>ok. if ok then Inr (0, tid) else Inl (throw ''Redeem failed on-chain'')))
                  (confirmTx (ww_receipt w) (ww_mirror w))))"

datatype toast = ToastError string | ToastSuccess string | ToastInfo string

record redeem_outcome =
  ro_success :: bool
  ro_txId :: "string option"
  ro_cancelled :: bool
  ro_toast :: toast
  ro_redeemed :: redeemed

definition redeem_error :: "string \<Rightarrow> string" where
  "redeem_error msg =
     (if js_includes msg ''Not resolved yet'' then ''This market has not been resolved yet''
      else if js_includes msg ''No winning tokens'' then ''You have no winning shares to redeem on this market''
      else if js_includes msg ''rejected'' \<or> js_includes msg ''cancelled'' \<or> js_includes msg ''denied''
      then ''Redemption was rejected in your wallet''
      else if js_includes (to_lower msg) ''collateral accounting mismatch''
      then ''Redemption temporarily unavailable '' @ [char_of (226 :: nat), char_of (128 :: nat), char_of (148 :: nat)] @ '' market collateral is being reconciled. Please retry shortly.''
      else if js_includes (to_lower msg) ''collateral transfer failed'' \<or> js_includes (to_lower msg) ''transfer failed''
      then ''On-chain transfer failed during redeem. Please retry.''
      else ''Redemption failed: '' @ msg)"

definition redeem_contract :: "string option \<Rightarrow> (string \<Rightarrow> string option) \<Rightarrow> string \<Rightarrow> string" where
  "redeem_contract marketContractId smartContractIds network =
     (case marketContractId of
        Some c \<Rightarrow> if c \<noteq> [] \<and> trim c \<noteq> [] then trim c
                  else (case smartContractIds (to_lower network) of Some d \<Rightarrow> d | None \<Rightarrow> [])
      | None \<Rightarrow> (case smartContractIds (to_lower network) of Some d \<Rightarrow> d | None \<Rightarrow> []))"

text \<open>The hook: what the redemption settles with (\<open>None\<close> while it has not) and whether the user abandoned it
  first. With neither, the call is still pending.\<close>

definition useRedeem ::
  "(js_error \<Rightarrow> string) \<Rightarrow> bool \<Rightarrow> string \<Rightarrow> string \<Rightarrow> jsn \<Rightarrow> (int \<Rightarrow> (int \<times> string) attempt option) \<Rightarrow> bool
   \<Rightarrow> redeemed \<Rightarrow> redeem_outcome option" where
  "useRedeem engine has_signer contractId marketUuid expectedPayoutUsd call cancelled store =
     (let failed = (\<lambda>t. \<lparr>ro_success = False, ro_txId = None, ro_cancelled = False, ro_toast = t, ro_redeemed = store\<rparr>);
          reject = (\<lambda>e. if th_name e = ''NotLeaderTabError''
            then failed (ToastInfo ''Wallet is active in another Prism tab. Click \"Use wallet here\" to take over.'')
            else failed (ToastError (redeem_error (case th_message e of Some m \<Rightarrow> m | None \<Rightarrow> ''Redemption failed''))))
      in if \<not> has_signer then Some (failed (ToastError ''Connect your wallet to redeem''))
         else if contractId = [] then Some (failed (ToastError ''Prism contract not configured for this market''))
         else (case uuidToBigInt marketUuid of
                 Inl e \<Rightarrow> Some (reject (thrown_of engine e))
               | Inr n \<Rightarrow>
                   if cancelled
                   then Some ((failed (ToastInfo ''Redemption cancelled''))\<lparr>ro_cancelled := True\<rparr>)
                   else map_option
                     (\<lambda>r. case r of
                        Inl e \<Rightarrow> reject e
                      | Inr (_, tid) \<Rightarrow>
                          \<lparr>ro_success = True, ro_txId = Some tid, ro_cancelled = False,
                           ro_toast = ToastSuccess (''Redeemed $'' @ to_fixed expectedPayoutUsd 2 @ '' USDC''),
                           ro_redeemed = fst (markMarketRedeemed marketUuid store)\<rparr>) (call n)))"

section \<open>Facts\<close>

text \<open>The loop as a search: the first deciding turn among those the clock allows.\<close>

definition in_time :: "int \<Rightarrow> int \<Rightarrow> poll list \<Rightarrow> poll list" where
  "in_time start timeoutMs ps = takeWhile (\<lambda>p. po_now p - start < timeoutMs) ps"

definition verdict :: "int \<Rightarrow> int \<Rightarrow> poll list \<Rightarrow> bool attempt" where
  "verdict start timeoutMs ps =
     (case List.find (\<lambda>p. poll_once p \<noteq> None) (in_time start timeoutMs ps) of
        Some p \<Rightarrow> the (poll_once p)
      | None \<Rightarrow> Inl (throw PENDING))"

text \<open>Turns are an interval apart: the loop sleeps between two of them.\<close>

fun spaced :: "int \<Rightarrow> int \<Rightarrow> poll list \<Rightarrow> bool" where
  "spaced interval t [] = True"
| "spaced interval t (p # ps) = (t \<le> po_now p \<and> spaced interval (po_now p + interval) ps)"

lemma wait_verdict:
  "(\<exists>p\<in>set ps. timeoutMs \<le> po_now p - start) \<Longrightarrow>
     waitForMirrorTxResult start timeoutMs ps = Some (verdict start timeoutMs ps)"
proof (induction ps)
  case (Cons p ps)
  show ?case
  proof (cases "po_now p - start < timeoutMs")
    case True
    with Cons show ?thesis
      by (cases "poll_once p") (auto simp: verdict_def in_time_def)
  next
    case False
    then show ?thesis by (simp add: verdict_def in_time_def)
  qed
qed simp

lemma spaced_reaches:
  assumes "spaced interval t ps" "ps \<noteq> []"
  shows "t + int (length ps - 1) * interval \<le> po_now (last ps)"
  using assms
proof (induction ps arbitrary: t)
  case (Cons p ps)
  show ?case
  proof (cases "ps = []")
    case True
    with Cons.prems show ?thesis by simp
  next
    case False
    with Cons.IH [of "po_now p + interval"] Cons.prems
    have "po_now p + interval + int (length ps - 1) * interval \<le> po_now (last ps)" by simp
    then have le: "po_now p + (int (length ps - 1) * interval + interval) \<le> po_now (last ps)" by (simp only: ac_simps)
    have "int (length (p # ps) - 1) = int (length ps - 1) + 1" using False by (cases ps) simp_all
    then have e: "int (length (p # ps) - 1) * interval = int (length ps - 1) * interval + interval"
      by (simp only: distrib_right mult_1)
    have "t + int (length (p # ps) - 1) * interval \<le> po_now p + (int (length ps - 1) * interval + interval)"
      unfolding e using Cons.prems by simp
    from order.trans [OF this le] show ?thesis using False by simp
  qed
qed simp

lemma poll_success: "poll_once p = Some (Inr b) \<Longrightarrow> b \<and> (\<exists>rs. po_reply p = TxRows rs \<and> failing_row rs = None \<and> Some ''SUCCESS'' \<in> set rs)"
  by (auto simp: poll_once_def split: if_splits tx_reply.splits option.splits)

lemma verdict_success:
  assumes "verdict start timeoutMs ps = Inr b"
  shows "b \<and> (\<exists>p rs. p \<in> set ps \<and> po_now p - start < timeoutMs \<and> po_reply p = TxRows rs
    \<and> failing_row rs = None \<and> Some ''SUCCESS'' \<in> set rs)"
proof -
  obtain p where f: "List.find (\<lambda>p. poll_once p \<noteq> None) (in_time start timeoutMs ps) = Some p"
    and r: "poll_once p = Some (Inr b)"
  proof (cases "List.find (\<lambda>p. poll_once p \<noteq> None) (in_time start timeoutMs ps)")
    case None
    then show ?thesis using assms by (simp add: verdict_def)
  next
    case (Some p)
    then have "poll_once p \<noteq> None" by (auto simp: find_Some_iff)
    then show ?thesis using that [OF Some] assms Some by (auto simp: verdict_def)
  qed
  have "p \<in> set (in_time start timeoutMs ps)" using f by (auto simp: find_Some_iff)
  then have "p \<in> set ps" "po_now p - start < timeoutMs" by (auto simp: in_time_def dest: set_takeWhileD)
  with poll_success [OF r] show ?thesis by blast
qed

lemma confirm_success:
  assumes "mirror \<noteq> Some (Inr False)"
  shows "confirmTx receipt mirror = Some (Inr b) \<longleftrightarrow>
    b \<and> (receipt = Some (Inr (Some ''SUCCESS'')) \<or> mirror = Some (Inr True))"
  using assms
  by (cases receipt; cases mirror)
    (auto simp: confirmTx_def grpc_result_def attempt_bind_def split: sum.splits if_splits option.splits bool.splits)

text \<open>A ledger failure is reported as such, whichever of the two paths met it.\<close>

lemma confirm_failure:
  assumes "grpc_result r = Inl e" "message_starts f ONCHAIN" "\<not> message_starts e ONCHAIN"
  shows "confirmTx (Some r) (Some (Inl f)) = Some (Inl f)"
  using assms by (simp add: confirmTx_def flatten_errors_def)

lemma approval_amount_scaled:
  "approval_amount x False 6 = bind_result (scaled_price x) (\<lambda>raw. Inr (if MAX_INT64 < raw then MAX_INT64 else raw))"
  using pow10_exact [of 6] scale_literal by (simp add: approval_amount_def scaled_price_def)

section \<open>Properties\<close>


definition sample_poll :: "int \<Rightarrow> tx_reply \<Rightarrow> poll" where
  "sample_poll t r = \<lparr>po_now = t, po_cancelled = False, po_reply = r, po_cancelled_after = False\<rparr>"



definition sample_wallet :: wallet_world where
  "sample_wallet = \<lparr>ww_account = Inr ''0.0.7'', ww_build = (\<lambda>_. Inr ()), ww_signer = \<lparr>si_getClient = True, si_network = None\<rparr>,
     ww_nodes = [], ww_freeze = (\<lambda>_. Inr ()), ww_execute = Some (1500, Inr ''0.0.7@1.2''), ww_lock = (\<lambda>r. r),
     ww_receipt = None, ww_mirror = Some (Inr True)\<rparr>"


text \<open>The amount the wallet is asked to approve is the exact number of base units for every amount with
  whole base units, the unlimited amount is 10 to the 18th of them, and no request ever exceeds the
  64-bit range the ledger encodes amounts in.\<close>

theorem approval_amount_exact_and_bounded:
  assumes "0 \<le> k" "k \<le> 2 ^ 49"
  shows "approval_amount (JNum (fl (of_int k / 1000000))) False 6 = Inr k
    \<and> approval_amount x True 6 = Inr (10 ^ 18)
    \<and> (\<forall>n. approval_amount x useMax d = Inr n \<longrightarrow> n \<le> MAX_INT64)"
proof (intro conjI allI impI)
  have "\<bar>fl (of_int k / of_int 1000000) * of_int 1000000 - of_int k\<bar> \<le> of_int \<bar>k\<bar> / 2 ^ 53"
    by (rule fl.scaled_error) simp_all
  moreover have "(of_int \<bar>k\<bar> :: rat) \<le> of_int (2 ^ 49)" using assms by (simp only: of_int_le_iff abs_of_nonneg)
  then have "of_int \<bar>k\<bar> / (2 ^ 53 :: rat) \<le> 1 / 8" by simp
  ultimately have e: "\<bar>fl (of_int k / 1000000) * 1000000 - of_int k\<bar> \<le> 1 / 8" by simp
  have "\<bar>k\<bar> \<le> 2 ^ 49" using assms by simp
  from scaled_price_near [OF this e] have "scaled_price (JNum (fl (of_int k / 1000000))) = Inr k" .
  moreover have "\<not> MAX_INT64 < k" using assms by (simp add: MAX_INT64_def)
  ultimately show "approval_amount (JNum (fl (of_int k / 1000000))) False 6 = Inr k"
    by (simp add: approval_amount_scaled)
  show "approval_amount x True 6 = Inr (10 ^ 18)"
    using pow10_exact [of 6] by (simp add: approval_amount_def UNLIMITED_ALLOWANCE_USD_def MAX_INT64_def)
next
  fix n
  assume "approval_amount x useMax d = Inr n"
  then show "n \<le> MAX_INT64"
    by (auto simp: approval_amount_def bind_result_Inr_iff split: if_splits)
qed

theorem approval_amount_exact_and_bounded_witness:
  "approval_amount (JNum (fl (of_int 1500000 / 1000000))) False 6 = Inr 1500000"
  using approval_amount_exact_and_bounded [of 1500000] by simp

end
