(* ===== verification/OrderbookView.thy ===== *)
theory OrderbookView
  imports BookPrices JsCollections RegExp
begin

text \<open>
  The order book of the market page, \<open>src/web/components/GraphOrderbook.tsx\<close>: the polled snapshot and
  the refresh and cancel handlers as a state machine, the merge of the user's open orders into the
  book, the aggregation into price levels, and the rows of the YES and the NO view. The markup, the
  scroll positions and the texts of the page are not modelled.
\<close>

section \<open>Price levels\<close>

record AggregatedLevel =
  lv_priceUsd :: jsn
  lv_totalQty :: jsn
  lv_orderCount :: int
  lv_userOrders :: "LegacyOrder list"
  lv_ps :: string

definition price_key :: "LegacyOrder \<Rightarrow> jsn" where
  "price_key o' = jround (priceUsd o' * lit 10000) / lit 10000"

definition isUserOrder :: "string option \<Rightarrow> LegacyOrder \<Rightarrow> bool" where
  "isUserOrder acct o' = (case acct of Some a \<Rightarrow> a \<noteq> [] \<and> lo_accountId o' = a | None \<Rightarrow> False)"

definition new_level :: "string option \<Rightarrow> LegacyOrder \<Rightarrow> AggregatedLevel" where
  "new_level acct o' =
     \<lparr>lv_priceUsd = price_key o', lv_totalQty = lo_qty o', lv_orderCount = 1,
      lv_userOrders = (if isUserOrder acct o' then [o'] else []), lv_ps = ''p''\<rparr>"

definition join_level :: "string option \<Rightarrow> LegacyOrder \<Rightarrow> AggregatedLevel \<Rightarrow> AggregatedLevel" where
  "join_level acct o' l =
     l\<lparr>lv_totalQty := lv_totalQty l + lo_qty o', lv_orderCount := lv_orderCount l + 1,
       lv_userOrders := lv_userOrders l @ (if isUserOrder acct o' then [o'] else [])\<rparr>"

definition add_order ::
  "string option \<Rightarrow> (jsn \<times> AggregatedLevel) list \<Rightarrow> LegacyOrder \<Rightarrow> (jsn \<times> AggregatedLevel) list" where
  "add_order acct m o' =
     (case map_of m (price_key o') of
        Some l \<Rightarrow> map_set (price_key o') (join_level acct o' l) m
      | None \<Rightarrow> map_set (price_key o') (new_level acct o') m)"

definition aggregateByPrice :: "LegacyOrder list \<Rightarrow> string option \<Rightarrow> AggregatedLevel list" where
  "aggregateByPrice orders acct =
     filter (\<lambda>l. lv_totalQty l \<ge> lit (5 / 1000)) (map snd (foldl (add_order acct) [] orders))"

section \<open>The merged book\<close>

text \<open>The wire book without locally cancelled orders, and those of the user's open orders it does not
  list; \<open>!od.qty\<close> holds of zero and of NaN.\<close>

definition wire_orders :: "string set \<Rightarrow> LegacyOrder list \<Rightarrow> LegacyOrder list" where
  "wire_orders hidden os = filter (\<lambda>o'. lo_txId o' \<notin> hidden) os"

definition intent_orders :: "string set \<Rightarrow> string set \<Rightarrow> any_order list \<Rightarrow> LegacyOrder list" where
  "intent_orders known hidden intents =
     filter (\<lambda>od. lo_txId od \<notin> known \<and> lo_txId od \<notin> hidden \<and> truthy (lo_qty od)
                  \<and> \<not> lo_qty od < lit (5 / 1000))
       (map (\<lambda>i. toLegacyOrder i 6) intents)"

record book_rows =
  actualBids :: "LegacyOrder list"
  actualAsks :: "LegacyOrder list"
  aggregatedBids :: "AggregatedLevel list"
  aggregatedAsks :: "AggregatedLevel list"
  maxQty :: jsn
  totalUserOrders :: nat

definition by_price_desc :: "AggregatedLevel \<Rightarrow> AggregatedLevel \<Rightarrow> jsn" where
  "by_price_desc a b = lv_priceUsd b - lv_priceUsd a"

definition mergedBook ::
  "BookSnapshot option \<Rightarrow> string set \<Rightarrow> any_order list \<Rightarrow> string option \<Rightarrow> book_rows" where
  "mergedBook book hidden userIntents acct =
     (let legacy = toLegacyBook book 6;
          wireBids = wire_orders hidden (bids legacy); wireAsks = wire_orders hidden (asks legacy);
          extra = intent_orders (set (map lo_txId (wireBids @ wireAsks))) hidden userIntents;
          allBids = wireBids @ filter (\<lambda>od. priceUsd od \<ge> 0) extra;
          allAsks = wireAsks @ filter (\<lambda>od. \<not> priceUsd od \<ge> 0) extra;
          aggBids = js_sort by_price_desc (aggregateByPrice allBids acct);
          aggAsks = aggregateByPrice allAsks acct
      in \<lparr>actualBids = allBids, actualAsks = allAsks, aggregatedBids = aggBids, aggregatedAsks = aggAsks,
          maxQty = jmax_list (map lv_totalQty (aggBids @ aggAsks) @ [JNum 1]),
          totalUserOrders = sum_list (map (length \<circ> lv_userOrders) aggBids)
                            + sum_list (map (length \<circ> lv_userOrders) aggAsks)\<rparr>)"

section \<open>The rows of a view\<close>

datatype row_side = BidRow | AskRow

record DisplayLevel =
  dl_level :: AggregatedLevel
  dl_displayPrice :: jsn
  dl_originalPrice :: jsn
  dl_orderSide :: row_side

definition natural_price :: "row_side \<Rightarrow> AggregatedLevel \<Rightarrow> jsn" where
  "natural_price s l = (case s of BidRow \<Rightarrow> \<bar>lv_priceUsd l\<bar> | AskRow \<Rightarrow> 1 - \<bar>lv_priceUsd l\<bar>)"

text \<open>The side and the price a level is shown at in a view.\<close>

definition display_side :: "outcome \<Rightarrow> row_side \<Rightarrow> row_side" where
  "display_side view s =
     (case view of OYes \<Rightarrow> s | ONo \<Rightarrow> (case s of BidRow \<Rightarrow> AskRow | AskRow \<Rightarrow> BidRow))"

definition display_price :: "outcome \<Rightarrow> row_side \<Rightarrow> AggregatedLevel \<Rightarrow> jsn" where
  "display_price view s l =
     (if display_side view s = BidRow then natural_price s l else 1 - natural_price s l)"

definition display_entry :: "outcome \<Rightarrow> row_side \<Rightarrow> AggregatedLevel \<Rightarrow> DisplayLevel" where
  "display_entry view s l =
     \<lparr>dl_level = l, dl_displayPrice = display_price view s l,
      dl_originalPrice = natural_price s l, dl_orderSide = s\<rparr>"

definition by_display_desc :: "DisplayLevel \<Rightarrow> DisplayLevel \<Rightarrow> jsn" where
  "by_display_desc a b = dl_displayPrice b - dl_displayPrice a"

definition view_entries :: "outcome \<Rightarrow> book_rows \<Rightarrow> (row_side \<times> DisplayLevel) list" where
  "view_entries view r =
     map (\<lambda>l. (display_side view BidRow, display_entry view BidRow l)) (aggregatedBids r)
     @ map (\<lambda>l. (display_side view AskRow, display_entry view AskRow l)) (aggregatedAsks r)"

definition view_rows :: "outcome \<Rightarrow> row_side \<Rightarrow> book_rows \<Rightarrow> DisplayLevel list" where
  "view_rows view s r = js_sort by_display_desc (map snd (filter (\<lambda>e. fst e = s) (view_entries view r)))"

record book_summary =
  bestAskPrice :: "jsn option"
  bestBidPrice :: "jsn option"
  displaySpread :: "jsn option"
  lastPrice :: "jsn option"
  bidsTotalQty :: jsn
  bidsTotalUsd :: jsn

definition view_summary :: "outcome \<Rightarrow> jsn option \<Rightarrow> book_rows \<Rightarrow> book_summary" where
  "view_summary view lastTradeYes r =
     (let askRows = view_rows view AskRow r; bidRows = view_rows view BidRow r;
          bestA = (if askRows \<noteq> [] then Some (dl_displayPrice (last askRows)) else None);
          bestB = (if bidRows \<noteq> [] then Some (dl_displayPrice (hd bidRows)) else None)
      in \<lparr>bestAskPrice = bestA, bestBidPrice = bestB,
          displaySpread = (case (bestA, bestB) of (Some a, Some b) \<Rightarrow> Some \<bar>a - b\<bar> | _ \<Rightarrow> None),
          lastPrice = map_option (\<lambda>p. case view of OYes \<Rightarrow> p | ONo \<Rightarrow> 1 - p) lastTradeYes,
          bidsTotalQty = foldl (\<lambda>s d. s + lv_totalQty (dl_level d)) 0 bidRows,
          bidsTotalUsd = foldl (\<lambda>s d. s + dl_displayPrice d * lv_totalQty (dl_level d)) 0 bidRows\<rparr>)"

text \<open>The dollar and cent texts of a row; \<open>CHR 0xA2\<close> is the cent sign.\<close>

definition formatPrice :: "jsn \<Rightarrow> string" where
  "formatPrice usd = ''$'' @ to_fixed usd 2"

definition formatCents :: "jsn \<Rightarrow> string" where
  "formatCents usd =
     (let cents = usd * lit 100;
          isEdge = (cents < lit 5 - lit (1 / 10 ^ 9) \<or> cents > lit 95 + lit (1 / 10 ^ 9));
          rounded = number_of_string (to_fixed cents (if isEdge then 1 else 2))
      in num_to_string rounded @ [CHR 0xA2])"

definition row_total :: "DisplayLevel \<Rightarrow> jsn" where
  "row_total d = dl_displayPrice d * lv_totalQty (dl_level d)"

definition bar_width :: "book_rows \<Rightarrow> DisplayLevel \<Rightarrow> jsn" where
  "bar_width r d = lv_totalQty (dl_level d) / maxQty r * lit 100"

definition badge_qty :: "LegacyOrder list \<Rightarrow> string" where
  "badge_qty os = to_fixed (foldl (\<lambda>s o'. s + lo_qty o') 0 os) 1"

section \<open>Polling, refreshing and cancelling\<close>

record cancel_request =
  cr_orderId :: string
  cr_side :: row_side
  cr_price :: jsn
  cr_qty :: jsn

record book_state =
  bk_book :: "BookSnapshot option"
  bk_loading :: bool
  bk_error :: "string option"
  bk_live :: bool
  bk_polling :: bool
  bk_cancelling :: "string option"
  bk_toCancel :: "cancel_request option"
  bk_cancelled :: "string list"
  bk_refreshTick :: nat
  bk_refreshing :: bool
  bk_spinUntil :: int

definition initial_book :: book_state where
  "initial_book = \<lparr>bk_book = None, bk_loading = True, bk_error = None, bk_live = False, bk_polling = True,
     bk_cancelling = None, bk_toCancel = None, bk_cancelled = [], bk_refreshTick = 0,
     bk_refreshing = False, bk_spinUntil = 0\<rparr>"

text \<open>The refresh spinner is cleared at once, or by a timer when its floor has not passed; the result
  has the delay of that timer.\<close>

definition clearRefreshingWithFloor :: "int \<Rightarrow> book_state \<Rightarrow> book_state \<times> int option" where
  "clearRefreshingWithFloor now s =
     (let remaining = bk_spinUntil s - now in
      if remaining > 0 then (s, Some remaining) else (s\<lparr>bk_refreshing := False\<rparr>, None))"

definition fatal_book_error :: "string \<Rightarrow> bool" where
  "fatal_book_error msg = rx_search_i (ralt [rlit ''not found'', rlit ''invalid'', rlit ''unknown market'']) msg"

text \<open>The end of a request, for a mounted component; the error message is a string.\<close>

definition fetchBook_done :: "int \<Rightarrow> bool \<Rightarrow> string + BookSnapshot \<Rightarrow> book_state \<Rightarrow> book_state" where
  "fetchBook_done now force reply s =
     (let s1 = (case reply of
                  Inr b \<Rightarrow> s\<lparr>bk_book := Some b, bk_error := None, bk_live := True\<rparr>
                | Inl msg \<Rightarrow> s\<lparr>bk_error := Some ''Failed to load orderbook'', bk_live := False,
                               bk_polling := bk_polling s \<and> \<not> fatal_book_error msg\<rparr>);
          s2 = s1\<lparr>bk_loading := False\<rparr>
      in if force then fst (clearRefreshingWithFloor now s2) else s2)"

text \<open>A refresh restarts the polling effect, whose first request is then a forced one.\<close>

definition handleManualRefresh :: "int \<Rightarrow> book_state \<Rightarrow> book_state" where
  "handleManualRefresh now s =
     s\<lparr>bk_spinUntil := now + 600, bk_refreshing := True, bk_refreshTick := bk_refreshTick s + 1,
       bk_polling := True\<rparr>"

definition handleRequestCancel :: "string \<Rightarrow> row_side \<Rightarrow> jsn \<Rightarrow> jsn \<Rightarrow> book_state \<Rightarrow> book_state" where
  "handleRequestCancel i sd p q s =
     s\<lparr>bk_toCancel := Some \<lparr>cr_orderId = i, cr_side = sd, cr_price = p, cr_qty = q\<rparr>\<rparr>"

definition confirm_start :: "book_state \<Rightarrow> book_state \<times> string option" where
  "confirm_start s =
     (case bk_toCancel s of
        None \<Rightarrow> (s, None)
      | Some r \<Rightarrow> (s\<lparr>bk_cancelling := Some (cr_orderId r)\<rparr>, Some (cr_orderId r)))"

definition confirm_done :: "int \<Rightarrow> string \<Rightarrow> bool \<Rightarrow> book_state \<Rightarrow> book_state" where
  "confirm_done now i ok s =
     (let s1 = (if ok then handleManualRefresh now (s\<lparr>bk_cancelled := js_uniq (bk_cancelled s @ [i])\<rparr>) else s)
      in s1\<lparr>bk_cancelling := None\<rparr>)"

text \<open>The timer 60 seconds after a cancellation, and the effect that forgets orders gone everywhere.\<close>

definition forget_cancelled :: "string \<Rightarrow> book_state \<Rightarrow> book_state" where
  "forget_cancelled i s = s\<lparr>bk_cancelled := removeAll i (bk_cancelled s)\<rparr>"

definition live_ids :: "any_order list \<Rightarrow> book_state \<Rightarrow> string set" where
  "live_ids userIntents s =
     (let legacy = toLegacyBook (bk_book s) 6 in
      set (map lo_txId (bids legacy @ asks legacy)) \<union> set (map (\<lambda>i. lo_txId (toLegacyOrder i 6)) userIntents))"

definition reconcile_cancelled :: "any_order list \<Rightarrow> book_state \<Rightarrow> book_state" where
  "reconcile_cancelled userIntents s =
     s\<lparr>bk_cancelled := filter (\<lambda>i. i \<in> live_ids userIntents s) (bk_cancelled s)\<rparr>"

section \<open>Levels are the groups of equal prices\<close>

definition level_of :: "LegacyOrder list \<Rightarrow> string option \<Rightarrow> jsn \<Rightarrow> AggregatedLevel" where
  "level_of orders acct k =
     (let os = filter (\<lambda>o'. price_key o' = k) orders in
      \<lparr>lv_priceUsd = k, lv_totalQty = foldl (\<lambda>s o'. s + lo_qty o') (lo_qty (hd os)) (tl os),
       lv_orderCount = int (length os), lv_userOrders = filter (isUserOrder acct) os, lv_ps = ''p''\<rparr>)"

lemma level_of_snoc:
  "level_of (orders @ [o']) acct k =
     (if price_key o' \<noteq> k then level_of orders acct k
      else if k \<in> set (map price_key orders) then join_level acct o' (level_of orders acct k)
      else new_level acct o')"
proof (cases "price_key o' = k \<and> k \<in> set (map price_key orders)")
  case True
  then have "filter (\<lambda>q. price_key q = k) orders \<noteq> []" by (auto simp: filter_empty_conv)
  then obtain q qs where "filter (\<lambda>q. price_key q = k) orders = q # qs" by (meson neq_Nil_conv)
  with True show ?thesis by (simp add: level_of_def join_level_def Let_def)
next
  case False
  then have "price_key o' = k \<Longrightarrow> filter (\<lambda>q. price_key q = k) orders = []"
    unfolding filter_empty_conv by (metis image_eqI list.set_map)
  moreover from this have "price_key o' = k \<Longrightarrow>
      filter (\<lambda>q. price_key q = k \<and> isUserOrder acct q) orders = []"
    by (auto simp: filter_empty_conv)
  ultimately show ?thesis using False by (auto simp: level_of_def new_level_def Let_def)
qed

lemma map_of_graph: "map_of (map (\<lambda>k. (k, f k)) ks) x = (if x \<in> set ks then Some (f x) else None)"
  by (induction ks) auto

lemma map_set_graph:
  "map_set x v (map (\<lambda>k. (k, f k)) ks) =
     map (\<lambda>k. (k, (f(x := v)) k)) (if x \<in> set ks then ks else ks @ [x])"
  by (auto simp: map_set_def comp_def image_iff)

lemma foldl_levels:
  "foldl (add_order acct) [] orders =
     map (\<lambda>k. (k, level_of orders acct k)) (js_uniq (map price_key orders))"
proof (induction orders rule: rev_induct)
  case (snoc o' orders)
  have "add_order acct (map (\<lambda>k. (k, level_of orders acct k)) (js_uniq (map price_key orders))) o' =
      map (\<lambda>k. (k, ((level_of orders acct)(price_key o' :=
        (if price_key o' \<in> set (map price_key orders)
         then join_level acct o' (level_of orders acct (price_key o')) else new_level acct o'))) k))
       (js_uniq (map price_key (orders @ [o'])))"
    by (simp add: add_order_def map_of_graph map_set_graph js_uniq_snoc)
  also have "\<dots> = map (\<lambda>k. (k, level_of (orders @ [o']) acct k)) (js_uniq (map price_key (orders @ [o'])))"
    by (intro map_cong) (auto simp: level_of_snoc)
  finally show ?case by (simp add: snoc.IH)
qed (simp add: js_uniq_def)

section \<open>Both views show the same orders\<close>

lemma view_rows_mset:
  "mset (view_rows view s r) =
     mset (map (display_entry view BidRow) (if display_side view BidRow = s then aggregatedBids r else [])
           @ map (display_entry view AskRow) (if display_side view AskRow = s then aggregatedAsks r else []))"
  by (simp add: view_rows_def view_entries_def filter_map comp_def)

lemma view_rows_levels:
  "mset (map dl_level (view_rows view s r)) =
     mset (if display_side view BidRow = s then aggregatedBids r else aggregatedAsks r)"
proof -
  have "mset (map dl_level (view_rows view s r)) = image_mset dl_level (mset (view_rows view s r))" by simp
  also have "\<dots> = mset (if display_side view BidRow = s then aggregatedBids r else aggregatedAsks r)"
    by (cases view; cases s; simp add: view_rows_mset display_side_def display_entry_def comp_def image_mset.compositionality)
  finally show ?thesis .
qed

lemma mset_sort_by [simp]: "mset (aggregatedBids (mergedBook b h i a)) =
    mset (aggregateByPrice (actualBids (mergedBook b h i a)) a)"
  by (simp add: mergedBook_def Let_def)

definition proper_level :: "AggregatedLevel \<Rightarrow> bool" where
  "proper_level l \<longleftrightarrow> (\<exists>p. lv_priceUsd l = JNum p \<and> fl p = p \<and> \<bar>p\<bar> \<le> 1)"

lemma fl_unit: "0 \<le> x \<Longrightarrow> x \<le> 1 \<Longrightarrow> 0 \<le> fl x \<and> fl x \<le> 1 \<and> fl (fl x) = fl x \<and> JNum 1 - JNum x = JNum (fl (1 - x))"
  using fl.rd_unit [of x] by (auto simp: jsfin_unit abs_le_iff)

lemma display_price_num:
  assumes "proper_level l"
  obtains q where "display_price view s l = JNum q" "fl q = q" "0 \<le> q" "q \<le> 1"
proof -
  from assms obtain p where p: "lv_priceUsd l = JNum p" "fl p = p" "\<bar>p\<bar> \<le> 1"
    by (auto simp: proper_level_def)
  obtain n where n: "natural_price s l = JNum n" "fl n = n" "0 \<le> n" "n \<le> 1"
  proof (cases s)
    case BidRow
    with p show thesis by (intro that [of "\<bar>p\<bar>"]) (auto simp: natural_price_def fl_minus abs_if)
  next
    case AskRow
    have "0 \<le> 1 - \<bar>p\<bar>" "1 - \<bar>p\<bar> \<le> 1" using p(3) by auto
    note u = fl_unit [OF this]
    with AskRow p show thesis
      by (intro that [of "fl (1 - \<bar>p\<bar>)"]) (auto simp: natural_price_def one_jsn_def jsfin_unit abs_le_iff)
  qed
  show thesis
  proof (cases "display_side view s = BidRow")
    case True
    with n show thesis by (intro that [of n]) (auto simp: display_price_def)
  next
    case False
    have "0 \<le> 1 - n" "1 - n \<le> 1" using n by auto
    note u = fl_unit [OF this]
    with False n show thesis
      by (intro that [of "fl (1 - n)"]) (auto simp: display_price_def one_jsn_def jsfin_unit abs_le_iff)
  qed
qed

lemma by_display_desc_pos:
  assumes "dl_displayPrice a = JNum p" "fl p = p" "dl_displayPrice b = JNum q" "fl q = q"
  shows "JNum 0 < by_display_desc a b \<longleftrightarrow> p < q"
  using jsn_diff_pos [of q p] assms by (simp add: by_display_desc_def)

definition num_value :: "jsn \<Rightarrow> rat" where
  "num_value x = (case x of JNum a \<Rightarrow> a | _ \<Rightarrow> 0)"

lemma in_view_rows:
  assumes "d \<in> set (view_rows view s r)" "list_all proper_level (aggregatedBids r @ aggregatedAsks r)"
  obtains p where "dl_displayPrice d = JNum p" "fl p = p" "0 \<le> p" "p \<le> 1"
proof -
  have "d \<in> set_mset (mset (view_rows view s r))" using assms(1) by simp
  then obtain sd l where "proper_level l" "d = display_entry view sd l"
    unfolding view_rows_mset using assms(2) by (auto simp: list_all_iff split: if_splits)
  then show thesis
    using display_price_num [of l view sd] that by (auto simp: display_entry_def)
qed

lemma view_rows_sorted:
  assumes "list_all proper_level (aggregatedBids r @ aggregatedAsks r)"
  shows "sorted_wrt (\<lambda>a b. dl_displayPrice b \<le> dl_displayPrice a) (view_rows view s r)"
proof -
  let ?k = "\<lambda>d. - num_value (dl_displayPrice d)"
  have num: "\<exists>p. dl_displayPrice d = JNum p \<and> fl p = p" if "d \<in> set (view_rows view s r)" for d
    using in_view_rows [OF that assms] by metis
  have "sorted_wrt (\<lambda>a b. ?k a \<le> ?k b) (view_rows view s r)"
    unfolding view_rows_def
  proof (rule js_sort_sorted)
    fix a b
    assume "a \<in> set (map snd (filter (\<lambda>e. fst e = s) (view_entries view r)))"
      "b \<in> set (map snd (filter (\<lambda>e. fst e = s) (view_entries view r)))"
    then obtain p q where "dl_displayPrice a = JNum p \<and> fl p = p" "dl_displayPrice b = JNum q \<and> fl q = q"
      using num [unfolded view_rows_def set_js_sort] by metis
    then show "JNum 0 < by_display_desc a b \<longleftrightarrow> ?k b < ?k a"
      by (simp add: by_display_desc_pos num_value_def)
  qed
  moreover have "dl_displayPrice b \<le> dl_displayPrice a"
    if ab: "a \<in> set (view_rows view s r)" "b \<in> set (view_rows view s r)" and "?k a \<le> ?k b" for a b
    using num [OF ab(1)] num [OF ab(2)] that(3) by (auto simp: num_value_def)
  ultimately show ?thesis by (blast intro: sorted_wrt_mono_rel [rotated])
qed

lemma sorted_wrt_ends:
  assumes "sorted_wrt R xs" "x \<in> set xs" "\<And>y. y \<in> set xs \<Longrightarrow> R y y"
  shows "R (hd xs) x" "R x (last xs)"
proof -
  from assms(2) obtain i where i: "i < length xs" "x = xs ! i" by (auto simp: in_set_conv_nth)
  have nth: "R (xs ! a) (xs ! b)" if "a \<le> b" "b < length xs" for a b
    using that assms(1,3) by (cases "a = b") (auto simp: sorted_wrt_iff_nth_less)
  moreover from i have "xs \<noteq> []" by auto
  ultimately show "R (hd xs) x" "R x (last xs)"
    using nth [of 0 i] nth [of i "length xs - 1"] i by (simp_all add: hd_conv_nth last_conv_nth)
qed

text \<open>Rounding a signed price to four decimals keeps it a double between -1 and 1.\<close>

definition proper_price :: "LegacyOrder \<Rightarrow> bool" where
  "proper_price o' \<longleftrightarrow> (\<exists>p. priceUsd o' = JNum p \<and> fl p = p \<and> \<bar>p\<bar> \<le> 1)"

lemma price_key_proper:
  assumes "proper_price o'"
  shows "\<exists>p. price_key o' = JNum p \<and> fl p = p \<and> \<bar>p\<bar> \<le> 1"
proof -
  from assms obtain p where p: "priceUsd o' = JNum p" "\<bar>p\<bar> \<le> 1" by (auto simp: proper_price_def)
  have "\<bar>p * 10000\<bar> \<le> of_int 10000" using p(2) by (simp add: abs_mult)
  from jsfin_small [OF this] have
    k: "priceUsd o' * JNum 10000 = JNum (fl (p * 10000))" "\<bar>fl (p * 10000)\<bar> \<le> 10000"
    by (simp_all add: p(1) jsfin_numeral)
  define n where "n = \<lfloor>fl (p * 10000) + 1 / 2\<rfloor>"
  have "- 10000 \<le> n" "n \<le> 10000" using k(2) unfolding n_def by (auto simp: le_floor_iff floor_le_iff abs_le_iff)
  then have "\<bar>of_int n / 10000\<bar> \<le> (of_int 1 :: rat)" by (auto simp: abs_le_iff field_simps)
  from jsfin_small [OF this] have "price_key o' = JNum (fl (of_int n / 10000))" "\<bar>fl (of_int n / 10000)\<bar> \<le> 1"
    by (simp_all add: price_key_def k(1) n_def jsfin_numeral)
  then show ?thesis by simp
qed

lemma levels_proper:
  assumes "list_all proper_price orders"
  shows "list_all proper_level (aggregateByPrice orders acct)"
  using assms price_key_proper
  by (force simp: aggregateByPrice_def foldl_levels list_all_iff proper_level_def level_of_def Let_def)

lemma merged_proper:
  assumes "list_all proper_price (actualBids (mergedBook b h i a) @ actualAsks (mergedBook b h i a))"
  shows "list_all proper_level (aggregatedBids (mergedBook b h i a) @ aggregatedAsks (mergedBook b h i a))"
proof -
  let ?m = "mergedBook b h i a"
  have "set (aggregatedBids ?m) = set (aggregateByPrice (actualBids ?m) a)"
    "aggregatedAsks ?m = aggregateByPrice (actualAsks ?m) a"
    by (simp_all add: mergedBook_def Let_def)
  then show ?thesis
    using assms levels_proper [of "actualBids ?m" a] levels_proper [of "actualAsks ?m" a]
    by (auto simp: list_all_iff)
qed

section \<open>Properties\<close>

text \<open>C37. The levels of the book are exactly the groups of orders with equal rounded price, in the order in
  which their prices first occur: each level has the group's price, count, running quantity and the
  user's own orders, and only groups below 0.005 shares are left out.\<close>

theorem levels_are_price_groups:
  "aggregateByPrice orders acct =
     filter (\<lambda>l. lv_totalQty l \<ge> lit (5 / 1000))
       (map (level_of orders acct) (js_uniq (map price_key orders)))"
  by (simp add: aggregateByPrice_def foldl_levels comp_def)

text \<open>The YES and the NO view show the same liquidity: the bids of one are the asks of the other and
  every level of the book is in exactly one of the two lists. The best prices shown are those of the
  listed rows: no ask is below the best ask and no bid above the best bid.\<close>

theorem views_mirror_the_book:
  assumes "r = mergedBook book hidden userIntents acct"
    and "list_all proper_price (actualBids r @ actualAsks r)"
  shows "mset (map dl_level (view_rows ONo AskRow r)) = mset (map dl_level (view_rows OYes BidRow r))
    \<and> mset (map dl_level (view_rows ONo BidRow r)) = mset (map dl_level (view_rows OYes AskRow r))
    \<and> mset (map dl_level (view_rows view BidRow r @ view_rows view AskRow r))
        = mset (aggregatedBids r @ aggregatedAsks r)
    \<and> list_all (\<lambda>d. case bestAskPrice (view_summary view lastYes r) of Some p \<Rightarrow> p \<le> dl_displayPrice d | None \<Rightarrow> False)
        (view_rows view AskRow r)
    \<and> list_all (\<lambda>d. case bestBidPrice (view_summary view lastYes r) of Some p \<Rightarrow> dl_displayPrice d \<le> p | None \<Rightarrow> False)
        (view_rows view BidRow r)"
proof (intro conjI)
  have pl: "list_all proper_level (aggregatedBids r @ aggregatedAsks r)"
    using assms(2) unfolding assms(1) by (rule merged_proper)
  show "mset (map dl_level (view_rows ONo AskRow r)) = mset (map dl_level (view_rows OYes BidRow r))"
    "mset (map dl_level (view_rows ONo BidRow r)) = mset (map dl_level (view_rows OYes AskRow r))"
    by (simp_all only: view_rows_levels display_side_def outcome.case row_side.case refl if_True
        row_side.distinct if_False)
  show "mset (map dl_level (view_rows view BidRow r @ view_rows view AskRow r))
      = mset (aggregatedBids r @ aggregatedAsks r)"
    unfolding map_append mset_append view_rows_levels by (cases view) (simp_all add: display_side_def)
  have refl: "dl_displayPrice d \<le> dl_displayPrice d" if "d \<in> set (view_rows view s r)" for d s
    by (rule in_view_rows [OF that pl]) simp
  note ends = sorted_wrt_ends [OF view_rows_sorted [OF pl] _ refl]
  show "list_all (\<lambda>d. case bestAskPrice (view_summary view lastYes r) of Some p \<Rightarrow> p \<le> dl_displayPrice d
      | None \<Rightarrow> False) (view_rows view AskRow r)"
    using ends(2) by (auto simp: list_all_iff view_summary_def Let_def)
  show "list_all (\<lambda>d. case bestBidPrice (view_summary view lastYes r) of Some p \<Rightarrow> dl_displayPrice d \<le> p
      | None \<Rightarrow> False) (view_rows view BidRow r)"
    using ends(1) by (auto simp: list_all_iff view_summary_def Let_def)
qed

definition demo_resting :: "string \<Rightarrow> rat \<Rightarrow> LegacyOrder" where
  "demo_resting i p = \<lparr>lo_txId = i, lo_accountId = ''0.0.7'', priceUsd = JNum p, lo_qty = JNum 2,
     lo_ps = ''p'', lo_side = 0, lo_action = 0\<rparr>"

definition demo_book :: BookSnapshot where
  "demo_book = \<lparr>sb_bids = [AnyLegacy (demo_resting ''a'' (1 / 4)), AnyLegacy (demo_resting ''b'' (1 / 2))],
     sb_asks = [AnyLegacy (demo_resting ''c'' (- 3 / 4))]\<rparr>"

lemma demo_proper:
  "proper_price (demo_resting i (1 / 4))" "proper_price (demo_resting i (1 / 2))"
  "proper_price (demo_resting i (- 3 / 4))"
  using fl_dyadic [of 1 2] fl_dyadic [of "- 3" 2] fl_half
  unfolding proper_price_def demo_resting_def
  by (auto intro: exI [of _ "1 / 4"] exI [of _ "1 / 2"] exI [of _ "- 3 / 4"])

theorem views_mirror_the_book_witness:
  "mset (map dl_level (view_rows ONo AskRow (mergedBook (Some demo_book) {} [] None)))
     = mset (map dl_level (view_rows OYes BidRow (mergedBook (Some demo_book) {} [] None)))
   \<and> map lo_txId (actualBids (mergedBook (Some demo_book) {} [] None)) = [''a'', ''b'']"
proof
  have h: "list_all proper_price (actualBids (mergedBook (Some demo_book) {} [] None)
      @ actualAsks (mergedBook (Some demo_book) {} [] None))"
    by (simp add: mergedBook_def Let_def wire_orders_def intent_orders_def toLegacyBook_def demo_book_def
        demo_proper [simplified])
  show "mset (map dl_level (view_rows ONo AskRow (mergedBook (Some demo_book) {} [] None)))
     = mset (map dl_level (view_rows OYes BidRow (mergedBook (Some demo_book) {} [] None)))"
    using views_mirror_the_book [OF refl h] by blast
  show "map lo_txId (actualBids (mergedBook (Some demo_book) {} [] None)) = [''a'', ''b'']"
    by (simp add: mergedBook_def Let_def wire_orders_def intent_orders_def toLegacyBook_def demo_book_def
        demo_resting_def)
qed

end
