(* ===== verification/MarketView.thy ===== *)
theory MarketView
  imports HederaTx Trading Json RegExp
begin

text \<open>
  What the market page shows of a market besides its book: outcome labels and colours
  (\<open>src/web/lib/marketLabels.ts\<close>), the last trade (\<open>useLastTradePrice.ts\<close>), the public audit trail
  (\<open>useAuditTrail.ts\<close>), the user's position (\<open>useMarketPosition.ts\<close>) and the visitor's country
  (\<open>useGeoCountry.ts\<close>). Each hook is a state with one function per completed request; \<open>Math.pow\<close>, whose
  result the language leaves to the implementation, is a parameter.
\<close>

section \<open>Labels and colours\<close>

record OutcomeStyle =
  os_label :: string
  os_shortLabel :: string
  os_colorVar :: string
  os_textClass :: string
  os_bgClass :: string
  os_borderClass :: string

definition default_style :: "outcome \<Rightarrow> OutcomeStyle" where
  "default_style s = (case s of
     OYes \<Rightarrow> \<lparr>os_label = ''Yes'', os_shortLabel = ''YES'', os_colorVar = ''--outcome-a'',
              os_textClass = ''text-outcome-a'', os_bgClass = ''bg-outcome-a'', os_borderClass = ''border-outcome-a''\<rparr>
   | ONo \<Rightarrow> \<lparr>os_label = ''No'', os_shortLabel = ''NO'', os_colorVar = ''--outcome-b'',
             os_textClass = ''text-outcome-b'', os_bgClass = ''bg-outcome-b'', os_borderClass = ''border-outcome-b''\<rparr>)"

record market_labels =
  ml_aliasYes :: string
  ml_aliasNo :: string
  ml_hexColorYes :: string
  ml_hexColorNo :: string

definition cleanString :: "string option \<Rightarrow> string option" where
  "cleanString v = (case v of None \<Rightarrow> None | Some s \<Rightarrow> if trim s \<noteq> [] then Some (trim s) else None)"

definition styled :: "outcome \<Rightarrow> string option \<Rightarrow> OutcomeStyle" where
  "styled s label =
     (case cleanString label of
        Some l \<Rightarrow> (default_style s)\<lparr>os_label := l, os_shortLabel := to_upper l\<rparr>
      | None \<Rightarrow> default_style s)"

definition getOutcomeStyles :: "market_labels option \<Rightarrow> outcome \<Rightarrow> OutcomeStyle" where
  "getOutcomeStyles m s =
     styled s (map_option (case s of OYes \<Rightarrow> ml_aliasYes | ONo \<Rightarrow> ml_aliasNo) m)"

definition is_hex :: "char \<Rightarrow> bool" where
  "is_hex c \<longleftrightarrow> is_digit c \<or> (97 \<le> code_of c \<and> code_of c \<le> 102) \<or> (65 \<le> code_of c \<and> code_of c \<le> 70)"

definition hex_text :: "nat \<Rightarrow> string \<Rightarrow> bool" where
  "hex_text n s \<longleftrightarrow> length s = n \<and> list_all is_hex s"

definition byte_fraction :: "string \<Rightarrow> jsn" where
  "byte_fraction h = (case parse_nat 16 h of Some n \<Rightarrow> JNum (of_int n) | None \<Rightarrow> JNaN) / lit 255"

definition hexToHslTriplet :: "string \<Rightarrow> string option" where
  "hexToHslTriplet hex =
     (let h0 = (let t = trim hex in if starts_with t ''#'' then tl t else t);
          h = (if length h0 = 3 then concat (map (\<lambda>c. [c, c]) h0) else h0)
      in if \<not> hex_text 6 h then None
         else
          (let r = byte_fraction (take 2 h); g = byte_fraction (take 2 (drop 2 h)); b = byte_fraction (drop 4 h);
               mx = jmax_list [r, g, b]; mn = jmin_list [r, g, b];
               l = (mx + mn) / lit 2; d = mx - mn;
               sat = (if js_eq mx mn then 0
                      else if l > lit (1 / 2) then d / (lit 2 - mx - mn) else d / (mx + mn));
               hue = (if js_eq mx mn then 0
                      else (if js_eq mx r then (g - b) / d + (if g < b then lit 6 else 0)
                            else if js_eq mx g then (b - r) / d + lit 2
                            else (r - g) / d + lit 4) * lit 60)
           in Some (num_to_string (jround hue) @ '' '' @ num_to_string (jround (sat * lit 100)) @ ''% ''
                    @ num_to_string (jround (l * lit 100)) @ ''%'')))"

definition normalizeColor :: "string option \<Rightarrow> string option" where
  "normalizeColor raw =
     (case raw of
        None \<Rightarrow> None
      | Some c \<Rightarrow> if c = [] then None
                  else if starts_with c ''#'' \<or> hex_text 6 c \<or> hex_text 3 c then hexToHslTriplet c
                  else Some c)"

text \<open>The match of \<open>H S% L%\<close>: each group is followed by a character it cannot contain, so reading each as
  far as it goes finds the only match.\<close>

definition digits_then :: "string \<Rightarrow> (string \<times> string) option" where
  "digits_then s = (let d = takeWhile is_digit s in if d = [] then None else Some (d, dropWhile is_digit s))"

definition decimal_then :: "string \<Rightarrow> (string \<times> string) option" where
  "decimal_then s =
     (case digits_then s of
        None \<Rightarrow> None
      | Some (d, r) \<Rightarrow>
          if r \<noteq> [] \<and> hd r = CHR ''.'' then
            (case digits_then (tl r) of Some (f, r') \<Rightarrow> Some (d @ ''.'' @ f, r') | None \<Rightarrow> Some (d, r))
          else Some (d, r))"

definition spaces_then :: "string \<Rightarrow> string option" where
  "spaces_then s = (if s \<noteq> [] \<and> is_space (hd s) then Some (dropWhile is_space s) else None)"

definition percent_then :: "string \<Rightarrow> string option" where
  "percent_then s = (if s \<noteq> [] \<and> hd s = CHR ''%'' then Some (tl s) else None)"

definition match_triplet :: "string \<Rightarrow> (string \<times> string \<times> string) option" where
  "match_triplet t =
     Option.bind (decimal_then t) (\<lambda>(h, r1).
     Option.bind (spaces_then r1) (\<lambda>r2.
     Option.bind (digits_then r2) (\<lambda>(s, r3).
     Option.bind (percent_then r3) (\<lambda>r4.
     Option.bind (spaces_then r4) (\<lambda>r5.
     Option.bind (digits_then r5) (\<lambda>(l, r6).
     Option.bind (percent_then r6) (\<lambda>r7. if r7 = [] then Some (h, s, l) else None)))))))"

definition int_text :: "string \<Rightarrow> jsn" where
  "int_text d = num_of_bigint (digits_value d)"

definition darkenHsl :: "string \<Rightarrow> jsn \<Rightarrow> string" where
  "darkenHsl hsl amount =
     (case match_triplet hsl of
        None \<Rightarrow> hsl
      | Some (h, s, l) \<Rightarrow> h @ '' '' @ s @ ''% '' @ num_to_string (jmax 0 (int_text l - amount)) @ ''%'')"

definition getOutcomeHslValues :: "market_labels option \<Rightarrow> outcome \<Rightarrow> string option" where
  "getOutcomeHslValues m s =
     normalizeColor (cleanString (map_option (case s of OYes \<Rightarrow> ml_hexColorYes | ONo \<Rightarrow> ml_hexColorNo) m))"

definition getOutcomeColorVars :: "market_labels option \<Rightarrow> (string \<times> string) list" where
  "getOutcomeColorVars m =
     (case getOutcomeHslValues m OYes of
        Some a \<Rightarrow> if a = [] then [] else [(''--outcome-a'', a), (''--color-outcome-a'', ''hsl('' @ a @ '')'')]
      | None \<Rightarrow> [])
     @ (case getOutcomeHslValues m ONo of
          Some b \<Rightarrow> if b = [] then [] else [(''--outcome-b'', b), (''--color-outcome-b'', ''hsl('' @ b @ '')'')]
        | None \<Rightarrow> [])"

definition hue2rgb :: "jsn \<Rightarrow> jsn \<Rightarrow> jsn \<Rightarrow> jsn" where
  "hue2rgb p q t0 =
     (let t1 = (if t0 < 0 then t0 + 1 else t0); t = (if t1 > 1 then t1 - 1 else t1)
      in if t < lit 1 / lit 6 then p + (q - p) * lit 6 * t
         else if t < lit 1 / lit 2 then q
         else if t < lit 2 / lit 3 then p + (q - p) * (lit 2 / lit 3 - t) * lit 6
         else p)"

definition hslLuminance :: "(jsn \<Rightarrow> jsn \<Rightarrow> jsn) \<Rightarrow> string \<Rightarrow> jsn" where
  "hslLuminance pow hsl =
     (case match_triplet hsl of
        None \<Rightarrow> 0
      | Some (ht, st, lt) \<Rightarrow>
          (let h = parse_float ht / lit 360; s = int_text st / lit 100; l = int_text lt / lit 100;
               q = (if l < lit (1 / 2) then l * (1 + s) else l + s - l * s);
               p = lit 2 * l - q;
               r = (if js_eq s 0 then l else hue2rgb p q (h + lit 1 / lit 3));
               g = (if js_eq s 0 then l else hue2rgb p q h);
               b = (if js_eq s 0 then l else hue2rgb p q (h - lit 1 / lit 3));
               lin = (\<lambda>c. if c \<le> lit (3928 / 10 ^ 5) then c / lit (1292 / 100)
                          else pow ((c + lit (55 / 1000)) / lit (1055 / 1000)) (lit (24 / 10)))
           in lit (2126 / 10 ^ 4) * lin r + lit (7152 / 10 ^ 4) * lin g + lit (722 / 10 ^ 4) * lin b))"

definition getOutcomeContrastColor :: "(jsn \<Rightarrow> jsn \<Rightarrow> jsn) \<Rightarrow> string option \<Rightarrow> string option" where
  "getOutcomeContrastColor pow hsl =
     (case hsl of
        None \<Rightarrow> None
      | Some c \<Rightarrow> if c = [] then None
                  else Some (if hslLuminance pow c > lit (1 / 2) then ''hsl(0 0% 8%)'' else ''hsl(0 0% 100%)''))"

definition getOutcomeButtonStyle ::
  "(jsn \<Rightarrow> jsn \<Rightarrow> jsn) \<Rightarrow> string option \<Rightarrow> (string \<times> string option) list option" where
  "getOutcomeButtonStyle pow hsl =
     (case hsl of
        None \<Rightarrow> None
      | Some c \<Rightarrow> if c = [] then None
                  else Some [(''background'', Some (''linear-gradient(to bottom, hsl('' @ c @ ''), hsl('' @ darkenHsl c (lit 12) @ ''))'')),
                             (''borderColor'', Some (''hsl('' @ c @ '')'')),
                             (''boxShadow'', Some (''0 10px 15px -3px hsl('' @ c @ '' / 0.3)'')),
                             (''color'', getOutcomeContrastColor pow (Some c))])"

section \<open>The last trade\<close>

record last_trade =
  lt_price :: "jsn option"
  lt_atMs :: "jsn option"
  lt_loading :: bool

definition LOOKBACK_MS :: int where "LOOKBACK_MS = 30 * 24 * 60 * 60 * 1000"
definition POLL_MS :: int where "POLL_MS = 15000"

definition newer_trade :: "jsn \<times> jsn option \<Rightarrow> jsn \<times> jsn \<Rightarrow> jsn \<times> jsn option" where
  "newer_trade best tp =
     (let (t, p) = tp in
      if is_finite t \<and> is_finite p \<and> 0 < p \<and> p < 1 \<and> fst best < t then (t, Some p) else best)"

text \<open>A price missing beside its time is \<open>undefined\<close>, which is not finite.\<close>

definition trade_points :: "int list \<Rightarrow> jsn list \<Rightarrow> (jsn \<times> jsn) list" where
  "trade_points ts ps = zip (map num_of_bigint ts) (ps @ replicate (length ts - length ps) JNaN)"

definition fetchLast_done :: "string + int list \<times> jsn list \<Rightarrow> last_trade \<Rightarrow> last_trade" where
  "fetchLast_done reply s =
     (case reply of
        Inl err \<Rightarrow> s\<lparr>lt_loading := False\<rparr>
      | Inr (ts, ps) \<Rightarrow>
          (let (bestT, bestP) = foldl newer_trade (JNInf, None) (trade_points ts ps)
           in \<lparr>lt_price = bestP, lt_atMs = (if bestP \<noteq> None then Some bestT else None), lt_loading = False\<rparr>))"

section \<open>The audit trail\<close>

record AuditMatch =
  am_sequenceNumber :: jsn
  am_consensusTimestamp :: string
  am_tradeIds :: "string list"
  am_isUserMatch :: bool

record mirror_message =
  mm_sequence_number :: jsn
  mm_consensus_timestamp :: string
  mm_message :: string

record mirror_page =
  mp_messages :: "mirror_message list option"
  mp_next :: "string option"

text \<open>\<open>atob\<close>: white space is dropped, a complete text may end in padding, and anything else is an error.\<close>

definition atob_body :: "string \<Rightarrow> string" where
  "atob_body s =
     (let t = filter (\<lambda>c. code_of c \<notin> {9, 10, 12, 13, 32}) s in
      if length t mod 4 = 0 then
        (if ends_with t ''=='' then take (length t - 2) t
         else if ends_with t ''='' then take (length t - 1) t else t)
      else t)"

definition atob :: "string \<Rightarrow> string option" where
  "atob s =
     (let t = atob_body s in
      if length t mod 4 = 1 \<or> \<not> list_all (\<lambda>c. b64_value c \<noteq> None) t then None
      else Some (map char_of (base64_decode (t @ replicate ((4 - length t mod 4) mod 4) (CHR ''='')))))"

text \<open>\<open>String(v)\<close> of a JSON value; in an array's text \<open>null\<close> is empty.\<close>

fun comma_join :: "string list \<Rightarrow> string" where
  "comma_join [] = []"
| "comma_join [s] = s"
| "comma_join (s # t # ss) = s @ '','' @ comma_join (t # ss)"

fun json_text :: "json \<Rightarrow> string" where
  "json_text JsonNull = ''null''"
| "json_text (JsonBool b) = (if b then ''true'' else ''false'')"
| "json_text (JsonNum x) = num_to_string x"
| "json_text (JsonStr s) = s"
| "json_text (JsonArr js) = comma_join (map (\<lambda>j. if j = JsonNull then [] else json_text j) js)"
| "json_text (JsonObj _) = ''[object Object]''"

definition decodeMessage :: "string \<Rightarrow> string list" where
  "decodeMessage m =
     (case atob m of
        None \<Rightarrow> []
      | Some t \<Rightarrow> (case json_parse t of Inr (JsonArr js) \<Rightarrow> map json_text js | _ \<Rightarrow> []))"

definition processMessages :: "string set \<Rightarrow> mirror_message list \<Rightarrow> AuditMatch list" where
  "processMessages userTxIds ms =
     filter (\<lambda>a. am_tradeIds a \<noteq> [])
       (map (\<lambda>m. let ids = decodeMessage (mm_message m) in
          \<lparr>am_sequenceNumber = mm_sequence_number m, am_consensusTimestamp = mm_consensus_timestamp m,
           am_tradeIds = ids, am_isUserMatch = list_ex (\<lambda>i. i \<in> userTxIds) ids\<rparr>) ms)"

record audit_state =
  au_matches :: "AuditMatch list"
  au_loading :: bool
  au_error :: "string option"
  au_next :: "string option"
  au_hasMore :: bool

definition initial_audit :: audit_state where
  "initial_audit = \<lparr>au_matches = [], au_loading = False, au_error = None, au_next = None, au_hasMore = True\<rparr>"

text \<open>\<open>fetchMessages\<close> up to the request, with the address it asks for; \<open>next\<close> is the link in the closure
  the call was made from.\<close>

definition fetch_start ::
  "string \<Rightarrow> string \<Rightarrow> string option \<Rightarrow> bool \<Rightarrow> audit_state \<Rightarrow> audit_state \<times> string option" where
  "fetch_start topicId baseUrl link onto s =
     (if topicId = [] \<or> baseUrl = [] then (s\<lparr>au_error := Some ''Audit trail not available for this network''\<rparr>, None)
      else (s\<lparr>au_loading := True, au_error := None\<rparr>,
            Some (case link of
                    Some l \<Rightarrow> if onto \<and> l \<noteq> [] then baseUrl @ l
                              else baseUrl @ ''/api/v1/topics/'' @ topicId @ ''/messages?limit=25&order=desc''
                  | None \<Rightarrow> baseUrl @ ''/api/v1/topics/'' @ topicId @ ''/messages?limit=25&order=desc'')))"

definition fetch_done ::
  "string set \<Rightarrow> bool \<Rightarrow> mirror_page http \<Rightarrow> audit_state \<Rightarrow> audit_state" where
  "fetch_done userTxIds onto reply s =
     (case reply of
        HttpOk page \<Rightarrow>
          (let new = processMessages userTxIds (case mp_messages page of Some ms \<Rightarrow> ms | None \<Rightarrow> []);
               link = (case mp_next page of Some l \<Rightarrow> if l = [] then None else Some l | None \<Rightarrow> None)
           in s\<lparr>au_matches := (if onto then au_matches s @ new else new),
                au_next := link, au_hasMore := (link \<noteq> None), au_loading := False\<rparr>)
      | HttpStatus n \<Rightarrow> s\<lparr>au_error := Some (''Mirror node returned '' @ string_of_int n), au_loading := False\<rparr>
      | HttpFail e \<Rightarrow> s\<lparr>au_error := Some (case th_message e of Some m \<Rightarrow> m | None \<Rightarrow> ''Failed to load audit trail''),
                        au_loading := False\<rparr>)"

definition refresh_start :: "string \<Rightarrow> string \<Rightarrow> audit_state \<Rightarrow> audit_state \<times> string option" where
  "refresh_start topicId baseUrl s =
     fetch_start topicId baseUrl (au_next s) False (s\<lparr>au_next := None, au_hasMore := True\<rparr>)"

definition loadMore_start :: "string \<Rightarrow> string \<Rightarrow> audit_state \<Rightarrow> audit_state \<times> string option" where
  "loadMore_start topicId baseUrl s =
     (if au_hasMore s \<and> \<not> au_loading s then fetch_start topicId baseUrl (au_next s) True s else (s, None))"

definition userMatches :: "audit_state \<Rightarrow> AuditMatch list" where
  "userMatches s = filter am_isUserMatch (au_matches s)"

definition hashScanTopicUrl :: "string \<Rightarrow> string \<Rightarrow> string option" where
  "hashScanTopicUrl net topicId =
     (if topicId = [] then None else Some (''https://hashscan.io/'' @ net @ ''/topic/'' @ topicId @ ''/messages''))"

definition getHashScanMessageUrl :: "string \<Rightarrow> string \<Rightarrow> string \<Rightarrow> string" where
  "getHashScanMessageUrl net topicId timestamp =
     ''https://hashscan.io/'' @ net @ ''/topic/'' @ topicId @ ''/'' @ timestamp"

section \<open>The user's position\<close>

record market_holding =
  mh_yes :: "int option"
  mh_no :: "int option"
  mh_priceUsd :: jsn
  mh_cost :: CostBasisFields

type_synonym holdings = "(string \<times> market_holding) list"

definition find_ci :: "holdings \<Rightarrow> string \<Rightarrow> market_holding option" where
  "find_ci hs mid =
     map_option snd (List.find (\<lambda>p. to_lower (fst p) = to_lower mid) (obj_entries hs))"

definition selectPosition :: "holdings \<Rightarrow> string \<Rightarrow> market_holding option" where
  "selectPosition hs mid =
     (case map_of hs mid of
        Some h \<Rightarrow> Some h
      | None \<Rightarrow>
          (case find_ci hs mid of
             Some h \<Rightarrow> Some h
           | None \<Rightarrow> if length (obj_entries hs) = 1 then Some (snd (hd (obj_entries hs))) else None))"

record position_state =
  ps_position :: "market_holding option"
  ps_loading :: bool
  ps_error :: "string option"
  ps_inFlight :: bool
  ps_emptyStreak :: int

definition EMPTY_STREAK_TO_CLEAR :: int where "EMPTY_STREAK_TO_CLEAR = 2"

text \<open>\<open>fetchPosition\<close> up to its first request, and whether it goes on; \<open>ready\<close> is a connected signer and a
  market.\<close>

definition fetchPosition_start :: "bool \<Rightarrow> position_state \<Rightarrow> position_state \<times> bool" where
  "fetchPosition_start ready s =
     (if \<not> ready then (s\<lparr>ps_emptyStreak := 0, ps_position := None\<rparr>, False)
      else if ps_inFlight s then (s, False)
      else (s\<lparr>ps_inFlight := True, ps_loading := True, ps_error := None\<rparr>, True))"

text \<open>The account, fetched when the wallet does not have it yet, then the filtered portfolio, then the whole
  one when the filtered one has no position.\<close>

definition lookup_position ::
  "string option \<Rightarrow> string attempt \<Rightarrow> (string \<Rightarrow> string \<Rightarrow> holdings option attempt) \<Rightarrow> string
    \<Rightarrow> market_holding option attempt" where
  "lookup_position known fetched portfolio mid =
     attempt_bind (case known of Some a \<Rightarrow> Inr a | None \<Rightarrow> fetched) (\<lambda>evm.
       (let evmAddress = to_lower (if starts_with evm ''0x'' then drop 2 evm else evm) in
        attempt_bind (portfolio evmAddress mid) (\<lambda>filtered.
          (case selectPosition (case filtered of Some hs \<Rightarrow> hs | None \<Rightarrow> []) mid of
             Some h \<Rightarrow> Inr (Some h)
           | None \<Rightarrow>
               attempt_bind (portfolio evmAddress []) (\<lambda>all.
                 (let hs = (case all of Some hs \<Rightarrow> hs | None \<Rightarrow> []) in
                  Inr (case map_of hs mid of Some h \<Rightarrow> Some h | None \<Rightarrow> find_ci hs mid)))))))"

definition fetchPosition_done :: "market_holding option attempt \<Rightarrow> position_state \<Rightarrow> position_state" where
  "fetchPosition_done reply s =
     (let s1 = (case reply of
                  Inr (Some h) \<Rightarrow> s\<lparr>ps_emptyStreak := 0, ps_position := Some h\<rparr>
                | Inr None \<Rightarrow>
                    (let streak = ps_emptyStreak s + 1 in
                     s\<lparr>ps_emptyStreak := streak,
                       ps_position := (if streak \<ge> EMPTY_STREAK_TO_CLEAR then None else ps_position s)\<rparr>)
                | Inl e \<Rightarrow> s\<lparr>ps_error := Some (case th_message e of Some m \<Rightarrow> m | None \<Rightarrow> ''Failed to fetch position'')\<rparr>)
      in s1\<lparr>ps_inFlight := False, ps_loading := False\<rparr>)"

record position_view =
  pv_qtyYes :: jsn
  pv_qtyNo :: jsn
  pv_avgPriceYes :: jsn
  pv_avgPriceNo :: jsn
  pv_hasPosition :: bool

definition first_defined :: "jsn option \<Rightarrow> jsn option \<Rightarrow> jsn" where
  "first_defined a b = (case a of Some x \<Rightarrow> x | None \<Rightarrow> (case b of Some y \<Rightarrow> y | None \<Rightarrow> 0))"

definition average_price :: "jsn option \<Rightarrow> jsn \<Rightarrow> jsn \<Rightarrow> jsn \<Rightarrow> jsn" where
  "average_price backend cost qty mark =
     (case backend of
        Some a \<Rightarrow> if truthy a \<and> a > 0 then a else if qty > 0 \<and> cost > 0 then cost / qty else mark
      | None \<Rightarrow> if qty > 0 \<and> cost > 0 then cost / qty else mark)"

definition position_values :: "market_holding option \<Rightarrow> nat \<Rightarrow> position_view" where
  "position_values pos usdcNdecimals =
     (let qty = (\<lambda>f. js_or (case Option.bind pos f of Some n \<Rightarrow> num_of_bigint n | None \<Rightarrow> JNaN) 0 / pow10 usdcNdecimals);
          qYes = qty mh_yes; qNo = qty mh_no;
          markYes = (case pos of Some h \<Rightarrow> mh_priceUsd h | None \<Rightarrow> lit (1 / 2));
          field = (\<lambda>f. Option.bind pos (\<lambda>h. f (mh_cost h)))
      in \<lparr>pv_qtyYes = qYes, pv_qtyNo = qNo,
          pv_avgPriceYes = average_price (field avgPriceYesUsd) (first_defined (field costBasisYesUsd) (field costBasisYes)) qYes markYes,
          pv_avgPriceNo = average_price (field avgPriceNoUsd) (first_defined (field costBasisNoUsd) (field costBasisNo)) qNo (1 - markYes),
          pv_hasPosition = (qYes > 0 \<or> qNo > 0)\<rparr>)"

section \<open>The visitor's country\<close>

datatype geo_status = GeoLoading | GeoOk | GeoError

definition normalizeCountry :: "string option \<Rightarrow> string option" where
  "normalizeCountry v =
     (case v of
        None \<Rightarrow> None
      | Some t \<Rightarrow> (let code = to_upper (trim t) in
                   if length code = 2 \<and> list_all (\<lambda>c. 65 \<le> code_of c \<and> code_of c \<le> 90) code then Some code else None))"

text \<open>A provider's answer: \<open>None\<close> when the request throws or times out, otherwise the status and the body.\<close>

definition fromCloudflare :: "(bool \<times> string) option \<Rightarrow> string option" where
  "fromCloudflare reply =
     (case reply of
        Some (True, text) \<Rightarrow>
          normalizeCountry (map_option (drop 4) (List.find (\<lambda>l. starts_with l ''loc='') (split_char (CHR 0x0A) text)))
      | _ \<Rightarrow> None)"

definition fromIpapi :: "(bool \<times> json) option \<Rightarrow> string option" where
  "fromIpapi reply =
     (case reply of
        Some (True, j) \<Rightarrow>
          normalizeCountry
            (case (case json_field ''country_code'' j of
                     None \<Rightarrow> json_field ''country'' j
                   | Some c \<Rightarrow> if c = JsonNull then json_field ''country'' j else Some c) of
               Some (JsonStr s) \<Rightarrow> Some s
             | _ \<Rightarrow> None)
      | _ \<Rightarrow> None)"

definition lookupCountry :: "(bool \<times> string) option \<Rightarrow> (bool \<times> json) option \<Rightarrow> string option" where
  "lookupCountry cf ip = (case fromCloudflare cf of Some c \<Rightarrow> Some c | None \<Rightarrow> fromIpapi ip)"

record geo =
  ge_country :: "string option"
  ge_status :: geo_status

definition geo_initial :: "string option \<Rightarrow> geo" where
  "geo_initial cached =
     (case normalizeCountry cached of
        Some c \<Rightarrow> \<lparr>ge_country = Some c, ge_status = GeoOk\<rparr>
      | None \<Rightarrow> \<lparr>ge_country = None, ge_status = GeoLoading\<rparr>)"

text \<open>The end of the lookup: the new state and what the session storage then holds; \<open>writable\<close> is false in a
  private window.\<close>

definition geo_done :: "bool \<Rightarrow> string option \<Rightarrow> string option \<Rightarrow> geo \<times> string option" where
  "geo_done writable found cached =
     (case found of
        Some c \<Rightarrow> (\<lparr>ge_country = Some c, ge_status = GeoOk\<rparr>, if writable then Some c else cached)
      | None \<Rightarrow> (\<lparr>ge_country = None, ge_status = GeoError\<rparr>, cached))"

section \<open>Published matches are read back\<close>

lemma b64_char_64:
  assumes "0 \<le> n" "n < 64"
  shows "b64_value (b64_char n) = Some n" "b64_char n \<noteq> CHR ''=''" "code_of (b64_char n) \<notin> {9, 10, 12, 13, 32}"
proof -
  show v: "b64_value (b64_char n) = Some n" using assms by simp
  show "b64_char n \<noteq> CHR ''=''" using v by (metis b64_value_pad option.distinct(1))
  show "code_of (b64_char n) \<notin> {9, 10, 12, 13, 32}" using v by (auto simp: b64_value_def Let_def split: if_splits)
qed

text \<open>The text of \<open>base64\<close>: characters of the alphabet, then the padding.\<close>

definition b64_text :: "char \<Rightarrow> bool" where
  "b64_text c \<longleftrightarrow> b64_value c \<noteq> None \<and> c \<noteq> CHR ''='' \<and> code_of c \<notin> {9, 10, 12, 13, 32}"

lemma b64_textI: "0 \<le> n \<Longrightarrow> n < 64 \<Longrightarrow> b64_text (b64_char n)"
  unfolding b64_text_def using b64_char_64 [of n] by blast

lemma base64_shape:
  assumes "is_bytes bs"
  shows "\<exists>t k. base64 bs = t @ replicate k (CHR ''='') \<and> k < 3 \<and> length t mod 4 = (4 - k) mod 4
    \<and> list_all b64_text t"
  using assms
proof (induction bs rule: base64.induct)
  case (1 a b c bs)
  then obtain t k where t: "base64 bs = t @ replicate k (CHR ''='')" "k < 3" "length t mod 4 = (4 - k) mod 4"
    "list_all b64_text t" by (auto simp: is_bytes_def)
  from 1 have r: "0 \<le> a" "a < 256" "0 \<le> b" "b < 256" "0 \<le> c" "c < 256" by (simp_all add: is_bytes_def)
  note f = b64_split [OF r(1,3,4,5,6)] div4_byte [OF r(1,2)]
  let ?h = "[b64_char (a div 4), b64_char (a mod 4 * 16 + b div 16), b64_char (b mod 16 * 4 + c div 64), b64_char (c mod 64)]"
  have m: "0 \<le> c mod 64" "c mod 64 < 64" by simp_all
  note ch = b64_textI [OF conjunct1 [OF f(9)] conjunct2 [OF f(9)]] b64_textI [OF f(1,2)]
    b64_textI [OF f(5,6)] b64_textI [OF m]
  have "list_all b64_text ?h" by (simp only: list.pred_inject ch simp_thms)
  then have "list_all b64_text (?h @ t)" using t(4) by simp
  moreover have "length (?h @ t) mod 4 = (4 - k) mod 4"
  proof -
    have "length (?h @ t) = length t + 4" by simp
    then show ?thesis using t(3) by (simp only: mod_add_self2)
  qed
  moreover have "base64 (a # b # c # bs) = (?h @ t) @ replicate k (CHR ''='')" by (simp add: t(1))
  ultimately show ?case using t(2) by blast
next
  case (2 a b)
  then have r: "0 \<le> a" "a < 256" "0 \<le> b" "b < 256" by (simp_all add: is_bytes_def)
  note f = b64_split(1,2) [OF r(1,3,4), of 0, simplified] div4_byte [OF r(1,2)]
  have "0 \<le> b mod 16 * 4" "b mod 16 * 4 < 64" by auto
  from b64_textI [OF this] b64_textI [OF f(1,2)] f(3) show ?case
    by (intro exI [of _ "[b64_char (a div 4), b64_char (a mod 4 * 16 + b div 16), b64_char (b mod 16 * 4)]"]
        exI [of _ 1]) (simp add: b64_textI)
next
  case (3 a)
  then have "0 \<le> a" "a < 256" by (simp_all add: is_bytes_def)
  moreover have "0 \<le> a mod 4 * 16" "a mod 4 * 16 < 64" by auto
  ultimately show ?case using div4_byte [of a]
    by (intro exI [of _ "[b64_char (a div 4), b64_char (a mod 4 * 16)]"] exI [of _ 2])
      (simp add: b64_textI numeral_2_eq_2)
qed (intro exI [of _ "[]"] exI [of _ 0], simp)

lemma ends_with_snoc: "ends_with (s @ t) t"
  by (simp add: ends_with_def starts_with_def)

lemma atob_base64:
  assumes "is_bytes bs"
  shows "atob (base64 bs) = Some (map char_of bs)"
proof -
  obtain t k where t: "base64 bs = t @ replicate k (CHR ''='')" "k < 3" "length t mod 4 = (4 - k) mod 4"
    "list_all b64_text t"
    using base64_shape [OF assms] by blast
  have f: "filter (\<lambda>c. code_of c \<notin> {9, 10, 12, 13, 32}) (base64 bs) = base64 bs"
    (is "filter ?P _ = _")
  proof -
    have "?P (CHR ''='')" by (simp add: code_of_def)
    moreover have "filter ?P t = t"
      using t(4) unfolding list_all_iff b64_text_def by (intro filter_True) blast
    ultimately show ?thesis unfolding t(1) filter_append filter_replicate by (simp only: if_True not_False_eq_True)
  qed
  have l: "length (base64 bs) mod 4 = 0" by (simp add: length_base64)
  have "ends_with t ''='' = False \<and> ends_with t ''=='' = False \<and> ends_with (t @ ''='') ''=='' = False"
  proof (cases t rule: rev_cases)
    case (snoc u x)
    then have "x \<noteq> CHR ''=''" using t(4) by (simp add: b64_text_def)
    then show ?thesis by (simp only: snoc ends_with_def starts_with_def) simp
  qed (simp add: ends_with_def starts_with_def)
  then have e: "ends_with t ''='' = False" "ends_with t ''=='' = False" "ends_with (t @ ''='') ''=='' = False"
    by simp_all
  have body: "atob_body (base64 bs) =
      (if ends_with (base64 bs) ''=='' then take (length (base64 bs) - 2) (base64 bs)
       else if ends_with (base64 bs) ''='' then take (length (base64 bs) - 1) (base64 bs) else base64 bs)"
    unfolding atob_body_def f Let_def using l by simp
  have "atob_body (base64 bs) = t"
  proof -
    consider "k = 0" | "k = 1" | "k = 2" using t(2) by linarith
    then show ?thesis
    proof cases
      case 1
      then show ?thesis unfolding body using e by (simp add: t(1))
    next
      case 2
      then show ?thesis unfolding body using e ends_with_snoc [of t "''=''"] by (simp add: t(1))
    next
      case 3
      then have d: "base64 bs = t @ ''==''" by (simp add: t(1) numeral_2_eq_2)
      show ?thesis unfolding body unfolding d using ends_with_snoc [of t "''==''"] by simp
    qed
  qed
  moreover have "(4 - length t mod 4) mod 4 = k" "length t mod 4 \<noteq> 1"
  proof -
    have "k = 0 \<or> k = 1 \<or> k = 2" using t(2) by linarith
    then show "(4 - length t mod 4) mod 4 = k" "length t mod 4 \<noteq> 1" by (elim disjE; simp add: t(3))+
  qed
  moreover have "list_all (\<lambda>c. b64_value c \<noteq> None) t" using t(4) by (auto simp: list_all_iff b64_text_def)
  ultimately show ?thesis
    using base64_decode_base64 [OF assms] by (simp add: atob_def Let_def t(1))
qed

text \<open>A JSON array of strings is read as it is written.\<close>

definition json_array_text :: "string list \<Rightarrow> string" where
  "json_array_text ids = CHR 0x5B # json_join (map json_string ids) @ [CHR 0x5D]"

lemma skip_ws_mark [simp]:
  "skip_ws (CHR '','' # r) = CHR '','' # r" "skip_ws (CHR 0x5D # r) = CHR 0x5D # r"
  "skip_ws (CHR 0x5B # r) = CHR 0x5B # r" "skip_ws (CHR 0x22 # r) = CHR 0x22 # r" "skip_ws [] = []"
  by (simp_all add: skip_ws_def json_space_def code_of_def)

lemma json_value_string: "json_value (Suc n) (json_string s @ r) = Some (JsonStr s, r)"
proof -
  obtain u where u: "json_string s @ r = CHR 0x22 # u" by (simp add: json_string_def)
  show ?thesis using read_json_string [of s r] unfolding u by simp
qed

lemma json_items_step:
  "json_value n s = Some (j, CHR '','' # r) \<Longrightarrow>
   json_items (Suc n) s = map_option (\<lambda>(js, q). (j # js, q)) (json_items n r)"
  "json_value n s = Some (j, CHR 0x5D # r) \<Longrightarrow> json_items (Suc n) s = Some ([j], r)"
  by (simp_all del: json_value.simps)

lemma json_items_strings:
  "length ids < n \<Longrightarrow>
   json_items (Suc n) (json_join (map json_string (i # ids)) @ CHR 0x5D # r) = Some (map JsonStr (i # ids), r)"
proof (induction ids arbitrary: i n)
  case Nil
  then obtain m where "n = Suc m" by (cases n) auto
  then show ?case using json_items_step(2) [OF json_value_string [of m i]] by (simp del: json_items.simps)
next
  case (Cons k ids)
  then obtain m where m: "n = Suc m" "length ids < m" by (cases n) auto
  show ?case
    using json_items_step(1) [OF json_value_string [of m i]] Cons.IH [OF m(2), of k] m(1)
    by (simp add: json_join_Cons del: json_value.simps json_items.simps)
qed

lemma json_parse_strings: "json_parse (json_array_text ids) = Inr (JsonArr (map JsonStr ids))"
proof (cases ids)
  case Nil
  have "json_parse (json_array_text []) = Inr (JsonArr [])" by code_simp
  with Nil show ?thesis by simp
next
  case (Cons i ks)
  let ?s = "json_join (map json_string ids)"
  have len: "2 * length xs \<le> length (json_join (map json_string xs))" for xs
    by (induction xs) (auto simp: json_join_Cons json_string_def)
  have s: "\<exists>u. ?s = CHR 0x22 # u" by (simp add: Cons json_join_Cons json_string_def)
  have "json_items (Suc (2 * length ?s + 4)) (?s @ [CHR 0x5D]) = Some (map JsonStr ids, [])"
    using json_items_strings [of ks "2 * length ?s + 4" i "[]"] len [of ids] by (simp add: Cons)
  moreover have "json_value (Suc n) (CHR 0x5B # ?s @ [CHR 0x5D]) =
      map_option (\<lambda>(js, q). (JsonArr js, q)) (json_items n (?s @ [CHR 0x5D]))" for n
    using s by (auto simp del: json_items.simps)
  moreover have "2 * length (json_array_text ids) + 2 = Suc (Suc (2 * length ?s + 4))"
    by (simp add: json_array_text_def)
  ultimately show ?thesis unfolding json_parse_def by (simp only: json_array_text_def) simp
qed

lemma is_bytes_codes: "is_bytes (map code_of t)"
  using code_of_range by (simp add: is_bytes_def list_all_iff)

lemma decode_json: "decodeMessage (base64 (map code_of t)) =
    (case json_parse t of Inr (JsonArr js) \<Rightarrow> map json_text js | _ \<Rightarrow> [])"
  by (simp add: decodeMessage_def atob_base64 [OF is_bytes_codes] comp_def)

text \<open>What the server publishes for a settled match (\<open>PublishHCSmessage\<close> in
  \<open>src/api/server/services/settlementV2.go\<close>): the three identifiers in brackets, without quotes.\<close>

definition published_match :: "string \<Rightarrow> string \<Rightarrow> string \<Rightarrow> string" where
  "published_match bidTxId askTxId matchId' = ''['' @ bidTxId @ '','' @ askTxId @ '','' @ matchId' @ '']''"

text \<open>A numeral has at most two signs, an identifier four hyphens: reading a number inside an identifier
  stops inside it.\<close>

lemma digit_not_dash: "is_digit c \<Longrightarrow> c \<noteq> CHR ''-''"
  by (auto simp: is_digit_def code_of_def)

lemma count_digits: "count_list (takeWhile is_digit s) (CHR ''-'') = 0"
  by (induction s) (auto dest: digit_not_dash)

lemma read_frac_split:
  "read_frac s = Some (t, q) \<Longrightarrow> s = t @ q \<and> count_list t (CHR ''-'') = 0"
  by (auto simp: read_frac_def count_digits split: list.splits if_splits)

lemma read_exp_split:
  "read_exp s = Some (t, q) \<Longrightarrow> s = t @ q \<and> count_list t (CHR ''-'') \<le> 1"
  by (auto simp: read_exp_def Let_def count_digits split: list.splits if_splits)

lemma read_number_split:
  assumes "read_number s = Some (x, q)"
  shows "\<exists>t. s = t @ q \<and> count_list t (CHR ''-'') \<le> 2"
proof -
  define sg where "sg = (case s of c # _ \<Rightarrow> if c = CHR ''-'' then [c] else [] | [] \<Rightarrow> [])"
  define u where "u = drop (length sg) s"
  have sg: "s = sg @ u" "count_list sg (CHR ''-'') \<le> 1"
    by (auto simp: sg_def u_def split: list.splits)
  from assms obtain fp r' ep where f: "read_frac (dropWhile is_digit u) = Some (fp, r')" "read_exp r' = Some (ep, q)"
    unfolding read_number_def Let_def sg_def [symmetric] u_def [symmetric]
    by (auto split: if_splits option.splits)
  have "s = (sg @ takeWhile is_digit u @ fp @ ep) @ q"
    using sg(1) read_frac_split [OF f(1)] read_exp_split [OF f(2)]
    by (metis append.assoc takeWhile_dropWhile_id)
  moreover have "count_list (sg @ takeWhile is_digit u @ fp @ ep) (CHR ''-'') \<le> 2"
    using sg(2) read_frac_split [OF f(1)] read_exp_split [OF f(2)] by (simp add: count_digits)
  ultimately show ?thesis by blast
qed

definition uuid_text :: "string \<Rightarrow> bool" where
  "uuid_text u \<longleftrightarrow> list_all (\<lambda>c. is_hex c \<or> c = CHR ''-'') u
     \<and> 2 < count_list u (CHR ''-'')"

lemma hex_char_not:
  "is_hex c \<or> c = CHR ''-'' \<Longrightarrow> c \<noteq> CHR '','' \<and> c \<noteq> CHR 0x5D \<and> c \<noteq> CHR ''l'' \<and> \<not> json_space c"
  "is_hex c \<or> c = CHR ''-'' \<Longrightarrow> c \<noteq> CHR 0x22 \<and> c \<noteq> CHR 0x7B \<and> c \<noteq> CHR 0x5B \<and> c \<noteq> CHR ''t'' \<and> c \<noteq> CHR ''n''"
  by (auto simp: is_hex_def is_digit_def code_of_def json_space_def)

lemma uuid_not_json:
  assumes "uuid_text u" "json_value n (u @ r) = Some (j, q)"
  shows "\<exists>c q'. q = c # q' \<and> skip_ws q = q \<and> c \<noteq> CHR '','' \<and> c \<noteq> CHR 0x5D"
proof -
  obtain m where m: "n = Suc m" using assms(2) by (cases n) auto
  obtain c v where u: "u = c # v" "is_hex c \<or> c = CHR ''-''" using assms(1) by (cases u) (auto simp: uuid_text_def)
  have ws: "skip_ws (c # v @ r) = c # v @ r" using hex_char_not(1) [of c] u by (simp add: skip_ws_def)
  have len: "2 < length u" using assms(1) count_le_length [of u] by (auto simp: uuid_text_def intro: less_le_trans)
  have "\<not> starts_with (c # v @ r) ''false''"
  proof
    assume "starts_with (c # v @ r) ''false''"
    then have "take (length ''false'') (u @ r) = ''false''" by (simp only: starts_with_def u(1) append_Cons)
    then have "take (length ''false'') (u @ r) ! 2 = ''false'' ! 2" by (simp only:)
    moreover have "take (length ''false'') (u @ r) ! 2 = u ! 2" using len by (subst nth_take) (simp_all add: nth_append)
    ultimately have "u ! 2 = CHR ''l''" by simp
    moreover have "u ! 2 \<in> set u" using len by simp
    ultimately show False using assms(1) hex_char_not(1) [of "u ! 2"] by (auto simp: uuid_text_def list_all_iff)
  qed
  then have "map_option (\<lambda>(x, q). (JsonNum x, q)) (read_number (u @ r)) = Some (j, q)"
    using assms(2) hex_char_not(2) [OF u(2)] by (auto simp: m ws u(1) read_word_def split: if_splits)
  then obtain t where t: "u @ r = t @ q" "count_list t (CHR ''-'') \<le> 2"
    using read_number_split by (auto simp: map_option_case split: option.splits)
  have "length t < length u"
  proof (rule ccontr)
    assume "\<not> length t < length u"
    then obtain w where "t = u @ w" using t(1) by (metis append_eq_append_conv_if append_take_drop_id linorder_not_less)
    then have "count_list u (CHR ''-'') \<le> 2" using t(2) by simp
    then show False using assms(1) by (simp add: uuid_text_def)
  qed
  then obtain d w where w: "u = t @ d # w" "q = d # w @ r"
    using t(1) by (auto simp: append_eq_append_conv2) (metis Cons_eq_appendI append_Nil2 neq_Nil_conv not_less_iff_gr_or_eq)
  then have "is_hex d \<or> d = CHR ''-''" using assms(1) by (simp add: uuid_text_def)
  with hex_char_not(1) [of d] w show ?thesis by (simp add: skip_ws_def)
qed

lemma unquoted_not_parsed:
  assumes "uuid_text u"
  shows "json_parse (''['' @ u @ r) = Inl SyntaxError"
proof -
  obtain c v where u: "u = c # v" "is_hex c \<or> c = CHR ''-''" using assms by (cases u) (auto simp: uuid_text_def)
  have ws: "skip_ws (c # v @ r) = c # v @ r" using hex_char_not(1) [of c] u by (simp add: skip_ws_def)
  have items: "json_items n (u @ r) = None" for n
  proof (cases n)
    case (Suc m)
    show ?thesis
    proof (cases "json_value m (u @ r)")
      case (Some p)
      obtain j q where p: "p = (j, q)" by (cases p)
      from uuid_not_json [OF assms] Some p obtain d q' where "q = d # q'" "skip_ws q = q" "d \<noteq> CHR '',''" "d \<noteq> CHR 0x5D"
        by blast
      with Some p Suc show ?thesis by (auto simp del: json_value.simps)
    qed (simp add: Suc del: json_value.simps)
  qed simp
  have "json_value (Suc n) (''['' @ u @ r) = None" for n
    using items [of n] hex_char_not(1) [of c] u ws by (simp add: del: json_items.simps)
  then have "json_value n (''['' @ u @ r) = None" for n by (cases n) simp_all
  then show ?thesis unfolding json_parse_def by simp
qed

lemma valid_uuid_text:
  assumes "isValidUUIDv7 u"
  shows "uuid_text u"
proof -
  have hex: "is_hex_lower (lower_char c) \<Longrightarrow> is_hex c" for c
    by (auto simp: is_hex_lower_def is_hex_def is_digit_def lower_char_def code_of_def split: if_splits)
  have "length (filter (\<lambda>c. c \<noteq> CHR ''-'') u) + count_list u (CHR ''-'') = length u"
    by (induction u) auto
  then have "count_list u (CHR ''-'') = 4"
    using length_uuidv7 [OF assms] uuid_hex_part(2) [OF assms] by (simp add: remove_dashes_def)
  then show ?thesis
    using uuid_hex_part(1) [OF assms] hex by (auto simp: uuid_text_def list_all_iff remove_dashes_def)
qed

section \<open>The position shown\<close>

text \<open>What a sequence of answers should show: the last position reported, unless the two most recent
  answers that were not errors reported none.\<close>

definition answered :: "market_holding option attempt list \<Rightarrow> market_holding option list" where
  "answered rs = concat (map (\<lambda>r. case r of Inl _ \<Rightarrow> [] | Inr a \<Rightarrow> [a]) rs)"

definition trailing_empty :: "'a option list \<Rightarrow> nat" where
  "trailing_empty as = length (takeWhile (\<lambda>a. a = None) (rev as))"

definition shown_position :: "market_holding option \<Rightarrow> market_holding option list \<Rightarrow> market_holding option" where
  "shown_position p as =
     (if 2 \<le> trailing_empty as then None
      else (case dropWhile (\<lambda>a. a = None) (rev as) of [] \<Rightarrow> p | a # _ \<Rightarrow> a))"

lemma answered_snoc: "answered (rs @ [r]) = answered rs @ (case r of Inl _ \<Rightarrow> [] | Inr a \<Rightarrow> [a])"
  by (simp add: answered_def)

lemma position_run:
  assumes "ps_emptyStreak s = 0"
  shows "let s' = foldl (\<lambda>s r. fetchPosition_done r s) s rs in
    ps_emptyStreak s' = int (trailing_empty (answered rs))
    \<and> ps_position s' = shown_position (ps_position s) (answered rs)"
proof (induction rs rule: rev_induct)
  case Nil
  then show ?case using assms by (simp add: answered_def trailing_empty_def shown_position_def)
next
  case (snoc r rs)
  let ?s = "foldl (\<lambda>s r. fetchPosition_done r s) s rs"
  from snoc have IH: "ps_emptyStreak ?s = int (trailing_empty (answered rs))"
    "ps_position ?s = shown_position (ps_position s) (answered rs)" by (simp_all add: Let_def)
  show ?case
  proof (cases r)
    case (Inl e)
    with IH show ?thesis by (simp add: fetchPosition_done_def answered_snoc Let_def)
  next
    case (Inr a)
    show ?thesis
    proof (cases a)
      case None
      with Inr IH show ?thesis
        by (auto simp: fetchPosition_done_def answered_snoc Let_def trailing_empty_def shown_position_def
            EMPTY_STREAK_TO_CLEAR_def)
    next
      case (Some h)
      with Inr show ?thesis
        by (simp add: fetchPosition_done_def answered_snoc Let_def trailing_empty_def shown_position_def)
    qed
  qed
qed

section \<open>Properties\<close>

text \<open>A match published as a JSON array of identifiers in base64 is read back exactly, whatever the
  identifiers are, and it is marked as the user's exactly when one of the identifiers is.\<close>

theorem audit_message_roundtrip:
  assumes "mm_message m = base64 (map code_of (json_array_text ids))" "ids \<noteq> []"
  shows "processMessages mine [m] =
    [\<lparr>am_sequenceNumber = mm_sequence_number m, am_consensusTimestamp = mm_consensus_timestamp m,
      am_tradeIds = ids, am_isUserMatch = (set ids \<inter> mine \<noteq> {})\<rparr>]"
  using assms
  by (auto simp: processMessages_def decode_json json_parse_strings comp_def Let_def list_ex_iff)

theorem audit_message_roundtrip_witness:
  "am_tradeIds (hd (processMessages {''b''} [\<lparr>mm_sequence_number = JNum 1, mm_consensus_timestamp = ''2'',
      mm_message = base64 (map code_of (json_array_text [''a'', ''b'']))\<rparr>])) = [''a'', ''b'']"
  by (subst audit_message_roundtrip [where ids = "[''a'', ''b'']"]) simp_all

text \<open>No match the server publishes is ever shown in the audit trail: its message lists the identifiers
  without quotes, which is not JSON for any valid identifier, so the entry is dropped.\<close>

theorem published_matches_not_shown:
  assumes "isValidUUIDv7 bidTxId" "mm_message m = base64 (map code_of (published_match bidTxId askTxId i))"
  shows "processMessages mine [m] = []"
proof -
  have "json_parse (published_match bidTxId askTxId i) = Inl SyntaxError"
    using unquoted_not_parsed [OF valid_uuid_text [OF assms(1)], of "'','' @ askTxId @ '','' @ i @ '']''"]
    by (simp only: published_match_def append_assoc)
  then show ?thesis by (simp add: processMessages_def assms(2) decode_json)
qed

theorem published_matches_not_shown_witness:
  "processMessages {} [\<lparr>mm_sequence_number = JNum 1, mm_consensus_timestamp = ''2'',
      mm_message = base64 (map code_of (published_match ''01890f3e-7c10-7cc1-98bc-0242ac120002'' ''x'' ''y''))\<rparr>] = []"
  by (rule published_matches_not_shown [where bidTxId = "''01890f3e-7c10-7cc1-98bc-0242ac120002''"])
    (code_simp, simp)

text \<open>The position shown after any sequence of refreshes is the last one reported, through any number of
  failed requests, and disappears only after two answers in a row that report none.\<close>

theorem position_is_last_known:
  assumes "ps_emptyStreak s = 0"
  shows "ps_position (foldl (\<lambda>s r. fetchPosition_done r s) s rs) =
    shown_position (ps_position s) (answered rs)"
  using position_run [OF assms, of rs] by (simp add: Let_def)

theorem position_is_last_known_witness:
  "ps_position (foldl (\<lambda>s r. fetchPosition_done r s)
      \<lparr>ps_position = None, ps_loading = False, ps_error = None, ps_inFlight = False, ps_emptyStreak = 0\<rparr>
      [Inr (Some h), Inl (throw ''Failed to fetch''), Inr None]) = Some h"
  by (subst position_is_last_known) (simp_all add: answered_def shown_position_def trailing_empty_def)

text \<open>A portfolio with a single position, whatever its market, is taken for this market's.\<close>

lemma single_position_of_any_market:
  "selectPosition [(other, h)] mid = Some h"
  by (simp add: selectPosition_def find_ci_def obj_entries_def)

text \<open>When a refresh fails and more is loaded afterwards, the first page is appended to the old list.\<close>

lemma failed_refresh_repeats_first_page:
  assumes "topicId \<noteq> []" "baseUrl \<noteq> []" "\<not> au_loading s"
    and "refresh_start topicId baseUrl s = (s1, Some url)" "s2 = fetch_done mine False (HttpFail e) s1"
    and "loadMore_start topicId baseUrl s2 = (s3, url')"
    and "s4 = fetch_done mine True (HttpOk page) s3"
  shows "url' = Some url \<and> au_matches s4 = au_matches s
    @ processMessages mine (case mp_messages page of Some ms \<Rightarrow> ms | None \<Rightarrow> [])"
  using assms
  by (auto simp: refresh_start_def loadMore_start_def fetch_start_def fetch_done_def Let_def
      split: option.splits)

end
