(* ===== verification/SessionTimers.thy ===== *)
theory SessionTimers
  imports JsString
begin

text \<open>
  What keeps and ends a session: the token store of \<open>src/web/lib/authToken.ts\<close>, the 24-hour idle
  disconnect of \<open>useIdleDisconnect24h.ts\<close> and the 4-hour warning of \<open>useActivityTimeout.ts\<close>. A timer is
  the time it is due at, and firing it is a step; times are milliseconds.
\<close>

section \<open>The token store\<close>

text \<open>\<open>ts_available\<close> is false when the browser refuses the session storage; a refused read gives nothing and
  a refused write is ignored.\<close>

record token_store =
  ts_memory :: "string option"
  ts_session :: "string option"
  ts_local :: "string option"
  ts_available :: bool
  ts_localAvailable :: bool

definition set_text :: "string option \<Rightarrow> bool" where
  "set_text t \<longleftrightarrow> t \<noteq> None \<and> t \<noteq> Some []"

definition readSession :: "token_store \<Rightarrow> string option" where
  "readSession s = (if ts_available s then ts_session s else None)"

definition writeSession :: "string option \<Rightarrow> token_store \<Rightarrow> token_store" where
  "writeSession v s = (if ts_available s then s\<lparr>ts_session := v\<rparr> else s)"

definition migrate_legacy :: "token_store \<Rightarrow> token_store" where
  "migrate_legacy s =
     (if ts_localAvailable s \<and> set_text (ts_local s)
      then (writeSession (ts_local s) (s\<lparr>ts_memory := ts_local s\<rparr>))\<lparr>ts_local := None\<rparr> else s)"

definition getToken :: "token_store \<Rightarrow> token_store \<times> string option" where
  "getToken s =
     (if set_text (ts_memory s) then (s, ts_memory s)
      else (let s' = (if set_text (readSession s) then s\<lparr>ts_memory := readSession s\<rparr> else s)
            in (s', ts_memory s')))"

definition setToken :: "string \<Rightarrow> token_store \<Rightarrow> token_store" where
  "setToken jwt s = writeSession (Some jwt) (s\<lparr>ts_memory := Some jwt\<rparr>)"

definition clearToken :: "token_store \<Rightarrow> token_store" where
  "clearToken s =
     (let s' = writeSession None (s\<lparr>ts_memory := None\<rparr>)
      in if ts_localAvailable s' then s'\<lparr>ts_local := None\<rparr> else s')"

section \<open>The 24-hour idle disconnect\<close>

definition IDLE_LIMIT_MS :: int where "IDLE_LIMIT_MS = 24 * 60 * 60 * 1000"
definition THROTTLE_MS :: int where "THROTTLE_MS = 30 * 1000"

text \<open>One tab and the shared entry of the local storage. \<open>id_disconnects\<close> are the times at which the hook
  called \<open>onDisconnect\<close>.\<close>

record idle_tab =
  id_stored :: "string option"
  id_lastWrite :: int
  id_expiry :: "int option"
  id_hasMounted :: bool
  id_connected :: bool
  id_listening :: bool
  id_disconnects :: "int list"

definition initial_tab :: "string option \<Rightarrow> idle_tab" where
  "initial_tab stored = \<lparr>id_stored = stored, id_lastWrite = 0, id_expiry = None, id_hasMounted = False,
     id_connected = False, id_listening = False, id_disconnects = []\<rparr>"

definition readLastActivity :: "idle_tab \<Rightarrow> jsn option" where
  "readLastActivity s =
     (case id_stored s of
        None \<Rightarrow> None
      | Some raw \<Rightarrow> if raw = [] then None
                    else (let n = number_of_string raw in if is_finite n then Some n else None))"

definition triggerDisconnect :: "int \<Rightarrow> idle_tab \<Rightarrow> idle_tab" where
  "triggerDisconnect now s =
     s\<lparr>id_stored := None, id_expiry := None, id_disconnects := id_disconnects s @ [now]\<rparr>"

text \<open>The stored time is a whole number of milliseconds, as \<open>writeLastActivity\<close> leaves it; \<open>whole\<close> reads it.\<close>

definition whole :: "jsn \<Rightarrow> int" where
  "whole x = (case x of JNum a \<Rightarrow> \<lfloor>a\<rfloor> | _ \<Rightarrow> 0)"

definition scheduleExpiry :: "int \<Rightarrow> int \<Rightarrow> idle_tab \<Rightarrow> idle_tab" where
  "scheduleExpiry now lastActivityAt s =
     (let remaining = lastActivityAt + IDLE_LIMIT_MS - now in
      if remaining \<le> 0 then triggerDisconnect now s else s\<lparr>id_expiry := Some (now + remaining)\<rparr>)"

definition recordActivity :: "int \<Rightarrow> bool \<Rightarrow> idle_tab \<Rightarrow> idle_tab" where
  "recordActivity now force s =
     (if \<not> force \<and> now - id_lastWrite s < THROTTLE_MS then s
      else scheduleExpiry now now (s\<lparr>id_lastWrite := now, id_stored := Some (string_of_int now)\<rparr>))"

text \<open>The effect on \<open>isConnected\<close>, with the cleanup of the previous one. The early return of a session that
  is already too old installs no listeners.\<close>

definition connection_effect :: "int \<Rightarrow> bool \<Rightarrow> idle_tab \<Rightarrow> idle_tab" where
  "connection_effect now up s0 =
     (let s = s0\<lparr>id_expiry := None, id_connected := up, id_listening := False\<rparr>; fresh = id_hasMounted s;
          s1 = s\<lparr>id_hasMounted := True\<rparr>
      in if \<not> up then s1
         else (case readLastActivity s1 of
                 None \<Rightarrow> (recordActivity now True s1)\<lparr>id_listening := True\<rparr>
               | Some stored \<Rightarrow>
                   if fresh then (recordActivity now True s1)\<lparr>id_listening := True\<rparr>
                   else if now - whole stored > IDLE_LIMIT_MS then triggerDisconnect now s1
                   else (scheduleExpiry now (whole stored) s1)\<lparr>id_listening := True\<rparr>))"

definition handleVisibility :: "int \<Rightarrow> bool \<Rightarrow> idle_tab \<Rightarrow> idle_tab" where
  "handleVisibility now visible s =
     (if \<not> visible then s
      else (case readLastActivity s of
              None \<Rightarrow> s
            | Some l \<Rightarrow> if now - whole l > IDLE_LIMIT_MS then triggerDisconnect now s
                        else scheduleExpiry now (whole l) s))"

text \<open>What can happen to a tab: the listeners are only installed while it is connected, the expiry timer
  fires when it is due, and another tab records activity.\<close>

datatype idle_event =
  Activity | Visibility bool | ConnectionChanged bool | TimerDue | OtherTab

definition idle_step :: "int \<Rightarrow> idle_event \<Rightarrow> idle_tab \<Rightarrow> idle_tab" where
  "idle_step now e s =
     (case e of
        Activity \<Rightarrow> if id_listening s then recordActivity now False s else s
      | Visibility v \<Rightarrow> if id_listening s then handleVisibility now v s else s
      | ConnectionChanged c \<Rightarrow> if c = id_connected s then s else connection_effect now c s
      | TimerDue \<Rightarrow> (case id_expiry s of Some t \<Rightarrow> if t \<le> now then triggerDisconnect now s else s | None \<Rightarrow> s)
      | OtherTab \<Rightarrow> s\<lparr>id_stored := Some (string_of_int now)\<rparr>)"

section \<open>The 4-hour warning\<close>

definition INACTIVITY_TIMEOUT :: int where "INACTIVITY_TIMEOUT = 4 * 60 * 60 * 1000"
definition WARNING_COUNTDOWN :: nat where "WARNING_COUNTDOWN = 60"

record activity_state =
  ac_connected :: bool
  ac_warning :: bool
  ac_countdown :: nat
  ac_inactivity :: "int option"
  ac_tick :: "int option"
  ac_disconnects :: "int list"

definition initial_activity :: activity_state where
  "initial_activity = \<lparr>ac_connected = False, ac_warning = False, ac_countdown = WARNING_COUNTDOWN,
     ac_inactivity = None, ac_tick = None, ac_disconnects = []\<rparr>"

definition clearAllTimers :: "activity_state \<Rightarrow> activity_state" where
  "clearAllTimers s = s\<lparr>ac_inactivity := None, ac_tick := None\<rparr>"

definition startInactivityTimer :: "int \<Rightarrow> activity_state \<Rightarrow> activity_state" where
  "startInactivityTimer now s = s\<lparr>ac_inactivity := Some (now + INACTIVITY_TIMEOUT)\<rparr>"

text \<open>After a change of \<open>showTimeoutWarning\<close> or \<open>isConnected\<close> both effects run again: first their cleanups,
  which clear all timers, then the countdown's interval and the inactivity timer are set.\<close>

definition rerun_effects :: "int \<Rightarrow> activity_state \<Rightarrow> activity_state" where
  "rerun_effects now s0 =
     (let s = clearAllTimers s0; s1 = (if ac_warning s then s\<lparr>ac_tick := Some (now + 1000)\<rparr> else s)
      in if ac_connected s1 then startInactivityTimer now s1
         else (clearAllTimers s1)\<lparr>ac_warning := False, ac_countdown := WARNING_COUNTDOWN\<rparr>)"

definition resetActivity :: "int \<Rightarrow> activity_state \<Rightarrow> activity_state" where
  "resetActivity now s = (if ac_connected s \<and> \<not> ac_warning s then startInactivityTimer now s else s)"

definition warn :: "int \<Rightarrow> activity_state \<Rightarrow> activity_state" where
  "warn now s =
     (let s' = s\<lparr>ac_warning := True, ac_countdown := WARNING_COUNTDOWN, ac_inactivity := None\<rparr>
      in if ac_warning s then s' else rerun_effects now s')"

definition handleStayConnected :: "int \<Rightarrow> activity_state \<Rightarrow> activity_state" where
  "handleStayConnected now s =
     (let s' = startInactivityTimer now (s\<lparr>ac_warning := False, ac_countdown := WARNING_COUNTDOWN, ac_tick := None\<rparr>)
      in if ac_warning s then rerun_effects now s' else s')"

definition handleDisconnect :: "int \<Rightarrow> activity_state \<Rightarrow> activity_state" where
  "handleDisconnect now s =
     (clearAllTimers s)\<lparr>ac_warning := False, ac_countdown := WARNING_COUNTDOWN,
       ac_disconnects := ac_disconnects s @ [now], ac_connected := False\<rparr>"

text \<open>One second of the countdown; the interval goes on until the effect is cleaned up.\<close>

definition countdown_tick :: "int \<Rightarrow> activity_state \<Rightarrow> activity_state" where
  "countdown_tick now s =
     (if ac_countdown s \<le> 1 then handleDisconnect now s
      else s\<lparr>ac_countdown := ac_countdown s - 1, ac_tick := Some (now + 1000)\<rparr>)"

definition set_connected :: "int \<Rightarrow> bool \<Rightarrow> activity_state \<Rightarrow> activity_state" where
  "set_connected now c s = (if c = ac_connected s then s else rerun_effects now (s\<lparr>ac_connected := c\<rparr>))"

text \<open>The next timer that is due, and its step.\<close>

definition next_timer :: "activity_state \<Rightarrow> (int \<times> (int \<Rightarrow> activity_state \<Rightarrow> activity_state)) option" where
  "next_timer s =
     (case (ac_tick s, ac_inactivity s) of
        (Some t, Some i) \<Rightarrow> Some (if t \<le> i then (t, countdown_tick) else (i, warn))
      | (Some t, None) \<Rightarrow> Some (t, countdown_tick)
      | (None, Some i) \<Rightarrow> Some (i, warn)
      | (None, None) \<Rightarrow> None)"

fun run_timers :: "nat \<Rightarrow> activity_state \<Rightarrow> activity_state" where
  "run_timers 0 s = s"
| "run_timers (Suc n) s = (case next_timer s of None \<Rightarrow> s | Some (t, f) \<Rightarrow> run_timers n (f t s))"

section \<open>Tokens\<close>

lemma token_cleared: "snd (getToken (clearToken s)) = None"
  by (simp add: getToken_def clearToken_def writeSession_def readSession_def set_text_def Let_def)

lemma token_kept: "jwt \<noteq> [] \<Longrightarrow> snd (getToken (setToken jwt s)) = Some jwt"
  by (simp add: getToken_def setToken_def writeSession_def set_text_def)

lemma token_survives_reload:
  "jwt \<noteq> [] \<Longrightarrow> ts_available s \<Longrightarrow> snd (getToken ((setToken jwt s)\<lparr>ts_memory := None\<rparr>)) = Some jwt"
  by (simp add: getToken_def setToken_def writeSession_def readSession_def set_text_def)

section \<open>The idle limit\<close>

text \<open>A stored time reads back.\<close>

lemma read_written:
  assumes "0 \<le> t" "t < 2 ^ 53"
  shows "readLastActivity (s\<lparr>id_stored := Some (string_of_int t)\<rparr>) = Some (JNum (of_int t))"
proof -
  have d: "string_of_int t = digits 10 t" using assms(1) by (simp add: string_of_int_def)
  have "number_of_string (digits 10 t) = jsfin (of_int (digits_value (digits 10 t)))"
    using digits_10_is_digit [OF assms(1)] by (intro number_of_plain(2)) simp_all
  also have "digits_value (digits 10 t) = t"
    using digits_value_pad [OF assms(1), of 0] by (simp add: pad_start_def)
  finally show ?thesis using assms by (simp add: readLastActivity_def d jsfin_int)
qed

text \<open>\<open>b\<close> is a time the session is known to have been active at or after: the timer and the stored time
  respect it.\<close>

definition active_since :: "int \<Rightarrow> idle_tab \<Rightarrow> bool" where
  "active_since b s \<longleftrightarrow>
     (\<forall>t. id_expiry s = Some t \<longrightarrow> b + IDLE_LIMIT_MS \<le> t)
     \<and> (id_stored s = None \<or> (\<exists>l. id_stored s = Some (string_of_int l) \<and> b \<le> l \<and> 0 \<le> l \<and> l < 2 ^ 53))"

lemma active_since_mono: "active_since b s \<Longrightarrow> c \<le> b \<Longrightarrow> active_since c s"
  by (fastforce simp: active_since_def)

lemma active_listening [simp]: "active_since b (s\<lparr>id_listening := g\<rparr>) = active_since b s"
  by (simp add: active_since_def)

lemma active_read:
  assumes "active_since b s"
  shows "readLastActivity s = None \<or> (\<exists>l. readLastActivity s = Some (JNum (of_int l)) \<and> b \<le> l)"
proof -
  have r: "readLastActivity s = Some (JNum (of_int l))"
    if "id_stored s = Some (string_of_int l)" "0 \<le> l" "l < 2 ^ 53" for l
    using read_written [OF that(2,3), of s] that(1) by (simp add: readLastActivity_def)
  from assms consider "id_stored s = None"
    | l where "id_stored s = Some (string_of_int l)" "b \<le> l" "0 \<le> l" "l < 2 ^ 53"
    unfolding active_since_def by auto
  then show ?thesis
  proof cases
    case 1
    then show ?thesis by (simp add: readLastActivity_def)
  next
    case (2 l)
    with r [OF 2(1,3,4)] show ?thesis by blast
  qed
qed

lemma active_trigger: "active_since b s \<Longrightarrow> active_since b (triggerDisconnect now s)"
  by (simp add: active_since_def triggerDisconnect_def)

lemma active_schedule:
  "active_since b s \<Longrightarrow> b \<le> l \<Longrightarrow> active_since b (scheduleExpiry now l s)"
  by (auto simp: scheduleExpiry_def Let_def active_trigger) (auto simp: active_since_def)

lemma active_record:
  assumes "active_since b s" "b \<le> now" "0 \<le> now" "now < 2 ^ 53"
  shows "active_since b (recordActivity now force s)"
proof -
  have "active_since b (s\<lparr>id_lastWrite := now, id_stored := Some (string_of_int now)\<rparr>)"
    using assms by (auto simp: active_since_def)
  then show ?thesis using assms by (auto simp: recordActivity_def intro: active_schedule)
qed

lemma whole_int [simp]: "whole (JNum (of_int l)) = l"
  by (simp add: whole_def)

lemma active_step:
  assumes "active_since b s" "b \<le> now" "0 \<le> now" "now < 2 ^ 53"
  shows "active_since b (idle_step now e s)"
proof (cases e)
  case Activity
  then show ?thesis using active_record [OF assms] assms(1) by (simp add: idle_step_def)
next
  case (Visibility v)
  then show ?thesis using active_read [OF assms(1)] assms(1)
    by (auto simp: idle_step_def handleVisibility_def intro: active_trigger active_schedule)
next
  case (ConnectionChanged c)
  let ?s = "s\<lparr>id_expiry := None, id_connected := c, id_listening := False, id_hasMounted := True\<rparr>"
  have a: "active_since b ?s" using assms(1) by (simp add: active_since_def)
  with ConnectionChanged active_read [OF a] active_record [OF a assms(2-4)] assms(1) show ?thesis
    by (auto simp: idle_step_def connection_effect_def Let_def intro: active_trigger active_schedule)
next
  case TimerDue
  then show ?thesis using assms(1)
    by (auto simp: idle_step_def intro: active_trigger split: option.split)
next
  case OtherTab
  then show ?thesis using assms by (auto simp: idle_step_def active_since_def)
qed

text \<open>A disconnect only happens a whole limit later.\<close>

lemma record_no_disconnect: "id_disconnects (recordActivity now force s) = id_disconnects s"
  by (simp add: recordActivity_def scheduleExpiry_def Let_def IDLE_LIMIT_MS_def)

lemma schedule_disconnects:
  "id_disconnects (scheduleExpiry now l s) = id_disconnects s
    \<or> id_disconnects (scheduleExpiry now l s) = id_disconnects s @ [now] \<and> l + IDLE_LIMIT_MS \<le> now"
  by (auto simp: scheduleExpiry_def Let_def triggerDisconnect_def)

lemma disconnect_step:
  assumes "active_since b s" "0 \<le> now" "now < 2 ^ 53"
  shows "id_disconnects (idle_step now e s) = id_disconnects s
    \<or> id_disconnects (idle_step now e s) = id_disconnects s @ [now] \<and> b + IDLE_LIMIT_MS \<le> now"
proof (cases e)
  case Activity
  then show ?thesis by (simp add: idle_step_def record_no_disconnect)
next
  case (Visibility v)
  from active_read [OF assms(1)] consider "readLastActivity s = None"
    | l where "readLastActivity s = Some (JNum (of_int l))" "b \<le> l" by auto
  then show ?thesis
  proof cases
    case (2 l)
    then show ?thesis using Visibility schedule_disconnects [of now l s]
      by (auto simp: idle_step_def handleVisibility_def triggerDisconnect_def split: if_splits)
  qed (simp add: Visibility idle_step_def handleVisibility_def)
next
  case (ConnectionChanged c)
  let ?s = "s\<lparr>id_expiry := None, id_connected := c, id_listening := False, id_hasMounted := True\<rparr>"
  have a: "active_since b ?s" using assms(1) by (simp add: active_since_def)
  from active_read [OF a] consider "readLastActivity ?s = None"
    | l where "readLastActivity ?s = Some (JNum (of_int l))" "b \<le> l" by auto
  then show ?thesis
  proof cases
    case 1
    then show ?thesis using ConnectionChanged record_no_disconnect [of now True ?s]
      by (auto simp: idle_step_def connection_effect_def Let_def)
  next
    case (2 l)
    then show ?thesis
      using ConnectionChanged schedule_disconnects [of now l ?s] record_no_disconnect [of now True ?s]
      by (auto simp: idle_step_def connection_effect_def Let_def triggerDisconnect_def split: if_splits)
  qed
next
  case TimerDue
  then show ?thesis using assms(1)
    by (auto simp: idle_step_def triggerDisconnect_def active_since_def split: option.split)
next
  case OtherTab
  then show ?thesis by (simp add: idle_step_def)
qed

lemma last_write_step:
  assumes "active_since (id_lastWrite s) s" "id_lastWrite s \<le> now" "0 \<le> now" "now < 2 ^ 53"
  shows "active_since (id_lastWrite (idle_step now e s)) (idle_step now e s)
    \<and> id_lastWrite (idle_step now e s) \<le> now"
proof -
  have rec: "active_since (id_lastWrite (recordActivity now f q)) (recordActivity now f q)
      \<and> id_lastWrite (recordActivity now f q) \<le> now"
    if "active_since (id_lastWrite q) q" "id_lastWrite q \<le> now" for f q
    using that assms(3,4)
    by (auto simp: recordActivity_def scheduleExpiry_def Let_def IDLE_LIMIT_MS_def active_since_def)
  have same: "id_lastWrite (idle_step now e s) = id_lastWrite s
      \<or> (\<exists>f q g. idle_step now e s = (recordActivity now f q)\<lparr>id_listening := g\<rparr> \<and> active_since (id_lastWrite q) q \<and> id_lastWrite q \<le> now)"
  proof (cases e)
    case Activity
    then consider "idle_step now e s = s" | "idle_step now e s = recordActivity now False s"
      by (cases "id_listening s") (simp_all add: idle_step_def)
    then show ?thesis
    proof cases
      case 2
      have "recordActivity now False s
          = (recordActivity now False s)\<lparr>id_listening := id_listening (recordActivity now False s)\<rparr>" by simp
      with 2 show ?thesis using assms(1,2) by metis
    qed simp
  next
    case (ConnectionChanged c)
    let ?s = "s\<lparr>id_expiry := None, id_connected := c, id_listening := False, id_hasMounted := True\<rparr>"
    have "active_since (id_lastWrite ?s) ?s \<and> id_lastWrite ?s \<le> now"
      using assms(1,2) by (simp add: active_since_def)
    moreover have "idle_step now e s = (recordActivity now True ?s)\<lparr>id_listening := True\<rparr> \<or> id_lastWrite (idle_step now e s) = id_lastWrite s"
      using ConnectionChanged
      by (auto simp: idle_step_def connection_effect_def Let_def triggerDisconnect_def scheduleExpiry_def
          split: option.split)
    ultimately show ?thesis by blast
  qed (auto simp: idle_step_def handleVisibility_def triggerDisconnect_def scheduleExpiry_def Let_def
      split: option.split)
  with rec active_step [OF assms] assms(2) show ?thesis by auto
qed

definition idle_run :: "(int \<times> idle_event) list \<Rightarrow> idle_tab \<Rightarrow> idle_tab" where
  "idle_run evs s = foldl (\<lambda>s (now, e). idle_step now e s) s evs"

definition times_ok :: "(int \<times> idle_event) list \<Rightarrow> bool" where
  "times_ok evs \<longleftrightarrow> sorted (map fst evs) \<and> list_all (\<lambda>p. 0 \<le> fst p \<and> fst p < 2 ^ 53) evs"

lemma idle_run_simps [simp]:
  "idle_run [] s = s" "idle_run (ev # evs) s = idle_run evs (idle_step (fst ev) (snd ev) s)"
  "idle_run (evs @ evs') s = idle_run evs' (idle_run evs s)"
  by (simp_all add: idle_run_def case_prod_unfold)

lemma run_active:
  "active_since b s \<Longrightarrow> list_all (\<lambda>p. b \<le> fst p \<and> 0 \<le> fst p \<and> fst p < 2 ^ 53) evs \<Longrightarrow> active_since b (idle_run evs s)"
proof (induction evs arbitrary: s)
  case (Cons p evs)
  have "active_since b (idle_step (fst p) (snd p) s)"
    using Cons.prems by (intro active_step) auto
  then show ?case using Cons.prems(2) by (simp add: Cons.IH)
qed simp

lemma run_last_write:
  assumes "active_since (id_lastWrite s) s" "id_lastWrite s \<le> c" "sorted (c # map fst evs)"
    "list_all (\<lambda>p. 0 \<le> fst p \<and> fst p < 2 ^ 53) evs"
  shows "active_since (id_lastWrite (idle_run evs s)) (idle_run evs s)
    \<and> (\<forall>d. (\<forall>p\<in>set evs. fst p \<le> d) \<and> c \<le> d \<longrightarrow> id_lastWrite (idle_run evs s) \<le> d)"
  using assms
proof (induction evs arbitrary: s c)
  case (Cons p evs)
  have "active_since (id_lastWrite (idle_step (fst p) (snd p) s)) (idle_step (fst p) (snd p) s)
      \<and> id_lastWrite (idle_step (fst p) (snd p) s) \<le> fst p"
    using Cons.prems by (intro last_write_step) auto
  moreover from this have "active_since (id_lastWrite (idle_run evs (idle_step (fst p) (snd p) s)))
        (idle_run evs (idle_step (fst p) (snd p) s))
      \<and> (\<forall>d. (\<forall>q\<in>set evs. fst q \<le> d) \<and> fst p \<le> d \<longrightarrow>
             id_lastWrite (idle_run evs (idle_step (fst p) (snd p) s)) \<le> d)"
    using Cons.prems by (intro Cons.IH) auto
  ultimately show ?case by simp
qed auto

section \<open>Properties\<close>



text \<open>The timer of a background tab does not look at the shared time again: activity in another tab neither
  stops it nor keeps its own time stored.\<close>

lemma other_tab_activity_ignored:
  assumes "id_expiry s = Some t" "u < t"
  shows "id_disconnects (idle_run [(u, OtherTab), (t, TimerDue)] s) = id_disconnects s @ [t]
    \<and> id_stored (idle_run [(u, OtherTab), (t, TimerDue)] s) = None"
  using assms by (simp add: idle_step_def triggerDisconnect_def)

lemma countdown_run:
  assumes "ac_countdown s = Suc c" "ac_tick s = Some t" "ac_inactivity s = Some i" "t + 1000 * int c \<le> i"
  shows "ac_disconnects (run_timers (Suc c) s) = ac_disconnects s @ [t + 1000 * int c]
    \<and> \<not> ac_connected (run_timers (Suc c) s)"
  using assms
proof (induction c arbitrary: s t)
  case 0
  then show ?case by (simp add: next_timer_def countdown_tick_def handleDisconnect_def clearAllTimers_def)
next
  case (Suc c)
  then have n: "next_timer s = Some (t, countdown_tick)" by (simp add: next_timer_def)
  let ?s = "s\<lparr>ac_countdown := Suc c, ac_tick := Some (t + 1000)\<rparr>"
  have ct: "countdown_tick t s = ?s" using Suc.prems by (simp add: countdown_tick_def)
  have "run_timers (Suc (Suc c)) s = run_timers (Suc c) ?s"
    by (simp only: run_timers.simps(2) [of "Suc c" s] n option.case prod.case ct)
  moreover have "ac_disconnects (run_timers (Suc c) ?s) = ac_disconnects ?s @ [(t + 1000) + 1000 * int c]
      \<and> \<not> ac_connected (run_timers (Suc c) ?s)"
    using Suc.prems by (intro Suc.IH) simp_all
  ultimately show ?case by simp
qed

text \<open>A connected session in which nothing happens after its last activity is warned four hours later and
  ended 60 seconds after that, by the 61st timer that fires.\<close>

theorem idle_session_ends_after_warning:
  assumes "ac_connected s" "\<not> ac_warning s" "ac_tick s = None"
  shows "ac_disconnects (run_timers 61 (resetActivity u s)) =
      ac_disconnects s @ [u + INACTIVITY_TIMEOUT + 60 * 1000]
    \<and> \<not> ac_connected (run_timers 61 (resetActivity u s))"
proof -
  let ?i = "u + INACTIVITY_TIMEOUT"
  let ?w = "warn ?i (resetActivity u s)"
  have n: "next_timer (resetActivity u s) = Some (?i, warn)"
    using assms by (simp add: next_timer_def resetActivity_def startInactivityTimer_def)
  have w: "ac_countdown ?w = Suc 59" "ac_tick ?w = Some (?i + 1000)"
    "ac_inactivity ?w = Some (?i + INACTIVITY_TIMEOUT)" "ac_disconnects ?w = ac_disconnects s"
    using assms by (simp_all add: warn_def rerun_effects_def resetActivity_def startInactivityTimer_def
        clearAllTimers_def Let_def WARNING_COUNTDOWN_def)
  have "run_timers (Suc (Suc 59)) (resetActivity u s) = run_timers (Suc 59) ?w"
    by (simp only: run_timers.simps(2) [of "Suc 59"] n option.case prod.case)
  with countdown_run [OF w(1-3)] w(4) show ?thesis by (simp add: INACTIVITY_TIMEOUT_def)
qed

theorem idle_session_ends_after_warning_witness:
  "ac_disconnects (run_timers 61 (resetActivity 5 (set_connected 0 True initial_activity))) = [14460005]"
  by (subst idle_session_ends_after_warning [THEN conjunct1])
    (simp_all add: set_connected_def initial_activity_def rerun_effects_def startInactivityTimer_def
      clearAllTimers_def INACTIVITY_TIMEOUT_def)

end
