(* ===== verification/Clob.thy ===== *)
theory Clob
  imports Settlement
begin

text \<open>
  The matching engine, \<open>src/clob/src/matching.rs\<close>, and the service around it (\<open>orderbook.rs\<close>, \<open>nats.rs\<close>).
  A u64 is an integer below \<open>2 ^ 64\<close> with the wrap-around of a release build written out. The binary
  search of \<open>max_fill\<close> need not end at the top of that range, so \<open>max_fill\<close> and what calls it return an
  option, \<open>None\<close> when the call does not return.
\<close>

section \<open>Orders and integers\<close>

definition u64 :: "int \<Rightarrow> int" where "u64 x = x mod 2 ^ 64"
definition u64_max :: int where "u64_max = 2 ^ 64 - 1"

definition saturating_sub :: "int \<Rightarrow> int \<Rightarrow> int" where "saturating_sub a b = max 0 (a - b)"
definition saturating_add :: "int \<Rightarrow> int \<Rightarrow> int" where "saturating_add a b = min u64_max (a + b)"

definition DEADLINE_MARGIN_SECS :: int where "DEADLINE_MARGIN_SECS = 30"

text \<open>\<open>CreateOrderRequestClob\<close>; the signature, its key and the authorization's domain are carried along
  unread.\<close>

record clob_order =
  c_tx_id :: string
  c_net :: string
  c_market_id :: string
  c_account_id :: string
  c_sig :: string
  c_public_key :: string
  c_evm_address :: string
  c_key_type :: int
  c_chain_id :: int
  c_verifying_contract :: string
  c_side :: int
  c_action :: int
  c_limit_yes_price :: int
  c_qty_shares :: int
  c_collateral_cap :: int
  c_deadline :: int
  c_shares_filled :: int
  c_collateral_filled :: int

record clob_match =
  m_market_id :: string
  m_bid :: clob_order
  m_ask :: clob_order
  m_fill_shares :: int
  m_execution_yes_price :: int
  m_yes_collateral :: int
  m_no_collateral :: int

definition is_bid :: "clob_order \<Rightarrow> bool" where
  "is_bid order \<longleftrightarrow> (c_side order = SIDE_YES \<and> c_action order = ACTION_BUY)
     \<or> (c_side order = SIDE_NO \<and> c_action order = ACTION_SELL)"

definition remaining_shares :: "clob_order \<Rightarrow> int" where
  "remaining_shares order = saturating_sub (c_qty_shares order) (c_shares_filled order)"

section \<open>The size and price of a fill\<close>

definition yes_part :: "int \<Rightarrow> int \<Rightarrow> int" where
  "yes_part fill price = u64 (fill * price div PRICE_SCALE)"

definition split_collateral :: "int \<Rightarrow> int \<Rightarrow> (int \<times> int) option" where
  "split_collateral fill price =
     (if fill = 0 \<or> price = 0 \<or> price \<ge> PRICE_SCALE then None
      else (let yes = yes_part fill price; no = u64 (fill - yes)
            in if yes = 0 \<or> no = 0 then None else Some (yes, no)))"

definition order_leg :: "clob_order \<Rightarrow> int \<Rightarrow> int \<Rightarrow> int" where
  "order_leg order yes no = (if c_side order = SIDE_YES then yes else no)"

definition within_cap :: "clob_order \<Rightarrow> int \<Rightarrow> int \<Rightarrow> bool" where
  "within_cap order yes no \<longleftrightarrow>
     c_action order \<noteq> ACTION_BUY
     \<or> saturating_add (c_collateral_filled order) (order_leg order yes no) \<le> c_collateral_cap order"

definition caps_ok :: "clob_order \<Rightarrow> clob_order \<Rightarrow> int \<Rightarrow> int \<Rightarrow> bool" where
  "caps_ok bid ask price fill =
     (let yes = yes_part fill price; no = u64 (fill - yes) in within_cap bid yes no \<and> within_cap ask yes no)"

text \<open>The loop of \<open>max_fill\<close>: with \<open>lo = 0\<close> and \<open>hi = u64::MAX\<close> the midpoint wraps to 0 and the search does
  not move.\<close>

definition midpoint :: "int \<Rightarrow> int \<Rightarrow> int" where
  "midpoint lo hi = u64 (lo + u64 (hi - lo + 1) div 2)"

partial_function (option) search :: "(int \<Rightarrow> bool) \<Rightarrow> int \<Rightarrow> int \<Rightarrow> int option" where
  "search ok lo hi =
     (if lo < hi then
        if ok (midpoint lo hi) then search ok (midpoint lo hi) hi
        else search ok lo (u64 (midpoint lo hi - 1))
      else Some lo)"

declare search.simps [code]

definition max_fill :: "clob_order \<Rightarrow> clob_order \<Rightarrow> int \<Rightarrow> int \<Rightarrow> int option option" where
  "max_fill bid ask price upper =
     (if upper = 0 \<or> price = 0 \<or> price \<ge> PRICE_SCALE then Some None
      else (case search (caps_ok bid ask price) (if caps_ok bid ask price upper then upper else 0) upper of
              None \<Rightarrow> None
            | Some lo \<Rightarrow> Some (if split_collateral lo price = None then None else Some lo)))"

definition execution_price :: "clob_order \<Rightarrow> clob_order \<Rightarrow> int option" where
  "execution_price resting incoming =
     find (\<lambda>p. p > 0 \<and> p < PRICE_SCALE) [c_limit_yes_price resting, c_limit_yes_price incoming]"

fun trim_0x :: "string \<Rightarrow> string" where
  "trim_0x (a # b # s) = (if a = CHR ''0'' \<and> b = CHR ''x'' then trim_0x s else a # b # s)"
| "trim_0x s = s"

definition strip_address :: "string \<Rightarrow> string" where
  "strip_address s = to_lower (trim_0x s)"

definition same_trader :: "clob_order \<Rightarrow> clob_order \<Rightarrow> bool" where
  "same_trader a b \<longleftrightarrow>
     strip_address (c_evm_address a) = strip_address (c_evm_address b)
     \<or> to_lower (c_account_id a) = to_lower (c_account_id b)"

definition crosses :: "clob_order \<Rightarrow> clob_order \<Rightarrow> bool" where
  "crosses bid ask \<longleftrightarrow> c_limit_yes_price bid \<ge> c_limit_yes_price ask"

section \<open>The book\<close>

record book =
  b_bids :: "clob_order list"
  b_asks :: "clob_order list"

definition empty_book :: book where "empty_book = \<lparr>b_bids = [], b_asks = []\<rparr>"

definition past_deadline :: "int \<Rightarrow> clob_order \<Rightarrow> bool" where
  "past_deadline now o1 \<longleftrightarrow> c_deadline o1 \<le> u64 (now + DEADLINE_MARGIN_SECS)"

definition fill_order :: "int \<Rightarrow> int \<Rightarrow> int \<Rightarrow> clob_order \<Rightarrow> clob_order" where
  "fill_order fill yes no order =
     order\<lparr>c_shares_filled := u64 (c_shares_filled order + fill),
           c_collateral_filled := u64 (c_collateral_filled order + order_leg order yes no)\<rparr>"

definition bid_of :: "clob_order \<Rightarrow> clob_order \<Rightarrow> clob_order" where
  "bid_of incoming resting = (if is_bid incoming then incoming else resting)"
definition ask_of :: "clob_order \<Rightarrow> clob_order \<Rightarrow> clob_order" where
  "ask_of incoming resting = (if is_bid incoming then resting else incoming)"

definition new_match :: "clob_order \<Rightarrow> clob_order \<Rightarrow> int \<Rightarrow> int \<Rightarrow> int \<Rightarrow> int \<Rightarrow> clob_match" where
  "new_match incoming resting fill price yes no =
     \<lparr>m_market_id = c_market_id incoming, m_bid = bid_of incoming resting, m_ask = ask_of incoming resting,
      m_fill_shares = fill, m_execution_yes_price = price, m_yes_collateral = yes, m_no_collateral = no\<rparr>"

text \<open>What the loop does with one resting order: it is dropped, the walk ends, it is left alone, or it is
  filled. The outer option is \<open>None\<close> when the search for the fill does not end (or \<open>expect\<close> would panic).\<close>

datatype visit = Expired | Stop | Skip | Fill int int int int

definition visit :: "int \<Rightarrow> clob_order \<Rightarrow> clob_order \<Rightarrow> visit option" where
  "visit now incoming resting =
     (if past_deadline now resting then Some Expired
      else if \<not> crosses (bid_of incoming resting) (ask_of incoming resting) then Some Stop
      else if same_trader incoming resting then Some Skip
      else (case execution_price resting incoming of
              None \<Rightarrow> Some Skip
            | Some price \<Rightarrow>
               (case max_fill (bid_of incoming resting) (ask_of incoming resting) price
                       (min (remaining_shares incoming) (remaining_shares resting)) of
                  None \<Rightarrow> None
                | Some None \<Rightarrow> Some Skip
                | Some (Some fill) \<Rightarrow>
                    (case split_collateral fill price of
                       None \<Rightarrow> None
                     | Some (yes, no) \<Rightarrow> Some (Fill fill price yes no)))))"

text \<open>The \<open>while\<close> loop over the orders from index \<open>i\<close> on: the incoming order, the orders that stay and the
  matches.\<close>

fun match_loop ::
  "int \<Rightarrow> clob_order \<Rightarrow> clob_order list \<Rightarrow> (clob_order \<times> clob_order list \<times> clob_match list) option" where
  "match_loop now incoming [] = Some (incoming, [], [])"
| "match_loop now incoming (r # rs) =
     (if remaining_shares incoming \<le> 0 then Some (incoming, r # rs, [])
      else (case visit now incoming r of
              None \<Rightarrow> None
            | Some Expired \<Rightarrow> match_loop now incoming rs
            | Some Stop \<Rightarrow> Some (incoming, r # rs, [])
            | Some Skip \<Rightarrow>
                Option.bind (match_loop now incoming rs) (\<lambda>(i, ks, ms). Some (i, r # ks, ms))
            | Some (Fill fill price yes no) \<Rightarrow>
                (let r' = fill_order fill yes no r in
                 Option.bind (match_loop now (fill_order fill yes no incoming) rs)
                  (\<lambda>(i, ks, ms).
                    Some (i, if remaining_shares r' = 0 then ks else r' # ks,
                          new_match incoming r fill price yes no # ms)))))"

definition priority :: "clob_order \<Rightarrow> clob_order list \<Rightarrow> clob_order list" where
  "priority incoming opposite =
     (if is_bid incoming then sort_key c_limit_yes_price opposite
      else sort_key (\<lambda>o1. - c_limit_yes_price o1) opposite)"

definition book_add :: "clob_order \<Rightarrow> int \<Rightarrow> book \<Rightarrow> (book \<times> clob_match list) option" where
  "book_add incoming now b =
     (if past_deadline now incoming \<or> remaining_shares incoming = 0 then Some (b, [])
      else
        Option.bind (match_loop now incoming
            (priority incoming (if is_bid incoming then b_asks b else b_bids b)))
         (\<lambda>(inc, opposite, ms).
           (let rest = (if remaining_shares inc > 0 then [inc] else []) in
            Some (if is_bid incoming then \<lparr>b_bids = b_bids b @ rest, b_asks = opposite\<rparr>
                  else \<lparr>b_bids = opposite, b_asks = b_asks b @ rest\<rparr>, ms))))"

fun remove_tx :: "string \<Rightarrow> clob_order list \<Rightarrow> (clob_order list) option" where
  "remove_tx tx [] = None"
| "remove_tx tx (r # rs) = (if c_tx_id r = tx then Some rs else map_option ((#) r) (remove_tx tx rs))"

definition book_remove :: "string \<Rightarrow> book \<Rightarrow> book \<times> bool" where
  "book_remove tx b =
     (case remove_tx tx (b_bids b) of
        Some bs \<Rightarrow> (b\<lparr>b_bids := bs\<rparr>, True)
      | None \<Rightarrow> (case remove_tx tx (b_asks b) of
                  Some as1 \<Rightarrow> (b\<lparr>b_asks := as1\<rparr>, True)
                | None \<Rightarrow> (b, False)))"

definition book_orders :: "book \<Rightarrow> clob_order list" where
  "book_orders b = b_bids b @ b_asks b"

section \<open>The service\<close>

text \<open>The books by lower-cased market and the table of order ids, which is one for all markets. Where the
  code iterates over the hash map, its order is an argument.\<close>

record clob_service =
  s_books :: "string \<Rightarrow> book option"
  s_lut :: "string set"

definition new_service :: clob_service where
  "new_service = \<lparr>s_books = (\<lambda>_. None), s_lut = {}\<rparr>"

text \<open>\<open>add_market\<close> looks under a read lock and inserts under a write lock taken later.\<close>

definition add_market_known :: "string \<Rightarrow> clob_service \<Rightarrow> bool" where
  "add_market_known market s \<longleftrightarrow> s_books s (to_lower market) \<noteq> None"
definition add_market_insert :: "string \<Rightarrow> clob_service \<Rightarrow> clob_service" where
  "add_market_insert market s = s\<lparr>s_books := (s_books s)(to_lower market := Some empty_book)\<rparr>"
definition add_market :: "string \<Rightarrow> clob_service \<Rightarrow> clob_service \<times> bool" where
  "add_market market s = (if add_market_known market s then (s, False) else (add_market_insert market s, True))"

definition order_exists :: "string \<Rightarrow> clob_service \<Rightarrow> bool" where
  "order_exists tx s \<longleftrightarrow> tx \<in> s_lut s"

definition place_order ::
  "clob_order \<Rightarrow> int \<Rightarrow> clob_service \<Rightarrow> (string + clob_service \<times> clob_match list) option" where
  "place_order order now s =
     (case s_books s (to_lower (c_market_id order)) of
        None \<Rightarrow> Some (Inl ''Market not found'')
      | Some b \<Rightarrow>
          map_option (\<lambda>(b', ms).
            Inr (s\<lparr>s_books := (s_books s)(to_lower (c_market_id order) := Some b'),
                   s_lut := insert (c_tx_id order) (s_lut s)\<rparr>, ms))
           (book_add order now b))"

text \<open>One message from the stream, \<open>None\<close> when it is no order: is it acknowledged, and what it does. An
  unacknowledged message is delivered again.\<close>

definition deliver ::
  "clob_order option \<Rightarrow> int \<Rightarrow> clob_service \<Rightarrow> (bool \<times> clob_service \<times> clob_match list) option" where
  "deliver payload now s =
     (case payload of
        None \<Rightarrow> Some (True, s, [])
      | Some order \<Rightarrow>
          if order_exists (c_tx_id order) s then Some (True, s, [])
          else map_option (\<lambda>r. case r of Inl _ \<Rightarrow> (False, s, []) | Inr (s', ms) \<Rightarrow> (True, s', ms))
                (place_order order now s))"

definition cancel_resting :: "string \<Rightarrow> string \<Rightarrow> clob_service \<Rightarrow> string + clob_service \<times> bool" where
  "cancel_resting market tx s =
     (case s_books s (to_lower market) of
        None \<Rightarrow> Inl ''Market not found''
      | Some b \<Rightarrow> (let (b', found) = book_remove tx b
                   in Inr (s\<lparr>s_books := (s_books s)(to_lower market := Some b')\<rparr>, found)))"

definition close_market :: "string \<Rightarrow> clob_service \<Rightarrow> clob_service \<times> bool" where
  "close_market market s =
     (s\<lparr>s_books := (s_books s)(to_lower market := None)\<rparr>, s_books s (to_lower market) \<noteq> None)"

definition detail :: "clob_order \<Rightarrow> OrderDetail" where
  "detail order =
     \<lparr>od_txId = c_tx_id order, od_accountId = c_account_id order, od_limitYesPrice = c_limit_yes_price order,
      sharesRemaining = remaining_shares order, od_side = c_side order, od_action = c_action order\<rparr>"

definition book_snapshot :: "nat \<Rightarrow> book \<Rightarrow> BookSnapshot" where
  "book_snapshot depth b =
     (let cut = (\<lambda>os. if depth = 0 then os else take depth os) in
      \<lparr>sb_bids = map (AnyDetail \<circ> detail) (cut (sort_key (\<lambda>o1. - c_limit_yes_price o1) (b_bids b))),
       sb_asks = map (AnyDetail \<circ> detail) (cut (sort_key c_limit_yes_price (b_asks b)))\<rparr>)"

definition get_book :: "string \<Rightarrow> nat \<Rightarrow> clob_service \<Rightarrow> string + BookSnapshot" where
  "get_book market depth s =
     (case s_books s (to_lower market) of
        None \<Rightarrow> Inl ''Market not found'' | Some b \<Rightarrow> Inr (book_snapshot depth b))"

definition to_price :: "int option \<Rightarrow> jsn" where
  "to_price p = (case p of None \<Rightarrow> lit (1 / 2) | Some n \<Rightarrow> num_of_bigint n / lit 1000000)"

definition max_opt :: "int list \<Rightarrow> int option" where "max_opt xs = (if xs = [] then None else Some (Max (set xs)))"
definition min_opt :: "int list \<Rightarrow> int option" where "min_opt xs = (if xs = [] then None else Some (Min (set xs)))"

definition get_price_update :: "string \<Rightarrow> clob_service \<Rightarrow> string + jsn \<times> jsn" where
  "get_price_update market s =
     (case s_books s (to_lower market) of
        None \<Rightarrow> Inl (''Market not found '' @ market)
      | Some b \<Rightarrow> Inr (to_price (max_opt (map c_limit_yes_price (b_bids b))),
                      to_price (min_opt (map c_limit_yes_price (b_asks b)))))"

definition get_orders_for_user :: "string \<Rightarrow> string list \<Rightarrow> clob_service \<Rightarrow> clob_order list" where
  "get_orders_for_user addr keys s =
     (let wanted = strip_address addr in
      concat (map (\<lambda>k. case s_books s k of
          None \<Rightarrow> [] | Some b \<Rightarrow> filter (\<lambda>o1. strip_address (c_evm_address o1) = wanted) (book_orders b)) keys))"

definition pending_units :: "clob_order \<Rightarrow> int" where
  "pending_units order =
     (let token_price = (if c_side order = SIDE_YES then c_limit_yes_price order
                         else PRICE_SCALE - min (c_limit_yes_price order) PRICE_SCALE)
      in remaining_shares order * token_price div PRICE_SCALE)"

definition get_tv_pending_units :: "string list \<Rightarrow> clob_service \<Rightarrow> int" where
  "get_tv_pending_units keys s =
     sum_list (map (\<lambda>k. case s_books s k of
       None \<Rightarrow> 0 | Some b \<Rightarrow> sum_list (map pending_units (book_orders b))) keys)"

definition depth_sum :: "clob_order list \<Rightarrow> int" where
  "depth_sum os = foldl (\<lambda>acc o1. saturating_add acc (remaining_shares o1)) 0 os"

definition get_market_depth_shares :: "string \<Rightarrow> clob_service \<Rightarrow> string + int \<times> int" where
  "get_market_depth_shares market s =
     (case s_books s (to_lower market) of
        None \<Rightarrow> Inl (''Market not found '' @ market)
      | Some b \<Rightarrow> Inr (depth_sum (b_bids b), depth_sum (b_asks b)))"

text \<open>The id a match is published under, by which the stream drops a repeated publication, and the attempts
  to publish it: \<open>ok n\<close> says that the n-th one is acknowledged.\<close>

definition message_id :: "clob_match \<Rightarrow> string" where
  "message_id m =
     m_market_id m @ CHR '':'' # c_tx_id (m_bid m) @ CHR '':'' # c_tx_id (m_ask m) @ CHR '':'' #
       string_of_int (c_shares_filled (m_bid m)) @ CHR '':'' # string_of_int (c_shares_filled (m_ask m))"

definition publish_match_with_retry :: "(nat \<Rightarrow> bool) \<Rightarrow> bool \<times> int" where
  "publish_match_with_retry ok =
     (case find ok [1..<6] of
        Some n \<Rightarrow> (True, 200 * (2 ^ (n - 1) - 1))
      | None \<Rightarrow> (False, 200 * (2 ^ 5 - 1)))"

section \<open>The search for the fill\<close>

lemma u64_id: "0 \<le> x \<Longrightarrow> x < 2 ^ 64 \<Longrightarrow> u64 x = x"
  by (simp add: u64_def)

lemma u64_range: "0 \<le> u64 x" "u64 x < 2 ^ 64"
  by (simp_all add: u64_def)

text \<open>The split is the contract's: floor on the YES leg, the rest on the NO leg.\<close>

lemma split_is_contract:
  assumes "0 \<le> fill" "fill < 2 ^ 64" "0 < price" "price < PRICE_SCALE"
  shows "yes_part fill price = leg_collateral YES fill price"
    "u64 (fill - leg_collateral YES fill price) = leg_collateral NO fill price"
proof -
  have r: "0 \<le> leg_collateral YES fill price" "leg_collateral YES fill price \<le> fill"
    using assms by (auto intro: leg_collateral_range)
  then show "yes_part fill price = leg_collateral YES fill price"
    using assms by (simp add: yes_part_def leg_collateral_def u64_id)
  show "u64 (fill - leg_collateral YES fill price) = leg_collateral NO fill price"
    using r assms by (subst u64_id) (simp_all add: leg_collateral_def Let_def)
qed

lemma leg_collateral_mono:
  assumes "f \<le> g" "0 \<le> price" "price \<le> PRICE_SCALE"
  shows "leg_collateral s f price \<le> leg_collateral s g price"
proof -
  have "f * price div PRICE_SCALE \<le> g * price div PRICE_SCALE"
    using assms by (intro zdiv_mono1 mult_right_mono) (simp_all add: PRICE_SCALE_def)
  moreover have "g * price \<le> f * price + (g - f) * PRICE_SCALE"
    using mult_left_mono [of price PRICE_SCALE "g - f"] assms by (simp add: algebra_simps)
  then have "g * price div PRICE_SCALE \<le> (f * price + (g - f) * PRICE_SCALE) div PRICE_SCALE"
    by (intro zdiv_mono1) (simp_all add: PRICE_SCALE_def)
  then have "g * price div PRICE_SCALE \<le> f * price div PRICE_SCALE + (g - f)"
    by (simp add: PRICE_SCALE_def)
  ultimately show ?thesis by (simp add: leg_collateral_def Let_def)
qed

lemma caps_ok_contract:
  assumes "0 \<le> fill" "fill < 2 ^ 64" "0 < price" "price < PRICE_SCALE"
  shows "caps_ok bid ask price fill \<longleftrightarrow>
    within_cap bid (leg_collateral YES fill price) (leg_collateral NO fill price)
    \<and> within_cap ask (leg_collateral YES fill price) (leg_collateral NO fill price)"
  by (simp add: caps_ok_def Let_def split_is_contract [OF assms])

lemma within_cap_mono:
  "within_cap o1 yes no \<Longrightarrow> yes' \<le> yes \<Longrightarrow> no' \<le> no \<Longrightarrow> within_cap o1 yes' no'"
  by (auto simp: within_cap_def saturating_add_def order_leg_def)

lemma caps_ok_mono:
  assumes "caps_ok bid ask price g" "0 \<le> f" "f \<le> g" "g < 2 ^ 64" "0 < price" "price < PRICE_SCALE"
  shows "caps_ok bid ask price f"
  using assms
  by (auto simp: caps_ok_contract elim!: within_cap_mono intro!: leg_collateral_mono)

lemma split_collateral_contract:
  assumes "0 \<le> fill" "fill < 2 ^ 64" "0 < price" "price < PRICE_SCALE"
  shows "split_collateral fill price =
    (if leg_collateral YES fill price = 0 \<or> leg_collateral NO fill price = 0 then None
     else Some (leg_collateral YES fill price, leg_collateral NO fill price))"
proof -
  have "fill = 0 \<Longrightarrow> leg_collateral YES fill price = 0" by (simp add: leg_collateral_def)
  then show ?thesis using assms(3,4)
    by (auto simp: split_collateral_def Let_def split_is_contract [OF assms])
qed

lemma split_collateral_mono:
  assumes "split_collateral f price \<noteq> None" "0 \<le> f" "f \<le> g" "g < 2 ^ 64" "0 < price" "price < PRICE_SCALE"
  shows "split_collateral g price \<noteq> None"
proof -
  have r: "0 \<le> leg_collateral s f price" "leg_collateral s f price \<le> leg_collateral s g price" for s
    using assms by (auto intro!: leg_collateral_range leg_collateral_mono)
  have "leg_collateral s f price \<noteq> 0" for s
    using assms by (cases s) (auto simp: split_collateral_contract split: if_splits)
  with r have "leg_collateral s g price \<noteq> 0" for s
    by (metis order_antisym)
  then show ?thesis using assms by (simp add: split_collateral_contract)
qed

lemma midpoint_between:
  assumes "0 \<le> lo" "lo < hi" "hi < u64_max"
  shows "lo < midpoint lo hi" "midpoint lo hi \<le> hi"
proof -
  have "u64 (hi - lo + 1) = hi - lo + 1" using assms by (simp add: u64_id u64_max_def)
  moreover have "u64 (lo + (hi - lo + 1) div 2) = lo + (hi - lo + 1) div 2"
    using assms by (intro u64_id) (auto simp: u64_max_def)
  ultimately show "lo < midpoint lo hi" "midpoint lo hi \<le> hi"
    using assms by (simp_all add: midpoint_def)
qed

lemma search_finds_last:
  assumes "\<And>f g. 0 \<le> f \<Longrightarrow> f \<le> g \<Longrightarrow> g \<le> hi \<Longrightarrow> ok g \<Longrightarrow> ok f" "0 \<le> lo" "lo \<le> hi" "hi < u64_max"
  shows "\<exists>r. search ok lo hi = Some r \<and> lo \<le> r \<and> r \<le> hi \<and> (r = lo \<or> ok r) \<and> (\<forall>f. r < f \<and> f \<le> hi \<longrightarrow> \<not> ok f)"
  using assms
proof (induction "nat (hi - lo)" arbitrary: lo hi rule: less_induct)
  case less
  show ?case
  proof (cases "lo < hi")
    case False
    then show ?thesis using less.prems(3) by (subst search.simps) auto
  next
    case True
    let ?m = "midpoint lo hi"
    note m = midpoint_between [OF less.prems(2) True less.prems(4)]
    show ?thesis
    proof (cases "ok ?m")
      case ok: True
      have "\<exists>r. search ok ?m hi = Some r \<and> ?m \<le> r \<and> r \<le> hi \<and> (r = ?m \<or> ok r) \<and> (\<forall>f. r < f \<and> f \<le> hi \<longrightarrow> \<not> ok f)"
        by (rule less.hyps) (use less.prems m in auto)
      then show ?thesis using ok True m by (subst search.simps) auto
    next
      case no: False
      have u: "u64 (?m - 1) = ?m - 1" using m less.prems by (simp add: u64_id u64_max_def)
      have "\<exists>r. search ok lo (?m - 1) = Some r \<and> lo \<le> r \<and> r \<le> ?m - 1 \<and> (r = lo \<or> ok r)
          \<and> (\<forall>f. r < f \<and> f \<le> ?m - 1 \<longrightarrow> \<not> ok f)"
      proof (rule less.hyps)
        show "ok f" if "0 \<le> f" "f \<le> g" "g \<le> ?m - 1" "ok g" for f g
          using less.prems(1) [of f g] that m by simp
      qed (use less.prems m in auto)
      then obtain r where r: "search ok lo (?m - 1) = Some r" "lo \<le> r" "r \<le> ?m - 1" "r = lo \<or> ok r"
        "\<forall>f. r < f \<and> f \<le> ?m - 1 \<longrightarrow> \<not> ok f" by blast
      moreover have "\<not> ok f" if "?m \<le> f" "f \<le> hi" for f
        using less.prems(1) [of ?m f] that no m less.prems(2) by auto
      ultimately show ?thesis using no True m
        by (subst search.simps) (auto simp: u not_le [symmetric])
    qed
  qed
qed

text \<open>An executable fill: it pays both legs and keeps both caps.\<close>

definition fillable :: "clob_order \<Rightarrow> clob_order \<Rightarrow> int \<Rightarrow> int \<Rightarrow> bool" where
  "fillable bid ask price fill \<longleftrightarrow> split_collateral fill price \<noteq> None \<and> caps_ok bid ask price fill"

lemma max_fill_spec:
  assumes "0 \<le> upper" "upper < u64_max" "0 \<le> price"
  shows "\<exists>r. max_fill bid ask price upper = Some r
    \<and> (r = None \<longrightarrow> (\<forall>f. 0 \<le> f \<and> f \<le> upper \<longrightarrow> \<not> fillable bid ask price f))
    \<and> (\<forall>f. r = Some f \<longrightarrow> 0 < f \<and> f \<le> upper \<and> 0 < price \<and> price < PRICE_SCALE \<and> fillable bid ask price f
          \<and> (\<forall>g. 0 \<le> g \<and> g \<le> upper \<and> fillable bid ask price g \<longrightarrow> g \<le> f))"
proof (cases "upper = 0 \<or> price = 0 \<or> PRICE_SCALE \<le> price")
  case True
  then show ?thesis using assms by (auto simp: max_fill_def fillable_def split_collateral_def)
next
  case False
  then have p: "0 < price" "price < PRICE_SCALE" "0 < upper" using assms by auto
  let ?ok = "caps_ok bid ask price" and ?lo = "if caps_ok bid ask price upper then upper else 0"
  have b: "upper < 2 ^ 64" using assms(2) by (simp add: u64_max_def)
  have "\<exists>r. search ?ok ?lo upper = Some r \<and> ?lo \<le> r \<and> r \<le> upper \<and> (r = ?lo \<or> ?ok r)
      \<and> (\<forall>f. r < f \<and> f \<le> upper \<longrightarrow> \<not> ?ok f)"
  proof (rule search_finds_last)
    show "?ok f" if "0 \<le> f" "f \<le> g" "g \<le> upper" "?ok g" for f g
      using caps_ok_mono [OF that(4,1,2)] that b p by auto
  qed (use assms p in auto)
  then obtain r where r: "search ?ok ?lo upper = Some r" "?lo \<le> r" "r \<le> upper" "r = ?lo \<or> ?ok r"
    "\<forall>f. r < f \<and> f \<le> upper \<longrightarrow> \<not> ?ok f" by blast
  have r0: "0 \<le> r" using r(2) assms(1) by (auto split: if_splits)
  have ok: "?ok r" if "r \<noteq> 0" using r(4) that by (auto split: if_splits)
  have m: "max_fill bid ask price upper = Some (if split_collateral r price = None then None else Some r)"
    using False r(1) by (simp add: max_fill_def)
  show ?thesis
  proof (cases "split_collateral r price = None")
    case True
    have "\<not> fillable bid ask price f" if "0 \<le> f" "f \<le> upper" for f
      using split_collateral_mono [of f price r] True that r r0 b p
      by (cases "f \<le> r") (auto simp: fillable_def)
    then show ?thesis by (simp add: m True)
  next
    case False
    then have "r \<noteq> 0" by (auto simp: split_collateral_def)
    moreover have "g \<le> r" if "0 \<le> g" "g \<le> upper" "fillable bid ask price g" for g
      using r(5) that by (meson fillable_def not_le)
    ultimately show ?thesis using m False r r0 ok p by (simp add: fillable_def)
  qed
qed

section \<open>Orders while they are filled\<close>

text \<open>What the API guarantees of an order: sides and actions in range, a quantity that fits an i64, and a
  fill state the settlement could have produced.\<close>

definition order_ok :: "clob_order \<Rightarrow> bool" where
  "order_ok o1 \<longleftrightarrow>
     c_side o1 \<in> {SIDE_YES, SIDE_NO} \<and> c_action o1 \<in> {ACTION_BUY, ACTION_SELL} \<and> 0 \<le> c_limit_yes_price o1
     \<and> 0 \<le> c_shares_filled o1 \<and> c_shares_filled o1 \<le> c_qty_shares o1 \<and> c_qty_shares o1 < 2 ^ 63
     \<and> 0 \<le> c_collateral_filled o1 \<and> c_collateral_filled o1 \<le> c_shares_filled o1
     \<and> (c_action o1 = ACTION_BUY \<longrightarrow> c_collateral_filled o1 \<le> c_collateral_cap o1)"

definition leg_of :: "clob_order \<Rightarrow> int \<Rightarrow> int \<Rightarrow> int" where
  "leg_of o1 fill price = leg_collateral (if c_side o1 = SIDE_YES then YES else NO) fill price"

text \<open>The room an order has for a fill, and the pairs that could trade.\<close>

definition room :: "clob_order \<Rightarrow> int \<Rightarrow> int \<Rightarrow> bool" where
  "room o1 price fill \<longleftrightarrow>
     fill \<le> c_qty_shares o1 - c_shares_filled o1
     \<and> (c_action o1 = ACTION_BUY \<longrightarrow> c_collateral_filled o1 + leg_of o1 fill price \<le> c_collateral_cap o1)"

definition eligible :: "int \<Rightarrow> clob_order \<Rightarrow> clob_order \<Rightarrow> int \<Rightarrow> bool" where
  "eligible now incoming resting price \<longleftrightarrow>
     \<not> past_deadline now resting \<and> crosses (bid_of incoming resting) (ask_of incoming resting)
     \<and> \<not> same_trader incoming resting \<and> execution_price resting incoming = Some price"

definition executes :: "int \<Rightarrow> clob_order \<Rightarrow> clob_order \<Rightarrow> int \<Rightarrow> int \<Rightarrow> bool" where
  "executes now incoming resting price fill \<longleftrightarrow>
     eligible now incoming resting price \<and> 0 < fill \<and> 0 < price \<and> price < PRICE_SCALE
     \<and> leg_collateral YES fill price \<noteq> 0 \<and> leg_collateral NO fill price \<noteq> 0
     \<and> room incoming price fill \<and> room resting price fill"

lemma remaining_ok: "order_ok o1 \<Longrightarrow> remaining_shares o1 = c_qty_shares o1 - c_shares_filled o1"
  by (simp add: order_ok_def remaining_shares_def saturating_sub_def)

lemma order_leg_leg:
  "order_leg o1 (leg_collateral YES fill price) (leg_collateral NO fill price) = leg_of o1 fill price"
  by (simp add: order_leg_def leg_of_def)

lemma leg_of_range:
  "0 \<le> fill \<Longrightarrow> 0 < price \<Longrightarrow> price < PRICE_SCALE \<Longrightarrow> 0 \<le> leg_of o1 fill price \<and> leg_of o1 fill price \<le> fill"
  using leg_collateral_range [of fill price] by (simp add: leg_of_def)

text \<open>One more share costs each leg at most one unit more.\<close>

lemma leg_of_step:
  assumes "0 < price" "price < PRICE_SCALE"
  shows "leg_of o1 (fill + 1) price \<le> leg_of o1 fill price + 1"
proof -
  have m: "leg_collateral s fill price \<le> leg_collateral s (fill + 1) price" for s
    using assms by (intro leg_collateral_mono) simp_all
  have t: "leg_collateral YES f price + leg_collateral NO f price = f" for f
    by (simp add: leg_collateral_def Let_def)
  show ?thesis using m [of YES] m [of NO] t [of fill] t [of "fill + 1"] by (simp add: leg_of_def)
qed

lemma within_cap_ok:
  assumes "order_ok o1" "0 \<le> fill" "fill \<le> c_qty_shares o1 - c_shares_filled o1" "0 < price" "price < PRICE_SCALE"
  shows "within_cap o1 (leg_collateral YES fill price) (leg_collateral NO fill price) \<longleftrightarrow> room o1 price fill"
proof -
  have "saturating_add (c_collateral_filled o1) (leg_of o1 fill price) = c_collateral_filled o1 + leg_of o1 fill price"
    using assms leg_of_range [OF assms(2,4,5), of o1] by (simp add: saturating_add_def order_ok_def u64_max_def)
  then show ?thesis using assms(3) by (auto simp: within_cap_def order_leg_leg room_def)
qed

lemma bid_ask_of: "P (bid_of i r) \<and> P (ask_of i r) \<longleftrightarrow> P i \<and> P r"
  by (auto simp: bid_of_def ask_of_def)

lemma fillable_room:
  assumes "order_ok i" "order_ok r" "0 \<le> f" "0 < price" "price < PRICE_SCALE"
    and "f \<le> min (remaining_shares i) (remaining_shares r)"
  shows "fillable (bid_of i r) (ask_of i r) price f \<longleftrightarrow>
    0 < f \<and> leg_collateral YES f price \<noteq> 0 \<and> leg_collateral NO f price \<noteq> 0 \<and> room i price f \<and> room r price f"
proof -
  have b: "f < 2 ^ 64" "f \<le> c_qty_shares i - c_shares_filled i" "f \<le> c_qty_shares r - c_shares_filled r"
    using assms by (auto simp: remaining_ok) (auto simp: order_ok_def)
  have "caps_ok (bid_of i r) (ask_of i r) price f \<longleftrightarrow> room i price f \<and> room r price f"
    unfolding caps_ok_contract [OF assms(3) b(1) assms(4,5)]
    using bid_ask_of [of "\<lambda>o1. within_cap o1 (leg_collateral YES f price) (leg_collateral NO f price)" i r]
    by (simp add: within_cap_ok assms b)
  moreover have "leg_collateral YES f price \<noteq> 0 \<Longrightarrow> f \<noteq> 0" by (auto simp: leg_collateral_def)
  ultimately show ?thesis using assms(3)
    by (auto simp: fillable_def split_collateral_contract [OF assms(3) b(1) assms(4,5)])
qed

text \<open>A visit always has a result; it fills with the largest executable fill, and otherwise there is none.\<close>

lemma visit_spec:
  assumes "order_ok i" "order_ok r"
  shows "\<exists>v. visit now i r = Some v
    \<and> (v \<in> {Expired, Stop, Skip} \<longrightarrow> (\<forall>price fill. \<not> executes now i r price fill))
    \<and> (\<forall>f p y n. v = Fill f p y n \<longrightarrow>
         executes now i r p f \<and> y = leg_collateral YES f p \<and> n = leg_collateral NO f p
         \<and> (\<forall>g. executes now i r p g \<longrightarrow> g \<le> f))"
proof (cases "\<exists>price. eligible now i r price")
  case False
  then show ?thesis by (auto simp: visit_def executes_def eligible_def split: option.splits)
next
  case True
  then obtain price where e: "eligible now i r price" by blast
  then have ex: "execution_price r i = Some price" by (simp add: eligible_def)
  have nn: "0 \<le> price" using ex assms by (auto simp: execution_price_def order_ok_def split: if_splits)
  let ?u = "min (remaining_shares i) (remaining_shares r)"
  have u: "0 \<le> ?u" "?u < u64_max"
    using assms by (auto simp: remaining_ok) (auto simp: order_ok_def u64_max_def)
  have only: "eligible now i r p \<Longrightarrow> p = price" for p using ex by (simp add: eligible_def)
  have le: "executes now i r p g \<Longrightarrow> g \<le> ?u \<and> 0 < g" for p g
    using assms by (simp add: executes_def room_def remaining_ok)
  from max_fill_spec [OF u nn, of "bid_of i r" "ask_of i r"] obtain m where
    m: "max_fill (bid_of i r) (ask_of i r) price ?u = Some m"
      "m = None \<longrightarrow> (\<forall>f. 0 \<le> f \<and> f \<le> ?u \<longrightarrow> \<not> fillable (bid_of i r) (ask_of i r) price f)"
      "\<forall>f. m = Some f \<longrightarrow> 0 < f \<and> f \<le> ?u \<and> 0 < price \<and> price < PRICE_SCALE \<and> fillable (bid_of i r) (ask_of i r) price f
          \<and> (\<forall>g. 0 \<le> g \<and> g \<le> ?u \<and> fillable (bid_of i r) (ask_of i r) price g \<longrightarrow> g \<le> f)" by blast
  have fr: "executes now i r price g \<longleftrightarrow>
      0 < price \<and> price < PRICE_SCALE \<and> 0 \<le> g \<and> g \<le> ?u \<and> fillable (bid_of i r) (ask_of i r) price g" for g
    using fillable_room [OF assms, of g price] le [of price g] e by (auto simp: executes_def)
  show ?thesis
  proof (cases m)
    case None
    then have v: "visit now i r = Some Skip" using e m(1) by (simp add: visit_def eligible_def)
    have "\<not> executes now i r p g" for p g
      using m(2) None only [of p] fr [of g] by (auto simp: executes_def)
    then show ?thesis by (simp add: v)
  next
    case (Some f)
    with m(3) have f: "0 < f" "f \<le> ?u" "0 < price" "price < PRICE_SCALE" "executes now i r price f"
      using fr by auto
    have "f < 2 ^ 64" using f(2) u(2) by (auto simp: u64_max_def min_def split: if_splits)
    then have s: "split_collateral f price = Some (leg_collateral YES f price, leg_collateral NO f price)"
      using f by (simp add: split_collateral_contract executes_def)
    have v: "visit now i r = Some (Fill f price (leg_collateral YES f price) (leg_collateral NO f price))"
      using e m(1) Some s by (simp add: visit_def eligible_def)
    show ?thesis using v f(5) m(3) Some fr by (auto simp: v)
  qed
qed

text \<open>An order that was filled further: everything else is as it was.\<close>

definition advanced :: "clob_order \<Rightarrow> clob_order \<Rightarrow> bool" where
  "advanced o1 o2 \<longleftrightarrow>
     o2 = o1\<lparr>c_shares_filled := c_shares_filled o2, c_collateral_filled := c_collateral_filled o2\<rparr>
     \<and> c_shares_filled o1 \<le> c_shares_filled o2 \<and> c_collateral_filled o1 \<le> c_collateral_filled o2"

lemma advanced_refl [simp]: "advanced o1 o1"
  by (simp add: advanced_def)

lemma advanced_same:
  assumes "advanced o1 o2"
  shows "c_tx_id o2 = c_tx_id o1" "c_market_id o2 = c_market_id o1" "c_side o2 = c_side o1" "c_action o2 = c_action o1"
    "c_limit_yes_price o2 = c_limit_yes_price o1" "c_qty_shares o2 = c_qty_shares o1"
    "c_collateral_cap o2 = c_collateral_cap o1" "is_bid o2 = is_bid o1"
    "c_shares_filled o1 \<le> c_shares_filled o2" "c_collateral_filled o1 \<le> c_collateral_filled o2"
proof -
  obtain a b where o2: "o2 = o1\<lparr>c_shares_filled := a, c_collateral_filled := b\<rparr>"
    using assms unfolding advanced_def by blast
  show "c_tx_id o2 = c_tx_id o1" "c_market_id o2 = c_market_id o1" "c_side o2 = c_side o1" "c_action o2 = c_action o1"
    "c_limit_yes_price o2 = c_limit_yes_price o1" "c_qty_shares o2 = c_qty_shares o1"
    "c_collateral_cap o2 = c_collateral_cap o1" "is_bid o2 = is_bid o1"
    by (simp_all add: o2 is_bid_def)
  show "c_shares_filled o1 \<le> c_shares_filled o2" "c_collateral_filled o1 \<le> c_collateral_filled o2"
    using assms unfolding advanced_def by blast+
qed

lemma advanced_trans: "advanced o1 o2 \<Longrightarrow> advanced o2 o3 \<Longrightarrow> advanced o1 o3"
  unfolding advanced_def by (cases o1, cases o2, cases o3) auto

lemma advanced_eligible:
  assumes "advanced i i'" "advanced r r'"
  shows "eligible now i' r' price = eligible now i r price"
proof -
  obtain a b where i': "i' = i\<lparr>c_shares_filled := a, c_collateral_filled := b\<rparr>"
    using assms(1) unfolding advanced_def by blast
  obtain c d where r': "r' = r\<lparr>c_shares_filled := c, c_collateral_filled := d\<rparr>"
    using assms(2) unfolding advanced_def by blast
  show ?thesis
    by (simp add: eligible_def i' r' past_deadline_def crosses_def bid_of_def ask_of_def is_bid_def same_trader_def
        execution_price_def)
qed

lemma advanced_executes:
  assumes "advanced i i'" "advanced r r'" "executes now i' r' price fill"
  shows "executes now i r price fill"
proof -
  have "room o1 price fill" if "advanced o1 o2" "room o2 price fill" for o1 o2
    using that advanced_same [OF that(1)] by (auto simp: room_def leg_of_def)
  then show ?thesis using assms advanced_eligible [OF assms(1,2)] by (auto simp: executes_def)
qed

text \<open>Filling keeps the fill state consistent, with no wrap-around.\<close>

lemma fill_order_ok:
  assumes "order_ok o1" "0 < f" "0 < price" "price < PRICE_SCALE" "room o1 price f"
  shows "order_ok (fill_order f (leg_collateral YES f price) (leg_collateral NO f price) o1)"
    "advanced o1 (fill_order f (leg_collateral YES f price) (leg_collateral NO f price) o1)"
    "c_shares_filled (fill_order f (leg_collateral YES f price) (leg_collateral NO f price) o1) = c_shares_filled o1 + f"
    "c_collateral_filled (fill_order f (leg_collateral YES f price) (leg_collateral NO f price) o1)
      = c_collateral_filled o1 + leg_of o1 f price"
proof -
  have l: "0 \<le> leg_of o1 f price" "leg_of o1 f price \<le> f" using leg_of_range [of f price o1] assms by auto
  have u: "u64 (c_shares_filled o1 + f) = c_shares_filled o1 + f"
    "u64 (c_collateral_filled o1 + leg_of o1 f price) = c_collateral_filled o1 + leg_of o1 f price"
    using assms l by (auto intro!: u64_id simp: order_ok_def room_def)
  show s: "c_shares_filled (fill_order f (leg_collateral YES f price) (leg_collateral NO f price) o1) = c_shares_filled o1 + f"
    and c: "c_collateral_filled (fill_order f (leg_collateral YES f price) (leg_collateral NO f price) o1)
      = c_collateral_filled o1 + leg_of o1 f price"
    by (simp_all add: fill_order_def order_leg_leg u)
  show "order_ok (fill_order f (leg_collateral YES f price) (leg_collateral NO f price) o1)"
    using assms l by (auto simp: fill_order_def order_leg_leg u order_ok_def room_def)
  show "advanced o1 (fill_order f (leg_collateral YES f price) (leg_collateral NO f price) o1)"
    using l assms(2) by (simp add: advanced_def fill_order_def order_leg_leg u)
qed

text \<open>After the largest fill the two orders cannot trade again: either one is filled, or a cap is so near
  that one unit more of its leg does not fit.\<close>

lemma no_second_fill:
  assumes "order_ok i" "order_ok r" "executes now i r price f" "\<And>g. executes now i r price g \<Longrightarrow> g \<le> f"
  defines "y \<equiv> leg_collateral YES f price" and "n \<equiv> leg_collateral NO f price"
  shows "\<not> executes now (fill_order f y n i) (fill_order f y n r) p g"
proof
  assume g: "executes now (fill_order f y n i) (fill_order f y n r) p g"
  have e: "0 < f" "0 < price" "price < PRICE_SCALE" "room i price f" "room r price f" "eligible now i r price"
    using assms(3) by (auto simp: executes_def)
  have adv: "advanced i (fill_order f y n i)" "advanced r (fill_order f y n r)"
    using assms(1,2) e fill_order_ok(2) unfolding y_def n_def by blast+
  have p: "p = price" using g e(6) advanced_eligible [OF adv] by (auto simp: executes_def eligible_def)
  have more: "room o1 price (f + 1)" if "order_ok o1" "room o1 price f" "room (fill_order f y n o1) price g" for o1
  proof -
    note fo = fill_order_ok [OF that(1) e(1-3) that(2), folded y_def n_def]
    have same: "leg_of (fill_order f y n o1) g price = leg_of o1 g price"
      "c_action (fill_order f y n o1) = c_action o1" "c_qty_shares (fill_order f y n o1) = c_qty_shares o1"
      "c_collateral_cap (fill_order f y n o1) = c_collateral_cap o1"
      by (simp_all add: leg_of_def fill_order_def)
    have "1 \<le> g" "1 \<le> leg_of o1 g price"
      using g p leg_collateral_range [of g price] by (auto simp: executes_def leg_of_def) (smt (verit))+
    then show ?thesis
      using that(3) leg_of_step [OF e(2,3), of o1 f] by (auto simp: room_def fo same)
  qed
  have legs: "leg_collateral s (f + 1) price \<noteq> 0" for s
  proof -
    have "leg_collateral s f price \<noteq> 0" using assms(3) by (cases s) (auto simp: executes_def)
    moreover have "0 \<le> leg_collateral s f price" "leg_collateral s f price \<le> leg_collateral s (f + 1) price"
      using e by (auto intro: leg_collateral_range leg_collateral_mono)
    ultimately show ?thesis by linarith
  qed
  have "executes now i r price (f + 1)"
    using e legs g p more [of i] more [of r] assms(1,2) by (auto simp: executes_def)
  from assms(4) [OF this] show False by simp
qed

section \<open>The walk over the book\<close>

text \<open>The loop as a relation: the incoming order, the orders ahead of it, and what becomes of both.\<close>

inductive walk ::
  "int \<Rightarrow> clob_order \<Rightarrow> clob_order list \<Rightarrow> clob_order \<Rightarrow> clob_order list \<Rightarrow> clob_match list \<Rightarrow> bool" for now where
  walk_empty: "walk now i [] i [] []"
| walk_filled: "c_qty_shares i = c_shares_filled i \<Longrightarrow> walk now i rs i rs []"
| walk_stop: "\<not> past_deadline now r \<Longrightarrow> \<not> crosses (bid_of i r) (ask_of i r) \<Longrightarrow> walk now i (r # rs) i (r # rs) []"
| walk_expired: "past_deadline now r \<Longrightarrow> walk now i rs i' ks ms \<Longrightarrow> walk now i (r # rs) i' ks ms"
| walk_skip: "(\<And>p f. \<not> executes now i r p f) \<Longrightarrow> walk now i rs i' ks ms \<Longrightarrow> walk now i (r # rs) i' (r # ks) ms"
| walk_fill: "executes now i r p f \<Longrightarrow> (\<And>g. executes now i r p g \<Longrightarrow> g \<le> f) \<Longrightarrow>
    y = leg_collateral YES f p \<Longrightarrow> n = leg_collateral NO f p \<Longrightarrow>
    walk now (fill_order f y n i) rs i' ks ms \<Longrightarrow>
    walk now i (r # rs) i' (if remaining_shares (fill_order f y n r) = 0 then ks else fill_order f y n r # ks)
      (new_match i r f p y n # ms)"

lemma executes_room: "executes now i r p f \<Longrightarrow> 0 < f \<and> 0 < p \<and> p < PRICE_SCALE \<and> room i p f \<and> room r p f"
  by (simp add: executes_def)

lemma executes_ok:
  assumes "executes now i r p f" "y = leg_collateral YES f p" "n = leg_collateral NO f p"
  shows "order_ok i \<Longrightarrow> order_ok (fill_order f y n i)" "order_ok r \<Longrightarrow> order_ok (fill_order f y n r)"
    "order_ok i \<Longrightarrow> advanced i (fill_order f y n i)" "order_ok r \<Longrightarrow> advanced r (fill_order f y n r)"
    "order_ok i \<Longrightarrow> c_shares_filled (fill_order f y n i) = c_shares_filled i + f"
    "order_ok i \<Longrightarrow> c_collateral_filled (fill_order f y n i) = c_collateral_filled i + leg_of i f p"
  using executes_room [OF assms(1)] fill_order_ok assms(2,3) by auto

text \<open>The loop returns, and is the walk.\<close>

lemma match_loop_walk:
  assumes "order_ok i" "\<forall>r\<in>set rs. order_ok r"
  shows "\<exists>i' ks ms. match_loop now i rs = Some (i', ks, ms) \<and> walk now i rs i' ks ms"
  using assms
proof (induction rs arbitrary: i)
  case Nil
  then show ?case by (simp add: walk_empty)
next
  case (Cons r rs)
  show ?case
  proof (cases "remaining_shares i \<le> 0")
    case True
    then have "c_qty_shares i = c_shares_filled i"
      using Cons.prems(1) by (simp add: remaining_ok order_ok_def)
    with True show ?thesis by (simp add: walk_filled)
  next
    case False
    obtain v where v: "visit now i r = Some v"
      "v \<in> {Expired, Stop, Skip} \<longrightarrow> (\<forall>price fill. \<not> executes now i r price fill)"
      "\<forall>f p y n. v = Fill f p y n \<longrightarrow> executes now i r p f \<and> y = leg_collateral YES f p
         \<and> n = leg_collateral NO f p \<and> (\<forall>g. executes now i r p g \<longrightarrow> g \<le> f)"
      using visit_spec [of i r now] Cons.prems by auto
    show ?thesis
    proof (cases v)
      case Expired
      with v(1) have "past_deadline now r" by (auto simp: visit_def split: if_splits option.splits)
      then show ?thesis using Cons.IH [OF Cons.prems(1)] Cons.prems(2) Expired False v(1)
        by (auto intro: walk_expired)
    next
      case Stop
      with v(1) have "\<not> past_deadline now r" "\<not> crosses (bid_of i r) (ask_of i r)"
        by (auto simp: visit_def split: if_splits option.splits)
      then show ?thesis using Stop False v(1) by (auto intro: walk_stop)
    next
      case Skip
      then show ?thesis using Cons.IH [OF Cons.prems(1)] Cons.prems(2) False v(1,2)
        by (fastforce intro: walk_skip)
    next
      case (Fill f p y n)
      with v(3) have e: "executes now i r p f" "y = leg_collateral YES f p" "n = leg_collateral NO f p"
        "\<forall>g. executes now i r p g \<longrightarrow> g \<le> f" by auto
      obtain i' ks ms where "match_loop now (fill_order f y n i) rs = Some (i', ks, ms)"
        "walk now (fill_order f y n i) rs i' ks ms"
        using Cons.IH [OF executes_ok(1) [OF e(1-3) Cons.prems(1)]] Cons.prems(2) by auto
      then show ?thesis using Fill False v(1) walk_fill [OF e(1) _ e(2,3)] e(4) by (simp add: Let_def)
    qed
  qed
qed

lemma match_loopD:
  "match_loop now i rs = Some (i', ks, ms) \<Longrightarrow> order_ok i \<Longrightarrow> \<forall>r\<in>set rs. order_ok r \<Longrightarrow> walk now i rs i' ks ms"
  using match_loop_walk [of i rs now] by auto

text \<open>Orders stay consistent, and the walk only fills and drops.\<close>

lemma walk_ok:
  assumes "walk now i rs i' ks ms" "order_ok i" "\<forall>r\<in>set rs. order_ok r"
  shows "order_ok i' \<and> advanced i i'
    \<and> (\<forall>k\<in>set ks. order_ok k \<and> (\<exists>r\<in>set rs. advanced r k))
    \<and> ((\<forall>r\<in>set rs. 0 < remaining_shares r) \<longrightarrow> (\<forall>k\<in>set ks. 0 < remaining_shares k))"
  using assms
proof (induction rule: walk.induct)
  case (walk_fill i r p f y n rs i' ks ms)
  note e = executes_ok [OF walk_fill(1,3,4)]
  have ok: "order_ok i" "order_ok r" "\<forall>r\<in>set rs. order_ok r" using walk_fill.prems by simp_all
  note ih = walk_fill.IH [OF e(1) [OF ok(1)] ok(3)]
  have "advanced i i'" using ih e(3) [OF ok(1)] advanced_trans by blast
  moreover have "remaining_shares (fill_order f y n r) \<noteq> 0 \<Longrightarrow> 0 < remaining_shares (fill_order f y n r)"
    by (simp add: remaining_shares_def saturating_sub_def)
  ultimately show ?case using ih e(2,4) [OF ok(2)] by auto
next
  case (walk_expired r i rs i' ks ms)
  then have "order_ok i' \<and> advanced i i'
    \<and> (\<forall>k\<in>set ks. order_ok k \<and> (\<exists>r\<in>set rs. advanced r k))
    \<and> ((\<forall>r\<in>set rs. 0 < remaining_shares r) \<longrightarrow> (\<forall>k\<in>set ks. 0 < remaining_shares k))" by simp
  then show ?case by auto
next
  case (walk_skip i r rs i' ks ms)
  then have "order_ok i' \<and> advanced i i'
    \<and> (\<forall>k\<in>set ks. order_ok k \<and> (\<exists>r\<in>set rs. advanced r k))
    \<and> ((\<forall>r\<in>set rs. 0 < remaining_shares r) \<longrightarrow> (\<forall>k\<in>set ks. 0 < remaining_shares k))" by simp
  with walk_skip.prems(2) show ?case by auto
qed (auto intro: advanced_refl)

text \<open>Every match executes one resting order in the state the match records.\<close>

definition resting_of :: "clob_order \<Rightarrow> clob_match \<Rightarrow> clob_order" where
  "resting_of i m = (if is_bid i then m_ask m else m_bid m)"
definition incoming_of :: "clob_order \<Rightarrow> clob_match \<Rightarrow> clob_order" where
  "incoming_of i m = (if is_bid i then m_bid m else m_ask m)"

definition match_ok :: "int \<Rightarrow> clob_order \<Rightarrow> clob_match \<Rightarrow> bool" where
  "match_ok now i m \<longleftrightarrow>
     order_ok (incoming_of i m) \<and> advanced i (incoming_of i m) \<and> order_ok (resting_of i m)
     \<and> executes now (incoming_of i m) (resting_of i m) (m_execution_yes_price m) (m_fill_shares m)
     \<and> (\<forall>g. executes now (incoming_of i m) (resting_of i m) (m_execution_yes_price m) g \<longrightarrow> g \<le> m_fill_shares m)
     \<and> m_yes_collateral m = leg_collateral YES (m_fill_shares m) (m_execution_yes_price m)
     \<and> m_no_collateral m = leg_collateral NO (m_fill_shares m) (m_execution_yes_price m)
     \<and> m_market_id m = c_market_id i"

lemma of_new_match [simp]:
  "resting_of i (new_match i r f p y n) = r" "incoming_of i (new_match i r f p y n) = i"
  by (simp_all add: resting_of_def incoming_of_def new_match_def bid_of_def ask_of_def)

lemma of_advanced: "advanced i j \<Longrightarrow> resting_of j = resting_of i" "advanced i j \<Longrightarrow> incoming_of j = incoming_of i"
  using advanced_same(8) by (auto simp: resting_of_def incoming_of_def fun_eq_iff)

lemma walk_matches:
  assumes "walk now i rs i' ks ms" "order_ok i" "\<forall>r\<in>set rs. order_ok r"
  shows "subseq (map (resting_of i) ms) rs" "\<forall>m\<in>set ms. match_ok now i m"
    "c_shares_filled i' = c_shares_filled i + sum_list (map m_fill_shares ms)"
    "sorted_wrt (<) (map (\<lambda>m. c_shares_filled (incoming_of i m)) ms)
      \<and> (\<forall>m\<in>set ms. c_shares_filled i \<le> c_shares_filled (incoming_of i m))"
  using assms
proof (induction rule: walk.induct)
  case (walk_fill i r p f y n rs i' ks ms)
  note e = executes_ok [OF walk_fill(1,3,4)]
  let ?j = "fill_order f y n i"
  { case 1 then show ?case using walk_fill.IH(1) e(1,3) of_advanced [of i ?j] by simp }
  { case 2
    then have "\<forall>m\<in>set ms. match_ok now ?j m" "advanced i ?j" using walk_fill.IH(2) e(1,3) by auto
    then have "\<forall>m\<in>set ms. match_ok now i m"
      using of_advanced [of i ?j] advanced_same(2) [of i ?j] advanced_trans by (fastforce simp: match_ok_def)
    moreover have "match_ok now i (new_match i r f p y n)"
      using 2 walk_fill(1-4) by (auto simp: match_ok_def) (simp_all add: new_match_def)
    ultimately show ?case by simp }
  { case 3 then show ?case using walk_fill.IH(3) e(1,5) by (simp add: new_match_def) }
  { case 4
    then have "sorted_wrt (<) (map (\<lambda>m. c_shares_filled (incoming_of ?j m)) ms)
        \<and> (\<forall>m\<in>set ms. c_shares_filled ?j \<le> c_shares_filled (incoming_of ?j m))"
      using walk_fill.IH(4) e(1) by simp
    with 4 show ?case using e(3,5) of_advanced [of i ?j] executes_room [OF walk_fill(1)] by fastforce }
qed (auto intro: list_emb_Cons)

text \<open>A remainder of the incoming order meets nothing it could still trade with, provided the orders came
  best price first.\<close>

definition best_first :: "clob_order \<Rightarrow> clob_order list \<Rightarrow> bool" where
  "best_first i rs \<longleftrightarrow>
     sorted_wrt (\<lambda>r r'. crosses (bid_of i r') (ask_of i r') \<longrightarrow> crosses (bid_of i r) (ask_of i r)) rs"

lemma best_first_advanced: "advanced i j \<Longrightarrow> best_first j rs = best_first i rs"
  using advanced_same(5,8) [of i j]
  by (simp add: best_first_def crosses_def bid_of_def ask_of_def)

lemma walk_exhausts:
  assumes "walk now i rs i' ks ms" "order_ok i" "\<forall>r\<in>set rs. order_ok r" "best_first i rs" "0 < remaining_shares i'"
  shows "\<forall>k\<in>set ks. \<not> executes now i' k p f"
  using assms
proof (induction rule: walk.induct)
  case (walk_filled i rs)
  then show ?case by (simp add: remaining_ok)
next
  case (walk_stop r i rs)
  then show ?case by (auto simp: executes_def eligible_def best_first_def)
next
  case (walk_skip i r rs i' ks ms)
  then have "advanced i i'" using walk_ok [OF walk_skip(2)] by simp
  with walk_skip have "\<not> executes now i' r p f" using advanced_executes advanced_refl by blast
  with walk_skip show ?case by (simp add: best_first_def)
next
  case (walk_fill i r p1 f1 y n rs i' ks ms)
  note e = executes_ok [OF walk_fill(1,3,4)]
  let ?j = "fill_order f1 y n i"
  have j: "order_ok ?j" "advanced i ?j" "order_ok r" "\<forall>r\<in>set rs. order_ok r"
    using e(1,3) walk_fill.prems by auto
  have "best_first ?j rs" using walk_fill.prems(3) j(2) by (simp add: best_first_advanced) (simp add: best_first_def)
  then have ks: "\<forall>k\<in>set ks. \<not> executes now i' k p f" using walk_fill.IH j walk_fill.prems(4) by simp
  have "\<not> executes now ?j (fill_order f1 y n r) p f"
    using no_second_fill [OF walk_fill.prems(1) j(3) walk_fill(1,2)] walk_fill(3,4) by simp
  then have "\<not> executes now i' (fill_order f1 y n r) p f"
    using walk_ok [OF walk_fill(5) j(1,4)] advanced_executes advanced_refl by blast
  with ks show ?case by simp
qed (simp_all add: best_first_def)

section \<open>The book as a whole\<close>

definition book_ok :: "book \<Rightarrow> bool" where
  "book_ok b \<longleftrightarrow>
     (\<forall>o1\<in>set (b_bids b). order_ok o1 \<and> is_bid o1 \<and> 0 < remaining_shares o1)
     \<and> (\<forall>o1\<in>set (b_asks b). order_ok o1 \<and> \<not> is_bid o1 \<and> 0 < remaining_shares o1)"

definition opposite :: "clob_order \<Rightarrow> book \<Rightarrow> clob_order list" where
  "opposite i b = (if is_bid i then b_asks b else b_bids b)"

lemma priority_set [simp]: "set (priority i rs) = set rs"
  by (simp add: priority_def)

lemma priority_best_first: "best_first i (priority i rs)"
proof (cases "is_bid i")
  case True
  have "sorted_wrt (\<lambda>r r'. c_limit_yes_price r \<le> c_limit_yes_price r') (sort_key c_limit_yes_price rs)"
    using sorted_sort_key [of c_limit_yes_price rs] by (simp add: sorted_map)
  with True show ?thesis unfolding best_first_def priority_def
    by (auto elim!: sorted_wrt_mono_rel [rotated] simp: crosses_def bid_of_def ask_of_def)
next
  case False
  have "sorted_wrt (\<lambda>r r'. - c_limit_yes_price r \<le> - c_limit_yes_price r') (sort_key (\<lambda>o1. - c_limit_yes_price o1) rs)"
    using sorted_sort_key [of "\<lambda>o1. - c_limit_yes_price o1" rs] by (simp add: sorted_map)
  with False show ?thesis unfolding best_first_def priority_def
    by (auto elim!: sorted_wrt_mono_rel [rotated] simp: crosses_def bid_of_def ask_of_def)
qed

lemma opposite_ok:
  assumes "book_ok b" "r \<in> set (opposite i b)"
  shows "order_ok r \<and> is_bid r = (\<not> is_bid i) \<and> 0 < remaining_shares r"
  using assms by (auto simp: book_ok_def opposite_def split: if_splits)

text \<open>What an addition is: a refusal, or the walk over the other side and the remainder on its own.\<close>

lemma book_add_cases:
  assumes "order_ok i" "book_ok b"
  obtains (refused) "past_deadline now i \<or> remaining_shares i = 0" "book_add i now b = Some (b, [])"
  | (walked) i' ks ms where "\<not> past_deadline now i"
      "walk now i (priority i (opposite i b)) i' ks ms"
      "book_add i now b = Some (if is_bid i
         then \<lparr>b_bids = b_bids b @ (if 0 < remaining_shares i' then [i'] else []), b_asks = ks\<rparr>
         else \<lparr>b_bids = ks, b_asks = b_asks b @ (if 0 < remaining_shares i' then [i'] else [])\<rparr>, ms)"
proof (cases "past_deadline now i \<or> remaining_shares i = 0")
  case True
  with refused show ?thesis by (simp add: book_add_def)
next
  case False
  have "\<forall>r\<in>set (priority i (opposite i b)). order_ok r" using opposite_ok [OF assms(2)] by auto
  from match_loop_walk [OF assms(1) this, of now] obtain i' ks ms where
    "match_loop now i (priority i (opposite i b)) = Some (i', ks, ms)"
    "walk now i (priority i (opposite i b)) i' ks ms" by blast
  with False show ?thesis
    by (intro walked) (auto simp: book_add_def Let_def opposite_def)
qed

text \<open>Adding an order always returns, and keeps every order on its side, consistent and unfilled.\<close>

lemma book_add_ok:
  assumes "order_ok i" "book_ok b"
  shows "\<exists>b' ms. book_add i now b = Some (b', ms) \<and> book_ok b'"
  using assms
proof (cases rule: book_add_cases [where now = now])
  case (walked i' ks ms)
  have opp: "\<forall>r\<in>set (priority i (opposite i b)). order_ok r \<and> is_bid r = (\<not> is_bid i) \<and> 0 < remaining_shares r"
    using opposite_ok [OF assms(2), of _ i] by simp
  have w: "order_ok i' \<and> advanced i i'
    \<and> (\<forall>k\<in>set ks. order_ok k \<and> (\<exists>r\<in>set (priority i (opposite i b)). advanced r k))
    \<and> ((\<forall>r\<in>set (priority i (opposite i b)). 0 < remaining_shares r) \<longrightarrow> (\<forall>k\<in>set ks. 0 < remaining_shares k))"
    using walked(2) assms(1) opp by (intro walk_ok) auto
  have k: "order_ok k \<and> is_bid k = (\<not> is_bid i) \<and> 0 < remaining_shares k" if "k \<in> set ks" for k
    using w opp that advanced_same(8) by blast
  have "is_bid i' = is_bid i" using w advanced_same(8) by blast
  then show ?thesis using walked(3) assms(2) w k by (cases "is_bid i") (auto simp: book_ok_def)
qed (use assms(2) in simp)

lemma remove_tx_subset: "remove_tx tx os = Some os' \<Longrightarrow> set os' \<subseteq> set os"
  by (induction os arbitrary: os') (auto split: if_splits)

lemma book_remove_ok: "book_ok b \<Longrightarrow> book_ok (fst (book_remove tx b))"
  by (auto simp: book_remove_def book_ok_def dest!: remove_tx_subset split: option.split)

text \<open>The matches of an addition, and what stays beside a remainder.\<close>

lemma book_add_matches:
  assumes "order_ok i" "book_ok b" "book_add i now b = Some (b', ms)"
  shows "subseq (map (resting_of i) ms) (priority i (opposite i b))" "\<forall>m\<in>set ms. match_ok now i m"
    "sorted_wrt (<) (map (\<lambda>m. c_shares_filled (incoming_of i m)) ms)"
proof -
  have "subseq (map (resting_of i) ms) (priority i (opposite i b)) \<and> (\<forall>m\<in>set ms. match_ok now i m)
    \<and> sorted_wrt (<) (map (\<lambda>m. c_shares_filled (incoming_of i m)) ms)"
    using assms(1,2)
  proof (cases rule: book_add_cases [where now = now])
    case refused
    with assms(3) show ?thesis by simp
  next
    case (walked i' ks ms')
    have "\<forall>r\<in>set (priority i (opposite i b)). order_ok r" using opposite_ok [OF assms(2), of _ i] by simp
    with walk_matches [OF walked(2) assms(1)] walked(3) assms(3) show ?thesis by simp
  qed
  then show "subseq (map (resting_of i) ms) (priority i (opposite i b))" "\<forall>m\<in>set ms. match_ok now i m"
    "sorted_wrt (<) (map (\<lambda>m. c_shares_filled (incoming_of i m)) ms)" by blast+
qed

lemma book_add_exhausts:
  assumes "order_ok i" "book_ok b" "book_add i now b = Some (b', ms)" "\<not> past_deadline now i"
    and "advanced i j" "j \<in> set (b_bids b' @ b_asks b')" "j \<notin> set (b_bids b @ b_asks b)" "k \<in> set (opposite i b')"
  shows "\<not> executes now j k p f"
  using assms(1,2)
proof (cases rule: book_add_cases [where now = now])
  case refused
  with assms(3,6,7) show ?thesis by simp
next
  case (walked i' ks ms')
  have opp: "\<forall>r\<in>set (priority i (opposite i b)). order_ok r" using opposite_ok [OF assms(2), of _ i] by simp
  have k: "k \<in> set ks" using walked(3) assms(3,8) by (auto simp: opposite_def split: if_splits)
  have ks: "is_bid x = (\<not> is_bid i)" if "x \<in> set ks" for x
    using walk_ok [OF walked(2) assms(1) opp] that opposite_ok [OF assms(2), of _ i] advanced_same(8) by fastforce
  have "is_bid j = is_bid i" using assms(5) advanced_same(8) by blast
  with ks have "j \<notin> set ks" by blast
  then have "j = i' \<and> 0 < remaining_shares i'"
    using walked(3) assms(3,6,7) by (auto split: if_splits)
  with walk_exhausts [OF walked(2) assms(1) opp priority_best_first] k show ?thesis by blast
qed

section \<open>The contract's view of a match\<close>

text \<open>The authorization an order was signed with has the order's terms.\<close>

definition carries :: "Authorization \<Rightarrow> clob_order \<Rightarrow> bool" where
  "carries a o1 \<longleftrightarrow>
     side_code (a_side a) = c_side o1 \<and> action_code (a_action a) = c_action o1
     \<and> a_limitYesPrice a = c_limit_yes_price o1 \<and> a_qtyShares a = c_qty_shares o1
     \<and> a_collateralCap a = c_collateral_cap o1"

lemma codes [simp]:
  "side_code s = SIDE_YES \<longleftrightarrow> s = YES" "side_code s = SIDE_NO \<longleftrightarrow> s = NO"
  "action_code c = ACTION_BUY \<longleftrightarrow> c = BUY" "action_code c = ACTION_SELL \<longleftrightarrow> c = SELL"
  by (cases s; cases c; simp add: side_code_def action_code_def SIDE_YES_def SIDE_NO_def ACTION_BUY_def ACTION_SELL_def)+

lemma carries_limit:
  assumes "carries a o1"
  shows "limit_violated a p \<longleftrightarrow>
    (if is_bid o1 then p > c_limit_yes_price o1 else p < c_limit_yes_price o1)"
    "leg_collateral (a_side a) f p = leg_of o1 f p"
proof -
  have c: "c_side o1 = side_code (a_side a)" "c_action o1 = action_code (a_action a)"
    "c_limit_yes_price o1 = a_limitYesPrice a"
    using assms by (simp_all add: carries_def)
  show "limit_violated a p \<longleftrightarrow>
    (if is_bid o1 then p > c_limit_yes_price o1 else p < c_limit_yes_price o1)"
    by (cases "a_side a"; cases "a_action a") (simp_all add: limit_violated_def is_bid_def c)
  show "leg_collateral (a_side a) f p = leg_of o1 f p"
    by (cases "a_side a") (simp_all add: leg_of_def c)
qed

text \<open>The execution price respects both limits.\<close>

lemma executes_limits:
  assumes "executes now i r p f" "is_bid r = (\<not> is_bid i)" "o1 \<in> {i, r}"
  shows "is_bid o1 \<Longrightarrow> p \<le> c_limit_yes_price o1" "\<not> is_bid o1 \<Longrightarrow> c_limit_yes_price o1 \<le> p"
  using assms
  by (auto simp: executes_def eligible_def crosses_def bid_of_def ask_of_def execution_price_def split: if_splits)

lemma executes_settles:
  assumes "executes now i r p f" "is_bid r = (\<not> is_bid i)" "o1 \<in> {i, r}" "order_ok o1"
    and "carries a o1" "live env st a"
    and "fills st (e_hash env a) = \<lparr>f_shares = c_shares_filled o1, f_collateral = c_collateral_filled o1\<rparr>"
  shows "\<exists>st'. settle_leg env a (f, p) st = Inr st'
    \<and> fills st' (e_hash env a) =
        \<lparr>f_shares = c_shares_filled o1 + f, f_collateral = c_collateral_filled o1 + leg_of o1 f p\<rparr>"
proof -
  have e: "0 < f" "0 < p" "p < PRICE_SCALE" "room o1 p f"
    "leg_collateral YES f p \<noteq> 0" "leg_collateral NO f p \<noteq> 0"
    using assms(1,3) by (auto simp: executes_def)
  have "good_fill a (f, p)"
    using e executes_limits [OF assms(1-3)] by (auto simp: good_fill_def carries_limit [OF assms(5)] not_less)
  moreover have l: "0 \<le> leg_of o1 f p" "leg_of o1 f p \<le> f" using leg_of_range [of f p o1] e by auto
  moreover have q: "c_shares_filled o1 + f \<le> c_qty_shares o1"
    "c_action o1 = ACTION_BUY \<longrightarrow> c_collateral_filled o1 + leg_of o1 f p \<le> c_collateral_cap o1"
    using e(4) by (simp_all add: room_def)
  moreover have "c_qty_shares o1 < uint256_limit" "c_collateral_filled o1 \<le> c_shares_filled o1"
    using assms(4) by (simp_all add: order_ok_def uint256_limit_def)
  moreover have "a_qtyShares a = c_qty_shares o1" "a_collateralCap a = c_collateral_cap o1"
    "a_action a = BUY \<longleftrightarrow> c_action o1 = ACTION_BUY"
    using assms(5) codes(3) [of "a_action a"] by (simp_all add: carries_def)
  ultimately have "\<exists>st'. settle_leg env a (f, p) st = Inr st' \<and> live env st' a"
    using assms(6,7) by (intro settle_leg_accepts) (simp_all add: carries_limit [OF assms(5)])
  then obtain st' where "settle_leg env a (f, p) st = Inr st'" by blast
  with settle_leg_Inr(1) [OF this] assms(7) show ?thesis by (simp add: carries_limit [OF assms(5)])
qed

section \<open>Published matches\<close>

text \<open>The messages and requests a service handles, and the matches it publishes. Orders the API sends again
  after a restart of the engine come before, in the state the history starts from.\<close>

datatype clob_op =
  Deliver "clob_order option" | Cancel string string | AddMarket string | CloseMarket string

fun serve :: "int \<Rightarrow> clob_op \<Rightarrow> clob_service \<Rightarrow> (clob_service \<times> clob_match list) option" where
  "serve now (Deliver payload) s = map_option snd (deliver payload now s)"
| "serve now (Cancel market tx) s =
     Some (case cancel_resting market tx s of Inl _ \<Rightarrow> (s, []) | Inr (s', _) \<Rightarrow> (s', []))"
| "serve now (AddMarket market) s = Some (fst (add_market market s), [])"
| "serve now (CloseMarket market) s = Some (fst (close_market market s), [])"

fun serve_all :: "(int \<times> clob_op) list \<Rightarrow> clob_service \<Rightarrow> (clob_service \<times> clob_match list) option" where
  "serve_all [] s = Some (s, [])"
| "serve_all ((now, e) # es) s =
     Option.bind (serve now e s) (\<lambda>(s1, ms). map_option (\<lambda>(s2, ms'). (s2, ms @ ms')) (serve_all es s1))"

text \<open>Identifiers are UUIDs: no colon.\<close>

definition plain :: "clob_order \<Rightarrow> bool" where
  "plain o1 \<longleftrightarrow> CHR '':'' \<notin> set (c_tx_id o1) \<and> CHR '':'' \<notin> set (c_market_id o1)"

definition op_ok :: "clob_op \<Rightarrow> bool" where
  "op_ok e = (case e of Deliver (Some o1) \<Rightarrow> order_ok o1 \<and> plain o1 | _ \<Rightarrow> True)"

definition service_ok :: "clob_service \<Rightarrow> bool" where
  "service_ok s \<longleftrightarrow>
     (\<forall>k b. s_books s k = Some b \<longrightarrow>
        book_ok b \<and> (\<forall>o1\<in>set (book_orders b). plain o1 \<and> c_tx_id o1 \<in> s_lut s))"

text \<open>What the published matches have in common: orders the service knows, and an id of their own.\<close>

definition known_match :: "clob_service \<Rightarrow> clob_match \<Rightarrow> bool" where
  "known_match s m \<longleftrightarrow>
     c_tx_id (m_bid m) \<in> s_lut s \<and> c_tx_id (m_ask m) \<in> s_lut s
     \<and> plain (m_bid m) \<and> plain (m_ask m) \<and> CHR '':'' \<notin> set (m_market_id m)
     \<and> 0 \<le> c_shares_filled (m_bid m) \<and> 0 \<le> c_shares_filled (m_ask m)"

lemma message_id_injective:
  assumes "message_id m = message_id m'" "known_match s m" "known_match s' m'"
  shows "m_market_id m = m_market_id m' \<and> c_tx_id (m_bid m) = c_tx_id (m_bid m')
    \<and> c_tx_id (m_ask m) = c_tx_id (m_ask m') \<and> c_shares_filled (m_bid m) = c_shares_filled (m_bid m')
    \<and> c_shares_filled (m_ask m) = c_shares_filled (m_ask m')"
proof -
  have c: "CHR '':'' \<notin> set (string_of_int n)" if "0 \<le> n" for n
    using digits_10_is_digit [OF that] that by (auto simp: string_of_int_def is_digit_def code_of_def)
  note k = assms(2,3) [unfolded known_match_def plain_def]
  note 1 = split_separator [OF assms(1) [unfolded message_id_def]]
  from 1 k have e: "m_market_id m = m_market_id m'" and
    r1: "c_tx_id (m_bid m) @ CHR '':'' # c_tx_id (m_ask m) @ CHR '':'' #
       string_of_int (c_shares_filled (m_bid m)) @ CHR '':'' # string_of_int (c_shares_filled (m_ask m))
     = c_tx_id (m_bid m') @ CHR '':'' # c_tx_id (m_ask m') @ CHR '':'' #
       string_of_int (c_shares_filled (m_bid m')) @ CHR '':'' # string_of_int (c_shares_filled (m_ask m'))"
    by blast+
  from split_separator [OF r1] k have e2: "c_tx_id (m_bid m) = c_tx_id (m_bid m')" and
    r2: "c_tx_id (m_ask m) @ CHR '':'' #
       string_of_int (c_shares_filled (m_bid m)) @ CHR '':'' # string_of_int (c_shares_filled (m_ask m))
     = c_tx_id (m_ask m') @ CHR '':'' #
       string_of_int (c_shares_filled (m_bid m')) @ CHR '':'' # string_of_int (c_shares_filled (m_ask m'))"
    by blast+
  from split_separator [OF r2] k have e3: "c_tx_id (m_ask m) = c_tx_id (m_ask m')" and
    r3: "string_of_int (c_shares_filled (m_bid m)) @ CHR '':'' # string_of_int (c_shares_filled (m_ask m))
     = string_of_int (c_shares_filled (m_bid m')) @ CHR '':'' # string_of_int (c_shares_filled (m_ask m'))"
    by blast+
  from split_separator [OF r3] c k have
    "string_of_int (c_shares_filled (m_bid m)) = string_of_int (c_shares_filled (m_bid m'))"
    "string_of_int (c_shares_filled (m_ask m)) = string_of_int (c_shares_filled (m_ask m'))" by blast+
  with k have "c_shares_filled (m_bid m) = c_shares_filled (m_bid m')"
    "c_shares_filled (m_ask m) = c_shares_filled (m_ask m')" by (simp_all add: string_of_int_inject)
  with e e2 e3 show ?thesis by blast
qed

text \<open>Orders of a book after an addition are those before, or the new one, filled further.\<close>

lemma book_add_orders:
  assumes "order_ok i" "book_ok b" "book_add i now b = Some (b', ms)" "o1 \<in> set (book_orders b')"
  shows "\<exists>o0\<in>insert i (set (book_orders b)). advanced o0 o1"
  using assms(1,2)
proof (cases rule: book_add_cases [where now = now])
  case refused
  with assms(3,4) show ?thesis by (auto intro: advanced_refl)
next
  case (walked i' ks ms')
  have "\<forall>r\<in>set (priority i (opposite i b)). order_ok r" using opposite_ok [OF assms(2), of _ i] by simp
  note w = walk_ok [OF walked(2) assms(1) this]
  have "set (opposite i b) \<subseteq> set (book_orders b)" by (auto simp: opposite_def book_orders_def)
  then have k: "\<exists>o0\<in>insert i (set (book_orders b)). advanced o0 k" if "k \<in> set ks" for k
  proof -
    from w that obtain r where "r \<in> set (priority i (opposite i b))" "advanced r k" by blast
    with \<open>set (opposite i b) \<subseteq> set (book_orders b)\<close> show ?thesis by auto
  qed
  have "o1 = i' \<or> o1 \<in> set ks \<or> o1 \<in> set (book_orders b)"
    using walked(3) assms(3,4) by (auto simp: book_orders_def split: if_splits)
  then show ?thesis using k w advanced_refl by blast
qed

lemma match_orders:
  assumes "order_ok i" "book_ok b" "book_add i now b = Some (b', ms)" "m \<in> set ms"
  shows "match_ok now i m" "resting_of i m \<in> set (opposite i b)"
    "m_bid m = (if is_bid i then incoming_of i m else resting_of i m)"
    "m_ask m = (if is_bid i then resting_of i m else incoming_of i m)"
proof -
  note bm = book_add_matches [OF assms(1-3)]
  show "match_ok now i m" using bm(2) assms(4) by blast
  have "resting_of i m \<in> set (map (resting_of i) ms)" using assms(4) by simp
  from list_emb_set [OF bm(1) this] show "resting_of i m \<in> set (opposite i b)" by auto
qed (simp_all add: incoming_of_def resting_of_def)

lemma service_add:
  assumes "service_ok s" "s_books s k = Some b" "order_ok i" "plain i" "c_tx_id i \<notin> s_lut s"
    "book_add i now b = Some (b', ms)"
  defines "s' \<equiv> s\<lparr>s_books := (s_books s)(k := Some b'), s_lut := insert (c_tx_id i) (s_lut s)\<rparr>"
  shows "service_ok s'" "\<forall>m\<in>set ms. known_match s' m \<and> \<not> known_match s m" "distinct (map message_id ms)"
proof -
  have b: "book_ok b" "\<forall>o1\<in>set (book_orders b). plain o1 \<and> c_tx_id o1 \<in> s_lut s"
    using assms(1,2) by (auto simp: service_ok_def)
  have adv: "plain o2 = plain o1 \<and> c_tx_id o2 = c_tx_id o1" if "advanced o1 o2" for o1 o2
    using advanced_same(1,2) [OF that] by (simp add: plain_def)
  have "book_ok b'" using book_add_ok [OF assms(3) b(1), of now] assms(6) by simp
  moreover have "plain o1 \<and> c_tx_id o1 \<in> insert (c_tx_id i) (s_lut s)" if o1: "o1 \<in> set (book_orders b')" for o1
    using book_add_orders [OF assms(3) b(1) assms(6) o1] b(2) assms(4) adv by fastforce
  ultimately show "service_ok s'" using assms(1) by (auto simp: s'_def service_ok_def)
  have m: "known_match s' m \<and> \<not> known_match s m" if "m \<in> set ms" for m
  proof -
    note mo = match_orders [OF assms(3) b(1) assms(6) that]
    have r: "plain (resting_of i m)" "c_tx_id (resting_of i m) \<in> s_lut s"
      using mo(2) b(2) by (auto simp: opposite_def book_orders_def split: if_splits)
    have i: "order_ok (incoming_of i m)" "advanced i (incoming_of i m)" "order_ok (resting_of i m)" "m_market_id m = c_market_id i"
      using mo(1) by (simp_all add: match_ok_def)
    have t: "plain (incoming_of i m)" "c_tx_id (incoming_of i m) = c_tx_id i" using adv [OF i(2)] assms(4) by simp_all
    show ?thesis
      using r i(1,3,4) t assms(4,5)
      by (cases "is_bid i") (simp_all add: known_match_def mo(3,4) s'_def order_ok_def plain_def)
  qed
  then show "\<forall>m\<in>set ms. known_match s' m \<and> \<not> known_match s m" by blast
  have "sorted_wrt (<) (map (\<lambda>m. c_shares_filled (incoming_of i m)) ms)"
    by (rule book_add_matches [OF assms(3) b(1) assms(6)])
  then have "distinct (map (\<lambda>m. c_shares_filled (incoming_of i m)) ms)"
    by (simp add: strict_sorted_iff)
  moreover have "c_shares_filled (incoming_of i m) = c_shares_filled (incoming_of i m')"
    if "m \<in> set ms" "m' \<in> set ms" "message_id m = message_id m'" for m m'
    using message_id_injective [OF that(3) m [OF that(1), THEN conjunct1] m [OF that(2), THEN conjunct1]]
    unfolding incoming_of_def by presburger
  ultimately show "distinct (map message_id ms)" unfolding distinct_map inj_on_def by blast
qed

lemma serve_ok:
  assumes "service_ok s" "op_ok e"
  shows "\<exists>s' ms. serve now e s = Some (s', ms) \<and> service_ok s' \<and> s_lut s \<subseteq> s_lut s'
    \<and> (\<forall>m\<in>set ms. known_match s' m \<and> \<not> known_match s m) \<and> distinct (map message_id ms)"
proof (cases e)
  case (Deliver payload)
  show ?thesis
  proof (cases "\<exists>i b. payload = Some i \<and> \<not> order_exists (c_tx_id i) s \<and> s_books s (to_lower (c_market_id i)) = Some b")
    case True
    then obtain i b where i: "payload = Some i" "c_tx_id i \<notin> s_lut s" "s_books s (to_lower (c_market_id i)) = Some b"
      by (auto simp: order_exists_def)
    have o1: "order_ok i" "plain i" "book_ok b"
      using assms i by (auto simp: Deliver op_ok_def service_ok_def)
    obtain b' ms where a: "book_add i now b = Some (b', ms)" using book_add_ok [OF o1(1,3)] by blast
    from service_add [OF assms(1) i(3) o1(1,2) i(2) a] show ?thesis
      by (auto simp: Deliver deliver_def i order_exists_def place_order_def a)
  next
    case False
    then have "serve now e s = Some (s, [])"
      by (auto simp: Deliver deliver_def place_order_def split: option.split)
    with assms(1) show ?thesis by simp
  qed
next
  case (Cancel market tx)
  have "service_ok (s\<lparr>s_books := (s_books s)(k := Some (fst (book_remove tx b)))\<rparr>)" if "s_books s k = Some b" for k b
  proof -
    have "set (book_orders (fst (book_remove tx b))) \<subseteq> set (book_orders b)"
      by (auto simp: book_remove_def book_orders_def dest!: remove_tx_subset split: option.split)
    then show ?thesis using that assms(1) book_remove_ok [of b tx] by (auto simp: service_ok_def)
  qed
  then show ?thesis using assms(1)
    by (auto simp: Cancel cancel_resting_def split: option.split prod.split) (metis fst_conv)
next
  case (AddMarket market)
  with assms(1) show ?thesis
    by (auto simp: add_market_def add_market_insert_def service_ok_def book_ok_def empty_book_def book_orders_def)
next
  case (CloseMarket market)
  with assms(1) show ?thesis by (auto simp: close_market_def service_ok_def)
qed

lemma serve_all_ok:
  assumes "service_ok s" "\<forall>p\<in>set es. op_ok (snd p)"
  shows "\<exists>s' ms. serve_all es s = Some (s', ms) \<and> service_ok s' \<and> s_lut s \<subseteq> s_lut s'
    \<and> (\<forall>m\<in>set ms. known_match s' m \<and> \<not> known_match s m) \<and> distinct (map message_id ms)"
  using assms
proof (induction es arbitrary: s)
  case (Cons p es)
  obtain now e where p: "p = (now, e)" by (cases p)
  have "op_ok e" using Cons.prems(2) by (simp add: p)
  from serve_ok [OF Cons.prems(1) this, of now] obtain s1 ms1 where
    1: "serve now e s = Some (s1, ms1)" "service_ok s1" "s_lut s \<subseteq> s_lut s1"
      "\<forall>m\<in>set ms1. known_match s1 m \<and> \<not> known_match s m" "distinct (map message_id ms1)" by blast
  from Cons.IH [OF 1(2)] Cons.prems(2) obtain s2 ms2 where
    2: "serve_all es s1 = Some (s2, ms2)" "service_ok s2" "s_lut s1 \<subseteq> s_lut s2"
      "\<forall>m\<in>set ms2. known_match s2 m \<and> \<not> known_match s1 m" "distinct (map message_id ms2)" by auto
  have mono: "known_match t m \<Longrightarrow> s_lut t \<subseteq> s_lut t' \<Longrightarrow> known_match t' m" for t t' m
    by (auto simp: known_match_def)
  have "message_id m \<noteq> message_id m'" if "m \<in> set ms1" "m' \<in> set ms2" for m m'
  proof
    assume eq: "message_id m = message_id m'"
    have k: "known_match s1 m" "known_match s2 m'" "\<not> known_match s1 m'" using that 1(4) 2(4) by auto
    from message_id_injective [OF eq k(1,2)] k(1,2) have "known_match s1 m'"
      by (simp add: known_match_def)
    with k(3) show False by blast
  qed
  then have "distinct (map message_id (ms1 @ ms2))" using 1(5) 2(5) by fastforce
  moreover have "\<forall>m\<in>set (ms1 @ ms2). known_match s2 m \<and> \<not> known_match s m"
    using 1(3,4) 2(3,4) mono by auto
  moreover have "serve_all (p # es) s = Some (s2, ms1 @ ms2)" using 1(1) 2(1) by (simp add: p)
  ultimately show ?case using 1(3) 2(2,3) by blast
qed auto

text \<open>At the very top of the range the search does not end; the API only admits quantities that fit an i64.\<close>

lemma search_stuck: "search ok lo hi = Some r \<Longrightarrow> ok 0 \<longrightarrow> lo = 0 \<longrightarrow> hi \<noteq> u64_max"
proof (erule search.raw_induct [rotated])
  fix rec :: "(int \<Rightarrow> bool) \<Rightarrow> int \<Rightarrow> int \<Rightarrow> int option" and ok lo hi r
  assume ih: "\<And>ok lo hi r. rec ok lo hi = Some r \<Longrightarrow> ok 0 \<longrightarrow> lo = 0 \<longrightarrow> hi \<noteq> u64_max"
    and step: "(if lo < hi then if ok (midpoint lo hi) then rec ok (midpoint lo hi) hi
        else rec ok lo (u64 (midpoint lo hi - 1)) else Some lo) = Some r"
  have "midpoint 0 u64_max = 0" by (simp add: midpoint_def u64_def u64_max_def)
  then show "ok 0 \<longrightarrow> lo = 0 \<longrightarrow> hi \<noteq> u64_max"
    using step ih [of ok 0 u64_max r] by (auto simp: u64_max_def)
qed

text \<open>\<open>add_market\<close> checks and inserts under two locks: of two requests for one new market, the second empties
  the book the first one made.\<close>

lemma concurrent_add_market_empties_book:
  assumes "add_market_known market s = False" "service_ok s" "order_ok i" "plain i" "c_tx_id i \<notin> s_lut s"
    "to_lower (c_market_id i) = to_lower market" "\<not> past_deadline now i" "remaining_shares i \<noteq> 0"
  shows "\<exists>s1. deliver (Some i) now (add_market_insert market s) = Some (True, s1, [])
    \<and> (\<exists>b. s_books s1 (to_lower market) = Some b \<and> book_orders b = [i])
    \<and> s_books (add_market_insert market s1) (to_lower market) = Some empty_book"
proof -
  have "0 < remaining_shares i" using assms(8) by (simp add: remaining_shares_def saturating_sub_def)
  then show ?thesis using assms
    by (simp add: deliver_def order_exists_def place_order_def add_market_insert_def book_add_def empty_book_def
        priority_def book_orders_def)
qed

section \<open>Properties\<close>

definition sample_order :: "string \<Rightarrow> string \<Rightarrow> int \<Rightarrow> int \<Rightarrow> int \<Rightarrow> int \<Rightarrow> int \<Rightarrow> clob_order" where
  "sample_order tx trader sd act limit qty cap =
     \<lparr>c_tx_id = tx, c_net = ''testnet'', c_market_id = ''m'', c_account_id = ''0.0.'' @ trader, c_sig = [],
      c_public_key = [], c_evm_address = ''0x'' @ trader, c_key_type = 2, c_chain_id = 296,
      c_verifying_contract = ''11'', c_side = sd, c_action = act, c_limit_yes_price = limit,
      c_qty_shares = qty, c_collateral_cap = cap, c_deadline = 2000, c_shares_filled = 0, c_collateral_filled = 0\<rparr>"

text \<open>C18. The binary search finds the largest fill, up to the given quantity, that pays both legs and keeps
  both collateral caps, and reports none exactly when there is no such fill.\<close>

theorem max_fill_is_largest:
  fixes bid ask :: clob_order
  assumes "0 \<le> upper" "upper < u64_max" "0 \<le> price"
  defines "S \<equiv> {f. 0 \<le> f \<and> f \<le> upper \<and> split_collateral f price \<noteq> None \<and> caps_ok bid ask price f}"
  shows "max_fill bid ask price upper = Some (if S = {} then None else Some (Max S))"
proof -
  have S: "f \<in> S \<longleftrightarrow> 0 \<le> f \<and> f \<le> upper \<and> fillable bid ask price f" for f
    by (auto simp: S_def fillable_def)
  have fin: "finite S" by (rule finite_subset [of _ "{0..upper}"]) (auto simp: S_def)
  from max_fill_spec [OF assms(1-3), of bid ask] obtain r where r: "max_fill bid ask price upper = Some r"
    "r = None \<longrightarrow> (\<forall>f. 0 \<le> f \<and> f \<le> upper \<longrightarrow> \<not> fillable bid ask price f)"
    "\<forall>f. r = Some f \<longrightarrow> 0 < f \<and> f \<le> upper \<and> 0 < price \<and> price < PRICE_SCALE \<and> fillable bid ask price f
          \<and> (\<forall>g. 0 \<le> g \<and> g \<le> upper \<and> fillable bid ask price g \<longrightarrow> g \<le> f)" by blast
  show ?thesis
  proof (cases r)
    case None
    then have "S = {}" using r(2) S by auto
    with None r(1) show ?thesis by simp
  next
    case (Some f)
    then have "f \<in> S" "\<forall>g\<in>S. g \<le> f" using r(3) S by auto
    then have "Max S = f" "S \<noteq> {}" using fin by (auto intro!: Max_eqI)
    with Some r(1) show ?thesis by simp
  qed
qed

theorem max_fill_is_largest_witness:
  "let S = {f. 0 \<le> f \<and> f \<le> 5000000 \<and> split_collateral f 600000 \<noteq> None
        \<and> caps_ok (sample_order ''b'' ''2'' 0 0 600000 5000000 3000000) (sample_order ''a'' ''1'' 1 0 600000 5000000 800000) 600000 f}
   in max_fill (sample_order ''b'' ''2'' 0 0 600000 5000000 3000000) (sample_order ''a'' ''1'' 1 0 600000 5000000 800000)
        600000 5000000 = Some (if S = {} then None else Some (Max S))"
  unfolding Let_def by (rule max_fill_is_largest) (simp_all add: u64_max_def)

definition sample_no_buyer :: clob_order where
  "sample_no_buyer = sample_order ''a'' ''1'' 1 0 999999 204 101"
definition sample_yes_buyer :: clob_order where
  "sample_yes_buyer = sample_order ''b'' ''2'' 0 0 999999 2 2"

lemma sample_match:
  "\<exists>b'. book_add sample_yes_buyer 1000 \<lparr>b_bids = [], b_asks = [sample_no_buyer]\<rparr> =
     Some (b', [new_match sample_yes_buyer sample_no_buyer 2 999999 1 1])"
proof -
  have "case book_add sample_yes_buyer 1000 \<lparr>b_bids = [], b_asks = [sample_no_buyer]\<rparr> of
      None \<Rightarrow> False | Some (_, ms) \<Rightarrow> ms = [new_match sample_yes_buyer sample_no_buyer 2 999999 1 1]"
    by code_simp
  then show ?thesis by (auto split: option.splits)
qed

lemma sample_ok: "order_ok sample_yes_buyer" "book_ok \<lparr>b_bids = [], b_asks = [sample_no_buyer]\<rparr>"
  by (simp_all add: order_ok_def book_ok_def sample_yes_buyer_def sample_no_buyer_def sample_order_def is_bid_def
      remaining_shares_def saturating_sub_def SIDE_YES_def SIDE_NO_def ACTION_BUY_def ACTION_SELL_def)



text \<open>C3. The contract accepts what the engine matches: every match pairs a bid with an ask, and for the
  authorization either order carries, signed and in the fill state the match reports, the contract's checks
  and its accounting of the fill succeed and charge exactly the collateral the match announces.\<close>

theorem matches_settle_on_chain:
  assumes "order_ok i" "book_ok b" "book_add i now b = Some (b', ms)" "m \<in> set ms" "o1 \<in> {m_bid m, m_ask m}"
    and "carries a o1" "live env st a"
    and "fills st (e_hash env a) = \<lparr>f_shares = c_shares_filled o1, f_collateral = c_collateral_filled o1\<rparr>"
  shows "is_bid (m_bid m) \<and> \<not> is_bid (m_ask m)
    \<and> (\<exists>st'. settle_leg env a (m_fill_shares m, m_execution_yes_price m) st = Inr st'
         \<and> fills st' (e_hash env a) =
             \<lparr>f_shares = c_shares_filled o1 + m_fill_shares m,
              f_collateral = c_collateral_filled o1 + order_leg o1 (m_yes_collateral m) (m_no_collateral m)\<rparr>)"
proof -
  note mo = match_orders [OF assms(1-4)]
  have r: "is_bid (resting_of i m) = (\<not> is_bid i)" using opposite_ok [OF assms(2) mo(2)] by blast
  have i: "is_bid (incoming_of i m) = is_bid i" "order_ok (incoming_of i m)" "order_ok (resting_of i m)"
    "executes now (incoming_of i m) (resting_of i m) (m_execution_yes_price m) (m_fill_shares m)"
    "m_yes_collateral m = leg_collateral YES (m_fill_shares m) (m_execution_yes_price m)"
    "m_no_collateral m = leg_collateral NO (m_fill_shares m) (m_execution_yes_price m)"
    using mo(1) advanced_same(8) by (auto simp: match_ok_def)
  have o1: "o1 \<in> {incoming_of i m, resting_of i m}" "order_ok o1"
    using assms(5) i(2,3) by (auto simp: mo(3,4) split: if_splits)
  have "is_bid (m_bid m) \<and> \<not> is_bid (m_ask m)" using r i(1) by (simp add: mo(3,4))
  moreover have "is_bid (resting_of i m) = (\<not> is_bid (incoming_of i m))" using r i(1) by simp
  ultimately show ?thesis
    using executes_settles [OF i(4) _ o1 assms(6-8)] by (simp add: i(5,6) order_leg_leg)
qed

theorem matches_settle_on_chain_witness:
  "\<exists>st'. settle_leg edge_env edge_order (2, 999999) empty_prism = Inr st'
     \<and> fills st' (e_hash edge_env edge_order) = \<lparr>f_shares = 2, f_collateral = 1\<rparr>"
proof -
  let ?m = "new_match sample_yes_buyer sample_no_buyer 2 999999 1 1"
  obtain b' where "book_add sample_yes_buyer 1000 \<lparr>b_bids = [], b_asks = [sample_no_buyer]\<rparr> = Some (b', [?m])"
    using sample_match by blast
  from matches_settle_on_chain [OF sample_ok this, of ?m "m_ask ?m" edge_order edge_env empty_prism]
  show ?thesis
    by (simp add: carries_def new_match_def ask_of_def is_bid_def sample_no_buyer_def sample_yes_buyer_def
        sample_order_def edge_defs order_leg_def SIDE_YES_def SIDE_NO_def ACTION_BUY_def ACTION_SELL_def PRICE_SCALE_def)
qed



end
