(* ===== verification/BookPath.thy ===== *)
theory BookPath
  imports Clob BookPrices
begin

text \<open>
  The way of a book from the matching engine to the web client: \<open>get_book\<close> and \<open>get_price_update\<close> of the
  engine against \<open>getBestPricesFromBook\<close> of \<open>src/web/lib/utils.ts\<close>, which reads the snapshot.
\<close>

section \<open>A snapshot keeps the best levels\<close>

lemma Max_take_sorted:
  fixes f :: "'a \<Rightarrow> int"
  assumes "sorted (map (\<lambda>x. - f x) xs)" "xs \<noteq> []" "0 < n"
  shows "Max (f ` set (take n xs)) = Max (f ` set xs)"
proof -
  obtain x ys where xs: "xs = x # ys" using assms(2) by (cases xs) auto
  obtain n' where n: "n = Suc n'" using assms(3) by (cases n) auto
  have "\<forall>y\<in>set xs. f y \<le> f x" using assms(1) by (auto simp: xs)
  then have "Max (f ` set (take n xs)) = f x" "Max (f ` set xs) = f x"
    by (auto intro!: Max_eqI simp: xs n dest: in_set_takeD)
  then show ?thesis by simp
qed

lemma Min_take_sorted:
  fixes f :: "'a \<Rightarrow> int"
  assumes "sorted (map f xs)" "xs \<noteq> []" "0 < n"
  shows "Min (f ` set (take n xs)) = Min (f ` set xs)"
proof -
  obtain x ys where xs: "xs = x # ys" using assms(2) by (cases xs) auto
  obtain n' where n: "n = Suc n'" using assms(3) by (cases n) auto
  have "\<forall>y\<in>set xs. f x \<le> f y" using assms(1) by (auto simp: xs)
  then have "Min (f ` set (take n xs)) = f x" "Min (f ` set xs) = f x"
    by (auto intro!: Min_eqI simp: xs n dest: in_set_takeD)
  then show ?thesis by simp
qed

definition shown_bids :: "nat \<Rightarrow> book \<Rightarrow> OrderDetail list" where
  "shown_bids depth b = map detail ((if depth = 0 then id else take depth)
     (sort_key (\<lambda>o1. - c_limit_yes_price o1) (b_bids b)))"
definition shown_asks :: "nat \<Rightarrow> book \<Rightarrow> OrderDetail list" where
  "shown_asks depth b = map detail ((if depth = 0 then id else take depth)
     (sort_key c_limit_yes_price (b_asks b)))"

lemma book_snapshot_shown: "book_snapshot depth b = snapshot (shown_bids depth b) (shown_asks depth b)"
  by (simp add: book_snapshot_def snapshot_def shown_bids_def shown_asks_def Let_def)

lemma shown_limits:
  assumes "b_bids b \<noteq> []" "b_asks b \<noteq> []"
  shows "Max (limits (shown_bids depth b)) = Max (c_limit_yes_price ` set (b_bids b))"
    "Min (limits (shown_asks depth b)) = Min (c_limit_yes_price ` set (b_asks b))"
    "shown_bids depth b \<noteq> []" "shown_asks depth b \<noteq> []"
proof -
  let ?bs = "sort_key (\<lambda>o1. - c_limit_yes_price o1) (b_bids b)" and ?as = "sort_key c_limit_yes_price (b_asks b)"
  have ne: "?bs \<noteq> []" "?as \<noteq> []" using assms by (metis set_empty set_sort)+
  have im: "od_limitYesPrice ` detail ` A = c_limit_yes_price ` A" for A by (simp add: image_comp detail_def)
  show "Max (limits (shown_bids depth b)) = Max (c_limit_yes_price ` set (b_bids b))"
    using Max_take_sorted [OF sorted_sort_key ne(1), of depth]
    by (cases "depth = 0") (simp_all add: limits_def shown_bids_def im)
  show "Min (limits (shown_asks depth b)) = Min (c_limit_yes_price ` set (b_asks b))"
    using Min_take_sorted [OF sorted_sort_key ne(2), of depth]
    by (cases "depth = 0") (simp_all add: limits_def shown_asks_def im)
  show "shown_bids depth b \<noteq> []" "shown_asks depth b \<noteq> []"
    using ne by (auto simp: shown_bids_def shown_asks_def)
qed

lemma shown_proper:
  assumes "book_ok b" "\<forall>o1\<in>set (book_orders b). c_limit_yes_price o1 \<le> PRICE_SCALE"
  shows "proper_book (shown_bids depth b) (shown_asks depth b)"
  using assms
  by (auto simp: proper_book_def list_all_iff shown_bids_def shown_asks_def detail_def limit_ok_def book_ok_def
      book_orders_def order_ok_def is_bid_def isBidSide_def dest!: in_set_takeD split: if_splits)

section \<open>Properties\<close>

text \<open>C13. What the client shows of a two-sided book is what the engine has, for every depth of the snapshot it
  asks for: its best YES bid is the engine's own price update, and its best prices, converted back to integer
  limits, are the highest bid and the lowest ask of the whole book in both outcome frames.\<close>

theorem client_reads_engine_book:
  assumes "service_ok s" "s_books s (to_lower m) = Some b" "b_bids b \<noteq> []" "b_asks b \<noteq> []"
    and "\<forall>o1\<in>set (book_orders b). c_limit_yes_price o1 \<le> PRICE_SCALE"
    and "get_book m depth s = Inr snap"
  defines "r \<equiv> getBestPricesFromBook snap"
    and "hi \<equiv> Max (c_limit_yes_price ` set (b_bids b))" and "lo \<equiv> Min (c_limit_yes_price ` set (b_asks b))"
  shows "map_sum id fst (get_price_update m s) = Inr (bestYesBid r)
    \<and> toLimitYesPrice OYes (bestYesBid r) = Inr hi \<and> toLimitYesPrice ONo (bestNoAsk r) = Inr hi
    \<and> toLimitYesPrice OYes (bestYesAsk r) = Inr lo \<and> toLimitYesPrice ONo (bestNoBid r) = Inr lo"
proof -
  have "book_ok b" using assms(1,2) by (auto simp: service_ok_def)
  note p = shown_proper [OF this assms(5), of depth] and l = shown_limits [OF assms(3,4), of depth]
  have snap: "snap = snapshot (shown_bids depth b) (shown_asks depth b)"
    using assms(2,6) by (simp add: get_book_def book_snapshot_shown)
  have bid: "bestYesBid r = JNum (grid hi)"
    using best_prices_bid(1) [OF p l(3)] by (simp add: r_def snap l(1) hi_def)
  have "hi \<in> c_limit_yes_price ` set (b_bids b)" unfolding hi_def using assms(3) by (intro Max_in) auto
  then have "0 \<le> hi" "hi \<le> 1000000"
    using \<open>book_ok b\<close> assms(5) by (auto simp: book_ok_def order_ok_def book_orders_def PRICE_SCALE_def)
  then have "map_sum id fst (get_price_update m s) = Inr (bestYesBid r)"
    using assms(2,3) by (simp add: get_price_update_def max_opt_def to_price_def bid scaled_limit hi_def)
  with best_prices_are_book_levels [OF p] l show ?thesis
    by (simp add: r_def snap hi_def lo_def)
qed

theorem client_reads_engine_book_witness:
  "\<exists>s ms snap. serve_all [(1000, AddMarket ''m''), (1000, Deliver (Some (sample_order ''a'' ''1'' 0 0 480000 2000000 2000000))),
        (1000, Deliver (Some (sample_order ''b'' ''2'' 1 1 510000 2000000 0))),
        (1000, Deliver (Some (sample_order ''c'' ''3'' 0 1 575000 2000000 0)))] new_service = Some (s, ms)
     \<and> get_book ''M'' 1 s = Inr snap
     \<and> toLimitYesPrice OYes (bestYesBid (getBestPricesFromBook snap)) = Inr 510000
     \<and> toLimitYesPrice ONo (bestNoBid (getBestPricesFromBook snap)) = Inr 575000"
proof -
  let ?es = "[(1000, AddMarket ''m''), (1000, Deliver (Some (sample_order ''a'' ''1'' 0 0 480000 2000000 2000000))),
        (1000, Deliver (Some (sample_order ''b'' ''2'' 1 1 510000 2000000 0))),
        (1000 :: int, Deliver (Some (sample_order ''c'' ''3'' 0 1 575000 2000000 0)))]"
  let ?b = "\<lparr>b_bids = [sample_order ''b'' ''2'' 1 1 510000 2000000 0, sample_order ''a'' ''1'' 0 0 480000 2000000 2000000],
      b_asks = [sample_order ''c'' ''3'' 0 1 575000 2000000 0]\<rparr>"
  have o1: "op_ok (Deliver (Some (sample_order ''a'' ''1'' 0 0 480000 2000000 2000000)))"
    "op_ok (Deliver (Some (sample_order ''b'' ''2'' 1 1 510000 2000000 0)))"
    "op_ok (Deliver (Some (sample_order ''c'' ''3'' 0 1 575000 2000000 0)))"
    by (simp_all add: op_ok_def plain_def order_ok_def sample_order_def SIDE_YES_def SIDE_NO_def ACTION_BUY_def
        ACTION_SELL_def)
  have "op_ok (AddMarket ''m'')" by (simp add: op_ok_def)
  with o1 have "\<forall>p\<in>set ?es. op_ok (snd p)" by simp
  moreover have "service_ok new_service" by (simp add: service_ok_def new_service_def)
  ultimately obtain s ms where s: "serve_all ?es new_service = Some (s, ms)" "service_ok s"
    using serve_all_ok by blast
  have "case serve_all ?es new_service of None \<Rightarrow> False | Some (s, _) \<Rightarrow> s_books s ''m'' = Some ?b" by code_simp
  moreover have "to_lower ''M'' = ''m''" by code_simp
  ultimately have b: "s_books s (to_lower ''M'') = Some ?b" using s(1) by simp
  obtain snap where g: "get_book ''M'' 1 s = Inr snap" using b by (simp add: get_book_def)
  from client_reads_engine_book [OF s(2) b _ _ _ g] have
    "toLimitYesPrice OYes (bestYesBid (getBestPricesFromBook snap)) = Inr 510000
     \<and> toLimitYesPrice ONo (bestNoBid (getBestPricesFromBook snap)) = Inr 575000"
    by (simp add: book_orders_def sample_order_def PRICE_SCALE_def)
  with s(1) g show ?thesis by blast
qed

end
