(* ===== verification/Requests.thy ===== *)
theory Requests
  imports HederaTx RegExp Json
begin

text \<open>
  Requests signed outside the order flow: claiming rewards (\<open>src/web/lib/claimPrism.ts\<close>, \<open>useClaimPrism.ts\<close>) and
  cancelling an order (\<open>signCancel.ts\<close>, \<open>cancelOrder.ts\<close>), with the region gate (\<open>geoRestriction.ts\<close>,
  \<open>useGeoRestricted.ts\<close>), the environment (\<open>src/web/env.ts\<close>) and the status of a market (\<open>marketStatus.ts\<close>). keccak256, the SDK's key parser, the
  wallet and the server's answers are parameters.
\<close>

section \<open>Messages to sign\<close>

text \<open>Account ids: three groups of digits with dots.\<close>

definition account_id_rx :: rx where
  "account_id_rx =
     rseq [rplus (RSet is_digit), rlit ''.'', rplus (RSet is_digit), rlit ''.'', rplus (RSet is_digit)]"

record signing_payload =
  sp_keccakHex :: string
  sp_messageToSign :: string
  sp_payloadHex :: string

definition buildClaimSigningPayload :: "(bytes \<Rightarrow> string) \<Rightarrow> string \<Rightarrow> string \<Rightarrow> signing_payload attempt" where
  "buildClaimSigningPayload keccak256 accountId net =
     (if \<not> rx_full account_id_rx accountId
      then Inl (throw (''buildClaimSigningPayload: not a Hedera account id: '' @ accountId))
      else if net = [] then Inl (throw ''buildClaimSigningPayload: net is required'')
      else (let payloadBytes = utf8_bytes (accountId @ '':'' @ to_lower net);
                hex = keccak256 payloadBytes
            in Inr \<lparr>sp_keccakHex = hex, sp_messageToSign = base64 (bytes_of_hex (drop 2 hex)),
                    sp_payloadHex = hex_of_bytes payloadBytes\<rparr>))"

text \<open>The public key as the server expects it; \<open>normalizeClaimPublicKey\<close> and the \<open>normalizePublicKey\<close> of
  cancellations are the same code twice.\<close>

definition normalizePublicKey :: "(string \<Rightarrow> string option) \<Rightarrow> string \<Rightarrow> string \<Rightarrow> string" where
  "normalizePublicKey to_raw rawKey keyTypeStr =
     (let publicKey = (if keyTypeStr = ''ED25519'' \<and> length rawKey > 64 then slice_last 64 rawKey else rawKey)
      in if keyTypeStr = ''ECDSA_SECP256K1'' then
           (let compressed = (length publicKey = 66 \<and> (starts_with publicKey ''02'' \<or> starts_with publicKey ''03''))
            in if \<not> compressed \<and> length publicKey > 66
               then (case to_raw publicKey of Some k \<Rightarrow> k | None \<Rightarrow> publicKey) else publicKey)
         else publicKey)"

definition normalizeClaimPublicKey :: "(string \<Rightarrow> string option) \<Rightarrow> string \<Rightarrow> string \<Rightarrow> string" where
  "normalizeClaimPublicKey = normalizePublicKey"

section \<open>Claiming rewards\<close>

definition mapClaimError :: "string \<Rightarrow> string" where
  "mapClaimError raw =
     (let m = to_lower raw in
      if js_includes m ''does not have the prism token associated''
      then ''Associate the $PRSM token in your wallet first, then claim again.''
      else if js_includes m ''no unredeemed prism'' then ''You have no unclaimed $PRSM right now.''
      else if js_includes m ''prismrewardsrepository is not initialized''
      then ''Rewards are temporarily unavailable on the server. Please try again later.''
      else if js_includes m ''failed to get prism token id'' \<or> js_includes m ''hot payer''
      then ''The rewards payout wallet is not configured for this network yet.''
      else if js_includes m ''did not respond in time''
      then ''Your wallet did not respond in time. Open your wallet and try again.''
      else if js_includes m ''reject'' \<or> js_includes m ''user cancel''
      then ''Signature was rejected in your wallet.''
      else if raw = [] then ''Claim failed. Please try again.'' else raw)"

record user_key =
  uk_type :: string
  uk_key :: string

record claim_request =
  cr_accountId :: string
  cr_net :: string
  cr_sig :: string
  cr_publicKey :: string
  cr_keyType :: int

definition buildClaimRequest ::
  "(js_error \<Rightarrow> string) \<Rightarrow> (string \<Rightarrow> string option) \<Rightarrow> string \<Rightarrow> string \<Rightarrow> sig_value \<Rightarrow> user_key \<Rightarrow> claim_request attempt" where
  "buildClaimRequest engine to_raw accountId net sigRaw k =
     (case keyTypeToInt (uk_type k) of
        Inl e \<Rightarrow> Inl (thrown_of engine e)
      | Inr kt \<Rightarrow>
          Inr \<lparr>cr_accountId = accountId, cr_net = to_lower net, cr_sig = normalizeSignatureBase64 sigRaw,
               cr_publicKey = normalizeClaimPublicKey to_raw (uk_key k) (uk_type k), cr_keyType = kt\<rparr>)"

text \<open>What a request meets: the wallet behind its lock, and the server's code and message.\<close>

record request_world =
  rw_keccak :: "bytes \<Rightarrow> string"
  rw_to_raw :: "string \<Rightarrow> string option"
  rw_engine :: "js_error \<Rightarrow> string"
  rw_sign :: "bytes \<Rightarrow> sig_value attempt"
  rw_claim :: "claim_request \<Rightarrow> (int \<times> string) attempt"

definition or_text :: "string \<Rightarrow> string \<Rightarrow> string" where
  "or_text s t = (if s = [] then t else s)"

definition submitClaimPrism :: "request_world \<Rightarrow> string \<Rightarrow> string \<Rightarrow> user_key \<Rightarrow> string attempt" where
  "submitClaimPrism w accountId net k =
     attempt_bind (buildClaimSigningPayload (rw_keccak w) accountId net) (\<lambda>p.
     attempt_bind (rw_sign w (utf8_bytes (sp_messageToSign p))) (\<lambda>sigRaw.
     attempt_bind (buildClaimRequest (rw_engine w) (rw_to_raw w) accountId net sigRaw k) (\<lambda>request.
     attempt_bind (rw_claim w request) (\<lambda>(code, message).
       if code \<noteq> 0 then Inl (throw (mapClaimError (or_text message ''Failed to claim $PRSM'')))
       else Inr (or_text message ''Claim submitted'')))))"

text \<open>The hook. A claim that is let through sets the flag and clears the error; its end reports and resets the
  flag, and a success makes the balances be read again.\<close>

record claim_state =
  cl_isClaiming :: bool
  cl_error :: "string option"
  cl_toasts :: "toast list"
  cl_invalidations :: nat

definition initial_claim :: claim_state where
  "initial_claim = \<lparr>cl_isClaiming = False, cl_error = None, cl_toasts = [], cl_invalidations = 0\<rparr>"

definition claim_start :: "string option \<Rightarrow> claim_state \<Rightarrow> claim_state \<times> bool" where
  "claim_start accountId s =
     (if accountId = None \<or> accountId = Some []
      then (s\<lparr>cl_toasts := cl_toasts s @ [ToastError ''Connect your wallet to claim $PRSM'']\<rparr>, False)
      else if cl_isClaiming s then (s, False)
      else (s\<lparr>cl_isClaiming := True, cl_error := None\<rparr>, True))"

definition claim_outcome ::
  "request_world \<Rightarrow> string \<Rightarrow> string \<Rightarrow> user_key option \<Rightarrow> user_key attempt \<Rightarrow> string attempt" where
  "claim_outcome w accountId net known fetched =
     attempt_bind (case known of Some k \<Rightarrow> Inr k | None \<Rightarrow> fetched) (submitClaimPrism w accountId net)"

definition claim_end :: "string attempt \<Rightarrow> claim_state \<Rightarrow> claim_state \<times> bool" where
  "claim_end r s =
     (case r of
        Inr message \<Rightarrow>
          (s\<lparr>cl_toasts := cl_toasts s @ [ToastSuccess (if message = ''Claim submitted'' then ''$PRSM claim submitted'' else message)],
             cl_invalidations := Suc (cl_invalidations s), cl_isClaiming := False\<rparr>, True)
      | Inl e \<Rightarrow>
          (let friendly = mapClaimError (case th_message e of Some m \<Rightarrow> m | None \<Rightarrow> [])
           in (s\<lparr>cl_error := Some friendly, cl_toasts := cl_toasts s @ [ToastError friendly], cl_isClaiming := False\<rparr>, False)))"

section \<open>Cancelling an order\<close>

datatype cancel_mode = Uuid_bytes | Utf8_hyphenated | Utf8_no_hyphens | Empty | Base64_uuid | Base64_uuid_hash

definition DEFAULT_CANCEL_PAYLOAD_MODE :: cancel_mode where "DEFAULT_CANCEL_PAYLOAD_MODE = Utf8_hyphenated"

definition is_hyphen_uuid :: "string \<Rightarrow> bool" where
  "is_hyphen_uuid s =
     rx_full (rseq (map RSet (replicate 8 is_hex_lower @ [(=) (CHR ''-'')] @ replicate 4 is_hex_lower @ [(=) (CHR ''-'')]
       @ replicate 4 is_hex_lower @ [(=) (CHR ''-'')] @ replicate 4 is_hex_lower @ [(=) (CHR ''-'')]
       @ replicate 12 is_hex_lower))) (to_lower s)"

record cancel_payload = signing_payload +
  cp_keccakB64 :: string
  cp_mode :: cancel_mode

definition cancel_bytes :: "cancel_mode \<Rightarrow> string \<Rightarrow> bytes \<times> string option" where
  "cancel_bytes mode tx =
     (let raw = bytes_of_hex (remove_dashes tx) in
      case mode of
        Empty \<Rightarrow> ([], None)
      | Uuid_bytes \<Rightarrow> (raw, None)
      | Utf8_no_hyphens \<Rightarrow> (utf8_bytes (remove_dashes tx), None)
      | Base64_uuid \<Rightarrow> (utf8_bytes (base64 raw), Some (base64 raw))
      | Base64_uuid_hash \<Rightarrow> (utf8_bytes (base64 raw), None)
      | Utf8_hyphenated \<Rightarrow> (utf8_bytes tx, None))"

definition buildCancelSigningPayload ::
  "(bytes \<Rightarrow> string) \<Rightarrow> string \<Rightarrow> cancel_mode option \<Rightarrow> cancel_payload attempt" where
  "buildCancelSigningPayload keccak256 tx given =
     (let mode = (case given of None \<Rightarrow> DEFAULT_CANCEL_PAYLOAD_MODE | Some m \<Rightarrow> m) in
      if \<not> is_hyphen_uuid tx
      then Inl (throw (''buildCancelSigningPayload: txId is not a UUID: '' @ tx))
      else (let (payloadBytes, message) = cancel_bytes mode tx;
                hex = keccak256 payloadBytes;
                b64 = base64 (bytes_of_hex (drop 2 hex))
            in Inr \<lparr>sp_keccakHex = hex, sp_messageToSign = (case message of Some m \<Rightarrow> m | None \<Rightarrow> b64),
                    sp_payloadHex = hex_of_bytes payloadBytes, cp_keccakB64 = b64, cp_mode = mode\<rparr>))"

record cancel_request =
  cq_marketId :: string
  cq_txId :: string
  cq_net :: string
  cq_accountId :: string
  cq_sig :: string
  cq_publicKey :: string
  cq_keyType :: int

definition submitSignedCancelWithMode ::
  "request_world \<Rightarrow> (cancel_request \<Rightarrow> (int \<times> string) attempt) \<Rightarrow> string \<Rightarrow> string \<Rightarrow> string \<Rightarrow> string \<Rightarrow> user_key
   \<Rightarrow> cancel_mode option \<Rightarrow> unit attempt" where
  "submitSignedCancelWithMode w api accountId mkt tx net k mode =
     attempt_bind (buildCancelSigningPayload (rw_keccak w) tx mode) (\<lambda>p.
     attempt_bind (rw_sign w (utf8_bytes (sp_messageToSign p))) (\<lambda>sigRaw.
       (case keyTypeToInt (uk_type k) of
          Inl e \<Rightarrow> Inl (thrown_of (rw_engine w) e)
        | Inr kt \<Rightarrow>
            attempt_bind (api \<lparr>cq_marketId = mkt, cq_txId = tx, cq_net = to_lower net, cq_accountId = accountId,
                cq_sig = normalizeSignatureBase64 sigRaw,
                cq_publicKey = normalizePublicKey (rw_to_raw w) (uk_key k) (uk_type k), cq_keyType = kt\<rparr>)
             (\<lambda>(code, message).
                if code \<noteq> 0 then Inl (throw (or_text message ''Failed to cancel order'')) else Inr ()))))"

definition submitSignedCancel ::
  "request_world \<Rightarrow> (cancel_request \<Rightarrow> (int \<times> string) attempt) \<Rightarrow> string \<Rightarrow> string \<Rightarrow> string \<Rightarrow> string \<Rightarrow> user_key \<Rightarrow> unit attempt" where
  "submitSignedCancel w api accountId mkt tx net k =
     submitSignedCancelWithMode w api accountId mkt tx net k None"

section \<open>Regions and market status\<close>

definition geoOverrideCountry :: "string \<Rightarrow> string option \<Rightarrow> string option" where
  "geoOverrideCountry env raw =
     (if env = ''prod'' \<or> raw = None \<or> raw = Some [] then None
      else (let code = to_upper (trim (the raw))
            in if rx_full (rrep 2 (RSet (\<lambda>c. 65 \<le> code_of c \<and> code_of c \<le> 90))) code then Some code else None))"

definition RESTRICTED_COUNTRIES :: "string list" where
  "RESTRICTED_COUNTRIES =
     [''AF'', ''DZ'', ''AO'', ''AU'', ''BY'', ''BE'', ''BO'', ''BG'', ''BF'', ''BI'',
      ''CA'', ''CM'', ''CF'', ''CI'', ''CU'', ''CD'', ''ET'', ''FR'', ''DE'', ''HT'',
      ''HU'', ''IR'', ''IQ'', ''IE'', ''IT'', ''JP'', ''KE'', ''LA'', ''LB'', ''LY'',
      ''ML'', ''MC'', ''MZ'', ''MM'', ''NA'', ''NZ'', ''NI'', ''NE'', ''KP'', ''CN'',
      ''PL'', ''PT'', ''RU'', ''SG'', ''SO'', ''SS'', ''SD'', ''CH'', ''SY'', ''TW'',
      ''TH'', ''UA'', ''AE'', ''GB'', ''US'', ''VE'', ''YE'', ''ZW'']"

definition isRestrictedCountry :: "string option \<Rightarrow> bool" where
  "isRestrictedCountry country =
     (case country of None \<Rightarrow> False | Some c \<Rightarrow> c \<noteq> [] \<and> to_upper c \<in> set RESTRICTED_COUNTRIES)"

definition useGeoRestricted :: "string \<Rightarrow> string option \<Rightarrow> bool option \<Rightarrow> string option \<Rightarrow> bool \<times> string option" where
  "useGeoRestricted env query isMainnet looked =
     (let country = (case geoOverrideCountry env query of Some c \<Rightarrow> Some c | None \<Rightarrow> looked)
      in (isMainnet = Some True \<and> isRestrictedCountry country, country))"

text \<open>The environment a host serves (\<open>web/env.ts\<close>) and the server it talks to (\<open>web/grpcClient.ts\<close>).\<close>

definition HOST_ENV :: "string \<Rightarrow> string option" where
  "HOST_ENV = map_of [(''prism.market'', ''prod''), (''testnet.prism.market'', ''prod''), (''uat.prism.market'', ''uat''),
     (''dev.prism.market'', ''dev''), (''testnet.dev.prism.market'', ''dev'')]"

definition PREVIEW_HOST_SUFFIXES :: "string list" where
  "PREVIEW_HOST_SUFFIXES = [''.lovable.app'', ''.lovableproject.com'', ''.lovable.dev'', ''.prism.amplified.info'']"

definition env_of_host :: "string \<Rightarrow> string" where
  "env_of_host hostname =
     (case HOST_ENV hostname of Some e \<Rightarrow> e
      | None \<Rightarrow> if list_ex (ends_with hostname) PREVIEW_HOST_SUFFIXES then ''dev'' else ''local'')"

definition CROSS_ORIGIN_BACKEND :: "string \<Rightarrow> string" where
  "CROSS_ORIGIN_BACKEND e =
     (if e = ''prod'' then ''https://prism.market/'' else if e = ''uat'' then ''https://uat.prism.market/''
      else if e = ''dev'' then ''https://dev.prism.market/'' else ''/'')"

definition showRewards :: "string \<Rightarrow> bool" where
  "showRewards hostname \<longleftrightarrow> env_of_host hostname \<noteq> ''prod''"

definition baseUrl :: "string option \<Rightarrow> string \<Rightarrow> string" where
  "baseUrl override hostname =
     (case override of Some u \<Rightarrow> u
      | None \<Rightarrow> if HOST_ENV hostname \<noteq> None then ''/'' else CROSS_ORIGIN_BACKEND (env_of_host hostname))"

definition authHeaders :: "bool \<Rightarrow> string option \<Rightarrow> (string \<times> string) list" where
  "authHeaders useCookieAuth token =
     (if useCookieAuth then []
      else (case token of Some jwt \<Rightarrow> if jwt = [] then [] else [(''authorization'', jwt)] | None \<Rightarrow> []))"

datatype market_status = Active | Resolved | Suspended | Closed

record market_dates =
  md_isSuspended :: bool
  md_isPaused :: bool
  md_resolvedAt :: "string option"
  md_closesAt :: "string option"

definition hasDate :: "string option \<Rightarrow> bool" where
  "hasDate s = (case s of None \<Rightarrow> False | Some d \<Rightarrow> d \<noteq> [] \<and> \<not> starts_with d ''0001-01-01'')"

text \<open>\<open>Date.parse\<close> is a parameter.\<close>

definition getMarketStatus :: "(string \<Rightarrow> jsn) \<Rightarrow> jsn \<Rightarrow> market_dates option \<Rightarrow> market_status" where
  "getMarketStatus date_parse now market =
     (case market of
        None \<Rightarrow> Active
      | Some m \<Rightarrow>
          if md_isSuspended m \<or> md_isPaused m then Suspended
          else if hasDate (md_resolvedAt m) then Resolved
          else if hasDate (md_closesAt m) then
            (let closeMs = date_parse (case md_closesAt m of Some d \<Rightarrow> d | None \<Rightarrow> [])
             in if closeMs \<noteq> JNaN \<and> closeMs \<le> now then Closed else Active)
          else Active)"

section \<open>Properties\<close>

lemma utf8_roundtrip [simp]: "bytes_of_hex (hex_of_bytes (utf8_bytes s)) = utf8_bytes s"
  by (rule bytes_of_hex_of_bytes) (simp add: is_bytes_def utf8_bytes_def list_all_iff code_of_range)

text \<open>\<open>submitClaimPrism\<close> maps the server's text and the hook maps what it catches, which is that text again: the
  second mapping changes nothing.\<close>

definition claim_texts :: "string list" where
  "claim_texts =
     [''Associate the $PRSM token in your wallet first, then claim again.'',
      ''You have no unclaimed $PRSM right now.'',
      ''Rewards are temporarily unavailable on the server. Please try again later.'',
      ''The rewards payout wallet is not configured for this network yet.'',
      ''Your wallet did not respond in time. Open your wallet and try again.'',
      ''Signature was rejected in your wallet.'', ''Claim failed. Please try again.'']"

lemma mapClaimError_twice: "mapClaimError (mapClaimError raw) = mapClaimError raw"
proof (cases "mapClaimError raw = raw")
  case False
  then have "mapClaimError raw \<in> set claim_texts"
    by (auto simp: mapClaimError_def claim_texts_def Let_def split: if_splits)
  moreover have "list_all (\<lambda>t. mapClaimError t = t) claim_texts" by code_simp
  ultimately show ?thesis by (simp add: list_all_iff)
qed simp

text \<open>A cancellation the client reports as accepted was signed by the wallet over exactly the message the
  server rebuilds from the order's id (the Hedera message of the id's own text), and was accepted for that
  order, account, signature and network.\<close>

theorem accepted_cancel_was_signed:
  assumes "submitSignedCancel w api acc mkt tx n k = Inr ()"
  shows "is_hyphen_uuid tx
    \<and> (\<exists>sig kt m. rw_sign w (utf8_bytes (keccakB64 (hederaMessageToSignFromPayloadHex (rw_keccak w)
          (hex_of_bytes (utf8_bytes tx))))) = Inr sig
        \<and> keyTypeToInt (uk_type k) = Inr kt
        \<and> api \<lparr>cq_marketId = mkt, cq_txId = tx, cq_net = to_lower n, cq_accountId = acc,
              cq_sig = normalizeSignatureBase64 sig,
              cq_publicKey = normalizePublicKey (rw_to_raw w) (uk_key k) (uk_type k), cq_keyType = kt\<rparr> = Inr (0, m))"
  using assms
  by (cases "keyTypeToInt (uk_type k)")
    (auto simp: submitSignedCancel_def submitSignedCancelWithMode_def attempt_bind_Inr_iff
      buildCancelSigningPayload_def DEFAULT_CANCEL_PAYLOAD_MODE_def cancel_bytes_def
      hederaMessageToSignFromPayloadHex_def Let_def split: if_splits)

definition sample_world :: request_world where
  "sample_world = \<lparr>rw_keccak = demo_keccak, rw_to_raw = (\<lambda>_. None), rw_engine = (\<lambda>_. ''RangeError''),
     rw_sign = (\<lambda>m. Inr (SigBytes m)), rw_claim = (\<lambda>_. Inr (1, ''No unredeemed PRISM rewards available''))\<rparr>"

definition sample_tx :: string where "sample_tx = ''0197F1b2-0000-7000-8000-00000000000a''"
definition sample_key :: user_key where "sample_key = \<lparr>uk_type = ''ED25519'', uk_key = replicate 64 (CHR ''a'')\<rparr>"

theorem accepted_cancel_was_signed_witness:
  "is_hyphen_uuid sample_tx \<and> submitSignedCancel sample_world (\<lambda>_. Inr (0, [])) ''0.0.7'' ''m'' sample_tx ''TESTNET'' sample_key = Inr ()"
proof -
  have "submitSignedCancel sample_world (\<lambda>_. Inr (0, [])) ''0.0.7'' ''m'' sample_tx ''TESTNET'' sample_key = Inr ()"
    by code_simp
  with accepted_cancel_was_signed [OF this] show ?thesis by blast
qed

lemma claim_payload_Inr:
  "buildClaimSigningPayload keccak acc n = Inr p \<Longrightarrow>
     sp_messageToSign p = keccakB64 (hederaMessageToSignFromPayloadHex keccak (hex_of_bytes (utf8_bytes (acc @ '':'' @ to_lower n))))"
  by (auto simp: buildClaimSigningPayload_def hederaMessageToSignFromPayloadHex_def Let_def split: if_splits)

lemma claim_request_Inr:
  "buildClaimRequest engine to_raw acc n sig k = Inr request \<Longrightarrow>
     cr_accountId request = acc \<and> cr_net request = to_lower n \<and> cr_sig request = normalizeSignatureBase64 sig"
  by (auto simp: buildClaimRequest_def split: sum.splits)

lemma submit_claim_Inr:
  assumes "submitClaimPrism w acc n k = Inr message"
  obtains p sig request m where "buildClaimSigningPayload (rw_keccak w) acc n = Inr p"
    "rw_sign w (utf8_bytes (sp_messageToSign p)) = Inr sig"
    "buildClaimRequest (rw_engine w) (rw_to_raw w) acc n sig k = Inr request" "rw_claim w request = Inr (0, m)"
  using assms unfolding submitClaimPrism_def attempt_bind_Inr_iff
  by (auto split: prod.splits if_splits)

text \<open>A claim that was let through ends in one of two ways. It succeeds exactly when the account's key is
  known or can be read, the wallet signs the hash of the account and network, and the server pays; then the
  balances are read again. Otherwise the error shown is the cause's text, explained, and nothing else changes.\<close>

theorem claim_ends_with_cause:
  fixes w :: request_world and acc n :: string and known :: "user_key option" and fetched :: "user_key attempt"
    and s :: claim_state
  assumes "acc \<noteq> []" "\<not> cl_isClaiming s"
  defines "r \<equiv> claim_outcome w acc n known fetched"
    and "s1 \<equiv> fst (claim_start (Some acc) s)"
  shows "snd (claim_start (Some acc) s) \<and> \<not> cl_isClaiming (fst (claim_end r s1))
    \<and> (case r of
         Inr message \<Rightarrow>
           cl_invalidations (fst (claim_end r s1)) = Suc (cl_invalidations s) \<and> cl_error (fst (claim_end r s1)) = None
           \<and> (\<exists>k sig request m. (known = Some k \<or> known = None \<and> fetched = Inr k)
               \<and> rw_sign w (utf8_bytes (keccakB64 (hederaMessageToSignFromPayloadHex (rw_keccak w)
                     (hex_of_bytes (utf8_bytes (acc @ '':'' @ to_lower n)))))) = Inr sig
               \<and> cr_accountId request = acc \<and> cr_net request = to_lower n
               \<and> cr_sig request = normalizeSignatureBase64 sig \<and> rw_claim w request = Inr (0, m))
       | Inl e \<Rightarrow>
           cl_invalidations (fst (claim_end r s1)) = cl_invalidations s
           \<and> cl_error (fst (claim_end r s1)) = Some (mapClaimError (case th_message e of Some m \<Rightarrow> m | None \<Rightarrow> [])))"
proof -
  have s1: "s1 = s\<lparr>cl_isClaiming := True, cl_error := None\<rparr>" "snd (claim_start (Some acc) s)"
    using assms(1,2) by (simp_all add: s1_def claim_start_def)
  show ?thesis
  proof (cases r)
    case (Inl e)
    with s1 show ?thesis by (simp add: claim_end_def Let_def)
  next
    case (Inr message)
    then have "claim_outcome w acc n known fetched = Inr message" by (simp add: r_def)
    then obtain k where k: "known = Some k \<or> known = None \<and> fetched = Inr k" "submitClaimPrism w acc n k = Inr message"
      by (cases known) (auto simp: claim_outcome_def attempt_bind_Inr_iff)
    from submit_claim_Inr [OF k(2)] obtain p sig request m where
      q: "buildClaimSigningPayload (rw_keccak w) acc n = Inr p" "rw_sign w (utf8_bytes (sp_messageToSign p)) = Inr sig"
        "buildClaimRequest (rw_engine w) (rw_to_raw w) acc n sig k = Inr request" "rw_claim w request = Inr (0, m)" .
    from k(1) q(2,4) claim_payload_Inr [OF q(1)] claim_request_Inr [OF q(3)]
    have "\<exists>k sig request m. (known = Some k \<or> known = None \<and> fetched = Inr k)
               \<and> rw_sign w (utf8_bytes (keccakB64 (hederaMessageToSignFromPayloadHex (rw_keccak w)
                     (hex_of_bytes (utf8_bytes (acc @ '':'' @ to_lower n)))))) = Inr sig
               \<and> cr_accountId request = acc \<and> cr_net request = to_lower n
               \<and> cr_sig request = normalizeSignatureBase64 sig \<and> rw_claim w request = Inr (0, m)" by metis
    with Inr s1 show ?thesis by (simp add: claim_end_def)
  qed
qed

theorem claim_ends_with_cause_witness:
  "cl_error (fst (claim_end (claim_outcome sample_world ''0.0.7'' ''testnet'' (Some sample_key) (Inl (throw [])))
     (fst (claim_start (Some ''0.0.7'') initial_claim)))) = Some ''You have no unclaimed $PRSM right now.''"
proof -
  let ?r = "claim_outcome sample_world ''0.0.7'' ''testnet'' (Some sample_key) (Inl (throw []))"
  have r: "?r = Inl (throw ''You have no unclaimed $PRSM right now.'')" by code_simp
  have "mapClaimError ''You have no unclaimed $PRSM right now.'' = ''You have no unclaimed $PRSM right now.''" by code_simp
  with claim_ends_with_cause [of "''0.0.7''" initial_claim sample_world "''testnet''" "Some sample_key" "Inl (throw [])"] r
  show ?thesis by (simp add: initial_claim_def throw_def)
qed

end
