(* ===== verification/Wallets.thy ===== *)
theory Wallets
  imports JsString
begin

text \<open>
  Connecting a wallet: the connector singleton (\<open>src/web/lib/appkit.ts\<close>), the hook that binds its signers
  (\<open>useWallet.ts\<close>), the connect flows (\<open>connectWallet.ts\<close>) and extension discovery (\<open>walletDetect.ts\<close>). The
  \<open>DAppConnector\<close> of the wallet library is a parameter: what its calls answer are arguments.
\<close>

section \<open>The connector singleton\<close>

text \<open>A signer of a session: its account and topic. Connectors are numbered in the order they are built.\<close>

record wc_signer =
  ws_account :: string
  ws_topic :: string

record connector =
  k_network :: string
  k_signers :: "wc_signer list"

text \<open>\<open>switches\<close> are the running \<open>setActiveNetwork\<close> calls: the network each was called with and, once it has
  built it, its connector.\<close>

record appkit =
  a_connectors :: "connector list"
  a_dapp :: "nat option"
  a_init :: "nat option"
  a_network :: string
  a_switches :: "(string \<times> nat option) list"

definition initial_appkit :: appkit where
  "initial_appkit = \<lparr>a_connectors = [], a_dapp = None, a_init = None, a_network = ''testnet'', a_switches = []\<rparr>"

definition ledgerToChain :: "string \<Rightarrow> string" where
  "ledgerToChain network = (if to_lower network = ''mainnet'' then ''hedera:mainnet'' else ''hedera:testnet'')"

definition buildDAppConnector :: "string \<Rightarrow> appkit \<Rightarrow> appkit \<times> nat" where
  "buildDAppConnector network s =
     (s\<lparr>a_connectors := a_connectors s @ [\<lparr>k_network = network, k_signers = []\<rparr>]\<rparr>, length (a_connectors s))"

text \<open>A call of \<open>initDAppConnector\<close>: the connector if there is one, the running initialisation, or a new one.\<close>

definition init_start :: "appkit \<Rightarrow> appkit" where
  "init_start s =
     (if a_dapp s \<noteq> None \<or> a_init s \<noteq> None then s
      else (let (s', c) = buildDAppConnector (a_network s) s in s'\<lparr>a_init := Some c\<rparr>))"

text \<open>Its end, with the signers of the restored session; a failed \<open>init\<close> only warns.\<close>

definition set_signers :: "nat \<Rightarrow> wc_signer list \<Rightarrow> appkit \<Rightarrow> appkit" where
  "set_signers c ss s = s\<lparr>a_connectors := (a_connectors s)[c := (a_connectors s ! c)\<lparr>k_signers := ss\<rparr>]\<rparr>"

definition init_end :: "wc_signer list \<Rightarrow> appkit \<Rightarrow> appkit" where
  "init_end restored s =
     (case a_init s of
        None \<Rightarrow> s
      | Some c \<Rightarrow> (set_signers c restored s)\<lparr>a_dapp := Some c, a_init := None\<rparr>)"

text \<open>\<open>setActiveNetwork\<close> up to the teardown, after it, and after the new connector's \<open>init\<close>; \<open>left\<close> are the
  signers the old connector has after \<open>disconnectAll\<close>, none unless it failed.\<close>

definition switch_start :: "string \<Rightarrow> appkit \<Rightarrow> appkit" where
  "switch_start network s =
     (if a_network s = network then s
      else (let s' = s\<lparr>a_network := network\<rparr>
            in if a_dapp s = None then s' else s'\<lparr>a_switches := a_switches s @ [(network, None)]\<rparr>))"

definition switch_build :: "nat \<Rightarrow> wc_signer list \<Rightarrow> appkit \<Rightarrow> appkit" where
  "switch_build i left s =
     (if i < length (a_switches s) \<and> snd (a_switches s ! i) = None
      then (let s0 = (case a_dapp s of Some c \<Rightarrow> set_signers c left s | None \<Rightarrow> s);
                (s', c) = buildDAppConnector (fst (a_switches s ! i)) s0
            in s'\<lparr>a_switches := (a_switches s)[i := (fst (a_switches s ! i), Some c)]\<rparr>)
      else s)"

definition switch_end :: "nat \<Rightarrow> appkit \<Rightarrow> appkit" where
  "switch_end i s =
     (if i < length (a_switches s)
      then (case snd (a_switches s ! i) of
              None \<Rightarrow> s
            | Some c \<Rightarrow> s\<lparr>a_dapp := Some c, a_switches := take i (a_switches s) @ drop (Suc i) (a_switches s)\<rparr>)
      else s)"

definition signers :: "appkit \<Rightarrow> wc_signer list" where
  "signers s = (case a_dapp s of None \<Rightarrow> [] | Some c \<Rightarrow> k_signers (a_connectors s ! c))"

definition buildSigner :: "string option \<Rightarrow> appkit \<Rightarrow> wc_signer option" where
  "buildSigner preferredAccountId s =
     (if signers s = [] then None
      else (case (case preferredAccountId of
                    None \<Rightarrow> None
                  | Some a \<Rightarrow> if a = [] then None else find (\<lambda>x. ws_account x = a) (signers s)) of
              Some x \<Rightarrow> Some x | None \<Rightarrow> Some (hd (signers s))))"

definition resolveFreshSigner :: "wc_signer \<Rightarrow> appkit \<Rightarrow> wc_signer" where
  "resolveFreshSigner x s =
     (case find (\<lambda>y. ws_account y = ws_account x) (signers s) of Some y \<Rightarrow> y | None \<Rightarrow> x)"

datatype session_ping = PingOk | NoSession | Stale

text \<open>\<open>reply\<close> is when the wallet answered and whether it acknowledged, \<open>None\<close> when it never does.\<close>

definition pingWalletConnectSession :: "int \<Rightarrow> (int \<times> bool) option \<Rightarrow> appkit \<Rightarrow> session_ping" where
  "pingWalletConnectSession timeoutMs reply s =
     (case signers s of
        [] \<Rightarrow> NoSession
      | x # _ \<Rightarrow>
          if ws_topic x = [] then NoSession
          else (case reply of Some (t, ack) \<Rightarrow> if t < timeoutMs \<and> ack then PingOk else Stale | None \<Rightarrow> Stale))"

text \<open>Which events end the session that was active when the handler was installed; \<open>has_signer\<close> is whether a
  signer is left when the event comes.\<close>

datatype wc_event = SessionDelete "string option" | SessionExpire "string option" | PairingDelete

definition onSessionEnd :: "appkit \<Rightarrow> bool \<Rightarrow> wc_event \<Rightarrow> string option" where
  "onSessionEnd s has_signer ev =
     (let active = (case signers s of [] \<Rightarrow> [] | x # _ \<Rightarrow> ws_topic x);
          mine = (\<lambda>t. active = [] \<or> t = Some active)
      in case ev of
           SessionDelete t \<Rightarrow> if mine t then Some ''session_delete'' else None
         | SessionExpire t \<Rightarrow> if mine t then Some ''session_expire'' else None
         | PairingDelete \<Rightarrow> if has_signer then None else Some ''pairing_delete'')"

section \<open>The wallet hook\<close>

text \<open>The bound signer, the account's key information (by account), and the lookups still running.\<close>

record 'info wallet_ui =
  u_signer :: "wc_signer option"
  u_info :: "'info option"
  u_loading :: bool
  u_sheet :: bool
  u_lookups :: "string list"
  u_toasts :: "string list"

definition bindFromSession :: "appkit \<Rightarrow> string option \<Rightarrow> 'info wallet_ui \<Rightarrow> 'info wallet_ui" where
  "bindFromSession s preferredAccountId u =
     (case buildSigner preferredAccountId s of
        None \<Rightarrow> u\<lparr>u_signer := None, u_info := None\<rparr>
      | Some x \<Rightarrow> u\<lparr>u_signer := Some x, u_lookups := u_lookups u @ [ws_account x]\<rparr>)"

text \<open>A lookup ends: its information is set, whatever happened meanwhile; a failed one changes nothing.\<close>

definition lookup_end :: "string \<Rightarrow> 'info option \<Rightarrow> 'info wallet_ui \<Rightarrow> 'info wallet_ui" where
  "lookup_end account answer u =
     (if account \<in> set (u_lookups u)
      then (let u' = u\<lparr>u_lookups := remove1 account (u_lookups u)\<rparr>
            in case answer of None \<Rightarrow> u' | Some i \<Rightarrow> u'\<lparr>u_info := Some i\<rparr>)
      else u)"

definition connect :: "'info wallet_ui \<Rightarrow> 'info wallet_ui" where
  "connect u = (if u_loading u then u else u\<lparr>u_sheet := True\<rparr>)"

definition disconnect_start :: "'info wallet_ui \<Rightarrow> 'info wallet_ui" where
  "disconnect_start u = u\<lparr>u_loading := True, u_signer := None, u_info := None\<rparr>"

text \<open>The end of \<open>disconnect\<close>; the lock its start releases is that of \<open>walletMutex.ts\<close>.\<close>

definition disconnect_end :: "bool \<Rightarrow> wc_signer list \<Rightarrow> appkit \<times> 'info wallet_ui \<Rightarrow> appkit \<times> 'info wallet_ui" where
  "disconnect_end silent left su =
     (let (s, u) = su in
      (case a_dapp s of Some c \<Rightarrow> set_signers c left s | None \<Rightarrow> s,
       u\<lparr>u_loading := False, u_toasts := u_toasts u @ (if silent then [] else [''Wallet disconnected''])\<rparr>))"

definition session_deleted :: "'info wallet_ui \<Rightarrow> 'info wallet_ui" where
  "session_deleted u = u\<lparr>u_signer := None, u_info := None\<rparr>"

text \<open>After a network switch, by the connector that is then the singleton.\<close>

definition network_changed :: "string \<Rightarrow> bool \<Rightarrow> appkit \<Rightarrow> 'info wallet_ui \<Rightarrow> 'info wallet_ui" where
  "network_changed network hadSigner s u =
     (if signers s = []
      then u\<lparr>u_signer := None, u_info := None,
             u_toasts := u_toasts u @ (if hadSigner
               then [''Network changed to '' @ network @ ''. Please reconnect your wallet.''] else [])\<rparr>
      else bindFromSession s None u)"

section \<open>Connect flows\<close>

text \<open>The modal's answers: a session or none, or an error with its message. The result says how often the modal
  was opened, whether stale pairings were purged again, and whether a session came of it.\<close>

datatype modal = Session | NoModalSession | ModalFailed string

record connect_result =
  cx_ok :: bool
  cx_modals :: nat
  cx_purges :: nat
  cx_announced :: bool

definition pairing_exists :: "string \<Rightarrow> bool" where
  "pairing_exists msg \<longleftrightarrow> js_includes (to_lower msg) ''pairing already exists''"

text \<open>The Kabila path: \<open>None\<close> when its client is not ready or gives no link, else how the approval ends.\<close>

definition connectKabilaViaWalletConnect :: "bool option \<Rightarrow> bool" where
  "connectKabilaViaWalletConnect approval = (approval = Some True)"

definition connectWalletConnect :: "bool \<Rightarrow> bool option \<Rightarrow> modal \<Rightarrow> modal \<Rightarrow> connect_result" where
  "connectWalletConnect kabila approval first second =
     (if kabila \<and> connectKabilaViaWalletConnect approval
      then \<lparr>cx_ok = True, cx_modals = 0, cx_purges = 1, cx_announced = True\<rparr>
      else (case first of
              Session \<Rightarrow> \<lparr>cx_ok = True, cx_modals = 1, cx_purges = 1, cx_announced = True\<rparr>
            | NoModalSession \<Rightarrow> \<lparr>cx_ok = False, cx_modals = 1, cx_purges = 1, cx_announced = False\<rparr>
            | ModalFailed msg \<Rightarrow>
                if pairing_exists msg
                then \<lparr>cx_ok = (second = Session), cx_modals = 2, cx_purges = 2, cx_announced = (second = Session)\<rparr>
                else \<lparr>cx_ok = False, cx_modals = 1, cx_purges = 1, cx_announced = False\<rparr>))"

section \<open>Extension discovery\<close>

datatype wallet_id = Hashpack | Kabila | Saucerswap | Walletconnect | Metamask

record extension =
  x_name :: "string option"
  x_id :: "string option"

record discovery =
  v_discovered :: "extension list"
  v_started :: bool
  v_primed :: bool
  v_notified :: nat

definition initial_discovery :: discovery where
  "initial_discovery = \<lparr>v_discovered = [], v_started = False, v_primed = False, v_notified = 0\<rparr>"

record window_message =
  wm_own_window :: bool
  wm_origin :: string
  wm_type :: "string option"
  wm_metadata :: "extension option"

definition lower_name :: "extension \<Rightarrow> string" where
  "lower_name e = to_lower (case x_name e of Some n \<Rightarrow> n | None \<Rightarrow> [])"

definition lacks_id :: "extension \<Rightarrow> bool" where
  "lacks_id e \<longleftrightarrow> x_id e = None \<or> x_id e = Some []"

text \<open>The first known extension of that name gets the id it lacks; no other entry changes.\<close>

fun give_id :: "string \<Rightarrow> string option \<Rightarrow> extension list \<Rightarrow> extension list" where
  "give_id name i [] = []"
| "give_id name i (e # es) = (if lower_name e = name then e\<lparr>x_id := i\<rparr> # es else e # give_id name i es)"

definition on_message :: "string \<Rightarrow> window_message \<Rightarrow> discovery \<Rightarrow> discovery" where
  "on_message page_origin m d =
     (if \<not> v_started d \<or> \<not> wm_own_window m \<or> (wm_origin m \<noteq> [] \<and> wm_origin m \<noteq> page_origin)
         \<or> wm_type m \<noteq> Some ''hedera-extension-response'' then d
      else (case wm_metadata m of
              None \<Rightarrow> d
            | Some e \<Rightarrow>
               (case find (\<lambda>k. lower_name k = lower_name e) (v_discovered d) of
                  None \<Rightarrow> d\<lparr>v_discovered := v_discovered d @ [e], v_notified := Suc (v_notified d)\<rparr>
                | Some known \<Rightarrow>
                    if lacks_id known \<and> \<not> lacks_id e
                    then d\<lparr>v_discovered := give_id (lower_name e) (x_id e) (v_discovered d), v_notified := Suc (v_notified d)\<rparr>
                    else d)))"

definition startDiscovery :: "discovery \<Rightarrow> discovery" where
  "startDiscovery d = d\<lparr>v_started := True\<rparr>"

text \<open>The delays after which the query is broadcast.\<close>

definition primeExtensionDiscovery :: "discovery \<Rightarrow> discovery \<times> int list" where
  "primeExtensionDiscovery d =
     (let d' = startDiscovery d
      in if v_primed d' then (d', []) else (d'\<lparr>v_primed := True\<rparr>, [0, 250, 750, 1500, 3000]))"

definition refreshExtensionDiscovery :: "discovery \<Rightarrow> discovery \<times> int list" where
  "refreshExtensionDiscovery d = (startDiscovery d, [0, 200, 600])"

definition matches :: "wallet_id \<Rightarrow> extension \<Rightarrow> bool" where
  "matches i e =
     (case i of
        Hashpack \<Rightarrow> js_includes (lower_name e) ''hashpack''
      | Kabila \<Rightarrow> js_includes (lower_name e) ''kabila''
      | Saucerswap \<Rightarrow> js_includes (lower_name e) ''saucer''
      | _ \<Rightarrow> False)"

definition findExt :: "wallet_id \<Rightarrow> discovery \<Rightarrow> extension option" where
  "findExt i d = find (matches i) (v_discovered d)"

definition isDetectedSync :: "bool \<Rightarrow> wallet_id \<Rightarrow> discovery \<Rightarrow> bool" where
  "isDetectedSync metamask i d =
     (case i of Metamask \<Rightarrow> metamask | Walletconnect \<Rightarrow> False | _ \<Rightarrow> findExt i d \<noteq> None)"

definition getExtensionId :: "wallet_id \<Rightarrow> discovery \<Rightarrow> string option" where
  "getExtensionId i d = (case findExt i d of None \<Rightarrow> None | Some e \<Rightarrow> x_id e)"

text \<open>The ticks of the asynchronous probe, every 50 ms: \<open>seen k\<close> is whether the extension is known at the k-th.
  The result and the number of queries it sent, the first before the first tick.\<close>

fun detect_ticks :: "(nat \<Rightarrow> bool) \<Rightarrow> int \<Rightarrow> nat \<Rightarrow> nat \<Rightarrow> int \<Rightarrow> nat \<Rightarrow> (bool \<times> nat) option" where
  "detect_ticks seen timeoutMs 0 k lastQ queries = None"
| "detect_ticks seen timeoutMs (Suc fuel) k lastQ queries =
     (let now = 50 * int k in
      if seen k then Some (True, queries)
      else if now \<ge> timeoutMs then Some (False, queries)
      else if now - lastQ \<ge> 250 then detect_ticks seen timeoutMs fuel (Suc k) now (Suc queries)
      else detect_ticks seen timeoutMs fuel (Suc k) lastQ queries)"

definition detectHederaExtension :: "bool \<Rightarrow> (nat \<Rightarrow> bool) \<Rightarrow> int \<Rightarrow> (bool \<times> nat) option" where
  "detectHederaExtension known seen timeoutMs =
     (if known then Some (True, 0) else detect_ticks seen timeoutMs (Suc (nat timeoutMs)) 0 0 1)"

definition connectExtension :: "wallet_id \<Rightarrow> discovery \<Rightarrow> bool option \<Rightarrow> bool" where
  "connectExtension i d session =
     (case getExtensionId i d of
        None \<Rightarrow> False
      | Some x \<Rightarrow> if x = [] then False else session = Some True)"

section \<open>The connector and the selected network\<close>

text \<open>Histories in which a network switch waits for the initialisation, as \<open>handleNetworkChange\<close> does, and for
  the switch before it.\<close>

definition calm :: "appkit \<Rightarrow> bool" where
  "calm s \<longleftrightarrow> a_dapp s \<noteq> None \<and> a_switches s = []"

inductive kit_step :: "appkit \<Rightarrow> appkit \<Rightarrow> bool" where
  kit_init: "kit_step s (init_start s)"
| kit_ready: "kit_step s (init_end ss s)"
| kit_switch: "calm s \<Longrightarrow> kit_step s (switch_start network s)"
| kit_build: "kit_step s (switch_build i ss s)"
| kit_switched: "kit_step s (switch_end i s)"
| kit_session: "a_dapp s = Some c \<Longrightarrow> kit_step s (set_signers c ss s)"

definition kit_ok :: "appkit \<Rightarrow> bool" where
  "kit_ok s \<longleftrightarrow>
     (\<forall>c. a_dapp s = Some c \<longrightarrow> c < length (a_connectors s))
     \<and> (\<forall>c. a_init s = Some c \<longrightarrow> a_dapp s = None \<and> c < length (a_connectors s) \<and> k_network (a_connectors s ! c) = a_network s)
     \<and> length (a_switches s) \<le> 1 \<and> (a_switches s \<noteq> [] \<longrightarrow> a_dapp s \<noteq> None)
     \<and> (\<forall>p\<in>set (a_switches s). fst p = a_network s
          \<and> (\<forall>c. snd p = Some c \<longrightarrow> c < length (a_connectors s) \<and> k_network (a_connectors s ! c) = a_network s))
     \<and> (a_switches s = [] \<longrightarrow> (\<forall>c. a_dapp s = Some c \<longrightarrow> k_network (a_connectors s ! c) = a_network s))"

lemma set_signers_simps [simp]:
  "length (a_connectors (set_signers c ss s)) = length (a_connectors s)"
  "a_dapp (set_signers c ss s) = a_dapp s" "a_init (set_signers c ss s) = a_init s"
  "a_network (set_signers c ss s) = a_network s" "a_switches (set_signers c ss s) = a_switches s"
  "d < length (a_connectors s) \<Longrightarrow> k_network (a_connectors (set_signers c ss s) ! d) = k_network (a_connectors s ! d)"
  by (simp_all add: set_signers_def) (cases "d = c", simp_all)

lemma single_switch: "length xs \<le> 1 \<Longrightarrow> i < length xs \<Longrightarrow> xs = [xs ! i]"
  by (cases xs) auto

lemma kit_ok_step:
  assumes "kit_step s t" "kit_ok s"
  shows "kit_ok t"
  using assms(1)
proof (cases rule: kit_step.cases)
  case kit_init
  with assms(2) show ?thesis by (auto simp: init_start_def buildDAppConnector_def kit_ok_def nth_append)
next
  case (kit_ready ss)
  with assms(2) show ?thesis by (auto simp: init_end_def kit_ok_def split: option.split)
next
  case (kit_switch network)
  with assms(2) show ?thesis by (auto simp: switch_start_def kit_ok_def calm_def)
next
  case (kit_build i ss)
  show ?thesis
  proof (cases "i < length (a_switches s) \<and> snd (a_switches s ! i) = None")
    case True
    then have one: "a_switches s = [(a_network s, None)]"
      using assms(2) single_switch [of "a_switches s" i] by (cases "a_switches s ! i") (auto simp: kit_ok_def)
    obtain c where c: "a_dapp s = Some c" "c < length (a_connectors s)"
      using assms(2) one by (auto simp: kit_ok_def)
    have "a_init s = None" using assms(2) c(1) by (auto simp: kit_ok_def)
    with kit_build True one c show ?thesis
      by (simp add: switch_build_def buildDAppConnector_def kit_ok_def Let_def nth_append)
  qed (use kit_build assms(2) in \<open>auto simp: switch_build_def\<close>)
next
  case (kit_switched i)
  show ?thesis
  proof (cases "i < length (a_switches s) \<and> snd (a_switches s ! i) \<noteq> None")
    case True
    then obtain c where one: "a_switches s = [(a_network s, Some c)]"
      using assms(2) single_switch [of "a_switches s" i] by (cases "a_switches s ! i") (auto simp: kit_ok_def)
    with True kit_switched assms(2) show ?thesis by (auto simp: switch_end_def kit_ok_def)
  qed (use kit_switched assms(2) in \<open>auto simp: switch_end_def\<close>)
next
  case (kit_session c ss)
  with assms(2) show ?thesis by (auto simp: kit_ok_def)
qed

lemma kit_ok_initial: "kit_ok initial_appkit"
  by (simp add: kit_ok_def initial_appkit_def)

text \<open>Without a network switch there is one connector, however often and whenever it is asked for.\<close>

lemma init_once:
  assumes "a_connectors s = [] \<and> a_dapp s = None \<and> a_init s = None
    \<or> length (a_connectors s) = 1 \<and> (a_dapp s \<noteq> None \<or> a_init s \<noteq> None)"
  shows "length (a_connectors (init_start s)) = 1 \<and> (a_dapp (init_start s) \<noteq> None \<or> a_init (init_start s) \<noteq> None)"
    "length (a_connectors (init_end ss (init_start s))) = 1 \<and> a_dapp (init_end ss (init_start s)) \<noteq> None"
  using assms
  by (auto simp: init_start_def init_end_def buildDAppConnector_def set_signers_def split: option.split)

text \<open>Two switches that overlap: the older one finishes last, and its connector replaces that of the network the
  user selected.\<close>

lemma overlapping_switches_keep_old_network:
  "let s = init_end [] (init_start initial_appkit);
       s = switch_start ''mainnet'' s; s = switch_start ''testnet'' s;
       s = switch_build 1 [] s; s = switch_end 1 s; s = switch_build 0 [] s; s = switch_end 0 s
   in a_network s = ''testnet'' \<and> a_switches s = []
     \<and> map_option (\<lambda>c. k_network (a_connectors s ! c)) (a_dapp s) = Some ''mainnet''"
  by code_simp

text \<open>The lookup of an account's key is not tied to the signer it was started for: one that answers late
  replaces the key of the account bound meanwhile, and one that answers after a disconnect fills it again.\<close>

lemma late_lookup_replaces_key:
  assumes "signers s = [x]" "signers t = [y]" "ws_account x \<noteq> ws_account y" "u_lookups u = []"
  shows "let v = bindFromSession t None (bindFromSession s None u);
             v = lookup_end (ws_account y) (Some ky) v; v = lookup_end (ws_account x) (Some kx) v
         in u_signer v = Some y \<and> u_info v = Some kx"
  using assms by (simp add: bindFromSession_def buildSigner_def lookup_end_def Let_def)

section \<open>Facts on signers and extensions\<close>

lemma buildSigner_member: "buildSigner a s = Some x \<Longrightarrow> x \<in> set (signers s)"
  by (auto simp: buildSigner_def find_Some_iff hd_conv_nth split: if_splits option.splits)

lemma buildSigner_preferred:
  assumes "y \<in> set (signers s)" "ws_account y \<noteq> []"
  shows "\<exists>x. buildSigner (Some (ws_account y)) s = Some x \<and> ws_account x = ws_account y"
proof -
  have "find (\<lambda>x. ws_account x = ws_account y) (signers s) \<noteq> None"
    using assms(1) by (auto simp: find_None_iff)
  then obtain x where "find (\<lambda>x. ws_account x = ws_account y) (signers s) = Some x" by blast
  moreover from this have "ws_account x = ws_account y" by (auto simp: find_Some_iff)
  ultimately show ?thesis using assms by (auto simp: buildSigner_def)
qed

lemma resolveFreshSigner_same_account: "ws_account (resolveFreshSigner x s) = ws_account x"
  by (auto simp: resolveFreshSigner_def find_Some_iff split: option.split)

lemma give_id_names [simp]: "map lower_name (give_id n i es) = map lower_name es"
  by (induction es) (auto simp: lower_name_def)

text \<open>Each extension is listed once, and only the page's own messages change the list.\<close>

lemma on_message_distinct:
  assumes "distinct (map lower_name (v_discovered d))"
  shows "distinct (map lower_name (v_discovered (on_message origin m d)))"
  using assms by (auto simp: on_message_def find_None_iff split: option.split)

lemma on_message_foreign:
  "\<not> wm_own_window m \<or> (wm_origin m \<noteq> [] \<and> wm_origin m \<noteq> origin) \<Longrightarrow> on_message origin m d = d"
  by (simp add: on_message_def)

text \<open>The extension is in view at a tick no later than the first one at or past the timeout.\<close>

definition sighted :: "(nat \<Rightarrow> bool) \<Rightarrow> int \<Rightarrow> nat \<Rightarrow> bool" where
  "sighted seen timeoutMs k = (\<exists>j\<ge>k. seen j \<and> (\<forall>i. k \<le> i \<and> i < j \<longrightarrow> 50 * int i < timeoutMs))"

lemma sighted_at_limit: "timeoutMs \<le> 50 * int k \<Longrightarrow> sighted seen timeoutMs k = seen k"
  unfolding sighted_def by (metis le_eq_less_or_eq linorder_not_less order_refl)

lemma sighted_now: "seen k \<Longrightarrow> sighted seen timeoutMs k"
  unfolding sighted_def by (rule exI [of _ k]) simp

lemma sighted_later:
  assumes "\<not> seen k" "50 * int k < timeoutMs"
  shows "sighted seen timeoutMs k = sighted seen timeoutMs (Suc k)"
proof
  assume "sighted seen timeoutMs k"
  then obtain j where j: "k \<le> j" "seen j" "\<forall>i. k \<le> i \<and> i < j \<longrightarrow> 50 * int i < timeoutMs"
    by (auto simp: sighted_def)
  then have "Suc k \<le> j" using assms(1) by (cases "j = k") auto
  with j show "sighted seen timeoutMs (Suc k)" unfolding sighted_def by (intro exI [of _ j]) auto
next
  assume "sighted seen timeoutMs (Suc k)"
  then obtain j where j: "Suc k \<le> j" "seen j" "\<forall>i. Suc k \<le> i \<and> i < j \<longrightarrow> 50 * int i < timeoutMs"
    by (auto simp: sighted_def)
  have "50 * int i < timeoutMs" if "k \<le> i" "i < j" for i
    using j(3) that assms(2) by (cases "i = k") auto
  with j show "sighted seen timeoutMs k" unfolding sighted_def by (intro exI [of _ j]) auto
qed

text \<open>The probe ends, and finds the extension exactly when it is sighted.\<close>

lemma detect_ticks_result:
  assumes "timeoutMs \<le> 50 * int (k + fuel)"
  shows "\<exists>q. detect_ticks seen timeoutMs (Suc fuel) k lastQ queries = Some (sighted seen timeoutMs k, q)"
  using assms
proof (induction fuel arbitrary: k lastQ queries)
  case 0
  then show ?case by (simp add: sighted_at_limit Let_def)
next
  case (Suc fuel)
  show ?case
  proof (cases "seen k \<or> timeoutMs \<le> 50 * int k")
    case True
    then show ?thesis by (auto simp: sighted_at_limit sighted_now Let_def)
  next
    case False
    have "timeoutMs \<le> 50 * int (Suc k + fuel)" using Suc.prems by simp
    from Suc.IH [OF this] False show ?thesis
      by (subst detect_ticks.simps(2)) (simp add: sighted_later Let_def del: detect_ticks.simps(2))
  qed
qed

lemma detection_ends:
  "\<exists>q. detectHederaExtension False seen timeoutMs = Some (sighted seen timeoutMs 0, q)"
  unfolding detectHederaExtension_def using detect_ticks_result [of timeoutMs 0 "nat timeoutMs"] by simp

section \<open>Properties\<close>

text \<open>Whatever is asked for and in whichever order initialisations, sessions and network switches end, as long
  as a switch waits for the one before it: when none is running, the connector the app uses is for the
  selected network.\<close>

theorem connector_follows_network:
  assumes "kit_step\<^sup>*\<^sup>* initial_appkit s" "a_switches s = []" "a_dapp s = Some c"
  shows "k_network (a_connectors s ! c) = a_network s"
proof -
  from assms(1) have "kit_ok s" by induction (auto intro: kit_ok_initial kit_ok_step)
  with assms(2,3) show ?thesis by (auto simp: kit_ok_def)
qed

theorem connector_follows_network_witness:
  "let s = switch_end 0 (switch_build 0 [] (switch_start ''mainnet'' (init_end [] (init_start initial_appkit))))
   in a_dapp s = Some 1 \<and> k_network (a_connectors s ! 1) = a_network s"
proof -
  let ?s = "switch_end 0 (switch_build 0 [] (switch_start ''mainnet'' (init_end [] (init_start initial_appkit))))"
  let ?s1 = "init_start initial_appkit"
  let ?s2 = "init_end [] ?s1"
  let ?s3 = "switch_start ''mainnet'' ?s2"
  have "calm ?s2" by code_simp
  then have "kit_step ?s2 ?s3" by (rule kit_switch)
  moreover have "kit_step initial_appkit ?s1" "kit_step ?s1 ?s2" "kit_step ?s3 (switch_build 0 [] ?s3)"
    "kit_step (switch_build 0 [] ?s3) ?s" by (rule kit_init kit_ready kit_build kit_switched)+
  ultimately have "kit_step\<^sup>*\<^sup>* initial_appkit ?s" by (meson rtranclp.intros)
  moreover have "a_switches ?s = [] \<and> a_dapp ?s = Some 1" by code_simp
  ultimately show ?thesis using connector_follows_network [of ?s 1] by (simp add: Let_def)
qed

end
