(* ===== verification/PriceChart.thy ===== *)
theory PriceChart
  imports Rewards
begin

text \<open>
  The price history chart, \<open>src/web/components/GraphPriceV2.tsx\<close>: the window of a range, the requests it is read
  by, the points made of the answers, and what is drawn from them. The server's side of a request is
  \<open>PriceHistory\<close> of \<open>src/api/server/services/markets.go\<close> with its query. Times are milliseconds; quotients of
  times below \<open>2 ^ 52\<close> fall on the same side of every integer as the exact ones, so the arithmetic is exact.
\<close>

section \<open>Ranges and windows\<close>

datatype range_key = R1H | R6H | R1D | R1W | R1M | RALL

definition ONE_MIN :: int where "ONE_MIN = 60000"
definition ONE_HOUR :: int where "ONE_HOUR = 60 * ONE_MIN"
definition ONE_DAY :: int where "ONE_DAY = 24 * ONE_HOUR"
definition ONE_WEEK :: int where "ONE_WEEK = 7 * ONE_DAY"
definition ONE_YEAR :: int where "ONE_YEAR = 365 * ONE_DAY"
definition MAX_POINTS :: int where "MAX_POINTS = 480"

lemmas durations = ONE_MIN_def ONE_HOUR_def ONE_DAY_def ONE_WEEK_def ONE_YEAR_def

record range_config =
  rc_resolution :: string
  rc_chunkSpan :: int
  rc_chunkLimit :: int
  rc_step :: int

record chart_window = range_config +
  rc_from :: int
  rc_to :: int
  rc_span :: int

text \<open>The configuration of a fixed range and its span.\<close>

fun RANGE_CONFIG :: "range_key \<Rightarrow> (range_config \<times> int) option" where
  "RANGE_CONFIG R1H = Some (\<lparr>rc_resolution = ''minute'', rc_chunkSpan = ONE_HOUR, rc_chunkLimit = 60, rc_step = ONE_MIN\<rparr>, ONE_HOUR)"
| "RANGE_CONFIG R6H = Some (\<lparr>rc_resolution = ''minute'', rc_chunkSpan = ONE_HOUR, rc_chunkLimit = 60, rc_step = 5 * ONE_MIN\<rparr>, 6 * ONE_HOUR)"
| "RANGE_CONFIG R1D = Some (\<lparr>rc_resolution = ''minute'', rc_chunkSpan = ONE_HOUR, rc_chunkLimit = 60, rc_step = 15 * ONE_MIN\<rparr>, ONE_DAY)"
| "RANGE_CONFIG R1W = Some (\<lparr>rc_resolution = ''hour'', rc_chunkSpan = 7 * ONE_DAY, rc_chunkLimit = 168, rc_step = 2 * ONE_HOUR\<rparr>, 7 * ONE_DAY)"
| "RANGE_CONFIG R1M = Some (\<lparr>rc_resolution = ''hour'', rc_chunkSpan = 10 * ONE_DAY, rc_chunkLimit = 240, rc_step = 2 * ONE_HOUR\<rparr>, 30 * ONE_DAY)"
| "RANGE_CONFIG RALL = None"

definition STEP_LADDER_MS :: "int list" where
  "STEP_LADDER_MS =
     [ONE_MIN, 5 * ONE_MIN, 15 * ONE_MIN, 30 * ONE_MIN, ONE_HOUR, 2 * ONE_HOUR, 4 * ONE_HOUR, 6 * ONE_HOUR,
      12 * ONE_HOUR, ONE_DAY, 2 * ONE_DAY, ONE_WEEK]"

text \<open>The configuration for a market's whole age, and where its window starts.\<close>

definition deriveAllConfig :: "int \<Rightarrow> int \<Rightarrow> range_config \<times> int" where
  "deriveAllConfig createdMs now =
     (let fromMs = max createdMs (now - 365 * ONE_DAY);
          ageMs = max (now - fromMs) ONE_HOUR;
          (resolution, chunkSpanMs, chunkLimit, minStepMs) =
            (if ageMs \<le> ONE_DAY then (''minute'', ONE_HOUR, 60, ONE_MIN)
             else if ageMs \<le> 30 * ONE_DAY then (''hour'', 10 * ONE_DAY, 240, ONE_HOUR)
             else (''day'', 365 * ONE_DAY, 365, ONE_DAY));
          stepMs = (case find (\<lambda>s. \<not> s < minStepMs \<and> of_int ageMs / of_int s \<le> (of_int MAX_POINTS :: rat)) STEP_LADDER_MS of
                      Some s \<Rightarrow> s | None \<Rightarrow> last STEP_LADDER_MS)
      in (\<lparr>rc_resolution = resolution, rc_chunkSpan = chunkSpanMs, rc_chunkLimit = chunkLimit, rc_step = stepMs\<rparr>, fromMs))"

text \<open>\<open>Math.ceil(n / step) * step\<close>.\<close>

definition ceil_to :: "int \<Rightarrow> int \<Rightarrow> int" where
  "ceil_to step n = - ((- n) div step) * step"

text \<open>The tier of an age; the code's infinite age is \<open>None\<close>.\<close>

definition age_tier :: "int option \<Rightarrow> range_key option" where
  "age_tier age =
     (case age of
        None \<Rightarrow> None
      | Some a \<Rightarrow>
          if a < ONE_HOUR then Some R1H else if a < 6 * ONE_HOUR then Some R6H else if a < ONE_DAY then Some R1D
          else if a < 7 * ONE_DAY then Some R1W else if a < 30 * ONE_DAY then Some R1M else None)"

text \<open>The creation time: \<open>None\<close> without a date; \<open>parsed\<close> is what \<open>Date\<close> makes of the text.\<close>

definition created_ms :: "string \<Rightarrow> int option \<Rightarrow> int option" where
  "created_ms createdAt parsed =
     (if createdAt = [] \<or> createdAt = ''0001-01-01T00:00:00Z'' then None else parsed)"

definition initial_range :: "int option \<Rightarrow> int \<Rightarrow> range_key" where
  "initial_range created now =
     (case created of None \<Rightarrow> RALL
      | Some c \<Rightarrow> (case age_tier (Some (now - c)) of Some r \<Rightarrow> r | None \<Rightarrow> RALL))"

definition fixed_window :: "range_config \<times> int \<Rightarrow> int \<Rightarrow> chart_window" where
  "fixed_window cs now =
     (let (c, span) = cs; toMs = ceil_to (rc_step c) now
      in range_config.extend c \<lparr>rc_from = toMs - span, rc_to = toMs, rc_span = span\<rparr>)"

definition all_window :: "int option \<Rightarrow> int \<Rightarrow> chart_window" where
  "all_window created now =
     (let (c, fromMs) = deriveAllConfig (case created of Some t \<Rightarrow> t | None \<Rightarrow> now - 30 * ONE_DAY) now;
          toMs = ceil_to (rc_step c) now
      in range_config.extend c \<lparr>rc_from = fromMs, rc_to = toMs, rc_span = toMs - fromMs\<rparr>)"

text \<open>A creation time of zero counts as none when the tier is chosen, as the code tests its truth.\<close>

definition window :: "range_key \<Rightarrow> int option \<Rightarrow> int \<Rightarrow> chart_window" where
  "window rng created now =
     (case RANGE_CONFIG rng of
        Some c \<Rightarrow> fixed_window c now
      | None \<Rightarrow>
          (case age_tier (case created of None \<Rightarrow> None | Some c \<Rightarrow> if c = 0 then None else Some (now - c)) of
             None \<Rightarrow> all_window created now
           | Some tier \<Rightarrow> fixed_window (the (RANGE_CONFIG tier)) now))"

section \<open>Requests and answers\<close>

function chunks_from :: "int \<Rightarrow> int \<Rightarrow> int \<Rightarrow> (int \<times> int) list" where
  "chunks_from chunkMs toMs start =
     (if start < toMs \<and> 0 < chunkMs then (start, min (start + chunkMs) toMs) # chunks_from chunkMs toMs (start + chunkMs) else [])"
  by pat_completeness auto
termination by (relation "measure (\<lambda>(chunkMs, toMs, start). nat (toMs - start))") auto

declare chunks_from.simps [simp del]

definition chunks :: "chart_window \<Rightarrow> (int \<times> int) list" where
  "chunks w = chunks_from (rc_chunkSpan w) (rc_to w) (rc_from w)"

text \<open>The server: the length of the resolutions, the guards and the query over the table's rows. A bad request is
  an error; a good one gives the oldest rows, at most \<open>limit\<close>.\<close>

definition resolution_ms :: "string \<Rightarrow> int option" where
  "resolution_ms r =
     map_of [(''second'', 1000), (''minute'', ONE_MIN), (''hour'', ONE_HOUR), (''day'', ONE_DAY), (''week'', ONE_WEEK)] r"

definition PriceHistory :: "(int \<times> jsn) list \<Rightarrow> string \<Rightarrow> int \<Rightarrow> int \<Rightarrow> int \<Rightarrow> (int list \<times> jsn list) option" where
  "PriceHistory rows resolution frm upto' lmt =
     (if upto' < frm then None
      else (case resolution_ms resolution of
              None \<Rightarrow> None
            | Some interval \<Rightarrow>
                if upto' - frm > interval * lmt then None
                else let found = take (nat lmt) (sort_key fst (filter (\<lambda>q. frm \<le> fst q \<and> fst q < upto') rows))
                     in Some (map fst found, map snd found)))"

text \<open>A chunk is asked for up to three times; the pool is that of three workers over a shared cursor, and the
  schedule says which running request ends next.\<close>

definition fetch_chunk :: "(nat \<Rightarrow> 'r option) \<Rightarrow> 'r option" where
  "fetch_chunk reply =
     (case reply 0 of Some r \<Rightarrow> Some r | None \<Rightarrow> (case reply 1 of Some r \<Rightarrow> Some r | None \<Rightarrow> reply 2))"

definition fetch_chunks :: "(int \<times> int \<Rightarrow> nat \<Rightarrow> 'r option) \<Rightarrow> (int \<times> int) list \<Rightarrow> nat list \<Rightarrow> 'r option list" where
  "fetch_chunks reply cs schedule =
     map (\<lambda>r. case r of Some x \<Rightarrow> x | None \<Rightarrow> None) (p_out (runWithPool (\<lambda>c. Inr (fetch_chunk (reply c))) cs 3 schedule))"

definition by_time :: "int \<times> jsn \<Rightarrow> int \<times> jsn \<Rightarrow> jsn" where
  "by_time a b = num_of_bigint (fst a - fst b)"

definition raw_points :: "(int list \<times> jsn list) option list \<Rightarrow> (int \<times> jsn) list" where
  "raw_points results =
     js_sort by_time (concat (map (\<lambda>r. case r of None \<Rightarrow> []
                                      | Some (ts, ps) \<Rightarrow> filter (\<lambda>(t, p). is_finite p) (zip ts ps)) results))"

text \<open>The seed: the last price before the window, from one request that may fail.\<close>

definition seed_request :: "int option \<Rightarrow> chart_window \<Rightarrow> (string \<times> int \<times> int \<times> int) option" where
  "seed_request created w =
     (let seedFrom = (case created of Some c \<Rightarrow> c | None \<Rightarrow> rc_from w - 90 * ONE_DAY)
      in if seedFrom < rc_from w then Some (''hour'', seedFrom, rc_from w, 1000) else None)"

definition seed_price :: "int list \<times> jsn list \<Rightarrow> jsn option" where
  "seed_price resp =
     map_option snd (foldl (\<lambda>l (t, p). if is_finite p \<and> (case l of None \<Rightarrow> True | Some (t', _) \<Rightarrow> t > t') then Some (t, p) else l)
       None (zip (fst resp) (snd resp)))"

definition add_seed :: "(int list \<times> jsn list) option \<Rightarrow> chart_window \<Rightarrow> (int \<times> jsn) list \<Rightarrow> (int \<times> jsn) list" where
  "add_seed answer w raw =
     (case answer of None \<Rightarrow> raw
      | Some resp \<Rightarrow> (case seed_price resp of None \<Rightarrow> raw | Some p \<Rightarrow> (rc_from w, p) # raw))"

section \<open>Buckets\<close>

text \<open>The points up to a time are passed over, the last of them is kept.\<close>

fun advance :: "int \<Rightarrow> (int \<times> jsn) list \<Rightarrow> jsn option \<Rightarrow> (int \<times> jsn) list \<times> jsn option" where
  "advance t [] l = ([], l)"
| "advance t ((u, p) # ps) l = (if u \<le> t then advance t ps (Some p) else ((u, p) # ps, l))"

function bucket_walk :: "int \<Rightarrow> int \<Rightarrow> int \<Rightarrow> (int \<times> jsn) list \<Rightarrow> jsn option \<Rightarrow> (int \<times> jsn) list" where
  "bucket_walk step toMs t ps l =
     (if t \<le> toMs \<and> 0 < step
      then (let (ps', l') = advance t ps l
            in (case l' of None \<Rightarrow> [] | Some p \<Rightarrow> [(t, p)]) @ bucket_walk step toMs (t + step) ps' l')
      else [])"
  by pat_completeness auto
termination by (relation "measure (\<lambda>(step, toMs, t, ps, l). nat (toMs - t + 1))") auto

declare bucket_walk.simps [simp del]

definition bucketPoints :: "(int \<times> jsn) list \<Rightarrow> int \<Rightarrow> int \<Rightarrow> int \<Rightarrow> (int \<times> jsn) list" where
  "bucketPoints raw stepMs fromMs toMs =
     (if stepMs \<le> 0 \<or> toMs \<le> fromMs \<or> raw = [] then raw
      else (let sorted = js_sort by_time raw; start = fromMs div stepMs * stepMs; (rest, l) = advance start sorted None
            in bucket_walk stepMs toMs start rest l))"

text \<open>A load of the chart: the chunks' results and the seed's answer give the points.\<close>

definition fetchHistory ::
  "(int list \<times> jsn list) option list \<Rightarrow> (int list \<times> jsn list) option \<Rightarrow> chart_window \<Rightarrow> (int \<times> jsn) list" where
  "fetchHistory results seed w =
     (let raw = add_seed seed w (raw_points results);
          bucketed = bucketPoints raw (rc_step w) (rc_from w) (rc_to w)
      in if bucketed \<noteq> [] then bucketed else raw)"

text \<open>The chart of a market whose requests all reach a server with these trades.\<close>

definition chart_points :: "(int \<times> jsn) list \<Rightarrow> int option \<Rightarrow> chart_window \<Rightarrow> nat list \<Rightarrow> (int \<times> jsn) list" where
  "chart_points rows created w schedule =
     fetchHistory
       (fetch_chunks (\<lambda>c _. PriceHistory rows (rc_resolution w) (fst c) (snd c) (rc_chunkLimit w)) (chunks w) schedule)
       (case seed_request created w of None \<Rightarrow> None | Some (res, a, b, n) \<Rightarrow> PriceHistory rows res a b n) w"

section \<open>What is drawn\<close>

definition yDomain :: "(int \<times> jsn) list \<Rightarrow> jsn \<times> jsn" where
  "yDomain points =
     (if points = [] then (JNum 0, JNum 1)
      else (let both = concat (map (\<lambda>(t, p). [p, JNum 1 - p]) points);
                lo = foldl (\<lambda>m a. if a < m then a else m) JInf both;
                hi = foldl (\<lambda>m a. if m < a then a else m) JNInf both;
                (lo', hi') = (if js_eq lo hi then (jmax (JNum 0) (lo - lit 0.05), jmin (JNum 1) (hi + lit 0.05)) else (lo, hi));
                pad = (hi' - lo') * lit 0.15
            in (jmax (JNum 0) (lo' - pad), jmin (JNum 1) (hi' + pad))))"

datatype trend = Up | Down | Flat

definition headline :: "(int \<times> jsn) list \<Rightarrow> jsn option \<Rightarrow> jsn \<times> jsn \<times> trend" where
  "headline points currentProbability =
     (case points of
        [] \<Rightarrow> (case currentProbability of Some y \<Rightarrow> if is_finite y then y else lit 0.5 | None \<Rightarrow> lit 0.5, JNum 0, Flat)
      | first # _ \<Rightarrow>
          let delta = snd (last points) - snd first
          in (snd (last points), delta,
              if abs delta < lit 0.005 then Flat else if JNum 0 < delta then Up else Down))"

definition spark_point :: "nat \<Rightarrow> jsn \<Rightarrow> jsn \<Rightarrow> nat \<Rightarrow> jsn \<Rightarrow> string" where
  "spark_point n lo hi i p =
     (let x = num_of_bigint (int i) * (JNum 80 / num_of_bigint (int n - 1));
          y = JNum 20 - (p - lo) / (hi - lo) * JNum 20
      in (if i = 0 then ''M'' else ''L'') @ to_fixed x 1 @ '','' @ to_fixed y 1)"

definition sparkPath :: "(int \<times> jsn) list \<Rightarrow> string option" where
  "sparkPath points =
     (if length points < 2 then None
      else (let ps = map snd points;
                lo = foldl (\<lambda>m a. if a < m then a else m) JInf ps;
                hi = foldl (\<lambda>m a. if m < a then a else m) JNInf ps;
                (lo', hi') = (if js_eq lo hi then (lo - lit 0.01, hi + lit 0.01) else (lo, hi));
                texts = map (\<lambda>i. spark_point (length ps) lo' hi' i (ps ! i)) [0..<length ps]
            in Some (hd texts @ concat (map (\<lambda>s. '' '' @ s) (tl texts)))))"

section \<open>Sorting and splitting by time\<close>

lemma num_of_bigint_pos: "JNum 0 < num_of_bigint n \<longleftrightarrow> 0 < n"
proof
  assume "0 < n"
  then have "fl (of_int 1) \<le> fl (of_int n)" by (intro fl_mono) simp
  then have "1 \<le> fl (of_int n)" using fl_of_int [of 1] by simp
  then show "JNum 0 < num_of_bigint n" by (auto simp: num_of_bigint_def jsfin_def Let_def)
next
  assume *: "JNum 0 < num_of_bigint n"
  show "0 < n"
  proof (rule ccontr)
    assume "\<not> 0 < n"
    then have "fl (of_int n) \<le> fl 0" by (intro fl_mono) simp
    with * show False by (auto simp: num_of_bigint_def jsfin_def Let_def split: if_splits)
  qed
qed

lemma js_sort_by_time [simp]: "js_sort by_time xs = sort_key fst xs"
proof (induction xs)
  case (Cons x xs)
  have "js_insert by_time x ys = insort_key fst x ys" for ys
    by (induction ys) (auto simp: by_time_def num_of_bigint_pos)
  with Cons show ?case by (simp add: js_sort_def)
qed (simp add: js_sort_def)

definition during :: "int \<Rightarrow> int \<Rightarrow> (int \<times> jsn) list \<Rightarrow> (int \<times> jsn) list" where
  "during a b rows = sort_key fst (filter (\<lambda>q. a \<le> fst q \<and> fst q < b) rows)"

lemma set_during [simp]: "set (during a b rows) = {q \<in> set rows. a \<le> fst q \<and> fst q < b}"
  by (auto simp: during_def)

lemma sorted_during [simp]: "sorted (map fst (during a b rows))"
  by (simp add: during_def)

lemma during_split:
  assumes "a \<le> m" "m \<le> b"
  shows "during a b rows = during a m rows @ during m b rows"
proof -
  have "filter (\<lambda>q. a \<le> fst q \<and> fst q < b) xs
      = filter (\<lambda>q. a \<le> fst q \<and> fst q < m) xs @ filter (\<lambda>q. m \<le> fst q \<and> fst q < b) xs"
    if "sorted (map fst xs)" for xs :: "(int \<times> jsn) list"
    using that
  proof (induction xs)
    case (Cons q xs)
    show ?case
    proof (cases "fst q < m")
      case True
      with Cons assms show ?thesis by auto
    next
      case False
      with Cons.prems have "filter (\<lambda>r. a \<le> fst r \<and> fst r < m) xs = []" by (auto simp: filter_empty_conv)
      with Cons assms False show ?thesis by auto
    qed
  qed simp
  from this [of "sort_key fst rows"] show ?thesis
    by (simp add: during_def filter_sort)
qed

lemma chunks_cover: "start \<le> toMs \<Longrightarrow> 0 < len \<Longrightarrow>
  concat (map (\<lambda>c. during (fst c) (snd c) rows) (chunks_from len toMs start)) = during start toMs rows"
proof (induction len toMs start rule: chunks_from.induct)
  case (1 len toMs start)
  show ?case
  proof (cases "start < toMs")
    case True
    show ?thesis
    proof (cases "start + len \<le> toMs")
      case le: True
      then show ?thesis using 1 True during_split [of start "start + len" toMs rows]
        by (simp add: chunks_from.simps [of len toMs start])
    next
      case False
      then have "chunks_from len toMs (start + len) = []" by (simp add: chunks_from.simps)
      then show ?thesis using False True 1(3) by (simp add: chunks_from.simps [of len toMs start])
    qed
  next
    case False
    then have "start = toMs" using 1(2) by simp
    moreover from this have "filter (\<lambda>q. start \<le> fst q \<and> fst q < toMs) rows = []" by (auto simp: filter_empty_conv)
    ultimately show ?thesis by (simp add: chunks_from.simps during_def)
  qed
qed

lemma chunks_from_bounds:
  "c \<in> set (chunks_from len toMs start) \<Longrightarrow> start \<le> fst c \<and> fst c < snd c \<and> snd c \<le> toMs \<and> snd c - fst c \<le> len"
proof (induction len toMs start rule: chunks_from.induct)
  case (1 len toMs start)
  then show ?case
    by (subst (asm) (2) chunks_from.simps) (force split: if_splits)
qed

section \<open>Buckets are a forward fill\<close>

definition price_at :: "(int \<times> jsn) list \<Rightarrow> jsn option \<Rightarrow> int \<Rightarrow> jsn option" where
  "price_at pts l t = (case filter (\<lambda>q. fst q \<le> t) pts of [] \<Rightarrow> l | qs \<Rightarrow> Some (snd (last qs)))"

lemma price_at_Nil [simp]: "price_at [] l t = l"
  by (simp add: price_at_def)

lemma price_at_Cons:
  "price_at (q # pts) l t = price_at pts (if fst q \<le> t then Some (snd q) else l) t"
  by (auto simp: price_at_def split: list.split)

lemma price_at_later: "\<forall>q\<in>set pts. t < fst q \<Longrightarrow> price_at pts l t = l"
proof -
  assume "\<forall>q\<in>set pts. t < fst q"
  then have "filter (\<lambda>q. fst q \<le> t) pts = []" by (auto simp: filter_empty_conv)
  then show ?thesis by (simp add: price_at_def)
qed

lemma advance_spec:
  "sorted (map fst ps) \<Longrightarrow> advance t ps l = (filter (\<lambda>q. t < fst q) ps, price_at ps l t)"
proof (induction t ps l rule: advance.induct)
  case (2 t u p ps l)
  show ?case
  proof (cases "u \<le> t")
    case True
    with 2 show ?thesis by (simp add: price_at_Cons)
  next
    case False
    then have "\<forall>q\<in>set ((u, p) # ps). t < fst q" using 2(2) by auto
    then show ?thesis using False price_at_later [of "(u, p) # ps" t l] by (auto simp: filter_id_conv)
  qed
qed simp

lemma price_at_resume:
  assumes "t \<le> u"
  shows "sorted (map fst ps) \<Longrightarrow> price_at (filter (\<lambda>q. t < fst q) ps) (price_at ps l t) u = price_at ps l u"
proof (induction ps arbitrary: l)
  case (Cons q ps)
  show ?case
  proof (cases "fst q \<le> t")
    case True
    then show ?thesis using Cons assms by (simp add: price_at_Cons)
  next
    case False
    then have "\<forall>r\<in>set (q # ps). t < fst r" using Cons.prems by auto
    then show ?thesis using price_at_later [of "q # ps" t l] by (simp add: filter_id_conv)
  qed
qed simp

definition grid :: "int \<Rightarrow> int \<Rightarrow> int \<Rightarrow> int list" where
  "grid step toMs start = map (\<lambda>k. start + int k * step) [0..<nat ((toMs - start) div step + 1)]"

lemma grid_step:
  assumes "0 < step" "t \<le> toMs"
  shows "grid step toMs t = t # grid step toMs (t + step)"
proof -
  let ?n = "nat ((toMs - (t + step)) div step + 1)"
  have "(toMs - (t + step)) div step = (toMs - t) div step - 1"
    using assms(1) div_add_self2 [of step "toMs - t - step"] by (simp add: algebra_simps)
  moreover have "0 \<le> (toMs - t) div step" using assms by (simp add: pos_imp_zdiv_nonneg_iff)
  ultimately have "nat ((toMs - t) div step + 1) = Suc ?n" by simp
  then have "grid step toMs t = map (\<lambda>k. t + int k * step) (0 # map Suc [0..<?n])"
    unfolding grid_def by (simp only: upt_conv_Cons zero_less_Suc map_Suc_upt)
  also have "\<dots> = t # grid step toMs (t + step)"
    by (simp add: grid_def algebra_simps comp_def)
  finally show ?thesis .
qed

lemma grid_end:
  assumes "0 < step" "toMs < t"
  shows "grid step toMs t = []"
proof -
  have "(toMs - t) div step < 0" using assms by (simp add: neg_imp_zdiv_neg_iff pos_imp_zdiv_neg_iff)
  then show ?thesis by (simp add: grid_def)
qed

definition filled :: "(int \<times> jsn) list \<Rightarrow> jsn option \<Rightarrow> int list \<Rightarrow> (int \<times> jsn) list" where
  "filled pts l ts = concat (map (\<lambda>t. case price_at pts l t of None \<Rightarrow> [] | Some p \<Rightarrow> [(t, p)]) ts)"

lemma filled_resume:
  assumes "sorted (map fst ps)" "\<forall>u\<in>set ts. t \<le> u"
  shows "filled (filter (\<lambda>q. t < fst q) ps) (price_at ps l t) ts = filled ps l ts"
  using assms by (auto simp: filled_def price_at_resume intro!: arg_cong [where f = concat])

lemma grid_above: "u \<in> set (grid step toMs t) \<Longrightarrow> 0 < step \<Longrightarrow> t \<le> u"
  by (auto simp: grid_def)

lemma bucket_walk_filled:
  "0 < step \<Longrightarrow> sorted (map fst ps) \<Longrightarrow> bucket_walk step toMs t ps l = filled ps l (grid step toMs t)"
proof (induction step toMs t ps l rule: bucket_walk.induct)
  case (1 step toMs t ps l)
  show ?case
  proof (cases "t \<le> toMs")
    case True
    let ?ps = "filter (\<lambda>q. t < fst q) ps" and ?l = "price_at ps l t"
    have "sorted (map fst ?ps)" using 1(3) by (rule sorted_filter)
    then have "bucket_walk step toMs (t + step) ?ps ?l = filled ?ps ?l (grid step toMs (t + step))"
      using 1(1) [of "(?ps, ?l)" ?ps ?l] True 1(2,3) by (simp add: advance_spec)
    also have "\<dots> = filled ps l (grid step toMs (t + step))"
      using 1(2,3) by (intro filled_resume) (auto dest: grid_above)
    finally show ?thesis using True 1(2,3)
      by (simp add: bucket_walk.simps [of step toMs t] advance_spec grid_step filled_def)
  next
    case False
    with 1(2) show ?thesis by (simp add: bucket_walk.simps grid_end filled_def)
  qed
qed

lemma bucketPoints_filled:
  assumes "0 < stepMs" "fromMs < toMs"
  shows "bucketPoints raw stepMs fromMs toMs
    = filled (sort_key fst raw) None (grid stepMs toMs (fromMs div stepMs * stepMs))"
proof (cases "raw = []")
  case True
  then show ?thesis using assms by (simp add: bucketPoints_def filled_def)
next
  case False
  let ?t = "fromMs div stepMs * stepMs" and ?ps = "sort_key fst raw"
  have "bucketPoints raw stepMs fromMs toMs
      = bucket_walk stepMs toMs ?t (filter (\<lambda>q. ?t < fst q) ?ps) (price_at ?ps None ?t)"
    using False assms by (simp add: bucketPoints_def advance_spec Let_def)
  also have "\<dots> = filled (filter (\<lambda>q. ?t < fst q) ?ps) (price_at ?ps None ?t) (grid stepMs toMs ?t)"
    using assms(1) by (intro bucket_walk_filled) (auto intro: sorted_filter)
  also have "\<dots> = filled ?ps None (grid stepMs toMs ?t)"
    using assms(1) by (intro filled_resume) (auto dest: grid_above)
  finally show ?thesis .
qed

section \<open>Windows\<close>

lemma ceil_to_bounds:
  assumes "0 < step"
  shows "n \<le> ceil_to step n \<and> ceil_to step n < n + step"
proof -
  have "- n div step * step + (- n) mod step = - n" by (rule div_mult_mod_eq)
  moreover have "0 \<le> (- n) mod step" "(- n) mod step < step" using assms by simp_all
  ultimately show ?thesis unfolding ceil_to_def by linarith
qed

lemma ceil_to_dvd: "step dvd ceil_to step n"
  by (simp add: ceil_to_def)

definition window_ok :: "int \<Rightarrow> chart_window \<Rightarrow> bool" where
  "window_ok now w \<longleftrightarrow>
     0 < rc_step w \<and> 0 < rc_chunkSpan w \<and> rc_from w < rc_to w \<and> rc_step w dvd rc_to w
     \<and> now \<le> rc_to w \<and> rc_to w < now + rc_step w \<and> rc_to w - rc_from w < (MAX_POINTS + 1) * rc_step w
     \<and> (\<exists>interval. resolution_ms (rc_resolution w) = Some interval \<and> rc_chunkSpan w \<le> interval * rc_chunkLimit w)"

lemma fixed_window_ok:
  assumes "RANGE_CONFIG r = Some c"
  shows "window_ok now (fixed_window c now)"
  using assms
  by (cases r)
    (auto simp: window_ok_def fixed_window_def Let_def range_config.defs durations MAX_POINTS_def resolution_ms_def
       ceil_to_bounds ceil_to_dvd)

lemma ladder_find:
  assumes "find P STEP_LADDER_MS = Some s"
  shows "P s" "0 < s"
proof -
  have "P s \<and> s \<in> set STEP_LADDER_MS" using assms by (auto simp: find_Some_iff in_set_conv_nth)
  then show "P s" "0 < s" by (auto simp: STEP_LADDER_MS_def durations)
qed

lemma derive_step:
  assumes "deriveAllConfig created now = (c, fromMs)"
  shows "0 < rc_step c" "now - fromMs \<le> MAX_POINTS * rc_step c" "fromMs = max created (now - 365 * ONE_DAY)"
proof -
  let ?age = "max (now - max created (now - 365 * ONE_DAY)) ONE_HOUR"
  have year: "?age \<le> 365 * ONE_DAY" by (simp add: durations)
  let ?choose = "\<lambda>least. case find (\<lambda>s. \<not> s < least \<and> of_int ?age / of_int s \<le> (of_int MAX_POINTS :: rat)) STEP_LADDER_MS of
      Some s \<Rightarrow> s | None \<Rightarrow> last STEP_LADDER_MS"
  have f: "fromMs = max created (now - 365 * ONE_DAY)"
    using assms unfolding deriveAllConfig_def Let_def by (simp split: prod.splits)
  have "rc_step c \<in> {?choose ONE_MIN, ?choose ONE_HOUR, ?choose ONE_DAY}"
    using assms unfolding deriveAllConfig_def Let_def
    by (cases "?age \<le> ONE_DAY"; cases "?age \<le> 30 * ONE_DAY") (simp_all only: if_True if_False prod.case Pair_inject, auto simp only: range_config.simps)
  then obtain least where s: "rc_step c = ?choose least" by blast
  show "fromMs = max created (now - 365 * ONE_DAY)" by (rule f)
  have "0 < rc_step c \<and> ?age \<le> MAX_POINTS * rc_step c"
  proof (cases "find (\<lambda>s. \<not> s < least \<and> of_int ?age / of_int s \<le> (of_int MAX_POINTS :: rat)) STEP_LADDER_MS")
    case None
    then have "rc_step c = ONE_WEEK" using s by (simp add: STEP_LADDER_MS_def)
    then show ?thesis using year by (simp add: durations MAX_POINTS_def)
  next
    case (Some t)
    from ladder_find [OF this] have "0 < t" "(of_int ?age :: rat) \<le> of_int MAX_POINTS * of_int t"
      by (simp_all add: pos_divide_le_eq)
    then have "?age \<le> MAX_POINTS * t" by (simp only: of_int_mult [symmetric] of_int_le_iff)
    then show ?thesis using Some s \<open>0 < t\<close> by simp
  qed
  then show "0 < rc_step c" "now - fromMs \<le> MAX_POINTS * rc_step c" by (simp_all add: f)
qed

lemma all_window_ok:
  assumes "(case created of Some t \<Rightarrow> t | None \<Rightarrow> now - 30 * ONE_DAY) < now"
  shows "window_ok now (all_window created now)"
proof -
  obtain c fromMs where d: "deriveAllConfig (case created of Some t \<Rightarrow> t | None \<Rightarrow> now - 30 * ONE_DAY) now = (c, fromMs)"
    by (cases "deriveAllConfig (case created of Some t \<Rightarrow> t | None \<Rightarrow> now - 30 * ONE_DAY) now")
  note step = derive_step [OF d]
  have "fromMs < now" using step(3) assms by (simp add: durations)
  moreover have "0 < rc_chunkSpan c" "\<exists>interval. resolution_ms (rc_resolution c) = Some interval \<and> rc_chunkSpan c \<le> interval * rc_chunkLimit c"
    using d by (auto simp: deriveAllConfig_def Let_def durations resolution_ms_def split: if_splits)
  ultimately show ?thesis
    using step(1,2) d ceil_to_bounds [OF step(1), of now]
    by (simp add: window_ok_def all_window_def range_config.defs ceil_to_dvd distrib_right Let_def)
qed

lemma window_ok: "0 < now \<Longrightarrow> window_ok now (window rng created now)"
proof (cases "RANGE_CONFIG rng")
  case (Some c)
  then show ?thesis by (simp add: window_def fixed_window_ok)
next
  case None
  assume now: "0 < now"
  let ?age = "case created of None \<Rightarrow> None | Some c \<Rightarrow> if c = 0 then None else Some (now - c)"
  show ?thesis
  proof (cases "age_tier ?age")
    case (Some tier)
    then have "RANGE_CONFIG tier \<noteq> None" by (auto simp: age_tier_def split: option.splits if_splits)
    then show ?thesis using None Some by (auto simp: window_def intro: fixed_window_ok)
  next
    case none: None
    then have "(case created of Some t \<Rightarrow> t | None \<Rightarrow> now - 30 * ONE_DAY) < now"
      using now by (auto simp: age_tier_def durations split: option.splits if_splits)
    then show ?thesis using None none by (simp add: window_def all_window_ok)
  qed
qed

section \<open>The chart and the server\<close>

text \<open>What the server answers to a chunk's request: its oldest trades, as many as the limit.\<close>

lemma chunk_answer:
  assumes "window_ok now w" "c \<in> set (chunks w)"
  shows "PriceHistory rows (rc_resolution w) (fst c) (snd c) (rc_chunkLimit w)
    = (let found = take (nat (rc_chunkLimit w)) (during (fst c) (snd c) rows) in Some (map fst found, map snd found))"
proof -
  obtain interval where i: "resolution_ms (rc_resolution w) = Some interval" "rc_chunkSpan w \<le> interval * rc_chunkLimit w"
    using assms(1) by (auto simp: window_ok_def)
  moreover have "fst c < snd c" "snd c - fst c \<le> rc_chunkSpan w"
    using chunks_from_bounds assms(2) by (auto simp: chunks_def)
  ultimately show ?thesis by (simp add: PriceHistory_def during_def Let_def)
qed

text \<open>So a chunk with more trades than the limit loses its newest ones.\<close>

lemma busy_chunk_loses_newest:
  assumes "window_ok now w" "c \<in> set (chunks w)" "nat (rc_chunkLimit w) < length (during (fst c) (snd c) rows)"
    "distinct (during (fst c) (snd c) rows)"
  shows "\<exists>ts ps. PriceHistory rows (rc_resolution w) (fst c) (snd c) (rc_chunkLimit w) = Some (ts, ps)
    \<and> last (during (fst c) (snd c) rows) \<notin> set (zip ts ps)"
proof -
  let ?d = "during (fst c) (snd c) rows" and ?n = "nat (rc_chunkLimit w)"
  have "last ?d = last (drop ?n ?d)" "drop ?n ?d \<noteq> []" using assms(3) by (simp_all add: last_drop)
  then have "last ?d \<in> set (drop ?n ?d)" by (metis last_in_set)
  then have "last ?d \<notin> set (take ?n ?d)" using assms(4) set_take_disj_set_drop_if_distinct [of ?d ?n ?n] by blast
  then show ?thesis by (simp add: chunk_answer [OF assms(1,2)] Let_def zip_map_fst_snd)
qed

text \<open>A seed request that reaches back more than a thousand hours is refused, always so for a market whose
  creation time is unknown.\<close>

lemma seed_refused:
  assumes "seed_request created w = Some (res, a, b, n)" "1000 * ONE_HOUR < b - a \<or> created = None"
  shows "PriceHistory rows res a b n = None"
  using assms by (auto simp: seed_request_def PriceHistory_def resolution_ms_def durations Let_def split: if_splits option.splits)

definition chart_seed :: "(int \<times> jsn) list \<Rightarrow> int option \<Rightarrow> chart_window \<Rightarrow> (int \<times> jsn) list" where
  "chart_seed rows created w =
     add_seed (case seed_request created w of None \<Rightarrow> None | Some (res, a, b, n) \<Rightarrow> PriceHistory rows res a b n) w []"

lemma add_seed_append: "add_seed answer w raw = add_seed answer w [] @ raw"
  by (auto simp: add_seed_def split: option.split)

lemma chart_seed_times: "set (map fst (chart_seed rows created w)) \<subseteq> {rc_from w}"
  by (auto simp: chart_seed_def add_seed_def split: option.splits)

lemma chart_seed_short: "chart_seed rows created w = [] \<or> (\<exists>q. chart_seed rows created w = [q] \<and> fst q = rc_from w)"
  by (auto simp: chart_seed_def add_seed_def split: option.splits)

lemma finite_rows:
  assumes "\<forall>q\<in>set rows. is_finite (snd q)" "set qs \<subseteq> set rows"
  shows "filter (\<lambda>(t, p). is_finite p) qs = qs"
  using assms by (fastforce simp: filter_id_conv)

lemma raw_points_complete:
  assumes "window_ok now w" "\<forall>q\<in>set rows. is_finite (snd q)" "length (chunks w) \<le> length schedule"
    "\<forall>c\<in>set (chunks w). int (length (during (fst c) (snd c) rows)) \<le> rc_chunkLimit w"
  shows "raw_points (fetch_chunks (\<lambda>c _. PriceHistory rows (rc_resolution w) (fst c) (snd c) (rc_chunkLimit w)) (chunks w) schedule)
    = during (rc_from w) (rc_to w) rows"
proof -
  let ?reply = "\<lambda>c. PriceHistory rows (rc_resolution w) (fst c) (snd c) (rc_chunkLimit w)"
  let ?pts = "\<lambda>r. case r of None \<Rightarrow> [] | Some (ts, ps) \<Rightarrow> filter (\<lambda>(t, p). is_finite p) (zip ts ps)"
  have "fetch_chunks (\<lambda>c _. ?reply c) (chunks w) schedule = map ?reply (chunks w)"
    unfolding fetch_chunks_def using assms(3)
    by (subst pool_complete [where g = "\<lambda>c. fetch_chunk (\<lambda>_. ?reply c)"]) (auto simp: fetch_chunk_def split: option.split)
  moreover have "?pts (?reply c) = during (fst c) (snd c) rows" if "c \<in> set (chunks w)" for c
  proof -
    have "take (nat (rc_chunkLimit w)) (during (fst c) (snd c) rows) = during (fst c) (snd c) rows"
      using assms(4) that by force
    then show ?thesis
      by (auto simp: chunk_answer [OF assms(1) that] Let_def zip_map_fst_snd intro!: finite_rows [OF assms(2)])
  qed
  moreover have "concat (map (\<lambda>c. during (fst c) (snd c) rows) (chunks w)) = during (rc_from w) (rc_to w) rows"
    using assms(1) chunks_cover [of "rc_from w" "rc_to w" "rc_chunkSpan w" rows]
    by (simp add: chunks_def window_ok_def)
  ultimately show ?thesis
    by (simp add: raw_points_def comp_def sort_key_id_if_sorted cong: map_cong)
qed

definition chart_grid :: "chart_window \<Rightarrow> int list" where
  "chart_grid w = grid (rc_step w) (rc_to w) (rc_from w div rc_step w * rc_step w)"

lemma chart_grid_end: "window_ok now w \<Longrightarrow> rc_to w \<in> set (chart_grid w)"
proof -
  assume w: "window_ok now w"
  define s k where "s = rc_step w" and "k = rc_to w div s - rc_from w div s"
  have pos: "0 < s" and le: "rc_from w < rc_to w" using w by (auto simp: window_ok_def s_def)
  have to: "rc_to w = rc_to w div s * s" using w by (simp add: window_ok_def s_def)
  have "rc_from w div s \<le> rc_to w div s" using pos le by (intro zdiv_mono1) simp_all
  then have k: "0 \<le> k" by (simp add: k_def)
  have eq: "rc_to w = rc_from w div s * s + k * s" using to by (simp add: k_def algebra_simps)
  then have "(rc_to w - rc_from w div s * s) div s = k" using pos by simp
  then show ?thesis unfolding chart_grid_def grid_def s_def [symmetric] using k eq
    by (intro image_eqI [where x = "nat k"] iffD2 [OF arg_cong [where f = "\<lambda>A. rc_to w \<in> A", OF set_map]]) auto
qed

lemma length_chart_grid: "window_ok now w \<Longrightarrow> length (chart_grid w) \<le> 482"
proof -
  assume w: "window_ok now w"
  let ?s = "rc_step w"
  have "rc_from w div ?s * ?s > rc_from w - ?s"
  proof -
    have "0 < ?s" using w by (simp add: window_ok_def)
    then have "rc_from w mod ?s < ?s" by simp
    with div_mult_mod_eq [of "rc_from w" ?s] show ?thesis by linarith
  qed
  then have "rc_to w - rc_from w div ?s * ?s < 482 * ?s" using w by (simp add: window_ok_def MAX_POINTS_def)
  then have "(rc_to w - rc_from w div ?s * ?s) div ?s < 482"
  proof -
    let ?A = "rc_to w - rc_from w div ?s * ?s"
    have pos: "0 < ?s" using w by (simp add: window_ok_def)
    then have "0 \<le> ?A mod ?s" by simp
    with div_mult_mod_eq [of ?A ?s] have "?A div ?s * ?s \<le> ?A" by linarith
    also assume "?A < 482 * ?s"
    finally show ?thesis using pos by (simp only: mult_less_cancel_right_pos)
  qed
  then show ?thesis by (simp add: chart_grid_def grid_def)
qed

lemma filled_length: "length (filled pts None ts) \<le> length ts"
  by (induction ts) (auto simp: filled_def split: option.split)

section \<open>Properties\<close>



text \<open>Whatever the range, the market's age and the answers, no bucketed chart has more than 482 points:
  the steps are chosen so that the window's age fits the budget of points.\<close>

theorem chart_points_bounded:
  assumes "0 < now"
  shows "length (bucketPoints raw (rc_step (window rng created now)) (rc_from (window rng created now))
    (rc_to (window rng created now))) \<le> 482"
proof -
  define w where "w = window rng created now"
  have ok: "window_ok now w" unfolding w_def by (rule window_ok [OF assms(1)])
  then have "bucketPoints raw (rc_step w) (rc_from w) (rc_to w) = filled (sort_key fst raw) None (chart_grid w)"
    by (simp add: window_ok_def bucketPoints_filled chart_grid_def)
  then show ?thesis
    using filled_length [of "sort_key fst raw" "chart_grid w"] length_chart_grid [OF ok] by (simp add: w_def)
qed

theorem chart_points_bounded_witness:
  "length (bucketPoints [(1000, JNum 1)] (rc_step (window RALL None 4000000000000))
    (rc_from (window RALL None 4000000000000)) (rc_to (window RALL None 4000000000000))) \<le> 482"
  by (rule chart_points_bounded) simp

end
