(* ===== verification/Allowances.thy ===== *)
theory Allowances
  imports HederaTx
begin

text \<open>
  The allowance manager, \<open>src/web/components/AllowanceManager.tsx\<close>: which contracts it offers and which one it
  acts on, refreshing, granting and revoking, each cut at its awaits. The allowance shown is one value for the
  whole application (\<open>spenderAllowanceUsd\<close> of the wallet context). The approval a grant asks the wallet for is
  that of \<open>HederaTx\<close>.
\<close>

section \<open>The contracts offered\<close>

record market_ref =
  mf_contract :: string
  mf_net :: string
  mf_created :: string

definition add_contract :: "string \<Rightarrow> (string \<times> string) list \<Rightarrow> market_ref \<Rightarrow> (string \<times> string) list" where
  "add_contract networkKey seen m =
     (if mf_contract m = [] \<or> to_lower (mf_net m) \<noteq> networkKey then seen
      else (let prev = (case map_of seen (mf_contract m) of Some t \<Rightarrow> t | None \<Rightarrow> [])
            in if prev = [] \<or> (mf_created m \<noteq> [] \<and> string_less prev (mf_created m))
               then map_set (mf_contract m) (mf_created m) seen else seen))"

definition seen_contracts :: "market_ref list \<Rightarrow> string \<Rightarrow> string \<Rightarrow> string \<Rightarrow> (string \<times> string) list" where
  "seen_contracts allMarkets networkKey defaultId sidebarId =
     (let seen = foldl (add_contract networkKey) [] allMarkets;
          with = (\<lambda>i seen. if i \<noteq> [] \<and> i \<notin> set (map fst seen) then map_set i [] seen else seen)
      in with sidebarId (with defaultId seen))"

definition entity_number :: "string \<Rightarrow> jsn" where
  "entity_number i = (let n = number_of_string (last (split_char (CHR ''.'') i)) in if is_finite n then n else JNum (- 1))"

definition contractOptions :: "market_ref list \<Rightarrow> string \<Rightarrow> string \<Rightarrow> string \<Rightarrow> string list" where
  "contractOptions allMarkets networkKey defaultId sidebarId =
     (let keys = map fst (seen_contracts allMarkets networkKey defaultId sidebarId);
          rest = js_sort (\<lambda>a b. entity_number b - entity_number a) (filter (\<lambda>i. i \<noteq> defaultId) keys)
      in if defaultId \<noteq> [] \<and> defaultId \<in> set keys then defaultId # rest else rest)"

definition chosen_contract :: "string \<Rightarrow> string \<Rightarrow> string list \<Rightarrow> string \<Rightarrow> string" where
  "chosen_contract selected sidebarId options defaultId =
     (if selected \<noteq> [] \<and> selected \<in> set options then selected
      else if sidebarId \<noteq> [] \<and> sidebarId \<in> set options then sidebarId
      else (case options of o1 # _ \<Rightarrow> if o1 \<noteq> [] then o1 else defaultId | [] \<Rightarrow> defaultId))"

text \<open>Opening the sidebar for a contract selects it again.\<close>

definition sync_selected :: "bool \<Rightarrow> string \<Rightarrow> string list \<Rightarrow> string \<Rightarrow> string" where
  "sync_selected showSidebar sidebarId options selected =
     (if showSidebar \<and> sidebarId \<noteq> [] \<and> sidebarId \<in> set options then sidebarId else selected)"

section \<open>Operations\<close>

datatype op_kind = Grant | Revoke

text \<open>A running grant or revocation: its contract, the total it asks for, whether it is unlimited, and the
  loading text shown for it.\<close>

record allowance_op =
  ao_kind :: op_kind
  ao_contract :: string
  ao_total :: jsn
  ao_max :: bool
  ao_loading :: "string option"

record allowance_ui =
  l_allowance :: jsn
  l_balance :: jsn
  l_refreshes :: "string list"
  l_refreshing :: bool
  l_granting :: bool
  l_revoking :: bool
  l_amount :: string
  l_max :: bool
  l_ops :: "allowance_op list"
  l_granted :: nat
  l_toasts :: "string list"

definition initial_allowance :: allowance_ui where
  "initial_allowance =
     \<lparr>l_allowance = JNum 0, l_balance = JNum 0, l_refreshes = [], l_refreshing = False, l_granting = False,
      l_revoking = False, l_amount = ''10.00'', l_max = False, l_ops = [], l_granted = 0, l_toasts = []\<rparr>"

definition notify :: "string \<Rightarrow> allowance_ui \<Rightarrow> allowance_ui" where
  "notify m s = s\<lparr>l_toasts := l_toasts s @ [m]\<rparr>"

definition MAX_ALLOWANCE_THRESHOLD :: jsn where
  "MAX_ALLOWANCE_THRESHOLD = num_of_bigint UNLIMITED_ALLOWANCE_USD * lit 0.99"

definition isMaxAllowance :: "allowance_ui \<Rightarrow> bool" where
  "isMaxAllowance s \<longleftrightarrow> MAX_ALLOWANCE_THRESHOLD \<le> l_allowance s"

definition hasSufficientAllowance :: "jsn \<Rightarrow> allowance_ui \<Rightarrow> bool" where
  "hasSufficientAllowance requiredAmount s \<longleftrightarrow> requiredAmount \<le> l_allowance s"

text \<open>A refresh reads the allowance and the balance together; it is not tied to the contract shown when it
  ends.\<close>

definition refresh_start :: "bool \<Rightarrow> string \<Rightarrow> allowance_ui \<Rightarrow> allowance_ui" where
  "refresh_start hasSigner contract s =
     (if \<not> hasSigner \<or> contract = [] then s
      else s\<lparr>l_refreshing := True, l_refreshes := l_refreshes s @ [contract]\<rparr>)"

definition refresh_end :: "nat \<Rightarrow> string \<Rightarrow> (jsn \<times> jsn) attempt \<Rightarrow> allowance_ui \<Rightarrow> allowance_ui" where
  "refresh_end decimals contract answer s =
     (if contract \<in> set (l_refreshes s)
      then (let s' = s\<lparr>l_refreshes := remove1 contract (l_refreshes s), l_refreshing := False\<rparr>
            in case answer of
                 Inr (allowance, raw) \<Rightarrow> s'\<lparr>l_allowance := allowance, l_balance := raw / pow10 decimals\<rparr>
               | Inl _ \<Rightarrow> notify ''Failed to refresh allowance'' s')
      else s)"

text \<open>\<open>handleGrantAllowance\<close> up to the wallet. \<open>token\<close> is whether the network's token is known, \<open>stuck\<close> whether a
  wallet call is still open.\<close>

definition grant_total :: "allowance_ui \<Rightarrow> jsn" where
  "grant_total s = (if l_max s then JNum 0 else l_allowance s + js_or (parse_float (l_amount s)) (JNum 0))"

definition grant_start :: "bool \<Rightarrow> string \<Rightarrow> bool \<Rightarrow> bool \<Rightarrow> allowance_ui \<Rightarrow> allowance_ui" where
  "grant_start hasSigner contract token stuck s =
     (if \<not> hasSigner then notify ''Please connect your wallet first'' s
      else if contract = [] then notify ''Smart contract not configured for this network'' s
      else if \<not> l_max s \<and> (parse_float (l_amount s) = JNaN \<or> parse_float (l_amount s) \<le> JNum 0)
      then notify ''Please enter a valid amount'' s
      else if \<not> token then notify ''Network config still loading. Please retry in a moment.'' s
      else if stuck then notify ''Finish or reject the pending HashPack request before trying again.'' s
      else s\<lparr>l_granting := True,
             l_ops := l_ops s @ [\<lparr>ao_kind = Grant, ao_contract = contract, ao_total = grant_total s, ao_max = l_max s,
               ao_loading = Some ''Please confirm the transaction in your wallet...''\<rparr>]\<rparr>)"

definition revoke_start :: "bool \<Rightarrow> string \<Rightarrow> bool \<Rightarrow> allowance_ui \<Rightarrow> allowance_ui" where
  "revoke_start hasSigner contract token s =
     (if \<not> hasSigner then notify ''Please connect your wallet first'' s
      else if contract = [] then notify ''Smart contract not configured for this network'' s
      else if \<not> token then notify ''Network config still loading. Please retry in a moment.'' s
      else s\<lparr>l_revoking := True,
             l_ops := l_ops s @ [\<lparr>ao_kind = Revoke, ao_contract = contract, ao_total = JNum 0, ao_max = False,
               ao_loading = Some ''Please confirm the revoke in your wallet...''\<rparr>]\<rparr>)"

text \<open>The approval the wallet is asked to sign for an operation.\<close>

definition op_request ::
  "(js_error \<Rightarrow> string) \<Rightarrow> wallet_world \<Rightarrow> string \<Rightarrow> (string \<times> string) list \<Rightarrow> nat \<Rightarrow> allowance_op \<Rightarrow> approval attempt" where
  "op_request engine w ledger usdcTokenIds decimals p =
     grant_request engine w ledger usdcTokenIds decimals (ao_contract p) (ao_total p) (ao_max p)"

text \<open>Three seconds after the start the text changes, while the operation runs.\<close>

definition swap_text :: "nat \<Rightarrow> allowance_ui \<Rightarrow> allowance_ui" where
  "swap_text i s =
     (if i < length (l_ops s)
      then s\<lparr>l_ops := (l_ops s)[i := (l_ops s ! i)\<lparr>ao_loading := Some ''Transaction submitted, confirming on-chain...''\<rparr>]\<rparr>
      else s)"

definition op_error :: "op_kind \<Rightarrow> thrown \<Rightarrow> string" where
  "op_error kind e =
     (let m = (case th_message e of Some m \<Rightarrow> m | None \<Rightarrow> ''Unknown error'')
      in if js_includes m ''Wallet call aborted'' \<or> js_includes m ''cancelled''
            \<or> js_includes m ''Transaction was rejected by wallet''
         then (case kind of Grant \<Rightarrow> ''Allowance grant cancelled'' | Revoke \<Rightarrow> ''Allowance revoke cancelled'')
         else m)"

definition drop_op :: "nat \<Rightarrow> allowance_ui \<Rightarrow> allowance_ui" where
  "drop_op i s = s\<lparr>l_ops := take i (l_ops s) @ drop (Suc i) (l_ops s)\<rparr>"

text \<open>The end of an operation: what \<open>grantAllowanceUsd\<close> settled with, and what the ledger then says.\<close>

definition op_end :: "nat \<Rightarrow> bool attempt \<Rightarrow> jsn attempt \<Rightarrow> allowance_ui \<Rightarrow> allowance_ui" where
  "op_end i result onChain s =
     (if i < length (l_ops s)
      then (let p = l_ops s ! i; s1 = drop_op i s
            in case ao_kind p of
                 Grant \<Rightarrow>
                   (let s2 = s1\<lparr>l_granting := False\<rparr>
                    in case result of
                         Inl e \<Rightarrow> notify (op_error Grant e) s2
                       | Inr False \<Rightarrow> notify ''Transaction failed - please try again'' s2
                       | Inr True \<Rightarrow>
                           (case onChain of
                              Inr v \<Rightarrow>
                                notify (if ao_max p then ''Max allowance granted successfully''
                                        else ''Allowance of $'' @ to_fixed v 2 @ '' USDC active'')
                                  (s2\<lparr>l_allowance := v, l_granted := Suc (l_granted s2)\<rparr>)
                            | Inl _ \<Rightarrow>
                                notify ''Allowance granted''
                                  (s2\<lparr>l_allowance := (if ao_max p then num_of_bigint UNLIMITED_ALLOWANCE_USD else ao_total p),
                                      l_granted := Suc (l_granted s2)\<rparr>)))
               | Revoke \<Rightarrow>
                   (let s2 = s1\<lparr>l_revoking := False\<rparr>
                    in case result of
                         Inl e \<Rightarrow> notify (op_error Revoke e) s2
                       | Inr False \<Rightarrow> notify ''Revoke transaction failed - please try again'' s2
                       | Inr True \<Rightarrow>
                           notify ''Allowance revoked successfully''
                             (s2\<lparr>l_allowance := (case onChain of Inr v \<Rightarrow> v | Inl _ \<Rightarrow> JNum 0)\<rparr>)))
      else s)"

text \<open>Cancelling is for the eye only: the buttons are free again and every text is dismissed, while the operation
  runs until the aborted wallet call rejects.\<close>

definition cancel_op :: "op_kind \<Rightarrow> allowance_ui \<Rightarrow> allowance_ui" where
  "cancel_op kind s =
     (let s' = (case kind of Grant \<Rightarrow> s\<lparr>l_granting := False\<rparr> | Revoke \<Rightarrow> s\<lparr>l_revoking := False\<rparr>)
      in s'\<lparr>l_ops := map (\<lambda>p. p\<lparr>ao_loading := None\<rparr>) (l_ops s'), l_toasts := []\<rparr>)"

text \<open>Which of the two buttons can be pressed.\<close>

definition grant_enabled :: "allowance_ui \<Rightarrow> bool" where
  "grant_enabled s \<longleftrightarrow>
     \<not> l_revoking s \<and> (l_granting s \<or> truthy (parse_float (l_amount s)) \<or> l_max s)"

definition revoke_enabled :: "allowance_ui \<Rightarrow> bool" where
  "revoke_enabled s \<longleftrightarrow> (if isMaxAllowance s then \<not> l_revoking s else JNum 0 < l_allowance s \<and> \<not> l_granting s)"

section \<open>The contracts offered\<close>

lemma keys_map_set [simp]: "fst ` set (map_set k v m) = insert k (fst ` set m)"
  using arg_cong [OF map_set_keys [of k v m], of set] by (auto split: if_splits)

lemma add_contract_keys:
  "fst ` set (add_contract net seen m) =
     fst ` set seen \<union> (if mf_contract m \<noteq> [] \<and> to_lower (mf_net m) = net then {mf_contract m} else {})"
proof (cases "map_of seen (mf_contract m)")
  case None
  then show ?thesis by (simp add: add_contract_def)
next
  case (Some t)
  then have "mf_contract m \<in> fst ` set seen" by (force dest: map_of_SomeD)
  then show ?thesis using Some by (auto simp: add_contract_def Let_def)
qed

lemma add_contract_distinct: "distinct (map fst seen) \<Longrightarrow> distinct (map fst (add_contract net seen m))"
  by (simp add: add_contract_def map_set_distinct Let_def)

definition net_contracts :: "string \<Rightarrow> market_ref list \<Rightarrow> string set" where
  "net_contracts networkKey ms = set (map mf_contract (filter (\<lambda>m. mf_contract m \<noteq> [] \<and> to_lower (mf_net m) = networkKey) ms))"

lemma fold_contracts_keys:
  "fst ` set (foldl (add_contract net) seen ms) = fst ` set seen \<union> net_contracts net ms"
  by (induction ms arbitrary: seen) (auto simp: add_contract_keys net_contracts_def split: if_splits)

lemma fold_contracts_distinct:
  "distinct (map fst seen) \<Longrightarrow> distinct (map fst (foldl (add_contract net) seen ms))"
  by (induction ms arbitrary: seen) (simp_all add: add_contract_distinct)

lemma seen_contracts_keys:
  "fst ` set (seen_contracts ms net d sb) = net_contracts net ms \<union> ({d, sb} - {[]})"
  "distinct (map fst (seen_contracts ms net d sb))"
  unfolding seen_contracts_def Let_def
  by (auto simp: fold_contracts_keys fold_contracts_distinct map_set_distinct)

lemma entity_number_finite: "\<exists>q. entity_number i = JNum q"
  by (cases "number_of_string (last (split_char (CHR ''.'') i))") (auto simp: entity_number_def)

lemma double_jsfin: "jsfin x = JNum q \<Longrightarrow> fl q = q"
  by (auto simp: jsfin_def Let_def split: if_splits)

lemma number_of_string_double: "number_of_string s = JNum q \<Longrightarrow> fl q = q"
  by (auto simp: number_of_string_def Let_def dest: double_jsfin split: prod.splits option.splits if_splits list.splits)

lemma entity_number_double: "\<exists>q. entity_number i = JNum q \<and> fl q = q"
proof -
  obtain q where q: "entity_number i = JNum q" using entity_number_finite by blast
  moreover have "fl (- 1) = - 1" using fl_of_int [of "- 1"] by simp
  ultimately show ?thesis by (auto simp: entity_number_def Let_def dest: number_of_string_double split: if_splits)
qed

definition entity_rat :: "string \<Rightarrow> rat" where
  "entity_rat i = (case entity_number i of JNum q \<Rightarrow> q | _ \<Rightarrow> 0)"

lemma newest_first:
  "sorted_wrt (\<lambda>a b. entity_rat b \<le> entity_rat a) (js_sort (\<lambda>a b. entity_number b - entity_number a) xs)"
proof -
  have "JNum 0 < entity_number y - entity_number x \<longleftrightarrow> - entity_rat y < - entity_rat x" for x y
  proof -
    obtain a b where "entity_number x = JNum a" "fl a = a" "entity_number y = JNum b" "fl b = b"
      using entity_number_double by metis
    then show ?thesis using jsn_diff_pos [of b a] by (simp add: entity_rat_def)
  qed
  then show ?thesis using js_sort_sorted [of xs "\<lambda>a b. entity_number b - entity_number a" "\<lambda>x. - entity_rat x"] by simp
qed

section \<open>What a grant asks for\<close>

lemma sum_in_units:
  assumes "0 \<le> a" "0 \<le> b" "a + b \<le> 2 ^ 48"
  shows "approval_amount (JNum (fl (of_int a / 1000000)) + JNum (fl (of_int b / 1000000))) False 6 = Inr (a + b)"
proof -
  define x y s where "x = fl (of_int a / 1000000)" and "y = fl (of_int b / 1000000)" and "s = x + y"
  have ex: "\<bar>x * 1000000 - of_int a\<bar> \<le> of_int a / 2 ^ 53" and ey: "\<bar>y * 1000000 - of_int b\<bar> \<le> of_int b / 2 ^ 53"
    using fl.scaled_error [of 1000000 a] fl.scaled_error [of 1000000 b] assms by (simp_all add: x_def y_def)
  have pos: "0 \<le> x" "0 \<le> y" using assms by (simp_all add: x_def y_def fl_nonneg)
  have "(of_int (a + b) :: rat) \<le> of_int (2 ^ 48)" using assms(3) by (simp only: of_int_le_iff)
  then have n: "(of_int a :: rat) + of_int b \<le> 2 ^ 48" by simp
  have "s * 1000000 - (of_int a + of_int b) = (x * 1000000 - of_int a) + (y * 1000000 - of_int b)"
    by (simp add: s_def algebra_simps)
  then have "\<bar>s * 1000000 - (of_int a + of_int b)\<bar> \<le> (of_int a + of_int b) / 2 ^ 53"
    unfolding add_divide_distrib
    using ex ey abs_triangle_ineq [of "x * 1000000 - of_int a" "y * 1000000 - of_int b"] by linarith
  also have "\<dots> \<le> 2 ^ 48 / 2 ^ 53" using n by (intro divide_right_mono) simp_all
  finally have s: "\<bar>s * 1000000 - (of_int a + of_int b)\<bar> \<le> 1 / 32" by simp
  have low: "0 \<le> s" using pos by (simp add: s_def)
  have high: "s * 1000000 \<le> 2 ^ 48 + 1" using s n by linarith
  have "\<bar>fl s - s\<bar> * 1000000 \<le> 1 / 16"
  proof (cases "a + b = 0")
    case True
    then have "a = 0" "b = 0" using assms by linarith+
    then have "s = 0" by (simp add: s_def x_def y_def)
    then show ?thesis by simp
  next
    case False
    then have "1 \<le> a + b" using assms by linarith
    then have "(1::rat) \<le> of_int (a + b)" by (simp only: of_int_1_le_iff)
    then have "(1::rat) \<le> of_int a + of_int b" by simp
    then have "1 / 2 \<le> s * 1000000" using s by linarith
    then have "(1::rat) / 2 ^ 21 \<le> s" by simp
    then have "(1::rat) / 2 ^ 21 \<le> \<bar>s\<bar>" using low by simp
    then have "\<bar>fl s - s\<bar> \<le> \<bar>s\<bar> / 2 ^ 53" by (intro fl_error not_tiny)
    then have "\<bar>fl s - s\<bar> * 1000000 \<le> s * 1000000 / 2 ^ 53" using low by simp
    also have "\<dots> \<le> (2 ^ 48 + 1) / 2 ^ 53" using high by (intro divide_right_mono) simp_all
    finally show ?thesis by simp
  qed
  moreover have "\<bar>fl s * 1000000 - s * 1000000\<bar> = \<bar>fl s - s\<bar> * 1000000"
    unfolding left_diff_distrib [symmetric] abs_mult by simp
  ultimately have "\<bar>fl s * 1000000 - (of_int a + of_int b)\<bar> \<le> 1 / 8" using s by linarith
  then have "\<bar>fl s * 1000000 - of_int (a + b)\<bar> \<le> 1 / 8" by simp
  moreover have "\<bar>a + b\<bar> \<le> 2 ^ 49" using assms by simp
  ultimately have "scaled_price (JNum (fl s)) = Inr (a + b)" by (intro scaled_price_near)
  moreover have "\<bar>s\<bar> \<le> of_int (2 ^ 49)" using low high by simp
  then have "JNum x + JNum y = JNum (fl s)" using jsfin_small(1) [of s "2 ^ 49"] by (simp add: s_def)
  ultimately show ?thesis using assms by (simp add: approval_amount_scaled MAX_INT64_def x_def y_def)
qed

lemma asked_ok:
  assumes "map_of ids (to_lower ledger) = Some token" "token \<noteq> []" "contract \<noteq> []" "ww_account w = Inr owner"
    "\<And>p. ww_build w p = Inr ()" "approval_amount usd unlimited d = Inr n"
  shows "grant_request engine w ledger ids d contract usd unlimited
    = Inr \<lparr>ap_token = token, ap_owner = owner, ap_spender = contract, ap_amount = n\<rparr>"
  using assms by (simp add: grant_request_def Let_def)

section \<open>Facts on the operations\<close>

text \<open>A grant or revocation that the ledger confirms leaves the ledger's own value shown; nothing else that ends
  changes it, except a refresh.\<close>

lemma op_end_shows_ledger:
  assumes "i < length (l_ops s)"
  shows "l_allowance (op_end i (Inr True) (Inr v) s) = v"
    "result \<noteq> Inr True \<Longrightarrow> l_allowance (op_end i result onChain s) = l_allowance s"
  using assms
  by (auto simp: op_end_def Let_def drop_op_def notify_def split: op_kind.split sum.split bool.split)

text \<open>The value shown belongs to no contract: after another contract is chosen, a grant that starts before that
  contract's allowance has been read adds to the allowance of the contract before.\<close>

lemma grant_after_switch_adds_to_other_contract:
  assumes "parse_float (l_amount s) = JNum x" "0 < x" "\<not> l_max s" "l_allowance s = JNum old" "other \<noteq> []"
  shows "let t = refresh_start True other s;
             u = grant_start True other True False t
         in l_ops u = l_ops s @ [\<lparr>ao_kind = Grant, ao_contract = other, ao_total = JNum old + JNum x, ao_max = False,
               ao_loading = Some ''Please confirm the transaction in your wallet...''\<rparr>]"
  using assms by (simp add: refresh_start_def grant_start_def grant_total_def notify_def js_or_def truthy_def)

text \<open>Two refreshes that overlap show the contract whose answer came last.\<close>

lemma late_refresh_wins:
  assumes "old \<noteq> []" "new \<noteq> []" "l_refreshes s = []" "old \<noteq> new"
  shows "let t = refresh_start True new (refresh_start True old s)
         in l_allowance (refresh_end d old (Inr (a, x)) (refresh_end d new (Inr (b, y)) t)) = a"
  using assms by (simp add: refresh_start_def refresh_end_def)

section \<open>Properties\<close>

text \<open>The contracts offered are those of the network's markets, the network's own and the one the sidebar was
  opened for, each once; the network's own comes first and the others follow from the highest entity number
  to the lowest; and the one acted on is always one of them while there is any.\<close>

theorem contract_options_complete:
  assumes "d \<noteq> []"
  shows "let os = contractOptions ms networkKey d sb in
      set os = insert d (net_contracts networkKey ms \<union> ({sb} - {[]})) \<and> distinct os \<and> hd os = d
      \<and> sorted_wrt (\<lambda>a b. entity_rat b \<le> entity_rat a) (tl os)
      \<and> chosen_contract selected sb os d \<in> set os"
proof -
  define os where "os = contractOptions ms networkKey d sb"
  let ?keys = "map fst (seen_contracts ms networkKey d sb)"
  have keys: "set ?keys = net_contracts networkKey ms \<union> ({d, sb} - {[]})" "distinct ?keys"
    using seen_contracts_keys by simp_all
  have os: "os = d # js_sort (\<lambda>a b. entity_number b - entity_number a) (filter (\<lambda>i. i \<noteq> d) ?keys)"
    using assms keys(1) by (simp add: contractOptions_def Let_def os_def)
  have "distinct (js_sort (\<lambda>a b. entity_number b - entity_number a) (filter (\<lambda>i. i \<noteq> d) ?keys))"
    using keys(2) distinct_js_sort [of "\<lambda>x. x" _ "filter (\<lambda>i. i \<noteq> d) ?keys"] by simp
  moreover have "set os = insert d (set ?keys)" using assms keys(1) by (auto simp: os)
  ultimately show ?thesis
    using assms keys(1) newest_first unfolding os_def [symmetric] Let_def by (auto simp: os chosen_contract_def)
qed

text \<open>C22. When the value shown is the contract's allowance and the amount is a decimal of whole base units, a grant
  asks the wallet for exactly the sum of the two, for that contract and from the account's own tokens, and a
  revocation asks for zero.\<close>

theorem grant_asks_for_sum:
  assumes "0 \<le> a" "0 < b" "a + b \<le> 2 ^ 48" "l_allowance s = JNum (fl (of_int a / 1000000))" "l_amount s = fixed_digits 6 b"
    "\<not> l_max s" "contract \<noteq> []" "map_of ids (to_lower ledger) = Some token" "token \<noteq> []"
    "ww_account w = Inr owner" "\<And>p. ww_build w p = Inr ()"
  shows "op_request engine w ledger ids 6 (last (l_ops (grant_start True contract True False s)))
      = Inr \<lparr>ap_token = token, ap_owner = owner, ap_spender = contract, ap_amount = a + b\<rparr>
    \<and> op_request engine w ledger ids 6 (last (l_ops (revoke_start True contract True s)))
      = Inr \<lparr>ap_token = token, ap_owner = owner, ap_spender = contract, ap_amount = 0\<rparr>"
proof -
  define y where "y = fl (of_int b / 1000000)"
  have b: "b \<le> 2 ^ 48" using assms(1,3) by linarith
  have "parse_float (fixed_digits 6 b) = jsfin (of_int b / 1000000)" using fixed_value(2) [of b 6] assms(2) by simp
  also have "\<dots> = JNum y"
    using jsfin_small(1) [of "of_int b / 1000000 :: rat" "2 ^ 48"] assms(2) b by (simp add: y_def)
  finally have p: "parse_float (l_amount s) = JNum y" using assms(5) by simp
  have "(1::rat) \<le> of_int b" using assms(2) by simp
  then have "(1::rat) / 2 ^ 21 \<le> of_int b / 1000000" by simp
  then have y: "0 < y" unfolding y_def by (intro fl.rd_pos not_tiny)
  have total: "grant_total s = JNum (fl (of_int a / 1000000)) + JNum y"
    using p y assms(4,6) by (simp add: grant_total_def js_or_def truthy_def)
  have zero: "approval_amount (JNum 0) False 6 = Inr 0" using sum_in_units [of 0 0] by simp
  have sum: "approval_amount (grant_total s) False 6 = Inr (a + b)"
    unfolding total y_def by (rule sum_in_units) (use assms in simp_all)
  have "last (l_ops (grant_start True contract True False s)) = \<lparr>ao_kind = Grant, ao_contract = contract,
      ao_total = grant_total s, ao_max = False, ao_loading = Some ''Please confirm the transaction in your wallet...''\<rparr>"
    using p y assms(6,7) by (simp add: grant_start_def)
  moreover have "last (l_ops (revoke_start True contract True s)) = \<lparr>ao_kind = Revoke, ao_contract = contract,
      ao_total = JNum 0, ao_max = False, ao_loading = Some ''Please confirm the revoke in your wallet...''\<rparr>"
    using assms(7) by (simp add: revoke_start_def)
  ultimately show ?thesis
    using asked_ok [OF assms(8,9,7,10,11) sum] asked_ok [OF assms(8,9,7,10,11) zero]
    by (simp add: op_request_def)
qed

theorem contract_options_complete_witness:
  "let ms = [\<lparr>mf_contract = ''0.0.7'', mf_net = ''Testnet'', mf_created = ''2026''\<rparr>,
             \<lparr>mf_contract = ''0.0.12'', mf_net = ''testnet'', mf_created = ''2025''\<rparr>];
       os = contractOptions ms ''testnet'' ''0.0.3'' []
   in set os = {''0.0.3'', ''0.0.7'', ''0.0.12''} \<and> hd os = ''0.0.3'' \<and> distinct os"
proof -
  let ?ms = "[\<lparr>mf_contract = ''0.0.7'', mf_net = ''Testnet'', mf_created = ''2026''\<rparr>,
    \<lparr>mf_contract = ''0.0.12'', mf_net = ''testnet'', mf_created = ''2025''\<rparr>]"
  have "net_contracts ''testnet'' ?ms = {''0.0.7'', ''0.0.12''}" by code_simp
  with contract_options_complete [of "''0.0.3''" ?ms "''testnet''" "[]" "[]"] show ?thesis
    unfolding Let_def by blast
qed

theorem grant_asks_for_sum_witness:
  "op_request (\<lambda>_. []) sample_wallet ''testnet'' [(''testnet'', ''0.0.9'')] 6
      (last (l_ops (grant_start True ''0.0.5'' True False
        (initial_allowance\<lparr>l_allowance := JNum (fl (of_int 2500000 / 1000000)), l_amount := fixed_digits 6 1200000\<rparr>))))
    = Inr \<lparr>ap_token = ''0.0.9'', ap_owner = ''0.0.7'', ap_spender = ''0.0.5'', ap_amount = 3700000\<rparr>"
  using grant_asks_for_sum [of 2500000 1200000
      "initial_allowance\<lparr>l_allowance := JNum (fl (of_int 2500000 / 1000000)), l_amount := fixed_digits 6 1200000\<rparr>"
      "''0.0.5''" "[(''testnet'', ''0.0.9'')]" "''testnet''" "''0.0.9''" sample_wallet "''0.0.7''" "\<lambda>_. []"]
  by (simp add: initial_allowance_def sample_wallet_def to_lower_def lower_char_def code_of_def)

end
