(* ===== verification/TradePanel.thy ===== *)
theory TradePanel
  imports Trading SessionStores RegExp
begin

text \<open>
  The trade panel of the market page, \<open>src/web/components/TradePanel.tsx\<close>, around the trade form of \<open>Trading\<close>: the
  limit prices its arrows step through, its inputs and buttons, what can still be sold once open and pending
  orders are taken off, and what the action button does. Markup is left out.
\<close>

section \<open>Stepping the limit price\<close>

definition VALID_CENTS :: "jsn list" where
  "VALID_CENTS =
     map (\<lambda>c. number_of_string (to_fixed (num_of_bigint c / JNum 10) 1)) [1..49]
     @ map num_of_bigint [5..95]
     @ map (\<lambda>c. number_of_string (to_fixed (num_of_bigint c / JNum 10) 1)) [951..999]"

fun findIndex :: "('a \<Rightarrow> bool) \<Rightarrow> 'a list \<Rightarrow> nat option" where
  "findIndex P [] = None"
| "findIndex P (x # xs) = (if P x then Some 0 else map_option Suc (findIndex P xs))"

datatype step_dir = StepUp | StepDown

definition stepLimitPrice :: "jsn \<Rightarrow> step_dir \<Rightarrow> jsn" where
  "stepLimitPrice currentPrice dir =
     (let currentCents = number_of_string (to_fixed (currentPrice * JNum 100) 1);
          idx = (case findIndex (\<lambda>v. currentCents \<le> v) VALID_CENTS of Some i \<Rightarrow> int i | None \<Rightarrow> int (length VALID_CENTS) - 1);
          d = (case dir of StepUp \<Rightarrow> 1 | StepDown \<Rightarrow> - 1);
          idx' = (if \<not> js_eq (VALID_CENTS ! nat idx) currentCents \<and> dir = StepDown then max 0 (idx - 1)
                  else max 0 (min (int (length VALID_CENTS) - 1) (idx + d)))
      in VALID_CENTS ! nat idx' / JNum 100)"

section \<open>State and inputs\<close>

record panel =
  tp_form :: trading_form
  tp_orderType :: order_type
  tp_action :: order_action
  tp_draft :: string
  tp_priceText :: string
  tp_toasts :: "string list"

definition initial_panel :: "order_action option \<Rightarrow> panel" where
  "initial_panel initialAction =
     \<lparr>tp_form = initial_form, tp_orderType = OMarket, tp_action = (case initialAction of Some a \<Rightarrow> a | None \<Rightarrow> ABuy),
      tp_draft = ''10'', tp_priceText = [], tp_toasts = []\<rparr>"

definition on_form :: "(trading_form \<Rightarrow> trading_form) \<Rightarrow> panel \<Rightarrow> panel" where
  "on_form f s = s\<lparr>tp_form := f (tp_form s)\<rparr>"

text \<open>The effects that keep the two texts in step with the numbers.\<close>

definition sync_draft :: "panel \<Rightarrow> panel" where
  "sync_draft s =
     (if js_eq (number_of_string (tp_draft s)) (amountUsd (tp_form s)) then s
      else s\<lparr>tp_draft := num_to_string (amountUsd (tp_form s))\<rparr>)"

definition price_cents :: "jsn \<Rightarrow> jsn" where
  "price_cents p = number_of_string (to_fixed (p * JNum 100) 1)"

definition sync_priceText :: "panel \<Rightarrow> panel" where
  "sync_priceText s =
     (let formatted = num_to_string (price_cents (limitPrice (tp_form s))); currentParsed = parse_float (tp_priceText s)
      in if tp_priceText s = [] \<or> currentParsed = JNaN \<or> abs (currentParsed - number_of_string formatted) > lit (1 / 10 ^ 9)
         then s\<lparr>tp_priceText := formatted\<rparr> else s)"

text \<open>The order book's prefill and the values of the page's address.\<close>

definition prefill :: "outcome \<Rightarrow> jsn \<Rightarrow> jsn option \<Rightarrow> panel \<Rightarrow> panel" where
  "prefill oc price amount s = (on_form (prefillOrder oc price amount) s)\<lparr>tp_orderType := OLimit\<rparr>"

definition apply_initial :: "outcome option \<Rightarrow> jsn option \<Rightarrow> panel \<Rightarrow> panel" where
  "apply_initial initialOutcome initialShares s =
     (let s' = (case initialOutcome of Some oc \<Rightarrow> on_form (setOutcome oc) s | None \<Rightarrow> s)
      in case initialShares of Some n \<Rightarrow> if JNum 0 < n then on_form (setSharesInput n) s' else s' | None \<Rightarrow> s')"

text \<open>The lesser of allowance and balance, when both are known.\<close>

definition hasLimits :: "jsn \<Rightarrow> jsn \<Rightarrow> bool" where
  "hasLimits allowance balance \<longleftrightarrow> JNum 0 < allowance \<and> JNum 0 < balance"

definition maxBuyAmount :: "jsn \<Rightarrow> jsn \<Rightarrow> jsn" where
  "maxBuyAmount allowance balance = (if hasLimits allowance balance then jmin allowance balance else JInf)"

definition amount_typed :: "jsn \<Rightarrow> jsn \<Rightarrow> string \<Rightarrow> panel \<Rightarrow> panel" where
  "amount_typed allowance balance raw s =
     (let s' = s\<lparr>tp_draft := raw\<rparr>; v = number_of_string raw; m = maxBuyAmount allowance balance
      in if raw = [] \<or> \<not> is_finite v then s' else on_form (setAmountUsd (if m < v then m else v)) s')"

definition amount_blur :: "panel \<Rightarrow> panel" where
  "amount_blur s =
     (if tp_draft s = [] \<or> \<not> is_finite (number_of_string (tp_draft s))
      then s\<lparr>tp_draft := num_to_string (amountUsd (tp_form s))\<rparr> else s)"

definition amount_up :: "jsn \<Rightarrow> jsn \<Rightarrow> panel \<Rightarrow> panel" where
  "amount_up allowance balance s =
     (let current = amountUsd (tp_form s); nxt = current + JNum 1
      in if \<not> is_finite current then s
         else on_form (setAmountUsd (if hasLimits allowance balance then jmin nxt (maxBuyAmount allowance balance) else nxt)) s)"

definition amount_down :: "panel \<Rightarrow> panel" where
  "amount_down s =
     (let current = amountUsd (tp_form s)
      in if \<not> is_finite current then s else on_form (setAmountUsd (jmax (lit (1 / 10)) (current - JNum 1))) s)"

definition jceil :: "jsn \<Rightarrow> jsn" where
  "jceil x = - jfloor (- x)"

definition toast :: "string \<Rightarrow> panel \<Rightarrow> panel" where
  "toast m s = s\<lparr>tp_toasts := tp_toasts s @ [m]\<rparr>"

definition quick_increment :: "jsn \<Rightarrow> jsn \<Rightarrow> jsn \<Rightarrow> panel \<Rightarrow> panel" where
  "quick_increment allowance balance increment s =
     (let current = amountUsd (tp_form s); new = jceil (current + increment); m = maxBuyAmount allowance balance
      in if hasLimits allowance balance \<and> m < new
         then (if m \<le> current
               then toast (''Already at max ($'' @ to_fixed m 2 @ ''). Increase your allowance to trade more.'') s
               else toast (''Capped at your limit of $'' @ to_fixed m 2) (on_form (setAmountUsd m) s))
         else on_form (setAmountUsd new) s)"

definition max_button :: "jsn \<Rightarrow> jsn \<Rightarrow> panel \<Rightarrow> panel" where
  "max_button allowance balance s =
     (if hasLimits allowance balance then on_form (setAmountUsd (maxBuyAmount allowance balance)) s
      else toast ''Connect wallet to see your max amount'' s)"

text \<open>The limit price: texts of the form digits, a dot, digits; one tenth of a cent is the finest.\<close>

definition price_text_rx :: rx where
  "price_text_rx = rseq [RStar (RSet is_digit), ropt (rlit ''.''), RStar (RSet is_digit)]"

definition snapped_cents :: "jsn \<Rightarrow> jsn" where
  "snapped_cents parsed =
     jround (jmax (lit (1 / 10)) (jmin (lit (999 / 10)) parsed) * JNum 10) / JNum 10"

definition set_limit :: "jsn \<Rightarrow> panel \<Rightarrow> panel" where
  "set_limit p s = on_form (\<lambda>f. f\<lparr>limitPrice := p\<rparr>) s"

definition limit_typed :: "string \<Rightarrow> panel \<Rightarrow> panel" where
  "limit_typed raw s =
     (let s' = s\<lparr>tp_priceText := raw\<rparr>; parsed = parse_float raw
      in if raw = [] \<or> \<not> rx_full price_text_rx raw \<or> parsed = JNaN then s'
         else set_limit (snapped_cents parsed / JNum 100) s')"

definition limit_blur :: "panel \<Rightarrow> panel" where
  "limit_blur s =
     (let parsed = parse_float (tp_priceText s)
      in if tp_priceText s = [] \<or> parsed = JNaN
         then s\<lparr>tp_priceText := num_to_string (price_cents (limitPrice (tp_form s)))\<rparr>
         else (set_limit (snapped_cents parsed / JNum 100) s)\<lparr>tp_priceText := num_to_string (snapped_cents parsed)\<rparr>)"

definition limit_arrow :: "step_dir \<Rightarrow> panel \<Rightarrow> panel" where
  "limit_arrow d s = set_limit (stepLimitPrice (limitPrice (tp_form s)) d) s"

text \<open>Keyboard shortcuts, outside text fields; the key is in lower case.\<close>

definition shortcut :: "bool \<Rightarrow> string \<Rightarrow> panel \<Rightarrow> panel" where
  "shortcut hasPosition key s =
     (if key = ''b'' then s\<lparr>tp_action := ABuy\<rparr>
      else if key = ''s'' then (if hasPosition then s\<lparr>tp_action := ASell\<rparr> else s)
      else if key = ''m'' then s\<lparr>tp_orderType := OMarket\<rparr>
      else if key = ''l'' then s\<lparr>tp_orderType := OLimit\<rparr>
      else if key = ''y'' then on_form (setOutcome OYes) s
      else if key = ''n'' then on_form (setOutcome ONo) s
      else s)"

section \<open>What can be sold\<close>

text \<open>The book with the user's open intents that it does not show yet.\<close>

definition panel_intents :: "LegacyBook \<Rightarrow> any_order list \<Rightarrow> LegacyOrder list" where
  "panel_intents wire intents =
     (let known = set (map lo_txId (bids wire @ asks wire))
      in filter (\<lambda>od. lo_txId od \<notin> known \<and> truthy (lo_qty od) \<and> \<not> lo_qty od < lit (5 / 1000))
           (map (\<lambda>i. toLegacyOrder i 6) intents))"

definition panel_book :: "BookSnapshot option \<Rightarrow> any_order list \<Rightarrow> LegacyOrder list \<times> LegacyOrder list" where
  "panel_book book intents =
     (let wire = toLegacyBook book 6; more = panel_intents wire intents
      in (bids wire @ filter (\<lambda>od. JNum 0 \<le> priceUsd od) more, asks wire @ filter (\<lambda>od. \<not> JNum 0 \<le> priceUsd od) more))"

definition own_sells :: "string option \<Rightarrow> LegacyOrder list \<Rightarrow> jsn" where
  "own_sells account os =
     foldl (\<lambda>sum od. sum + (if lo_ps od = ''s'' \<and> (account = None \<or> account = Some [] \<or> account = Some (lo_accountId od))
                           then lo_qty od else JNum 0)) (JNum 0) os"

definition openSecondary ::
  "LegacyOrder list \<times> LegacyOrder list \<Rightarrow> string option \<Rightarrow> pending_sells \<Rightarrow> string \<Rightarrow> outcome \<Rightarrow> jsn" where
  "openSecondary ba account pending market oc =
     own_sells account (if oc = OYes then snd ba else fst ba) + pendingSellQty pending market oc"

text \<open>The sells visible in the book, which are then no longer pending.\<close>

definition visible_sells :: "LegacyOrder list \<times> LegacyOrder list \<Rightarrow> string list" where
  "visible_sells ba = map lo_txId (filter (\<lambda>od. lo_ps od = ''s'') (snd ba @ fst ba))"

definition reconcile_effect :: "int \<Rightarrow> LegacyOrder list \<times> LegacyOrder list \<Rightarrow> pending_sells \<Rightarrow> pending_sells" where
  "reconcile_effect now ba pending =
     (if visible_sells ba = [] then pending else fst (reconcilePendingSells now (set (visible_sells ba)) pending))"

definition availableShares :: "jsn \<Rightarrow> jsn \<Rightarrow> jsn" where
  "availableShares qty opened = jmax (JNum 0) (qty - opened)"

definition localSellMaxError :: "panel \<Rightarrow> jsn \<Rightarrow> string option" where
  "localSellMaxError s available =
     (if tp_action s = ASell \<and> available + lit (1 / 10 ^ 9) < sharesInput (tp_form s)
      then Some (''Max: '' @ to_fixed available 3 @ '' shares'') else None)"

definition effectiveValidationError :: "string option \<Rightarrow> string option \<Rightarrow> string option" where
  "effectiveValidationError localError validationError =
     (case localError of Some e \<Rightarrow> if e \<noteq> [] then Some e else validationError | None \<Rightarrow> validationError)"

definition sell_all :: "outcome \<Rightarrow> jsn \<Rightarrow> panel \<Rightarrow> panel" where
  "sell_all oc available s = on_form (setSharesInput available) (on_form (setOutcome oc) s)"

definition sell_percent :: "jsn \<Rightarrow> jsn \<Rightarrow> panel \<Rightarrow> panel" where
  "sell_percent pct available s = on_form (setSharesInput (available * (pct / JNum 100))) s"

definition position_after :: "panel \<Rightarrow> jsn \<Rightarrow> outcome \<Rightarrow> jsn \<Rightarrow> jsn" where
  "position_after s sh oc qty =
     (if f_outcome (tp_form s) \<noteq> oc then qty else if tp_action s = ABuy then qty + sh else qty - sh)"

section \<open>The action button\<close>

definition noLiquidityForMarket :: "panel \<Rightarrow> order_book_price \<Rightarrow> bool" where
  "noLiquidityForMarket s prices \<longleftrightarrow>
     tp_orderType s = OMarket \<and> tp_action s = ABuy
     \<and> \<not> (if f_outcome (tp_form s) = OYes then p_hasNoBids prices else p_hasYesBids prices)"

datatype action_button = GeoBlocked | ConnectWallet | CancelSigning | SignOrder bool | CancelOrSubmit bool

definition action_button :: "bool \<Rightarrow> bool \<Rightarrow> bool \<Rightarrow> bool \<Rightarrow> string \<Rightarrow> string option \<Rightarrow> bool \<Rightarrow> action_button" where
  "action_button geoRestricted isWalletConnected isSigned isProcessing processingStep err noLiquidity =
     (if geoRestricted then GeoBlocked
      else if \<not> isWalletConnected then ConnectWallet
      else if \<not> isSigned
           then (if isProcessing \<and> processingStep = ''signing'' then CancelSigning
                 else SignOrder ((err = None \<or> err = Some []) \<and> \<not> isProcessing \<and> \<not> noLiquidity))
           else CancelOrSubmit (\<not> isProcessing))"

section \<open>The valid prices\<close>

text \<open>A price of \<open>k\<close> tenths of a cent, in cents and in dollars.\<close>

definition cents :: "int \<Rightarrow> rat" where
  "cents k = fl (of_int k / 10)"

definition dollars :: "int \<Rightarrow> rat" where
  "dollars k = fl (cents k / 100)"

definition ticks :: "int list" where
  "ticks = [1..49] @ map ((*) 10) [5..95] @ [951..999]"

lemma cents_props:
  assumes "0 \<le> k" "k \<le> 1000"
  shows "jsfin (of_int k / 10) = JNum (cents k)" "0 \<le> cents k" "cents k \<le> 128" "\<bar>cents k * 10 - of_int k\<bar> \<le> 1 / 2 ^ 40"
proof -
  have q: "0 \<le> of_int k / (10::rat)" "of_int k / (10::rat) \<le> 128" using assms by simp_all
  show "jsfin (of_int k / 10) = JNum (cents k)"
    using jsfin_small(1) [of "of_int k / 10 :: rat" 128] q by (simp add: cents_def)
  show "0 \<le> cents k" using fl.rd_nonneg [OF q(1)] by (simp add: cents_def)
  show "cents k \<le> 128" using fl.rd_le [OF _ q(2)] fl_of_int [of 128] by (simp add: cents_def)
  have "\<bar>fl (of_int k / of_int 10) * of_int 10 - of_int k\<bar> \<le> of_int \<bar>k\<bar> / 2 ^ 53"
    by (rule fl.scaled_error) simp_all
  also have "\<dots> \<le> 1 / 2 ^ 40" using assms by simp
  finally show "\<bar>cents k * 10 - of_int k\<bar> \<le> 1 / 2 ^ 40" by (simp add: cents_def)
qed

lemma cents_whole: "\<bar>c\<bar> \<le> 2 ^ 53 \<Longrightarrow> cents (10 * c) = of_int c"
  by (simp add: cents_def fl_of_int)

text \<open>One decimal of a number close to \<open>k\<close> tenths reads back as the double nearest to it.\<close>

lemma one_decimal:
  assumes "0 \<le> k" "k \<le> 1000" "0 \<le> x" "x \<le> 128" "\<bar>x * 10 - of_int k\<bar> \<le> 1 / 4"
  shows "number_of_string (to_fixed (JNum x) 1) = JNum (cents k)"
proof -
  have "\<lfloor>x * 10 + 1 / 2\<rfloor> = k" using assms(5) by (intro floor_half_up_int) simp
  then show ?thesis using fixed_value(1) [OF assms(1), of 1] cents_props(1) [OF assms(1,2)] assms(3,4) by simp
qed

lemma dollars_props:
  assumes "0 \<le> k" "k \<le> 1000"
  shows "JNum (cents k) / JNum 100 = JNum (dollars k)" "0 \<le> dollars k" "dollars k \<le> 2"
    "\<bar>dollars k * 1000 - of_int k\<bar> \<le> 1 / 2 ^ 30"
proof -
  note c = cents_props [OF assms]
  have q: "0 \<le> cents k / 100" "cents k / 100 \<le> 2" using c by simp_all
  show "JNum (cents k) / JNum 100 = JNum (dollars k)"
    using jsfin_small(1) [of "cents k / 100" 2] q by (simp add: dollars_def)
  show "0 \<le> dollars k" using fl.rd_nonneg [OF q(1)] by (simp add: dollars_def)
  show "dollars k \<le> 2" using fl.rd_le [OF _ q(2)] fl_of_int [of 2] by (simp add: dollars_def)
  have "\<bar>dollars k - cents k / 100\<bar> \<le> 1 / 2 ^ 42"
    unfolding dollars_def using q by (intro fl_small_error) simp_all
  moreover have "(1::rat) / 2 ^ 42 * 1000 + 100 / 2 ^ 40 \<le> 1 / 2 ^ 30" by simp
  ultimately show "\<bar>dollars k * 1000 - of_int k\<bar> \<le> 1 / 2 ^ 30" using c(4) by linarith
qed

lemma price_back_to_cents:
  assumes "0 \<le> k" "k \<le> 1000"
  shows "number_of_string (to_fixed (JNum (dollars k) * JNum 100) 1) = JNum (cents k)"
proof -
  note d = dollars_props [OF assms]
  have q: "0 \<le> dollars k * 100" "dollars k * 100 \<le> 1024" "\<bar>dollars k * 100\<bar> \<le> of_int 1024" using d by simp_all
  have e: "\<bar>fl (dollars k * 100) - dollars k * 100\<bar> \<le> 1 / 2 ^ 42" using q by (intro fl_small_error) simp_all
  have "JNum (dollars k) * JNum 100 = JNum (fl (dollars k * 100))" using jsfin_small(1) [OF q(3)] by simp
  moreover have "(1::rat) / 2 ^ 30 + 10 / 2 ^ 42 \<le> 1 / 8" by simp
  then have near: "\<bar>fl (dollars k * 100) * 10 - of_int k\<bar> \<le> 1 / 8" using d(4) e by linarith
  moreover have "fl (dollars k * 100) \<le> 128"
  proof -
    have "(of_int k :: rat) \<le> 1000" using assms(2) by simp
    with near show ?thesis by linarith
  qed
  ultimately show ?thesis using fl.rd_nonneg [OF q(1)] by (simp only:) (intro one_decimal [OF assms], simp_all)
qed

lemma cents_less:
  assumes "j < k" "0 \<le> j" "k \<le> 1000"
  shows "cents j < cents k"
proof -
  have "(1::rat) / 2 ^ 40 + 1 / 2 ^ 40 < 1" by simp
  moreover have "of_int j + 1 \<le> (of_int k :: rat)" using assms(1) by linarith
  ultimately have "cents j * 10 < cents k * 10"
    using cents_props(4) [of j] cents_props(4) [of k] assms by linarith
  then show ?thesis by simp
qed

lemma ticks_range: "k \<in> set ticks \<Longrightarrow> 0 < k \<and> k < 1000 \<and> valid_tick k"
  unfolding ticks_def set_append set_map set_upto by (auto simp: valid_tick_def)

lemma length_ticks [simp]: "length ticks = 189"
  unfolding ticks_def length_append length_map length_upto by simp

lemma sorted_ticks: "sorted_wrt (<) ticks"
proof -
  have "sorted_wrt (<) (map ((*) 10) [a..b])" for a b :: int
    unfolding sorted_wrt_map by (rule sorted_wrt_mono_rel [OF _ sorted_wrt_upto]) simp
  then show ?thesis
    unfolding ticks_def sorted_wrt_append set_append set_map set_upto
    by (intro conjI ballI sorted_wrt_upto) (assumption | force)+
qed

lemma VALID_CENTS_ticks: "VALID_CENTS = map (\<lambda>k. JNum (cents k)) ticks"
proof -
  have small: "number_of_string (to_fixed (num_of_bigint c / JNum 10) 1) = JNum (cents c)" if c: "0 \<le> c" "c \<le> 1000" for c
  proof -
    note p = cents_props [OF c]
    have "num_of_bigint c = JNum (of_int c)" using c jsfin_int [of c] by (simp add: num_of_bigint_def)
    then have "num_of_bigint c / JNum 10 = JNum (cents c)" using p(1) by simp
    moreover have "(1::rat) / 2 ^ 40 \<le> 1 / 4" by simp
    ultimately show ?thesis using one_decimal [OF c p(2,3) order_trans [OF p(4)]] by simp
  qed
  have whole: "num_of_bigint c = JNum (cents (10 * c))" if c: "0 \<le> c" "c \<le> 1000" for c
    using c jsfin_int [of c] cents_whole [of c] by (simp add: num_of_bigint_def)
  show ?thesis unfolding VALID_CENTS_def ticks_def map_append map_map comp_def
  proof (intro arg_cong2 [where f = "(@)"] map_cong refl)
    fix x :: int
    show "num_of_bigint x = JNum (cents (10 * x))" if "x \<in> set [5..95]"
      using that unfolding set_upto by (intro whole) simp_all
    show "number_of_string (to_fixed (num_of_bigint x / JNum 10) 1) = JNum (cents x)" if "x \<in> set [1..49]"
      using that unfolding set_upto by (intro small) simp_all
    show "number_of_string (to_fixed (num_of_bigint x / JNum 10) 1) = JNum (cents x)" if "x \<in> set [951..999]"
      using that unfolding set_upto by (intro small) simp_all
  qed
qed

lemma findIndex_sorted:
  assumes "sorted_wrt (<) xs" "i < length xs" "\<And>x y. x \<in> set xs \<Longrightarrow> y \<in> set xs \<Longrightarrow> P x y = (x \<le> (y :: int))"
  shows "findIndex (P (xs ! i)) xs = Some i"
  using assms
proof (induction xs arbitrary: i)
  case (Cons x xs)
  show ?case
  proof (cases i)
    case 0
    then show ?thesis using Cons.prems(3) [of x x] by simp
  next
    case (Suc j)
    then have "xs ! j \<in> set xs" "j < length xs" using Cons.prems(2) by simp_all
    have "x < xs ! j" using Cons.prems(1) \<open>xs ! j \<in> set xs\<close> by simp
    moreover from this have "\<not> P (xs ! j) x" using Cons.prems(3) [of "xs ! j" x] \<open>xs ! j \<in> set xs\<close> by simp
    moreover have "findIndex (P (xs ! j)) xs = Some j" using Cons.prems Suc by (intro Cons.IH) auto
    ultimately show ?thesis using Suc by simp
  qed
qed simp

lemma findIndex_map: "findIndex P (map f xs) = findIndex (P \<circ> f) xs"
  by (induction xs) simp_all

definition stepped :: "nat \<Rightarrow> jsn" where
  "stepped i = VALID_CENTS ! i / JNum 100"

lemma stepped_dollars: "i < 189 \<Longrightarrow> stepped i = JNum (dollars (ticks ! i))"
  using ticks_range [of "ticks ! i"] dollars_props(1) [of "ticks ! i"] by (simp add: stepped_def VALID_CENTS_ticks)

lemma step_of_stepped:
  assumes "i < 189"
  shows "stepLimitPrice (stepped i) StepUp = stepped (min 188 (Suc i))" "stepLimitPrice (stepped i) StepDown = stepped (i - 1)"
proof -
  let ?k = "ticks ! i"
  have k: "0 \<le> ?k" "?k \<le> 1000" using ticks_range [of ?k] assms by simp_all
  have cur: "number_of_string (to_fixed (stepped i * JNum 100) 1) = JNum (cents ?k)"
    using price_back_to_cents [OF k] assms by (simp only: stepped_dollars)
  have at: "VALID_CENTS ! i = JNum (cents ?k)" using assms by (simp add: VALID_CENTS_ticks)
  have "(JNum (cents x) \<le> JNum (cents y)) = (x \<le> y)" if "x \<in> set ticks" "y \<in> set ticks" for x y
    using cents_less [of x y] cents_less [of y x] ticks_range [OF that(1)] ticks_range [OF that(2)]
    by (cases x y rule: linorder_cases) auto
  then have "findIndex (\<lambda>y. JNum (cents ?k) \<le> JNum (cents y)) ticks = Some i"
    using findIndex_sorted [OF sorted_ticks, of i "\<lambda>x y. JNum (cents x) \<le> JNum (cents y)"] assms by simp
  then have find: "findIndex (\<lambda>v. JNum (cents ?k) \<le> v) VALID_CENTS = Some i"
    by (simp add: VALID_CENTS_ticks findIndex_map comp_def)
  have len: "length VALID_CENTS = 189" by (simp add: VALID_CENTS_ticks)
  have up: "nat (max 0 (min (int 189 - 1) (int i + 1))) = min 188 (Suc i)" using assms by simp
  have down: "nat (max 0 (min (int 189 - 1) (int i + - 1))) = i - 1" using assms by simp
  show "stepLimitPrice (stepped i) StepUp = stepped (min 188 (Suc i))"
    unfolding stepLimitPrice_def Let_def cur find len using up by (simp add: stepped_def del: of_nat_numeral)
  show "stepLimitPrice (stepped i) StepDown = stepped (i - 1)"
    unfolding stepLimitPrice_def Let_def cur find len using down at assms by (simp add: stepped_def js_eq_def min_def)
qed

text \<open>Such a price is exact on the wire, and a valid tick.\<close>

lemma stepped_on_the_wire:
  assumes "i < 189"
  shows "toLimitYesPrice OYes (stepped i) = Inr (1000 * (ticks ! i))"
    "toLimitYesPrice ONo (stepped i) = Inr (PRICE_SCALE - 1000 * (ticks ! i))"
proof -
  let ?k = "ticks ! i"
  have k: "0 \<le> ?k" "?k \<le> 1000" using ticks_range [of ?k] assms by simp_all
  have "dollars ?k * 1000000 - of_int (1000 * ?k) = (dollars ?k * 1000 - of_int ?k) * 1000" by simp
  moreover have "(1::rat) / 2 ^ 30 * 1000 \<le> 1 / 8" by simp
  ultimately have "\<bar>dollars ?k * 1000000 - of_int (1000 * ?k)\<bar> \<le> 1 / 8" using dollars_props(4) [OF k] by linarith
  then have "scaled_price (stepped i) = Inr (1000 * ?k)"
    unfolding stepped_dollars [OF assms] using k by (intro scaled_price_near) simp_all
  then show "toLimitYesPrice OYes (stepped i) = Inr (1000 * ?k)"
    "toLimitYesPrice ONo (stepped i) = Inr (PRICE_SCALE - 1000 * ?k)"
    using k by (simp_all add: toLimitYesPrice_scaled clamp_price_id js_simps)
qed

section \<open>Limits of an order\<close>

text \<open>The amount is rounded to cents after it was capped, so the cap can be exceeded: the button for the maximum
  sets an amount above an allowance of 10.006, which the form then refuses.\<close>

lemma max_button_above_limit:
  "lit 10.006 < amountUsd (tp_form (max_button (lit 10.006) (JNum 50) (initial_panel None)))"
  by code_simp

lemma above_allowance_refused:
  "allowance < amountUsd f \<Longrightarrow> validation_error f d ABuy True allowance = Some (''Insufficient allowance: $'' @ to_fixed allowance 2)"
  by (simp add: validation_error_def)

text \<open>A sell can be signed only when the shares entered fit what is left of the position.\<close>

lemma sell_needs_shares:
  assumes "action_button geo True False busy proc (effectiveValidationError (localSellMaxError s available) err) nl = SignOrder True"
    "tp_action s = ASell"
  shows "\<not> available + lit (1 / 10 ^ 9) < sharesInput (tp_form s)" "err = None \<or> err = Some []"
  using assms
  by (auto simp: action_button_def effectiveValidationError_def localSellMaxError_def split: if_splits option.splits)

text \<open>An order is counted once: an own intent the book already shows is not added again, and a pending sell that is
  visible is dropped from the pending ones.\<close>

lemma panel_book_once:
  "set (map lo_txId (panel_intents wire intents)) \<inter> set (map lo_txId (bids wire @ asks wire)) = {}"
  by (auto simp: panel_intents_def Let_def)

lemma reconciled_not_pending:
  assumes "p \<in> set (reconcile_effect now ba pending)" "visible_sells ba \<noteq> []"
  shows "ps_txId p \<notin> set (visible_sells ba)"
proof -
  let ?kept = "filter (\<lambda>p. ps_txId p \<notin> set (visible_sells ba)) (prune now pending)"
  have "fst (reconcilePendingSells now (set (visible_sells ba)) pending) = ?kept"
    using sym [OF filter_length_id [of "\<lambda>p. ps_ts p \<ge> now - PENDING_SELL_TTL_MS \<and> ps_txId p \<notin> set (visible_sells ba)" pending]]
    by (simp add: reconcilePendingSells_def prune_def Let_def conj_commute)
  then show ?thesis using assms by (auto simp: reconcile_effect_def)
qed

section \<open>Properties\<close>

text \<open>The arrows of the limit price walk exactly the 189 valid prices: a step up from one gives the next, a step
  down the one before, at either end the price stays; and each is a valid tick that goes on the wire as exactly
  its number of thousandths, for both outcomes.\<close>

theorem price_steps_are_ticks:
  assumes "i < 189"
  shows "stepLimitPrice (VALID_CENTS ! i / JNum 100) StepUp = VALID_CENTS ! min 188 (Suc i) / JNum 100
    \<and> stepLimitPrice (VALID_CENTS ! i / JNum 100) StepDown = VALID_CENTS ! (i - 1) / JNum 100
    \<and> (\<exists>k. valid_tick k \<and> 0 < k \<and> k < 1000 \<and> toLimitYesPrice OYes (VALID_CENTS ! i / JNum 100) = Inr (1000 * k)
          \<and> toLimitYesPrice ONo (VALID_CENTS ! i / JNum 100) = Inr (PRICE_SCALE - 1000 * k))"
  using step_of_stepped [OF assms] stepped_on_the_wire [OF assms] ticks_range [of "ticks ! i"] assms
  unfolding stepped_def by auto

theorem price_steps_are_ticks_witness:
  "stepLimitPrice (VALID_CENTS ! 48 / JNum 100) StepUp = VALID_CENTS ! 49 / JNum 100"
  using price_steps_are_ticks [of 48] by simp

end
