(* ===== verification/PortfolioPage.thy ===== *)
theory PortfolioPage
  imports Portfolio Requests Prism Rewards
begin

text \<open>
  The portfolio page, \<open>src/web/components/Portfolio.tsx\<close>, and the notice of unclaimed winnings,
  \<open>RedeemableWinningsNotice.tsx\<close>: what they compute from the lists of the portfolio hook. The open orders and
  the holdings are grouped by market, the history has one row per resolved side with the payout after the
  platform's fee, and a cancellation is requested and reported. \<open>Date.parse\<close>, \<open>localeCompare\<close>, the clock and
  the fields of a market that the hook does not read are the fields of a record.
\<close>

section \<open>The world of the page\<close>

record page_world =
  pw_parse :: "string \<Rightarrow> jsn"
  pw_compare :: "string \<Rightarrow> string \<Rightarrow> jsn"
  pw_now :: jsn
  pw_statement :: "market \<Rightarrow> string"
  pw_createdAt :: "market \<Rightarrow> string"
  pw_dates :: "market \<Rightarrow> market_dates"
  pw_contract :: "market \<Rightarrow> string"

definition time_of :: "page_world \<Rightarrow> string option \<Rightarrow> jsn" where
  "time_of w t = (case t of Some s \<Rightarrow> if s \<noteq> [] then pw_parse w s else JNum 0 | None \<Rightarrow> JNum 0)"

definition statement_of :: "page_world \<Rightarrow> market option \<Rightarrow> string" where
  "statement_of w m = (case m of Some mk \<Rightarrow> pw_statement w mk | None \<Rightarrow> [])"

definition status_of :: "page_world \<Rightarrow> market option \<Rightarrow> market_status" where
  "status_of w m = getMarketStatus (pw_parse w) (pw_now w) (map_option (pw_dates w) m)"

fun STATUS_LABEL :: "market_status \<Rightarrow> string" where
  "STATUS_LABEL Active = ''Active''"
| "STATUS_LABEL Resolved = ''Resolved''"
| "STATUS_LABEL Suspended = ''Suspended''"
| "STATUS_LABEL Closed = ''Closed''"

text \<open>An object that collects rows under a key: the first row brings the market along.\<close>

definition add_rows :: "string \<Rightarrow> 'm \<Rightarrow> 'r list \<Rightarrow> (string \<times> 'm \<times> 'r list) list \<Rightarrow> (string \<times> 'm \<times> 'r list) list" where
  "add_rows k m rs acc =
     map_set k (case map_of acc k of Some (m0, rs0) \<Rightarrow> (m0, rs0 @ rs) | None \<Rightarrow> (m, rs)) acc"

section \<open>Open orders\<close>

definition visible_orders :: "page_world \<Rightarrow> open_order list \<Rightarrow> open_order list" where
  "visible_orders w os = filter (\<lambda>o'. oo_market o' \<noteq> None \<and> status_of w (oo_market o') = Active) os"

definition split_row_count :: "enriched_position list \<Rightarrow> nat" where
  "split_row_count ps =
     foldl (\<lambda>n p. n + (if JNum 0 < ep_qtyYes p then 1 else 0) + (if JNum 0 < ep_qtyNo p then 1 else 0)) 0 ps"

datatype order_sort = Newest_orders | Oldest_orders | Price_high | Price_low | By_market

definition group_orders :: "open_order list \<Rightarrow> (string \<times> market option \<times> open_order list) list" where
  "group_orders os = foldl (\<lambda>acc o'. add_rows (oo_marketId o') (oo_market o') [o'] acc) [] os"

fun order_group_cmp ::
  "page_world \<Rightarrow> order_sort \<Rightarrow> string \<times> market option \<times> open_order list \<Rightarrow> string \<times> market option \<times> open_order list \<Rightarrow> jsn" where
  "order_group_cmp w Newest_orders (_, _, a) (_, _, b) =
     jmax_list (map (time_of w \<circ> oo_generatedAt) b) - jmax_list (map (time_of w \<circ> oo_generatedAt) a)"
| "order_group_cmp w Oldest_orders (_, _, a) (_, _, b) =
     jmax_list (map (time_of w \<circ> oo_generatedAt) a) - jmax_list (map (time_of w \<circ> oo_generatedAt) b)"
| "order_group_cmp w Price_high (_, _, a) (_, _, b) = jmax_list (map oo_priceUsd b) - jmax_list (map oo_priceUsd a)"
| "order_group_cmp w Price_low (_, _, a) (_, _, b) = jmin_list (map oo_priceUsd a) - jmin_list (map oo_priceUsd b)"
| "order_group_cmp w By_market (_, ma, _) (_, mb, _) = pw_compare w (statement_of w ma) (statement_of w mb)"

fun getSortedOrders :: "page_world \<Rightarrow> order_sort \<Rightarrow> open_order list \<Rightarrow> open_order list" where
  "getSortedOrders w Newest_orders os =
     js_sort (\<lambda>a b. time_of w (oo_generatedAt b) - time_of w (oo_generatedAt a)) os"
| "getSortedOrders w Oldest_orders os =
     js_sort (\<lambda>a b. time_of w (oo_generatedAt a) - time_of w (oo_generatedAt b)) os"
| "getSortedOrders w Price_high os = js_sort (\<lambda>a b. oo_priceUsd b - oo_priceUsd a) os"
| "getSortedOrders w Price_low os = js_sort (\<lambda>a b. oo_priceUsd a - oo_priceUsd b) os"
| "getSortedOrders w By_market os = os"

definition grouped_orders_list ::
  "page_world \<Rightarrow> order_sort \<Rightarrow> open_order list \<Rightarrow> (string \<times> market option \<times> open_order list) list" where
  "grouped_orders_list w srt os =
     map (\<lambda>(k, m, g). (k, m, getSortedOrders w srt g)) (js_sort (order_group_cmp w srt) (obj_entries (group_orders os)))"

text \<open>A cancellation: the key of the account is looked up when the connection did not bring it.\<close>

record cancel_report =
  cr_toasts :: "(bool \<times> string) list"
  cr_refreshes :: bool
  cr_thrown :: "thrown option"

definition verification_failed :: "string \<Rightarrow> bool" where
  "verification_failed message =
     rx_search_i (ralt [rlit ''invalid signature'', rlit ''failed to verify signature'',
       rseq [rlit ''key'', RDots, rlit ''mismatch''], rlit ''public key mismatch'']) message"

definition handleCancelOrder ::
  "request_world \<Rightarrow> (cancel_request \<Rightarrow> (int \<times> string) attempt) \<Rightarrow> (string \<Rightarrow> user_key attempt) \<Rightarrow> string option \<Rightarrow> user_key option
   \<Rightarrow> string \<Rightarrow> (string \<times> open_order) option \<Rightarrow> cancel_report" where
  "handleCancelOrder w api lookup signerAccount userAccountInfo net target =
     (let fail = (\<lambda>text e. \<lparr>cr_toasts = [(False, text)], cr_refreshes = False, cr_thrown = Some e\<rparr>) in
      case target of
        None \<Rightarrow> \<lparr>cr_toasts = [], cr_refreshes = False, cr_thrown = None\<rparr>
      | Some (mid, o') \<Rightarrow>
          (case signerAccount of
             None \<Rightarrow> fail ''Connect your wallet to cancel an order'' (throw ''Wallet not connected'')
           | Some acc \<Rightarrow>
               (case (case userAccountInfo of Some k \<Rightarrow> Inr k | None \<Rightarrow> lookup acc) of
                  Inl _ \<Rightarrow> fail ''Could not load account key from mirror node. Please try again.'' (throw ''userAccountInfo unavailable'')
                | Inr k \<Rightarrow>
                    (case submitSignedCancel w api acc mid (oo_orderId o') net k of
                       Inr _ \<Rightarrow> \<lparr>cr_toasts = [(True, ''Order cancelled'')], cr_refreshes = True, cr_thrown = None\<rparr>
                     | Inl e \<Rightarrow>
                         fail (if verification_failed (case th_message e of Some m \<Rightarrow> m | None \<Rightarrow> [])
                               then ''Cancel verification failed. Please refresh and retry once.''
                               else ''Failed to cancel order'') e))))"

section \<open>Holdings\<close>

record position_row =
  row_marketId :: string
  row_market :: "market option"
  row_side :: outcome
  row_qty :: jsn
  row_avgPrice :: jsn
  row_currentPrice :: jsn
  row_cost :: jsn
  row_marketValue :: jsn
  row_unrealizedPnL :: jsn
  row_pnlPercent :: jsn
  row_costBasis :: bool

record sell_sum =
  ss_count :: nat
  ss_qty :: jsn
  ss_prices :: "jsn list"

definition side_key :: "string \<Rightarrow> outcome \<Rightarrow> string" where
  "side_key mid oc = mid @ (case oc of OYes \<Rightarrow> ''-YES'' | ONo \<Rightarrow> ''-NO'')"

definition add_sell :: "(string \<times> sell_sum) list \<Rightarrow> open_order \<Rightarrow> (string \<times> sell_sum) list" where
  "add_sell acc o' =
     (if oo_action o' \<noteq> ASell then acc
      else let key = side_key (oo_marketId o') (oo_outcome o');
               cur = (case map_of acc key of Some c \<Rightarrow> c | None \<Rightarrow> \<lparr>ss_count = 0, ss_qty = JNum 0, ss_prices = []\<rparr>)
           in map_set key \<lparr>ss_count = ss_count cur + 1, ss_qty = ss_qty cur + oo_qty o',
                           ss_prices = ss_prices cur @ [oo_priceUsd o']\<rparr> acc)"

definition sellOrderMap :: "open_order list \<Rightarrow> (string \<times> sell_sum) list" where
  "sellOrderMap os = foldl add_sell [] os"

definition side_row :: "enriched_position \<Rightarrow> outcome \<Rightarrow> jsn \<Rightarrow> jsn \<Rightarrow> jsn \<Rightarrow> position_row" where
  "side_row p oc qty avg price =
     (let val = qty * price; cst = qty * avg; pnl = val - cst
      in \<lparr>row_marketId = ep_marketId p, row_market = ep_market p, row_side = oc, row_qty = qty,
          row_avgPrice = avg, row_currentPrice = price, row_cost = cst, row_marketValue = val,
          row_unrealizedPnL = pnl, row_pnlPercent = (if JNum 0 < cst then pnl / cst * JNum 100 else JNum 0),
          row_costBasis = costBasisAvailable (ep_cost p)\<rparr>)"

definition wash_row :: "enriched_position \<Rightarrow> position_row" where
  "wash_row p =
     \<lparr>row_marketId = ep_marketId p, row_market = ep_market p, row_side = OYes, row_qty = JNum 0,
      row_avgPrice = JNum 0, row_currentPrice = ep_yesBid p, row_cost = totalCost (ep_cost p),
      row_marketValue = JNum 0, row_unrealizedPnL = - totalCost (ep_cost p), row_pnlPercent = JNum 0,
      row_costBasis = costBasisAvailable (ep_cost p)\<rparr>"

definition splitPositions :: "enriched_position \<Rightarrow> position_row list" where
  "splitPositions p =
     (let rows = (if JNum 0 < ep_qtyYes p then [side_row p OYes (ep_qtyYes p) (avgPriceYes (ep_cost p)) (ep_yesBid p)] else [])
               @ (if JNum 0 < ep_qtyNo p then [side_row p ONo (ep_qtyNo p) (avgPriceNo (ep_cost p)) (ep_noBid p)] else [])
      in if rows = [] then [wash_row p] else rows)"

definition escrow_row :: "(string \<times> sell_sum) list \<Rightarrow> open_order \<Rightarrow> position_row" where
  "escrow_row sells o' =
     \<lparr>row_marketId = oo_marketId o', row_market = oo_market o', row_side = oo_outcome o',
      row_qty = (case map_of sells (side_key (oo_marketId o') (oo_outcome o')) of Some c \<Rightarrow> ss_qty c | None \<Rightarrow> oo_qty o'),
      row_avgPrice = JNum 0, row_currentPrice = JNum 0, row_cost = JNum 0, row_marketValue = JNum 0,
      row_unrealizedPnL = JNum 0, row_pnlPercent = JNum 0, row_costBasis = False\<rparr>"

type_synonym holding_groups = "(string \<times> market option \<times> position_row list) list"

definition held_groups :: "enriched_position list \<Rightarrow> holding_groups" where
  "held_groups ps = foldl (\<lambda>acc p. add_rows (ep_marketId p) (ep_market p) (splitPositions p) acc) [] ps"

definition add_escrow :: "string set \<Rightarrow> (string \<times> sell_sum) list \<Rightarrow> holding_groups \<Rightarrow> open_order \<Rightarrow> holding_groups" where
  "add_escrow positionMarketIds sells acc o' =
     (if oo_action o' \<noteq> ASell \<or> oo_marketId o' \<in> positionMarketIds
         \<or> (case map_of acc (oo_marketId o') of Some (_, rows) \<Rightarrow> \<exists>r\<in>set rows. row_side r = oo_outcome o' | None \<Rightarrow> False)
      then acc
      else add_rows (oo_marketId o') (oo_market o') [escrow_row sells o'] acc)"

definition groupedByMarket :: "enriched_position list \<Rightarrow> open_order list \<Rightarrow> holding_groups" where
  "groupedByMarket ps os = foldl (add_escrow (ep_marketId ` set ps) (sellOrderMap os)) (held_groups ps) os"

datatype holdings_sort = Value_high | Value_low | Newest_market | Oldest_market | By_name

fun holdings_cmp ::
  "page_world \<Rightarrow> holdings_sort \<Rightarrow> string \<times> market option \<times> position_row list \<Rightarrow> string \<times> market option \<times> position_row list \<Rightarrow> jsn" where
  "holdings_cmp w Value_high (_, _, a) (_, _, b) = sum_of row_marketValue b - sum_of row_marketValue a"
| "holdings_cmp w Value_low (_, _, a) (_, _, b) = sum_of row_marketValue a - sum_of row_marketValue b"
| "holdings_cmp w Newest_market (_, ma, _) (_, mb, _) =
     time_of w (map_option (pw_createdAt w) mb) - time_of w (map_option (pw_createdAt w) ma)"
| "holdings_cmp w Oldest_market (_, ma, _) (_, mb, _) =
     time_of w (map_option (pw_createdAt w) ma) - time_of w (map_option (pw_createdAt w) mb)"
| "holdings_cmp w By_name (_, ma, _) (_, mb, _) = pw_compare w (statement_of w ma) (statement_of w mb)"

record holdings_view =
  hv_entries :: holding_groups
  hv_costBasis :: bool
  hv_totalCost :: jsn
  hv_totalValue :: jsn
  hv_totalPnL :: jsn

definition holdings_list :: "page_world \<Rightarrow> holdings_sort \<Rightarrow> enriched_position list \<Rightarrow> open_order list \<Rightarrow> holdings_view" where
  "holdings_list w srt ps os =
     (let groups = groupedByMarket ps os; rows = concat (map (\<lambda>(_, _, rs). rs) (obj_entries groups))
      in \<lparr>hv_entries = js_sort (holdings_cmp w srt) (obj_entries groups),
          hv_costBasis = (rows \<noteq> [] \<and> list_all row_costBasis rows),
          hv_totalCost = sum_of row_cost rows, hv_totalValue = sum_of row_marketValue rows,
          hv_totalPnL = sum_of row_unrealizedPnL rows\<rparr>)"

text \<open>The button of a row: none when open orders already sell it all, else a link or a disabled button with the cause.\<close>

datatype sell_button = No_button | Cannot_sell string | Sell_link string outcome jsn

definition row_button :: "page_world \<Rightarrow> (string \<times> sell_sum) list \<Rightarrow> position_row \<Rightarrow> sell_button" where
  "row_button w sells r =
     (let status = status_of w (row_market r)
      in if (case map_of sells (side_key (row_marketId r) (row_side r)) of
               Some c \<Rightarrow> row_qty r - lit (1 / 1000) \<le> ss_qty c | None \<Rightarrow> False) then No_button
         else if status = Active \<and> JNum 0 < row_qty r then Sell_link (row_marketId r) (row_side r) (row_qty r)
         else Cannot_sell (if row_qty r \<le> JNum 0 then ''No shares to sell'' else ''Market '' @ to_lower (STATUS_LABEL status)))"

text \<open>The indicator of a row with open sell orders: how many, how much, at which prices, and which order its
  cancel button picks.\<close>

record selling_tag =
  st_count :: nat
  st_qty :: string
  st_prices :: "jsn list"
  st_cancels :: "open_order option"

definition selling_indicator :: "open_order list \<Rightarrow> (string \<times> sell_sum) list \<Rightarrow> position_row \<Rightarrow> selling_tag option" where
  "selling_indicator os sells r =
     (case map_of sells (side_key (row_marketId r) (row_side r)) of
        None \<Rightarrow> None
      | Some c \<Rightarrow>
          let lo = jmin_list (ss_prices c); hi = jmax_list (ss_prices c); cents = (\<lambda>p. jround (p * JNum 100)) in
          Some \<lparr>st_count = ss_count c, st_qty = to_fixed (ss_qty c) 3,
                st_prices = (if js_eq lo hi then [cents lo] else [cents lo, cents hi]),
                st_cancels = List.find (\<lambda>o'. oo_marketId o' = row_marketId r \<and> oo_action o' = ASell \<and> oo_outcome o' = row_side r) os\<rparr>)"

text \<open>The tab around the list.\<close>

datatype holdings_tab = Tab_loading | Tab_empty | Tab_list holdings_view

definition holdings_tab :: "page_world \<Rightarrow> bool \<Rightarrow> holdings_sort \<Rightarrow> enriched_position list \<Rightarrow> open_order list \<Rightarrow> holdings_tab" where
  "holdings_tab w isLoading srt ps os =
     (if isLoading then Tab_loading else if ps = [] then Tab_empty else Tab_list (holdings_list w srt ps os))"

section \<open>History\<close>

definition RAKE_PCT :: jsn where "RAKE_PCT = lit (2 / 100)"

record history_row =
  hi_marketId :: string
  hi_position :: enriched_position
  hi_side :: outcome
  hi_qty :: jsn
  hi_avg :: jsn
  hi_cost :: jsn
  hi_payout :: jsn
  hi_pnl :: jsn
  hi_pnlPercent :: jsn
  hi_won :: bool
  hi_resolvedTs :: jsn

definition history_side :: "page_world \<Rightarrow> enriched_position \<Rightarrow> outcome \<Rightarrow> history_row" where
  "history_side w p oc =
     (let ts = time_of w (ep_resolvedAt p);
          qty = (case oc of OYes \<Rightarrow> ep_qtyYes p | ONo \<Rightarrow> ep_qtyNo p);
          avg = (case oc of OYes \<Rightarrow> avgPriceYes (ep_cost p) | ONo \<Rightarrow> avgPriceNo (ep_cost p));
          cst = qty * avg;
          gross = (if ep_resolution p = Some (case oc of OYes \<Rightarrow> ResYes | ONo \<Rightarrow> ResNo) then qty
                   else if ep_resolution p = Some ResCancelled then qty * lit (1 / 2) else JNum 0);
          payout = gross * (JNum 1 - RAKE_PCT); pnl = payout - cst
      in \<lparr>hi_marketId = ep_marketId p, hi_position = p, hi_side = oc, hi_qty = qty, hi_avg = avg, hi_cost = cst,
          hi_payout = payout, hi_pnl = pnl, hi_pnlPercent = (if JNum 0 < cst then pnl / cst * JNum 100 else JNum 0),
          hi_won = (JNum 0 < payout), hi_resolvedTs = (if ts = JNaN then JNum 0 else ts)\<rparr>)"

definition history_rows :: "page_world \<Rightarrow> enriched_position \<Rightarrow> history_row list" where
  "history_rows w p =
     (if JNum 0 < ep_qtyYes p then [history_side w p OYes] else [])
     @ (if JNum 0 < ep_qtyNo p then [history_side w p ONo] else [])"

datatype history_filter = All_rows | Won_rows | Lost_rows
datatype history_sort = Recent | Oldest_first | Biggest_win | Biggest_loss | Largest
datatype history_timeframe = All_time | Last_24h | Last_7d | Last_30d | Last_90d

fun TIMEFRAME_MS :: "history_timeframe \<Rightarrow> jsn option" where
  "TIMEFRAME_MS All_time = None"
| "TIMEFRAME_MS Last_24h = Some (JNum 86400000)"
| "TIMEFRAME_MS Last_7d = Some (JNum 604800000)"
| "TIMEFRAME_MS Last_30d = Some (JNum 2592000000)"
| "TIMEFRAME_MS Last_90d = Some (JNum 7776000000)"

definition history_keeps :: "jsn \<Rightarrow> history_filter \<Rightarrow> history_timeframe \<Rightarrow> history_row \<Rightarrow> bool" where
  "history_keeps now flt tf r =
     (\<not> (flt = Won_rows \<and> \<not> hi_won r) \<and> \<not> (flt = Lost_rows \<and> hi_won r)
      \<and> (case TIMEFRAME_MS tf of None \<Rightarrow> True
         | Some win \<Rightarrow> truthy (hi_resolvedTs r) \<and> \<not> win < now - hi_resolvedTs r))"

fun history_cmp :: "history_sort \<Rightarrow> history_row \<Rightarrow> history_row \<Rightarrow> jsn" where
  "history_cmp Oldest_first a b = hi_resolvedTs a - hi_resolvedTs b"
| "history_cmp Biggest_win a b = hi_pnl b - hi_pnl a"
| "history_cmp Biggest_loss a b = hi_pnl a - hi_pnl b"
| "history_cmp Largest a b = hi_cost b - hi_cost a"
| "history_cmp Recent a b = hi_resolvedTs b - hi_resolvedTs a"

record history_view =
  hw_groups :: "(string \<times> history_row list) list"
  hw_won :: nat
  hw_lost :: nat
  hw_netRealized :: jsn

definition history_list ::
  "page_world \<Rightarrow> history_filter \<Rightarrow> history_sort \<Rightarrow> history_timeframe \<Rightarrow> enriched_position list \<Rightarrow> history_view" where
  "history_list w flt srt tf ps =
     (let rows = concat (map (history_rows w) ps);
          sorted = js_sort (history_cmp srt) (filter (history_keeps (pw_now w) flt tf) rows)
      in \<lparr>hw_groups = map (\<lambda>(k, _, rs). (k, rs)) (foldl (\<lambda>acc r. add_rows (hi_marketId r) () [r] acc) [] sorted),
          hw_won = length (filter hi_won rows), hw_lost = length (filter (\<lambda>r. \<not> hi_won r) rows),
          hw_netRealized = sum_of hi_pnl rows\<rparr>)"

section \<open>Winnings to redeem and rewards\<close>

definition unredeemed :: "enriched_position list \<Rightarrow> enriched_position list" where
  "unredeemed ps = filter (\<lambda>p. ep_isResolved p \<and> JNum 0 < ep_redeemableUsd p) ps"

definition winning_shares :: "enriched_position \<Rightarrow> jsn" where
  "winning_shares p =
     (case ep_resolution p of Some ResYes \<Rightarrow> ep_qtyYes p | Some ResNo \<Rightarrow> ep_qtyNo p
      | Some ResCancelled \<Rightarrow> ep_qtyYes p + ep_qtyNo p | None \<Rightarrow> JNum 0)"

definition shown_redeemed :: "enriched_position \<Rightarrow> bool" where
  "shown_redeemed p = (\<not> truthy (ep_redeemableUsd p) \<and> ep_redeemedAt p \<noteq> None \<and> ep_redeemedAt p \<noteq> Some [])"

definition redeemable_winnings :: "enriched_position list \<Rightarrow> ((string \<times> jsn \<times> jsn \<times> bool) list \<times> jsn) option" where
  "redeemable_winnings ps =
     (let us = unredeemed ps
      in if us = [] then None
         else Some (map (\<lambda>p. (ep_marketId p, winning_shares p, ep_redeemableUsd p, shown_redeemed p)) us,
                    sum_of ep_redeemableUsd us))"

text \<open>A redemption: what is requested, the row that is pending, and whether the portfolio is read again.\<close>

record redeem_request =
  rr_marketUuid :: string
  rr_expectedPayoutUsd :: jsn
  rr_marketContractId :: "string option"

definition redeem_click :: "page_world \<Rightarrow> enriched_position \<Rightarrow> string option \<Rightarrow> redeem_request \<times> string option" where
  "redeem_click w p pendingId =
     (\<lparr>rr_marketUuid = ep_marketId p, rr_expectedPayoutUsd = ep_redeemableUsd p,
       rr_marketContractId = map_option (pw_contract w) (ep_market p)\<rparr>, Some (ep_marketId p))"

definition redeem_answer :: "bool \<Rightarrow> string option \<Rightarrow> bool \<times> string option" where
  "redeem_answer success pendingId = (success, None)"

text \<open>The notice: a signature of what can be redeemed, and the signature that was dismissed.\<close>

fun join_texts :: "string \<Rightarrow> string list \<Rightarrow> string" where
  "join_texts sep [] = []"
| "join_texts sep [t] = t"
| "join_texts sep (t # u # ts) = t @ sep @ join_texts sep (u # ts)"

definition winnings_sig :: "enriched_position list \<Rightarrow> string" where
  "winnings_sig ps =
     join_texts ''|'' (js_sort (\<lambda>a b. if string_less b a then JNum 1 else JNum 0)
       (map (\<lambda>p. ep_marketId p @ '':'' @ to_fixed (ep_redeemableUsd p) 4) ps))"

definition notice_redeemable :: "enriched_position list \<Rightarrow> enriched_position list" where
  "notice_redeemable resolved = filter (\<lambda>p. JNum 0 < ep_redeemableUsd p) resolved"

datatype notice_event = Connection bool | Dismiss "enriched_position list"

fun notice_step :: "notice_event \<Rightarrow> string option \<Rightarrow> string option" where
  "notice_step (Connection isConnected) d = (if isConnected then None else d)"
| "notice_step (Dismiss resolved) d = Some (winnings_sig (notice_redeemable resolved))"

definition notice_shown :: "bool \<Rightarrow> enriched_position list \<Rightarrow> string option \<Rightarrow> bool" where
  "notice_shown hasSigner resolved d =
     (hasSigner \<and> notice_redeemable resolved \<noteq> [] \<and> d \<noteq> Some (winnings_sig (notice_redeemable resolved)))"

text \<open>The rewards by market.\<close>

definition rewards_rows :: "bool \<Rightarrow> (string \<times> jsn) list \<Rightarrow> string list \<Rightarrow> string list" where
  "rewards_rows sortDesc scoreByMarket ids =
     (let score = (\<lambda>k. value_or (map_of scoreByMarket k) (JNum 0))
      in js_sort (\<lambda>a b. let diff = score b - score a in if sortDesc then diff else - diff) ids)"

definition reward_share :: "jsn \<Rightarrow> jsn \<Rightarrow> string option" where
  "reward_share mine whole =
     (if JNum 0 < whole then Some (to_fixed (mine / whole * JNum 100) 1 @ ''%'') else None)"

section \<open>Grouping\<close>

definition group_of :: "('a \<Rightarrow> string) \<Rightarrow> ('a \<Rightarrow> 'm) \<Rightarrow> ('a \<Rightarrow> 'r list) \<Rightarrow> string \<Rightarrow> 'a list \<Rightarrow> ('m \<times> 'r list) option" where
  "group_of key mk rs k xs =
     (case filter (\<lambda>x. key x = k) xs of [] \<Rightarrow> None | y # ys \<Rightarrow> Some (mk y, concat (map rs (y # ys))))"

lemma keys_add_rows: "map fst (add_rows k m rs acc) = (if k \<in> set (map fst acc) then map fst acc else map fst acc @ [k])"
  by (simp add: add_rows_def map_set_keys)

lemma map_of_add_rows:
  "map_of (add_rows k m rs acc) =
     (map_of acc)(k \<mapsto> (case map_of acc k of Some (m0, rs0) \<Rightarrow> (m0, rs0 @ rs) | None \<Rightarrow> (m, rs)))"
  by (simp add: add_rows_def map_of_map_set)

lemma distinct_add_rows: "distinct (map fst acc) \<Longrightarrow> distinct (map fst (add_rows k m rs acc))"
  by (simp add: keys_add_rows)

lemma fold_rows:
  fixes key :: "'a \<Rightarrow> string"
  shows "map_of (foldl (\<lambda>acc x. add_rows (key x) (mk x) (rs x) acc) [] xs) k = group_of key mk rs k xs"
proof (induction xs rule: rev_induct)
  case (snoc x xs)
  then show ?case by (auto simp: map_of_add_rows group_of_def split: list.splits)
qed (simp add: group_of_def)

lemma fold_rows_distinct: "distinct (map fst (foldl (\<lambda>acc x. add_rows (key x) (mk x) (rs x) acc) [] xs))"
  by (induction xs rule: rev_induct) (simp_all add: distinct_add_rows)

lemma add_rows_keys: "fst ` set (add_rows k m rs acc) = insert k (fst ` set acc)"
  using arg_cong [OF keys_add_rows [of k m rs acc], of set] by (auto split: if_splits)

lemma fold_rows_keys: "fst ` set (foldl (\<lambda>acc x. add_rows (key x) (mk x) (rs x) acc) [] xs) = key ` set xs"
  by (induction xs rule: rev_induct) (simp_all add: add_rows_keys)

section \<open>Sell orders and escrowed shares\<close>

lemma side_key_inject [simp]: "side_key a s = side_key b t \<longleftrightarrow> a = b \<and> s = t"
  by (auto simp: side_key_def split: outcome.splits dest: arg_cong [of _ _ "last"] arg_cong [of _ _ rev])

definition sells_of :: "open_order list \<Rightarrow> string \<Rightarrow> open_order list" where
  "sells_of os k = filter (\<lambda>o'. oo_action o' = ASell \<and> oo_marketId o' = k) os"

definition side_sells :: "open_order list \<Rightarrow> string \<Rightarrow> outcome \<Rightarrow> open_order list" where
  "side_sells os k oc = filter (\<lambda>o'. oo_outcome o' = oc) (sells_of os k)"

lemma sum_of_snoc [simp]: "sum_of f (xs @ [x]) = sum_of f xs + f x"
  by (simp add: sum_of_def)

lemma sells_of_snoc [simp]:
  "sells_of (os @ [o']) k = (if oo_action o' = ASell \<and> oo_marketId o' = k then sells_of os k @ [o'] else sells_of os k)"
  by (simp add: sells_of_def)

lemma sell_sums:
  "map_of (sellOrderMap os) (side_key k oc) =
     (let fs = side_sells os k oc
      in if fs = [] then None else Some \<lparr>ss_count = length fs, ss_qty = sum_of oo_qty fs, ss_prices = map oo_priceUsd fs\<rparr>)"
proof (induction os rule: rev_induct)
  case Nil
  then show ?case by (simp add: sellOrderMap_def side_sells_def sells_of_def)
next
  case (snoc o' os)
  have "sellOrderMap (os @ [o']) = add_sell (sellOrderMap os) o'" by (simp add: sellOrderMap_def)
  then show ?case using snoc
    by (auto simp: add_sell_def map_of_map_set side_sells_def Let_def sum_of_def split: if_splits)
qed

lemma representable_sum_of: "representable (sum_of f xs)"
  using representable_sum [of "map f xs"] by (simp add: sum_of_def foldl_map)

text \<open>The groups after the positions and some of the orders.\<close>

definition escrow_group :: "(string \<times> sell_sum) list \<Rightarrow> open_order list \<Rightarrow> (market option \<times> position_row list) option \<Rightarrow> bool" where
  "escrow_group sells fs g =
     (case g of None \<Rightarrow> fs = []
      | Some (m, rows) \<Rightarrow> fs \<noteq> [] \<and> map row_side rows = js_uniq (map oo_outcome fs) \<and> set rows \<subseteq> escrow_row sells ` set fs)"

lemma escrow_group_sides:
  "escrow_group sells fs (Some (m, rows)) \<Longrightarrow> (\<exists>r\<in>set rows. row_side r = oc) \<longleftrightarrow> oc \<in> oo_outcome ` set fs"
  unfolding escrow_group_def
  by simp (metis (no_types, lifting) image_iff image_set set_js_uniq)

lemma escrow_row_side [simp]: "row_side (escrow_row sells o') = oo_outcome o'"
  by (simp add: escrow_row_def)

lemma escrow_group_snoc:
  assumes "escrow_group sells fs g"
  shows "escrow_group sells (fs @ [o'])
     (if case g of Some (_, rows) \<Rightarrow> \<exists>r\<in>set rows. row_side r = oo_outcome o' | None \<Rightarrow> False then g
      else Some (case g of Some (m0, rs0) \<Rightarrow> (m0, rs0 @ [escrow_row sells o']) | None \<Rightarrow> (oo_market o', [escrow_row sells o'])))"
proof (cases g)
  case None
  with assms show ?thesis by (simp add: escrow_group_def js_uniq_def)
next
  case (Some p)
  then obtain m rows where g: "g = Some (m, rows)" by (cases p) simp
  show ?thesis using assms escrow_group_sides [OF assms [unfolded g], of "oo_outcome o'"]
    by (auto simp: g escrow_group_def js_uniq_snoc)
qed

lemma escrow_fold:
  fixes acc0 :: holding_groups and sells :: "(string \<times> sell_sum) list"
  assumes "distinct (map fst acc0)" "fst ` set acc0 = P"
  defines "g \<equiv> \<lambda>os. foldl (add_escrow P sells) acc0 os"
  shows "distinct (map fst (g os))" "k \<in> P \<Longrightarrow> map_of (g os) k = map_of acc0 k"
    "k \<notin> P \<Longrightarrow> escrow_group sells (sells_of os k) (map_of (g os) k)"
proof -
  show "distinct (map fst (g os))"
    by (induction os rule: rev_induct) (simp_all add: g_def assms(1) add_escrow_def distinct_add_rows)
  show "k \<in> P \<Longrightarrow> map_of (g os) k = map_of acc0 k"
    by (induction os rule: rev_induct) (auto simp: g_def add_escrow_def map_of_add_rows)
  show "k \<notin> P \<Longrightarrow> escrow_group sells (sells_of os k) (map_of (g os) k)"
  proof (induction os rule: rev_induct)
    case Nil
    then have "map_of acc0 k = None" using assms(2) by (simp add: map_of_eq_None_iff)
    then show ?case by (simp add: g_def escrow_group_def sells_of_def)
  next
    case (snoc o' os)
    have step: "g (os @ [o']) = add_escrow P sells (g os) o'" by (simp add: g_def)
    show ?case
    proof (cases "oo_action o' = ASell \<and> oo_marketId o' = k")
      case True
      have "map_of (g (os @ [o'])) k =
          (if case map_of (g os) k of Some (_, rows) \<Rightarrow> \<exists>r\<in>set rows. row_side r = oo_outcome o' | None \<Rightarrow> False
           then map_of (g os) k
           else Some (case map_of (g os) k of Some (m0, rs0) \<Rightarrow> (m0, rs0 @ [escrow_row sells o'])
                      | None \<Rightarrow> (oo_market o', [escrow_row sells o'])))"
        using True snoc.prems by (simp add: step add_escrow_def map_of_add_rows)
      then show ?thesis using True escrow_group_snoc [OF snoc.IH [OF snoc.prems], of o'] by simp
    next
      case False
      then have "map_of (g (os @ [o'])) k = map_of (g os) k"
        unfolding step by (auto simp: add_escrow_def map_of_add_rows)
      moreover have "sells_of (os @ [o']) k = sells_of os k" using False by auto
      ultimately show ?thesis using snoc by simp
    qed
  qed
qed

lemma held_groups_of: "map_of (held_groups ps) k = group_of ep_marketId ep_market splitPositions k ps"
  by (simp add: held_groups_def fold_rows)

lemma held_groups_keys: "fst ` set (held_groups ps) = ep_marketId ` set ps" "distinct (map fst (held_groups ps))"
  by (simp_all add: held_groups_def fold_rows_keys fold_rows_distinct)

lemma escrow_row_qty:
  assumes "o' \<in> set (sells_of os k)"
  shows "row_qty (escrow_row (sellOrderMap os) o') = sum_of oo_qty (side_sells os k (oo_outcome o'))"
    and "row_marketId (escrow_row (sellOrderMap os) o') = k"
proof -
  have "oo_marketId o' = k" using assms by (simp add: sells_of_def)
  moreover have "side_sells os k (oo_outcome o') \<noteq> []" using assms by (auto simp: side_sells_def filter_empty_conv)
  ultimately show "row_qty (escrow_row (sellOrderMap os) o') = sum_of oo_qty (side_sells os k (oo_outcome o'))"
      "row_marketId (escrow_row (sellOrderMap os) o') = k"
    by (simp_all add: escrow_row_def sell_sums Let_def)
qed

lemma plus_num_bound: "x + y = JNum q \<Longrightarrow> q < 2 ^ 1024"
  by (cases x; cases y) (auto simp: jsfin_def Let_def split: if_splits)

lemma lower_by_margin:
  assumes "fl q = q" "q < 2 ^ 1024"
  shows "JNum q - lit (1 / 1000) \<le> JNum q"
proof -
  have "lit (1 / 1000) = JNum (fl (1 / 1000))" by (rule jsfin_unit) simp
  moreover have "fl (q - fl (1 / 1000)) \<le> q"
    using fl_mono [of "q - fl (1 / 1000)" q] fl_nonneg [of "1 / 1000"] assms(1) by simp
  ultimately show ?thesis using assms(2) by (auto simp: jsfin_def Let_def)
qed

text \<open>A row that is all in open sell orders has no sell button.\<close>

lemma escrow_no_button:
  assumes "o' \<in> set (sells_of os k)" "row_qty (escrow_row (sellOrderMap os) o') = JNum q"
  shows "row_button w (sellOrderMap os) (escrow_row (sellOrderMap os) o') = No_button"
proof -
  let ?fs = "side_sells os k (oo_outcome o')"
  have q: "sum_of oo_qty ?fs = JNum q" using escrow_row_qty [OF assms(1)] assms(2) by simp
  then have fl: "fl q = q" using representable_sum_of [of oo_qty ?fs] by (simp add: representable_def)
  have ne: "?fs \<noteq> []" using assms(1) by (auto simp: side_sells_def filter_empty_conv)
  have "q < 2 ^ 1024" using ne q
    by (cases ?fs rule: rev_cases) (auto dest: plus_num_bound)
  then have "JNum q - lit (1 / 1000) \<le> JNum q" by (rule lower_by_margin [OF fl])
  then show ?thesis using escrow_row_qty [OF assms(1)] q ne
    by (simp add: row_button_def sell_sums Let_def)
qed

text \<open>What the groups hold before they are sorted.\<close>

lemma grouped_distinct: "distinct (map fst (groupedByMarket ps os))"
  unfolding groupedByMarket_def by (rule escrow_fold(1) [OF held_groups_keys(2,1)])

lemma grouped_of: "(k, v) \<in> set (groupedByMarket ps os) \<longleftrightarrow> map_of (groupedByMarket ps os) k = Some v"
  by (simp add: grouped_distinct)

lemma grouped_held:
  "k \<in> ep_marketId ` set ps \<Longrightarrow>
     map_of (groupedByMarket ps os) k = group_of ep_marketId ep_market splitPositions k ps"
  unfolding groupedByMarket_def held_groups_of [symmetric] by (rule escrow_fold(2) [OF held_groups_keys(2,1)])

lemma grouped_escrow:
  "k \<notin> ep_marketId ` set ps \<Longrightarrow>
     escrow_group (sellOrderMap os) (sells_of os k) (map_of (groupedByMarket ps os) k)"
  unfolding groupedByMarket_def by (rule escrow_fold(3) [OF held_groups_keys(2,1)])

lemma grouped_keys: "fst ` set (groupedByMarket ps os) = ep_marketId ` set ps \<union> {k. sells_of os k \<noteq> []}"
proof -
  have "k \<in> fst ` set (groupedByMarket ps os) \<longleftrightarrow> k \<in> ep_marketId ` set ps \<or> sells_of os k \<noteq> []" for k
  proof (cases "k \<in> ep_marketId ` set ps")
    case True
    then have "map_of (groupedByMarket ps os) k \<noteq> None"
      using grouped_held [OF True, of os] by (auto simp: group_of_def filter_empty_conv split: list.splits)
    with True show ?thesis by (simp add: map_of_eq_None_iff)
  next
    case False
    have "map_of (groupedByMarket ps os) k \<noteq> None \<longleftrightarrow> sells_of os k \<noteq> []"
      using grouped_escrow [OF False, of os] by (auto simp: escrow_group_def split: option.splits)
    with False show ?thesis by (simp add: map_of_eq_None_iff)
  qed
  then show ?thesis by blast
qed

definition entry_ok :: "page_world \<Rightarrow> enriched_position list \<Rightarrow> open_order list \<Rightarrow> string \<times> market option \<times> position_row list \<Rightarrow> bool" where
  "entry_ok w ps os = (\<lambda>(k, m, rows).
     if k \<in> ep_marketId ` set ps then rows = concat (map splitPositions (filter (\<lambda>p. ep_marketId p = k) ps))
     else map row_side rows = js_uniq (map oo_outcome (sells_of os k))
       \<and> (\<forall>r\<in>set rows. row_qty r = sum_of oo_qty (side_sells os k (row_side r))
            \<and> (\<forall>q. row_qty r = JNum q \<longrightarrow> row_button w (sellOrderMap os) r = No_button)))"

lemma grouped_entry: "e \<in> set (groupedByMarket ps os) \<Longrightarrow> entry_ok w ps os e"
proof -
  assume e: "e \<in> set (groupedByMarket ps os)"
  obtain k m rows where k: "e = (k, m, rows)" by (cases e) auto
  show ?thesis
  proof (cases "k \<in> ep_marketId ` set ps")
    case True
    then show ?thesis using e grouped_held [OF True, of os]
      by (auto simp: k entry_ok_def grouped_of group_of_def split: list.splits)
  next
    case False
    have rows: "map row_side rows = js_uniq (map oo_outcome (sells_of os k))"
        "set rows \<subseteq> escrow_row (sellOrderMap os) ` set (sells_of os k)"
      using e grouped_escrow [OF False, of os] by (auto simp: k grouped_of escrow_group_def)
    have "row_qty r = sum_of oo_qty (side_sells os k (row_side r))
        \<and> (\<forall>q. row_qty r = JNum q \<longrightarrow> row_button w (sellOrderMap os) r = No_button)" if "r \<in> set rows" for r
      using that rows(2) escrow_row_qty(1) [of _ os k] escrow_no_button [of _ os k] by fastforce
    with rows(1) False show ?thesis by (simp add: k entry_ok_def)
  qed
qed

section \<open>Properties\<close>


definition sample_page :: page_world where
  "sample_page = \<lparr>pw_parse = (\<lambda>_. JNum 1000), pw_compare = (\<lambda>_ _. JNum 0), pw_now = JNum 2000,
     pw_statement = (\<lambda>m. mk_marketId m), pw_createdAt = (\<lambda>_. ''2026''),
     pw_dates = (\<lambda>_. \<lparr>md_isSuspended = False, md_isPaused = False, md_resolvedAt = None, md_closesAt = None\<rparr>),
     pw_contract = (\<lambda>_. ''0.0.9'')\<rparr>"

definition sample_sale :: "string \<Rightarrow> outcome \<Rightarrow> rat \<Rightarrow> open_order" where
  "sample_sale k oc q = \<lparr>oo_marketId = k, oo_market = None, oo_orderId = k, oo_action = ASell, oo_outcome = oc,
     oo_side = Ask, oo_priceUsd = JNum (1 / 2), oo_qty = JNum q, oo_generatedAt = None, oo_accountId = None, oo_ps = ''s''\<rparr>"

definition sample_sales :: "open_order list" where
  "sample_sales = [sample_sale ''m2'' OYes 3, sample_sale ''m1'' OYes 1, sample_sale ''m2'' ONo 5, sample_sale ''m2'' OYes 4]"

definition sample_held :: enriched_position where
  "sample_held = enrich 6 ''m1'' \<lparr>pi_yes = Some 2000000, pi_no = None, pi_isPaused = False, pi_resolvedAt = None,
     pi_redeemedAt = None, pi_cost = \<lparr>costBasisYesUsd = None, costBasisNoUsd = None, avgPriceYesUsd = None,
       avgPriceNoUsd = None, realizedPnlUsd = None, costBasisYes = None, costBasisNo = None\<rparr>\<rparr> None (half, half, half)"


text \<open>The payout of a winning side in binary64.\<close>

lemma keep_factor: "JNum 1 - RAKE_PCT = JNum (8827055269646172 / 2 ^ 53)"
  by code_simp

lemma held_shares:
  assumes "0 < n" "n < 2 ^ 46"
  shows "scaled_qty (Some n) 6 = JNum (fl (of_int n / 1000000))" "0 < fl (of_int n / 1000000 :: rat)"
    "\<bar>fl (of_int n / 1000000) * 1000000 - of_int n\<bar> \<le> (of_int n :: rat) / 2 ^ 53"
proof -
  have small: "\<bar>of_int n / 1000000 :: rat\<bar> \<le> of_int (2 ^ 46)" using assms by (simp add: field_simps)
  have n: "num_of_bigint n = JNum (of_int n)" using jsfin_int [of n] assms by (simp add: num_of_bigint_def)
  show "scaled_qty (Some n) 6 = JNum (fl (of_int n / 1000000))"
    using assms(1) pow10_exact [of 6] jsfin_small [OF small] by (simp add: scaled_qty_def n js_or_def truthy_def)
  have low: "(1::rat) / 2 ^ 21 \<le> of_int n / 1000000" using assms(1) by (simp add: field_simps)
  then show "0 < fl (of_int n / 1000000 :: rat)" by (intro fl.rd_pos not_tiny)
  have "\<bar>fl (of_int n / 1000000) - of_int n / 1000000\<bar> \<le> \<bar>of_int n / 1000000 :: rat\<bar> / 2 ^ 53"
    by (intro fl_error) (use not_tiny [OF low] assms(1) in simp)
  then show "\<bar>fl (of_int n / 1000000) * 1000000 - of_int n\<bar> \<le> (of_int n :: rat) / 2 ^ 53"
    using assms(1) by (simp add: field_simps abs_if split: if_splits)
qed

lemma net_payout:
  assumes "0 < n" "n < 2 ^ 46"
  shows "\<exists>x. scaled_qty (Some n) 6 * (JNum 1 - RAKE_PCT) = JNum x \<and> 0 < x
    \<and> \<bar>x * 1000000 - of_int n * 49 / 50\<bar> \<le> 1 / 16"
proof -
  define q :: rat where "q = fl (of_int n / 1000000)"
  define d :: rat where "d = of_int n / 2 ^ 53"
  define c :: rat where "c = 8827055269646172 / 2 ^ 53"
  note q = held_shares [OF assms, folded q_def d_def]
  have N: "d \<le> 1 / 128" "0 \<le> d" "1 \<le> (of_int n :: rat)"
    using assms by (simp_all add: d_def field_simps)
  have c: "0 < c" "c \<le> 1" "\<bar>c - 49 / 50\<bar> \<le> 1 / 2 ^ 53" by (simp_all add: c_def)
  have p: "\<bar>q * c * 1000000 - of_int n * c\<bar> \<le> d"
  proof -
    have "q * c * 1000000 - of_int n * c = (q * 1000000 - of_int n) * c" by (simp add: algebra_simps)
    then have "\<bar>q * c * 1000000 - of_int n * c\<bar> = \<bar>q * 1000000 - of_int n\<bar> * c" using c by (simp add: abs_mult)
    also have "\<dots> \<le> \<bar>q * 1000000 - of_int n\<bar> * 1" using c by (intro mult_left_mono) simp_all
    finally show ?thesis using q(3) by simp
  qed
  have n: "\<bar>of_int n * c - of_int n * 49 / 50\<bar> \<le> d"
  proof -
    have "of_int n * c - of_int n * 49 / 50 = of_int n * (c - 49 / 50)" by (simp add: algebra_simps)
    then have "\<bar>of_int n * c - of_int n * 49 / 50\<bar> = of_int n * \<bar>c - 49 / 50\<bar>" using assms(1) by (simp add: abs_mult)
    also have "\<dots> \<le> of_int n * (1 / 2 ^ 53)" using c(3) assms(1) by (intro mult_left_mono) simp_all
    finally show ?thesis by (simp add: d_def)
  qed
  have qc: "q * c * 1000000 \<le> of_int n * 2" using p n N by linarith
  have "1 / 2 \<le> q * c * 1000000" using p n N by linarith
  then have low: "(1::rat) / 2 ^ 21 \<le> q * c" by simp
  have e: "\<bar>fl (q * c) - q * c\<bar> \<le> q * c / 2 ^ 53" using fl_error [of "q * c"] not_tiny [OF low] low by simp
  have top: "of_int n \<le> (of_int (2 ^ 46) :: rat)" using assms(2) by (simp only: of_int_le_iff)
  have "q * c \<le> of_int n" using qc N(3) by linarith
  then have "\<bar>q * c\<bar> \<le> of_int (2 ^ 46)" using top mult_pos_pos [OF q(2) c(1)] by linarith
  then have "scaled_qty (Some n) 6 * (JNum 1 - RAKE_PCT) = JNum (fl (q * c))"
    using jsfin_small(1) [of "q * c" "2 ^ 46"] unfolding keep_factor c_def [symmetric] q(1) by simp
  moreover have "0 < fl (q * c)" using low by (intro fl.rd_pos not_tiny)
  moreover have "\<bar>fl (q * c) * 1000000 - q * c * 1000000\<bar> \<le> 2 * d"
  proof -
    have "\<bar>fl (q * c) * 1000000 - q * c * 1000000\<bar> = \<bar>fl (q * c) - q * c\<bar> * 1000000"
      unfolding left_diff_distrib [symmetric] abs_mult by simp
    also have "\<dots> \<le> q * c / 2 ^ 53 * 1000000" by (rule mult_right_mono [OF e]) simp
    also have "\<dots> = q * c * 1000000 / 2 ^ 53" by simp
    also have "\<dots> \<le> of_int n * 2 / 2 ^ 53" using qc by (rule divide_right_mono) simp
    finally show ?thesis by (simp add: d_def)
  qed
  then have "\<bar>fl (q * c) * 1000000 - of_int n * 49 / 50\<bar> \<le> 1 / 16" using p n N by linarith
  ultimately show ?thesis by blast
qed

definition paying_side :: "outcome \<Rightarrow> MarketState" where
  "paying_side oc = (case oc of OYes \<Rightarrow> RESOLVED_YES | ONo \<Rightarrow> RESOLVED_NO)"

definition paid_resolution :: "outcome \<Rightarrow> resolution" where
  "paid_resolution oc = (case oc of OYes \<Rightarrow> ResYes | ONo \<Rightarrow> ResNo)"

definition side_balance :: "outcome \<Rightarrow> int \<Rightarrow> int \<Rightarrow> 'l prism \<Rightarrow> int" where
  "side_balance oc m caller st = (case oc of OYes \<Rightarrow> yesBalance st m caller | ONo \<Rightarrow> noBalance st m caller)"

lemma redeemed_shares:
  assumes "redeem_shares caller m st = Inr (gross, fee, st')" "mk_state (markets st m) = paying_side oc"
  shows "gross = side_balance oc m caller st" "fee = gross * mk_rakeBps (markets st m) div 10000" "gross \<noteq> 0"
  using assms
  by (auto simp: redeem_shares_def paying_side_def side_balance_def Let_def attempt_Inr_iff
      split: outcome.splits if_splits)

lemma enrich_fields [simp]:
  "ep_qtyYes (enrich d mid info mkt prices) = scaled_qty (pi_yes info) d"
  "ep_qtyNo (enrich d mid info mkt prices) = scaled_qty (pi_no info) d"
  "ep_resolution (enrich d mid info mkt prices) = resolution_of info mkt"
  by (cases prices, simp add: enrich_def Let_def)+

definition gross_payout :: "enriched_position \<Rightarrow> outcome \<Rightarrow> jsn" where
  "gross_payout p sd =
     (let qty = (case sd of OYes \<Rightarrow> ep_qtyYes p | ONo \<Rightarrow> ep_qtyNo p)
      in if ep_resolution p = Some (paid_resolution sd) then qty
         else if ep_resolution p = Some ResCancelled then qty * lit (1 / 2) else JNum 0)"

lemma history_side_payout: "hi_payout (history_side w p sd) = gross_payout p sd * (JNum 1 - RAKE_PCT)"
  by (simp only: history_side_def gross_payout_def paid_resolution_def Let_def history_row.simps)

lemma history_side_fields:
  "hi_side (history_side w p sd) = sd"
  "hi_won (history_side w p sd) \<longleftrightarrow> JNum 0 < hi_payout (history_side w p sd)"
  by (simp_all add: history_side_def Let_def)

text \<open>C32. The payout that the history shows for the winning side of a resolved market is what the contract pays
  out, its fee taken off, up to two base units (the contract rounds the fee down and the page computes in
  binary64), when the market's fee is the two percent the page assumes. The other side is shown as lost.\<close>

theorem history_payout_is_the_contracts:
  assumes "redeem_shares caller m st = Inr (gross, fee, st')" "mk_state (markets st m) = paying_side oc"
    and "mk_rakeBps (markets st m) = 200"
    and "0 \<le> side_balance oc m caller st" "side_balance oc m caller st < 2 ^ 46"
    and "resolution_of info mkt = Some (paid_resolution oc)"
    and "pi_yes info = Some (yesBalance st m caller)" "pi_no info = Some (noBalance st m caller)"
  shows "let rows = history_rows w (enrich 6 mid info mkt prices) in
     (\<exists>r\<in>set rows. hi_side r = oc \<and> hi_won r
        \<and> (\<exists>x. hi_payout r = JNum x \<and> \<bar>x * 1000000 - of_int (gross - fee)\<bar> < 2))
     \<and> (\<forall>r\<in>set rows. hi_side r \<noteq> oc \<longrightarrow> \<not> hi_won r \<and> hi_payout r = JNum 0)"
proof -
  define n where "n = side_balance oc m caller st"
  note shares = redeemed_shares [OF assms(1,2)]
  have n: "0 < n" "n < 2 ^ 46" "gross = n" "fee = n * 200 div 10000"
    using shares assms(3-5) by (simp_all add: n_def)
  let ?p = "enrich 6 mid info mkt prices"
  have qty: "(case oc of OYes \<Rightarrow> pi_yes info | ONo \<Rightarrow> pi_no info) = Some n"
    by (cases oc) (simp_all add: n_def side_balance_def assms(7,8))
  obtain x where x: "scaled_qty (Some n) 6 * (JNum 1 - RAKE_PCT) = JNum x" "0 < x"
      "\<bar>x * 1000000 - of_int n * 49 / 50\<bar> \<le> 1 / 16"
    using net_payout [OF n(1,2)] by blast
  have win: "hi_payout (history_side w ?p oc) = JNum x"
    using assms(6) qty x(1) by (cases oc) (simp_all add: history_side_payout gross_payout_def)
  have lose: "hi_payout (history_side w ?p sd) = JNum 0" if "sd \<noteq> oc" for sd
    using that assms(6) by (cases sd; cases oc) (simp_all add: history_side_payout gross_payout_def paid_resolution_def keep_factor)
  have "JNum 0 < scaled_qty (Some n) 6" using held_shares [OF n(1,2)] by simp
  then have mem: "history_side w ?p oc \<in> set (history_rows w ?p)"
    using qty by (cases oc) (simp_all add: history_rows_def)
  have only: "r \<in> set (history_rows w ?p) \<Longrightarrow> r = history_side w ?p (hi_side r)" for r
    by (auto simp: history_rows_def history_side_fields split: if_splits)
  have fee: "of_int n * 49 / 50 \<le> (of_int (gross - fee) :: rat)" "of_int (gross - fee) \<le> (of_int n * 49 / 50 + 1 :: rat)"
  proof -
    have "n * 200 div 10000 = n div 50" by simp
    moreover have "50 * (n div 50) \<le> n" "n \<le> 50 * (n div 50) + 50" by simp_all
    ultimately have "49 * n \<le> 50 * (gross - fee)" "50 * (gross - fee) \<le> 49 * n + 50" using n by simp_all
    then have "of_int (49 * n) \<le> (of_int (50 * (gross - fee)) :: rat)" "(of_int (50 * (gross - fee)) :: rat) \<le> of_int (49 * n + 50)"
      by (simp_all only: of_int_le_iff)
    then show "of_int n * 49 / 50 \<le> (of_int (gross - fee) :: rat)" "of_int (gross - fee) \<le> (of_int n * 49 / 50 + 1 :: rat)"
      by simp_all
  qed
  have "\<bar>x * 1000000 - of_int (gross - fee)\<bar> < 2" using x(3) fee by linarith
  then have "\<exists>r\<in>set (history_rows w ?p). hi_side r = oc \<and> hi_won r
      \<and> (\<exists>x. hi_payout r = JNum x \<and> \<bar>x * 1000000 - of_int (gross - fee)\<bar> < 2)"
    using mem win x(2) by (intro bexI [OF _ mem]) (simp add: history_side_fields)
  moreover have "\<not> hi_won r \<and> hi_payout r = JNum 0" if "r \<in> set (history_rows w ?p)" "hi_side r \<noteq> oc" for r
  proof -
    have "hi_payout (history_side w ?p (hi_side r)) = JNum 0" using lose [OF that(2)] .
    then show ?thesis using only [OF that(1)] history_side_fields(2) [of w ?p "hi_side r"] by simp
  qed
  ultimately show ?thesis unfolding Let_def by blast
qed

definition sample_market :: "MarketState \<Rightarrow> int \<Rightarrow> (int \<Rightarrow> int) prism" where
  "sample_market decided n = (fresh_storage demo_ledger)
     \<lparr>markets := (\<lambda>_. \<lparr>mk_state = decided, mk_closeTime = 0, mk_rakeBps = 200, mk_reserve = 2000000,
        mk_totalYes = 2000000, mk_totalNo = 2000000\<rparr>),
      yesBalance := (\<lambda>_ _. n), noBalance := (\<lambda>_ _. 0)\<rparr>"

definition sample_resolved :: "int \<Rightarrow> position_info" where
  "sample_resolved n = sample_position\<lparr>pi_yes := Some n, pi_no := Some 0\<rparr>"

definition decided_as :: "int \<Rightarrow> market" where
  "decided_as oc = \<lparr>mk_marketId = ''m'', mk_outcome = Some oc\<rparr>"

theorem history_payout_is_the_contracts_witness:
  "\<exists>st'. redeem_shares 34 7 (sample_market RESOLVED_YES 1000001) = Inr (1000001, 20000, st')
     \<and> (\<exists>r\<in>set (history_rows sample_page (enrich 6 ''m'' (sample_resolved 1000001) (Some (decided_as 1)) (0, 0, 0))).
          \<exists>x. hi_payout r = JNum x \<and> \<bar>x * 1000000 - of_int (1000001 - 20000)\<bar> < 2)"
proof -
  have bal: "yesBalance (sample_market RESOLVED_YES 1000001) 7 34 = 1000001" "noBalance (sample_market RESOLVED_YES 1000001) 7 34 = 0"
      "markets (sample_market RESOLVED_YES 1000001) 7 = \<lparr>mk_state = RESOLVED_YES, mk_closeTime = 0, mk_rakeBps = 200,
         mk_reserve = 2000000, mk_totalYes = 2000000, mk_totalNo = 2000000\<rparr>"
    by (simp_all add: sample_market_def)
  have "\<exists>st'. redeem_shares 34 7 (sample_market RESOLVED_YES 1000001) = Inr (1000001, 20000, st')"
    by (simp add: redeem_shares_def bal minus256_def Let_def)
  then obtain st' where st': "redeem_shares 34 7 (sample_market RESOLVED_YES 1000001) = Inr (1000001, 20000, st')" by blast
  show ?thesis
    using history_payout_is_the_contracts [OF st', of OYes "sample_resolved 1000001" "Some (decided_as 1)" sample_page "''m''" "(0, 0, 0)"] st'
    by (auto simp: bal paying_side_def paid_resolution_def side_balance_def sample_resolved_def sample_position_def
        decided_as_def resolution_of_def time_set_def Let_def starts_with_def)
qed

text \<open>A cancelled market pays without a fee, but the history takes the two percent off here as well: of 500000
  base units that the contract pays it shows less than 490001.\<close>

lemma cancelled_pays_no_fee:
  "redeem_shares caller m st = Inr (gross, fee, st') \<Longrightarrow> mk_state (markets st m) = VOID \<Longrightarrow> fee = 0"
  by (erule redeem_sharesE) simp_all

lemma cancelled_history_understated:
  "\<exists>st'. redeem_shares 34 7 (sample_market VOID 1000000) = Inr (500000, 0, st')"
  "\<exists>x. map hi_payout (history_rows sample_page (enrich 6 ''m'' (sample_resolved 1000000) (Some (decided_as 2)) (0, 0, 0))) = [JNum x]
     \<and> x * 1000000 < 490001"
proof -
  have bal: "yesBalance (sample_market VOID 1000000) 7 34 = 1000000" "noBalance (sample_market VOID 1000000) 7 34 = 0"
      "markets (sample_market VOID 1000000) 7 = \<lparr>mk_state = VOID, mk_closeTime = 0, mk_rakeBps = 200,
         mk_reserve = 2000000, mk_totalYes = 2000000, mk_totalNo = 2000000\<rparr>"
    by (simp_all add: sample_market_def)
  show "\<exists>st'. redeem_shares 34 7 (sample_market VOID 1000000) = Inr (500000, 0, st')"
    by (simp add: redeem_shares_def bal minus256_def plus256_def uint256_limit_def Let_def)
  show "\<exists>x. map hi_payout (history_rows sample_page (enrich 6 ''m'' (sample_resolved 1000000) (Some (decided_as 2)) (0, 0, 0))) = [JNum x]
     \<and> x * 1000000 < 490001"
  proof -
    let ?p = "enrich 6 ''m'' (sample_resolved 1000000) (Some (decided_as 2)) (0, 0, 0)"
    have res: "resolution_of (sample_resolved 1000000) (Some (decided_as 2)) = Some ResCancelled"
      by (simp add: resolution_of_def sample_resolved_def sample_position_def decided_as_def time_set_def starts_with_def Let_def)
    have held: "pi_yes (sample_resolved 1000000) = Some 1000000" "pi_no (sample_resolved 1000000) = Some 0" by (simp_all add: sample_resolved_def)
    have none: "\<not> JNum 0 < scaled_qty (Some 0) 6" by code_simp
    have unit: "scaled_qty (Some 1000000) 6 = JNum 1" using held_shares(1) [of 1000000] fl_of_int [of 1] by simp
    have dyadic: "jsfin (8827055269646172 / 2 ^ 54) = JNum (8827055269646172 / 2 ^ 54)"
      using jsfin_unit [of "8827055269646172 / 2 ^ 54"] fl_dyadic [of 8827055269646172 54] by simp
    have "map hi_payout (history_rows sample_page ?p) = [JNum 1 * lit (1 / 2) * (JNum 1 - RAKE_PCT)]"
      using none by (simp add: history_rows_def history_side_payout gross_payout_def res held unit paid_resolution_def Let_def del: jsfin_half)
    also have "JNum 1 * lit (1 / 2) * (JNum 1 - RAKE_PCT) = JNum (8827055269646172 / 2 ^ 54)"
      using dyadic by (simp add: keep_factor)
    finally show ?thesis by (intro exI [of _ "8827055269646172 / 2 ^ 54"]) simp
  qed
qed

text \<open>The rows for shares that are all on sale are there for accounts whose position is gone from the answer, but
  with no open position at all the tab shows the empty message instead of the list.\<close>

lemma escrow_hidden_without_positions:
  "holdings_tab w False srt [] os = Tab_empty"
  "sells_of os k \<noteq> [] \<Longrightarrow> k \<in> fst ` set (hv_entries (holdings_list w srt [] os))"
  using grouped_keys [of "[]" os] by (simp_all add: holdings_tab_def holdings_list_def Let_def)

text \<open>The cancel button of a row picks an order of this very market and outcome.\<close>

lemma row_cancels_own_order:
  assumes "selling_indicator os (sellOrderMap os) r = Some tag"
  shows "\<exists>o'. st_cancels tag = Some o' \<and> o' \<in> set (side_sells os (row_marketId r) (row_side r))"
proof -
  let ?P = "\<lambda>o'. oo_marketId o' = row_marketId r \<and> oo_action o' = ASell \<and> oo_outcome o' = row_side r"
  have "side_sells os (row_marketId r) (row_side r) \<noteq> []"
    using assms by (auto simp: selling_indicator_def sell_sums Let_def split: if_splits)
  then have "List.find ?P os \<noteq> None"
    by (auto simp: find_None_iff side_sells_def sells_of_def filter_empty_conv)
  then obtain o' where "List.find ?P os = Some o'" by auto
  moreover from this have "?P o'" "o' \<in> set os" by (auto simp: find_Some_iff)
  moreover have "st_cancels tag = List.find ?P os"
    using assms by (auto simp: selling_indicator_def Let_def split: option.splits)
  ultimately show ?thesis by (auto simp: side_sells_def sells_of_def)
qed

text \<open>The badge for positions that were redeemed is never shown: the list only has rows with something to redeem.\<close>

lemma redeemed_badge_never_shown:
  "redeemable_winnings ps = Some (rows, whole) \<Longrightarrow> (k, won, usd, badge) \<in> set rows \<Longrightarrow> \<not> badge"
  by (auto simp: redeemable_winnings_def unredeemed_def shown_redeemed_def truthy_def Let_def split: if_splits)

text \<open>A dismissed notice stays away until the connection or the winnings change.\<close>

lemma dismissed_notice_stays_away:
  "notice_shown hasSigner resolved' (notice_step (Dismiss resolved) d) \<longleftrightarrow>
     hasSigner \<and> notice_redeemable resolved' \<noteq> []
     \<and> winnings_sig (notice_redeemable resolved') \<noteq> winnings_sig (notice_redeemable resolved)"
  by (auto simp: notice_shown_def)

text \<open>Every visible order is listed once under its market, whatever the sort.\<close>

lemma mset_sorted_orders [simp]: "mset (getSortedOrders w srt os) = mset os"
  by (cases srt) simp_all

lemma orders_listed_under_their_market:
  assumes "(k, m, g) \<in> set (grouped_orders_list w srt os)"
  shows "mset g = mset (filter (\<lambda>o'. oo_marketId o' = k) os)"
proof -
  from assms obtain g0 where g0: "(k, m, g0) \<in> set (group_orders os)" "g = getSortedOrders w srt g0"
    by (auto simp: grouped_orders_list_def)
  have "distinct (map fst (group_orders os))" by (simp add: group_orders_def fold_rows_distinct)
  with g0(1) have "map_of (group_orders os) k = Some (m, g0)" by simp
  then have "g0 = concat (map (\<lambda>o'. [o']) (filter (\<lambda>o'. oo_marketId o' = k) os))"
    by (auto simp: group_orders_def fold_rows group_of_def split: list.splits)
  then show ?thesis using g0(2) by simp
qed

text \<open>A reported cancellation was accepted by the server for the order the user picked.\<close>

lemma cancel_reported_only_when_accepted:
  assumes "cr_refreshes (handleCancelOrder w api lookup connected_as info network target)"
  shows "\<exists>mid o' acc k. target = Some (mid, o') \<and> connected_as = Some acc \<and> submitSignedCancel w api acc mid (oo_orderId o') network k = Inr ()"
  using assms by (auto simp: handleCancelOrder_def Let_def split: option.splits sum.splits)

end
