(* ===== verification/Protobuf.thy ===== *)
theory Protobuf
  imports JsCollections
begin

text \<open>
  The binary codec of the generated message classes (\<open>src/web/gen/api.ts\<close>, \<open>src/web/gen/clob.ts\<close>). Every class has
  a constructor with the description of its fields, \<open>create\<close> with the defaults, \<open>internalBinaryRead\<close>, a loop over
  tags with one case per field, and \<open>internalBinaryWrite\<close>, one statement per field. The statements are fixed by the
  kind of the field, so the four methods are written once over a list of field descriptions, and the lists of
  the classes are in \<open>ApiMessages\<close> and \<open>ClobMessages\<close>. The reader and writer of the runtime library are a
  parameter; a locale states what they are documented to do.
\<close>

section \<open>Values and descriptions\<close>

datatype scalar_type = STRING | BYTES | BOOL | INT32 | INT64 | UINT32 | UINT64 | FLOAT | DOUBLE

datatype scalar = SText string | SBytes bytes | SBool bool | SInt int | SBig int | SNum jsn

datatype wire_type = Varint | Bit64 | LengthDelimited | StartGroup | EndGroup | Bit32

text \<open>The kinds of fields: without presence, with presence, repeated with a tag each, repeated and packed,
  messages, repeated messages, and maps from texts.\<close>

datatype field_kind =
  Implicit scalar_type | Optional scalar_type | Repeated scalar_type | Packed scalar_type
  | Message string | Messages string | Map_scalar scalar_type | Map_message string

record field =
  f_no :: nat
  f_name :: string
  f_kind :: field_kind

abbreviation fld :: "nat \<Rightarrow> string \<Rightarrow> field_kind \<Rightarrow> field" where
  "fld no name kind \<equiv> \<lparr>f_no = no, f_name = name, f_kind = kind\<rparr>"

text \<open>A message object has one slot per described field; \<open>PUndef\<close> is a property that is not set. The second
  component holds fields the class does not know. A map holds its entries in the order of \<open>Object.keys\<close>.\<close>

type_synonym unknown_field = "nat \<times> wire_type \<times> bytes"

datatype pvalue =
  PUndef | PScalar scalar | PMessage "pvalue list" "unknown_field list" | PList "pvalue list" | PMap "(string \<times> pvalue) list"

text \<open>A class: the descriptions its constructor hands to the library, the assignments of \<open>create\<close>, the cases of
  \<open>internalBinaryRead\<close> and the statements of \<open>internalBinaryWrite\<close>, each with its number, its property and the kind of
  the statement. The constructor's names are those of the schema, the other names those of the properties.\<close>

record message_class =
  c_fields :: "field list"
  c_create :: "(string \<times> pvalue) list"
  c_reads :: "field list"
  c_writes :: "field list"

type_synonym schemas = "string \<Rightarrow> message_class"

definition no_class :: message_class where
  "no_class = \<lparr>c_fields = [], c_create = [], c_reads = [], c_writes = []\<rparr>"

fun wire_of :: "scalar_type \<Rightarrow> wire_type" where
  "wire_of STRING = LengthDelimited"
| "wire_of BYTES = LengthDelimited"
| "wire_of FLOAT = Bit32"
| "wire_of DOUBLE = Bit64"
| "wire_of _ = Varint"

fun default_of :: "scalar_type \<Rightarrow> scalar" where
  "default_of STRING = SText []"
| "default_of BYTES = SBytes []"
| "default_of BOOL = SBool False"
| "default_of FLOAT = SNum (JNum 0)"
| "default_of DOUBLE = SNum (JNum 0)"
| "default_of INT64 = SBig 0"
| "default_of UINT64 = SBig 0"
| "default_of _ = SInt 0"

fun default_slot :: "field_kind \<Rightarrow> pvalue" where
  "default_slot (Implicit t) = PScalar (default_of t)"
| "default_slot (Optional _) = PUndef"
| "default_slot (Message _) = PUndef"
| "default_slot (Repeated _) = PList []"
| "default_slot (Packed _) = PList []"
| "default_slot (Messages _) = PList []"
| "default_slot (Map_scalar _) = PMap []"
| "default_slot (Map_message _) = PMap []"

definition create :: "message_class \<Rightarrow> pvalue list" where
  "create c = map (\<lambda>f. case map_of (c_create c) (f_name f) of Some v \<Rightarrow> v | None \<Rightarrow> PUndef) (c_reads c)"

text \<open>What the four methods of a class must have in common: every field is numbered once, is described, created, read
  and written with one kind, and the property is named after the field of the schema.\<close>

definition capital :: "char \<Rightarrow> char" where
  "capital c = (case map_of (zip ''abcdefghijklmnopqrstuvwxyz'' ''ABCDEFGHIJKLMNOPQRSTUVWXYZ'') c of Some d \<Rightarrow> d | None \<Rightarrow> c)"

lemma capitals:
  "capital (CHR ''a'') = CHR ''A''" "capital (CHR ''b'') = CHR ''B''" "capital (CHR ''c'') = CHR ''C''"
  "capital (CHR ''d'') = CHR ''D''" "capital (CHR ''e'') = CHR ''E''" "capital (CHR ''f'') = CHR ''F''"
  "capital (CHR ''g'') = CHR ''G''" "capital (CHR ''h'') = CHR ''H''" "capital (CHR ''i'') = CHR ''I''"
  "capital (CHR ''j'') = CHR ''J''" "capital (CHR ''k'') = CHR ''K''" "capital (CHR ''l'') = CHR ''L''"
  "capital (CHR ''m'') = CHR ''M''" "capital (CHR ''n'') = CHR ''N''" "capital (CHR ''o'') = CHR ''O''"
  "capital (CHR ''p'') = CHR ''P''" "capital (CHR ''q'') = CHR ''Q''" "capital (CHR ''r'') = CHR ''R''"
  "capital (CHR ''s'') = CHR ''S''" "capital (CHR ''t'') = CHR ''T''" "capital (CHR ''u'') = CHR ''U''"
  "capital (CHR ''v'') = CHR ''V''" "capital (CHR ''w'') = CHR ''W''" "capital (CHR ''x'') = CHR ''X''"
  "capital (CHR ''y'') = CHR ''Y''" "capital (CHR ''z'') = CHR ''Z''"
  by (simp_all add: capital_def)

lemma capital_digit: "capital (CHR ''2'') = CHR ''2''"
  by (simp add: capital_def)

definition same_name :: "string \<Rightarrow> string \<Rightarrow> bool" where
  "same_name proto prop \<longleftrightarrow>
     concat (map (\<lambda>(p, c). if c = CHR ''_'' then [] else if p = CHR ''_'' then [capital c] else [c]) (zip (CHR '' '' # proto) proto)) = prop"

definition class_agrees :: "message_class \<Rightarrow> bool" where
  "class_agrees c \<longleftrightarrow> distinct (map f_no (c_reads c)) \<and> list_all (\<lambda>f. 0 < f_no f \<and> f_no f < 2 ^ 29) (c_reads c)
     \<and> distinct (map f_name (c_reads c))
     \<and> list_all2 (\<lambda>f g. f_no f = f_no g \<and> f_kind f = f_kind g \<and> same_name (f_name f) (f_name g)) (c_fields c) (c_reads c)
     \<and> c_create c = filter (\<lambda>p. snd p \<noteq> PUndef) (map (\<lambda>f. (f_name f, default_slot (f_kind f))) (c_reads c))
     \<and> c_writes c = c_reads c"

section \<open>The runtime library\<close>

text \<open>Writing appends bytes; reading takes them from the front, \<open>None\<close> when it throws. \<open>put_length\<close> is what
  \<open>join\<close> writes before the bytes since the \<open>fork\<close>. The two options choose what happens to unknown fields.\<close>

datatype unknown_mode = Throw_unknown | Keep_unknown | Drop_unknown

record runtime =
  put_tag :: "nat \<Rightarrow> wire_type \<Rightarrow> bytes"
  get_tag :: "bytes \<Rightarrow> ((nat \<times> wire_type) \<times> bytes) option"
  put_scalar :: "scalar_type \<Rightarrow> scalar \<Rightarrow> bytes"
  get_scalar :: "scalar_type \<Rightarrow> bytes \<Rightarrow> (scalar \<times> bytes) option"
  put_length :: "nat \<Rightarrow> bytes"
  skip_field :: "wire_type \<Rightarrow> bytes \<Rightarrow> (bytes \<times> bytes) option"
  read_unknown :: unknown_mode
  write_unknown :: bool

definition delimited :: "runtime \<Rightarrow> bytes \<Rightarrow> bytes" where
  "delimited rt bs = put_length rt (length bs) @ bs"

section \<open>Writing\<close>

definition write_scalar :: "runtime \<Rightarrow> nat \<Rightarrow> scalar_type \<Rightarrow> pvalue \<Rightarrow> bytes" where
  "write_scalar rt no t v = (case v of PScalar x \<Rightarrow> put_tag rt no (wire_of t) @ put_scalar rt t x | _ \<Rightarrow> [])"

definition write_packed :: "runtime \<Rightarrow> scalar_type \<Rightarrow> pvalue list \<Rightarrow> bytes" where
  "write_packed rt t vs = concat (map (\<lambda>v. case v of PScalar x \<Rightarrow> put_scalar rt t x | _ \<Rightarrow> []) vs)"

definition write_unknowns :: "runtime \<Rightarrow> unknown_field list \<Rightarrow> bytes" where
  "write_unknowns rt us = (if write_unknown rt then concat (map (\<lambda>(no, w, d). put_tag rt no w @ d) us) else [])"

text \<open>The statement of a field for the value of its slot, for every kind that fits the value.\<close>

primrec write_field :: "pvalue \<Rightarrow> runtime \<Rightarrow> schemas \<Rightarrow> nat \<Rightarrow> field_kind \<Rightarrow> bytes" where
  "write_field PUndef rt S no kind = []"
| "write_field (PScalar x) rt S no kind =
     (case kind of
        Implicit t \<Rightarrow> if x = default_of t then [] else write_scalar rt no t (PScalar x)
      | Optional t \<Rightarrow> write_scalar rt no t (PScalar x)
      | _ \<Rightarrow> [])"
| "write_field (PMessage slots us) rt S no kind =
     (case kind of
        Message n \<Rightarrow> put_tag rt no LengthDelimited
          @ delimited rt (concat (map2 (\<lambda>f w. w rt S (f_no f) (f_kind f)) (c_writes (S n)) (map write_field slots)) @ write_unknowns rt us)
      | _ \<Rightarrow> [])"
| "write_field (PList vs) rt S no kind =
     (case kind of
        Repeated t \<Rightarrow> concat (map (write_scalar rt no t) vs)
      | Packed t \<Rightarrow> if vs = [] then [] else put_tag rt no LengthDelimited @ delimited rt (write_packed rt t vs)
      | Messages n \<Rightarrow> concat (map (\<lambda>w. w rt S no (Message n)) (map write_field vs))
      | _ \<Rightarrow> [])"
| "write_field (PMap kvs) rt S no kind =
     (case kind of
        Map_scalar t \<Rightarrow> concat (map (\<lambda>(k, v). put_tag rt no LengthDelimited
          @ delimited rt (write_scalar rt 1 STRING (PScalar (SText k)) @ write_scalar rt 2 t v)) kvs)
      | Map_message n \<Rightarrow> concat (map (\<lambda>(k, w). put_tag rt no LengthDelimited
          @ delimited rt (write_scalar rt 1 STRING (PScalar (SText k)) @ w rt S 2 (Message n)))
          (map (map_prod id write_field) kvs))
      | _ \<Rightarrow> [])"

text \<open>\<open>internalBinaryWrite\<close>: the statements of all fields in their order, then the unknown fields.\<close>

definition write_slots :: "runtime \<Rightarrow> schemas \<Rightarrow> field list \<Rightarrow> pvalue list \<Rightarrow> bytes" where
  "write_slots rt S fs vs = concat (map2 (\<lambda>f v. write_field v rt S (f_no f) (f_kind f)) fs vs)"

definition write_message :: "runtime \<Rightarrow> schemas \<Rightarrow> string \<Rightarrow> pvalue \<Rightarrow> bytes" where
  "write_message rt S n v =
     (case v of PMessage slots us \<Rightarrow> write_slots rt S (c_writes (S n)) slots @ write_unknowns rt us | _ \<Rightarrow> [])"

section \<open>Reading\<close>

text \<open>\<open>None\<close> is running out of fuel, the left side of the sum a thrown error.\<close>

type_synonym 'a read = "(js_error + ('a \<times> bytes)) option"

definition then_read :: "'a read \<Rightarrow> ('a \<Rightarrow> bytes \<Rightarrow> 'b read) \<Rightarrow> 'b read" where
  "then_read r f = (case r of None \<Rightarrow> None | Some (Inl e) \<Rightarrow> Some (Inl e) | Some (Inr (v, bs)) \<Rightarrow> f v bs)"

definition taken :: "('a \<times> bytes) option \<Rightarrow> 'a read" where
  "taken r = Some (case r of None \<Rightarrow> Inl RangeError | Some p \<Rightarrow> Inr p)"

definition read_length :: "runtime \<Rightarrow> scalar_type \<Rightarrow> bytes \<Rightarrow> int read" where
  "read_length rt t bs = then_read (taken (get_scalar rt t bs)) (\<lambda>v rest. Some (case v of SInt n \<Rightarrow> Inr (n, rest) | _ \<Rightarrow> Inl TypeError))"

fun field_index :: "nat \<Rightarrow> field list \<Rightarrow> nat option" where
  "field_index no [] = None"
| "field_index no (f # fs) = (if f_no f = no then Some 0 else map_option Suc (field_index no fs))"

definition obj_set :: "string \<Rightarrow> pvalue \<Rightarrow> (string \<times> pvalue) list \<Rightarrow> (string \<times> pvalue) list" where
  "obj_set k v kvs = obj_entries (map_set k v kvs)"

fun push :: "pvalue \<Rightarrow> pvalue \<Rightarrow> pvalue" where
  "push (PList vs) v = PList (vs @ [v])"
| "push old v = PList [v]"

text \<open>Assigning to \<open>__proto__\<close> adds no property of the object's own.\<close>

fun entries_of :: "pvalue \<Rightarrow> (string \<times> pvalue) list" where
  "entries_of (PMap kvs) = kvs"
| "entries_of old = []"

definition set_entry :: "pvalue \<Rightarrow> string \<Rightarrow> pvalue \<Rightarrow> pvalue" where
  "set_entry old k v = PMap (if k = ''__proto__'' then entries_of old else obj_set k v (entries_of old))"

primrec read_packed :: "nat \<Rightarrow> runtime \<Rightarrow> scalar_type \<Rightarrow> int \<Rightarrow> pvalue \<Rightarrow> bytes \<Rightarrow> pvalue read" where
  "read_packed 0 rt t stop old bs = None"
| "read_packed (Suc n) rt t stop old bs =
     (if int (length bs) \<le> stop then Some (Inr (old, bs))
      else then_read (taken (get_scalar rt t bs)) (\<lambda>x rest. read_packed n rt t stop (push old (PScalar x)) rest))"

text \<open>A loop runs while the position is before its end, that is while more bytes are left than after the end.
  \<open>sub m old\<close> is \<open>internalBinaryRead\<close> of the class \<open>m\<close>, into the object \<open>old\<close> if there is one.\<close>

type_synonym sub_read = "string \<Rightarrow> pvalue \<Rightarrow> int \<Rightarrow> bytes \<Rightarrow> pvalue read"

definition read_sub :: "runtime \<Rightarrow> sub_read \<Rightarrow> string \<Rightarrow> pvalue \<Rightarrow> bytes \<Rightarrow> pvalue read" where
  "read_sub rt sub m old bs =
     then_read (read_length rt UINT32 bs) (\<lambda>len rest. sub m old (int (length rest) - len) rest)"

definition empty_value :: "schemas \<Rightarrow> field_kind \<Rightarrow> pvalue" where
  "empty_value S kind =
     (case kind of Map_scalar t \<Rightarrow> PScalar (default_of t) | Map_message m \<Rightarrow> PMessage (create (S m)) [] | _ \<Rightarrow> PUndef)"

primrec read_entry ::
  "nat \<Rightarrow> runtime \<Rightarrow> schemas \<Rightarrow> sub_read \<Rightarrow> field_kind \<Rightarrow> int \<Rightarrow> string option \<Rightarrow> pvalue option \<Rightarrow> bytes \<Rightarrow> (string \<times> pvalue) read" where
  "read_entry 0 rt S sub kind stop k v bs = None"
| "read_entry (Suc n) rt S sub kind stop k v bs =
     (if int (length bs) \<le> stop
      then Some (Inr ((case k of Some t \<Rightarrow> t | None \<Rightarrow> [], case v of Some x \<Rightarrow> x | None \<Rightarrow> empty_value S kind), bs))
      else then_read (taken (get_tag rt bs)) (\<lambda>(no, w) bs1.
        if no = 1 then then_read (taken (get_scalar rt STRING bs1)) (\<lambda>x rest.
               read_entry n rt S sub kind stop (case x of SText t \<Rightarrow> Some t | _ \<Rightarrow> None) v rest)
        else if no = 2 then
          then_read (case kind of
               Map_message m \<Rightarrow> read_sub rt sub m PUndef bs1
             | Map_scalar t \<Rightarrow> then_read (taken (get_scalar rt t bs1)) (\<lambda>x rest. Some (Inr (PScalar x, rest)))
             | _ \<Rightarrow> Some (Inl TypeError))
           (\<lambda>x rest. read_entry n rt S sub kind stop k (Some x) rest)
        else Some (Inl (JsError ''unknown map entry field''))))"

text \<open>The case of a field, with the wire type of the tag and the value of the slot.\<close>

definition read_field ::
  "nat \<Rightarrow> runtime \<Rightarrow> schemas \<Rightarrow> sub_read \<Rightarrow> field_kind \<Rightarrow> wire_type \<Rightarrow> pvalue \<Rightarrow> bytes \<Rightarrow> pvalue read" where
  "read_field n rt S sub kind w old bs =
     (let scalar = (\<lambda>t f. then_read (taken (get_scalar rt t bs)) (\<lambda>x rest. Some (Inr (f (PScalar x), rest)))) in
      case kind of
        Implicit t \<Rightarrow> scalar t id
      | Optional t \<Rightarrow> scalar t id
      | Repeated t \<Rightarrow> scalar t (push old)
      | Packed t \<Rightarrow>
          if w = LengthDelimited
          then then_read (read_length rt INT32 bs) (\<lambda>len rest. read_packed n rt t (int (length rest) - len) old rest)
          else scalar t (push old)
      | Message m \<Rightarrow> read_sub rt sub m old bs
      | Messages m \<Rightarrow> then_read (read_sub rt sub m PUndef bs) (\<lambda>v rest. Some (Inr (push old v, rest)))
      | _ \<Rightarrow> then_read (read_length rt UINT32 bs) (\<lambda>len rest.
          then_read (read_entry n rt S sub kind (int (length rest) - len) None None rest)
            (\<lambda>(k, v) rest1. Some (Inr (set_entry old k v, rest1)))))"

text \<open>The object a class reads into: the given one, or a new one.\<close>

definition target_of :: "message_class \<Rightarrow> pvalue \<Rightarrow> pvalue list \<times> unknown_field list" where
  "target_of c old = (case old of PMessage slots us \<Rightarrow> (slots, us) | _ \<Rightarrow> (create c, []))"

primrec read_fields ::
  "nat \<Rightarrow> runtime \<Rightarrow> schemas \<Rightarrow> field list \<Rightarrow> int \<Rightarrow> pvalue list \<Rightarrow> unknown_field list \<Rightarrow> bytes \<Rightarrow> pvalue read" where
  "read_fields 0 rt S fs stop slots us bs = None"
| "read_fields (Suc n) rt S fs stop slots us bs =
     (if int (length bs) \<le> stop then Some (Inr (PMessage slots us, bs))
      else then_read (taken (get_tag rt bs)) (\<lambda>(no, w) bs1.
        case field_index no fs of
          Some i \<Rightarrow>
            then_read (read_field n rt S
                (\<lambda>m old stop' bs'. case target_of (S m) old of (slots', us') \<Rightarrow> read_fields n rt S (c_reads (S m)) stop' slots' us' bs')
                (f_kind (fs ! i)) w (slots ! i) bs1)
              (\<lambda>v bs2. read_fields n rt S fs stop (slots[i := v]) us bs2)
        | None \<Rightarrow>
            if read_unknown rt = Throw_unknown then Some (Inl (JsError ''Unknown field''))
            else then_read (taken (skip_field rt w bs1)) (\<lambda>d bs2.
              read_fields n rt S fs stop slots (if read_unknown rt = Keep_unknown then us @ [(no, w, d)] else us) bs2)))"

definition read_message :: "nat \<Rightarrow> runtime \<Rightarrow> schemas \<Rightarrow> sub_read" where
  "read_message n rt S m old stop bs =
     (case target_of (S m) old of (slots, us) \<Rightarrow> read_fields n rt S (c_reads (S m)) stop slots us bs)"

text \<open>\<open>toBinary\<close> and \<open>fromBinary\<close> of a class.\<close>

definition to_binary :: "runtime \<Rightarrow> schemas \<Rightarrow> string \<Rightarrow> pvalue \<Rightarrow> bytes" where
  "to_binary rt S n v = write_message rt S n v"

definition from_binary :: "nat \<Rightarrow> runtime \<Rightarrow> schemas \<Rightarrow> string \<Rightarrow> bytes \<Rightarrow> pvalue read" where
  "from_binary fuel rt S n bs = read_message fuel rt S n PUndef 0 bs"

section \<open>Well-formed values\<close>

text \<open>The values a TypeScript field of each type holds that its encoding carries exactly. A \<open>float\<close> must already be a
  binary32 number.\<close>

definition is_binary :: "nat \<Rightarrow> int \<Rightarrow> rat \<Rightarrow> bool" where
  "is_binary p emin a \<longleftrightarrow> a = 0 \<or> (let m = a / 2 powi max (rat_log2 \<bar>a\<bar> - int p) emin
     in of_int \<lfloor>m\<rfloor> = m \<and> \<bar>a\<bar> < 2 powi (2 - emin - int p))"

abbreviation is_single :: "rat \<Rightarrow> bool" where
  "is_single \<equiv> is_binary 23 (- 149)"

abbreviation is_double :: "rat \<Rightarrow> bool" where
  "is_double \<equiv> is_binary 52 (- 1074)"

fun fits :: "scalar_type \<Rightarrow> scalar \<Rightarrow> bool" where
  "fits STRING (SText s) = True"
| "fits BYTES (SBytes bs) = list_all (\<lambda>b. 0 \<le> b \<and> b < 256) bs"
| "fits BOOL (SBool b) = True"
| "fits INT32 (SInt n) = (- (2 ^ 31) \<le> n \<and> n < 2 ^ 31)"
| "fits INT64 (SBig n) = (- (2 ^ 63) \<le> n \<and> n < 2 ^ 63)"
| "fits UINT32 (SInt n) = (0 \<le> n \<and> n < 2 ^ 32)"
| "fits UINT64 (SBig n) = (0 \<le> n \<and> n < 2 ^ 64)"
| "fits FLOAT (SNum x) = (case x of JNum a \<Rightarrow> is_single a | _ \<Rightarrow> True)"
| "fits DOUBLE (SNum x) = (case x of JNum a \<Rightarrow> is_double a | _ \<Rightarrow> True)"
| "fits _ _ = False"

fun scalar_slot :: "scalar_type \<Rightarrow> pvalue \<Rightarrow> bool" where
  "scalar_slot t (PScalar x) = fits t x"
| "scalar_slot t _ = False"

fun is_message :: "pvalue \<Rightarrow> bool" where
  "is_message (PMessage _ _) = True"
| "is_message _ = False"

definition ok_schema :: "field list \<Rightarrow> bool" where
  "ok_schema fs \<longleftrightarrow> distinct (map f_no fs) \<and> list_all (\<lambda>f. 0 < f_no f \<and> f_no f < 2 ^ 29) fs"

definition ok_unknown :: "runtime \<Rightarrow> field list \<Rightarrow> unknown_field \<Rightarrow> bool" where
  "ok_unknown rt fs = (\<lambda>(no, w, d). 0 < no \<and> no < 2 ^ 29 \<and> no \<notin> f_no ` set fs \<and> (\<forall>r. skip_field rt w (d @ r) = Some (d, r)))"

definition keeps_unknown :: "runtime \<Rightarrow> bool" where
  "keeps_unknown rt \<longleftrightarrow> read_unknown rt = Keep_unknown \<and> write_unknown rt"

definition ok_keys :: "(string \<times> 'a) list \<Rightarrow> bool" where
  "ok_keys kvs \<longleftrightarrow> distinct (map fst kvs) \<and> obj_entries kvs = kvs \<and> ''__proto__'' \<notin> fst ` set kvs"

primrec ok_value :: "pvalue \<Rightarrow> runtime \<Rightarrow> schemas \<Rightarrow> field_kind \<Rightarrow> bool" where
  "ok_value PUndef rt S kind = (case kind of Optional _ \<Rightarrow> True | Message _ \<Rightarrow> True | _ \<Rightarrow> False)"
| "ok_value (PScalar x) rt S kind = (case kind of Implicit t \<Rightarrow> fits t x | Optional t \<Rightarrow> fits t x | _ \<Rightarrow> False)"
| "ok_value (PMessage slots us) rt S kind =
     (case kind of
        Message n \<Rightarrow> length slots = length (c_reads (S n)) \<and> list_all2 (\<lambda>f ok. ok rt S (f_kind f)) (c_reads (S n)) (map ok_value slots)
          \<and> list_all (ok_unknown rt (c_reads (S n))) us \<and> (us \<noteq> [] \<longrightarrow> keeps_unknown rt)
      | _ \<Rightarrow> False)"
| "ok_value (PList vs) rt S kind =
     (case kind of
        Repeated t \<Rightarrow> list_all (scalar_slot t) vs
      | Packed t \<Rightarrow> list_all (scalar_slot t) vs
      | Messages n \<Rightarrow> list_all is_message vs \<and> list_all (\<lambda>ok. ok rt S (Message n)) (map ok_value vs)
      | _ \<Rightarrow> False)"
| "ok_value (PMap kvs) rt S kind =
     (case kind of
        Map_scalar t \<Rightarrow> ok_keys kvs \<and> list_all (scalar_slot t \<circ> snd) kvs
      | Map_message n \<Rightarrow> ok_keys kvs \<and> list_all (is_message \<circ> snd) kvs
          \<and> list_all (\<lambda>(k, ok). ok rt S (Message n)) (map (map_prod id ok_value) kvs)
      | _ \<Rightarrow> False)"

definition ok_message :: "runtime \<Rightarrow> schemas \<Rightarrow> string \<Rightarrow> pvalue \<Rightarrow> bool" where
  "ok_message rt S n v \<longleftrightarrow> is_message v \<and> ok_value v rt S (Message n)"

text \<open>What follows from the agreement of the methods.\<close>

lemma agreed_writes: "class_agrees c \<Longrightarrow> c_writes c = c_reads c"
  by (simp add: class_agrees_def)

lemma agreed_schema: "class_agrees c \<Longrightarrow> ok_schema (c_reads c)"
  by (simp add: class_agrees_def ok_schema_def)

lemma agreed_create: "class_agrees c \<Longrightarrow> create c = map (default_slot \<circ> f_kind) (c_reads c)"
proof -
  assume c: "class_agrees c"
  let ?ps = "map (\<lambda>f. (f_name f, default_slot (f_kind f))) (c_reads c)"
  have "distinct (map fst ?ps)" using c by (simp add: class_agrees_def comp_def)
  have look: "(case map_of (c_create c) (f_name f) of Some v \<Rightarrow> v | None \<Rightarrow> PUndef) = default_slot (f_kind f)" if f: "f \<in> set (c_reads c)" for f
  proof -
    have d: "distinct (map fst (c_create c))" and cc: "c_create c = filter (\<lambda>p. snd p \<noteq> PUndef) ?ps"
      using c \<open>distinct (map fst ?ps)\<close> by (auto simp: class_agrees_def distinct_map_filter)
    show ?thesis
    proof (cases "default_slot (f_kind f) = PUndef")
      case False
      then have "(f_name f, default_slot (f_kind f)) \<in> set (c_create c)" using f by (auto simp: cc)
      then show ?thesis using d by (simp add: map_of_is_SomeI)
    next
      case True
      have "f_name f \<notin> fst ` set (c_create c)"
      proof
        assume "f_name f \<in> fst ` set (c_create c)"
        then obtain g where g: "g \<in> set (c_reads c)" "f_name g = f_name f" "default_slot (f_kind g) \<noteq> PUndef" by (auto simp: cc)
        then have "g = f" using c f by (simp add: class_agrees_def distinct_map inj_on_def)
        with g True show False by simp
      qed
      then show ?thesis using True by (simp add: map_of_eq_None_iff split: option.split) (metis map_of_eq_None_iff option.distinct(1))
    qed
  qed
  then show ?thesis by (simp add: create_def)
qed

section \<open>Reading with enough fuel\<close>

definition reads :: "(nat \<Rightarrow> 'a read) \<Rightarrow> 'a \<Rightarrow> bytes \<Rightarrow> bool" where
  "reads r v bs \<longleftrightarrow> (\<exists>N. \<forall>n\<ge>N. r n = Some (Inr (v, bs)))"

lemma reads_now [simp]: "reads (\<lambda>_. Some (Inr (v, bs))) v bs"
  by (auto simp: reads_def)

lemma reads_Suc: "reads (\<lambda>n. r (Suc n)) v bs \<Longrightarrow> reads r v bs"
  unfolding reads_def by (metis Suc_le_D Suc_le_mono)

lemma reads_shift: "reads r v bs \<Longrightarrow> reads (\<lambda>n. r (Suc n)) v bs"
  unfolding reads_def by (meson le_SucI)

lemma reads_bind:
  assumes "reads r v bs" "reads (\<lambda>n. f n v bs) u cs"
  shows "reads (\<lambda>n. then_read (r n) (f n)) u cs"
proof -
  from assms obtain N M where "\<forall>n\<ge>N. r n = Some (Inr (v, bs))" "\<forall>n\<ge>M. f n v bs = Some (Inr (u, cs))"
    unfolding reads_def by blast
  then have "\<forall>n\<ge>max N M. then_read (r n) (f n) = Some (Inr (u, cs))" by (simp add: then_read_def)
  then show ?thesis unfolding reads_def by blast
qed

lemma then_read_simps [simp]:
  "then_read (Some (Inr (v, bs))) f = f v bs"
  "then_read (Some (Inl e)) f = Some (Inl e)"
  "then_read None f = None"
  by (simp_all add: then_read_def)

lemma taken_simps [simp]: "taken (Some p) = Some (Inr p)" "taken None = Some (Inl RangeError)"
  by (simp_all add: taken_def)

lemma field_index_Some:
  "field_index no fs = Some i \<Longrightarrow> i < length fs \<and> f_no (fs ! i) = no"
  by (induction fs arbitrary: i) (auto split: if_splits)

lemma field_index_nth:
  "distinct (map f_no fs) \<Longrightarrow> i < length fs \<Longrightarrow> field_index (f_no (fs ! i)) fs = Some i"
proof (induction fs arbitrary: i)
  case (Cons f fs)
  show ?case
  proof (cases i)
    case (Suc j)
    with Cons have "field_index (f_no (fs ! j)) fs = Some j" "f_no (fs ! j) \<in> f_no ` set fs" by auto
    with Suc Cons.prems(1) show ?thesis by auto
  qed simp
qed simp

lemma field_index_None: "no \<notin> f_no ` set fs \<Longrightarrow> field_index no fs = None"
  by (induction fs) auto

lemma read_fields_Suc:
  "read_fields (Suc n) rt S fs stop slots us bs =
     (if int (length bs) \<le> stop then Some (Inr (PMessage slots us, bs))
      else then_read (taken (get_tag rt bs)) (\<lambda>(no, w) bs1.
        case field_index no fs of
          Some i \<Rightarrow>
            then_read (read_field n rt S (read_message n rt S) (f_kind (fs ! i)) w (slots ! i) bs1)
              (\<lambda>v bs2. read_fields n rt S fs stop (slots[i := v]) us bs2)
        | None \<Rightarrow>
            if read_unknown rt = Throw_unknown then Some (Inl (JsError ''Unknown field''))
            else then_read (taken (skip_field rt w bs1)) (\<lambda>d bs2.
              read_fields n rt S fs stop slots (if read_unknown rt = Keep_unknown then us @ [(no, w, d)] else us) bs2)))"
proof -
  have "(\<lambda>m old stop' bs'. case target_of (S m) old of (slots', us') \<Rightarrow> read_fields n rt S (c_reads (S m)) stop' slots' us' bs')
      = read_message n rt S"
    by (simp add: fun_eq_iff read_message_def)
  then show ?thesis by (simp only: read_fields.simps(2))
qed

section \<open>Maps in the order of their keys\<close>

lemma normal_keys_iff:
  "obj_entries kvs = kvs \<longleftrightarrow>
     (\<exists>A B. kvs = A @ B \<and> list_all (is_index \<circ> fst) A \<and> list_all (Not \<circ> is_index \<circ> fst) B \<and> sorted (map (digits_value \<circ> fst) A))"
  (is "?l \<longleftrightarrow> ?r")
proof
  assume ?l
  let ?A = "sort_key (\<lambda>p. digits_value (fst p)) (filter (\<lambda>p. is_index (fst p)) kvs)"
  let ?B = "filter (\<lambda>p. \<not> is_index (fst p)) kvs"
  have "kvs = ?A @ ?B" using \<open>?l\<close> unfolding obj_entries_def by simp
  moreover have "sorted (map (digits_value \<circ> fst) ?A)" by (simp add: comp_def)
  ultimately show ?r by (intro exI [of _ ?A] exI [of _ ?B]) (auto simp: list_all_iff)
next
  assume ?r
  then obtain A B where ab: "kvs = A @ B" "list_all (is_index \<circ> fst) A" "list_all (Not \<circ> is_index \<circ> fst) B"
      "sorted (map (digits_value \<circ> fst) A)" by blast
  have "filter (\<lambda>p. is_index (fst p)) kvs = A" "filter (\<lambda>p. \<not> is_index (fst p)) kvs = B"
    using ab by (auto simp: list_all_iff intro: filter_True filter_False)
  moreover have "sort_key (\<lambda>p. digits_value (fst p)) A = A"
    using ab(4) by (simp add: sort_key_id_if_sorted comp_def)
  ultimately show ?l by (simp add: obj_entries_def ab(1))
qed

lemma ok_keys_butlast: "ok_keys (kvs @ [p]) \<Longrightarrow> ok_keys kvs"
proof -
  assume ok: "ok_keys (kvs @ [p])"
  then obtain A B where ab: "kvs @ [p] = A @ B" "list_all (is_index \<circ> fst) A" "list_all (Not \<circ> is_index \<circ> fst) B"
      "sorted (map (digits_value \<circ> fst) A)" unfolding ok_keys_def normal_keys_iff by blast
  have "obj_entries kvs = kvs"
  proof (cases B rule: rev_cases)
    case Nil
    with ab have "kvs = butlast A @ []" by (metis append_Nil2 butlast_snoc)
    moreover have "sorted (map (digits_value \<circ> fst) (butlast A))"
      using ab(4) by (metis map_butlast sorted_butlast)
    ultimately show ?thesis unfolding normal_keys_iff
      using ab(2) by (intro exI [of _ "butlast A"] exI [of _ "[]"]) (auto simp: list_all_iff dest: in_set_butlastD)
  next
    case (snoc C q)
    with ab have "kvs = A @ C" by simp
    then show ?thesis unfolding normal_keys_iff
      using ab snoc by (intro exI [of _ A] exI [of _ C]) (auto simp: list_all_iff)
  qed
  then show ?thesis using ok by (simp add: ok_keys_def)
qed

lemma map_entries_read:
  "ok_keys kvs \<Longrightarrow> foldl (\<lambda>old (k, v). set_entry old k v) (PMap []) kvs = PMap kvs"
proof (induction kvs rule: rev_induct)
  case (snoc p kvs)
  obtain k v where p: "p = (k, v)" by (cases p)
  have "foldl (\<lambda>old (k, v). set_entry old k v) (PMap []) kvs = PMap kvs"
    using snoc.IH ok_keys_butlast [OF snoc.prems] by simp
  moreover have "obj_set k v kvs = kvs @ [(k, v)]"
    using snoc.prems by (auto simp: p ok_keys_def obj_set_def map_set_def image_iff split: if_splits)
  moreover have "k \<noteq> ''__proto__''" using snoc.prems by (auto simp: p ok_keys_def)
  ultimately show ?case by (simp add: p set_entry_def)
qed simp

section \<open>Sizes and lengths\<close>

lemma size_in_list: "u \<in> set vs \<Longrightarrow> size u < size (PList vs)"
  by (induction vs) auto

lemma size_in_map: "(k, u) \<in> set kvs \<Longrightarrow> size u < size (PMap kvs)"
  by (induction kvs) auto

lemma size_in_message: "u \<in> set slots \<Longrightarrow> size u < size (PMessage slots us)"
  by (induction slots) auto

lemma length_in_concat: "x \<in> set xs \<Longrightarrow> length (f x) \<le> length (concat (map f xs))"
  by (induction xs) auto

lemma length_delimited: "length bs \<le> length (delimited rt bs)"
  by (simp add: delimited_def)

lemma write_message_field:
  "is_message v \<Longrightarrow>
     write_field v rt S no (Message n) = put_tag rt no LengthDelimited @ delimited rt (write_message rt S n v)"
  by (cases v) (simp_all add: write_message_def write_slots_def zip_map2 case_prod_unfold comp_def)

lemma write_messages_field:
  "list_all is_message vs \<Longrightarrow>
     write_field (PList vs) rt S no (Messages n) =
       concat (map (\<lambda>v. put_tag rt no LengthDelimited @ delimited rt (write_message rt S n v)) vs)"
  by (auto simp: write_message_field list_all_iff comp_def intro!: arg_cong [of _ _ concat] map_cong)

lemma write_map_field:
  "list_all (is_message \<circ> snd) kvs \<Longrightarrow>
     write_field (PMap kvs) rt S no (Map_message n) =
       concat (map (\<lambda>p. put_tag rt no LengthDelimited @ delimited rt (write_scalar rt 1 STRING (PScalar (SText (fst p)))
         @ put_tag rt 2 LengthDelimited @ delimited rt (write_message rt S n (snd p)))) kvs)"
  by (auto simp: write_message_field list_all_iff comp_def case_prod_unfold intro!: arg_cong [of _ _ concat] map_cong)

lemma update_default: "slots ! i = v \<Longrightarrow> slots[i := v] = slots"
  by (metis list_update_id)

section \<open>What the runtime library is documented to do\<close>

text \<open>What was written is read back, and hands back the bytes after it. A skipped field is returned as its bytes.\<close>

locale protobuf_runtime =
  fixes rt :: runtime
  assumes tag_back: "0 < no \<Longrightarrow> no < 2 ^ 29 \<Longrightarrow> get_tag rt (put_tag rt no w @ r) = Some ((no, w), r)"
    and tag_nonempty: "put_tag rt no w \<noteq> []"
    and scalar_back: "fits t x \<Longrightarrow> get_scalar rt t (put_scalar rt t x @ r) = Some (x, r)"
    and scalar_nonempty: "fits t x \<Longrightarrow> put_scalar rt t x \<noteq> []"
    and length_back: "n < 2 ^ 31 \<Longrightarrow> t = INT32 \<or> t = UINT32 \<Longrightarrow> get_scalar rt t (put_length rt n @ r) = Some (SInt (int n), r)"
    and skip_scalar: "fits t x \<Longrightarrow> skip_field rt (wire_of t) (put_scalar rt t x @ r) = Some (put_scalar rt t x, r)"
    and skip_delimited: "length d < 2 ^ 31 \<Longrightarrow>
          skip_field rt LengthDelimited (put_length rt (length d) @ d @ r) = Some (put_length rt (length d) @ d, r)"
begin

lemma read_length_back:
  "length d < 2 ^ 31 \<Longrightarrow> t = INT32 \<or> t = UINT32 \<Longrightarrow>
     read_length rt t (delimited rt d @ r) = Some (Inr (int (length d), d @ r))"
  by (simp add: read_length_def delimited_def length_back)

lemma tag_step:
  assumes "field_index no fs = Some i" "f_kind (fs ! i) = kind" "0 < no" "no < 2 ^ 29" "stop \<le> int (length r)"
    and "reads (\<lambda>n. read_field n rt S (read_message n rt S) kind w (slots ! i) (payload @ r)) v r"
    and "reads (\<lambda>n. read_fields n rt S fs stop (slots[i := v]) us r) m cs"
  shows "reads (\<lambda>n. read_fields n rt S fs stop slots us (put_tag rt no w @ payload @ r)) m cs"
proof (rule reads_Suc)
  have "\<not> int (length (put_tag rt no w @ payload @ r)) \<le> stop"
    using assms(5) tag_nonempty [of no w] by (cases "put_tag rt no w") auto
  then have "read_fields (Suc n) rt S fs stop slots us (put_tag rt no w @ payload @ r) =
      then_read (read_field n rt S (read_message n rt S) kind w (slots ! i) (payload @ r))
        (\<lambda>v bs2. read_fields n rt S fs stop (slots[i := v]) us bs2)" for n
    unfolding read_fields_Suc using assms(1-4) by (simp add: tag_back)
  then show "reads (\<lambda>n. read_fields (Suc n) rt S fs stop slots us (put_tag rt no w @ payload @ r)) m cs"
    using reads_bind [OF assms(6), where f = "\<lambda>n v bs2. read_fields n rt S fs stop (slots[i := v]) us bs2"] assms(7) by simp
qed

lemma repeat_step:
  assumes "field_index no fs = Some i" "f_kind (fs ! i) = kind" "0 < no" "no < 2 ^ 29" "i < length slots"
    and payload: "\<And>x old r. x \<in> set xs \<Longrightarrow>
        reads (\<lambda>n. read_field n rt S (read_message n rt S) kind w old (payload x @ r)) (f old x) r"
    and "stop \<le> int (length r)" "reads (\<lambda>n. read_fields n rt S fs stop (slots[i := foldl f (slots ! i) xs]) us r) m cs"
  shows "reads (\<lambda>n. read_fields n rt S fs stop slots us (concat (map (\<lambda>x. put_tag rt no w @ payload x) xs) @ r)) m cs"
  using payload assms(5,8)
proof (induction xs arbitrary: slots)
  case (Cons x xs)
  let ?rest = "concat (map (\<lambda>x. put_tag rt no w @ payload x) xs) @ r"
  have "reads (\<lambda>n. read_fields n rt S fs stop (slots[i := f (slots ! i) x]) us ?rest) m cs"
    using Cons.prems by (intro Cons.IH) simp_all
  moreover have "stop \<le> int (length ?rest)" using assms(7) by simp
  moreover have "reads (\<lambda>n. read_field n rt S (read_message n rt S) kind w (slots ! i) (payload x @ ?rest)) (f (slots ! i) x) ?rest"
    using Cons.prems(1) [of x] by simp
  ultimately have "reads (\<lambda>n. read_fields n rt S fs stop slots us (put_tag rt no w @ payload x @ ?rest)) m cs"
    using tag_step [OF assms(1-4)] by blast
  then show ?case by simp
qed simp

lemma scalar_read:
  "fits t x \<Longrightarrow> kind = Implicit t \<or> kind = Optional t \<Longrightarrow>
     reads (\<lambda>n. read_field n rt S (sub n) kind w old (put_scalar rt t x @ r)) (PScalar x) r"
  by (auto simp: read_field_def scalar_back)

lemma repeated_read:
  "fits t x \<Longrightarrow> reads (\<lambda>n. read_field n rt S (sub n) (Repeated t) w old (put_scalar rt t x @ r)) (push old (PScalar x)) r"
  by (simp add: read_field_def scalar_back)

lemma push_all: "foldl push (PList us) vs = PList (us @ vs)"
  by (induction vs arbitrary: us) simp_all

lemma packed_reads:
  "list_all (scalar_slot t) vs \<Longrightarrow>
     reads (\<lambda>n. read_packed n rt t (int (length r)) old (write_packed rt t vs @ r)) (foldl push old vs) r"
proof (induction vs arbitrary: old)
  case Nil
  have "read_packed (Suc n) rt t (int (length r)) old r = Some (Inr (old, r))" for n by simp
  then show ?case by (simp add: reads_Suc write_packed_def)
next
  case (Cons v vs)
  then obtain x where v: "v = PScalar x" "fits t x" by (cases v) auto
  have "\<not> int (length (write_packed rt t (v # vs) @ r)) \<le> int (length r)"
    using scalar_nonempty [OF v(2)] by (cases "put_scalar rt t x") (auto simp: write_packed_def v(1))
  then have "read_packed (Suc n) rt t (int (length r)) old (write_packed rt t (v # vs) @ r) =
      read_packed n rt t (int (length r)) (push old v) (write_packed rt t vs @ r)" for n
    by (simp add: v(1)) (simp add: write_packed_def scalar_back [OF v(2)] v(1))
  then show ?case using Cons by (simp add: reads_Suc)
qed

lemma packed_read:
  assumes "list_all (scalar_slot t) vs" "length (write_packed rt t vs) < 2 ^ 31"
  shows "reads (\<lambda>n. read_field n rt S (sub n) (Packed t) LengthDelimited old (delimited rt (write_packed rt t vs) @ r))
    (foldl push old vs) r"
  using packed_reads [OF assms(1)] assms(2) by (simp add: read_field_def read_length_back)

definition message_reads :: "schemas \<Rightarrow> string \<Rightarrow> pvalue \<Rightarrow> bool" where
  "message_reads S n v \<longleftrightarrow> (\<forall>r. reads (\<lambda>k. read_message k rt S n PUndef (int (length r)) (write_message rt S n v @ r)) v r)"

lemma sub_read:
  assumes "message_reads S n v" "length (write_message rt S n v) < 2 ^ 31"
  shows "reads (\<lambda>k. read_sub rt (read_message k rt S) n PUndef (delimited rt (write_message rt S n v) @ r)) v r"
  using assms by (simp add: read_sub_def read_length_back message_reads_def)

lemma message_read:
  assumes "message_reads S n v" "length (write_message rt S n v) < 2 ^ 31"
  shows "reads (\<lambda>k. read_field k rt S (read_message k rt S) (Message n) w PUndef (delimited rt (write_message rt S n v) @ r)) v r"
  using sub_read [OF assms] by (simp add: read_field_def)

lemma messages_read:
  assumes "message_reads S n v" "length (write_message rt S n v) < 2 ^ 31"
  shows "reads (\<lambda>k. read_field k rt S (read_message k rt S) (Messages n) w old (delimited rt (write_message rt S n v) @ r)) (push old v) r"
  using reads_bind [OF sub_read [OF assms], of "\<lambda>k v rest. Some (Inr (push old v, rest))"] by (simp add: read_field_def)

definition entry_value :: "sub_read \<Rightarrow> field_kind \<Rightarrow> bytes \<Rightarrow> pvalue read" where
  "entry_value sub kind bs =
     (case kind of
        Map_message m \<Rightarrow> read_sub rt sub m PUndef bs
      | Map_scalar t \<Rightarrow> then_read (taken (get_scalar rt t bs)) (\<lambda>x rest. Some (Inr (PScalar x, rest)))
      | _ \<Rightarrow> Some (Inl TypeError))"

lemma tag_longer: "\<not> int (length (put_tag rt no w @ d @ r)) \<le> int (length r)"
  using tag_nonempty [of no w] by (cases "put_tag rt no w") auto

lemma entry_step_value:
  assumes "entry_value sub kind (payload @ r) = Some (Inr (x, r))"
  shows "read_entry (Suc n) rt S sub kind (int (length r)) k v (put_tag rt 2 w @ payload @ r)
    = read_entry n rt S sub kind (int (length r)) k (Some x) r"
  using assms [unfolded entry_value_def] tag_longer [of 2 w payload r] tag_back [of 2 w "payload @ r"]
  unfolding read_entry.simps(2) by (simp del: read_entry.simps)

lemma entry_step_key:
  "read_entry (Suc n) rt S sub kind (int (length r)) k0 v (write_scalar rt 1 STRING (PScalar (SText k)) @ payload @ r)
    = read_entry n rt S sub kind (int (length r)) (Some k) v (payload @ r)"
  using tag_longer [of 1 LengthDelimited "put_scalar rt STRING (SText k) @ payload" r]
    tag_back [of 1 LengthDelimited "put_scalar rt STRING (SText k) @ payload @ r"] scalar_back [of STRING "SText k" "payload @ r"]
  unfolding read_entry.simps(2) by (simp add: write_scalar_def del: read_entry.simps One_nat_def)

lemma entry_reads:
  assumes "reads (\<lambda>n. entry_value (sub n) kind (payload @ r)) x r"
  shows "reads (\<lambda>n. read_entry n rt S (sub n) kind (int (length r)) None None
    (write_scalar rt 1 STRING (PScalar (SText k)) @ put_tag rt 2 w @ payload @ r)) (k, x) r"
proof -
  obtain N where N: "\<And>n. N \<le> n \<Longrightarrow> entry_value (sub n) kind (payload @ r) = Some (Inr (x, r))"
    using assms unfolding reads_def by blast
  have "read_entry n rt S (sub n) kind (int (length r)) None None
      (write_scalar rt 1 STRING (PScalar (SText k)) @ put_tag rt 2 w @ payload @ r) = Some (Inr ((k, x), r))" if n: "N + 3 \<le> n" for n
  proof -
    obtain j where j: "n = Suc (Suc (Suc j))" using n by (metis add_Suc_right le_Suc_ex numeral_3_eq_3 add_Suc)
    have "read_entry n rt S (sub n) kind (int (length r)) None None
        (write_scalar rt 1 STRING (PScalar (SText k)) @ (put_tag rt 2 w @ payload) @ r)
      = read_entry (Suc j) rt S (sub n) kind (int (length r)) (Some k) (Some x) r"
      unfolding j entry_step_key using entry_step_value [OF N [of n]] n by (simp add: j)
    then show ?thesis by simp
  qed
  then show ?thesis unfolding reads_def by blast
qed

lemma map_scalar_read:
  assumes "scalar_slot t v" "length (write_scalar rt 1 STRING (PScalar (SText k)) @ write_scalar rt 2 t v) < 2 ^ 31"
  shows "reads (\<lambda>n. read_field n rt S (sub n) (Map_scalar t) w old
    (delimited rt (write_scalar rt 1 STRING (PScalar (SText k)) @ write_scalar rt 2 t v) @ r)) (set_entry old k v) r"
proof -
  from assms(1) obtain x where v: "v = PScalar x" "fits t x" by (cases v) auto
  have "reads (\<lambda>n. read_entry n rt S (sub n) (Map_scalar t) (int (length r)) None None
      (write_scalar rt 1 STRING (PScalar (SText k)) @ put_tag rt 2 (wire_of t) @ put_scalar rt t x @ r)) (k, v) r"
    by (rule entry_reads) (simp add: entry_value_def scalar_back [OF v(2)] v(1))
  from reads_bind [OF this, of "\<lambda>n p rest. Some (Inr (set_entry old (fst p) (snd p), rest))"] show ?thesis
    using assms(2) by (simp add: read_field_def read_length_back case_prod_unfold) (simp add: v(1) write_scalar_def)
qed

lemma map_message_read:
  assumes "message_reads S m v"
    and "length (write_scalar rt 1 STRING (PScalar (SText k)) @ put_tag rt 2 LengthDelimited @ delimited rt (write_message rt S m v)) < 2 ^ 31"
  shows "reads (\<lambda>n. read_field n rt S (read_message n rt S) (Map_message m) w old
    (delimited rt (write_scalar rt 1 STRING (PScalar (SText k)) @ put_tag rt 2 LengthDelimited
       @ delimited rt (write_message rt S m v)) @ r)) (set_entry old k v) r"
proof -
  have "length (write_message rt S m v) < 2 ^ 31" using assms(2) length_delimited [of "write_message rt S m v" rt] by simp
  then have "reads (\<lambda>n. read_entry n rt S (read_message n rt S) (Map_message m) (int (length r)) None None
      (write_scalar rt 1 STRING (PScalar (SText k)) @ put_tag rt 2 LengthDelimited @ delimited rt (write_message rt S m v) @ r)) (k, v) r"
    by (intro entry_reads) (simp add: entry_value_def sub_read [OF assms(1)])
  from reads_bind [OF this, of "\<lambda>n p rest. Some (Inr (set_entry old (fst p) (snd p), rest))"] show ?thesis
    using assms(2) by (simp add: read_field_def read_length_back case_prod_unfold)
qed

text \<open>A slot with its default value is filled by reading what its statement writes.\<close>

definition slot_reads :: "schemas \<Rightarrow> field_kind \<Rightarrow> pvalue \<Rightarrow> bool" where
  "slot_reads S kind v \<longleftrightarrow> (\<forall>no fs i slots stop us r m cs.
     field_index no fs = Some i \<and> f_kind (fs ! i) = kind \<and> 0 < no \<and> no < 2 ^ 29 \<and> i < length slots
       \<and> slots ! i = default_slot kind \<and> stop \<le> int (length r) \<and> length (write_field v rt S no kind) < 2 ^ 31
       \<and> reads (\<lambda>n. read_fields n rt S fs stop (slots[i := v]) us r) m cs
     \<longrightarrow> reads (\<lambda>n. read_fields n rt S fs stop slots us (write_field v rt S no kind @ r)) m cs)"

lemma slot_reads_default: "v = default_slot kind \<Longrightarrow> (\<And>no. write_field v rt S no kind = []) \<Longrightarrow> slot_reads S kind v"
  unfolding slot_reads_def by (auto simp: update_default)

lemma slot_reads_single:
  assumes "\<And>no. write_field v rt S no kind = put_tag rt no w @ payload"
    and "\<And>r. length payload < 2 ^ 31 \<Longrightarrow>
        reads (\<lambda>n. read_field n rt S (read_message n rt S) kind w (default_slot kind) (payload @ r)) v r"
  shows "slot_reads S kind v"
  unfolding slot_reads_def assms(1)
proof (intro allI impI, elim conjE)
  fix no fs i slots stop us r m cs
  assume a: "field_index no fs = Some i" "f_kind (fs ! i) = kind" "0 < no" "no < 2 ^ 29" "slots ! i = default_slot kind"
    "stop \<le> int (length r)" "length (put_tag rt no w @ payload) < 2 ^ 31"
    "reads (\<lambda>n. read_fields n rt S fs stop (slots[i := v]) us r) m cs"
  have "reads (\<lambda>n. read_field n rt S (read_message n rt S) kind w (slots ! i) (payload @ r)) v r"
    using assms(2) [of r] a(5,7) by simp
  from tag_step [OF a(1-4,6) this a(8)]
  show "reads (\<lambda>n. read_fields n rt S fs stop slots us ((put_tag rt no w @ payload) @ r)) m cs" by simp
qed

lemma slot_reads_repeat:
  assumes "\<And>no. write_field v rt S no kind = concat (map (\<lambda>x. put_tag rt no w @ payload x) xs)"
    and "\<And>x old r. x \<in> set xs \<Longrightarrow> length (payload x) < 2 ^ 31 \<Longrightarrow>
        reads (\<lambda>n. read_field n rt S (read_message n rt S) kind w old (payload x @ r)) (f old x) r"
    and "foldl f (default_slot kind) xs = v"
  shows "slot_reads S kind v"
  unfolding slot_reads_def assms(1)
proof (intro allI impI, elim conjE)
  fix no fs i slots stop us r m cs
  assume a: "field_index no fs = Some i" "f_kind (fs ! i) = kind" "0 < no" "no < 2 ^ 29" "i < length slots"
    "slots ! i = default_slot kind" "stop \<le> int (length r)"
    "length (concat (map (\<lambda>x. put_tag rt no w @ payload x) xs)) < 2 ^ 31"
    "reads (\<lambda>n. read_fields n rt S fs stop (slots[i := v]) us r) m cs"
  have "length (payload x) < 2 ^ 31" if "x \<in> set xs" for x
    using length_in_concat [OF that, of "\<lambda>x. put_tag rt no w @ payload x"] a(8) by simp
  then show "reads (\<lambda>n. read_fields n rt S fs stop slots us (concat (map (\<lambda>x. put_tag rt no w @ payload x) xs) @ r)) m cs"
    using repeat_step [OF a(1-5), where xs = xs and S = S and w = w and payload = payload and f = f and r = r]
      assms(2) a(7,9) by (simp add: a(6) assms(3))
qed

lemma slot_reads_scalar:
  assumes "fits t x" "kind = Implicit t \<or> kind = Optional t"
  shows "slot_reads S kind (PScalar x)"
proof (cases "kind = Implicit t \<and> x = default_of t")
  case True
  then show ?thesis by (intro slot_reads_default) simp_all
next
  case False
  show ?thesis
  proof (rule slot_reads_single [where w = "wire_of t" and payload = "put_scalar rt t x"])
    show "write_field (PScalar x) rt S no kind = put_tag rt no (wire_of t) @ put_scalar rt t x" for no
      using assms(2) False by (auto simp: write_scalar_def)
  qed (rule scalar_read [OF assms])
qed

lemma scalar_slots: "list_all (scalar_slot t) vs \<Longrightarrow> v \<in> set vs \<Longrightarrow> \<exists>x. v = PScalar x \<and> fits t x"
  by (cases v) (force simp: list_all_iff)+

lemma slot_reads_repeated:
  assumes "list_all (scalar_slot t) vs"
  shows "slot_reads S (Repeated t) (PList vs)"
proof (rule slot_reads_repeat [where w = "wire_of t" and xs = vs and f = push
      and payload = "\<lambda>v. case v of PScalar x \<Rightarrow> put_scalar rt t x | _ \<Rightarrow> []"])
  show "write_field (PList vs) rt S no (Repeated t) =
      concat (map (\<lambda>v. put_tag rt no (wire_of t) @ (case v of PScalar x \<Rightarrow> put_scalar rt t x | _ \<Rightarrow> [])) vs)" for no
    using scalar_slots [OF assms] by (force simp: write_scalar_def intro!: arg_cong [of _ _ concat] map_cong)
next
  fix v old r assume "v \<in> set vs"
  then obtain x where "v = PScalar x" "fits t x" using scalar_slots [OF assms] by blast
  then show "reads (\<lambda>n. read_field n rt S (read_message n rt S) (Repeated t) (wire_of t) old
      ((case v of PScalar x \<Rightarrow> put_scalar rt t x | _ \<Rightarrow> []) @ r)) (push old v) r"
    by (simp add: repeated_read)
qed (simp add: push_all)

lemma slot_reads_packed:
  assumes "list_all (scalar_slot t) vs"
  shows "slot_reads S (Packed t) (PList vs)"
proof (cases "vs = []")
  case False
  show ?thesis
  proof (rule slot_reads_single [where w = LengthDelimited and payload = "delimited rt (write_packed rt t vs)"])
    fix r assume "length (delimited rt (write_packed rt t vs)) < 2 ^ 31"
    then have "length (write_packed rt t vs) < 2 ^ 31" using length_delimited [of "write_packed rt t vs" rt] by simp
    then show "reads (\<lambda>n. read_field n rt S (read_message n rt S) (Packed t) LengthDelimited (default_slot (Packed t))
        (delimited rt (write_packed rt t vs) @ r)) (PList vs) r"
      using packed_read [OF assms, of S "\<lambda>n. read_message n rt S" "PList []" r] by (simp add: push_all)
  qed (use False in simp)
qed (simp add: slot_reads_default)

text \<open>Fields of messages: what the objects inside are known to read.\<close>

lemma slot_reads_message:
  assumes "is_message v" "length (write_message rt S n v) < 2 ^ 31 \<Longrightarrow> message_reads S n v"
  shows "slot_reads S (Message n) v"
proof (rule slot_reads_single [OF write_message_field [OF assms(1)]])
  fix r assume "length (delimited rt (write_message rt S n v)) < 2 ^ 31"
  then have "length (write_message rt S n v) < 2 ^ 31" using length_delimited [of "write_message rt S n v" rt] by simp
  then show "reads (\<lambda>k. read_field k rt S (read_message k rt S) (Message n) LengthDelimited (default_slot (Message n))
      (delimited rt (write_message rt S n v) @ r)) v r"
    using message_read assms(2) by simp
qed

lemma slot_reads_messages:
  assumes "list_all is_message vs" "\<And>v. v \<in> set vs \<Longrightarrow> length (write_message rt S n v) < 2 ^ 31 \<Longrightarrow> message_reads S n v"
  shows "slot_reads S (Messages n) (PList vs)"
proof (rule slot_reads_repeat [OF write_messages_field [OF assms(1)], where f = push])
  fix v old r assume v: "v \<in> set vs" "length (delimited rt (write_message rt S n v)) < 2 ^ 31"
  then have "length (write_message rt S n v) < 2 ^ 31" using length_delimited [of "write_message rt S n v" rt] by simp
  then show "reads (\<lambda>k. read_field k rt S (read_message k rt S) (Messages n) LengthDelimited old
      (delimited rt (write_message rt S n v) @ r)) (push old v) r"
    using messages_read assms(2) v(1) by simp
qed (simp add: push_all)

lemma slot_reads_map_scalar:
  assumes "ok_keys kvs" "list_all (scalar_slot t \<circ> snd) kvs"
  shows "slot_reads S (Map_scalar t) (PMap kvs)"
proof (rule slot_reads_repeat [where w = LengthDelimited and xs = kvs and f = "\<lambda>old (k, v). set_entry old k v"
      and payload = "\<lambda>(k, v). delimited rt (write_scalar rt 1 STRING (PScalar (SText k)) @ write_scalar rt 2 t v)"])
  fix p old r
  assume p: "p \<in> set kvs" "length ((\<lambda>(k, v). delimited rt (write_scalar rt 1 STRING (PScalar (SText k)) @ write_scalar rt 2 t v)) p) < 2 ^ 31"
  obtain k v where kv: "p = (k, v)" by (cases p)
  have "scalar_slot t v" using assms(2) p(1) by (auto simp: kv list_all_iff)
  moreover have "length (write_scalar rt 1 STRING (PScalar (SText k)) @ write_scalar rt 2 t v) < 2 ^ 31"
    using p(2) length_delimited [of "write_scalar rt 1 STRING (PScalar (SText k)) @ write_scalar rt 2 t v" rt]
    unfolding kv prod.case by (rule order.strict_trans1 [rotated])
  ultimately show "reads (\<lambda>n. read_field n rt S (read_message n rt S) (Map_scalar t) LengthDelimited old
      ((case p of (k, v) \<Rightarrow> delimited rt (write_scalar rt 1 STRING (PScalar (SText k)) @ write_scalar rt 2 t v)) @ r))
      (case p of (k, v) \<Rightarrow> set_entry old k v) r"
    unfolding kv prod.case by (rule map_scalar_read)
qed (simp_all add: case_prod_unfold map_entries_read [OF assms(1), unfolded case_prod_unfold])

lemma slot_reads_map_message:
  assumes "ok_keys kvs" "list_all (is_message \<circ> snd) kvs"
    and "\<And>k v. (k, v) \<in> set kvs \<Longrightarrow> length (write_message rt S n v) < 2 ^ 31 \<Longrightarrow> message_reads S n v"
  shows "slot_reads S (Map_message n) (PMap kvs)"
proof (rule slot_reads_repeat [OF write_map_field [OF assms(2)], where f = "\<lambda>old p. set_entry old (fst p) (snd p)"])
  let ?payload = "\<lambda>p. write_scalar rt 1 STRING (PScalar (SText (fst p))) @ put_tag rt 2 LengthDelimited
      @ delimited rt (write_message rt S n (snd p))"
  fix p old r
  assume p: "p \<in> set kvs" "length (delimited rt (?payload p)) < 2 ^ 31"
  then have len: "length (?payload p) < 2 ^ 31" using length_delimited [of "?payload p" rt] by linarith
  then have "length (write_message rt S n (snd p)) < 2 ^ 31"
    using length_delimited [of "write_message rt S n (snd p)" rt] by simp
  then show "reads (\<lambda>k. read_field k rt S (read_message k rt S) (Map_message n) LengthDelimited old
      (delimited rt (?payload p) @ r)) (set_entry old (fst p) (snd p)) r"
    using map_message_read [OF assms(3) len] p(1) by (cases p) simp
qed (simp add: map_entries_read [OF assms(1), unfolded case_prod_unfold])

section \<open>Whole messages\<close>

lemma slot_reads_value:
  assumes "ok_value v rt S kind"
    and "\<And>u n. size u \<le> size v \<Longrightarrow> ok_message rt S n u \<Longrightarrow> length (write_message rt S n u) < 2 ^ 31 \<Longrightarrow> message_reads S n u"
  shows "slot_reads S kind v"
proof (cases v)
  case PUndef
  then show ?thesis using assms(1) by (intro slot_reads_default) (cases kind; simp)+
next
  case (PScalar x)
  then show ?thesis using assms(1) by (cases kind) (auto intro: slot_reads_scalar)
next
  case (PMessage slots us)
  then obtain n where "kind = Message n" using assms(1) by (cases kind) auto
  then show ?thesis using assms PMessage by (auto intro!: slot_reads_message simp: ok_message_def)
next
  case (PList vs)
  show ?thesis
  proof (cases kind)
    case (Messages n)
    have vs: "list_all is_message vs" "\<And>u. u \<in> set vs \<Longrightarrow> ok_message rt S n u"
      using assms(1) by (auto simp: PList Messages ok_message_def list_all_iff)
    show ?thesis unfolding PList Messages using vs size_in_list
      by (intro slot_reads_messages assms(2)) (auto simp: PList intro: less_imp_le)
  qed (use assms(1) PList in \<open>auto intro: slot_reads_repeated slot_reads_packed\<close>)
next
  case (PMap kvs)
  show ?thesis
  proof (cases kind)
    case (Map_message n)
    have kvs: "ok_keys kvs" "list_all (is_message \<circ> snd) kvs" "\<And>k u. (k, u) \<in> set kvs \<Longrightarrow> ok_message rt S n u"
      using assms(1) by (force simp: PMap Map_message ok_message_def list_all_iff)+
    show ?thesis unfolding PMap Map_message using kvs size_in_map
      by (intro slot_reads_map_message assms(2)) (auto simp: PMap intro: less_imp_le)
  qed (use assms(1) PMap in \<open>auto intro: slot_reads_map_scalar\<close>)
qed

text \<open>The statements of the fields from the \<open>i\<close>th on, read into an object whose slots from the \<open>i\<close>th on have their defaults.\<close>

lemma slots_read:
  assumes "ok_schema fs" "length vs = length fs"
    and "\<And>i. i < length fs \<Longrightarrow> slot_reads S (f_kind (fs ! i)) (vs ! i)"
    and "length (write_slots rt S fs vs) < 2 ^ 31" "stop \<le> int (length r)"
    and "reads (\<lambda>n. read_fields n rt S fs stop vs us r) m cs"
  shows "i \<le> length fs \<Longrightarrow>
    reads (\<lambda>n. read_fields n rt S fs stop (take i vs @ drop i (map (default_slot \<circ> f_kind) fs)) us (write_slots rt S (drop i fs) (drop i vs) @ r)) m cs"
proof (induction "length fs - i" arbitrary: i)
  case 0
  then show ?case using assms(2,6) by (simp add: write_slots_def)
next
  case (Suc k)
  then have i: "i < length fs" by simp
  let ?w = "write_field (vs ! i) rt S (f_no (fs ! i)) (f_kind (fs ! i))"
  let ?rest = "write_slots rt S (drop (Suc i) fs) (drop (Suc i) vs)"
  have split: "write_slots rt S (drop i fs) (drop i vs) = ?w @ ?rest"
    using i assms(2) by (simp add: Cons_nth_drop_Suc [symmetric] write_slots_def)
  have len: "length ?w < 2 ^ 31"
  proof -
    have "(fs ! i, vs ! i) \<in> set (zip fs vs)" using i assms(2) by (auto simp: in_set_zip)
    then have "length ?w \<le> length (write_slots rt S fs vs)"
      using length_in_concat [of "(fs ! i, vs ! i)" "zip fs vs" "\<lambda>(f, v). write_field v rt S (f_no f) (f_kind f)"]
      by (simp add: write_slots_def)
    then show ?thesis using assms(4) by simp
  qed
  let ?slots = "take i vs @ drop i (map (default_slot \<circ> f_kind) fs)"
  have slots: "i < length ?slots" "?slots ! i = default_slot (f_kind (fs ! i))" "?slots[i := vs ! i] = take (Suc i) vs @ drop (Suc i) (map (default_slot \<circ> f_kind) fs)"
    using i assms(2)
    by (simp_all add: nth_append Cons_nth_drop_Suc [symmetric] take_Suc_conv_app_nth list_update_append)
  have "reads (\<lambda>n. read_fields n rt S fs stop (?slots[i := vs ! i]) us (?rest @ r)) m cs"
    unfolding slots(3) using Suc.hyps(1) [of "Suc i"] Suc.hyps(2) i by simp
  moreover have "field_index (f_no (fs ! i)) fs = Some i" "0 < f_no (fs ! i)" "f_no (fs ! i) < 2 ^ 29"
    using assms(1) i field_index_nth by (auto simp: ok_schema_def list_all_length)
  moreover have "stop \<le> int (length (?rest @ r))" using assms(5) by simp
  ultimately show ?case
    unfolding split append_assoc using assms(3) [OF i, unfolded slot_reads_def] slots(1,2) len by blast
qed

lemma unknowns_read:
  assumes "list_all (ok_unknown rt fs) ws" "ws \<noteq> [] \<longrightarrow> keeps_unknown rt"
  shows "reads (\<lambda>n. read_fields n rt S fs (int (length r)) slots us (write_unknowns rt ws @ r)) (PMessage slots (us @ ws)) r"
  using assms
proof (induction ws arbitrary: us)
  case Nil
  have "read_fields (Suc n) rt S fs (int (length r)) slots us r = Some (Inr (PMessage slots us, r))" for n by simp
  then show ?case by (simp add: write_unknowns_def reads_Suc)
next
  case (Cons u ws)
  obtain no w d where u: "u = (no, w, d)" by (cases u)
  have known: "field_index no fs = None" "0 < no" "no < 2 ^ 29" "\<And>r. skip_field rt w (d @ r) = Some (d, r)"
    using Cons.prems(1) field_index_None by (auto simp: u ok_unknown_def)
  have keep: "read_unknown rt = Keep_unknown" "write_unknown rt" using Cons.prems(2) by (simp_all add: keeps_unknown_def)
  have step: "read_fields (Suc n) rt S fs (int (length r)) slots us (write_unknowns rt (u # ws) @ r)
      = read_fields n rt S fs (int (length r)) slots (us @ [u]) (write_unknowns rt ws @ r)" for n
    using tag_longer [of no w "d @ write_unknowns rt ws" r] keep known
    unfolding read_fields_Suc by (simp add: write_unknowns_def u tag_back)
  have "reads (\<lambda>n. read_fields n rt S fs (int (length r)) slots (us @ [u]) (write_unknowns rt ws @ r)) (PMessage slots (us @ u # ws)) r"
    using Cons.IH [of "us @ [u]"] Cons.prems by simp
  then show ?case by (intro reads_Suc [where r = "\<lambda>n. read_fields n rt S fs (int (length r)) slots us (write_unknowns rt (u # ws) @ r)"])
      (simp only: step)
qed

lemma message_read_back:
  assumes "\<And>n. class_agrees (S n)" "ok_message rt S n v" "length (write_message rt S n v) < 2 ^ 31"
  shows "message_reads S n v"
  using assms(2,3)
proof (induction v arbitrary: n rule: measure_induct_rule [of size])
  case (less v)
  then obtain slots us where v: "v = PMessage slots us" by (cases v) (auto simp: ok_message_def)
  have ok: "length slots = length (c_reads (S n))" "list_all2 (\<lambda>f ok. ok rt S (f_kind f)) (c_reads (S n)) (map ok_value slots)"
      "list_all (ok_unknown rt (c_reads (S n))) us" "us \<noteq> [] \<longrightarrow> keeps_unknown rt"
    using less.prems(1) by (simp_all add: v ok_message_def)
  have wm: "write_message rt S n v = write_slots rt S (c_reads (S n)) slots @ write_unknowns rt us" by (simp add: write_message_def v agreed_writes [OF assms(1)])
  have "slot_reads S (f_kind (c_reads (S n) ! i)) (slots ! i)" if i: "i < length (c_reads (S n))" for i
  proof (rule slot_reads_value)
    show "ok_value (slots ! i) rt S (f_kind (c_reads (S n) ! i))" using ok(1,2) i by (simp add: list_all2_conv_all_nth)
    have "size (slots ! i) < size v" using size_in_message [of "slots ! i" slots us] i ok(1) by (simp add: v)
    then show "message_reads S n' u" if "size u \<le> size (slots ! i)" "ok_message rt S n' u" "length (write_message rt S n' u) < 2 ^ 31" for u n'
      using less.IH that by auto
  qed
  then have "reads (\<lambda>k. read_fields k rt S (c_reads (S n)) (int (length r)) (create (S n)) [] (write_slots rt S (c_reads (S n)) slots @ write_unknowns rt us @ r)) v r" for r
    using slots_read [where i = 0 and fs = "c_reads (S n)" and vs = slots and S = S and us = "[]" and r = "write_unknowns rt us @ r" and stop = "int (length r)"]
      agreed_schema [OF assms(1)] ok unknowns_read [OF ok(3,4), of S r slots "[]"] less.prems(2) [unfolded wm]
    by (simp add: v agreed_create [OF assms(1)])
  then show ?case by (simp add: message_reads_def read_message_def target_of_def wm)
qed

lemma binary_back:
  assumes "\<And>n. class_agrees (S n)" "ok_message rt S n v" "length (to_binary rt S n v) < 2 ^ 31"
  shows "reads (\<lambda>fuel. from_binary fuel rt S n (to_binary rt S n v)) v []"
  using message_read_back [OF assms(1,2)] assms(3)
  unfolding message_reads_def from_binary_def to_binary_def by (metis append_Nil2 list.size(3) of_nat_0)

end

section \<open>Interfaces\<close>

text \<open>The TypeScript interface of a message: its properties, whether they may be absent, and their types.\<close>

datatype ts_type = TString | TNumber | TBigint | TBoolean | TBytes | TRef string | TArray ts_type | TRecord ts_type

record property =
  p_name :: string
  p_optional :: bool
  p_type :: ts_type

abbreviation key :: "string \<Rightarrow> bool \<Rightarrow> ts_type \<Rightarrow> property" where
  "key name opt ty \<equiv> \<lparr>p_name = name, p_optional = opt, p_type = ty\<rparr>"

type_synonym interfaces = "string \<Rightarrow> property list"

fun scalar_ts :: "scalar_type \<Rightarrow> ts_type" where
  "scalar_ts STRING = TString"
| "scalar_ts BYTES = TBytes"
| "scalar_ts BOOL = TBoolean"
| "scalar_ts INT64 = TBigint"
| "scalar_ts UINT64 = TBigint"
| "scalar_ts _ = TNumber"

fun field_ts :: "field_kind \<Rightarrow> bool \<times> ts_type" where
  "field_ts (Implicit t) = (False, scalar_ts t)"
| "field_ts (Optional t) = (True, scalar_ts t)"
| "field_ts (Repeated t) = (False, TArray (scalar_ts t))"
| "field_ts (Packed t) = (False, TArray (scalar_ts t))"
| "field_ts (Message n) = (True, TRef n)"
| "field_ts (Messages n) = (False, TArray (TRef n))"
| "field_ts (Map_scalar t) = (False, TRecord (scalar_ts t))"
| "field_ts (Map_message n) = (False, TRecord (TRef n))"

fun scalar_has :: "ts_type \<Rightarrow> scalar \<Rightarrow> bool" where
  "scalar_has TString (SText _) = True"
| "scalar_has TBytes (SBytes _) = True"
| "scalar_has TBoolean (SBool _) = True"
| "scalar_has TBigint (SBig _) = True"
| "scalar_has TNumber (SInt _) = True"
| "scalar_has TNumber (SNum _) = True"
| "scalar_has _ _ = False"

primrec has_type :: "pvalue \<Rightarrow> interfaces \<Rightarrow> bool \<Rightarrow> ts_type \<Rightarrow> bool" where
  "has_type PUndef I opt ty = opt"
| "has_type (PScalar x) I opt ty = scalar_has ty x"
| "has_type (PMessage slots us) I opt ty =
     (case ty of
        TRef n \<Rightarrow> list_all2 (\<lambda>p typed. typed I (p_optional p) (p_type p)) (I n) (map has_type slots)
      | _ \<Rightarrow> False)"
| "has_type (PList vs) I opt ty = (case ty of TArray t \<Rightarrow> list_all (\<lambda>typed. typed I False t) (map has_type vs) | _ \<Rightarrow> False)"
| "has_type (PMap kvs) I opt ty =
     (case ty of TRecord t \<Rightarrow> list_all (\<lambda>(k, typed). typed I False t) (map (map_prod id has_type) kvs) | _ \<Rightarrow> False)"

definition interface_agrees :: "message_class \<Rightarrow> property list \<Rightarrow> bool" where
  "interface_agrees c ps \<longleftrightarrow>
     ps = map (\<lambda>f. \<lparr>p_name = f_name f, p_optional = fst (field_ts (f_kind f)), p_type = snd (field_ts (f_kind f))\<rparr>) (c_reads c)"

lemmas agreement = class_agrees_def interface_agrees_def same_name_def capitals capital_digit

abbreviation kind_has :: "interfaces \<Rightarrow> field_kind \<Rightarrow> pvalue \<Rightarrow> bool" where
  "kind_has I kind v \<equiv> has_type v I (fst (field_ts kind)) (snd (field_ts kind))"

lemma has_type_absent: "has_type v I False ty \<Longrightarrow> has_type v I opt ty"
  by (cases v) auto

lemma message_present: "has_type (PMessage slots us) I opt ty \<Longrightarrow> has_type (PMessage slots us) I opt' ty"
  by simp

lemma message_present_us: "has_type (PMessage slots us) I opt ty \<Longrightarrow> has_type (PMessage slots us') I opt ty"
  by simp

lemma default_typed: "kind_has I kind (default_slot kind)"
proof (cases kind)
  case (Implicit t)
  then show ?thesis by (cases t) auto
qed auto

lemma message_typed:
  assumes "interface_agrees (S n) (I n)"
  shows "has_type (PMessage slots us) I opt (TRef n) \<longleftrightarrow> list_all2 (\<lambda>f v. kind_has I (f_kind f) v) (c_reads (S n)) slots"
proof -
  have ps: "I n = map (\<lambda>f. \<lparr>p_name = f_name f, p_optional = fst (field_ts (f_kind f)), p_type = snd (field_ts (f_kind f))\<rparr>) (c_reads (S n))"
    using assms by (simp add: interface_agrees_def)
  have "has_type (PMessage slots us) I opt (TRef n)
      = list_all2 (\<lambda>p typed. typed I (p_optional p) (p_type p)) (I n) (map has_type slots)" by simp
  then show ?thesis by (simp add: ps list_all2_conv_all_nth) (metis nth_map)
qed

lemma push_typed: "has_type old I False (TArray t) \<Longrightarrow> has_type v I False t \<Longrightarrow> has_type (push old v) I False (TArray t)"
  by (cases old) auto

lemma obj_set_subset: "p \<in> set (obj_set k v kvs) \<Longrightarrow> p = (k, v) \<or> p \<in> set kvs"
  by (auto simp: obj_set_def map_set_def split: if_splits)

lemma set_entry_typed:
  assumes "has_type old I False (TRecord t)" "has_type v I False t"
  shows "has_type (set_entry old k v) I False (TRecord t)"
proof (cases old)
  case (PMap kvs)
  then show ?thesis using assms obj_set_subset [of _ k v kvs] by (fastforce simp: set_entry_def list_all_iff)
qed (use assms in auto)

text \<open>Whatever a reader returns, if it returns.\<close>

definition ensures :: "('a \<Rightarrow> bool) \<Rightarrow> 'a read \<Rightarrow> bool" where
  "ensures P r \<longleftrightarrow> (\<forall>v bs. r = Some (Inr (v, bs)) \<longrightarrow> P v)"

lemma ensures_simps [simp]: "ensures P (Some (Inr (v, bs))) = P v" "ensures P (Some (Inl e))" "ensures P None"
  by (simp_all add: ensures_def)

lemma ensures_bind: "ensures Q r \<Longrightarrow> (\<And>v bs. Q v \<Longrightarrow> ensures P (f v bs)) \<Longrightarrow> ensures P (then_read r f)"
  unfolding ensures_def then_read_def by (auto split: option.splits sum.splits) blast

lemma ensures_any: "(\<And>v bs. ensures P (f v bs)) \<Longrightarrow> ensures P (then_read r f)"
  by (rule ensures_bind [where Q = "\<lambda>_. True"]) (simp_all add: ensures_def)

lemma entry_stored:
  assumes "ensures (\<lambda>p. has_type (snd p) I False t) r" "has_type old I False (TRecord t)"
  shows "ensures (\<lambda>v. has_type v I False (TRecord t)) (then_read r (\<lambda>(k, v) rest. Some (Inr (set_entry old k v, rest))))"
  by (rule ensures_bind [OF assms(1)]) (use assms(2) in \<open>auto intro: set_entry_typed\<close>)

text \<open>The reader of the library returns texts for texts, numbers for numbers, and so on.\<close>

locale typed_runtime =
  fixes rt :: runtime and S :: schemas and I :: interfaces
  assumes scalar_typed: "get_scalar rt t bs = Some (x, r) \<Longrightarrow> scalar_has (scalar_ts t) x"
    and agrees: "class_agrees (S n)" "interface_agrees (S n) (I n)"
begin

lemma scalar_ensures: "ensures (scalar_has (scalar_ts t)) (taken (get_scalar rt t bs))"
  using scalar_typed by (auto simp: ensures_def taken_def split: option.splits)

lemma typed_iff: "has_type (PMessage slots us) I opt (TRef n) \<longleftrightarrow> list_all2 (\<lambda>f v. kind_has I (f_kind f) v) (c_reads (S n)) slots"
  by (rule message_typed [OF agrees(2)])

lemma create_typed: "has_type (PMessage (create (S n)) us) I opt (TRef n)"
  by (simp add: typed_iff agreed_create [OF agrees(1)] list_all2_conv_all_nth default_typed del: has_type.simps)

lemma packed_typed:
  "has_type old I False (TArray (scalar_ts t)) \<Longrightarrow>
     ensures (\<lambda>v. has_type v I False (TArray (scalar_ts t))) (read_packed n rt t stop old bs)"
proof (induction n arbitrary: old bs)
  case (Suc n)
  then show ?case
    by (auto intro!: ensures_bind [OF scalar_ensures] Suc.IH push_typed)
qed simp

definition sub_typed :: "sub_read \<Rightarrow> bool" where
  "sub_typed sub \<longleftrightarrow> (\<forall>m old stop bs. has_type old I True (TRef m) \<longrightarrow> ensures (\<lambda>v. has_type v I False (TRef m)) (sub m old stop bs))"

lemma read_sub_typed:
  "sub_typed sub \<Longrightarrow> has_type old I True (TRef m) \<Longrightarrow> ensures (\<lambda>v. has_type v I False (TRef m)) (read_sub rt sub m old bs)"
  unfolding read_sub_def sub_typed_def by (rule ensures_any) blast

definition entry_ts :: "field_kind \<Rightarrow> ts_type" where
  "entry_ts kind = (case kind of Map_message m \<Rightarrow> TRef m | Map_scalar t \<Rightarrow> scalar_ts t | _ \<Rightarrow> TString)"

lemma entry_typed:
  assumes "sub_typed sub" "kind = Map_scalar t \<or> kind = Map_message m"
  shows "(\<forall>x. v = Some x \<longrightarrow> has_type x I False (entry_ts kind)) \<Longrightarrow>
     ensures (\<lambda>p. has_type (snd p) I False (entry_ts kind)) (read_entry n rt S sub kind stop k v bs)"
proof (induction n arbitrary: k v bs)
  case (Suc n)
  have empty: "has_type (empty_value S kind) I False (entry_ts kind)"
    using assms(2) create_typed default_typed [of "Implicit t" I] by (auto simp: empty_value_def entry_ts_def)
  have val: "ensures (\<lambda>x. has_type x I False (entry_ts kind)) (case kind of
               Map_message m \<Rightarrow> read_sub rt sub m PUndef bs1
             | Map_scalar t \<Rightarrow> then_read (taken (get_scalar rt t bs1)) (\<lambda>x rest. Some (Inr (PScalar x, rest)))
             | _ \<Rightarrow> Some (Inl TypeError))" for bs1
    using assms read_sub_typed [OF assms(1), of PUndef] by (auto simp: entry_ts_def intro!: ensures_bind [OF scalar_ensures])
  show ?case
    unfolding read_entry.simps(2)
    using Suc.prems empty
    by (auto intro!: ensures_any ensures_bind [OF val] Suc.IH simp del: read_entry.simps split: option.splits)
qed simp

lemma read_field_typed:
  assumes "sub_typed sub" "kind_has I kind old"
  shows "ensures (kind_has I kind) (read_field n rt S sub kind w old bs)"
proof (cases kind)
  case (Packed t)
  then show ?thesis using assms packed_typed
    by (auto simp: read_field_def intro!: ensures_any ensures_bind [OF scalar_ensures] push_typed)
next
  case (Message m)
  then show ?thesis using read_sub_typed [OF assms(1), of old m bs] assms(2)
    by (auto simp: read_field_def ensures_def intro: has_type_absent)
next
  case (Messages m)
  then show ?thesis using read_sub_typed [OF assms(1), of PUndef m] assms(2)
    by (auto simp: read_field_def intro!: ensures_bind [where Q = "\<lambda>v. has_type v I False (TRef m)"] push_typed)
next
  case (Map_scalar t)
  have "ensures (\<lambda>p. has_type (snd p) I False (scalar_ts t)) (read_entry n rt S sub kind stop None None bs)" for stop bs
    using entry_typed [OF assms(1), of kind _ _ None] Map_scalar by (simp add: entry_ts_def)
  then have "ensures (\<lambda>v. has_type v I False (TRecord (scalar_ts t))) (then_read (read_entry n rt S sub kind stop None None bs)
      (\<lambda>(k, v) rest1. Some (Inr (set_entry old k v, rest1))))" for stop bs
    using assms(2) by (intro entry_stored) (simp_all add: Map_scalar)
  then show ?thesis unfolding read_field_def by (auto simp: Map_scalar intro: ensures_any)
next
  case (Map_message m)
  have "ensures (\<lambda>p. has_type (snd p) I False (TRef m)) (read_entry n rt S sub kind stop None None bs)" for stop bs
    using entry_typed [OF assms(1), of kind _ _ None] Map_message by (simp add: entry_ts_def)
  then have "ensures (\<lambda>v. has_type v I False (TRecord (TRef m))) (then_read (read_entry n rt S sub kind stop None None bs)
      (\<lambda>(k, v) rest1. Some (Inr (set_entry old k v, rest1))))" for stop bs
    using assms(2) by (intro entry_stored) (simp_all add: Map_message)
  then show ?thesis unfolding read_field_def by (auto simp: Map_message intro: ensures_any)
qed (use assms(2) in \<open>auto simp: read_field_def intro!: ensures_bind [OF scalar_ensures] push_typed\<close>)

lemma read_fields_typed:
  "has_type (PMessage slots us) I False (TRef m) \<Longrightarrow>
     ensures (\<lambda>v. has_type v I False (TRef m)) (read_fields n rt S (c_reads (S m)) stop slots us bs)"
proof (induction n arbitrary: m slots us stop bs)
  case (Suc n)
  have sub: "sub_typed (read_message n rt S)"
    unfolding sub_typed_def
  proof (intro allI impI)
    fix m old stop bs assume old: "has_type old I True (TRef m)"
    have "has_type (PMessage (fst (target_of (S m) old)) (snd (target_of (S m) old))) I False (TRef m)"
      using old create_typed by (cases old) (auto simp: target_of_def simp del: has_type.simps(3) intro: message_present)
    then show "ensures (\<lambda>v. has_type v I False (TRef m)) (read_message n rt S m old stop bs)"
      using Suc.IH by (simp add: read_message_def case_prod_unfold)
  qed
  have step: "ensures (\<lambda>v. has_type v I False (TRef m))
      (then_read (read_field n rt S (read_message n rt S) (f_kind (c_reads (S m) ! i)) w (slots ! i) bs1)
         (\<lambda>v bs2. read_fields n rt S (c_reads (S m)) stop (slots[i := v]) us bs2))"
    if "field_index no (c_reads (S m)) = Some i" for no i w bs1
  proof -
    have i: "i < length (c_reads (S m))" using field_index_Some [OF that] by simp
    have slots: "list_all2 (\<lambda>f v. kind_has I (f_kind f) v) (c_reads (S m)) slots"
      using Suc.prems typed_iff by blast
    then have "kind_has I (f_kind (c_reads (S m) ! i)) (slots ! i)" using i by (simp add: list_all2_conv_all_nth)
    from read_field_typed [OF sub this] show ?thesis
    proof (rule ensures_bind)
      fix v bs2 assume "kind_has I (f_kind (c_reads (S m) ! i)) v"
      then have "list_all2 (\<lambda>f v. kind_has I (f_kind f) v) (c_reads (S m)) (slots[i := v])"
        using slots i by (auto simp: list_all2_conv_all_nth nth_list_update)
      then show "ensures (\<lambda>v. has_type v I False (TRef m)) (read_fields n rt S (c_reads (S m)) stop (slots[i := v]) us bs2)"
        using typed_iff by (intro Suc.IH) blast
    qed
  qed
  have others: "has_type (PMessage slots us') I False (TRef m)" for us'
    using Suc.prems by (rule message_present_us)
  show ?case
    unfolding read_fields_Suc
    using others Suc.IH [OF others] step
    by (auto simp del: has_type.simps intro!: ensures_any split: option.splits)
qed simp

lemma message_typed_back: "ensures (\<lambda>v. has_type v I False (TRef n)) (from_binary fuel rt S n bs)"
  using read_fields_typed [OF create_typed] by (simp add: from_binary_def read_message_def target_of_def)

end

end
