(* ===== verification/ApiMessages.thy ===== *)
theory ApiMessages
  imports Protobuf
begin

text \<open>
  The messages of the API service (\<open>src/web/gen/api.ts\<close>). For each message its interface and its class: what the constructor
  declares, what \<open>create\<close> assigns, the cases of \<open>internalBinaryRead\<close> and the statements of \<open>internalBinaryWrite\<close>, in the
  order of the file.
\<close>

definition api_Empty_interface :: "property list" where
  "api_Empty_interface = []"

definition api_Empty :: message_class where
  "api_Empty = \<lparr>
    c_fields = [],
    c_create = [],
    c_reads = [],
    c_writes = []\<rparr>"

definition api_StdResponse_interface :: "property list" where
  "api_StdResponse_interface = [
      key ''message'' False TString, key ''errorCode'' False TNumber]"

definition api_StdResponse :: message_class where
  "api_StdResponse = \<lparr>
    c_fields = [
      fld 1 ''message'' (Implicit STRING), fld 2 ''error_code'' (Implicit INT32)],
    c_create = [
      (''message'', PScalar (SText [])), (''errorCode'', PScalar (SInt 0))],
    c_reads = [
      fld 1 ''message'' (Implicit STRING), fld 2 ''errorCode'' (Implicit INT32)],
    c_writes = [
      fld 1 ''message'' (Implicit STRING), fld 2 ''errorCode'' (Implicit INT32)]\<rparr>"

definition api_LimitOffsetRequest_interface :: "property list" where
  "api_LimitOffsetRequest_interface = [
      key ''limit'' False TNumber, key ''offset'' False TNumber]"

definition api_LimitOffsetRequest :: message_class where
  "api_LimitOffsetRequest = \<lparr>
    c_fields = [
      fld 1 ''limit'' (Implicit INT32), fld 2 ''offset'' (Implicit INT32)],
    c_create = [
      (''limit'', PScalar (SInt 0)), (''offset'', PScalar (SInt 0))],
    c_reads = [
      fld 1 ''limit'' (Implicit INT32), fld 2 ''offset'' (Implicit INT32)],
    c_writes = [
      fld 1 ''limit'' (Implicit INT32), fld 2 ''offset'' (Implicit INT32)]\<rparr>"

definition api_PaginationRes_interface :: "property list" where
  "api_PaginationRes_interface = [
      key ''limit'' False TNumber, key ''offset'' False TNumber, key ''total'' False TBigint,
      key ''hasMore'' False TBoolean, key ''nextOffset'' False TNumber]"

definition api_PaginationRes :: message_class where
  "api_PaginationRes = \<lparr>
    c_fields = [
      fld 1 ''limit'' (Implicit INT32), fld 2 ''offset'' (Implicit INT32), fld 3 ''total'' (Implicit INT64),
      fld 4 ''has_more'' (Implicit BOOL), fld 5 ''next_offset'' (Implicit INT32)],
    c_create = [
      (''limit'', PScalar (SInt 0)), (''offset'', PScalar (SInt 0)), (''total'', PScalar (SBig 0)),
      (''hasMore'', PScalar (SBool False)), (''nextOffset'', PScalar (SInt 0))],
    c_reads = [
      fld 1 ''limit'' (Implicit INT32), fld 2 ''offset'' (Implicit INT32), fld 3 ''total'' (Implicit INT64),
      fld 4 ''hasMore'' (Implicit BOOL), fld 5 ''nextOffset'' (Implicit INT32)],
    c_writes = [
      fld 1 ''limit'' (Implicit INT32), fld 2 ''offset'' (Implicit INT32), fld 3 ''total'' (Implicit INT64),
      fld 4 ''hasMore'' (Implicit BOOL), fld 5 ''nextOffset'' (Implicit INT32)]\<rparr>"

definition api_MarketIdRequest_interface :: "property list" where
  "api_MarketIdRequest_interface = [
      key ''marketId'' False TString, key ''lang'' True TString]"

definition api_MarketIdRequest :: message_class where
  "api_MarketIdRequest = \<lparr>
    c_fields = [
      fld 1 ''market_id'' (Implicit STRING), fld 2 ''lang'' (Optional STRING)],
    c_create = [
      (''marketId'', PScalar (SText []))],
    c_reads = [
      fld 1 ''marketId'' (Implicit STRING), fld 2 ''lang'' (Optional STRING)],
    c_writes = [
      fld 1 ''marketId'' (Implicit STRING), fld 2 ''lang'' (Optional STRING)]\<rparr>"

definition api_TxIdRequest_interface :: "property list" where
  "api_TxIdRequest_interface = [
      key ''txId'' False TString]"

definition api_TxIdRequest :: message_class where
  "api_TxIdRequest = \<lparr>
    c_fields = [
      fld 1 ''tx_id'' (Implicit STRING)],
    c_create = [
      (''txId'', PScalar (SText []))],
    c_reads = [
      fld 1 ''txId'' (Implicit STRING)],
    c_writes = [
      fld 1 ''txId'' (Implicit STRING)]\<rparr>"

definition api_AccountIdRequest_interface :: "property list" where
  "api_AccountIdRequest_interface = [
      key ''accountId'' False TString, key ''net'' False TString]"

definition api_AccountIdRequest :: message_class where
  "api_AccountIdRequest = \<lparr>
    c_fields = [
      fld 1 ''account_id'' (Implicit STRING), fld 2 ''net'' (Implicit STRING)],
    c_create = [
      (''accountId'', PScalar (SText [])), (''net'', PScalar (SText []))],
    c_reads = [
      fld 1 ''accountId'' (Implicit STRING), fld 2 ''net'' (Implicit STRING)],
    c_writes = [
      fld 1 ''accountId'' (Implicit STRING), fld 2 ''net'' (Implicit STRING)]\<rparr>"

definition api_PrismPredictionIntentRequest_interface :: "property list" where
  "api_PrismPredictionIntentRequest_interface = [
      key ''txId'' False TString, key ''net'' False TString, key ''marketId'' False TString,
      key ''accountId'' False TString, key ''sig'' False TString, key ''publicKey'' False TString,
      key ''evmAddress'' False TString, key ''keyType'' False TNumber, key ''chainId'' False TBigint,
      key ''verifyingContract'' False TString, key ''side'' False TNumber, key ''action'' False TNumber,
      key ''limitYesPrice'' False TBigint, key ''qtyShares'' False TBigint, key ''collateralCap'' False TBigint,
      key ''deadline'' False TBigint]"

definition api_PrismPredictionIntentRequest :: message_class where
  "api_PrismPredictionIntentRequest = \<lparr>
    c_fields = [
      fld 1 ''tx_id'' (Implicit STRING), fld 2 ''net'' (Implicit STRING), fld 3 ''market_id'' (Implicit STRING),
      fld 5 ''account_id'' (Implicit STRING), fld 8 ''sig'' (Implicit STRING), fld 9 ''public_key'' (Implicit STRING),
      fld 10 ''evm_address'' (Implicit STRING), fld 11 ''key_type'' (Implicit UINT32),
      fld 13 ''chain_id'' (Implicit UINT64), fld 14 ''verifying_contract'' (Implicit STRING),
      fld 15 ''side'' (Implicit UINT32), fld 16 ''action'' (Implicit UINT32),
      fld 17 ''limit_yes_price'' (Implicit UINT64), fld 18 ''qty_shares'' (Implicit UINT64),
      fld 19 ''collateral_cap'' (Implicit UINT64), fld 20 ''deadline'' (Implicit UINT64)],
    c_create = [
      (''txId'', PScalar (SText [])), (''net'', PScalar (SText [])), (''marketId'', PScalar (SText [])),
      (''accountId'', PScalar (SText [])), (''sig'', PScalar (SText [])), (''publicKey'', PScalar (SText [])),
      (''evmAddress'', PScalar (SText [])), (''keyType'', PScalar (SInt 0)), (''chainId'', PScalar (SBig 0)),
      (''verifyingContract'', PScalar (SText [])), (''side'', PScalar (SInt 0)), (''action'', PScalar (SInt 0)),
      (''limitYesPrice'', PScalar (SBig 0)), (''qtyShares'', PScalar (SBig 0)), (''collateralCap'', PScalar (SBig 0)),
      (''deadline'', PScalar (SBig 0))],
    c_reads = [
      fld 1 ''txId'' (Implicit STRING), fld 2 ''net'' (Implicit STRING), fld 3 ''marketId'' (Implicit STRING),
      fld 5 ''accountId'' (Implicit STRING), fld 8 ''sig'' (Implicit STRING), fld 9 ''publicKey'' (Implicit STRING),
      fld 10 ''evmAddress'' (Implicit STRING), fld 11 ''keyType'' (Implicit UINT32),
      fld 13 ''chainId'' (Implicit UINT64), fld 14 ''verifyingContract'' (Implicit STRING),
      fld 15 ''side'' (Implicit UINT32), fld 16 ''action'' (Implicit UINT32),
      fld 17 ''limitYesPrice'' (Implicit UINT64), fld 18 ''qtyShares'' (Implicit UINT64),
      fld 19 ''collateralCap'' (Implicit UINT64), fld 20 ''deadline'' (Implicit UINT64)],
    c_writes = [
      fld 1 ''txId'' (Implicit STRING), fld 2 ''net'' (Implicit STRING), fld 3 ''marketId'' (Implicit STRING),
      fld 5 ''accountId'' (Implicit STRING), fld 8 ''sig'' (Implicit STRING), fld 9 ''publicKey'' (Implicit STRING),
      fld 10 ''evmAddress'' (Implicit STRING), fld 11 ''keyType'' (Implicit UINT32),
      fld 13 ''chainId'' (Implicit UINT64), fld 14 ''verifyingContract'' (Implicit STRING),
      fld 15 ''side'' (Implicit UINT32), fld 16 ''action'' (Implicit UINT32),
      fld 17 ''limitYesPrice'' (Implicit UINT64), fld 18 ''qtyShares'' (Implicit UINT64),
      fld 19 ''collateralCap'' (Implicit UINT64), fld 20 ''deadline'' (Implicit UINT64)]\<rparr>"

definition api_Category_interface :: "property list" where
  "api_Category_interface = [
      key ''id'' False TNumber, key ''name'' False TString]"

definition api_Category :: message_class where
  "api_Category = \<lparr>
    c_fields = [
      fld 1 ''id'' (Implicit INT32), fld 2 ''name'' (Implicit STRING)],
    c_create = [
      (''id'', PScalar (SInt 0)), (''name'', PScalar (SText []))],
    c_reads = [
      fld 1 ''id'' (Implicit INT32), fld 2 ''name'' (Implicit STRING)],
    c_writes = [
      fld 1 ''id'' (Implicit INT32), fld 2 ''name'' (Implicit STRING)]\<rparr>"

definition api_UnixDateRange_interface :: "property list" where
  "api_UnixDateRange_interface = [
      key ''start'' False TNumber, key ''end'' False TNumber]"

definition api_UnixDateRange :: message_class where
  "api_UnixDateRange = \<lparr>
    c_fields = [
      fld 1 ''start'' (Implicit INT32), fld 2 ''end'' (Implicit INT32)],
    c_create = [
      (''start'', PScalar (SInt 0)), (''end'', PScalar (SInt 0))],
    c_reads = [
      fld 1 ''start'' (Implicit INT32), fld 2 ''end'' (Implicit INT32)],
    c_writes = [
      fld 1 ''start'' (Implicit INT32), fld 2 ''end'' (Implicit INT32)]\<rparr>"

definition api_MacroMetadataResponse_interface :: "property list" where
  "api_MacroMetadataResponse_interface = [
      key ''availableNetworks'' False (TArray TString), key ''availableNetworksAdmin'' False (TArray TString),
      key ''smartContractIds'' False (TRecord TString), key ''usdcTokenIds'' False (TRecord TString),
      key ''usdcDecimals'' False TNumber, key ''marketCreationFeeScaledUsdc'' False TBigint,
      key ''nMarkets'' False TNumber, key ''tokenIds'' False (TRecord TString), key ''minOrderSizeUsd'' False TNumber,
      key ''tvPendingUsd'' False TNumber, key ''tvMatchedUsd'' False TNumber, key ''tvlUsd'' False TNumber,
      key ''totalVolumeUsd'' False (TRecord TNumber), key ''activeTraders'' False TNumber,
      key ''categories'' False (TArray (TRef ''Category'')),
      key ''sigSchemeDateRanges'' False (TArray (TRef ''UnixDateRange'')),
      key ''prismV2ProxyAddresses'' False (TRecord TString), key ''chainIds'' False (TRecord TBigint)]"

definition api_MacroMetadataResponse :: message_class where
  "api_MacroMetadataResponse = \<lparr>
    c_fields = [
      fld 1 ''available_networks'' (Repeated STRING), fld 2 ''available_networks_admin'' (Repeated STRING),
      fld 3 ''smart_contract_ids'' (Map_scalar STRING), fld 4 ''usdc_token_ids'' (Map_scalar STRING),
      fld 5 ''usdc_decimals'' (Implicit UINT32), fld 6 ''market_creation_fee_scaled_usdc'' (Implicit UINT64),
      fld 7 ''n_markets'' (Implicit UINT32), fld 8 ''token_ids'' (Map_scalar STRING),
      fld 9 ''min_order_size_usd'' (Implicit DOUBLE), fld 10 ''tv_pending_usd'' (Implicit DOUBLE),
      fld 11 ''tv_matched_usd'' (Implicit DOUBLE), fld 12 ''tvl_usd'' (Implicit DOUBLE),
      fld 13 ''total_volume_usd'' (Map_scalar DOUBLE), fld 14 ''active_traders'' (Implicit UINT32),
      fld 15 ''categories'' (Messages ''Category''), fld 16 ''sig_scheme_date_ranges'' (Messages ''UnixDateRange''),
      fld 17 ''prism_v2_proxy_addresses'' (Map_scalar STRING), fld 18 ''chain_ids'' (Map_scalar UINT64)],
    c_create = [
      (''availableNetworks'', PList []), (''availableNetworksAdmin'', PList []), (''smartContractIds'', PMap []),
      (''usdcTokenIds'', PMap []), (''usdcDecimals'', PScalar (SInt 0)),
      (''marketCreationFeeScaledUsdc'', PScalar (SBig 0)), (''nMarkets'', PScalar (SInt 0)), (''tokenIds'', PMap []),
      (''minOrderSizeUsd'', PScalar (SNum (JNum 0))), (''tvPendingUsd'', PScalar (SNum (JNum 0))),
      (''tvMatchedUsd'', PScalar (SNum (JNum 0))), (''tvlUsd'', PScalar (SNum (JNum 0))),
      (''totalVolumeUsd'', PMap []), (''activeTraders'', PScalar (SInt 0)), (''categories'', PList []),
      (''sigSchemeDateRanges'', PList []), (''prismV2ProxyAddresses'', PMap []), (''chainIds'', PMap [])],
    c_reads = [
      fld 1 ''availableNetworks'' (Repeated STRING), fld 2 ''availableNetworksAdmin'' (Repeated STRING),
      fld 3 ''smartContractIds'' (Map_scalar STRING), fld 4 ''usdcTokenIds'' (Map_scalar STRING),
      fld 5 ''usdcDecimals'' (Implicit UINT32), fld 6 ''marketCreationFeeScaledUsdc'' (Implicit UINT64),
      fld 7 ''nMarkets'' (Implicit UINT32), fld 8 ''tokenIds'' (Map_scalar STRING),
      fld 9 ''minOrderSizeUsd'' (Implicit DOUBLE), fld 10 ''tvPendingUsd'' (Implicit DOUBLE),
      fld 11 ''tvMatchedUsd'' (Implicit DOUBLE), fld 12 ''tvlUsd'' (Implicit DOUBLE),
      fld 13 ''totalVolumeUsd'' (Map_scalar DOUBLE), fld 14 ''activeTraders'' (Implicit UINT32),
      fld 15 ''categories'' (Messages ''Category''), fld 16 ''sigSchemeDateRanges'' (Messages ''UnixDateRange''),
      fld 17 ''prismV2ProxyAddresses'' (Map_scalar STRING), fld 18 ''chainIds'' (Map_scalar UINT64)],
    c_writes = [
      fld 1 ''availableNetworks'' (Repeated STRING), fld 2 ''availableNetworksAdmin'' (Repeated STRING),
      fld 3 ''smartContractIds'' (Map_scalar STRING), fld 4 ''usdcTokenIds'' (Map_scalar STRING),
      fld 5 ''usdcDecimals'' (Implicit UINT32), fld 6 ''marketCreationFeeScaledUsdc'' (Implicit UINT64),
      fld 7 ''nMarkets'' (Implicit UINT32), fld 8 ''tokenIds'' (Map_scalar STRING),
      fld 9 ''minOrderSizeUsd'' (Implicit DOUBLE), fld 10 ''tvPendingUsd'' (Implicit DOUBLE),
      fld 11 ''tvMatchedUsd'' (Implicit DOUBLE), fld 12 ''tvlUsd'' (Implicit DOUBLE),
      fld 13 ''totalVolumeUsd'' (Map_scalar DOUBLE), fld 14 ''activeTraders'' (Implicit UINT32),
      fld 15 ''categories'' (Messages ''Category''), fld 16 ''sigSchemeDateRanges'' (Messages ''UnixDateRange''),
      fld 17 ''prismV2ProxyAddresses'' (Map_scalar STRING), fld 18 ''chainIds'' (Map_scalar UINT64)]\<rparr>"

definition api_NewsLetterRequest_interface :: "property list" where
  "api_NewsLetterRequest_interface = [
      key ''email'' False TString]"

definition api_NewsLetterRequest :: message_class where
  "api_NewsLetterRequest = \<lparr>
    c_fields = [
      fld 1 ''email'' (Implicit STRING)],
    c_create = [
      (''email'', PScalar (SText []))],
    c_reads = [
      fld 1 ''email'' (Implicit STRING)],
    c_writes = [
      fld 1 ''email'' (Implicit STRING)]\<rparr>"

definition api_UserPortfolioRequest_interface :: "property list" where
  "api_UserPortfolioRequest_interface = [
      key ''evmAddress'' False TString, key ''net'' False TString, key ''marketId'' True TString]"

definition api_UserPortfolioRequest :: message_class where
  "api_UserPortfolioRequest = \<lparr>
    c_fields = [
      fld 1 ''evm_address'' (Implicit STRING), fld 2 ''net'' (Implicit STRING), fld 3 ''market_id'' (Optional STRING)],
    c_create = [
      (''evmAddress'', PScalar (SText [])), (''net'', PScalar (SText []))],
    c_reads = [
      fld 1 ''evmAddress'' (Implicit STRING), fld 2 ''net'' (Implicit STRING), fld 3 ''marketId'' (Optional STRING)],
    c_writes = [
      fld 1 ''evmAddress'' (Implicit STRING), fld 2 ''net'' (Implicit STRING), fld 3 ''marketId'' (Optional STRING)]\<rparr>"

definition api_PredictionIntentResponse_interface :: "property list" where
  "api_PredictionIntentResponse_interface = [
      key ''txId'' False TString, key ''net'' False TString, key ''marketId'' False TString,
      key ''generatedAt'' False TString, key ''accountId'' False TString, key ''side'' False TNumber,
      key ''action'' False TNumber, key ''limitYesPrice'' False TBigint, key ''qtyShares'' False TBigint,
      key ''collateralCap'' False TBigint, key ''deadline'' False TBigint, key ''sharesFilled'' False TBigint,
      key ''collateralFilled'' False TBigint]"

definition api_PredictionIntentResponse :: message_class where
  "api_PredictionIntentResponse = \<lparr>
    c_fields = [
      fld 1 ''tx_id'' (Implicit STRING), fld 2 ''net'' (Implicit STRING), fld 3 ''market_id'' (Implicit STRING),
      fld 4 ''generated_at'' (Implicit STRING), fld 5 ''account_id'' (Implicit STRING),
      fld 9 ''side'' (Implicit UINT32), fld 10 ''action'' (Implicit UINT32),
      fld 11 ''limit_yes_price'' (Implicit UINT64), fld 12 ''qty_shares'' (Implicit UINT64),
      fld 13 ''collateral_cap'' (Implicit UINT64), fld 14 ''deadline'' (Implicit UINT64),
      fld 15 ''shares_filled'' (Implicit UINT64), fld 16 ''collateral_filled'' (Implicit UINT64)],
    c_create = [
      (''txId'', PScalar (SText [])), (''net'', PScalar (SText [])), (''marketId'', PScalar (SText [])),
      (''generatedAt'', PScalar (SText [])), (''accountId'', PScalar (SText [])), (''side'', PScalar (SInt 0)),
      (''action'', PScalar (SInt 0)), (''limitYesPrice'', PScalar (SBig 0)), (''qtyShares'', PScalar (SBig 0)),
      (''collateralCap'', PScalar (SBig 0)), (''deadline'', PScalar (SBig 0)), (''sharesFilled'', PScalar (SBig 0)),
      (''collateralFilled'', PScalar (SBig 0))],
    c_reads = [
      fld 1 ''txId'' (Implicit STRING), fld 2 ''net'' (Implicit STRING), fld 3 ''marketId'' (Implicit STRING),
      fld 4 ''generatedAt'' (Implicit STRING), fld 5 ''accountId'' (Implicit STRING),
      fld 9 ''side'' (Implicit UINT32), fld 10 ''action'' (Implicit UINT32),
      fld 11 ''limitYesPrice'' (Implicit UINT64), fld 12 ''qtyShares'' (Implicit UINT64),
      fld 13 ''collateralCap'' (Implicit UINT64), fld 14 ''deadline'' (Implicit UINT64),
      fld 15 ''sharesFilled'' (Implicit UINT64), fld 16 ''collateralFilled'' (Implicit UINT64)],
    c_writes = [
      fld 1 ''txId'' (Implicit STRING), fld 2 ''net'' (Implicit STRING), fld 3 ''marketId'' (Implicit STRING),
      fld 4 ''generatedAt'' (Implicit STRING), fld 5 ''accountId'' (Implicit STRING),
      fld 9 ''side'' (Implicit UINT32), fld 10 ''action'' (Implicit UINT32),
      fld 11 ''limitYesPrice'' (Implicit UINT64), fld 12 ''qtyShares'' (Implicit UINT64),
      fld 13 ''collateralCap'' (Implicit UINT64), fld 14 ''deadline'' (Implicit UINT64),
      fld 15 ''sharesFilled'' (Implicit UINT64), fld 16 ''collateralFilled'' (Implicit UINT64)]\<rparr>"

definition api_PredictionIntents_interface :: "property list" where
  "api_PredictionIntents_interface = [
      key ''predictionIntents'' False (TArray (TRef ''PredictionIntentResponse''))]"

definition api_PredictionIntents :: message_class where
  "api_PredictionIntents = \<lparr>
    c_fields = [
      fld 1 ''prediction_intents'' (Messages ''PredictionIntentResponse'')],
    c_create = [
      (''predictionIntents'', PList [])],
    c_reads = [
      fld 1 ''predictionIntents'' (Messages ''PredictionIntentResponse'')],
    c_writes = [
      fld 1 ''predictionIntents'' (Messages ''PredictionIntentResponse'')]\<rparr>"

definition api_Match_interface :: "property list" where
  "api_Match_interface = [
      key ''marketId'' False TString, key ''txId1'' False TString, key ''txId2'' False TString,
      key ''priceUsd'' False TNumber, key ''qty1'' False TNumber, key ''qty2'' False TNumber,
      key ''createdAt'' False TString, key ''txHash'' False TString, key ''priceUsd1'' False TNumber,
      key ''priceUsd2'' False TNumber, key ''matchId'' False TString, key ''fillShares'' False TBigint,
      key ''executionYesPrice'' False TBigint, key ''status'' False TString]"

definition api_Match :: message_class where
  "api_Match = \<lparr>
    c_fields = [
      fld 1 ''market_id'' (Implicit STRING), fld 2 ''tx_id1'' (Implicit STRING), fld 3 ''tx_id2'' (Implicit STRING),
      fld 5 ''price_usd'' (Implicit DOUBLE), fld 6 ''qty1'' (Implicit DOUBLE), fld 7 ''qty2'' (Implicit DOUBLE),
      fld 8 ''created_at'' (Implicit STRING), fld 9 ''tx_hash'' (Implicit STRING),
      fld 10 ''price_usd1'' (Implicit DOUBLE), fld 11 ''price_usd2'' (Implicit DOUBLE),
      fld 12 ''match_id'' (Implicit STRING), fld 13 ''fill_shares'' (Implicit UINT64),
      fld 14 ''execution_yes_price'' (Implicit UINT64), fld 15 ''status'' (Implicit STRING)],
    c_create = [
      (''marketId'', PScalar (SText [])), (''txId1'', PScalar (SText [])), (''txId2'', PScalar (SText [])),
      (''priceUsd'', PScalar (SNum (JNum 0))), (''qty1'', PScalar (SNum (JNum 0))),
      (''qty2'', PScalar (SNum (JNum 0))), (''createdAt'', PScalar (SText [])), (''txHash'', PScalar (SText [])),
      (''priceUsd1'', PScalar (SNum (JNum 0))), (''priceUsd2'', PScalar (SNum (JNum 0))),
      (''matchId'', PScalar (SText [])), (''fillShares'', PScalar (SBig 0)),
      (''executionYesPrice'', PScalar (SBig 0)), (''status'', PScalar (SText []))],
    c_reads = [
      fld 1 ''marketId'' (Implicit STRING), fld 2 ''txId1'' (Implicit STRING), fld 3 ''txId2'' (Implicit STRING),
      fld 5 ''priceUsd'' (Implicit DOUBLE), fld 6 ''qty1'' (Implicit DOUBLE), fld 7 ''qty2'' (Implicit DOUBLE),
      fld 8 ''createdAt'' (Implicit STRING), fld 9 ''txHash'' (Implicit STRING),
      fld 10 ''priceUsd1'' (Implicit DOUBLE), fld 11 ''priceUsd2'' (Implicit DOUBLE),
      fld 12 ''matchId'' (Implicit STRING), fld 13 ''fillShares'' (Implicit UINT64),
      fld 14 ''executionYesPrice'' (Implicit UINT64), fld 15 ''status'' (Implicit STRING)],
    c_writes = [
      fld 1 ''marketId'' (Implicit STRING), fld 2 ''txId1'' (Implicit STRING), fld 3 ''txId2'' (Implicit STRING),
      fld 5 ''priceUsd'' (Implicit DOUBLE), fld 6 ''qty1'' (Implicit DOUBLE), fld 7 ''qty2'' (Implicit DOUBLE),
      fld 8 ''createdAt'' (Implicit STRING), fld 9 ''txHash'' (Implicit STRING),
      fld 10 ''priceUsd1'' (Implicit DOUBLE), fld 11 ''priceUsd2'' (Implicit DOUBLE),
      fld 12 ''matchId'' (Implicit STRING), fld 13 ''fillShares'' (Implicit UINT64),
      fld 14 ''executionYesPrice'' (Implicit UINT64), fld 15 ''status'' (Implicit STRING)]\<rparr>"

definition api_GetMatchesRequest_interface :: "property list" where
  "api_GetMatchesRequest_interface = [
      key ''marketId'' False TString, key ''limit'' True TNumber, key ''offset'' True TNumber]"

definition api_GetMatchesRequest :: message_class where
  "api_GetMatchesRequest = \<lparr>
    c_fields = [
      fld 1 ''market_id'' (Implicit STRING), fld 2 ''limit'' (Optional INT32), fld 3 ''offset'' (Optional INT32)],
    c_create = [
      (''marketId'', PScalar (SText []))],
    c_reads = [
      fld 1 ''marketId'' (Implicit STRING), fld 2 ''limit'' (Optional INT32), fld 3 ''offset'' (Optional INT32)],
    c_writes = [
      fld 1 ''marketId'' (Implicit STRING), fld 2 ''limit'' (Optional INT32), fld 3 ''offset'' (Optional INT32)]\<rparr>"

definition api_Position_interface :: "property list" where
  "api_Position_interface = [
      key ''marketId'' False TString, key ''evmAddress'' False TString, key ''yes'' False TBigint,
      key ''no'' False TBigint, key ''updatedAt'' False TString, key ''createdAt'' False TString]"

definition api_Position :: message_class where
  "api_Position = \<lparr>
    c_fields = [
      fld 1 ''market_id'' (Implicit STRING), fld 2 ''evm_address'' (Implicit STRING), fld 3 ''yes'' (Implicit UINT64),
      fld 4 ''no'' (Implicit UINT64), fld 5 ''updated_at'' (Implicit STRING), fld 6 ''created_at'' (Implicit STRING)],
    c_create = [
      (''marketId'', PScalar (SText [])), (''evmAddress'', PScalar (SText [])), (''yes'', PScalar (SBig 0)),
      (''no'', PScalar (SBig 0)), (''updatedAt'', PScalar (SText [])), (''createdAt'', PScalar (SText []))],
    c_reads = [
      fld 1 ''marketId'' (Implicit STRING), fld 2 ''evmAddress'' (Implicit STRING), fld 3 ''yes'' (Implicit UINT64),
      fld 4 ''no'' (Implicit UINT64), fld 5 ''updatedAt'' (Implicit STRING), fld 6 ''createdAt'' (Implicit STRING)],
    c_writes = [
      fld 1 ''marketId'' (Implicit STRING), fld 2 ''evmAddress'' (Implicit STRING), fld 3 ''yes'' (Implicit UINT64),
      fld 4 ''no'' (Implicit UINT64), fld 5 ''updatedAt'' (Implicit STRING), fld 6 ''createdAt'' (Implicit STRING)]\<rparr>"

definition api_PositionInfo_interface :: "property list" where
  "api_PositionInfo_interface = [
      key ''position'' True (TRef ''Position''), key ''priceUsd'' False TNumber, key ''isPaused'' False TBoolean,
      key ''resolvedAt'' False TString, key ''redeemedAt'' False TString, key ''avgPriceYesUsd'' True TNumber,
      key ''avgPriceNoUsd'' True TNumber, key ''costBasisYesUsd'' True TNumber, key ''costBasisNoUsd'' True TNumber,
      key ''realizedPnlUsd'' True TNumber, key ''costBasisAsOf'' True TString]"

definition api_PositionInfo :: message_class where
  "api_PositionInfo = \<lparr>
    c_fields = [
      fld 1 ''position'' (Message ''Position''), fld 2 ''price_usd'' (Implicit FLOAT),
      fld 3 ''is_paused'' (Implicit BOOL), fld 4 ''resolved_at'' (Implicit STRING),
      fld 5 ''redeemed_at'' (Implicit STRING), fld 6 ''avg_price_yes_usd'' (Optional DOUBLE),
      fld 7 ''avg_price_no_usd'' (Optional DOUBLE), fld 8 ''cost_basis_yes_usd'' (Optional DOUBLE),
      fld 9 ''cost_basis_no_usd'' (Optional DOUBLE), fld 10 ''realized_pnl_usd'' (Optional DOUBLE),
      fld 11 ''cost_basis_as_of'' (Optional STRING)],
    c_create = [
      (''priceUsd'', PScalar (SNum (JNum 0))), (''isPaused'', PScalar (SBool False)),
      (''resolvedAt'', PScalar (SText [])), (''redeemedAt'', PScalar (SText []))],
    c_reads = [
      fld 1 ''position'' (Message ''Position''), fld 2 ''priceUsd'' (Implicit FLOAT),
      fld 3 ''isPaused'' (Implicit BOOL), fld 4 ''resolvedAt'' (Implicit STRING),
      fld 5 ''redeemedAt'' (Implicit STRING), fld 6 ''avgPriceYesUsd'' (Optional DOUBLE),
      fld 7 ''avgPriceNoUsd'' (Optional DOUBLE), fld 8 ''costBasisYesUsd'' (Optional DOUBLE),
      fld 9 ''costBasisNoUsd'' (Optional DOUBLE), fld 10 ''realizedPnlUsd'' (Optional DOUBLE),
      fld 11 ''costBasisAsOf'' (Optional STRING)],
    c_writes = [
      fld 1 ''position'' (Message ''Position''), fld 2 ''priceUsd'' (Implicit FLOAT),
      fld 3 ''isPaused'' (Implicit BOOL), fld 4 ''resolvedAt'' (Implicit STRING),
      fld 5 ''redeemedAt'' (Implicit STRING), fld 6 ''avgPriceYesUsd'' (Optional DOUBLE),
      fld 7 ''avgPriceNoUsd'' (Optional DOUBLE), fld 8 ''costBasisYesUsd'' (Optional DOUBLE),
      fld 9 ''costBasisNoUsd'' (Optional DOUBLE), fld 10 ''realizedPnlUsd'' (Optional DOUBLE),
      fld 11 ''costBasisAsOf'' (Optional STRING)]\<rparr>"

definition api_UserPortfolioResponse_interface :: "property list" where
  "api_UserPortfolioResponse_interface = [
      key ''positions'' False (TRecord (TRef ''PositionInfo'')),
      key ''openPredictionIntents'' False (TRecord (TRef ''PredictionIntents''))]"

definition api_UserPortfolioResponse :: message_class where
  "api_UserPortfolioResponse = \<lparr>
    c_fields = [
      fld 1 ''positions'' (Map_message ''PositionInfo''),
      fld 2 ''open_prediction_intents'' (Map_message ''PredictionIntents'')],
    c_create = [
      (''positions'', PMap []), (''openPredictionIntents'', PMap [])],
    c_reads = [
      fld 1 ''positions'' (Map_message ''PositionInfo''),
      fld 2 ''openPredictionIntents'' (Map_message ''PredictionIntents'')],
    c_writes = [
      fld 1 ''positions'' (Map_message ''PositionInfo''),
      fld 2 ''openPredictionIntents'' (Map_message ''PredictionIntents'')]\<rparr>"

definition api_MarketResponse_interface :: "property list" where
  "api_MarketResponse_interface = [
      key ''marketId'' False TString, key ''net'' False TString, key ''statement'' False TString,
      key ''isPaused'' False TBoolean, key ''isSuspended'' False TBoolean, key ''createdAt'' False TString,
      key ''resolvedAt'' False TString, key ''imageUrl'' False TString, key ''priceUsd'' False TNumber,
      key ''description'' False TString, key ''rules'' False TString, key ''closesAt'' False TString,
      key ''outcome'' True TNumber, key ''smartContractId'' False TString, key ''categoryIds'' False (TArray TNumber),
      key ''aliasYes'' False TString, key ''aliasNo'' False TString, key ''hexColorYes'' False TString,
      key ''hexColorNo'' False TString, key ''rakePercent'' False TNumber, key ''isLomEnabled'' False TBoolean]"

definition api_MarketResponse :: message_class where
  "api_MarketResponse = \<lparr>
    c_fields = [
      fld 1 ''market_id'' (Implicit STRING), fld 2 ''net'' (Implicit STRING), fld 3 ''statement'' (Implicit STRING),
      fld 4 ''is_paused'' (Implicit BOOL), fld 5 ''is_suspended'' (Implicit BOOL),
      fld 6 ''created_at'' (Implicit STRING), fld 7 ''resolved_at'' (Implicit STRING),
      fld 8 ''image_url'' (Implicit STRING), fld 9 ''price_usd'' (Implicit FLOAT),
      fld 10 ''description'' (Implicit STRING), fld 11 ''rules'' (Implicit STRING),
      fld 12 ''closes_at'' (Implicit STRING), fld 13 ''outcome'' (Optional INT32),
      fld 14 ''smart_contract_id'' (Implicit STRING), fld 15 ''category_ids'' (Packed INT32),
      fld 16 ''alias_yes'' (Implicit STRING), fld 17 ''alias_no'' (Implicit STRING),
      fld 18 ''hex_color_yes'' (Implicit STRING), fld 19 ''hex_color_no'' (Implicit STRING),
      fld 20 ''rake_percent'' (Implicit FLOAT), fld 21 ''is_lom_enabled'' (Implicit BOOL)],
    c_create = [
      (''marketId'', PScalar (SText [])), (''net'', PScalar (SText [])), (''statement'', PScalar (SText [])),
      (''isPaused'', PScalar (SBool False)), (''isSuspended'', PScalar (SBool False)),
      (''createdAt'', PScalar (SText [])), (''resolvedAt'', PScalar (SText [])), (''imageUrl'', PScalar (SText [])),
      (''priceUsd'', PScalar (SNum (JNum 0))), (''description'', PScalar (SText [])), (''rules'', PScalar (SText [])),
      (''closesAt'', PScalar (SText [])), (''smartContractId'', PScalar (SText [])), (''categoryIds'', PList []),
      (''aliasYes'', PScalar (SText [])), (''aliasNo'', PScalar (SText [])), (''hexColorYes'', PScalar (SText [])),
      (''hexColorNo'', PScalar (SText [])), (''rakePercent'', PScalar (SNum (JNum 0))),
      (''isLomEnabled'', PScalar (SBool False))],
    c_reads = [
      fld 1 ''marketId'' (Implicit STRING), fld 2 ''net'' (Implicit STRING), fld 3 ''statement'' (Implicit STRING),
      fld 4 ''isPaused'' (Implicit BOOL), fld 5 ''isSuspended'' (Implicit BOOL),
      fld 6 ''createdAt'' (Implicit STRING), fld 7 ''resolvedAt'' (Implicit STRING),
      fld 8 ''imageUrl'' (Implicit STRING), fld 9 ''priceUsd'' (Implicit FLOAT),
      fld 10 ''description'' (Implicit STRING), fld 11 ''rules'' (Implicit STRING),
      fld 12 ''closesAt'' (Implicit STRING), fld 13 ''outcome'' (Optional INT32),
      fld 14 ''smartContractId'' (Implicit STRING), fld 15 ''categoryIds'' (Packed INT32),
      fld 16 ''aliasYes'' (Implicit STRING), fld 17 ''aliasNo'' (Implicit STRING),
      fld 18 ''hexColorYes'' (Implicit STRING), fld 19 ''hexColorNo'' (Implicit STRING),
      fld 20 ''rakePercent'' (Implicit FLOAT), fld 21 ''isLomEnabled'' (Implicit BOOL)],
    c_writes = [
      fld 1 ''marketId'' (Implicit STRING), fld 2 ''net'' (Implicit STRING), fld 3 ''statement'' (Implicit STRING),
      fld 4 ''isPaused'' (Implicit BOOL), fld 5 ''isSuspended'' (Implicit BOOL),
      fld 6 ''createdAt'' (Implicit STRING), fld 7 ''resolvedAt'' (Implicit STRING),
      fld 8 ''imageUrl'' (Implicit STRING), fld 9 ''priceUsd'' (Implicit FLOAT),
      fld 10 ''description'' (Implicit STRING), fld 11 ''rules'' (Implicit STRING),
      fld 12 ''closesAt'' (Implicit STRING), fld 13 ''outcome'' (Optional INT32),
      fld 14 ''smartContractId'' (Implicit STRING), fld 15 ''categoryIds'' (Packed INT32),
      fld 16 ''aliasYes'' (Implicit STRING), fld 17 ''aliasNo'' (Implicit STRING),
      fld 18 ''hexColorYes'' (Implicit STRING), fld 19 ''hexColorNo'' (Implicit STRING),
      fld 20 ''rakePercent'' (Implicit FLOAT), fld 21 ''isLomEnabled'' (Implicit BOOL)]\<rparr>"

definition api_MarketsResponse_interface :: "property list" where
  "api_MarketsResponse_interface = [
      key ''markets'' False (TArray (TRef ''MarketResponse''))]"

definition api_MarketsResponse :: message_class where
  "api_MarketsResponse = \<lparr>
    c_fields = [
      fld 1 ''markets'' (Messages ''MarketResponse'')],
    c_create = [
      (''markets'', PList [])],
    c_reads = [
      fld 1 ''markets'' (Messages ''MarketResponse'')],
    c_writes = [
      fld 1 ''markets'' (Messages ''MarketResponse'')]\<rparr>"

definition api_PriceHistoryRequest_interface :: "property list" where
  "api_PriceHistoryRequest_interface = [
      key ''marketId'' False TString, key ''net'' False TString, key ''resolution'' False TString,
      key ''from'' False TString, key ''to'' False TString, key ''limit'' True TNumber, key ''offset'' True TNumber]"

definition api_PriceHistoryRequest :: message_class where
  "api_PriceHistoryRequest = \<lparr>
    c_fields = [
      fld 1 ''market_id'' (Implicit STRING), fld 2 ''net'' (Implicit STRING), fld 3 ''resolution'' (Implicit STRING),
      fld 4 ''from'' (Implicit STRING), fld 5 ''to'' (Implicit STRING), fld 6 ''limit'' (Optional INT32),
      fld 7 ''offset'' (Optional INT32)],
    c_create = [
      (''marketId'', PScalar (SText [])), (''net'', PScalar (SText [])), (''resolution'', PScalar (SText [])),
      (''from'', PScalar (SText [])), (''to'', PScalar (SText []))],
    c_reads = [
      fld 1 ''marketId'' (Implicit STRING), fld 2 ''net'' (Implicit STRING), fld 3 ''resolution'' (Implicit STRING),
      fld 4 ''from'' (Implicit STRING), fld 5 ''to'' (Implicit STRING), fld 6 ''limit'' (Optional INT32),
      fld 7 ''offset'' (Optional INT32)],
    c_writes = [
      fld 1 ''marketId'' (Implicit STRING), fld 2 ''net'' (Implicit STRING), fld 3 ''resolution'' (Implicit STRING),
      fld 4 ''from'' (Implicit STRING), fld 5 ''to'' (Implicit STRING), fld 6 ''limit'' (Optional INT32),
      fld 7 ''offset'' (Optional INT32)]\<rparr>"

definition api_PriceHistoryResponse_interface :: "property list" where
  "api_PriceHistoryResponse_interface = [
      key ''timestampMs'' False (TArray TBigint), key ''priceUsd'' False (TArray TNumber)]"

definition api_PriceHistoryResponse :: message_class where
  "api_PriceHistoryResponse = \<lparr>
    c_fields = [
      fld 1 ''timestamp_ms'' (Packed UINT64), fld 2 ''price_usd'' (Packed FLOAT)],
    c_create = [
      (''timestampMs'', PList []), (''priceUsd'', PList [])],
    c_reads = [
      fld 1 ''timestampMs'' (Packed UINT64), fld 2 ''priceUsd'' (Packed FLOAT)],
    c_writes = [
      fld 1 ''timestampMs'' (Packed UINT64), fld 2 ''priceUsd'' (Packed FLOAT)]\<rparr>"

definition api_GetCommentsRequest_interface :: "property list" where
  "api_GetCommentsRequest_interface = [
      key ''marketId'' False TString, key ''limit'' True TNumber, key ''offset'' True TNumber]"

definition api_GetCommentsRequest :: message_class where
  "api_GetCommentsRequest = \<lparr>
    c_fields = [
      fld 1 ''market_id'' (Implicit STRING), fld 2 ''limit'' (Optional INT32), fld 3 ''offset'' (Optional INT32)],
    c_create = [
      (''marketId'', PScalar (SText []))],
    c_reads = [
      fld 1 ''marketId'' (Implicit STRING), fld 2 ''limit'' (Optional INT32), fld 3 ''offset'' (Optional INT32)],
    c_writes = [
      fld 1 ''marketId'' (Implicit STRING), fld 2 ''limit'' (Optional INT32), fld 3 ''offset'' (Optional INT32)]\<rparr>"

definition api_Comment_interface :: "property list" where
  "api_Comment_interface = [
      key ''accountId'' False TString, key ''content'' False TString, key ''sig'' False TString,
      key ''publicKey'' False TString, key ''keyType'' False TNumber, key ''createdAt'' False TString]"

definition api_Comment :: message_class where
  "api_Comment = \<lparr>
    c_fields = [
      fld 1 ''account_id'' (Implicit STRING), fld 2 ''content'' (Implicit STRING), fld 3 ''sig'' (Implicit STRING),
      fld 4 ''public_key'' (Implicit STRING), fld 5 ''key_type'' (Implicit UINT32),
      fld 6 ''created_at'' (Implicit STRING)],
    c_create = [
      (''accountId'', PScalar (SText [])), (''content'', PScalar (SText [])), (''sig'', PScalar (SText [])),
      (''publicKey'', PScalar (SText [])), (''keyType'', PScalar (SInt 0)), (''createdAt'', PScalar (SText []))],
    c_reads = [
      fld 1 ''accountId'' (Implicit STRING), fld 2 ''content'' (Implicit STRING), fld 3 ''sig'' (Implicit STRING),
      fld 4 ''publicKey'' (Implicit STRING), fld 5 ''keyType'' (Implicit UINT32),
      fld 6 ''createdAt'' (Implicit STRING)],
    c_writes = [
      fld 1 ''accountId'' (Implicit STRING), fld 2 ''content'' (Implicit STRING), fld 3 ''sig'' (Implicit STRING),
      fld 4 ''publicKey'' (Implicit STRING), fld 5 ''keyType'' (Implicit UINT32),
      fld 6 ''createdAt'' (Implicit STRING)]\<rparr>"

definition api_CreateCommentResponse_interface :: "property list" where
  "api_CreateCommentResponse_interface = [
      key ''comment'' True (TRef ''Comment'')]"

definition api_CreateCommentResponse :: message_class where
  "api_CreateCommentResponse = \<lparr>
    c_fields = [
      fld 1 ''comment'' (Message ''Comment'')],
    c_create = [],
    c_reads = [
      fld 1 ''comment'' (Message ''Comment'')],
    c_writes = [
      fld 1 ''comment'' (Message ''Comment'')]\<rparr>"

definition api_GetCommentsResponse_interface :: "property list" where
  "api_GetCommentsResponse_interface = [
      key ''comments'' False (TArray (TRef ''Comment''))]"

definition api_GetCommentsResponse :: message_class where
  "api_GetCommentsResponse = \<lparr>
    c_fields = [
      fld 1 ''comments'' (Messages ''Comment'')],
    c_create = [
      (''comments'', PList [])],
    c_reads = [
      fld 1 ''comments'' (Messages ''Comment'')],
    c_writes = [
      fld 1 ''comments'' (Messages ''Comment'')]\<rparr>"

definition api_CreateCommentRequest_interface :: "property list" where
  "api_CreateCommentRequest_interface = [
      key ''marketId'' False TString, key ''accountId'' False TString, key ''content'' False TString,
      key ''sig'' False TString, key ''publicKey'' False TString, key ''keyType'' False TNumber]"

definition api_CreateCommentRequest :: message_class where
  "api_CreateCommentRequest = \<lparr>
    c_fields = [
      fld 1 ''market_id'' (Implicit STRING), fld 2 ''account_id'' (Implicit STRING),
      fld 3 ''content'' (Implicit STRING), fld 4 ''sig'' (Implicit STRING), fld 5 ''public_key'' (Implicit STRING),
      fld 6 ''key_type'' (Implicit UINT32)],
    c_create = [
      (''marketId'', PScalar (SText [])), (''accountId'', PScalar (SText [])), (''content'', PScalar (SText [])),
      (''sig'', PScalar (SText [])), (''publicKey'', PScalar (SText [])), (''keyType'', PScalar (SInt 0))],
    c_reads = [
      fld 1 ''marketId'' (Implicit STRING), fld 2 ''accountId'' (Implicit STRING),
      fld 3 ''content'' (Implicit STRING), fld 4 ''sig'' (Implicit STRING), fld 5 ''publicKey'' (Implicit STRING),
      fld 6 ''keyType'' (Implicit UINT32)],
    c_writes = [
      fld 1 ''marketId'' (Implicit STRING), fld 2 ''accountId'' (Implicit STRING),
      fld 3 ''content'' (Implicit STRING), fld 4 ''sig'' (Implicit STRING), fld 5 ''publicKey'' (Implicit STRING),
      fld 6 ''keyType'' (Implicit UINT32)]\<rparr>"

definition api_CancelOrderRequest_interface :: "property list" where
  "api_CancelOrderRequest_interface = [
      key ''marketId'' False TString, key ''txId'' False TString, key ''net'' False TString,
      key ''accountId'' False TString, key ''sig'' False TString, key ''publicKey'' False TString,
      key ''keyType'' False TNumber]"

definition api_CancelOrderRequest :: message_class where
  "api_CancelOrderRequest = \<lparr>
    c_fields = [
      fld 1 ''market_id'' (Implicit STRING), fld 2 ''tx_id'' (Implicit STRING), fld 3 ''net'' (Implicit STRING),
      fld 4 ''account_id'' (Implicit STRING), fld 5 ''sig'' (Implicit STRING), fld 6 ''public_key'' (Implicit STRING),
      fld 7 ''key_type'' (Implicit UINT32)],
    c_create = [
      (''marketId'', PScalar (SText [])), (''txId'', PScalar (SText [])), (''net'', PScalar (SText [])),
      (''accountId'', PScalar (SText [])), (''sig'', PScalar (SText [])), (''publicKey'', PScalar (SText [])),
      (''keyType'', PScalar (SInt 0))],
    c_reads = [
      fld 1 ''marketId'' (Implicit STRING), fld 2 ''txId'' (Implicit STRING), fld 3 ''net'' (Implicit STRING),
      fld 4 ''accountId'' (Implicit STRING), fld 5 ''sig'' (Implicit STRING), fld 6 ''publicKey'' (Implicit STRING),
      fld 7 ''keyType'' (Implicit UINT32)],
    c_writes = [
      fld 1 ''marketId'' (Implicit STRING), fld 2 ''txId'' (Implicit STRING), fld 3 ''net'' (Implicit STRING),
      fld 4 ''accountId'' (Implicit STRING), fld 5 ''sig'' (Implicit STRING), fld 6 ''publicKey'' (Implicit STRING),
      fld 7 ''keyType'' (Implicit UINT32)]\<rparr>"

definition api_TxHash_interface :: "property list" where
  "api_TxHash_interface = [
      key ''txHash'' False TString, key ''qty'' False TNumber]"

definition api_TxHash :: message_class where
  "api_TxHash = \<lparr>
    c_fields = [
      fld 1 ''tx_hash'' (Implicit STRING), fld 2 ''qty'' (Implicit DOUBLE)],
    c_create = [
      (''txHash'', PScalar (SText [])), (''qty'', PScalar (SNum (JNum 0)))],
    c_reads = [
      fld 1 ''txHash'' (Implicit STRING), fld 2 ''qty'' (Implicit DOUBLE)],
    c_writes = [
      fld 1 ''txHash'' (Implicit STRING), fld 2 ''qty'' (Implicit DOUBLE)]\<rparr>"

definition api_TxIdHashesResponse_interface :: "property list" where
  "api_TxIdHashesResponse_interface = [
      key ''txHashes'' False (TArray (TRef ''TxHash''))]"

definition api_TxIdHashesResponse :: message_class where
  "api_TxIdHashesResponse = \<lparr>
    c_fields = [
      fld 1 ''tx_hashes'' (Messages ''TxHash'')],
    c_create = [
      (''txHashes'', PList [])],
    c_reads = [
      fld 1 ''txHashes'' (Messages ''TxHash'')],
    c_writes = [
      fld 1 ''txHashes'' (Messages ''TxHash'')]\<rparr>"

definition api_ClaimPrismRequest_interface :: "property list" where
  "api_ClaimPrismRequest_interface = [
      key ''accountId'' False TString, key ''net'' False TString, key ''sig'' False TString,
      key ''publicKey'' False TString, key ''keyType'' False TNumber]"

definition api_ClaimPrismRequest :: message_class where
  "api_ClaimPrismRequest = \<lparr>
    c_fields = [
      fld 1 ''account_id'' (Implicit STRING), fld 2 ''net'' (Implicit STRING), fld 3 ''sig'' (Implicit STRING),
      fld 4 ''public_key'' (Implicit STRING), fld 5 ''key_type'' (Implicit UINT32)],
    c_create = [
      (''accountId'', PScalar (SText [])), (''net'', PScalar (SText [])), (''sig'', PScalar (SText [])),
      (''publicKey'', PScalar (SText [])), (''keyType'', PScalar (SInt 0))],
    c_reads = [
      fld 1 ''accountId'' (Implicit STRING), fld 2 ''net'' (Implicit STRING), fld 3 ''sig'' (Implicit STRING),
      fld 4 ''publicKey'' (Implicit STRING), fld 5 ''keyType'' (Implicit UINT32)],
    c_writes = [
      fld 1 ''accountId'' (Implicit STRING), fld 2 ''net'' (Implicit STRING), fld 3 ''sig'' (Implicit STRING),
      fld 4 ''publicKey'' (Implicit STRING), fld 5 ''keyType'' (Implicit UINT32)]\<rparr>"

definition api_PrismResponse_interface :: "property list" where
  "api_PrismResponse_interface = [
      key ''prismBalance'' False TBigint, key ''prismUnredeemed'' False TBigint, key ''prismRedeemable'' False TBigint]"

definition api_PrismResponse :: message_class where
  "api_PrismResponse = \<lparr>
    c_fields = [
      fld 1 ''prism_balance'' (Implicit UINT64), fld 2 ''prism_unredeemed'' (Implicit UINT64),
      fld 3 ''prism_redeemable'' (Implicit UINT64)],
    c_create = [
      (''prismBalance'', PScalar (SBig 0)), (''prismUnredeemed'', PScalar (SBig 0)),
      (''prismRedeemable'', PScalar (SBig 0))],
    c_reads = [
      fld 1 ''prismBalance'' (Implicit UINT64), fld 2 ''prismUnredeemed'' (Implicit UINT64),
      fld 3 ''prismRedeemable'' (Implicit UINT64)],
    c_writes = [
      fld 1 ''prismBalance'' (Implicit UINT64), fld 2 ''prismUnredeemed'' (Implicit UINT64),
      fld 3 ''prismRedeemable'' (Implicit UINT64)]\<rparr>"

definition api_LOMreward_interface :: "property list" where
  "api_LOMreward_interface = [
      key ''marketId'' False TString, key ''accountId'' False TString, key ''distance'' False TNumber,
      key ''size'' False TNumber, key ''duration'' False TNumber, key ''lomScore'' False TNumber,
      key ''createdAt'' False TString]"

definition api_LOMreward :: message_class where
  "api_LOMreward = \<lparr>
    c_fields = [
      fld 1 ''market_id'' (Implicit STRING), fld 2 ''account_id'' (Implicit STRING),
      fld 3 ''distance'' (Implicit FLOAT), fld 4 ''size'' (Implicit FLOAT), fld 5 ''duration'' (Implicit FLOAT),
      fld 6 ''lom_score'' (Implicit FLOAT), fld 7 ''created_at'' (Implicit STRING)],
    c_create = [
      (''marketId'', PScalar (SText [])), (''accountId'', PScalar (SText [])),
      (''distance'', PScalar (SNum (JNum 0))), (''size'', PScalar (SNum (JNum 0))),
      (''duration'', PScalar (SNum (JNum 0))), (''lomScore'', PScalar (SNum (JNum 0))),
      (''createdAt'', PScalar (SText []))],
    c_reads = [
      fld 1 ''marketId'' (Implicit STRING), fld 2 ''accountId'' (Implicit STRING),
      fld 3 ''distance'' (Implicit FLOAT), fld 4 ''size'' (Implicit FLOAT), fld 5 ''duration'' (Implicit FLOAT),
      fld 6 ''lomScore'' (Implicit FLOAT), fld 7 ''createdAt'' (Implicit STRING)],
    c_writes = [
      fld 1 ''marketId'' (Implicit STRING), fld 2 ''accountId'' (Implicit STRING),
      fld 3 ''distance'' (Implicit FLOAT), fld 4 ''size'' (Implicit FLOAT), fld 5 ''duration'' (Implicit FLOAT),
      fld 6 ''lomScore'' (Implicit FLOAT), fld 7 ''createdAt'' (Implicit STRING)]\<rparr>"

definition api_Pointsreward_interface :: "property list" where
  "api_Pointsreward_interface = [
      key ''marketId'' False TString, key ''accountId'' False TString, key ''points'' False TNumber,
      key ''createdAt'' False TString]"

definition api_Pointsreward :: message_class where
  "api_Pointsreward = \<lparr>
    c_fields = [
      fld 1 ''market_id'' (Implicit STRING), fld 2 ''account_id'' (Implicit STRING),
      fld 3 ''points'' (Implicit FLOAT), fld 4 ''created_at'' (Implicit STRING)],
    c_create = [
      (''marketId'', PScalar (SText [])), (''accountId'', PScalar (SText [])), (''points'', PScalar (SNum (JNum 0))),
      (''createdAt'', PScalar (SText []))],
    c_reads = [
      fld 1 ''marketId'' (Implicit STRING), fld 2 ''accountId'' (Implicit STRING), fld 3 ''points'' (Implicit FLOAT),
      fld 4 ''createdAt'' (Implicit STRING)],
    c_writes = [
      fld 1 ''marketId'' (Implicit STRING), fld 2 ''accountId'' (Implicit STRING), fld 3 ''points'' (Implicit FLOAT),
      fld 4 ''createdAt'' (Implicit STRING)]\<rparr>"

definition api_RewardsResponse_interface :: "property list" where
  "api_RewardsResponse_interface = [
      key ''lomRewards'' False (TArray (TRef ''LOMreward'')),
      key ''pointsRewards'' False (TArray (TRef ''Pointsreward''))]"

definition api_RewardsResponse :: message_class where
  "api_RewardsResponse = \<lparr>
    c_fields = [
      fld 1 ''lom_rewards'' (Messages ''LOMreward''), fld 2 ''points_rewards'' (Messages ''Pointsreward'')],
    c_create = [
      (''lomRewards'', PList []), (''pointsRewards'', PList [])],
    c_reads = [
      fld 1 ''lomRewards'' (Messages ''LOMreward''), fld 2 ''pointsRewards'' (Messages ''Pointsreward'')],
    c_writes = [
      fld 1 ''lomRewards'' (Messages ''LOMreward''), fld 2 ''pointsRewards'' (Messages ''Pointsreward'')]\<rparr>"

definition api_CreateMarketRequest_interface :: "property list" where
  "api_CreateMarketRequest_interface = [
      key ''marketId'' False TString, key ''net'' False TString, key ''statement'' False TString,
      key ''imageUrl'' False TString, key ''closesAt'' True TString, key ''description'' False TString,
      key ''rules'' False TString]"

definition api_CreateMarketRequest :: message_class where
  "api_CreateMarketRequest = \<lparr>
    c_fields = [
      fld 1 ''market_id'' (Implicit STRING), fld 2 ''net'' (Implicit STRING), fld 3 ''statement'' (Implicit STRING),
      fld 4 ''image_url'' (Implicit STRING), fld 5 ''closes_at'' (Optional STRING),
      fld 6 ''description'' (Implicit STRING), fld 7 ''rules'' (Implicit STRING)],
    c_create = [
      (''marketId'', PScalar (SText [])), (''net'', PScalar (SText [])), (''statement'', PScalar (SText [])),
      (''imageUrl'', PScalar (SText [])), (''description'', PScalar (SText [])), (''rules'', PScalar (SText []))],
    c_reads = [
      fld 1 ''marketId'' (Implicit STRING), fld 2 ''net'' (Implicit STRING), fld 3 ''statement'' (Implicit STRING),
      fld 4 ''imageUrl'' (Implicit STRING), fld 5 ''closesAt'' (Optional STRING),
      fld 6 ''description'' (Implicit STRING), fld 7 ''rules'' (Implicit STRING)],
    c_writes = [
      fld 1 ''marketId'' (Implicit STRING), fld 2 ''net'' (Implicit STRING), fld 3 ''statement'' (Implicit STRING),
      fld 4 ''imageUrl'' (Implicit STRING), fld 5 ''closesAt'' (Optional STRING),
      fld 6 ''description'' (Implicit STRING), fld 7 ''rules'' (Implicit STRING)]\<rparr>"

definition api_CreateMarketv2Request_interface :: "property list" where
  "api_CreateMarketv2Request_interface = [
      key ''marketId'' False TString, key ''net'' False TString, key ''statement'' False TString,
      key ''closesAt'' True TString, key ''description'' False TString, key ''rules'' False TString,
      key ''categoryIds'' False (TArray TNumber), key ''imgChunk'' False TBytes, key ''imgFileName'' False TString,
      key ''imgMimeType'' False TString, key ''aliasYes'' True TString, key ''aliasNo'' True TString,
      key ''hexColorYes'' True TString, key ''hexColorNo'' True TString, key ''isLomEnabled'' True TBoolean]"

definition api_CreateMarketv2Request :: message_class where
  "api_CreateMarketv2Request = \<lparr>
    c_fields = [
      fld 1 ''market_id'' (Implicit STRING), fld 2 ''net'' (Implicit STRING), fld 3 ''statement'' (Implicit STRING),
      fld 4 ''closes_at'' (Optional STRING), fld 5 ''description'' (Implicit STRING),
      fld 6 ''rules'' (Implicit STRING), fld 7 ''category_ids'' (Packed INT32), fld 8 ''img_chunk'' (Implicit BYTES),
      fld 9 ''img_file_name'' (Implicit STRING), fld 10 ''img_mime_type'' (Implicit STRING),
      fld 11 ''alias_yes'' (Optional STRING), fld 12 ''alias_no'' (Optional STRING),
      fld 13 ''hex_color_yes'' (Optional STRING), fld 14 ''hex_color_no'' (Optional STRING),
      fld 15 ''is_lom_enabled'' (Optional BOOL)],
    c_create = [
      (''marketId'', PScalar (SText [])), (''net'', PScalar (SText [])), (''statement'', PScalar (SText [])),
      (''description'', PScalar (SText [])), (''rules'', PScalar (SText [])), (''categoryIds'', PList []),
      (''imgChunk'', PScalar (SBytes [])), (''imgFileName'', PScalar (SText [])),
      (''imgMimeType'', PScalar (SText []))],
    c_reads = [
      fld 1 ''marketId'' (Implicit STRING), fld 2 ''net'' (Implicit STRING), fld 3 ''statement'' (Implicit STRING),
      fld 4 ''closesAt'' (Optional STRING), fld 5 ''description'' (Implicit STRING),
      fld 6 ''rules'' (Implicit STRING), fld 7 ''categoryIds'' (Packed INT32), fld 8 ''imgChunk'' (Implicit BYTES),
      fld 9 ''imgFileName'' (Implicit STRING), fld 10 ''imgMimeType'' (Implicit STRING),
      fld 11 ''aliasYes'' (Optional STRING), fld 12 ''aliasNo'' (Optional STRING),
      fld 13 ''hexColorYes'' (Optional STRING), fld 14 ''hexColorNo'' (Optional STRING),
      fld 15 ''isLomEnabled'' (Optional BOOL)],
    c_writes = [
      fld 1 ''marketId'' (Implicit STRING), fld 2 ''net'' (Implicit STRING), fld 3 ''statement'' (Implicit STRING),
      fld 4 ''closesAt'' (Optional STRING), fld 5 ''description'' (Implicit STRING),
      fld 6 ''rules'' (Implicit STRING), fld 7 ''categoryIds'' (Packed INT32), fld 8 ''imgChunk'' (Implicit BYTES),
      fld 9 ''imgFileName'' (Implicit STRING), fld 10 ''imgMimeType'' (Implicit STRING),
      fld 11 ''aliasYes'' (Optional STRING), fld 12 ''aliasNo'' (Optional STRING),
      fld 13 ''hexColorYes'' (Optional STRING), fld 14 ''hexColorNo'' (Optional STRING),
      fld 15 ''isLomEnabled'' (Optional BOOL)]\<rparr>"

definition api_CreateMarketResponse_interface :: "property list" where
  "api_CreateMarketResponse_interface = [
      key ''marketResponse'' True (TRef ''MarketResponse''), key ''remainingAllowance'' False TBigint]"

definition api_CreateMarketResponse :: message_class where
  "api_CreateMarketResponse = \<lparr>
    c_fields = [
      fld 1 ''market_response'' (Message ''MarketResponse''), fld 2 ''remaining_allowance'' (Implicit UINT64)],
    c_create = [
      (''remainingAllowance'', PScalar (SBig 0))],
    c_reads = [
      fld 1 ''marketResponse'' (Message ''MarketResponse''), fld 2 ''remainingAllowance'' (Implicit UINT64)],
    c_writes = [
      fld 1 ''marketResponse'' (Message ''MarketResponse''), fld 2 ''remainingAllowance'' (Implicit UINT64)]\<rparr>"

definition api_UpdateMarketRequest_interface :: "property list" where
  "api_UpdateMarketRequest_interface = [
      key ''marketId'' False TString, key ''categoryIds'' False (TArray TNumber)]"

definition api_UpdateMarketRequest :: message_class where
  "api_UpdateMarketRequest = \<lparr>
    c_fields = [
      fld 1 ''market_id'' (Implicit STRING), fld 6 ''category_ids'' (Packed INT32)],
    c_create = [
      (''marketId'', PScalar (SText [])), (''categoryIds'', PList [])],
    c_reads = [
      fld 1 ''marketId'' (Implicit STRING), fld 6 ''categoryIds'' (Packed INT32)],
    c_writes = [
      fld 1 ''marketId'' (Implicit STRING), fld 6 ''categoryIds'' (Packed INT32)]\<rparr>"

definition api_PatchMarketRequest_interface :: "property list" where
  "api_PatchMarketRequest_interface = [
      key ''marketId'' False TString, key ''closesAt'' True TString, key ''description'' True TString,
      key ''rules'' True TString, key ''categoryIdsStrArr'' True TString, key ''imgChunk'' True TBytes,
      key ''imgFileName'' True TString, key ''imgMimeType'' True TString, key ''aliasYes'' True TString,
      key ''aliasNo'' True TString, key ''hexColorYes'' True TString, key ''hexColorNo'' True TString,
      key ''isLomEnabled'' True TBoolean]"

definition api_PatchMarketRequest :: message_class where
  "api_PatchMarketRequest = \<lparr>
    c_fields = [
      fld 1 ''market_id'' (Implicit STRING), fld 2 ''closes_at'' (Optional STRING),
      fld 3 ''description'' (Optional STRING), fld 4 ''rules'' (Optional STRING),
      fld 5 ''category_ids_str_arr'' (Optional STRING), fld 6 ''img_chunk'' (Optional BYTES),
      fld 7 ''img_file_name'' (Optional STRING), fld 8 ''img_mime_type'' (Optional STRING),
      fld 9 ''alias_yes'' (Optional STRING), fld 10 ''alias_no'' (Optional STRING),
      fld 11 ''hex_color_yes'' (Optional STRING), fld 12 ''hex_color_no'' (Optional STRING),
      fld 13 ''is_lom_enabled'' (Optional BOOL)],
    c_create = [
      (''marketId'', PScalar (SText []))],
    c_reads = [
      fld 1 ''marketId'' (Implicit STRING), fld 2 ''closesAt'' (Optional STRING),
      fld 3 ''description'' (Optional STRING), fld 4 ''rules'' (Optional STRING),
      fld 5 ''categoryIdsStrArr'' (Optional STRING), fld 6 ''imgChunk'' (Optional BYTES),
      fld 7 ''imgFileName'' (Optional STRING), fld 8 ''imgMimeType'' (Optional STRING),
      fld 9 ''aliasYes'' (Optional STRING), fld 10 ''aliasNo'' (Optional STRING),
      fld 11 ''hexColorYes'' (Optional STRING), fld 12 ''hexColorNo'' (Optional STRING),
      fld 13 ''isLomEnabled'' (Optional BOOL)],
    c_writes = [
      fld 1 ''marketId'' (Implicit STRING), fld 2 ''closesAt'' (Optional STRING),
      fld 3 ''description'' (Optional STRING), fld 4 ''rules'' (Optional STRING),
      fld 5 ''categoryIdsStrArr'' (Optional STRING), fld 6 ''imgChunk'' (Optional BYTES),
      fld 7 ''imgFileName'' (Optional STRING), fld 8 ''imgMimeType'' (Optional STRING),
      fld 9 ''aliasYes'' (Optional STRING), fld 10 ''aliasNo'' (Optional STRING),
      fld 11 ''hexColorYes'' (Optional STRING), fld 12 ''hexColorNo'' (Optional STRING),
      fld 13 ''isLomEnabled'' (Optional BOOL)]\<rparr>"

definition api_MatchesResponse_interface :: "property list" where
  "api_MatchesResponse_interface = [
      key ''matches'' False (TArray (TRef ''Match'')), key ''pagination'' True (TRef ''PaginationRes'')]"

definition api_MatchesResponse :: message_class where
  "api_MatchesResponse = \<lparr>
    c_fields = [
      fld 1 ''matches'' (Messages ''Match''), fld 2 ''pagination'' (Message ''PaginationRes'')],
    c_create = [
      (''matches'', PList [])],
    c_reads = [
      fld 1 ''matches'' (Messages ''Match''), fld 2 ''pagination'' (Message ''PaginationRes'')],
    c_writes = [
      fld 1 ''matches'' (Messages ''Match''), fld 2 ''pagination'' (Message ''PaginationRes'')]\<rparr>"

definition api_PositionsResponse_interface :: "property list" where
  "api_PositionsResponse_interface = [
      key ''positions'' False (TArray (TRef ''Position'')), key ''pagination'' True (TRef ''PaginationRes'')]"

definition api_PositionsResponse :: message_class where
  "api_PositionsResponse = \<lparr>
    c_fields = [
      fld 1 ''positions'' (Messages ''Position''), fld 2 ''pagination'' (Message ''PaginationRes'')],
    c_create = [
      (''positions'', PList [])],
    c_reads = [
      fld 1 ''positions'' (Messages ''Position''), fld 2 ''pagination'' (Message ''PaginationRes'')],
    c_writes = [
      fld 1 ''positions'' (Messages ''Position''), fld 2 ''pagination'' (Message ''PaginationRes'')]\<rparr>"

definition api_PredictionIntentsResponse_interface :: "property list" where
  "api_PredictionIntentsResponse_interface = [
      key ''predictionIntents'' False (TArray (TRef ''PrismPredictionIntentRequest'')),
      key ''pagination'' True (TRef ''PaginationRes'')]"

definition api_PredictionIntentsResponse :: message_class where
  "api_PredictionIntentsResponse = \<lparr>
    c_fields = [
      fld 1 ''prediction_intents'' (Messages ''PrismPredictionIntentRequest''),
      fld 2 ''pagination'' (Message ''PaginationRes'')],
    c_create = [
      (''predictionIntents'', PList [])],
    c_reads = [
      fld 1 ''predictionIntents'' (Messages ''PrismPredictionIntentRequest''),
      fld 2 ''pagination'' (Message ''PaginationRes'')],
    c_writes = [
      fld 1 ''predictionIntents'' (Messages ''PrismPredictionIntentRequest''),
      fld 2 ''pagination'' (Message ''PaginationRes'')]\<rparr>"

definition api_CommentIdRequest_interface :: "property list" where
  "api_CommentIdRequest_interface = [
      key ''commentId'' False TNumber]"

definition api_CommentIdRequest :: message_class where
  "api_CommentIdRequest = \<lparr>
    c_fields = [
      fld 1 ''comment_id'' (Implicit INT32)],
    c_create = [
      (''commentId'', PScalar (SInt 0))],
    c_reads = [
      fld 1 ''commentId'' (Implicit INT32)],
    c_writes = [
      fld 1 ''commentId'' (Implicit INT32)]\<rparr>"

definition api_ResolveMarketRequest_interface :: "property list" where
  "api_ResolveMarketRequest_interface = [
      key ''marketId'' False TString, key ''outcome'' False TNumber]"

definition api_ResolveMarketRequest :: message_class where
  "api_ResolveMarketRequest = \<lparr>
    c_fields = [
      fld 1 ''market_id'' (Implicit STRING), fld 2 ''outcome'' (Implicit INT32)],
    c_create = [
      (''marketId'', PScalar (SText [])), (''outcome'', PScalar (SInt 0))],
    c_reads = [
      fld 1 ''marketId'' (Implicit STRING), fld 2 ''outcome'' (Implicit INT32)],
    c_writes = [
      fld 1 ''marketId'' (Implicit STRING), fld 2 ''outcome'' (Implicit INT32)]\<rparr>"

definition api_CategoryRequest_interface :: "property list" where
  "api_CategoryRequest_interface = [
      key ''categoryId'' True TNumber, key ''name'' False TString, key ''isActive'' False TBoolean,
      key ''description'' False TString]"

definition api_CategoryRequest :: message_class where
  "api_CategoryRequest = \<lparr>
    c_fields = [
      fld 1 ''category_id'' (Optional INT32), fld 2 ''name'' (Implicit STRING), fld 3 ''is_active'' (Implicit BOOL),
      fld 4 ''description'' (Implicit STRING)],
    c_create = [
      (''name'', PScalar (SText [])), (''isActive'', PScalar (SBool False)), (''description'', PScalar (SText []))],
    c_reads = [
      fld 1 ''categoryId'' (Optional INT32), fld 2 ''name'' (Implicit STRING), fld 3 ''isActive'' (Implicit BOOL),
      fld 4 ''description'' (Implicit STRING)],
    c_writes = [
      fld 1 ''categoryId'' (Optional INT32), fld 2 ''name'' (Implicit STRING), fld 3 ''isActive'' (Implicit BOOL),
      fld 4 ''description'' (Implicit STRING)]\<rparr>"

definition api_CategoryResponse_interface :: "property list" where
  "api_CategoryResponse_interface = [
      key ''id'' False TNumber, key ''name'' False TString, key ''isActive'' False TBoolean,
      key ''description'' False TString]"

definition api_CategoryResponse :: message_class where
  "api_CategoryResponse = \<lparr>
    c_fields = [
      fld 1 ''id'' (Implicit INT32), fld 2 ''name'' (Implicit STRING), fld 3 ''is_active'' (Implicit BOOL),
      fld 4 ''description'' (Implicit STRING)],
    c_create = [
      (''id'', PScalar (SInt 0)), (''name'', PScalar (SText [])), (''isActive'', PScalar (SBool False)),
      (''description'', PScalar (SText []))],
    c_reads = [
      fld 1 ''id'' (Implicit INT32), fld 2 ''name'' (Implicit STRING), fld 3 ''isActive'' (Implicit BOOL),
      fld 4 ''description'' (Implicit STRING)],
    c_writes = [
      fld 1 ''id'' (Implicit INT32), fld 2 ''name'' (Implicit STRING), fld 3 ''isActive'' (Implicit BOOL),
      fld 4 ''description'' (Implicit STRING)]\<rparr>"

definition api_CategoryIdRequest_interface :: "property list" where
  "api_CategoryIdRequest_interface = [
      key ''categoryId'' False TNumber]"

definition api_CategoryIdRequest :: message_class where
  "api_CategoryIdRequest = \<lparr>
    c_fields = [
      fld 1 ''category_id'' (Implicit INT32)],
    c_create = [
      (''categoryId'', PScalar (SInt 0))],
    c_reads = [
      fld 1 ''categoryId'' (Implicit INT32)],
    c_writes = [
      fld 1 ''categoryId'' (Implicit INT32)]\<rparr>"

definition api_ChallengeRequest_interface :: "property list" where
  "api_ChallengeRequest_interface = [
      key ''accountId'' False TString, key ''network'' False TString]"

definition api_ChallengeRequest :: message_class where
  "api_ChallengeRequest = \<lparr>
    c_fields = [
      fld 1 ''account_id'' (Implicit STRING), fld 2 ''network'' (Implicit STRING)],
    c_create = [
      (''accountId'', PScalar (SText [])), (''network'', PScalar (SText []))],
    c_reads = [
      fld 1 ''accountId'' (Implicit STRING), fld 2 ''network'' (Implicit STRING)],
    c_writes = [
      fld 1 ''accountId'' (Implicit STRING), fld 2 ''network'' (Implicit STRING)]\<rparr>"

definition api_VerifyChallengeRequest_interface :: "property list" where
  "api_VerifyChallengeRequest_interface = [
      key ''challengeResponseBase64'' False TString, key ''payload'' False TString,
      key ''challengeRequest'' True (TRef ''ChallengeRequest'')]"

definition api_VerifyChallengeRequest :: message_class where
  "api_VerifyChallengeRequest = \<lparr>
    c_fields = [
      fld 1 ''challenge_response_base64'' (Implicit STRING), fld 2 ''payload'' (Implicit STRING),
      fld 3 ''challenge_request'' (Message ''ChallengeRequest'')],
    c_create = [
      (''challengeResponseBase64'', PScalar (SText [])), (''payload'', PScalar (SText []))],
    c_reads = [
      fld 1 ''challengeResponseBase64'' (Implicit STRING), fld 2 ''payload'' (Implicit STRING),
      fld 3 ''challengeRequest'' (Message ''ChallengeRequest'')],
    c_writes = [
      fld 1 ''challengeResponseBase64'' (Implicit STRING), fld 2 ''payload'' (Implicit STRING),
      fld 3 ''challengeRequest'' (Message ''ChallengeRequest'')]\<rparr>"

section \<open>All classes\<close>

definition api_classes :: "(string \<times> message_class) list" where
  "api_classes = [
      (''Empty'', api_Empty), (''StdResponse'', api_StdResponse), (''LimitOffsetRequest'', api_LimitOffsetRequest),
      (''PaginationRes'', api_PaginationRes), (''MarketIdRequest'', api_MarketIdRequest),
      (''TxIdRequest'', api_TxIdRequest), (''AccountIdRequest'', api_AccountIdRequest),
      (''PrismPredictionIntentRequest'', api_PrismPredictionIntentRequest), (''Category'', api_Category),
      (''UnixDateRange'', api_UnixDateRange), (''MacroMetadataResponse'', api_MacroMetadataResponse),
      (''NewsLetterRequest'', api_NewsLetterRequest), (''UserPortfolioRequest'', api_UserPortfolioRequest),
      (''PredictionIntentResponse'', api_PredictionIntentResponse), (''PredictionIntents'', api_PredictionIntents),
      (''Match'', api_Match), (''GetMatchesRequest'', api_GetMatchesRequest), (''Position'', api_Position),
      (''PositionInfo'', api_PositionInfo), (''UserPortfolioResponse'', api_UserPortfolioResponse),
      (''MarketResponse'', api_MarketResponse), (''MarketsResponse'', api_MarketsResponse),
      (''PriceHistoryRequest'', api_PriceHistoryRequest), (''PriceHistoryResponse'', api_PriceHistoryResponse),
      (''GetCommentsRequest'', api_GetCommentsRequest), (''Comment'', api_Comment),
      (''CreateCommentResponse'', api_CreateCommentResponse), (''GetCommentsResponse'', api_GetCommentsResponse),
      (''CreateCommentRequest'', api_CreateCommentRequest), (''CancelOrderRequest'', api_CancelOrderRequest),
      (''TxHash'', api_TxHash), (''TxIdHashesResponse'', api_TxIdHashesResponse),
      (''ClaimPrismRequest'', api_ClaimPrismRequest), (''PrismResponse'', api_PrismResponse),
      (''LOMreward'', api_LOMreward), (''Pointsreward'', api_Pointsreward),
      (''RewardsResponse'', api_RewardsResponse), (''CreateMarketRequest'', api_CreateMarketRequest),
      (''CreateMarketv2Request'', api_CreateMarketv2Request), (''CreateMarketResponse'', api_CreateMarketResponse),
      (''UpdateMarketRequest'', api_UpdateMarketRequest), (''PatchMarketRequest'', api_PatchMarketRequest),
      (''MatchesResponse'', api_MatchesResponse), (''PositionsResponse'', api_PositionsResponse),
      (''PredictionIntentsResponse'', api_PredictionIntentsResponse), (''CommentIdRequest'', api_CommentIdRequest),
      (''ResolveMarketRequest'', api_ResolveMarketRequest), (''CategoryRequest'', api_CategoryRequest),
      (''CategoryResponse'', api_CategoryResponse), (''CategoryIdRequest'', api_CategoryIdRequest),
      (''ChallengeRequest'', api_ChallengeRequest), (''VerifyChallengeRequest'', api_VerifyChallengeRequest)]"

definition api_interfaces :: "(string \<times> property list) list" where
  "api_interfaces = [
      (''Empty'', api_Empty_interface), (''StdResponse'', api_StdResponse_interface),
      (''LimitOffsetRequest'', api_LimitOffsetRequest_interface), (''PaginationRes'', api_PaginationRes_interface),
      (''MarketIdRequest'', api_MarketIdRequest_interface), (''TxIdRequest'', api_TxIdRequest_interface),
      (''AccountIdRequest'', api_AccountIdRequest_interface),
      (''PrismPredictionIntentRequest'', api_PrismPredictionIntentRequest_interface),
      (''Category'', api_Category_interface), (''UnixDateRange'', api_UnixDateRange_interface),
      (''MacroMetadataResponse'', api_MacroMetadataResponse_interface),
      (''NewsLetterRequest'', api_NewsLetterRequest_interface),
      (''UserPortfolioRequest'', api_UserPortfolioRequest_interface),
      (''PredictionIntentResponse'', api_PredictionIntentResponse_interface),
      (''PredictionIntents'', api_PredictionIntents_interface), (''Match'', api_Match_interface),
      (''GetMatchesRequest'', api_GetMatchesRequest_interface), (''Position'', api_Position_interface),
      (''PositionInfo'', api_PositionInfo_interface),
      (''UserPortfolioResponse'', api_UserPortfolioResponse_interface),
      (''MarketResponse'', api_MarketResponse_interface), (''MarketsResponse'', api_MarketsResponse_interface),
      (''PriceHistoryRequest'', api_PriceHistoryRequest_interface),
      (''PriceHistoryResponse'', api_PriceHistoryResponse_interface),
      (''GetCommentsRequest'', api_GetCommentsRequest_interface), (''Comment'', api_Comment_interface),
      (''CreateCommentResponse'', api_CreateCommentResponse_interface),
      (''GetCommentsResponse'', api_GetCommentsResponse_interface),
      (''CreateCommentRequest'', api_CreateCommentRequest_interface),
      (''CancelOrderRequest'', api_CancelOrderRequest_interface), (''TxHash'', api_TxHash_interface),
      (''TxIdHashesResponse'', api_TxIdHashesResponse_interface),
      (''ClaimPrismRequest'', api_ClaimPrismRequest_interface), (''PrismResponse'', api_PrismResponse_interface),
      (''LOMreward'', api_LOMreward_interface), (''Pointsreward'', api_Pointsreward_interface),
      (''RewardsResponse'', api_RewardsResponse_interface),
      (''CreateMarketRequest'', api_CreateMarketRequest_interface),
      (''CreateMarketv2Request'', api_CreateMarketv2Request_interface),
      (''CreateMarketResponse'', api_CreateMarketResponse_interface),
      (''UpdateMarketRequest'', api_UpdateMarketRequest_interface),
      (''PatchMarketRequest'', api_PatchMarketRequest_interface),
      (''MatchesResponse'', api_MatchesResponse_interface), (''PositionsResponse'', api_PositionsResponse_interface),
      (''PredictionIntentsResponse'', api_PredictionIntentsResponse_interface),
      (''CommentIdRequest'', api_CommentIdRequest_interface),
      (''ResolveMarketRequest'', api_ResolveMarketRequest_interface),
      (''CategoryRequest'', api_CategoryRequest_interface), (''CategoryResponse'', api_CategoryResponse_interface),
      (''CategoryIdRequest'', api_CategoryIdRequest_interface),
      (''ChallengeRequest'', api_ChallengeRequest_interface),
      (''VerifyChallengeRequest'', api_VerifyChallengeRequest_interface)]"

definition api_class :: schemas where
  "api_class n = (case map_of api_classes n of Some c \<Rightarrow> c | None \<Rightarrow> no_class)"

definition api_interface :: interfaces where
  "api_interface n = (case map_of api_interfaces n of Some ps \<Rightarrow> ps | None \<Rightarrow> [])"

section \<open>Agreement\<close>

lemma api_Empty_agrees: "class_agrees api_Empty \<and> interface_agrees api_Empty api_Empty_interface"
  by (simp add: agreement api_Empty_def api_Empty_interface_def)

lemma api_StdResponse_agrees: "class_agrees api_StdResponse \<and> interface_agrees api_StdResponse api_StdResponse_interface"
  by (simp add: agreement api_StdResponse_def api_StdResponse_interface_def)

lemma api_LimitOffsetRequest_agrees: "class_agrees api_LimitOffsetRequest \<and> interface_agrees api_LimitOffsetRequest api_LimitOffsetRequest_interface"
  by (simp add: agreement api_LimitOffsetRequest_def api_LimitOffsetRequest_interface_def)

lemma api_PaginationRes_agrees: "class_agrees api_PaginationRes \<and> interface_agrees api_PaginationRes api_PaginationRes_interface"
  by (simp add: agreement api_PaginationRes_def api_PaginationRes_interface_def)

lemma api_MarketIdRequest_agrees: "class_agrees api_MarketIdRequest \<and> interface_agrees api_MarketIdRequest api_MarketIdRequest_interface"
  by (simp add: agreement api_MarketIdRequest_def api_MarketIdRequest_interface_def)

lemma api_TxIdRequest_agrees: "class_agrees api_TxIdRequest \<and> interface_agrees api_TxIdRequest api_TxIdRequest_interface"
  by (simp add: agreement api_TxIdRequest_def api_TxIdRequest_interface_def)

lemma api_AccountIdRequest_agrees: "class_agrees api_AccountIdRequest \<and> interface_agrees api_AccountIdRequest api_AccountIdRequest_interface"
  by (simp add: agreement api_AccountIdRequest_def api_AccountIdRequest_interface_def)

lemma api_PrismPredictionIntentRequest_agrees: "class_agrees api_PrismPredictionIntentRequest \<and> interface_agrees api_PrismPredictionIntentRequest api_PrismPredictionIntentRequest_interface"
  by (simp add: agreement api_PrismPredictionIntentRequest_def api_PrismPredictionIntentRequest_interface_def)

lemma api_Category_agrees: "class_agrees api_Category \<and> interface_agrees api_Category api_Category_interface"
  by (simp add: agreement api_Category_def api_Category_interface_def)

lemma api_UnixDateRange_agrees: "class_agrees api_UnixDateRange \<and> interface_agrees api_UnixDateRange api_UnixDateRange_interface"
  by (simp add: agreement api_UnixDateRange_def api_UnixDateRange_interface_def)

lemma api_MacroMetadataResponse_agrees: "class_agrees api_MacroMetadataResponse \<and> interface_agrees api_MacroMetadataResponse api_MacroMetadataResponse_interface"
  by (simp add: agreement api_MacroMetadataResponse_def api_MacroMetadataResponse_interface_def)

lemma api_NewsLetterRequest_agrees: "class_agrees api_NewsLetterRequest \<and> interface_agrees api_NewsLetterRequest api_NewsLetterRequest_interface"
  by (simp add: agreement api_NewsLetterRequest_def api_NewsLetterRequest_interface_def)

lemma api_UserPortfolioRequest_agrees: "class_agrees api_UserPortfolioRequest \<and> interface_agrees api_UserPortfolioRequest api_UserPortfolioRequest_interface"
  by (simp add: agreement api_UserPortfolioRequest_def api_UserPortfolioRequest_interface_def)

lemma api_PredictionIntentResponse_agrees: "class_agrees api_PredictionIntentResponse \<and> interface_agrees api_PredictionIntentResponse api_PredictionIntentResponse_interface"
  by (simp add: agreement api_PredictionIntentResponse_def api_PredictionIntentResponse_interface_def)

lemma api_PredictionIntents_agrees: "class_agrees api_PredictionIntents \<and> interface_agrees api_PredictionIntents api_PredictionIntents_interface"
  by (simp add: agreement api_PredictionIntents_def api_PredictionIntents_interface_def)

lemma api_Match_agrees: "class_agrees api_Match \<and> interface_agrees api_Match api_Match_interface"
  by (simp add: agreement api_Match_def api_Match_interface_def)

lemma api_GetMatchesRequest_agrees: "class_agrees api_GetMatchesRequest \<and> interface_agrees api_GetMatchesRequest api_GetMatchesRequest_interface"
  by (simp add: agreement api_GetMatchesRequest_def api_GetMatchesRequest_interface_def)

lemma api_Position_agrees: "class_agrees api_Position \<and> interface_agrees api_Position api_Position_interface"
  by (simp add: agreement api_Position_def api_Position_interface_def)

lemma api_PositionInfo_agrees: "class_agrees api_PositionInfo \<and> interface_agrees api_PositionInfo api_PositionInfo_interface"
  by (simp add: agreement api_PositionInfo_def api_PositionInfo_interface_def)

lemma api_UserPortfolioResponse_agrees: "class_agrees api_UserPortfolioResponse \<and> interface_agrees api_UserPortfolioResponse api_UserPortfolioResponse_interface"
  by (simp add: agreement api_UserPortfolioResponse_def api_UserPortfolioResponse_interface_def)

lemma api_MarketResponse_agrees: "class_agrees api_MarketResponse \<and> interface_agrees api_MarketResponse api_MarketResponse_interface"
  by (simp add: agreement api_MarketResponse_def api_MarketResponse_interface_def)

lemma api_MarketsResponse_agrees: "class_agrees api_MarketsResponse \<and> interface_agrees api_MarketsResponse api_MarketsResponse_interface"
  by (simp add: agreement api_MarketsResponse_def api_MarketsResponse_interface_def)

lemma api_PriceHistoryRequest_agrees: "class_agrees api_PriceHistoryRequest \<and> interface_agrees api_PriceHistoryRequest api_PriceHistoryRequest_interface"
  by (simp add: agreement api_PriceHistoryRequest_def api_PriceHistoryRequest_interface_def)

lemma api_PriceHistoryResponse_agrees: "class_agrees api_PriceHistoryResponse \<and> interface_agrees api_PriceHistoryResponse api_PriceHistoryResponse_interface"
  by (simp add: agreement api_PriceHistoryResponse_def api_PriceHistoryResponse_interface_def)

lemma api_GetCommentsRequest_agrees: "class_agrees api_GetCommentsRequest \<and> interface_agrees api_GetCommentsRequest api_GetCommentsRequest_interface"
  by (simp add: agreement api_GetCommentsRequest_def api_GetCommentsRequest_interface_def)

lemma api_Comment_agrees: "class_agrees api_Comment \<and> interface_agrees api_Comment api_Comment_interface"
  by (simp add: agreement api_Comment_def api_Comment_interface_def)

lemma api_CreateCommentResponse_agrees: "class_agrees api_CreateCommentResponse \<and> interface_agrees api_CreateCommentResponse api_CreateCommentResponse_interface"
  by (simp add: agreement api_CreateCommentResponse_def api_CreateCommentResponse_interface_def)

lemma api_GetCommentsResponse_agrees: "class_agrees api_GetCommentsResponse \<and> interface_agrees api_GetCommentsResponse api_GetCommentsResponse_interface"
  by (simp add: agreement api_GetCommentsResponse_def api_GetCommentsResponse_interface_def)

lemma api_CreateCommentRequest_agrees: "class_agrees api_CreateCommentRequest \<and> interface_agrees api_CreateCommentRequest api_CreateCommentRequest_interface"
  by (simp add: agreement api_CreateCommentRequest_def api_CreateCommentRequest_interface_def)

lemma api_CancelOrderRequest_agrees: "class_agrees api_CancelOrderRequest \<and> interface_agrees api_CancelOrderRequest api_CancelOrderRequest_interface"
  by (simp add: agreement api_CancelOrderRequest_def api_CancelOrderRequest_interface_def)

lemma api_TxHash_agrees: "class_agrees api_TxHash \<and> interface_agrees api_TxHash api_TxHash_interface"
  by (simp add: agreement api_TxHash_def api_TxHash_interface_def)

lemma api_TxIdHashesResponse_agrees: "class_agrees api_TxIdHashesResponse \<and> interface_agrees api_TxIdHashesResponse api_TxIdHashesResponse_interface"
  by (simp add: agreement api_TxIdHashesResponse_def api_TxIdHashesResponse_interface_def)

lemma api_ClaimPrismRequest_agrees: "class_agrees api_ClaimPrismRequest \<and> interface_agrees api_ClaimPrismRequest api_ClaimPrismRequest_interface"
  by (simp add: agreement api_ClaimPrismRequest_def api_ClaimPrismRequest_interface_def)

lemma api_PrismResponse_agrees: "class_agrees api_PrismResponse \<and> interface_agrees api_PrismResponse api_PrismResponse_interface"
  by (simp add: agreement api_PrismResponse_def api_PrismResponse_interface_def)

lemma api_LOMreward_agrees: "class_agrees api_LOMreward \<and> interface_agrees api_LOMreward api_LOMreward_interface"
  by (simp add: agreement api_LOMreward_def api_LOMreward_interface_def)

lemma api_Pointsreward_agrees: "class_agrees api_Pointsreward \<and> interface_agrees api_Pointsreward api_Pointsreward_interface"
  by (simp add: agreement api_Pointsreward_def api_Pointsreward_interface_def)

lemma api_RewardsResponse_agrees: "class_agrees api_RewardsResponse \<and> interface_agrees api_RewardsResponse api_RewardsResponse_interface"
  by (simp add: agreement api_RewardsResponse_def api_RewardsResponse_interface_def)

lemma api_CreateMarketRequest_agrees: "class_agrees api_CreateMarketRequest \<and> interface_agrees api_CreateMarketRequest api_CreateMarketRequest_interface"
  by (simp add: agreement api_CreateMarketRequest_def api_CreateMarketRequest_interface_def)

lemma api_CreateMarketv2Request_agrees: "class_agrees api_CreateMarketv2Request \<and> interface_agrees api_CreateMarketv2Request api_CreateMarketv2Request_interface"
  by (simp add: agreement api_CreateMarketv2Request_def api_CreateMarketv2Request_interface_def)

lemma api_CreateMarketResponse_agrees: "class_agrees api_CreateMarketResponse \<and> interface_agrees api_CreateMarketResponse api_CreateMarketResponse_interface"
  by (simp add: agreement api_CreateMarketResponse_def api_CreateMarketResponse_interface_def)

lemma api_UpdateMarketRequest_agrees: "class_agrees api_UpdateMarketRequest \<and> interface_agrees api_UpdateMarketRequest api_UpdateMarketRequest_interface"
  by (simp add: agreement api_UpdateMarketRequest_def api_UpdateMarketRequest_interface_def)

lemma api_PatchMarketRequest_agrees: "class_agrees api_PatchMarketRequest \<and> interface_agrees api_PatchMarketRequest api_PatchMarketRequest_interface"
  by (simp add: agreement api_PatchMarketRequest_def api_PatchMarketRequest_interface_def)

lemma api_MatchesResponse_agrees: "class_agrees api_MatchesResponse \<and> interface_agrees api_MatchesResponse api_MatchesResponse_interface"
  by (simp add: agreement api_MatchesResponse_def api_MatchesResponse_interface_def)

lemma api_PositionsResponse_agrees: "class_agrees api_PositionsResponse \<and> interface_agrees api_PositionsResponse api_PositionsResponse_interface"
  by (simp add: agreement api_PositionsResponse_def api_PositionsResponse_interface_def)

lemma api_PredictionIntentsResponse_agrees: "class_agrees api_PredictionIntentsResponse \<and> interface_agrees api_PredictionIntentsResponse api_PredictionIntentsResponse_interface"
  by (simp add: agreement api_PredictionIntentsResponse_def api_PredictionIntentsResponse_interface_def)

lemma api_CommentIdRequest_agrees: "class_agrees api_CommentIdRequest \<and> interface_agrees api_CommentIdRequest api_CommentIdRequest_interface"
  by (simp add: agreement api_CommentIdRequest_def api_CommentIdRequest_interface_def)

lemma api_ResolveMarketRequest_agrees: "class_agrees api_ResolveMarketRequest \<and> interface_agrees api_ResolveMarketRequest api_ResolveMarketRequest_interface"
  by (simp add: agreement api_ResolveMarketRequest_def api_ResolveMarketRequest_interface_def)

lemma api_CategoryRequest_agrees: "class_agrees api_CategoryRequest \<and> interface_agrees api_CategoryRequest api_CategoryRequest_interface"
  by (simp add: agreement api_CategoryRequest_def api_CategoryRequest_interface_def)

lemma api_CategoryResponse_agrees: "class_agrees api_CategoryResponse \<and> interface_agrees api_CategoryResponse api_CategoryResponse_interface"
  by (simp add: agreement api_CategoryResponse_def api_CategoryResponse_interface_def)

lemma api_CategoryIdRequest_agrees: "class_agrees api_CategoryIdRequest \<and> interface_agrees api_CategoryIdRequest api_CategoryIdRequest_interface"
  by (simp add: agreement api_CategoryIdRequest_def api_CategoryIdRequest_interface_def)

lemma api_ChallengeRequest_agrees: "class_agrees api_ChallengeRequest \<and> interface_agrees api_ChallengeRequest api_ChallengeRequest_interface"
  by (simp add: agreement api_ChallengeRequest_def api_ChallengeRequest_interface_def)

lemma api_VerifyChallengeRequest_agrees: "class_agrees api_VerifyChallengeRequest \<and> interface_agrees api_VerifyChallengeRequest api_VerifyChallengeRequest_interface"
  by (simp add: agreement api_VerifyChallengeRequest_def api_VerifyChallengeRequest_interface_def)

lemmas api_agree =
  api_Empty_agrees api_StdResponse_agrees api_LimitOffsetRequest_agrees api_PaginationRes_agrees
  api_MarketIdRequest_agrees api_TxIdRequest_agrees api_AccountIdRequest_agrees
  api_PrismPredictionIntentRequest_agrees api_Category_agrees api_UnixDateRange_agrees
  api_MacroMetadataResponse_agrees api_NewsLetterRequest_agrees api_UserPortfolioRequest_agrees
  api_PredictionIntentResponse_agrees api_PredictionIntents_agrees api_Match_agrees api_GetMatchesRequest_agrees
  api_Position_agrees api_PositionInfo_agrees api_UserPortfolioResponse_agrees api_MarketResponse_agrees
  api_MarketsResponse_agrees api_PriceHistoryRequest_agrees api_PriceHistoryResponse_agrees
  api_GetCommentsRequest_agrees api_Comment_agrees api_CreateCommentResponse_agrees api_GetCommentsResponse_agrees
  api_CreateCommentRequest_agrees api_CancelOrderRequest_agrees api_TxHash_agrees api_TxIdHashesResponse_agrees
  api_ClaimPrismRequest_agrees api_PrismResponse_agrees api_LOMreward_agrees api_Pointsreward_agrees
  api_RewardsResponse_agrees api_CreateMarketRequest_agrees api_CreateMarketv2Request_agrees
  api_CreateMarketResponse_agrees api_UpdateMarketRequest_agrees api_PatchMarketRequest_agrees
  api_MatchesResponse_agrees api_PositionsResponse_agrees api_PredictionIntentsResponse_agrees
  api_CommentIdRequest_agrees api_ResolveMarketRequest_agrees api_CategoryRequest_agrees
  api_CategoryResponse_agrees api_CategoryIdRequest_agrees api_ChallengeRequest_agrees
  api_VerifyChallengeRequest_agrees

end
