(* ===== verification/ClobMessages.thy ===== *)
theory ClobMessages
  imports Protobuf
begin

text \<open>
  The messages of the order book service (\<open>src/web/gen/clob.ts\<close>). For each message its interface and its class: what the constructor
  declares, what \<open>create\<close> assigns, the cases of \<open>internalBinaryRead\<close> and the statements of \<open>internalBinaryWrite\<close>, in the
  order of the file.
\<close>

definition clob_Empty_interface :: "property list" where
  "clob_Empty_interface = []"

definition clob_Empty :: message_class where
  "clob_Empty = \<lparr>
    c_fields = [],
    c_create = [],
    c_reads = [],
    c_writes = []\<rparr>"

definition clob_CreateOrderRequestClob_interface :: "property list" where
  "clob_CreateOrderRequestClob_interface = [
      key ''txId'' False TString, key ''net'' False TString, key ''marketId'' False TString,
      key ''accountId'' False TString, key ''sig'' False TString, key ''publicKey'' False TString,
      key ''evmAddress'' False TString, key ''keyType'' False TNumber, key ''chainId'' False TBigint,
      key ''verifyingContract'' False TString, key ''side'' False TNumber, key ''action'' False TNumber,
      key ''limitYesPrice'' False TBigint, key ''qtyShares'' False TBigint, key ''collateralCap'' False TBigint,
      key ''deadline'' False TBigint, key ''sharesFilled'' False TBigint, key ''collateralFilled'' False TBigint]"

definition clob_CreateOrderRequestClob :: message_class where
  "clob_CreateOrderRequestClob = \<lparr>
    c_fields = [
      fld 1 ''tx_id'' (Implicit STRING), fld 2 ''net'' (Implicit STRING), fld 3 ''market_id'' (Implicit STRING),
      fld 4 ''account_id'' (Implicit STRING), fld 8 ''sig'' (Implicit STRING), fld 9 ''public_key'' (Implicit STRING),
      fld 10 ''evm_address'' (Implicit STRING), fld 11 ''key_type'' (Implicit INT32),
      fld 13 ''chain_id'' (Implicit UINT64), fld 14 ''verifying_contract'' (Implicit STRING),
      fld 15 ''side'' (Implicit UINT32), fld 16 ''action'' (Implicit UINT32),
      fld 17 ''limit_yes_price'' (Implicit UINT64), fld 18 ''qty_shares'' (Implicit UINT64),
      fld 19 ''collateral_cap'' (Implicit UINT64), fld 20 ''deadline'' (Implicit UINT64),
      fld 21 ''shares_filled'' (Implicit UINT64), fld 22 ''collateral_filled'' (Implicit UINT64)],
    c_create = [
      (''txId'', PScalar (SText [])), (''net'', PScalar (SText [])), (''marketId'', PScalar (SText [])),
      (''accountId'', PScalar (SText [])), (''sig'', PScalar (SText [])), (''publicKey'', PScalar (SText [])),
      (''evmAddress'', PScalar (SText [])), (''keyType'', PScalar (SInt 0)), (''chainId'', PScalar (SBig 0)),
      (''verifyingContract'', PScalar (SText [])), (''side'', PScalar (SInt 0)), (''action'', PScalar (SInt 0)),
      (''limitYesPrice'', PScalar (SBig 0)), (''qtyShares'', PScalar (SBig 0)), (''collateralCap'', PScalar (SBig 0)),
      (''deadline'', PScalar (SBig 0)), (''sharesFilled'', PScalar (SBig 0)), (''collateralFilled'', PScalar (SBig 0))],
    c_reads = [
      fld 1 ''txId'' (Implicit STRING), fld 2 ''net'' (Implicit STRING), fld 3 ''marketId'' (Implicit STRING),
      fld 4 ''accountId'' (Implicit STRING), fld 8 ''sig'' (Implicit STRING), fld 9 ''publicKey'' (Implicit STRING),
      fld 10 ''evmAddress'' (Implicit STRING), fld 11 ''keyType'' (Implicit INT32),
      fld 13 ''chainId'' (Implicit UINT64), fld 14 ''verifyingContract'' (Implicit STRING),
      fld 15 ''side'' (Implicit UINT32), fld 16 ''action'' (Implicit UINT32),
      fld 17 ''limitYesPrice'' (Implicit UINT64), fld 18 ''qtyShares'' (Implicit UINT64),
      fld 19 ''collateralCap'' (Implicit UINT64), fld 20 ''deadline'' (Implicit UINT64),
      fld 21 ''sharesFilled'' (Implicit UINT64), fld 22 ''collateralFilled'' (Implicit UINT64)],
    c_writes = [
      fld 1 ''txId'' (Implicit STRING), fld 2 ''net'' (Implicit STRING), fld 3 ''marketId'' (Implicit STRING),
      fld 4 ''accountId'' (Implicit STRING), fld 8 ''sig'' (Implicit STRING), fld 9 ''publicKey'' (Implicit STRING),
      fld 10 ''evmAddress'' (Implicit STRING), fld 11 ''keyType'' (Implicit INT32),
      fld 13 ''chainId'' (Implicit UINT64), fld 14 ''verifyingContract'' (Implicit STRING),
      fld 15 ''side'' (Implicit UINT32), fld 16 ''action'' (Implicit UINT32),
      fld 17 ''limitYesPrice'' (Implicit UINT64), fld 18 ''qtyShares'' (Implicit UINT64),
      fld 19 ''collateralCap'' (Implicit UINT64), fld 20 ''deadline'' (Implicit UINT64),
      fld 21 ''sharesFilled'' (Implicit UINT64), fld 22 ''collateralFilled'' (Implicit UINT64)]\<rparr>"

definition clob_ClobMatch_interface :: "property list" where
  "clob_ClobMatch_interface = [
      key ''marketId'' False TString, key ''bid'' True (TRef ''CreateOrderRequestClob''),
      key ''ask'' True (TRef ''CreateOrderRequestClob''), key ''fillShares'' False TBigint,
      key ''executionYesPrice'' False TBigint, key ''yesCollateral'' False TBigint, key ''noCollateral'' False TBigint]"

definition clob_ClobMatch :: message_class where
  "clob_ClobMatch = \<lparr>
    c_fields = [
      fld 1 ''market_id'' (Implicit STRING), fld 2 ''bid'' (Message ''CreateOrderRequestClob''),
      fld 3 ''ask'' (Message ''CreateOrderRequestClob''), fld 4 ''fill_shares'' (Implicit UINT64),
      fld 5 ''execution_yes_price'' (Implicit UINT64), fld 6 ''yes_collateral'' (Implicit UINT64),
      fld 7 ''no_collateral'' (Implicit UINT64)],
    c_create = [
      (''marketId'', PScalar (SText [])), (''fillShares'', PScalar (SBig 0)),
      (''executionYesPrice'', PScalar (SBig 0)), (''yesCollateral'', PScalar (SBig 0)),
      (''noCollateral'', PScalar (SBig 0))],
    c_reads = [
      fld 1 ''marketId'' (Implicit STRING), fld 2 ''bid'' (Message ''CreateOrderRequestClob''),
      fld 3 ''ask'' (Message ''CreateOrderRequestClob''), fld 4 ''fillShares'' (Implicit UINT64),
      fld 5 ''executionYesPrice'' (Implicit UINT64), fld 6 ''yesCollateral'' (Implicit UINT64),
      fld 7 ''noCollateral'' (Implicit UINT64)],
    c_writes = [
      fld 1 ''marketId'' (Implicit STRING), fld 2 ''bid'' (Message ''CreateOrderRequestClob''),
      fld 3 ''ask'' (Message ''CreateOrderRequestClob''), fld 4 ''fillShares'' (Implicit UINT64),
      fld 5 ''executionYesPrice'' (Implicit UINT64), fld 6 ''yesCollateral'' (Implicit UINT64),
      fld 7 ''noCollateral'' (Implicit UINT64)]\<rparr>"

definition clob_StdResponse_interface :: "property list" where
  "clob_StdResponse_interface = [
      key ''message'' False TString, key ''errorCode'' False TNumber]"

definition clob_StdResponse :: message_class where
  "clob_StdResponse = \<lparr>
    c_fields = [
      fld 1 ''message'' (Implicit STRING), fld 2 ''error_code'' (Implicit INT32)],
    c_create = [
      (''message'', PScalar (SText [])), (''errorCode'', PScalar (SInt 0))],
    c_reads = [
      fld 1 ''message'' (Implicit STRING), fld 2 ''errorCode'' (Implicit INT32)],
    c_writes = [
      fld 1 ''message'' (Implicit STRING), fld 2 ''errorCode'' (Implicit INT32)]\<rparr>"

definition clob_BookRequest_interface :: "property list" where
  "clob_BookRequest_interface = [
      key ''marketId'' False TString, key ''depth'' False TNumber]"

definition clob_BookRequest :: message_class where
  "clob_BookRequest = \<lparr>
    c_fields = [
      fld 1 ''market_id'' (Implicit STRING), fld 2 ''depth'' (Implicit UINT32)],
    c_create = [
      (''marketId'', PScalar (SText [])), (''depth'', PScalar (SInt 0))],
    c_reads = [
      fld 1 ''marketId'' (Implicit STRING), fld 2 ''depth'' (Implicit UINT32)],
    c_writes = [
      fld 1 ''marketId'' (Implicit STRING), fld 2 ''depth'' (Implicit UINT32)]\<rparr>"

definition clob_OrderDetail_interface :: "property list" where
  "clob_OrderDetail_interface = [
      key ''txId'' False TString, key ''accountId'' False TString, key ''limitYesPrice'' False TBigint,
      key ''sharesRemaining'' False TBigint, key ''side'' False TNumber, key ''action'' False TNumber]"

definition clob_OrderDetail :: message_class where
  "clob_OrderDetail = \<lparr>
    c_fields = [
      fld 1 ''tx_id'' (Implicit STRING), fld 2 ''account_id'' (Implicit STRING),
      fld 6 ''limit_yes_price'' (Implicit UINT64), fld 7 ''shares_remaining'' (Implicit UINT64),
      fld 8 ''side'' (Implicit UINT32), fld 9 ''action'' (Implicit UINT32)],
    c_create = [
      (''txId'', PScalar (SText [])), (''accountId'', PScalar (SText [])), (''limitYesPrice'', PScalar (SBig 0)),
      (''sharesRemaining'', PScalar (SBig 0)), (''side'', PScalar (SInt 0)), (''action'', PScalar (SInt 0))],
    c_reads = [
      fld 1 ''txId'' (Implicit STRING), fld 2 ''accountId'' (Implicit STRING),
      fld 6 ''limitYesPrice'' (Implicit UINT64), fld 7 ''sharesRemaining'' (Implicit UINT64),
      fld 8 ''side'' (Implicit UINT32), fld 9 ''action'' (Implicit UINT32)],
    c_writes = [
      fld 1 ''txId'' (Implicit STRING), fld 2 ''accountId'' (Implicit STRING),
      fld 6 ''limitYesPrice'' (Implicit UINT64), fld 7 ''sharesRemaining'' (Implicit UINT64),
      fld 8 ''side'' (Implicit UINT32), fld 9 ''action'' (Implicit UINT32)]\<rparr>"

definition clob_BookSnapshot_interface :: "property list" where
  "clob_BookSnapshot_interface = [
      key ''bids'' False (TArray (TRef ''OrderDetail'')), key ''asks'' False (TArray (TRef ''OrderDetail''))]"

definition clob_BookSnapshot :: message_class where
  "clob_BookSnapshot = \<lparr>
    c_fields = [
      fld 1 ''bids'' (Messages ''OrderDetail''), fld 2 ''asks'' (Messages ''OrderDetail'')],
    c_create = [
      (''bids'', PList []), (''asks'', PList [])],
    c_reads = [
      fld 1 ''bids'' (Messages ''OrderDetail''), fld 2 ''asks'' (Messages ''OrderDetail'')],
    c_writes = [
      fld 1 ''bids'' (Messages ''OrderDetail''), fld 2 ''asks'' (Messages ''OrderDetail'')]\<rparr>"

definition clob_CreateMarketRequest_interface :: "property list" where
  "clob_CreateMarketRequest_interface = [
      key ''marketId'' False TString]"

definition clob_CreateMarketRequest :: message_class where
  "clob_CreateMarketRequest = \<lparr>
    c_fields = [
      fld 1 ''market_id'' (Implicit STRING)],
    c_create = [
      (''marketId'', PScalar (SText []))],
    c_reads = [
      fld 1 ''marketId'' (Implicit STRING)],
    c_writes = [
      fld 1 ''marketId'' (Implicit STRING)]\<rparr>"

definition clob_MarketIdRequest_interface :: "property list" where
  "clob_MarketIdRequest_interface = [
      key ''marketId'' False TString]"

definition clob_MarketIdRequest :: message_class where
  "clob_MarketIdRequest = \<lparr>
    c_fields = [
      fld 1 ''market_id'' (Implicit STRING)],
    c_create = [
      (''marketId'', PScalar (SText []))],
    c_reads = [
      fld 1 ''marketId'' (Implicit STRING)],
    c_writes = [
      fld 1 ''marketId'' (Implicit STRING)]\<rparr>"

definition clob_PriceUpdate_interface :: "property list" where
  "clob_PriceUpdate_interface = [
      key ''priceBidUsd'' False TNumber, key ''priceAskUsd'' False TNumber, key ''timestampMs'' False TBigint]"

definition clob_PriceUpdate :: message_class where
  "clob_PriceUpdate = \<lparr>
    c_fields = [
      fld 1 ''price_bid_usd'' (Implicit DOUBLE), fld 2 ''price_ask_usd'' (Implicit DOUBLE),
      fld 3 ''timestamp_ms'' (Implicit INT64)],
    c_create = [
      (''priceBidUsd'', PScalar (SNum (JNum 0))), (''priceAskUsd'', PScalar (SNum (JNum 0))),
      (''timestampMs'', PScalar (SBig 0))],
    c_reads = [
      fld 1 ''priceBidUsd'' (Implicit DOUBLE), fld 2 ''priceAskUsd'' (Implicit DOUBLE),
      fld 3 ''timestampMs'' (Implicit INT64)],
    c_writes = [
      fld 1 ''priceBidUsd'' (Implicit DOUBLE), fld 2 ''priceAskUsd'' (Implicit DOUBLE),
      fld 3 ''timestampMs'' (Implicit INT64)]\<rparr>"

definition clob_CancelOrderRequest_interface :: "property list" where
  "clob_CancelOrderRequest_interface = [
      key ''marketId'' False TString, key ''txId'' False TString]"

definition clob_CancelOrderRequest :: message_class where
  "clob_CancelOrderRequest = \<lparr>
    c_fields = [
      fld 1 ''market_id'' (Implicit STRING), fld 2 ''tx_id'' (Implicit STRING)],
    c_create = [
      (''marketId'', PScalar (SText [])), (''txId'', PScalar (SText []))],
    c_reads = [
      fld 1 ''marketId'' (Implicit STRING), fld 2 ''txId'' (Implicit STRING)],
    c_writes = [
      fld 1 ''marketId'' (Implicit STRING), fld 2 ''txId'' (Implicit STRING)]\<rparr>"

definition clob_UserRequest_interface :: "property list" where
  "clob_UserRequest_interface = [
      key ''evmAddress'' False TString]"

definition clob_UserRequest :: message_class where
  "clob_UserRequest = \<lparr>
    c_fields = [
      fld 1 ''evm_address'' (Implicit STRING)],
    c_create = [
      (''evmAddress'', PScalar (SText []))],
    c_reads = [
      fld 1 ''evmAddress'' (Implicit STRING)],
    c_writes = [
      fld 1 ''evmAddress'' (Implicit STRING)]\<rparr>"

definition clob_OrdersForUserResponse_interface :: "property list" where
  "clob_OrdersForUserResponse_interface = [
      key ''openOrders'' False (TArray (TRef ''CreateOrderRequestClob''))]"

definition clob_OrdersForUserResponse :: message_class where
  "clob_OrdersForUserResponse = \<lparr>
    c_fields = [
      fld 1 ''open_orders'' (Messages ''CreateOrderRequestClob'')],
    c_create = [
      (''openOrders'', PList [])],
    c_reads = [
      fld 1 ''openOrders'' (Messages ''CreateOrderRequestClob'')],
    c_writes = [
      fld 1 ''openOrders'' (Messages ''CreateOrderRequestClob'')]\<rparr>"

definition clob_MarketDepthQtyResponse_interface :: "property list" where
  "clob_MarketDepthQtyResponse_interface = [
      key ''sharesBid'' False TBigint, key ''sharesAsk'' False TBigint]"

definition clob_MarketDepthQtyResponse :: message_class where
  "clob_MarketDepthQtyResponse = \<lparr>
    c_fields = [
      fld 3 ''shares_bid'' (Implicit UINT64), fld 4 ''shares_ask'' (Implicit UINT64)],
    c_create = [
      (''sharesBid'', PScalar (SBig 0)), (''sharesAsk'', PScalar (SBig 0))],
    c_reads = [
      fld 3 ''sharesBid'' (Implicit UINT64), fld 4 ''sharesAsk'' (Implicit UINT64)],
    c_writes = [
      fld 3 ''sharesBid'' (Implicit UINT64), fld 4 ''sharesAsk'' (Implicit UINT64)]\<rparr>"

section \<open>All classes\<close>

definition clob_classes :: "(string \<times> message_class) list" where
  "clob_classes = [
      (''Empty'', clob_Empty), (''CreateOrderRequestClob'', clob_CreateOrderRequestClob),
      (''ClobMatch'', clob_ClobMatch), (''StdResponse'', clob_StdResponse), (''BookRequest'', clob_BookRequest),
      (''OrderDetail'', clob_OrderDetail), (''BookSnapshot'', clob_BookSnapshot),
      (''CreateMarketRequest'', clob_CreateMarketRequest), (''MarketIdRequest'', clob_MarketIdRequest),
      (''PriceUpdate'', clob_PriceUpdate), (''CancelOrderRequest'', clob_CancelOrderRequest),
      (''UserRequest'', clob_UserRequest), (''OrdersForUserResponse'', clob_OrdersForUserResponse),
      (''MarketDepthQtyResponse'', clob_MarketDepthQtyResponse)]"

definition clob_interfaces :: "(string \<times> property list) list" where
  "clob_interfaces = [
      (''Empty'', clob_Empty_interface), (''CreateOrderRequestClob'', clob_CreateOrderRequestClob_interface),
      (''ClobMatch'', clob_ClobMatch_interface), (''StdResponse'', clob_StdResponse_interface),
      (''BookRequest'', clob_BookRequest_interface), (''OrderDetail'', clob_OrderDetail_interface),
      (''BookSnapshot'', clob_BookSnapshot_interface), (''CreateMarketRequest'', clob_CreateMarketRequest_interface),
      (''MarketIdRequest'', clob_MarketIdRequest_interface), (''PriceUpdate'', clob_PriceUpdate_interface),
      (''CancelOrderRequest'', clob_CancelOrderRequest_interface), (''UserRequest'', clob_UserRequest_interface),
      (''OrdersForUserResponse'', clob_OrdersForUserResponse_interface),
      (''MarketDepthQtyResponse'', clob_MarketDepthQtyResponse_interface)]"

definition clob_class :: schemas where
  "clob_class n = (case map_of clob_classes n of Some c \<Rightarrow> c | None \<Rightarrow> no_class)"

definition clob_interface :: interfaces where
  "clob_interface n = (case map_of clob_interfaces n of Some ps \<Rightarrow> ps | None \<Rightarrow> [])"

section \<open>Agreement\<close>

lemma clob_Empty_agrees: "class_agrees clob_Empty \<and> interface_agrees clob_Empty clob_Empty_interface"
  by (simp add: agreement clob_Empty_def clob_Empty_interface_def)

lemma clob_CreateOrderRequestClob_agrees: "class_agrees clob_CreateOrderRequestClob \<and> interface_agrees clob_CreateOrderRequestClob clob_CreateOrderRequestClob_interface"
  by (simp add: agreement clob_CreateOrderRequestClob_def clob_CreateOrderRequestClob_interface_def)

lemma clob_ClobMatch_agrees: "class_agrees clob_ClobMatch \<and> interface_agrees clob_ClobMatch clob_ClobMatch_interface"
  by (simp add: agreement clob_ClobMatch_def clob_ClobMatch_interface_def)

lemma clob_StdResponse_agrees: "class_agrees clob_StdResponse \<and> interface_agrees clob_StdResponse clob_StdResponse_interface"
  by (simp add: agreement clob_StdResponse_def clob_StdResponse_interface_def)

lemma clob_BookRequest_agrees: "class_agrees clob_BookRequest \<and> interface_agrees clob_BookRequest clob_BookRequest_interface"
  by (simp add: agreement clob_BookRequest_def clob_BookRequest_interface_def)

lemma clob_OrderDetail_agrees: "class_agrees clob_OrderDetail \<and> interface_agrees clob_OrderDetail clob_OrderDetail_interface"
  by (simp add: agreement clob_OrderDetail_def clob_OrderDetail_interface_def)

lemma clob_BookSnapshot_agrees: "class_agrees clob_BookSnapshot \<and> interface_agrees clob_BookSnapshot clob_BookSnapshot_interface"
  by (simp add: agreement clob_BookSnapshot_def clob_BookSnapshot_interface_def)

lemma clob_CreateMarketRequest_agrees: "class_agrees clob_CreateMarketRequest \<and> interface_agrees clob_CreateMarketRequest clob_CreateMarketRequest_interface"
  by (simp add: agreement clob_CreateMarketRequest_def clob_CreateMarketRequest_interface_def)

lemma clob_MarketIdRequest_agrees: "class_agrees clob_MarketIdRequest \<and> interface_agrees clob_MarketIdRequest clob_MarketIdRequest_interface"
  by (simp add: agreement clob_MarketIdRequest_def clob_MarketIdRequest_interface_def)

lemma clob_PriceUpdate_agrees: "class_agrees clob_PriceUpdate \<and> interface_agrees clob_PriceUpdate clob_PriceUpdate_interface"
  by (simp add: agreement clob_PriceUpdate_def clob_PriceUpdate_interface_def)

lemma clob_CancelOrderRequest_agrees: "class_agrees clob_CancelOrderRequest \<and> interface_agrees clob_CancelOrderRequest clob_CancelOrderRequest_interface"
  by (simp add: agreement clob_CancelOrderRequest_def clob_CancelOrderRequest_interface_def)

lemma clob_UserRequest_agrees: "class_agrees clob_UserRequest \<and> interface_agrees clob_UserRequest clob_UserRequest_interface"
  by (simp add: agreement clob_UserRequest_def clob_UserRequest_interface_def)

lemma clob_OrdersForUserResponse_agrees: "class_agrees clob_OrdersForUserResponse \<and> interface_agrees clob_OrdersForUserResponse clob_OrdersForUserResponse_interface"
  by (simp add: agreement clob_OrdersForUserResponse_def clob_OrdersForUserResponse_interface_def)

lemma clob_MarketDepthQtyResponse_agrees: "class_agrees clob_MarketDepthQtyResponse \<and> interface_agrees clob_MarketDepthQtyResponse clob_MarketDepthQtyResponse_interface"
  by (simp add: agreement clob_MarketDepthQtyResponse_def clob_MarketDepthQtyResponse_interface_def)

lemmas clob_agree =
  clob_Empty_agrees clob_CreateOrderRequestClob_agrees clob_ClobMatch_agrees clob_StdResponse_agrees
  clob_BookRequest_agrees clob_OrderDetail_agrees clob_BookSnapshot_agrees clob_CreateMarketRequest_agrees
  clob_MarketIdRequest_agrees clob_PriceUpdate_agrees clob_CancelOrderRequest_agrees clob_UserRequest_agrees
  clob_OrdersForUserResponse_agrees clob_MarketDepthQtyResponse_agrees

end
