(* ===== verification/WireFormat.thy ===== *)
theory WireFormat
  imports Protobuf
begin

text \<open>
  The encoding of the protocol buffers documentation as a runtime: varints, little-endian fixed widths, lengths, and
  the tag that joins the number of a field and its wire type. It shows that the laws of \<open>protobuf_runtime\<close> and
  \<open>typed_runtime\<close> can be met, and is what the concrete messages are evaluated with. Groups are not read.
\<close>

section \<open>Varints and fixed widths\<close>

fun varint :: "nat \<Rightarrow> bytes" where
  "varint n = (if n < 128 then [int n] else int (n mod 128 + 128) # varint (n div 128))"

declare varint.simps [simp del]

fun get_varint :: "nat \<Rightarrow> bytes \<Rightarrow> (nat \<times> bytes) option" where
  "get_varint 0 bs = None"
| "get_varint (Suc k) [] = None"
| "get_varint (Suc k) (b # bs) =
     (if b < 128 then Some (nat b, bs)
      else map_option (\<lambda>(n, r). (nat b - 128 + 128 * n, r)) (get_varint k bs))"

lemma get_varint_back: "n < 128 ^ k \<Longrightarrow> 0 < k \<Longrightarrow> get_varint k (varint n @ r) = Some (n, r)"
proof (induction k arbitrary: n)
  case (Suc k)
  show ?case
  proof (cases "n < 128")
    case False
    have "get_varint k (varint (n div 128) @ r) = Some (n div 128, r)"
      using Suc.prems False by (intro Suc.IH) (auto simp: less_mult_imp_div_less mult.commute intro!: gr0I)
    then show ?thesis using False by (subst varint.simps) (simp add: nat_add_distrib)
  qed (simp add: varint.simps)
qed (simp add: varint.simps)

lemma varint_nonempty [simp]: "varint n \<noteq> []"
  by (subst varint.simps) simp

lemma varint_length: "n < 128 ^ length (varint n)"
proof (induction n rule: varint.induct)
  case (1 n)
  show ?case
  proof (cases "n < 128")
    case False
    then have "n div 128 < 128 ^ length (varint (n div 128))" using 1 by simp
    then have "n < 128 * 128 ^ length (varint (n div 128))" by simp
    then show ?thesis using False by (subst varint.simps) simp
  qed (simp add: varint.simps)
qed

lemma get_varint_long: "get_varint (length (varint n) + k) (varint n @ r) = Some (n, r)"
proof (rule get_varint_back)
  show "n < 128 ^ (length (varint n) + k)"
    using varint_length [of n] by (rule order.strict_trans2) (simp add: power_increasing)
qed simp

primrec le_bytes :: "nat \<Rightarrow> nat \<Rightarrow> bytes" where
  "le_bytes 0 n = []"
| "le_bytes (Suc k) n = int (n mod 256) # le_bytes k (n div 256)"

primrec le_value :: "bytes \<Rightarrow> nat" where
  "le_value [] = 0"
| "le_value (b # bs) = nat b + 256 * le_value bs"

lemma length_le_bytes [simp]: "length (le_bytes k n) = k"
  by (induction k arbitrary: n) simp_all

lemma le_value_back: "n < 256 ^ k \<Longrightarrow> le_value (le_bytes k n) = n"
proof (induction k arbitrary: n)
  case (Suc k)
  then have "le_value (le_bytes k (n div 256)) = n div 256"
    by (intro Suc.IH) (simp add: less_mult_imp_div_less mult.commute)
  then show ?case by simp
qed simp

section \<open>Floating point\<close>

text \<open>A format with \<open>p\<close> bits after the leading one, the exponent \<open>emin\<close> of the smallest number, and the exponent
  field \<open>emax\<close> of the infinities; the sign bit is above that.\<close>

definition magnitude :: "nat \<Rightarrow> int \<Rightarrow> rat \<Rightarrow> nat" where
  "magnitude p emin a =
     (if a = 0 then 0
      else (let k = max (rat_log2 a - int p) emin in nat ((k - emin) * 2 ^ p + \<lfloor>a / 2 powi k\<rfloor>)))"

definition magnitude_value :: "nat \<Rightarrow> int \<Rightarrow> nat \<Rightarrow> rat" where
  "magnitude_value p emin q =
     (let e = q div 2 ^ p; m = q mod 2 ^ p in
      if e = 0 then of_nat m * 2 powi emin else of_nat (2 ^ p + m) * 2 powi (emin + int e - 1))"

definition float_bits :: "nat \<Rightarrow> int \<Rightarrow> nat \<Rightarrow> jsn \<Rightarrow> nat" where
  "float_bits p emin emax x =
     (case x of
        JNum a \<Rightarrow> (if a < 0 then (emax + 1) * 2 ^ p else 0) + magnitude p emin \<bar>a\<bar>
      | JInf \<Rightarrow> emax * 2 ^ p
      | JNInf \<Rightarrow> (emax + 1) * 2 ^ p + emax * 2 ^ p
      | JNaN \<Rightarrow> emax * 2 ^ p + 2 ^ (p - 1))"

definition float_of_bits :: "nat \<Rightarrow> int \<Rightarrow> nat \<Rightarrow> nat \<Rightarrow> jsn" where
  "float_of_bits p emin emax q =
     (let sign = (emax + 1) * 2 ^ p; neg = sign \<le> q; r = (if neg then q - sign else q) in
      if r < emax * 2 ^ p then JNum ((if neg then -1 else 1) * magnitude_value p emin r)
      else if r = emax * 2 ^ p then (if neg then JNInf else JInf)
      else JNaN)"

lemma magnitude_back:
  assumes "is_binary p emin a" "0 \<le> a" "int emax = 2 * (1 - emin - int p) + 1"
  shows "magnitude_value p emin (magnitude p emin a) = a \<and> magnitude p emin a < emax * 2 ^ p"
proof (cases "a = 0")
  case True
  have "1 \<le> emax" using assms(3) by presburger
  then show ?thesis using True by (simp add: magnitude_def magnitude_value_def)
next
  case False
  then have a: "0 < a" using assms(2) by simp
  define k where "k = max (rat_log2 a - int p) emin"
  define m where "m = \<lfloor>a / 2 powi k\<rfloor>"
  have fits: "of_int m = a / 2 powi k" and small: "a < 2 powi (2 - emin - int p)"
    using assms(1) a by (simp_all add: is_binary_def Let_def k_def m_def)
  have am: "a = of_int m * 2 powi k" unfolding fits by simp
  note log = rat_log2_bounds [OF a]
  have m0: "0 < m" using a am by (metis mult_eq_0_iff not_less_iff_gr_or_eq of_int_0_less_iff zero_less_mult_iff zero_less_power_int zero_less_numeral)
  have "(of_int m :: rat) * 2 powi k < 2 powi (int p + 1) * 2 powi k"
  proof -
    have "(2::rat) powi (rat_log2 a + 1) \<le> 2 powi (int p + 1 + k)" by (intro power_int_increasing) (simp_all add: k_def)
    then have "a < 2 powi (int p + 1 + k)" using log by simp
    then show ?thesis using am by (simp add: power_int_add)
  qed
  then have "(of_int m :: rat) < of_int (2 ^ Suc p)" by (simp add: power_int_add)
  then have m2: "m < 2 ^ Suc p" by (simp only: of_int_less_iff)
  have ge: "k = emin" if "m < 2 ^ p"
  proof (rule ccontr)
    assume "k \<noteq> emin"
    then have "k = rat_log2 a - int p" by (auto simp: k_def)
    then have "rat_log2 a = int p + k" by simp
    then have "(2::rat) powi rat_log2 a = 2 powi (int p) * 2 powi k" by (simp only:) (simp add: power_int_add)
    then have "(2::rat) powi (int p) * 2 powi k \<le> a" using log by simp
    then have "(2::rat) powi (int p) * 2 powi k \<le> of_int m * 2 powi k" using am by simp
    then have "(of_int (2 ^ p) :: rat) \<le> of_int m" by simp
    with that show False by (simp only: of_int_le_iff)
  qed
  have q: "magnitude p emin a = nat ((k - emin) * 2 ^ p + m)" using False by (simp add: magnitude_def k_def m_def Let_def)
  have emin: "emin \<le> k" by (simp add: k_def)
  show ?thesis
  proof (cases "m < 2 ^ p")
    case True
    then have m: "magnitude p emin a = nat m" "nat m < 2 ^ p" "k = emin" using q ge m0 by (simp_all add: nat_less_iff)
    have "1 \<le> emax" using assms(3) by presburger
    then have "(2::nat) ^ p \<le> emax * 2 ^ p" by simp
    then have "nat m < emax * 2 ^ p" using m(2) by linarith
    then show ?thesis using m m0 am by (simp add: magnitude_value_def)
  next
    case False
    define e where "e = nat (k - emin + 1)"
    have "(k - emin) * 2 ^ p + m = int (e * 2 ^ p + nat (m - 2 ^ p))"
      using emin False by (simp add: e_def algebra_simps)
    then have eq: "nat ((k - emin) * 2 ^ p + m) = e * 2 ^ p + nat (m - 2 ^ p)" by (simp only: nat_int)
    have mm: "nat (m - 2 ^ p) < 2 ^ p" using m2 False by (simp add: nat_less_iff)
    have split: "(e * 2 ^ p + nat (m - 2 ^ p)) div 2 ^ p = e" "(e * 2 ^ p + nat (m - 2 ^ p)) mod 2 ^ p = nat (m - 2 ^ p)"
      using mm by simp_all
    have "magnitude_value p emin (magnitude p emin a) = of_nat (2 ^ p + nat (m - 2 ^ p)) * 2 powi (emin + int e - 1)"
      unfolding q eq magnitude_value_def split using emin by (simp add: e_def)
    also have "\<dots> = a" using am emin False by (simp add: e_def of_nat_nat)
    finally have same: "magnitude_value p emin (magnitude p emin a) = a" .
    have "int p + k < 2 - emin - int p"
    proof (rule ccontr)
      assume "\<not> int p + k < 2 - emin - int p"
      then have "(2::rat) powi (2 - emin - int p) \<le> 2 powi (int p + k)" by (intro power_int_increasing) simp_all
      also have "\<dots> = of_int (2 ^ p) * 2 powi k" by (simp add: power_int_add)
      also have "\<dots> \<le> of_int m * 2 powi k" using False by (intro mult_right_mono) (simp_all only: of_int_le_iff, simp_all)
      finally show False using small am by simp
    qed
    then have "e < emax" using assms(3) emin by (simp add: e_def)
    then have "e * 2 ^ p + nat (m - 2 ^ p) < emax * 2 ^ p" using mm
      by (metis add_less_cancel_left add.commute less_le_trans mult.commute mult_Suc mult_le_mono2 Suc_leI)
    then show ?thesis using same by (simp add: q eq)
  qed
qed

lemma is_binary_minus: "is_binary p emin a \<Longrightarrow> is_binary p emin (- a)"
  unfolding is_binary_def Let_def by simp (metis Ints_minus Ints_of_int floor_of_int of_int_floor of_int_minus)

lemma float_back:
  assumes "case x of JNum a \<Rightarrow> is_binary p emin a | _ \<Rightarrow> True" "int emax = 2 * (1 - emin - int p) + 1" "0 < p"
  shows "float_of_bits p emin emax (float_bits p emin emax x) = x"
    and "float_bits p emin emax x < 2 * (emax + 1) * 2 ^ p"
proof -
  have half: "(2::nat) ^ (p - 1) < 2 ^ p" "0 < (2::nat) ^ (p - 1)" using assms(3) by simp_all
  have both: "float_of_bits p emin emax (float_bits p emin emax x) = x \<and> float_bits p emin emax x < 2 * (emax + 1) * 2 ^ p"
  proof (cases x)
    case (JNum a)
    then have "is_binary p emin \<bar>a\<bar>" using assms(1) is_binary_minus [of p emin a] by (cases "a < 0") simp_all
    from magnitude_back [OF this _ assms(2)]
    have m: "magnitude_value p emin (magnitude p emin \<bar>a\<bar>) = \<bar>a\<bar>" "magnitude p emin \<bar>a\<bar> < emax * 2 ^ p" by simp_all
    show ?thesis
    proof (cases "a < 0")
      case True
      then show ?thesis using m by (simp add: JNum float_bits_def float_of_bits_def Let_def)
    next
      case False
      moreover have "\<not> (emax + 1) * 2 ^ p \<le> magnitude p emin a" using m(2) False by simp
      ultimately show ?thesis using m by (simp add: JNum float_bits_def float_of_bits_def Let_def)
    qed
  next
    case JNaN
    define q :: nat where "q = 2 ^ p"
    define h :: nat where "h = 2 ^ (p - Suc 0)"
    have "0 < h" "h < q" using half by (simp_all add: q_def h_def)
    then show ?thesis by (simp add: JNaN float_bits_def float_of_bits_def Let_def algebra_simps flip: q_def h_def)
  qed (use half in \<open>simp_all add: float_bits_def float_of_bits_def Let_def algebra_simps\<close>)
  then show "float_of_bits p emin emax (float_bits p emin emax x) = x" "float_bits p emin emax x < 2 * (emax + 1) * 2 ^ p" by simp_all
qed

section \<open>Texts\<close>

text \<open>UTF-8 of texts whose characters have codes below 256.\<close>

fun utf8_char :: "char \<Rightarrow> bytes" where
  "utf8_char c = (let n = code_of c in if n < 128 then [n] else [192 + n div 64, 128 + n mod 64])"

fun utf8_text :: "bytes \<Rightarrow> string option" where
  "utf8_text [] = Some []"
| "utf8_text (b # bs) =
     (if 0 \<le> b \<and> b < 128 then map_option ((#) (char_of b)) (utf8_text bs)
      else case bs of
          c # cs \<Rightarrow> if (b = 194 \<or> b = 195) \<and> 128 \<le> c \<and> c < 192
                    then map_option ((#) (char_of ((b - 192) * 64 + (c - 128)))) (utf8_text cs) else None
        | [] \<Rightarrow> None)"

lemma code_below_256: "0 \<le> code_of c" "code_of c < 256"
proof -
  have "code_of c = int (of_char c)" unfolding code_of_def by (simp only: of_nat_of_char)
  then show "0 \<le> code_of c" "code_of c < 256" by simp_all
qed

lemma char_from_code [simp]: "char_of (code_of c) = c"
  by (simp add: code_of_def)

lemma utf8_char_back: "utf8_text (utf8_char c @ bs) = map_option ((#) c) (utf8_text bs)"
proof (cases "code_of c < 128")
  case False
  then have r: "128 \<le> code_of c" "code_of c < 256" using code_below_256 by simp_all
  then have "code_of c div 64 = 2 \<or> code_of c div 64 = 3" by presburger
  moreover have "(code_of c div 64) * 64 + code_of c mod 64 = code_of c" by simp
  moreover have "code_of c mod 64 < 64" "0 \<le> code_of c mod 64" by simp_all
  ultimately show ?thesis using False by (auto simp: Let_def)
qed (simp add: Let_def code_below_256)

lemma utf8_back: "utf8_text (concat (map utf8_char s)) = Some s"
  by (induction s) (simp_all add: utf8_char_back del: utf8_char.simps)

section \<open>The runtime\<close>

definition split_at :: "nat \<Rightarrow> bytes \<Rightarrow> (bytes \<times> bytes) option" where
  "split_at n bs = (if n \<le> length bs then Some (take n bs, drop n bs) else None)"

lemma split_at_back [simp]: "n = length a \<Longrightarrow> split_at n (a @ r) = Some (a, r)"
  by (simp add: split_at_def)

definition get_delimited :: "bytes \<Rightarrow> (bytes \<times> bytes) option" where
  "get_delimited bs = (case get_varint (length bs) bs of None \<Rightarrow> None | Some (n, r) \<Rightarrow> split_at n r)"

definition put_delimited :: "bytes \<Rightarrow> bytes" where
  "put_delimited d = varint (length d) @ d"

lemma delimited_back: "get_delimited (put_delimited d @ r) = Some (d, r)"
  by (simp add: get_delimited_def put_delimited_def get_varint_long)

definition signed :: "nat \<Rightarrow> nat \<Rightarrow> int" where
  "signed w n = (let m = int n mod 2 ^ w in if m < 2 ^ (w - 1) then m else m - 2 ^ w)"

fun wire_no :: "wire_type \<Rightarrow> nat" where
  "wire_no Varint = 0"
| "wire_no Bit64 = 1"
| "wire_no LengthDelimited = 2"
| "wire_no StartGroup = 3"
| "wire_no EndGroup = 4"
| "wire_no Bit32 = 5"

definition wire_of_no :: "nat \<Rightarrow> wire_type option" where
  "wire_of_no n = map_of (map (\<lambda>w. (wire_no w, w)) [Varint, Bit64, LengthDelimited, StartGroup, EndGroup, Bit32]) n"

definition wire_tag :: "nat \<Rightarrow> wire_type \<Rightarrow> bytes" where
  "wire_tag no w = varint (no * 8 + wire_no w)"

definition wire_get_tag :: "bytes \<Rightarrow> ((nat \<times> wire_type) \<times> bytes) option" where
  "wire_get_tag bs =
     (case get_varint 10 bs of
        None \<Rightarrow> None
      | Some (n, r) \<Rightarrow> if n div 8 = 0 then None else map_option (\<lambda>w. ((n div 8, w), r)) (wire_of_no (n mod 8)))"

fun wire_put :: "scalar_type \<Rightarrow> scalar \<Rightarrow> bytes" where
  "wire_put STRING (SText s) = put_delimited (concat (map utf8_char s))"
| "wire_put BYTES (SBytes d) = put_delimited d"
| "wire_put BOOL (SBool b) = varint (if b then 1 else 0)"
| "wire_put FLOAT (SNum x) = le_bytes 4 (float_bits 23 (- 149) 255 x)"
| "wire_put DOUBLE (SNum x) = le_bytes 8 (float_bits 52 (- 1074) 2047 x)"
| "wire_put t (SInt n) = varint (nat (n mod 2 ^ 64))"
| "wire_put t (SBig n) = varint (nat (n mod 2 ^ 64))"
| "wire_put t x = [0]"

fun wire_get :: "scalar_type \<Rightarrow> bytes \<Rightarrow> (scalar \<times> bytes) option" where
  "wire_get STRING bs = (case get_delimited bs of None \<Rightarrow> None | Some (d, r) \<Rightarrow> map_option (\<lambda>s. (SText s, r)) (utf8_text d))"
| "wire_get BYTES bs = map_option (\<lambda>(d, r). (SBytes d, r)) (get_delimited bs)"
| "wire_get BOOL bs = map_option (\<lambda>(n, r). (SBool (n \<noteq> 0), r)) (get_varint 10 bs)"
| "wire_get FLOAT bs = map_option (\<lambda>(d, r). (SNum (float_of_bits 23 (- 149) 255 (le_value d)), r)) (split_at 4 bs)"
| "wire_get DOUBLE bs = map_option (\<lambda>(d, r). (SNum (float_of_bits 52 (- 1074) 2047 (le_value d)), r)) (split_at 8 bs)"
| "wire_get INT32 bs = map_option (\<lambda>(n, r). (SInt (signed 32 n), r)) (get_varint 10 bs)"
| "wire_get UINT32 bs = map_option (\<lambda>(n, r). (SInt (int n mod 2 ^ 32), r)) (get_varint 10 bs)"
| "wire_get INT64 bs = map_option (\<lambda>(n, r). (SBig (signed 64 n), r)) (get_varint 10 bs)"
| "wire_get UINT64 bs = map_option (\<lambda>(n, r). (SBig (int n mod 2 ^ 64), r)) (get_varint 10 bs)"

fun wire_skip :: "wire_type \<Rightarrow> bytes \<Rightarrow> (bytes \<times> bytes) option" where
  "wire_skip Varint bs = (case get_varint 10 bs of None \<Rightarrow> None | Some (n, r) \<Rightarrow> split_at (length bs - length r) bs)"
| "wire_skip Bit64 bs = split_at 8 bs"
| "wire_skip Bit32 bs = split_at 4 bs"
| "wire_skip LengthDelimited bs =
     (case get_delimited bs of None \<Rightarrow> None | Some (d, r) \<Rightarrow> split_at (length bs - length r) bs)"
| "wire_skip _ bs = None"

definition wire_runtime :: runtime where
  "wire_runtime = \<lparr>put_tag = wire_tag, get_tag = wire_get_tag, put_scalar = wire_put, get_scalar = wire_get,
     put_length = varint, skip_field = wire_skip, read_unknown = Keep_unknown, write_unknown = True\<rparr>"

lemma wire_tag_back: "0 < no \<Longrightarrow> no < 2 ^ 29 \<Longrightarrow> wire_get_tag (wire_tag no w @ r) = Some ((no, w), r)"
proof -
  assume no: "0 < no" "no < 2 ^ 29"
  have "wire_no w < 8" "wire_of_no (wire_no w) = Some w" by (cases w; simp add: wire_of_no_def)+
  moreover have "no * 8 + wire_no w < 128 ^ 10" using no \<open>wire_no w < 8\<close> by simp
  ultimately show ?thesis using no by (simp add: wire_get_tag_def wire_tag_def get_varint_back)
qed

lemma varint64_back: "get_varint 10 (varint (nat (n mod 2 ^ 64)) @ r) = Some (nat (n mod 2 ^ 64), r)"
proof -
  have "n mod 2 ^ 64 < 2 ^ 64" "0 \<le> n mod 2 ^ 64" by simp_all
  then show ?thesis by (intro get_varint_back) (simp_all add: nat_less_iff)
qed

lemma signed_back:
  assumes "0 < w" "w \<le> 64" "- (2 ^ (w - 1)) \<le> n" "n < 2 ^ (w - 1)"
  shows "signed w (nat (n mod 2 ^ 64)) = n"
proof -
  have "(2::int) ^ w dvd 2 ^ 64" using assms(2) by (rule le_imp_power_dvd)
  then have m: "int (nat (n mod 2 ^ 64)) mod 2 ^ w = n mod 2 ^ w" by (simp add: mod_mod_cancel)
  have w: "(2::int) ^ w = 2 * 2 ^ (w - 1)" using assms(1) by (simp add: power_eq_if)
  show ?thesis
  proof (cases "0 \<le> n")
    case True
    then have "n mod 2 ^ w = n" using assms(4) w by (intro mod_pos_pos_trivial) simp_all
    then show ?thesis using assms(4) by (simp only: signed_def m Let_def if_True)
  next
    case False
    have "n mod 2 ^ w = (n + 2 ^ w) mod 2 ^ w" by simp
    also have "\<dots> = n + 2 ^ w" using False assms(3) w by (intro mod_pos_pos_trivial) simp_all
    finally have "n mod 2 ^ w = n + 2 ^ w" .
    then have "\<not> n mod 2 ^ w < 2 ^ (w - 1)" "n mod 2 ^ w - 2 ^ w = n" using assms(3) w by simp_all
    then show ?thesis by (simp only: signed_def m Let_def if_False)
  qed
qed

lemma wire_scalar_back:
  assumes "fits t x"
  shows "wire_get t (wire_put t x @ r) = Some (x, r)"
proof (cases t)
  case STRING
  then show ?thesis using assms by (cases x) (simp_all add: delimited_back utf8_back)
next
  case BYTES
  then show ?thesis using assms by (cases x) (simp_all add: delimited_back)
next
  case BOOL
  then show ?thesis using assms by (cases x) (simp_all add: get_varint_back)
next
  case INT32
  then show ?thesis using assms signed_back [of 32] by (cases x) (simp_all add: varint64_back [simplified])
next
  case INT64
  then show ?thesis using assms signed_back [of 64] by (cases x) (simp_all add: varint64_back [simplified])
next
  case UINT32
  then show ?thesis using assms by (cases x) (simp_all add: get_varint_back nat_less_iff)
next
  case UINT64
  then show ?thesis using assms by (cases x) (simp_all add: get_varint_back nat_less_iff)
next
  case FLOAT
  then show ?thesis using assms float_back [where p = 23 and emin = "- 149" and emax = 255] by (cases x) (simp_all add: le_value_back)
next
  case DOUBLE
  then show ?thesis using assms float_back [where p = 52 and emin = "- 1074" and emax = 2047] by (cases x) (simp_all add: le_value_back)
qed

lemma wire_scalar_typed: "wire_get t bs = Some (x, r) \<Longrightarrow> scalar_has (scalar_ts t) x"
  by (cases t) (auto split: option.splits)

lemma wire_put_nonempty: "fits t x \<Longrightarrow> wire_put t x \<noteq> []"
  by (cases t; cases x) (auto simp: put_delimited_def dest!: arg_cong [of _ "[]" length])

lemma delimited_skip: "wire_skip LengthDelimited (put_delimited d @ r) = Some (put_delimited d, r)"
  using split_at_back [of "length (put_delimited d @ r) - length r" "put_delimited d" r] by (simp add: delimited_back)

lemma varint_skip: "get_varint 10 (varint n @ r) = Some (n, r) \<Longrightarrow> wire_skip Varint (varint n @ r) = Some (varint n, r)"
  by simp

lemma wire_scalar_skip:
  assumes "fits t x"
  shows "wire_skip (wire_of t) (wire_put t x @ r) = Some (wire_put t x, r)"
proof (cases "wire_of t = Varint")
  case True
  then show ?thesis using assms varint64_back by (cases t; cases x) (simp_all add: get_varint_back nat_less_iff)
next
  case False
  then show ?thesis using assms delimited_skip by (cases t; cases x) simp_all
qed

interpretation wire: protobuf_runtime wire_runtime
proof
  show "get_scalar wire_runtime t (put_length wire_runtime n @ r) = Some (SInt (int n), r)"
    if "n < 2 ^ 31" "t = INT32 \<or> t = UINT32" for n t r
    using that by (auto simp: wire_runtime_def get_varint_back signed_def)
  show "skip_field wire_runtime LengthDelimited (put_length wire_runtime (length d) @ d @ r)
      = Some (put_length wire_runtime (length d) @ d, r)" if "length d < 2 ^ 31" for d r
    using delimited_skip [of d r] by (simp add: wire_runtime_def put_delimited_def)
qed (simp_all add: wire_runtime_def wire_tag_back wire_scalar_back wire_put_nonempty wire_scalar_skip, simp add: wire_tag_def)

end
