(* ===== verification/MessageServices.thy ===== *)
theory MessageServices
  imports ApiMessages ClobMessages WireFormat
begin

text \<open>
  The services of the two schemas: their methods as declared in \<open>src/web/gen/api.ts\<close> and \<open>src/web/gen/clob.ts\<close>, the
  client interfaces and classes of \<open>api.client.ts\<close> and \<open>clob.client.ts\<close>, whose methods pick their declaration by its
  position, and what holds of the messages that go through them.
\<close>

section \<open>Methods and clients\<close>

record rpc_method =
  r_name :: string
  r_streaming :: bool
  r_input :: string
  r_output :: string

record client_method =
  s_name :: string
  s_index :: nat
  s_streaming :: bool
  s_input :: string
  s_output :: string

abbreviation rpc :: "string \<Rightarrow> bool \<Rightarrow> string \<Rightarrow> string \<Rightarrow> rpc_method" where
  "rpc name stream i out \<equiv> \<lparr>r_name = name, r_streaming = stream, r_input = i, r_output = out\<rparr>"

abbreviation stub :: "string \<Rightarrow> nat \<Rightarrow> bool \<Rightarrow> string \<Rightarrow> string \<Rightarrow> client_method" where
  "stub name k stream i out \<equiv> \<lparr>s_name = name, s_index = k, s_streaming = stream, s_input = i, s_output = out\<rparr>"

type_synonym rpcs = "rpc_method list"

text \<open>A call hands the kind of the call, the declaration at its index, the merged options and the input to the transport.\<close>

type_synonym ('o, 'r) transport = "bool \<Rightarrow> rpc_method option \<Rightarrow> 'o \<Rightarrow> pvalue \<Rightarrow> 'r"

definition call_method :: "rpc_method list \<Rightarrow> ('o, 'r) transport \<Rightarrow> ('o option \<Rightarrow> 'o) \<Rightarrow> client_method \<Rightarrow> 'o option \<Rightarrow> pvalue \<Rightarrow> 'r" where
  "call_method methods stackIntercept mergeOptions m options input =
     stackIntercept (s_streaming m) (if s_index m < length methods then Some (methods ! s_index m) else None)
       (mergeOptions options) input"

definition ApiServicePublic :: "rpc_method list" where
  "ApiServicePublic = [
      rpc ''Health'' False ''Empty'' ''StdResponse'', rpc ''NewsLetter'' False ''NewsLetterRequest'' ''StdResponse'',
      rpc ''CreatePredictionIntent'' False ''PrismPredictionIntentRequest'' ''StdResponse'',
      rpc ''GetMarketById'' False ''MarketIdRequest'' ''MarketResponse'',
      rpc ''GetMarkets'' False ''LimitOffsetRequest'' ''MarketsResponse'',
      rpc ''PriceHistory'' False ''PriceHistoryRequest'' ''PriceHistoryResponse'',
      rpc ''MacroMetadata'' False ''Empty'' ''MacroMetadataResponse'',
      rpc ''CreateComment'' False ''CreateCommentRequest'' ''CreateCommentResponse'',
      rpc ''GetComments'' False ''GetCommentsRequest'' ''GetCommentsResponse'',
      rpc ''GetUserPortfolio'' False ''UserPortfolioRequest'' ''UserPortfolioResponse'',
      rpc ''CancelPredictionIntent'' False ''CancelOrderRequest'' ''StdResponse'',
      rpc ''GetTxHashes'' False ''TxIdRequest'' ''TxIdHashesResponse'',
      rpc ''GetPredictionIntentMatches'' False ''GetMatchesRequest'' ''MatchesResponse'',
      rpc ''GetPrism'' False ''AccountIdRequest'' ''PrismResponse'',
      rpc ''ClaimPrism'' False ''ClaimPrismRequest'' ''StdResponse'',
      rpc ''GetRewardsByMarketId'' False ''MarketIdRequest'' ''RewardsResponse'',
      rpc ''GetRewardsByAccountId'' False ''AccountIdRequest'' ''RewardsResponse'',
      rpc ''CreateMarketv2'' False ''CreateMarketv2Request'' ''CreateMarketResponse'',
      rpc ''UpdateMarket'' False ''UpdateMarketRequest'' ''StdResponse'',
      rpc ''PatchMarket'' False ''PatchMarketRequest'' ''MarketResponse'',
      rpc ''DeleteMarket'' False ''MarketIdRequest'' ''StdResponse'',
      rpc ''GetAllMatches'' False ''LimitOffsetRequest'' ''MatchesResponse'',
      rpc ''GetAllPositions'' False ''LimitOffsetRequest'' ''PositionsResponse'',
      rpc ''GetAllPredictionIntents'' False ''LimitOffsetRequest'' ''PredictionIntentsResponse'',
      rpc ''ToggleMarketPause'' False ''MarketIdRequest'' ''StdResponse'',
      rpc ''ToggleMarketSuspend'' False ''MarketIdRequest'' ''StdResponse'',
      rpc ''DeleteComment'' False ''CommentIdRequest'' ''StdResponse'',
      rpc ''ResolveMarket'' False ''ResolveMarketRequest'' ''StdResponse'',
      rpc ''CreateCategory'' False ''CategoryRequest'' ''CategoryResponse'',
      rpc ''UpdateCategory'' False ''CategoryRequest'' ''CategoryResponse'',
      rpc ''DeleteCategory'' False ''CategoryIdRequest'' ''StdResponse'',
      rpc ''MarkPrismAsClaimableByAccountId'' False ''AccountIdRequest'' ''StdResponse'']"

definition ApiServiceInternal :: "rpc_method list" where
  "ApiServiceInternal = [
      rpc ''TriggerRecreateClob'' False ''Empty'' ''StdResponse'']"

definition ApiAuth :: "rpc_method list" where
  "ApiAuth = [
      rpc ''GetChallenge'' False ''ChallengeRequest'' ''StdResponse'',
      rpc ''VerifyChallenge'' False ''VerifyChallengeRequest'' ''StdResponse'']"

definition IApiServicePublicClient :: "rpc_method list" where
  "IApiServicePublicClient = [
      rpc ''health'' False ''Empty'' ''StdResponse'', rpc ''newsLetter'' False ''NewsLetterRequest'' ''StdResponse'',
      rpc ''createPredictionIntent'' False ''PrismPredictionIntentRequest'' ''StdResponse'',
      rpc ''getMarketById'' False ''MarketIdRequest'' ''MarketResponse'',
      rpc ''getMarkets'' False ''LimitOffsetRequest'' ''MarketsResponse'',
      rpc ''priceHistory'' False ''PriceHistoryRequest'' ''PriceHistoryResponse'',
      rpc ''macroMetadata'' False ''Empty'' ''MacroMetadataResponse'',
      rpc ''createComment'' False ''CreateCommentRequest'' ''CreateCommentResponse'',
      rpc ''getComments'' False ''GetCommentsRequest'' ''GetCommentsResponse'',
      rpc ''getUserPortfolio'' False ''UserPortfolioRequest'' ''UserPortfolioResponse'',
      rpc ''cancelPredictionIntent'' False ''CancelOrderRequest'' ''StdResponse'',
      rpc ''getTxHashes'' False ''TxIdRequest'' ''TxIdHashesResponse'',
      rpc ''getPredictionIntentMatches'' False ''GetMatchesRequest'' ''MatchesResponse'',
      rpc ''getPrism'' False ''AccountIdRequest'' ''PrismResponse'',
      rpc ''claimPrism'' False ''ClaimPrismRequest'' ''StdResponse'',
      rpc ''getRewardsByMarketId'' False ''MarketIdRequest'' ''RewardsResponse'',
      rpc ''getRewardsByAccountId'' False ''AccountIdRequest'' ''RewardsResponse'',
      rpc ''createMarketv2'' False ''CreateMarketv2Request'' ''CreateMarketResponse'',
      rpc ''updateMarket'' False ''UpdateMarketRequest'' ''StdResponse'',
      rpc ''patchMarket'' False ''PatchMarketRequest'' ''MarketResponse'',
      rpc ''deleteMarket'' False ''MarketIdRequest'' ''StdResponse'',
      rpc ''getAllMatches'' False ''LimitOffsetRequest'' ''MatchesResponse'',
      rpc ''getAllPositions'' False ''LimitOffsetRequest'' ''PositionsResponse'',
      rpc ''getAllPredictionIntents'' False ''LimitOffsetRequest'' ''PredictionIntentsResponse'',
      rpc ''toggleMarketPause'' False ''MarketIdRequest'' ''StdResponse'',
      rpc ''toggleMarketSuspend'' False ''MarketIdRequest'' ''StdResponse'',
      rpc ''deleteComment'' False ''CommentIdRequest'' ''StdResponse'',
      rpc ''resolveMarket'' False ''ResolveMarketRequest'' ''StdResponse'',
      rpc ''createCategory'' False ''CategoryRequest'' ''CategoryResponse'',
      rpc ''updateCategory'' False ''CategoryRequest'' ''CategoryResponse'',
      rpc ''deleteCategory'' False ''CategoryIdRequest'' ''StdResponse'',
      rpc ''markPrismAsClaimableByAccountId'' False ''AccountIdRequest'' ''StdResponse'']"

definition ApiServicePublicClient :: "client_method list" where
  "ApiServicePublicClient = [
      stub ''health'' 0 False ''Empty'' ''StdResponse'',
      stub ''newsLetter'' 1 False ''NewsLetterRequest'' ''StdResponse'',
      stub ''createPredictionIntent'' 2 False ''PrismPredictionIntentRequest'' ''StdResponse'',
      stub ''getMarketById'' 3 False ''MarketIdRequest'' ''MarketResponse'',
      stub ''getMarkets'' 4 False ''LimitOffsetRequest'' ''MarketsResponse'',
      stub ''priceHistory'' 5 False ''PriceHistoryRequest'' ''PriceHistoryResponse'',
      stub ''macroMetadata'' 6 False ''Empty'' ''MacroMetadataResponse'',
      stub ''createComment'' 7 False ''CreateCommentRequest'' ''CreateCommentResponse'',
      stub ''getComments'' 8 False ''GetCommentsRequest'' ''GetCommentsResponse'',
      stub ''getUserPortfolio'' 9 False ''UserPortfolioRequest'' ''UserPortfolioResponse'',
      stub ''cancelPredictionIntent'' 10 False ''CancelOrderRequest'' ''StdResponse'',
      stub ''getTxHashes'' 11 False ''TxIdRequest'' ''TxIdHashesResponse'',
      stub ''getPredictionIntentMatches'' 12 False ''GetMatchesRequest'' ''MatchesResponse'',
      stub ''getPrism'' 13 False ''AccountIdRequest'' ''PrismResponse'',
      stub ''claimPrism'' 14 False ''ClaimPrismRequest'' ''StdResponse'',
      stub ''getRewardsByMarketId'' 15 False ''MarketIdRequest'' ''RewardsResponse'',
      stub ''getRewardsByAccountId'' 16 False ''AccountIdRequest'' ''RewardsResponse'',
      stub ''createMarketv2'' 17 False ''CreateMarketv2Request'' ''CreateMarketResponse'',
      stub ''updateMarket'' 18 False ''UpdateMarketRequest'' ''StdResponse'',
      stub ''patchMarket'' 19 False ''PatchMarketRequest'' ''MarketResponse'',
      stub ''deleteMarket'' 20 False ''MarketIdRequest'' ''StdResponse'',
      stub ''getAllMatches'' 21 False ''LimitOffsetRequest'' ''MatchesResponse'',
      stub ''getAllPositions'' 22 False ''LimitOffsetRequest'' ''PositionsResponse'',
      stub ''getAllPredictionIntents'' 23 False ''LimitOffsetRequest'' ''PredictionIntentsResponse'',
      stub ''toggleMarketPause'' 24 False ''MarketIdRequest'' ''StdResponse'',
      stub ''toggleMarketSuspend'' 25 False ''MarketIdRequest'' ''StdResponse'',
      stub ''deleteComment'' 26 False ''CommentIdRequest'' ''StdResponse'',
      stub ''resolveMarket'' 27 False ''ResolveMarketRequest'' ''StdResponse'',
      stub ''createCategory'' 28 False ''CategoryRequest'' ''CategoryResponse'',
      stub ''updateCategory'' 29 False ''CategoryRequest'' ''CategoryResponse'',
      stub ''deleteCategory'' 30 False ''CategoryIdRequest'' ''StdResponse'',
      stub ''markPrismAsClaimableByAccountId'' 31 False ''AccountIdRequest'' ''StdResponse'']"

definition IApiServiceInternalClient :: "rpc_method list" where
  "IApiServiceInternalClient = [
      rpc ''triggerRecreateClob'' False ''Empty'' ''StdResponse'']"

definition ApiServiceInternalClient :: "client_method list" where
  "ApiServiceInternalClient = [
      stub ''triggerRecreateClob'' 0 False ''Empty'' ''StdResponse'']"

definition IApiAuthClient :: "rpc_method list" where
  "IApiAuthClient = [
      rpc ''getChallenge'' False ''ChallengeRequest'' ''StdResponse'',
      rpc ''verifyChallenge'' False ''VerifyChallengeRequest'' ''StdResponse'']"

definition ApiAuthClient :: "client_method list" where
  "ApiAuthClient = [
      stub ''getChallenge'' 0 False ''ChallengeRequest'' ''StdResponse'',
      stub ''verifyChallenge'' 1 False ''VerifyChallengeRequest'' ''StdResponse'']"

definition ClobPublic :: "rpc_method list" where
  "ClobPublic = [
      rpc ''Health'' False ''Empty'' ''StdResponse'', rpc ''GetBook'' False ''BookRequest'' ''BookSnapshot'',
      rpc ''StreamBook'' True ''BookRequest'' ''BookSnapshot'',
      rpc ''GetPrice'' False ''MarketIdRequest'' ''PriceUpdate'',
      rpc ''StreamPrice'' True ''MarketIdRequest'' ''PriceUpdate'']"

definition ClobInternal :: "rpc_method list" where
  "ClobInternal = [
      rpc ''CreateOrder'' False ''CreateOrderRequestClob'' ''StdResponse'',
      rpc ''CreateMarket'' False ''CreateMarketRequest'' ''StdResponse'',
      rpc ''CloseMarket'' False ''MarketIdRequest'' ''StdResponse'',
      rpc ''CancelOrder'' False ''CancelOrderRequest'' ''StdResponse'',
      rpc ''GetOrdersForUser'' False ''UserRequest'' ''OrdersForUserResponse'',
      rpc ''GetTvPendingUsd'' False ''Empty'' ''StdResponse'',
      rpc ''GetMarketDepthQty'' False ''MarketIdRequest'' ''MarketDepthQtyResponse'']"

definition IClobPublicClient :: "rpc_method list" where
  "IClobPublicClient = [
      rpc ''health'' False ''Empty'' ''StdResponse'', rpc ''getBook'' False ''BookRequest'' ''BookSnapshot'',
      rpc ''streamBook'' True ''BookRequest'' ''BookSnapshot'',
      rpc ''getPrice'' False ''MarketIdRequest'' ''PriceUpdate'',
      rpc ''streamPrice'' True ''MarketIdRequest'' ''PriceUpdate'']"

definition ClobPublicClient :: "client_method list" where
  "ClobPublicClient = [
      stub ''health'' 0 False ''Empty'' ''StdResponse'', stub ''getBook'' 1 False ''BookRequest'' ''BookSnapshot'',
      stub ''streamBook'' 2 True ''BookRequest'' ''BookSnapshot'',
      stub ''getPrice'' 3 False ''MarketIdRequest'' ''PriceUpdate'',
      stub ''streamPrice'' 4 True ''MarketIdRequest'' ''PriceUpdate'']"

definition IClobInternalClient :: "rpc_method list" where
  "IClobInternalClient = [
      rpc ''createOrder'' False ''CreateOrderRequestClob'' ''StdResponse'',
      rpc ''createMarket'' False ''CreateMarketRequest'' ''StdResponse'',
      rpc ''closeMarket'' False ''MarketIdRequest'' ''StdResponse'',
      rpc ''cancelOrder'' False ''CancelOrderRequest'' ''StdResponse'',
      rpc ''getOrdersForUser'' False ''UserRequest'' ''OrdersForUserResponse'',
      rpc ''getTvPendingUsd'' False ''Empty'' ''StdResponse'',
      rpc ''getMarketDepthQty'' False ''MarketIdRequest'' ''MarketDepthQtyResponse'']"

definition ClobInternalClient :: "client_method list" where
  "ClobInternalClient = [
      stub ''createOrder'' 0 False ''CreateOrderRequestClob'' ''StdResponse'',
      stub ''createMarket'' 1 False ''CreateMarketRequest'' ''StdResponse'',
      stub ''closeMarket'' 2 False ''MarketIdRequest'' ''StdResponse'',
      stub ''cancelOrder'' 3 False ''CancelOrderRequest'' ''StdResponse'',
      stub ''getOrdersForUser'' 4 False ''UserRequest'' ''OrdersForUserResponse'',
      stub ''getTvPendingUsd'' 5 False ''Empty'' ''StdResponse'',
      stub ''getMarketDepthQty'' 6 False ''MarketIdRequest'' ''MarketDepthQtyResponse'']"

text \<open>The services with the declarations, the client class, its interface and the classes of its messages.\<close>

definition services :: "(rpc_method list \<times> client_method list \<times> rpc_method list \<times> string list) list" where
  "services = [
      (ApiServicePublic, ApiServicePublicClient, IApiServicePublicClient, map fst api_classes),
      (ApiServiceInternal, ApiServiceInternalClient, IApiServiceInternalClient, map fst api_classes),
      (ApiAuth, ApiAuthClient, IApiAuthClient, map fst api_classes),
      (ClobPublic, ClobPublicClient, IClobPublicClient, map fst clob_classes),
      (ClobInternal, ClobInternalClient, IClobInternalClient, map fst clob_classes)]"

fun named_after :: "string \<Rightarrow> string \<Rightarrow> bool" where
  "named_after (c # cs) (d # ds) = (d = capital c \<and> ds = cs)"
| "named_after _ _ = False"

definition pair_agrees :: "string list \<Rightarrow> rpc_method \<Rightarrow> rpc_method \<Rightarrow> client_method \<Rightarrow> bool" where
  "pair_agrees names r sig m \<longleftrightarrow> named_after (s_name m) (r_name r) \<and> s_streaming m = r_streaming r
     \<and> s_input m = r_input r \<and> s_output m = r_output r
     \<and> sig = rpc (s_name m) (s_streaming m) (s_input m) (s_output m) \<and> r_input r \<in> set names \<and> r_output r \<in> set names"

definition method_agrees :: "rpc_method list \<Rightarrow> rpc_method list \<Rightarrow> string list \<Rightarrow> client_method \<Rightarrow> bool" where
  "method_agrees methods sigs names m \<longleftrightarrow>
     s_index m < length methods \<and> pair_agrees names (methods ! s_index m) (sigs ! s_index m) m"

definition service_agrees :: "rpc_method list \<times> client_method list \<times> rpc_method list \<times> string list \<Rightarrow> bool" where
  "service_agrees = (\<lambda>(methods, ms, sigs, names).
     map s_index ms = [0..<length methods] \<and> length sigs = length methods \<and> distinct (map r_name methods)
       \<and> list_all (method_agrees methods sigs names) ms)"

section \<open>Agreement\<close>

lemma lookup_agrees:
  assumes "list_all2 (\<lambda>c i. fst c = fst i \<and> class_agrees (snd c) \<and> interface_agrees (snd c) (snd i)) cs ps"
  shows "class_agrees (case map_of cs n of Some c \<Rightarrow> c | None \<Rightarrow> no_class)
    \<and> interface_agrees (case map_of cs n of Some c \<Rightarrow> c | None \<Rightarrow> no_class) (case map_of ps n of Some i \<Rightarrow> i | None \<Rightarrow> [])"
  using assms
proof (induction cs ps rule: list_all2_induct)
  case Nil
  show ?case by (simp add: class_agrees_def interface_agrees_def no_class_def)
qed auto

lemma api_agrees: "class_agrees (api_class n) \<and> interface_agrees (api_class n) (api_interface n)"
  unfolding api_class_def api_interface_def
  by (rule lookup_agrees) (simp add: api_classes_def api_interfaces_def api_agree)

lemma clob_agrees: "class_agrees (clob_class n) \<and> interface_agrees (clob_class n) (clob_interface n)"
  unfolding clob_class_def clob_interface_def
  by (rule lookup_agrees) (simp add: clob_classes_def clob_interfaces_def clob_agree)

interpretation api_wire: typed_runtime wire_runtime api_class api_interface
  using api_agrees wire_scalar_typed by unfold_locales (auto simp: wire_runtime_def)

interpretation clob_wire: typed_runtime wire_runtime clob_class clob_interface
  using clob_agrees wire_scalar_typed by unfold_locales (auto simp: wire_runtime_def)

lemma ApiServicePublic_agrees: "service_agrees (ApiServicePublic, ApiServicePublicClient, IApiServicePublicClient, map fst api_classes)"
  by code_simp

lemma ApiServiceInternal_agrees: "service_agrees (ApiServiceInternal, ApiServiceInternalClient, IApiServiceInternalClient, map fst api_classes)"
  by code_simp

lemma ApiAuth_agrees: "service_agrees (ApiAuth, ApiAuthClient, IApiAuthClient, map fst api_classes)"
  by code_simp

lemma ClobPublic_agrees: "service_agrees (ClobPublic, ClobPublicClient, IClobPublicClient, map fst clob_classes)"
  by code_simp

lemma ClobInternal_agrees: "service_agrees (ClobInternal, ClobInternalClient, IClobInternalClient, map fst clob_classes)"
  by code_simp

lemma services_agree: "list_all service_agrees services"
  by (simp add: services_def ApiServicePublic_agrees ApiServiceInternal_agrees ApiAuth_agrees ClobPublic_agrees ClobInternal_agrees)

section \<open>Properties\<close>

text \<open>C26. What a message class writes, the class of the same name reads back as the same message, with the fields it does
  not know, for any runtime library that does what it is documented to do; the loops of the reader end.\<close>

theorem messages_round_trip:
  assumes "protobuf_runtime rt" "S = api_class \<or> S = clob_class" "ok_message rt S n v"
    and "length (to_binary rt S n v) < 2 ^ 31"
  shows "\<exists>N. \<forall>fuel\<ge>N. from_binary fuel rt S n (to_binary rt S n v) = Some (Inr (v, []))"
proof -
  have "class_agrees (S m)" for m using assms(2) api_agrees clob_agrees by blast
  then show ?thesis using protobuf_runtime.binary_back [OF assms(1) _ assms(3,4)] by (simp add: reads_def)
qed

definition sample_hashes :: pvalue where
  "sample_hashes = PMessage [PList [PMessage [PScalar (SText ''0x1f''), PScalar (SNum (JNum (3 / 2)))] []]] [(9, Varint, [1])]"

lemma sample_classes [simp]:
  "api_class ''TxIdHashesResponse'' = api_TxIdHashesResponse" "api_class ''TxHash'' = api_TxHash" "api_class ''StdResponse'' = api_StdResponse"
  by (simp_all add: api_class_def api_classes_def)

lemma hashes_unknown: "skip_field wire_runtime Varint (1 # r) = Some ([1], r)"
  by (simp add: wire_runtime_def split_at_def eval_nat_numeral)

lemma hashes_ok: "ok_message wire_runtime api_class ''TxIdHashesResponse'' sample_hashes"
  by (simp add: ok_message_def sample_hashes_def api_TxIdHashesResponse_def api_TxHash_def ok_unknown_def keeps_unknown_def hashes_unknown
      is_binary_def rat_log2_def int_log2.simps Let_def)
    (simp add: wire_runtime_def)

lemma hashes_length: "length (to_binary wire_runtime api_class ''TxIdHashesResponse'' sample_hashes) < 2 ^ 31"
  by (simp add: to_binary_def write_message_def write_slots_def sample_hashes_def api_TxIdHashesResponse_def api_TxHash_def
      write_unknowns_def write_scalar_def wire_runtime_def wire_tag_def put_delimited_def delimited_def varint.simps code_of_def)

lemma messages_round_trip_witness:
  "\<exists>N. \<forall>fuel\<ge>N. from_binary fuel wire_runtime api_class ''TxIdHashesResponse''
     (to_binary wire_runtime api_class ''TxIdHashesResponse'' sample_hashes) = Some (Inr (sample_hashes, []))"
  by (rule messages_round_trip [OF wire.protobuf_runtime_axioms _ hashes_ok hashes_length]) simp

text \<open>C39. Whatever bytes a message class reads, if it returns an object, the object has every property of the interface, with
  a value of its type.\<close>

theorem read_messages_have_their_type:
  assumes "\<And>t bs x r. get_scalar rt t bs = Some (x, r) \<Longrightarrow> scalar_has (scalar_ts t) x"
    and "(S, I) = (api_class, api_interface) \<or> (S, I) = (clob_class, clob_interface)"
    and "from_binary fuel rt S n bs = Some (Inr (v, r))"
  shows "has_type v I False (TRef n)"
proof -
  have "typed_runtime rt S I" using assms(1,2) api_agrees clob_agrees by (auto intro!: typed_runtime.intro)
  from typed_runtime.message_typed_back [OF this, of n fuel bs] show ?thesis using assms(3) by (simp add: ensures_def)
qed

lemma read_messages_have_their_type_witness:
  "has_type (PMessage [PScalar (SText ''hi''), PScalar (SInt 5)] []) api_interface False (TRef ''StdResponse'')"
proof (rule read_messages_have_their_type [where rt = wire_runtime and S = api_class and fuel = 5])
  show "from_binary 5 wire_runtime api_class ''StdResponse'' [10, 2, 104, 105, 16, 5]
      = Some (Inr (PMessage [PScalar (SText ''hi''), PScalar (SInt 5)] [], []))"
    by code_simp
qed (auto simp: wire_runtime_def dest: wire_scalar_typed)



end
