(* ===== verification/RequestRules.thy ===== *)
theory RequestRules
  imports OrderLifecycle Requests MarketView MessageServices
begin

text \<open>
  The validation rules that the constructors of \<open>src/web/gen/api.ts\<close> declare for the fields of requests. The server's
  interceptor (\<open>src/api/server/lib/validation_interceptor.go\<close>) refuses a request that breaks one before any handler
  runs. Orders, cancellations and reward claims, as the client builds them, are checked against them.
\<close>

section \<open>Rules\<close>

datatype rule =
    Matches rx
  | Matches_i rx
  | One_of "string list"
  | One_of_numbers "int list"
  | Number_range "int option" "int option" "int option" "int option"
  | Length_between nat "nat option"
  | Items_between nat nat
  | Is_email
  | Is_uri

definition above :: "(int \<Rightarrow> int \<Rightarrow> bool) \<Rightarrow> int option \<Rightarrow> int \<Rightarrow> bool" where
  "above R b n = (case b of None \<Rightarrow> True | Some a \<Rightarrow> R a n)"

text \<open>The bounds of a range are \<open>gt\<close>, \<open>gte\<close>, \<open>lt\<close> and \<open>lte\<close>. The checks of mail addresses and links are parameters. A field
  that is not set has no rule to meet.\<close>

fun text_meets :: "(string \<Rightarrow> bool) \<Rightarrow> (string \<Rightarrow> bool) \<Rightarrow> rule \<Rightarrow> string \<Rightarrow> bool" where
  "text_meets email uri (Matches r) t = rx_full r t"
| "text_meets email uri (Matches_i r) t = rx_full r (to_lower t)"
| "text_meets email uri (One_of ts) t = (t \<in> set ts)"
| "text_meets email uri (Length_between a b) t = (a \<le> length t \<and> (case b of None \<Rightarrow> True | Some m \<Rightarrow> length t \<le> m))"
| "text_meets email uri Is_email t = email t"
| "text_meets email uri Is_uri t = uri t"
| "text_meets email uri _ t = False"

fun number_meets :: "rule \<Rightarrow> int \<Rightarrow> bool" where
  "number_meets (One_of_numbers ns) n = (n \<in> set ns)"
| "number_meets (Number_range a b c d) n = (above (<) a n \<and> above (\<le>) b n \<and> above (>) c n \<and> above (\<ge>) d n)"
| "number_meets _ n = False"

fun meets :: "(string \<Rightarrow> bool) \<Rightarrow> (string \<Rightarrow> bool) \<Rightarrow> rule \<Rightarrow> pvalue \<Rightarrow> bool" where
  "meets email uri r PUndef = True"
| "meets email uri r (PScalar (SText t)) = text_meets email uri r t"
| "meets email uri r (PScalar (SInt n)) = number_meets r n"
| "meets email uri r (PScalar (SBig n)) = number_meets r n"
| "meets email uri (Length_between a b) (PScalar (SBytes d)) =
     (a \<le> length d \<and> (case b of None \<Rightarrow> True | Some m \<Rightarrow> length d \<le> m))"
| "meets email uri (Items_between a b) (PList vs) = (a \<le> length vs \<and> length vs \<le> b)"
| "meets email uri r v = False"

definition validates :: "(string \<Rightarrow> bool) \<Rightarrow> (string \<Rightarrow> bool) \<Rightarrow> message_class \<Rightarrow> (string \<times> rule) list \<Rightarrow> pvalue list \<Rightarrow> bool" where
  "validates email uri c rules slots \<longleftrightarrow>
     list_all (\<lambda>(p, r). case map_of (zip (map f_name (c_reads c)) slots) p of Some v \<Rightarrow> meets email uri r v | None \<Rightarrow> False) rules"

section \<open>The patterns\<close>

definition is_hex_any :: "char \<Rightarrow> bool" where
  "is_hex_any c \<longleftrightarrow> is_digit c \<or> (97 \<le> code_of c \<and> code_of c \<le> 102) \<or> (65 \<le> code_of c \<and> code_of c \<le> 70)"

definition is_base64 :: "char \<Rightarrow> bool" where
  "is_base64 c \<longleftrightarrow> b64_value c \<noteq> None"

definition is_base64_any :: "char \<Rightarrow> bool" where
  "is_base64_any c \<longleftrightarrow> is_base64 c \<or> c = CHR ''=''"

definition rrange :: "nat \<Rightarrow> nat \<Rightarrow> rx \<Rightarrow> rx" where
  "rrange a b r = RSeq (rrep a r) (rrep (b - a) (ropt r))"

definition rdigit :: rx where "rdigit = RSet is_digit"

definition rclass :: "string \<Rightarrow> rx" where "rclass cs = RSet (\<lambda>c. c \<in> set cs)"

definition entity_number_regex :: rx where
  "entity_number_regex = RAlt (rlit ''0'') (RSeq (rclass ''123456789'') (RStar rdigit))"

definition account_id_regex :: rx where
  "account_id_regex = rseq [entity_number_regex, rlit ''.'', entity_number_regex, rlit ''.'', entity_number_regex]"

definition signature_regex :: rx where
  "signature_regex = RSeq (rrange 20 100 (RSet is_base64)) (rrange 0 2 (rlit ''=''))"

definition order_key_regex :: rx where
  "order_key_regex = ralt [RSeq (rlit ''04'') (rrep 128 (RSet is_hex_any)),
     rseq [rlit ''0'', rclass ''23'', rrep 64 (RSet is_hex_any)], rrep 64 (RSet is_hex_any)]"

definition prefixed_key_regex :: rx where
  "prefixed_key_regex = RSeq (ralt [rlit ''04'', rlit ''03'', rlit ''02'']) (rrange 32 256 (RSet is_hex_any))"

definition iso_time_regex :: rx where
  "iso_time_regex = rseq [rrep 4 rdigit, rlit ''-'', RAlt (RSeq (rlit ''0'') (rclass ''123456789'')) (RSeq (rlit ''1'') (rclass ''012'')),
     rlit ''-'', ralt [RSeq (rlit ''0'') (rclass ''123456789''), RSeq (rclass ''12'') rdigit, RSeq (rlit ''3'') (rclass ''01'')],
     rlit ''T'', RAlt (RSeq (rclass ''01'') rdigit) (RSeq (rlit ''2'') (rclass ''0123'')), rlit '':'', rclass ''012345'', rdigit,
     rlit '':'', rclass ''012345'', rdigit, rlit ''.'', rrep 3 rdigit, rlit ''Z'']"

definition category_list_regex :: rx where
  "category_list_regex = RSeq (rrange 0 4 (RSeq (rplus rdigit) (rlit '',''))) (rplus rdigit)"

section \<open>The rules of the messages\<close>

definition api_LimitOffsetRequest_rules :: "(string \<times> rule) list" where
  "api_LimitOffsetRequest_rules = [
      (''limit'', Number_range (Some 0) None None (Some 100)), (''offset'', Number_range None (Some 0) None None)]"

definition api_MarketIdRequest_rules :: "(string \<times> rule) list" where
  "api_MarketIdRequest_rules = [
      (''marketId'', Matches_i uuidv7_regex)]"

definition api_TxIdRequest_rules :: "(string \<times> rule) list" where
  "api_TxIdRequest_rules = [
      (''txId'', Matches_i uuidv7_regex)]"

definition api_AccountIdRequest_rules :: "(string \<times> rule) list" where
  "api_AccountIdRequest_rules = [
      (''accountId'', Matches account_id_regex), (''net'', One_of [''mainnet'', ''testnet'', ''previewnet''])]"

definition api_PrismPredictionIntentRequest_rules :: "(string \<times> rule) list" where
  "api_PrismPredictionIntentRequest_rules = [
      (''txId'', Matches_i uuidv7_regex), (''net'', One_of [''mainnet'', ''testnet'', ''previewnet'']),
      (''marketId'', Matches_i uuidv7_regex), (''accountId'', Matches account_id_regex),
      (''sig'', Matches signature_regex), (''publicKey'', Matches order_key_regex),
      (''evmAddress'', Matches (rrep 40 (RSet is_hex_any))), (''keyType'', One_of_numbers [1, 2]),
      (''chainId'', Number_range (Some 0) None None None),
      (''verifyingContract'', Matches (rrep 40 (RSet is_hex_any))), (''side'', One_of_numbers [0, 1]),
      (''action'', One_of_numbers [0, 1]), (''limitYesPrice'', Number_range None None None (Some 1000000)),
      (''qtyShares'', Number_range (Some 0) None None None), (''deadline'', Number_range (Some 0) None None None)]"

definition api_NewsLetterRequest_rules :: "(string \<times> rule) list" where
  "api_NewsLetterRequest_rules = [
      (''email'', Is_email)]"

definition api_UserPortfolioRequest_rules :: "(string \<times> rule) list" where
  "api_UserPortfolioRequest_rules = [
      (''evmAddress'', Matches (rrep 40 (RSet is_hex_any))),
      (''net'', One_of [''mainnet'', ''testnet'', ''previewnet'']), (''marketId'', Matches_i uuidv7_regex)]"

definition api_GetMatchesRequest_rules :: "(string \<times> rule) list" where
  "api_GetMatchesRequest_rules = [
      (''marketId'', Matches_i uuidv7_regex), (''limit'', Number_range (Some 0) None None (Some 100)),
      (''offset'', Number_range None (Some 0) None None)]"

definition api_PriceHistoryRequest_rules :: "(string \<times> rule) list" where
  "api_PriceHistoryRequest_rules = [
      (''marketId'', Matches_i uuidv7_regex), (''net'', One_of [''mainnet'', ''testnet'', ''previewnet'']),
      (''resolution'', One_of [''second'', ''minute'', ''hour'', ''day'', ''week'', ''month'', ''quarter'', ''year'', ''decade'']),
      (''from'', Matches iso_time_regex), (''to'', Matches iso_time_regex),
      (''limit'', Number_range (Some 0) None None (Some 1000)), (''offset'', Number_range None (Some 0) None None)]"

definition api_GetCommentsRequest_rules :: "(string \<times> rule) list" where
  "api_GetCommentsRequest_rules = [
      (''marketId'', Matches_i uuidv7_regex), (''limit'', Number_range (Some 0) None None (Some 100)),
      (''offset'', Number_range None (Some 0) None None)]"

definition api_CreateCommentRequest_rules :: "(string \<times> rule) list" where
  "api_CreateCommentRequest_rules = [
      (''marketId'', Matches_i uuidv7_regex), (''accountId'', Matches account_id_regex),
      (''content'', Length_between 1 (Some 1000)), (''sig'', Matches signature_regex),
      (''publicKey'', Matches order_key_regex), (''keyType'', One_of_numbers [1, 2])]"

definition api_CancelOrderRequest_rules :: "(string \<times> rule) list" where
  "api_CancelOrderRequest_rules = [
      (''marketId'', Matches_i uuidv7_regex), (''txId'', Matches_i uuidv7_regex),
      (''net'', One_of [''mainnet'', ''testnet'', ''previewnet'']), (''accountId'', Matches account_id_regex),
      (''sig'', Matches signature_regex), (''publicKey'', Matches prefixed_key_regex),
      (''keyType'', One_of_numbers [1, 2])]"

definition api_ClaimPrismRequest_rules :: "(string \<times> rule) list" where
  "api_ClaimPrismRequest_rules = [
      (''accountId'', Matches account_id_regex), (''net'', One_of [''mainnet'', ''testnet'', ''previewnet'']),
      (''sig'', Matches signature_regex), (''publicKey'', Matches prefixed_key_regex),
      (''keyType'', One_of_numbers [1, 2])]"

definition api_CreateMarketRequest_rules :: "(string \<times> rule) list" where
  "api_CreateMarketRequest_rules = [
      (''marketId'', Matches_i uuidv7_regex), (''net'', One_of [''mainnet'', ''testnet'', ''previewnet'']),
      (''statement'', Length_between 5 (Some 500)), (''imageUrl'', Length_between 0 (Some 2048)),
      (''imageUrl'', Is_uri), (''closesAt'', Matches iso_time_regex), (''description'', Length_between 0 (Some 2000)),
      (''rules'', Length_between 0 (Some 2000))]"

definition api_CreateMarketv2Request_rules :: "(string \<times> rule) list" where
  "api_CreateMarketv2Request_rules = [
      (''marketId'', Matches_i uuidv7_regex), (''net'', One_of [''mainnet'', ''testnet'', ''previewnet'']),
      (''statement'', Length_between 5 (Some 500)), (''closesAt'', Matches iso_time_regex),
      (''description'', Length_between 0 (Some 2000)), (''rules'', Length_between 0 (Some 2000)),
      (''categoryIds'', Items_between 1 5), (''imgChunk'', Length_between 0 (Some 5242880)),
      (''imgFileName'', Length_between 0 (Some 255)),
      (''imgMimeType'', One_of [''image/jpeg'', ''image/png'', ''image/gif'', ''image/svg+xml'']),
      (''imgMimeType'', Length_between 0 (Some 255)), (''aliasYes'', Length_between 1 (Some 100)),
      (''aliasNo'', Length_between 1 (Some 100)),
      (''hexColorYes'', Matches (RSeq (rlit ''#'') (rrep 6 (RSet is_hex_any)))),
      (''hexColorNo'', Matches (RSeq (rlit ''#'') (rrep 6 (RSet is_hex_any))))]"

definition api_UpdateMarketRequest_rules :: "(string \<times> rule) list" where
  "api_UpdateMarketRequest_rules = [
      (''marketId'', Matches_i uuidv7_regex), (''categoryIds'', Items_between 1 5)]"

definition api_PatchMarketRequest_rules :: "(string \<times> rule) list" where
  "api_PatchMarketRequest_rules = [
      (''marketId'', Matches_i uuidv7_regex), (''closesAt'', Matches iso_time_regex),
      (''description'', Length_between 0 (Some 2000)), (''rules'', Length_between 0 (Some 2000)),
      (''categoryIdsStrArr'', Matches category_list_regex), (''imgChunk'', Length_between 0 (Some 5242880)),
      (''imgFileName'', Length_between 0 (Some 255)),
      (''imgMimeType'', One_of [''image/jpeg'', ''image/png'', ''image/gif'', ''image/svg+xml'']),
      (''imgMimeType'', Length_between 0 (Some 255)), (''aliasYes'', Length_between 1 (Some 100)),
      (''aliasNo'', Length_between 1 (Some 100)),
      (''hexColorYes'', Matches (RSeq (rlit ''#'') (rrep 6 (RSet is_hex_any)))),
      (''hexColorNo'', Matches (RSeq (rlit ''#'') (rrep 6 (RSet is_hex_any))))]"

definition api_ResolveMarketRequest_rules :: "(string \<times> rule) list" where
  "api_ResolveMarketRequest_rules = [
      (''marketId'', Matches_i uuidv7_regex), (''outcome'', One_of_numbers [0, 1, 2])]"

definition api_CategoryRequest_rules :: "(string \<times> rule) list" where
  "api_CategoryRequest_rules = [
      (''name'', Length_between 1 (Some 100)), (''description'', Length_between 0 (Some 500))]"

definition api_ChallengeRequest_rules :: "(string \<times> rule) list" where
  "api_ChallengeRequest_rules = [
      (''accountId'', Matches account_id_regex), (''network'', One_of [''mainnet'', ''testnet'', ''previewnet''])]"

definition api_VerifyChallengeRequest_rules :: "(string \<times> rule) list" where
  "api_VerifyChallengeRequest_rules = [
      (''challengeResponseBase64'', Matches (RSeq (rrep 10 (RSet is_base64_any)) (RStar (RSet is_base64_any)))),
      (''payload'', Length_between 5 (Some 256))]"
section \<open>What the patterns match\<close>

lemma matches_rseq_append: "matches (rseq (rs @ qs)) s \<longleftrightarrow> (\<exists>u v. s = u @ v \<and> matches (rseq rs) u \<and> matches (rseq qs) v)"
proof (induction rs arbitrary: s)
  case (Cons r rs)
  then show ?case by (simp add: matches_simps) (metis append.assoc)
qed (simp add: matches_simps)

lemma matches_rrep_set: "matches (rrep n (RSet p)) s \<longleftrightarrow> length s = n \<and> list_all p s"
  using matches_rseq_sets [of "replicate n p" s]
  by (auto simp: rrep_def list_all2_conv_all_nth list_all_length)

lemma matches_ropt_set: "matches (ropt (RSet p)) s \<longleftrightarrow> length s \<le> 1 \<and> list_all p s"
  by (cases s rule: remdups_adj.cases) (auto simp: ropt_def matches_simps)

lemma matches_ropts: "length s \<le> n \<Longrightarrow> list_all p s \<Longrightarrow> matches (rrep n (ropt (RSet p))) s"
proof (induction n arbitrary: s)
  case (Suc n)
  show ?case
  proof (cases s)
    case Nil
    then show ?thesis using Suc.IH [of "[]"] by (simp add: rrep_def matches_simps ropt_def)
  next
    case (Cons c t)
    have "matches (ropt (RSet p)) [c]" "matches (rrep n (ropt (RSet p))) t"
      using Suc Cons by (simp_all add: matches_ropt_set)
    then show ?thesis unfolding Cons rrep_def by (simp add: matches_simps) (metis append_Cons append_Nil)
  qed
qed (simp add: rrep_def matches_simps)

lemma matches_rrange:
  "a \<le> length s \<Longrightarrow> length s \<le> b \<Longrightarrow> list_all p s \<Longrightarrow> matches (rrange a b (RSet p)) s"
proof -
  assume s: "a \<le> length s" "length s \<le> b" "list_all p s"
  then have "list_all p (take a s @ drop a s)" by simp
  then have "matches (rrep a (RSet p)) (take a s)" "matches (rrep (b - a) (ropt (RSet p))) (drop a s)"
    using s by (auto simp: matches_rrep_set intro!: matches_ropts simp del: append_take_drop_id)
  then show "matches (rrange a b (RSet p)) s" unfolding rrange_def matches_simps(4) by (metis append_take_drop_id)
qed

lemma matches_pads: "k \<le> n \<Longrightarrow> matches (rrange 0 n (rlit [c])) (replicate k c)"
proof -
  have "k \<le> n \<Longrightarrow> matches (rseq (replicate n (ropt (rlit [c])))) (replicate k c)"
  proof (induction n arbitrary: k)
    case (Suc n)
    show ?case
    proof (cases k)
      case 0
      then show ?thesis using Suc.IH [of 0] by (auto simp: matches_simps ropt_def)
    next
      case (Suc j)
      then have "matches (rseq (replicate n (ropt (rlit [c])))) (replicate j c)" using Suc.IH Suc.prems by simp
      moreover have "matches (ropt (rlit [c])) [c]" by (simp add: ropt_def matches_simps)
      moreover have "replicate k c = [c] @ replicate j c" using Suc by simp
      ultimately show ?thesis by (simp only: replicate_Suc rseq.simps matches_simps(4)) blast
    qed
  qed (simp add: matches_simps)
  then show "k \<le> n \<Longrightarrow> ?thesis" by (simp add: rrange_def rrep_def matches_simps)
qed

lemma signature_fits:
  assumes "is_bytes bs" "16 \<le> length bs" "length bs \<le> 75"
  shows "rx_full signature_regex (base64 bs)"
proof -
  obtain u k where u: "base64 bs = u @ replicate k (CHR ''='')" "k \<le> 2" "list_all is_base64 u"
    using base64_shape [OF assms(1)] by (fastforce simp: b64_text_def is_base64_def list_all_iff)
  have "length (base64 bs) = length u + k" using u(1) by simp
  moreover have "6 \<le> (length bs + 2) div 3" "(length bs + 2) div 3 \<le> 25" using assms(2,3) by simp_all
  ultimately have "20 \<le> length u" "length u \<le> 100" using u(2) unfolding length_base64 by linarith+
  then have "matches (rrange 20 100 (RSet is_base64)) u" using u(3) by (rule matches_rrange)
  moreover have "matches (rrange 0 2 (rlit ''='')) (replicate k (CHR ''=''))"
    using u(2) by (rule matches_pads)
  ultimately show ?thesis unfolding rx_full_iff signature_regex_def matches_simps(4) u(1) by blast
qed

lemma prefixed_key_prefix:
  assumes "rx_full prefixed_key_regex s"
  shows "starts_with s ''02'' \<or> starts_with s ''03'' \<or> starts_with s ''04''"
proof -
  obtain u v where "s = u @ v" "u = ''04'' \<or> u = ''03'' \<or> u = ''02''"
    using assms unfolding rx_full_iff prefixed_key_regex_def by (auto simp: matches_simps)
  then show ?thesis by (auto simp: starts_with_def)
qed

lemma hex40_any: "is_hex40 s \<Longrightarrow> rx_full (rrep 40 (RSet is_hex_any)) s"
  by (auto simp: is_hex40_def rx_full_iff matches_rrep_set list_all_iff is_hex_lower_def is_hex_any_def)

section \<open>The requests of the client\<close>

definition order_slots :: "intent_request \<Rightarrow> pvalue list" where
  "order_slots i = [PScalar (SText (i_txId i)), PScalar (SText (i_net i)), PScalar (SText (i_marketId i)),
     PScalar (SText (i_accountId i)), PScalar (SText (i_sig i)), PScalar (SText (i_publicKey i)), PScalar (SText (i_evmAddress i)),
     PScalar (SInt (i_keyType i)), PScalar (SBig (i_chainId i)), PScalar (SText (i_verifyingContract i)), PScalar (SInt (i_side i)),
     PScalar (SInt (i_action i)), PScalar (SBig (i_limitYesPrice i)), PScalar (SBig (i_qtyShares i)), PScalar (SBig (i_collateralCap i)),
     PScalar (SBig (i_deadline i))]"

definition cancel_slots :: "cancel_request \<Rightarrow> pvalue list" where
  "cancel_slots r = map (PScalar \<circ> SText) [cq_marketId r, cq_txId r, cq_net r, cq_accountId r, cq_sig r, cq_publicKey r]
     @ [PScalar (SInt (cq_keyType r))]"

definition claim_slots :: "claim_request \<Rightarrow> pvalue list" where
  "claim_slots r = map (PScalar \<circ> SText) [cr_accountId r, cr_net r, cr_sig r, cr_publicKey r] @ [PScalar (SInt (cr_keyType r))]"

lemma validates_cancel:
  "validates email uri api_CancelOrderRequest api_CancelOrderRequest_rules (cancel_slots r) \<Longrightarrow> rx_full prefixed_key_regex (cq_publicKey r)"
  by (simp add: validates_def api_CancelOrderRequest_def api_CancelOrderRequest_rules_def cancel_slots_def)

lemma validates_claim:
  "validates email uri api_ClaimPrismRequest api_ClaimPrismRequest_rules (claim_slots r) \<Longrightarrow> rx_full prefixed_key_regex (cr_publicKey r)"
  by (simp add: validates_def api_ClaimPrismRequest_def api_ClaimPrismRequest_rules_def claim_slots_def)

lemma validates_order_iff:
  "validates email uri api_PrismPredictionIntentRequest api_PrismPredictionIntentRequest_rules (order_slots i) \<longleftrightarrow>
     isValidUUIDv7 (i_txId i) \<and> i_net i \<in> {''mainnet'', ''testnet'', ''previewnet''} \<and> isValidUUIDv7 (i_marketId i)
     \<and> rx_full account_id_regex (i_accountId i) \<and> rx_full signature_regex (i_sig i) \<and> rx_full order_key_regex (i_publicKey i)
     \<and> rx_full (rrep 40 (RSet is_hex_any)) (i_evmAddress i) \<and> i_keyType i \<in> {1, 2} \<and> 0 < i_chainId i
     \<and> rx_full (rrep 40 (RSet is_hex_any)) (i_verifyingContract i) \<and> i_side i \<in> {0, 1} \<and> i_action i \<in> {0, 1}
     \<and> i_limitYesPrice i \<le> 1000000 \<and> 0 < i_qtyShares i \<and> 0 < i_deadline i"
  by (simp add: validates_def api_PrismPredictionIntentRequest_def api_PrismPredictionIntentRequest_rules_def order_slots_def
      isValidUUIDv7_def above_def)

lemma limit_le_scale: "toLimitYesPrice oc x = Inr l \<Longrightarrow> l \<le> 1000000"
  using limit_price_total [of x] by (cases oc; cases "toLimitYesPrice OYes x") (auto simp: PRICE_SCALE_def)

lemma generated_rest:
  assumes "generatePredictionIntent env uuid now acc ot act oc bid ask sh lp = Inr i" "e_account env = Some account"
  shows "i_accountId i = account" "i_net i = to_lower (e_net env)" "i_keyType i \<in> {1, 2}"
    "i_publicKey i = normalize_key (e_to_raw env) (key_type acc) (key_hex acc)" "check_key (key_type acc) (i_publicKey i) = Inr ()"
    "i_evmAddress i = to_lower (if starts_with (evm_address acc) ''0x'' then drop 2 (evm_address acc) else evm_address acc)"
    "i_chainId i \<in> {295, 296, 297} \<or> e_chainIds env (i_net i) = Some (i_chainId i)"
    "key_type acc = ''ED25519'' \<or> key_type acc = ''ECDSA_SECP256K1''"
proof -
  have parts: "i_accountId i = account \<and> i_net i = to_lower (e_net env) \<and> keyTypeToInt (key_type acc) = Inr (i_keyType i)
      \<and> i_publicKey i = normalize_key (e_to_raw env) (key_type acc) (key_hex acc) \<and> check_key (key_type acc) (i_publicKey i) = Inr ()
      \<and> i_evmAddress i = to_lower (if starts_with (evm_address acc) ''0x'' then drop 2 (evm_address acc) else evm_address acc)
      \<and> i_chainId i = (case e_chainIds env (to_lower (e_net env)) of Some c \<Rightarrow> c
            | None \<Rightarrow> (case DEFAULT_CHAIN_IDS (to_lower (e_net env)) of Some c \<Rightarrow> c | None \<Rightarrow> 296))"
    using assms unfolding generatePredictionIntent_def bind_result_Inr_iff Let_def by (auto simp: bind_result_Inr_iff split: if_splits)
  then show "i_accountId i = account" "i_net i = to_lower (e_net env)"
    "i_publicKey i = normalize_key (e_to_raw env) (key_type acc) (key_hex acc)" "check_key (key_type acc) (i_publicKey i) = Inr ()"
    "i_evmAddress i = to_lower (if starts_with (evm_address acc) ''0x'' then drop 2 (evm_address acc) else evm_address acc)"
    by blast+
  from parts have kt: "keyTypeToInt (key_type acc) = Inr (i_keyType i)" by blast
  then show "i_keyType i \<in> {1, 2}" "key_type acc = ''ED25519'' \<or> key_type acc = ''ECDSA_SECP256K1''"
    by (auto simp: keyTypeToInt_def split: if_splits)
  from parts show "i_chainId i \<in> {295, 296, 297} \<or> e_chainIds env (i_net i) = Some (i_chainId i)"
    by (cases "e_chainIds env (to_lower (e_net env))") (auto simp: DEFAULT_CHAIN_IDS_def)
qed

lemma list_all_drop: "list_all p s \<Longrightarrow> list_all p (drop n s)"
  by (auto simp: list_all_iff dest: in_set_dropD)

lemma order_key_matches:
  assumes "check_key kt k = Inr ()" "list_all is_hex_any k" "kt = ''ED25519'' \<or> kt = ''ECDSA_SECP256K1''"
    and "kt = ''ECDSA_SECP256K1'' \<Longrightarrow> (if length k = 66 then starts_with k ''02'' \<or> starts_with k ''03'' else starts_with k ''04'')"
  shows "rx_full order_key_regex k"
proof -
  have hex: "matches (rrep n (RSet is_hex_any)) (drop m k)" if "length k - m = n" for n m
    using that list_all_drop [OF assms(2)] by (simp add: matches_rrep_set)
  have pre: "k = p @ drop (length p) k" if "starts_with k p" for p
    using that by (metis append_take_drop_id starts_with_def)
  consider "length k = 64" | "length k = 66" "starts_with k ''02'' \<or> starts_with k ''03''" | "length k = 130" "starts_with k ''04''"
    using assms(1,3,4) by (auto simp: check_key_def split: if_splits)
  then show ?thesis
  proof cases
    case 1
    then show ?thesis using hex [of 0 64] by (simp add: rx_full_iff order_key_regex_def matches_simps)
  next
    case 2
    then have "k = ''02'' @ drop (length ''02'') k \<or> k = ''03'' @ drop (length ''03'') k" using pre by blast
    then have "k = ''0'' @ ''2'' @ drop 2 k @ [] \<or> k = ''0'' @ ''3'' @ drop 2 k @ []" by (simp add: numeral_2_eq_2)
    moreover have "matches (rrep 64 (RSet is_hex_any)) (drop 2 k)" using hex [of 2 64] 2 by simp
    moreover have "matches (rclass ''23'') ''2''" "matches (rclass ''23'') ''3''" by (simp_all add: rclass_def matches_simps)
    ultimately have "matches (rseq [rlit ''0'', rclass ''23'', rrep 64 (RSet is_hex_any)]) k"
      unfolding rseq.simps matches_simps(2,4) matches_rlit by blast
    then show ?thesis by (simp add: rx_full_iff order_key_regex_def matches_simps)
  next
    case 3
    then have "k = ''04'' @ drop 2 k" using pre [of "''04''"] by (simp add: numeral_2_eq_2)
    moreover have "matches (rrep 128 (RSet is_hex_any)) (drop 2 k)" using hex [of 2 128] 3 by simp
    ultimately have "matches (RSeq (rlit ''04'') (rrep 128 (RSet is_hex_any))) k" unfolding matches_simps(4) matches_rlit by blast
    then show ?thesis by (simp add: rx_full_iff order_key_regex_def matches_simps)
  qed
qed

lemma is_hex_any_lower: "is_hex_any c \<Longrightarrow> is_hex_any (lower_char c)"
  by (auto simp: is_hex_any_def lower_char_def is_digit_def code_of_def of_char_of take_bit_eq_mod)

text \<open>The order as the message that carries it, and the range of its numbers in the message.\<close>

definition order_message :: "intent_request \<Rightarrow> pvalue" where
  "order_message i = PMessage (order_slots i) []"

definition order_fits :: "intent_request \<Rightarrow> bool" where
  "order_fits i \<longleftrightarrow> list_all (\<lambda>n. 0 \<le> n \<and> n < 2 ^ 32) [i_keyType i, i_side i, i_action i]
     \<and> list_all (\<lambda>n. 0 \<le> n \<and> n < 2 ^ 64) [i_chainId i, i_limitYesPrice i, i_qtyShares i, i_collateralCap i, i_deadline i]"

lemma order_class: "api_class ''PrismPredictionIntentRequest'' = api_PrismPredictionIntentRequest"
  by (simp add: api_class_def api_classes_def)

lemma order_message_ok: "order_fits i \<Longrightarrow> ok_message rt api_class ''PrismPredictionIntentRequest'' (order_message i)"
  by (simp add: ok_message_def order_message_def order_slots_def order_class api_PrismPredictionIntentRequest_def order_fits_def)

lemma order_message_inject: "order_message i = order_message j \<Longrightarrow> i = j"
  by (cases i; cases j) (simp add: order_message_def order_slots_def)

section \<open>Properties\<close>

text \<open>C17. An order the client builds for a connected account, with a signature of between 16 and 75 bytes, meets every rule
  the request declares, when what comes from outside is well formed (the identifiers, the account, the key and the address), and
  the order is of at least one base unit.\<close>

theorem orders_meet_their_rules:
  assumes "generatePredictionIntent env uuid now acc ot act oc bid ask sh lp = Inr i"
    and "e_account env = Some account" "rx_full account_id_regex account"
    and "isValidUUIDv7 uuid" "isValidUUIDv7 (e_marketId env)" "to_lower (e_net env) \<in> {''mainnet'', ''testnet'', ''previewnet''}"
    and "\<And>net c. e_chainIds env net = Some c \<Longrightarrow> 0 < c"
    and "rx_full (rrep 40 (RSet is_hex_any)) (if starts_with (evm_address acc) ''0x'' then drop 2 (evm_address acc) else evm_address acc)"
    and "list_all is_hex_any (i_publicKey i)"
    and "key_type acc = ''ECDSA_SECP256K1'' \<Longrightarrow> (if length (i_publicKey i) = 66
           then starts_with (i_publicKey i) ''02'' \<or> starts_with (i_publicKey i) ''03'' else starts_with (i_publicKey i) ''04'')"
    and "0 < i_qtyShares i" "0 \<le> now" "is_bytes sig" "16 \<le> length sig" "length sig \<le> 75"
  shows "validates email uri api_PrismPredictionIntentRequest api_PrismPredictionIntentRequest_rules (order_slots (i\<lparr>i_sig := base64 sig\<rparr>))"
proof -
  have connected: "e_account env \<noteq> None" using assms(2) by simp
  note g = generated_intent [OF assms(1) connected] and r = generated_rest [OF assms(1,2)]
  have key: "rx_full order_key_regex (i_publicKey i)" using order_key_matches [OF r(5) assms(9) r(8) assms(10)] .
  have evm: "rx_full (rrep 40 (RSet is_hex_any)) (i_evmAddress i)"
    using assms(8) is_hex_any_lower unfolding r(6) rx_full_iff matches_rrep_set by (auto simp: to_lower_def list_all_iff)
  have "0 < i_deadline i" using g(7) assms(12) by (simp add: DEFAULT_DEADLINE_SECONDS_def add_nonneg_pos pos_imp_zdiv_nonneg_iff)
  moreover have "0 < i_chainId i" using r(7) assms(7) by auto
  moreover have "i_side i \<in> {0, 1}" "i_action i \<in> {0, 1}"
    unfolding g(4,5) by (simp_all add: order_cap_side_def order_action_code_def SIDE_YES_def SIDE_NO_def ACTION_BUY_def ACTION_SELL_def)
  ultimately show ?thesis
    unfolding validates_order_iff
    using key evm r(1-3) g(8,9) assms(3-6,11) hex40_any [OF g(6)] limit_le_scale [OF g(1)] signature_fits [OF assms(13-15)] by simp
qed

text \<open>C23. An account with an ED25519 key can place orders, but if its key does not happen to begin with 02, 03 or 04 it can neither
  cancel them nor claim rewards: a server that refuses what breaks the declared rules refuses both requests, whatever the
  wallet answers.\<close>

theorem ed25519_accounts_cannot_cancel_or_claim:
  assumes "uk_type k = ''ED25519''" "length (uk_key k) = 64" "list_all is_hex_any (uk_key k)"
    and "\<not> starts_with (uk_key k) ''02''" "\<not> starts_with (uk_key k) ''03''" "\<not> starts_with (uk_key k) ''04''"
    and "\<And>r. \<not> validates email uri api_CancelOrderRequest api_CancelOrderRequest_rules (cancel_slots r) \<Longrightarrow> \<exists>e. api r = Inl e"
    and "\<And>r. \<not> validates email uri api_ClaimPrismRequest api_ClaimPrismRequest_rules (claim_slots r) \<Longrightarrow> \<exists>e. rw_claim w r = Inl e"
  shows "rx_full order_key_regex (normalize_key to_raw (uk_type k) (uk_key k))
    \<and> submitSignedCancel w api acc mkt tx n k \<noteq> Inr () \<and> submitClaimPrism w acc n k \<noteq> Inr message"
proof (intro conjI notI)
  have same: "normalizePublicKey raw (uk_key k) (uk_type k) = uk_key k" for raw using assms(1,2) by (simp add: normalizePublicKey_def)
  have refused: "\<not> rx_full prefixed_key_regex (uk_key k)" using prefixed_key_prefix assms(4-6) by blast
  show "rx_full order_key_regex (normalize_key to_raw (uk_type k) (uk_key k))"
    using assms(1-3) by (intro order_key_matches [of "''ED25519''"]) (simp_all add: normalize_key_def check_key_def)
  show False if "submitSignedCancel w api acc mkt tx n k = Inr ()"
  proof -
    have kt: "keyTypeToInt (uk_type k) = Inr 1" using assms(1) by (simp add: keyTypeToInt_def)
    from that obtain r m where "api r = Inr (0, m)" "cq_publicKey r = uk_key k"
      unfolding submitSignedCancel_def submitSignedCancelWithMode_def attempt_bind_Inr_iff kt sum.case same
      by (force simp: attempt_bind_Inr_iff split: if_splits)
    then show False using assms(7) [of r] validates_cancel [of email uri r] refused by fastforce
  qed
  show False if claimed: "submitClaimPrism w acc n k = Inr message"
  proof -
    from submit_claim_Inr [OF claimed] obtain sig request m where
      q: "buildClaimRequest (rw_engine w) (rw_to_raw w) acc n sig k = Inr request" "rw_claim w request = Inr (0, m)" by blast
    then have "cr_publicKey request = uk_key k"
      using same by (auto simp: buildClaimRequest_def normalizeClaimPublicKey_def split: sum.splits)
    then show False using assms(8) [of request] validates_claim [of email uri request] refused q(2) by fastforce
  qed
qed


section \<open>Concrete orders\<close>

definition demo_intent :: "string \<Rightarrow> intent_request" where
  "demo_intent tx = \<lparr>i_txId = tx, i_net = ''testnet'', i_marketId = ''01890f3e-7c10-7cc1-98bc-0242ac120002'', i_accountId = ''0.0.7'',
     i_sig = [], i_publicKey = replicate 64 (CHR ''a''), i_evmAddress = replicate 40 (CHR ''2''), i_keyType = 1, i_chainId = 296,
     i_verifyingContract = replicate 40 (CHR ''1''), i_side = 0, i_action = 0, i_limitYesPrice = 570000, i_qtyShares = 4000000,
     i_collateralCap = 2280000, i_deadline = 3600\<rparr>"

lemma demo_intent_generated:
  "generatePredictionIntent demo_order_env tx 0 demo_account OLimit ABuy OYes (1 - 0) 0 (JNum 4) (lit (of_int 570 / 1000))
     = Inr (demo_intent tx)"
proof -
  have "level 1 (lit (of_int 570 / 1000)) (1000 * 570)"
    using level_grid [of 570000] tick_price_props(1) [of 570] by (simp add: tick_price_def grid_def)
  from level_limit [OF this, of OYes]
  have l: "toLimitYesPrice OYes (snap_milli (natural_price OLimit ABuy OYes (1 - 0) 0 (lit (of_int 570 / 1000)))) = Inr 570000"
    by (simp add: natural_price_def)
  have q: "toBaseUnits (JNum 4) 6 = Inr 4000000"
    using toBaseUnits_num [of 6 4] by (simp add: floor_eq_iff)
  have cap: "computeCollateralCap (order_cap_side OYes) (order_action_code ABuy) 4000000 570000 = Inr 2280000"
    using cap_values(2) [of 4000000 570000] by (simp add: order_cap_side_def order_action_code_def PRICE_SCALE_def)
  have vc: "strip_0x_lower ''0x1111111111111111111111111111111111111111'' = ''1111111111111111111111111111111111111111''"
    by (simp add: strip_0x_lower_def strip0x_def starts_with_def to_lower_def lower_char_def code_of_def)
  show ?thesis
    using l q cap vc demo_hex40
    by (simp add: generatePredictionIntent_def demo_order_env_def demo_account_def normalize_key_def check_key_def keyTypeToInt_def Let_def
        demo_intent_def DEFAULT_DEADLINE_SECONDS_def DEFAULT_CHAIN_IDS_def starts_with_def to_lower_def lower_char_def code_of_def
        order_cap_side_def order_action_code_def SIDE_YES_def ACTION_BUY_def eval_nat_numeral)
qed

theorem orders_meet_their_rules_witness:
  "validates (\<lambda>_. False) (\<lambda>_. False) api_PrismPredictionIntentRequest api_PrismPredictionIntentRequest_rules
     (order_slots ((demo_intent ''01890f3e-7c10-7cc1-98bc-0242ac120003'')\<lparr>i_sig := base64 (replicate 64 7)\<rparr>))"
proof (rule orders_meet_their_rules [OF demo_intent_generated])
  show "e_account demo_order_env = Some ''0.0.7''" by (simp add: demo_order_env_def)
  show "rx_full account_id_regex ''0.0.7''" by code_simp
  show "isValidUUIDv7 ''01890f3e-7c10-7cc1-98bc-0242ac120003''" by code_simp
  show "isValidUUIDv7 (e_marketId demo_order_env)" by code_simp
  show "to_lower (e_net demo_order_env) \<in> {''mainnet'', ''testnet'', ''previewnet''}" by code_simp
  show "0 < c" if "e_chainIds demo_order_env net = Some c" for net c using that by (simp add: demo_order_env_def)
  show "rx_full (rrep 40 (RSet is_hex_any)) (if starts_with (evm_address demo_account) ''0x'' then drop 2 (evm_address demo_account)
      else evm_address demo_account)" by code_simp
  show "list_all is_hex_any (i_publicKey (demo_intent ''01890f3e-7c10-7cc1-98bc-0242ac120003''))" by code_simp
qed (simp_all add: demo_intent_def demo_account_def is_bytes_def list_all_iff)

definition strict_world :: request_world where
  "strict_world = sample_world\<lparr>rw_claim := \<lambda>_. Inl (throw ''refused'')\<rparr>"

theorem ed25519_accounts_cannot_cancel_or_claim_witness:
  "submitSignedCancel strict_world (\<lambda>r. Inl (throw ''refused'')) ''0.0.7'' ''m'' sample_tx ''TESTNET'' sample_key \<noteq> Inr ()
    \<and> submitClaimPrism strict_world ''0.0.7'' ''TESTNET'' sample_key \<noteq> Inr ''Claim submitted''"
proof -
  have "uk_type sample_key = ''ED25519''" "length (uk_key sample_key) = 64" "list_all is_hex_any (uk_key sample_key)"
      "\<not> starts_with (uk_key sample_key) ''02''" "\<not> starts_with (uk_key sample_key) ''03''" "\<not> starts_with (uk_key sample_key) ''04''"
    by code_simp+
  from ed25519_accounts_cannot_cancel_or_claim [OF this, of "\<lambda>_. False" "\<lambda>_. False" "\<lambda>r. Inl (throw ''refused'')" strict_world]
  show ?thesis by (simp add: strict_world_def)
qed

lemma varint_small: "n < 128 \<Longrightarrow> varint n = [int n]"
  by (simp add: varint.simps)

lemma varint_large: "\<not> n < 128 \<Longrightarrow> varint n = int (n mod 128 + 128) # varint (n div 128)"
  by (subst varint.simps) simp

lemma demo_order_waiting:
  "\<exists>s. order_reachable demo_order_env (\<lambda>_. Inr ''k'') s \<and> (demo_intent ''tx'')\<lparr>i_sig := ''sig''\<rparr> \<in> set (l_sending s)"
proof -
  obtain s i where s: "order_reachable demo_order_env (\<lambda>_. Inr ''k'') s" "l_intent s = Some i" "l_signature s = Some ''sig''"
      "i_deadline i = 3600"
      "generatePredictionIntent demo_order_env ''tx'' 0 demo_account OLimit ABuy OYes (1 - 0) 0 (JNum 4) (lit (of_int 570 / 1000)) = Inr i"
    using demo_signed by blast
  have i: "i = demo_intent ''tx''" using s(5) demo_intent_generated [of "''tx''"] by simp
  have "e_account demo_order_env \<noteq> None" "60 \<le> i_deadline i - 1000 div 1000" by (simp_all add: demo_order_env_def s(4))
  from submit_sends_what_was_signed [OF s(1-3) _ this]
  have "(demo_intent ''tx'')\<lparr>i_sig := ''sig''\<rparr> \<in> set (l_sending (submit_start demo_order_env (\<lambda>_. Inr ''k'') 1000 s))"
    by (simp add: i)
  then show ?thesis using order_reachable.step [OF s(1) order_step.submit] by blast
qed


end
