(* ===== verification/Spec2Isabelle.thy ===== *)
theory Spec2Isabelle
  imports Prism WalletMutex OrderLifecycle FetchCache BlockNode Rewards Portfolio HederaTx
    OrderbookView MarketView SessionTimers BookPath Requests Wallets PriceChart Allowances TradePanel
    PortfolioPage RequestRules
begin

text \<open>
  A verification library of the Prism prediction market: its web client (TypeScript, \<open>src/web\<close>), the relay of
  contract events (TypeScript, \<open>src/blocknode\<close>), the matching engine (Rust, \<open>src/clob\<close>) and the settlement
  contract (Solidity, \<open>src/scs/contracts/PrismV2.sol\<close>).

  \<^bold>\<open>The parts and how they interact.\<close> A user fills in the trade form (\<open>web/lib/trading\<close>); the client turns it into
  an integer order with a collateral cap, has the wallet sign it under the wallet lock and sends it to the
  server, which hands it to the matching engine over a message stream. The engine keeps one book per market and
  publishes every fill once; a worker settles the fills on the contract, which checks the two signed
  authorizations again and moves collateral and shares. The contract's events come back through the relay and
  the server to the client, whose pages show the book, the portfolio, the last trades and the rewards. Redemption
  and allowances go from the client directly to the ledger.

  \<^bold>\<open>Foundations.\<close> \<open>Prelude\<close>: results as sums, shared lemmas and collections. \<open>JsNumber\<close>: JavaScript numbers as
  binary64 values, each operation exact and then rounded. \<open>JsString\<close>: texts, digits, trimming, \<open>Number(s)\<close>. \<open>RegExp\<close>:
  the regular expressions the code tests with. \<open>Json\<close>: the parser of \<open>JSON.parse\<close>. \<open>JsCollections\<close>: insertion-ordered
  maps and sets and stable sorting.

  \<^bold>\<open>Orders, books and settlement.\<close> \<open>OrderProtocol\<close> is \<open>web/lib/prismV2.ts\<close> (units, limits, collateral cap, the
  signed message). \<open>Settlement\<close> is the contract's treatment of one authorization, and composes it with the
  client's cap. \<open>Prism\<close> is the whole contract over its storage: every external function, the reachable states,
  solvency, redemption, and a simulation by an abstract market. \<open>Clob\<close> is the engine (\<open>matching.rs\<close>,
  \<open>orderbook.rs\<close>, \<open>nats.rs\<close>): the search for the largest fill, the walk over the book as a relation, the service and
  its published messages, composed with the contract's checks. \<open>BookPrices\<close> is \<open>web/lib/utils.ts\<close>, and \<open>BookPath\<close>
  shows that it reads from the engine's snapshots what the engine has.

  \<^bold>\<open>The client.\<close> \<open>Trading\<close>: the form with its derived values and validation (\<open>web/lib/trading\<close>, \<open>costBasis.ts\<close>).
  \<open>OrderLifecycle\<close>: \<open>useOrderLifecycle.ts\<close> as steps between awaits, with the reachable states. \<open>WalletMutex\<close>:
  \<open>walletMutex.ts\<close> and \<open>signWithWallet.ts\<close> with timers. \<open>SessionStores\<close>: pending sells and redemption suppression.
  \<open>Paging\<close>, \<open>FetchCache\<close>: paged reads (with the server's page arithmetic as a locale's interpretation) and cached
  reads. \<open>Portfolio\<close>: one refresh and everything derived from it. \<open>OrderbookView\<close>: \<open>GraphOrderbook.tsx\<close>.
  \<open>MarketView\<close>: labels, last trade, audit trail, position, country. \<open>Rewards\<close>: aggregation, leaderboard and
  the bounded pool. \<open>HederaTx\<close>: \<open>hedera.ts\<close> and \<open>useRedeem.ts\<close>. \<open>SessionTimers\<close>: tokens and idle timers.
  \<open>Requests\<close>: the signed requests besides orders (cancellations, reward claims) and the client's gates.
  \<open>Wallets\<close>: the connector of the wallet library, its network and its state. \<open>Allowances\<close>: \<open>AllowanceManager.tsx\<close>.
  \<open>PriceChart\<close>: \<open>GraphPriceV2.tsx\<close> over the server's price history. \<open>TradePanel\<close>: the limit price, size buttons and
  checks of \<open>TradePanel.tsx\<close>. \<open>PortfolioPage\<close>: the lists of \<open>Portfolio.tsx\<close> and the notice of winnings, with the
  history compared to what the contract pays. \<open>BlockNode\<close>: the relay.

  \<^bold>\<open>Messages.\<close> \<open>Protobuf\<close>: the four methods of a message class over the lists of its statements, with the runtime
  library as a record of functions, the laws of that library as locales, and what they give: a message is read
  back from its bytes, and what is read has its interface's type. \<open>ApiMessages\<close>, \<open>ClobMessages\<close>: every interface and
  class of \<open>web/gen/api.ts\<close> and \<open>clob.ts\<close>. \<open>MessageServices\<close>: the services and their client classes. \<open>RequestRules\<close>: the
  validation rules the messages declare, against the orders, cancellations and claims of the client. \<open>WireFormat\<close> is the
  documented encoding as a runtime, which the locales are interpreted on.

  \<^bold>\<open>State and operations.\<close> A hook, module or service is a record with the fields of its refs, state variables or
  storage; a handler is one function from state to state, an asynchronous one is cut at its awaits, and every
  order of the resulting steps is allowed by a step relation or by folding over an arbitrary list of events.
  Errors are the left side of a sum. What lies outside the repository (hash functions, ABI encoding, the wallet,
  the ledger, the token, the network) is a parameter, with the documented behaviour a theorem needs as a
  hypothesis that its witness meets.

  \<^bold>\<open>Lemma groups.\<close> Each theory has the facts about one operation first (what it leaves alone, its ranges), then the
  invariant and its preservation by every step, then the properties. Locales state the interfaces (a paged
  feed, a bounded queue, a keyed store) and are interpreted on the code's own definitions.

  \<^bold>\<open>Bounds and fuel.\<close> Loops run by structural recursion, by a measure, or by fuel that a lemma shows to be enough
  (pages: the page budget of the code; polling: one turn more than the number of attempts before the deadline;
  timers: 61 for one minute of countdown; the message reader: some amount is enough for every message). The engine's binary search is a partial function: it returns for every quantity
  below the top of the u64 range (the API admits those of an i64), and does not end at the very top. Quantities
  below \<open>2 ^ 52\<close> are where base units survive binary64.

  \<^bold>\<open>Not modelled.\<close> The server's Go services (only its page arithmetic is, where the client relies on it), the
  proxy contract, deployment scripts, infrastructure, the descriptors of the protobuf distribution, markup and
  styling of the React components, translations, and diagnostics of the wallet. Rendering is modelled as far as it computes
  what is shown. React's scheduling is abstracted to explicit steps, and Unicode to 8-bit characters.
\<close>

end
